(* ===== verification/Prelude.thy ===== *)
theory Prelude
  imports Complex_Main
begin

text \<open>
  What every component of the router model shares: the error values that stand for the
  exceptions of the source, the result type \<open>'a res\<close> and its sequencing, the ordered
  de-duplication that the code writes as \<^verbatim>\<open>dict.fromkeys\<close>,
  \<^verbatim>\<open>_append_once\<close> and \<^verbatim>\<open>_extend_unique\<close>, the small list and option facts the
  components reuse, and the collections of simplification rules.
\<close>

named_theorems res_simps \<open>case analysis of results\<close>
named_theorems uniq_simps \<open>ordered de-duplication\<close>

section \<open>Errors and results\<close>

text \<open>
  One constructor per exception class that the modelled code raises. Messages are not part
  of the model: no modelled code inspects them.
\<close>

datatype router_error =
    InputError
  | ConfigurationError
  | ValueError
  | TypeError
  | KeyError
  | RecursionError
  | IndexError
  | RepositoryUnavailable
  | IdempotencyConflict
  | ConcurrentUpdate
  | PreviewCapacityExceeded

type_synonym 'a res = "router_error + 'a"

definition bind_res :: "'a res \<Rightarrow> ('a \<Rightarrow> 'b res) \<Rightarrow> 'b res" where
  "bind_res m f = (case m of Inl e \<Rightarrow> Inl e | Inr x \<Rightarrow> f x)"

definition check_res :: "bool \<Rightarrow> router_error \<Rightarrow> unit res" where
  "check_res ok e = (if ok then Inr () else Inl e)"

primrec map_res :: "('a \<Rightarrow> 'b res) \<Rightarrow> 'a list \<Rightarrow> 'b list res" where
  "map_res f [] = Inr []"
| "map_res f (x # xs) =
     bind_res (f x) (\<lambda>y. bind_res (map_res f xs) (\<lambda>ys. Inr (y # ys)))"

primrec fold_res :: "('a \<Rightarrow> 's \<Rightarrow> 's res) \<Rightarrow> 'a list \<Rightarrow> 's \<Rightarrow> 's res" where
  "fold_res f [] s = Inr s"
| "fold_res f (x # xs) s = bind_res (f x s) (\<lambda>s'. fold_res f xs s')"

definition get_res :: "('k \<times> 'v) list \<Rightarrow> 'k \<Rightarrow> 'v res" where
  "get_res m k = (case map_of m k of None \<Rightarrow> Inl KeyError | Some v \<Rightarrow> Inr v)"

section \<open>Ordered de-duplication\<close>

text \<open>\<open>extend_unique target values\<close> appends to \<open>target\<close>, in order, the values it does not hold yet.\<close>

primrec extend_unique :: "'a list \<Rightarrow> 'a list \<Rightarrow> 'a list" where
  "extend_unique target [] = target"
| "extend_unique target (x # xs) =
     extend_unique (if x \<in> set target then target else target @ [x]) xs"

definition append_once :: "'a list \<Rightarrow> 'a \<Rightarrow> 'a list" where
  "append_once values x = (if x \<in> set values then values else values @ [x])"

definition stable_unique :: "'a list \<Rightarrow> 'a list" where
  "stable_unique xs = extend_unique [] xs"

section \<open>Facts\<close>

lemma bind_res_simps [simp, res_simps]:
  "bind_res (Inl e) f = Inl e"
  "bind_res (Inr x) f = f x"
  by (simp_all add: bind_res_def)

lemma bind_res_Inr_iff [res_simps]:
  "bind_res m f = Inr y \<longleftrightarrow> (\<exists>x. m = Inr x \<and> f x = Inr y)"
  by (cases m) auto

lemma bind_res_Inl_iff [res_simps]:
  "bind_res m f = Inl e \<longleftrightarrow> m = Inl e \<or> (\<exists>x. m = Inr x \<and> f x = Inl e)"
  by (cases m) auto

lemma check_res_iff [simp, res_simps]:
  "check_res ok e = Inr u \<longleftrightarrow> ok"
  "check_res ok e = Inl e' \<longleftrightarrow> \<not> ok \<and> e' = e"
  by (auto simp: check_res_def)

lemma check_res_cases [simp]:
  "check_res True e = Inr ()"
  "check_res False e = Inl e"
  by (simp_all add: check_res_def)

lemma map_res_Inr_length: "map_res f xs = Inr ys \<Longrightarrow> length ys = length xs"
  by (induction xs arbitrary: ys) (auto simp: bind_res_Inr_iff)

lemma map_res_Inr_nth:
  "map_res f xs = Inr ys \<Longrightarrow> i < length xs \<Longrightarrow> f (xs ! i) = Inr (ys ! i)"
proof (induction xs arbitrary: ys i)
  case Nil
  then show ?case by simp
next
  case (Cons x xs)
  then show ?case by (cases i) (auto simp: bind_res_Inr_iff)
qed

lemma map_res_Inr_all:
  "(\<And>x. x \<in> set xs \<Longrightarrow> \<exists>y. f x = Inr y) \<Longrightarrow> \<exists>ys. map_res f xs = Inr ys"
proof (induction xs)
  case Nil
  then show ?case by simp
next
  case (Cons x xs)
  then obtain ys y where "map_res f xs = Inr ys" and "f x = Inr y" by force
  then show ?case by simp
qed

lemma fold_res_append:
  "fold_res f (xs @ ys) s = bind_res (fold_res f xs s) (fold_res f ys)"
proof (induction xs arbitrary: s)
  case Nil
  then show ?case by simp
next
  case (Cons x xs)
  then show ?case by (cases "f x s") auto
qed

text \<open>Invariants of a fold that may fail, and when it does not fail.\<close>

lemma fold_res_invariant:
  assumes "fold_res f xs s = Inr s'" and "P s"
    and "\<And>x s s'. x \<in> set xs \<Longrightarrow> P s \<Longrightarrow> f x s = Inr s' \<Longrightarrow> P s'"
  shows "P s'"
  using assms
proof (induction xs arbitrary: s)
  case (Cons x xs)
  then obtain t where t: "f x s = Inr t" "fold_res f xs t = Inr s'" by (auto simp: bind_res_Inr_iff)
  show ?case
    by (rule Cons.IH [OF t(2)]) (use Cons.prems t(1) in \<open>auto intro: Cons.prems(3)\<close>)
qed simp

lemma fold_res_total:
  "(\<And>x s. x \<in> set xs \<Longrightarrow> \<exists>s'. f x s = Inr s') \<Longrightarrow> \<exists>s'. fold_res f xs s = Inr s'"
proof (induction xs arbitrary: s)
  case (Cons x xs)
  then obtain t where "f x s = Inr t" by force
  with Cons show ?case by simp
qed simp

text \<open>A fold of a monotone step: what one element establishes is still there at the end.\<close>

lemma fold_res_establishes:
  assumes "fold_res f xs s = Inr s'" and "x \<in> set xs"
    and "\<And>s s'. f x s = Inr s' \<Longrightarrow> Q s'"
    and "\<And>y s s'. y \<in> set xs \<Longrightarrow> Q s \<Longrightarrow> f y s = Inr s' \<Longrightarrow> Q s'"
  shows "Q s'"
proof -
  obtain ys zs where xs: "xs = ys @ x # zs" using assms(2) by (meson split_list)
  then obtain t u where t: "f x t = Inr u" "fold_res f zs u = Inr s'"
    using assms(1) by (auto simp: fold_res_append bind_res_Inr_iff)
  show ?thesis
  proof (rule fold_res_invariant [OF t(2)])
    show "Q u" by (rule assms(3) [OF t(1)])
    show "Q s2" if "y \<in> set zs" "Q s1" "f y s1 = Inr s2" for y s1 s2
      using assms(4) [of y s1 s2] that xs by simp
  qed
qed

lemma get_res_Inr [simp]: "get_res m k = Inr v \<longleftrightarrow> map_of m k = Some v"
  by (auto simp: get_res_def split: option.splits)

lemma get_res_Inl [simp]: "get_res m k = Inl e \<longleftrightarrow> map_of m k = None \<and> e = KeyError"
  by (auto simp: get_res_def split: option.splits)

lemma set_extend_unique [simp, uniq_simps]:
  "set (extend_unique target xs) = set target \<union> set xs"
  by (induction xs arbitrary: target) auto

lemma distinct_extend_unique [simp, uniq_simps]:
  "distinct (extend_unique target xs) \<longleftrightarrow> distinct target"
  by (induction xs arbitrary: target) auto

lemma extend_unique_prefix: "\<exists>zs. extend_unique target xs = target @ zs"
proof (induction xs arbitrary: target)
  case Nil
  then show ?case by simp
next
  case (Cons x xs)
  show ?case using Cons.IH [of "if x \<in> set target then target else target @ [x]"] by auto
qed

lemma extend_unique_Nil_iff [simp]: "extend_unique target xs = [] \<longleftrightarrow> target = [] \<and> xs = []"
proof -
  have "set (extend_unique target xs) = {} \<longleftrightarrow> target = [] \<and> xs = []"
    by (simp only: set_extend_unique) auto
  then show ?thesis by (metis set_empty)
qed

lemma append_once_extend: "append_once xs x = extend_unique xs [x]"
  by (simp add: append_once_def)

lemma set_append_once [simp, uniq_simps]: "set (append_once xs x) = insert x (set xs)"
  by (auto simp: append_once_def)

lemma distinct_append_once [simp, uniq_simps]: "distinct (append_once xs x) \<longleftrightarrow> distinct xs"
  by (auto simp: append_once_def)

lemma append_once_not_Nil [simp]: "append_once xs x \<noteq> []"
  by (auto simp: append_once_def)

lemma set_stable_unique [simp, uniq_simps]: "set (stable_unique xs) = set xs"
  by (simp add: stable_unique_def)

lemma distinct_stable_unique [simp, uniq_simps]: "distinct (stable_unique xs)"
  by (simp add: stable_unique_def)

lemma stable_unique_Nil_iff [simp]: "stable_unique xs = [] \<longleftrightarrow> xs = []"
  by (simp add: stable_unique_def)

lemma find_Some_set: "find P xs = Some x \<Longrightarrow> x \<in> set xs \<and> P x"
  by (induction xs) (auto split: if_splits)

lemma map_of_in_fst: "k \<in> fst ` set m \<longleftrightarrow> (\<exists>v. map_of m k = Some v)"
  by (induction m) auto

end
