(* ===== verification/Decimals.thy ===== *)
theory Decimals
  imports Prelude
begin

text \<open>
  Python's \<^verbatim>\<open>decimal.Decimal\<close>, as far as the router uses it, and the money helpers of
  \<^verbatim>\<open>execution/arithmetic.py\<close>.

  A finite decimal is a signed integer coefficient and an exponent. Each operation first
  forms the exact result and then rounds it to the precision of the active context, in the
  context's rounding mode, as the General Decimal Arithmetic specification prescribes; the
  division follows the standard library's shift, sticky digit and exponent adjustment.
  Exponents are unbounded here: the code works in contexts with the widest exponent range
  the library has. The sign of a zero is not modelled; no comparison or sum can see it.
  Infinities and NaNs are excluded by the validators before any value is stored.
\<close>

section \<open>Values and contexts\<close>

datatype decimal = Dec (coeff: int) (expo: int)

datatype rounding = ROUND_CEILING | ROUND_HALF_EVEN

record dec_context =
  prec :: nat
  rounding_mode :: rounding

text \<open>The number a decimal denotes.\<close>

definition dval :: "decimal \<Rightarrow> rat" where
  "dval d = of_int (coeff d) * 10 powi expo d"

text \<open>\<open>len(str(n))\<close> for a natural number: the number of decimal digits, 1 for zero.\<close>

fun ndigits :: "nat \<Rightarrow> nat" where
  "ndigits n = (if n < 10 then 1 else Suc (ndigits (n div 10)))"

declare ndigits.simps [simp del]

definition digits :: "decimal \<Rightarrow> nat" where
  "digits d = ndigits (nat \<bar>coeff d\<bar>)"

definition adjusted :: "decimal \<Rightarrow> int" where
  "adjusted d = expo d + int (digits d) - 1"

text \<open>Comparison by value: both coefficients are aligned to the smaller exponent.\<close>

definition dec_le :: "decimal \<Rightarrow> decimal \<Rightarrow> bool" where
  "dec_le a b = (let e = min (expo a) (expo b)
     in coeff a * 10 ^ nat (expo a - e) \<le> coeff b * 10 ^ nat (expo b - e))"

definition dec_lt :: "decimal \<Rightarrow> decimal \<Rightarrow> bool" where
  "dec_lt a b = (\<not> dec_le b a)"

definition dec_eq :: "decimal \<Rightarrow> decimal \<Rightarrow> bool" where
  "dec_eq a b = (dec_le a b \<and> dec_le b a)"

definition dec_max :: "decimal \<Rightarrow> decimal \<Rightarrow> decimal" where
  "dec_max a b = (if dec_lt a b then b else a)"

definition dec_min :: "decimal \<Rightarrow> decimal \<Rightarrow> decimal" where
  "dec_min a b = (if dec_lt b a then b else a)"

definition ZERO :: decimal where
  "ZERO = Dec 0 0"

definition dec_of_int :: "int \<Rightarrow> decimal" where
  "dec_of_int n = Dec n 0"

definition copy_negate :: "decimal \<Rightarrow> decimal" where
  "copy_negate d = Dec (- coeff d) (expo d)"

section \<open>Rounded arithmetic\<close>

definition round_div :: "rounding \<Rightarrow> int \<Rightarrow> int \<Rightarrow> int" where
  "round_div mode c m = (case mode of
       ROUND_CEILING \<Rightarrow> - ((- c) div m)
     | ROUND_HALF_EVEN \<Rightarrow>
         (let q = c div m; r = c mod m
          in if 2 * r < m then q else if m < 2 * r then q + 1
             else if even q then q else q + 1))"

definition dec_fix :: "dec_context \<Rightarrow> decimal \<Rightarrow> decimal" where
  "dec_fix ctx d =
     (if digits d \<le> prec ctx then d
      else let k = digits d - prec ctx;
               q = round_div (rounding_mode ctx) (coeff d) (10 ^ k)
           in if prec ctx < ndigits (nat \<bar>q\<bar>)
              then Dec (q div 10) (expo d + int k + 1)
              else Dec q (expo d + int k))"

definition exact_add :: "decimal \<Rightarrow> decimal \<Rightarrow> decimal" where
  "exact_add a b = (let e = min (expo a) (expo b)
     in Dec (coeff a * 10 ^ nat (expo a - e) + coeff b * 10 ^ nat (expo b - e)) e)"

definition exact_mul :: "decimal \<Rightarrow> decimal \<Rightarrow> decimal" where
  "exact_mul a b = Dec (coeff a * coeff b) (expo a + expo b)"

definition dec_add :: "dec_context \<Rightarrow> decimal \<Rightarrow> decimal \<Rightarrow> decimal" where
  "dec_add ctx a b = dec_fix ctx (exact_add a b)"

definition dec_mul :: "dec_context \<Rightarrow> decimal \<Rightarrow> decimal \<Rightarrow> decimal" where
  "dec_mul ctx a b = dec_fix ctx (exact_mul a b)"

text \<open>An exact quotient moves its exponent back towards the ideal one while it ends in zeros.\<close>

function strip_zeros :: "int \<Rightarrow> int \<Rightarrow> int \<Rightarrow> decimal" where
  "strip_zeros c e ideal =
     (if e < ideal \<and> c mod 10 = 0 then strip_zeros (c div 10) (e + 1) ideal else Dec c e)"
  by pat_completeness auto
termination
  by (relation "measure (\<lambda>(c, e, ideal). nat (ideal - e))") auto

declare strip_zeros.simps [simp del]

definition div_shift :: "dec_context \<Rightarrow> decimal \<Rightarrow> decimal \<Rightarrow> int" where
  "div_shift ctx a b = int (digits b) - int (digits a) + int (prec ctx) + 1"

definition div_scaled :: "dec_context \<Rightarrow> decimal \<Rightarrow> decimal \<Rightarrow> int \<times> int" where
  "div_scaled ctx a b = (let shift = div_shift ctx a b
     in if 0 \<le> shift then (\<bar>coeff a\<bar> * 10 ^ nat shift, \<bar>coeff b\<bar>)
        else (\<bar>coeff a\<bar>, \<bar>coeff b\<bar> * 10 ^ nat (- shift)))"

definition dec_div :: "dec_context \<Rightarrow> decimal \<Rightarrow> decimal \<Rightarrow> decimal" where
  "dec_div ctx a b =
     (if coeff a = 0 then dec_fix ctx (Dec 0 (expo a - expo b))
      else let s = sgn (coeff a) * sgn (coeff b);
               e = expo a - expo b - div_shift ctx a b;
               (num, den) = div_scaled ctx a b;
               q = num div den
           in if num mod den \<noteq> 0
              then dec_fix ctx (Dec (s * (if q mod 5 = 0 then q + 1 else q)) e)
              else dec_fix ctx (strip_zeros (s * q) e (expo a - expo b)))"

primrec dec_sum :: "dec_context \<Rightarrow> decimal \<Rightarrow> decimal list \<Rightarrow> decimal" where
  "dec_sum ctx acc [] = acc"
| "dec_sum ctx acc (v # vs) = dec_sum ctx (dec_add ctx acc v) vs"

section \<open>Exact money sums (execution/arithmetic.py)\<close>

definition sum_precision :: "decimal list \<Rightarrow> int" where
  "sum_precision values =
     Max (set (map adjusted values)) - Min (set (map expo values))
       + int (ndigits (length values)) + 2"

definition money_sum :: "decimal list \<Rightarrow> decimal" where
  "money_sum values =
     (if values = [] then ZERO
      else dec_sum \<lparr>prec = nat (max 1 (sum_precision values)), rounding_mode = ROUND_HALF_EVEN\<rparr>
             ZERO values)"

definition money_difference :: "decimal \<Rightarrow> decimal list \<Rightarrow> decimal" where
  "money_difference v debits = money_sum (v # map copy_negate debits)"

text \<open>The validator behind \<^verbatim>\<open>Money\<close>: finite and nonnegative.\<close>

definition money_ok :: "decimal \<Rightarrow> bool" where
  "money_ok d = (0 \<le> coeff d)"

section \<open>Digits\<close>

lemma ndigits_pos [simp]: "0 < ndigits n"
  by (subst ndigits.simps) simp

lemma ndigits_bound: "n < 10 ^ ndigits n"
proof (induction n rule: ndigits.induct)
  case (1 n)
  show ?case
  proof (cases "n < 10")
    case True
    then have "ndigits n = 1" by (subst ndigits.simps) simp
    with True show ?thesis by simp
  next
    case False
    with 1 have "n div 10 < 10 ^ ndigits (n div 10)" by simp
    then have "n < 10 * 10 ^ ndigits (n div 10)" by linarith
    moreover have "ndigits n = Suc (ndigits (n div 10))"
      using False by (subst ndigits.simps) simp
    ultimately show ?thesis by simp
  qed
qed

lemma ndigits_lower: "0 < n \<Longrightarrow> 10 ^ (ndigits n - 1) \<le> n"
proof (induction n rule: ndigits.induct)
  case (1 n)
  show ?case
  proof (cases "n < 10")
    case True
    then have "ndigits n = 1" by (subst ndigits.simps) simp
    with "1.prems" show ?thesis by simp
  next
    case False
    with "1.IH" have ih: "10 ^ (ndigits (n div 10) - 1) \<le> n div 10" by simp
    have "(10::nat) ^ ndigits (n div 10) = 10 * 10 ^ (ndigits (n div 10) - 1)"
      by (rule power_eq_if [THEN trans]) simp
    with ih have "10 ^ ndigits (n div 10) \<le> n" by linarith
    moreover have "ndigits n = Suc (ndigits (n div 10))"
      using False by (subst ndigits.simps) simp
    ultimately show ?thesis by simp
  qed
qed

lemma ndigits_le_iff: "0 < k \<Longrightarrow> ndigits n \<le> k \<longleftrightarrow> n < 10 ^ k"
proof
  assume "0 < k" "ndigits n \<le> k"
  then have "(10::nat) ^ ndigits n \<le> 10 ^ k" by (intro power_increasing) auto
  then show "n < 10 ^ k" using ndigits_bound [of n] by linarith
next
  assume k: "0 < k" and lt: "n < 10 ^ k"
  show "ndigits n \<le> k"
  proof (cases "n = 0")
    case True
    with k show ?thesis by (simp add: ndigits.simps)
  next
    case False
    then have "(10::nat) ^ (ndigits n - 1) < 10 ^ k" using ndigits_lower [of n] lt by linarith
    then have "ndigits n - 1 < k" by (rule power_less_imp_less_exp [rotated]) simp
    then show ?thesis by simp
  qed
qed

text \<open>Evaluation counts the digits of the integer directly, not of a natural number.\<close>

function int_digits :: "int \<Rightarrow> nat" where
  "int_digits n = (if n < 10 then 1 else Suc (int_digits (n div 10)))"
  by pat_completeness auto
termination by (relation "measure nat") auto

declare int_digits.simps [simp del]

lemma int_digits_nat: "int_digits (int n) = ndigits n"
proof (induction n rule: ndigits.induct)
  case (1 n)
  show ?case
  proof (cases "n < 10")
    case True
    then show ?thesis by (simp add: ndigits.simps [of n] int_digits.simps [of "int n"])
  next
    case False
    then have "int n div 10 = int (n div 10)" by (simp add: zdiv_int)
    with False 1 show ?thesis by (simp add: ndigits.simps [of n] int_digits.simps [of "int n"])
  qed
qed

lemma digits_code [code]: "digits d = int_digits \<bar>coeff d\<bar>"
  using int_digits_nat [of "nat \<bar>coeff d\<bar>"] by (simp add: digits_def)

lemma dec_fix_code [code]:
  "dec_fix ctx d =
     (if digits d \<le> prec ctx then d
      else let k = digits d - prec ctx;
               q = round_div (rounding_mode ctx) (coeff d) (10 ^ k)
           in if prec ctx < int_digits \<bar>q\<bar>
              then Dec (q div 10) (expo d + int k + 1)
              else Dec q (expo d + int k))"
  using int_digits_nat [of "nat \<bar>q\<bar>" for q] by (simp add: dec_fix_def Let_def)

lemma digits_pos [simp]: "0 < digits d"
  by (simp add: digits_def)

lemma digits_bound: "\<bar>coeff d\<bar> < 10 ^ digits d"
proof -
  have "int (nat \<bar>coeff d\<bar>) < int (10 ^ digits d)"
    using ndigits_bound [of "nat \<bar>coeff d\<bar>"] by (simp only: digits_def of_nat_less_iff)
  then show ?thesis by simp
qed

lemma digits_lower: "coeff d \<noteq> 0 \<Longrightarrow> 10 ^ (digits d - 1) \<le> \<bar>coeff d\<bar>"
proof -
  assume "coeff d \<noteq> 0"
  then have "int (10 ^ (digits d - 1)) \<le> int (nat \<bar>coeff d\<bar>)"
    using ndigits_lower [of "nat \<bar>coeff d\<bar>"] by (simp add: digits_def flip: of_nat_le_iff)
  then show ?thesis by simp
qed

section \<open>Values\<close>

lemma powi_pos [simp]: "0 < (10::rat) powi e"
  by (simp add: zero_less_power_int)

lemma powi_nat: "0 \<le> e \<Longrightarrow> (10::rat) powi e = 10 ^ nat e"
  by (simp add: power_int_def)

lemma powi_split: "e \<le> f \<Longrightarrow> (10::rat) powi f = 10 ^ nat (f - e) * 10 powi e"
proof -
  assume "e \<le> f"
  have "(10::rat) powi f = 10 powi (f - e) * 10 powi e"
    by (simp flip: power_int_add)
  with \<open>e \<le> f\<close> show ?thesis by (simp add: powi_nat)
qed

lemma dval_align:
  "e \<le> expo d \<Longrightarrow> dval d = of_int (coeff d * 10 ^ nat (expo d - e)) * 10 powi e"
  by (simp add: dval_def powi_split [of e "expo d"])

lemma dec_le_iff [simp]: "dec_le a b \<longleftrightarrow> dval a \<le> dval b"
proof -
  let ?e = "min (expo a) (expo b)"
  have "dval a \<le> dval b \<longleftrightarrow>
      of_int (coeff a * 10 ^ nat (expo a - ?e)) * (10::rat) powi ?e
        \<le> of_int (coeff b * 10 ^ nat (expo b - ?e)) * 10 powi ?e"
    by (simp only: dval_align [of ?e a] dval_align [of ?e b] min.cobounded1 min.cobounded2)
  also have "\<dots> \<longleftrightarrow> coeff a * 10 ^ nat (expo a - ?e) \<le> coeff b * 10 ^ nat (expo b - ?e)"
    by (simp only: mult_le_cancel_right_pos powi_pos of_int_le_iff)
  finally show ?thesis by (simp add: dec_le_def Let_def)
qed

lemma dec_lt_iff [simp]: "dec_lt a b \<longleftrightarrow> dval a < dval b"
  by (auto simp: dec_lt_def)

lemma dec_eq_iff [simp]: "dec_eq a b \<longleftrightarrow> dval a = dval b"
  by (auto simp: dec_eq_def)

lemma dval_dec_max [simp]: "dval (dec_max a b) = max (dval a) (dval b)"
  by (auto simp: dec_max_def)

lemma dval_dec_min [simp]: "dval (dec_min a b) = min (dval a) (dval b)"
  by (auto simp: dec_min_def)

lemma dval_ZERO [simp]: "dval ZERO = 0"
  by (simp add: ZERO_def dval_def)

lemma dval_of_int [simp]: "dval (dec_of_int n) = of_int n"
  by (simp add: dec_of_int_def dval_def)

lemma dval_copy_negate [simp]: "dval (copy_negate d) = - dval d"
  by (simp add: copy_negate_def dval_def)

lemma money_ok_iff: "money_ok d \<longleftrightarrow> 0 \<le> dval d"
  using powi_pos [of "expo d"]
  by (simp add: money_ok_def dval_def zero_le_mult_iff not_le [symmetric] del: powi_pos)

lemma dval_exact_add [simp]: "dval (exact_add a b) = dval a + dval b"
proof -
  let ?e = "min (expo a) (expo b)"
  have "dval a + dval b = of_int (coeff a * 10 ^ nat (expo a - ?e)
      + coeff b * 10 ^ nat (expo b - ?e)) * 10 powi ?e"
    by (simp only: dval_align [of ?e a] dval_align [of ?e b] min.cobounded1 min.cobounded2
        of_int_add distrib_right)
  then show ?thesis by (simp add: exact_add_def Let_def dval_def)
qed

lemma dval_exact_mul [simp]: "dval (exact_mul a b) = dval a * dval b"
  by (simp add: exact_mul_def dval_def power_int_add)

section \<open>When rounding is exact, and which way it errs\<close>

lemma round_div_exact: "0 < m \<Longrightarrow> m dvd c \<Longrightarrow> round_div mode c m = c div m"
proof (cases mode)
  case ROUND_CEILING
  assume "0 < m" "m dvd c"
  then show ?thesis using ROUND_CEILING by (simp add: round_div_def dvd_neg_div)
next
  case ROUND_HALF_EVEN
  assume "0 < m" "m dvd c"
  then show ?thesis using ROUND_HALF_EVEN by (simp add: round_div_def Let_def)
qed

lemma round_div_ceiling: "0 < m \<Longrightarrow> c \<le> round_div ROUND_CEILING c m * m"
proof -
  assume "0 < m"
  have "(- c) div m * m \<le> - c"
    using minus_mod_eq_div_mult [of "- c" m] pos_mod_sign [OF \<open>0 < m\<close>, of "- c"] by linarith
  then show ?thesis by (simp add: round_div_def)
qed

lemma round_div_ceiling_le: "0 < m \<Longrightarrow> c \<le> b * m \<Longrightarrow> round_div ROUND_CEILING c m \<le> b"
proof -
  assume m: "0 < m" and "c \<le> b * m"
  then have "(- b * m) div m \<le> (- c) div m" by (intro zdiv_mono1) auto
  moreover have "(- b * m) div m = - b" using m by (intro nonzero_mult_div_cancel_right) simp
  ultimately show ?thesis by (simp add: round_div_def)
qed

text \<open>Rounding a value that already has at most \<open>prec\<close> significant digits changes nothing.\<close>

lemma dec_fix_exact:
  assumes "0 < prec ctx" and "10 ^ j dvd coeff d" and "\<bar>coeff d\<bar> < 10 ^ (prec ctx + j)"
  shows "dval (dec_fix ctx d) = dval d"
proof (cases "digits d \<le> prec ctx")
  case True
  then show ?thesis by (simp add: dec_fix_def)
next
  case False
  let ?k = "digits d - prec ctx"
  let ?q = "coeff d div 10 ^ ?k"
  have nz: "coeff d \<noteq> 0"
    using False assms(1) by (auto simp: digits_def ndigits.simps [of 0])
  from digits_lower [OF nz] assms(3) have "(10::int) ^ (digits d - 1) < 10 ^ (prec ctx + j)"
    by linarith
  then have "digits d - 1 < prec ctx + j" by (rule power_less_imp_less_exp [rotated]) simp
  then have "?k \<le> j" using False by simp
  then have dvd: "10 ^ ?k dvd coeff d"
    using assms(2) le_imp_power_dvd dvd_trans by blast
  then have eq: "?q * 10 ^ ?k = coeff d" by simp
  have "\<bar>?q\<bar> * 10 ^ ?k < 10 ^ prec ctx * 10 ^ ?k"
  proof -
    have "\<bar>?q\<bar> * 10 ^ ?k = \<bar>coeff d\<bar>"
      using arg_cong [OF eq, of abs] by (simp add: abs_mult)
    also have "\<dots> < 10 ^ digits d" by (rule digits_bound)
    also have "(10::int) ^ digits d = 10 ^ prec ctx * 10 ^ ?k"
      using False by (simp flip: power_add)
    finally show ?thesis .
  qed
  then have "nat \<bar>?q\<bar> < 10 ^ prec ctx" by (simp add: nat_less_iff)
  then have nocarry: "ndigits (nat \<bar>?q\<bar>) \<le> prec ctx"
    using assms(1) by (simp add: ndigits_le_iff)
  have "dval (dec_fix ctx d) = of_int ?q * 10 powi (expo d + int ?k)"
    using False dvd nocarry by (simp add: dec_fix_def Let_def round_div_exact dval_def)
  also have "\<dots> = of_int (?q * 10 ^ ?k) * 10 powi expo d"
    by (simp add: power_int_add)
  finally show ?thesis using eq by (simp add: dval_def)
qed

lemma dec_fix_exact_val:
  assumes p: "0 < prec ctx" and eq: "dval d = of_int t * 10 powi m" and lt: "\<bar>t\<bar> < 10 ^ prec ctx"
  shows "dval (dec_fix ctx d) = dval d"
proof (cases "expo d \<le> m")
  case True
  have "of_int (coeff d) * (10::rat) powi expo d
      = of_int (t * 10 ^ nat (m - expo d)) * 10 powi expo d"
    using eq powi_split [OF True] by (simp add: dval_def)
  then have c: "coeff d = t * 10 ^ nat (m - expo d)"
    by (simp only: mult_cancel_right of_int_eq_iff) simp
  show ?thesis
  proof (rule dec_fix_exact [OF p, of "nat (m - expo d)"])
    show "10 ^ nat (m - expo d) dvd coeff d" by (simp add: c)
    show "\<bar>coeff d\<bar> < 10 ^ (prec ctx + nat (m - expo d))"
      using lt by (simp add: c abs_mult power_add)
  qed
next
  case False
  then have "m \<le> expo d" by simp
  have "of_int (coeff d * 10 ^ nat (expo d - m)) * (10::rat) powi m = of_int t * 10 powi m"
    using eq powi_split [OF \<open>m \<le> expo d\<close>] by (simp add: dval_def)
  then have "coeff d * 10 ^ nat (expo d - m) = t"
    by (simp only: mult_cancel_right of_int_eq_iff) simp
  then have "\<bar>coeff d\<bar> * 10 ^ nat (expo d - m) = \<bar>t\<bar>" by (auto simp: abs_mult)
  moreover have "\<bar>coeff d\<bar> * 1 \<le> \<bar>coeff d\<bar> * 10 ^ nat (expo d - m)"
    by (intro mult_left_mono) auto
  ultimately have "\<bar>coeff d\<bar> < 10 ^ (prec ctx + 0)" using lt by simp
  then show ?thesis by (intro dec_fix_exact [OF p, of 0]) auto
qed

text \<open>Under \<open>ROUND_CEILING\<close> a nonnegative value is never rounded down and stays nonnegative.\<close>

lemma dec_fix_ceiling_val:
  assumes p: "0 < prec ctx" and mode: "rounding_mode ctx = ROUND_CEILING" and nn: "0 \<le> coeff d"
    and big: "\<not> digits d \<le> prec ctx"
  defines "k \<equiv> digits d - prec ctx"
  defines "q \<equiv> round_div ROUND_CEILING (coeff d) (10 ^ k)"
  shows "dval (dec_fix ctx d) = of_int (q * 10 ^ k) * 10 powi expo d"
    and "coeff d \<le> q * 10 ^ k" and "0 \<le> coeff (dec_fix ctx d)"
proof -
  show up: "coeff d \<le> q * 10 ^ k" unfolding q_def by (rule round_div_ceiling) simp
  have "0 \<le> q * 10 ^ k" using nn up by linarith
  then have q0: "0 \<le> q" by (simp add: zero_le_mult_iff power_le_zero_eq)
  have "coeff d \<le> 10 ^ prec ctx * 10 ^ k"
    using digits_bound [of d] big by (simp add: k_def flip: power_add)
  then have qle: "q \<le> 10 ^ prec ctx" unfolding q_def by (intro round_div_ceiling_le) auto
  have "dval (dec_fix ctx d) = of_int q * 10 powi (expo d + int k) \<and> 0 \<le> coeff (dec_fix ctx d)"
  proof (cases "prec ctx < ndigits (nat \<bar>q\<bar>)")
    case True
    then have "\<not> nat \<bar>q\<bar> < 10 ^ prec ctx" using ndigits_le_iff [OF p] by (metis not_le)
    with q0 qle have q: "q = 10 ^ prec ctx" by (simp add: nat_less_iff)
    have ten: "(q div 10) * 10 = q" using p by (simp add: q)
    have "of_int q * (10::rat) powi (expo d + int k)
        = of_int (q div 10) * 10 powi (expo d + int k + 1)"
      by (subst ten [symmetric]) (simp add: power_int_add)
    with True big q0 mode show ?thesis
      by (simp add: dec_fix_def Let_def dval_def pos_imp_zdiv_nonneg_iff flip: k_def q_def)
  next
    case False
    with big q0 mode show ?thesis
      by (simp add: dec_fix_def Let_def dval_def flip: k_def q_def)
  qed
  then show "dval (dec_fix ctx d) = of_int (q * 10 ^ k) * 10 powi expo d"
    and "0 \<le> coeff (dec_fix ctx d)"
    by (simp_all add: power_int_add)
qed

lemma dec_fix_ceiling:
  assumes "0 < prec ctx" and "rounding_mode ctx = ROUND_CEILING" and "0 \<le> coeff d"
  shows "dval d \<le> dval (dec_fix ctx d) \<and> 0 \<le> coeff (dec_fix ctx d)"
proof (cases "digits d \<le> prec ctx")
  case True
  with assms(3) show ?thesis by (simp add: dec_fix_def)
next
  case False
  note val = dec_fix_ceiling_val [OF assms False]
  show ?thesis
    unfolding val(1) dval_def [of d] using val(2,3)
    by (auto intro!: mult_right_mono simp only: of_int_le_iff less_imp_le [OF powi_pos])
qed

lemma dec_fix_ceiling_sticky:
  assumes p: "0 < prec ctx" and mode: "rounding_mode ctx = ROUND_CEILING"
    and big: "10 ^ prec ctx \<le> c" and sticky: "c mod 10 \<noteq> 0"
  shows "of_int (c + 1) * 10 powi e \<le> dval (dec_fix ctx (Dec c e))"
proof -
  have pos: "0 \<le> c" using big zero_le_power [of "10::int" "prec ctx"] by linarith
  have "\<not> nat c < 10 ^ prec ctx" using big pos by (simp add: nat_less_iff)
  then have "\<not> ndigits (nat c) \<le> prec ctx" using ndigits_le_iff [OF p] by blast
  then have large: "\<not> digits (Dec c e) \<le> prec ctx" using pos by (simp add: digits_def)
  let ?k = "digits (Dec c e) - prec ctx"
  let ?q = "round_div ROUND_CEILING c (10 ^ ?k)"
  have val: "dval (dec_fix ctx (Dec c e)) = of_int (?q * 10 ^ ?k) * 10 powi e" "c \<le> ?q * 10 ^ ?k"
    using dec_fix_ceiling_val [OF p mode _ large] pos by auto
  have "10 dvd ?q * 10 ^ ?k" using large by (intro dvd_mult dvd_power) auto
  with sticky have "c \<noteq> ?q * 10 ^ ?k" by auto
  with val(2) have "c + 1 \<le> ?q * 10 ^ ?k" by linarith
  then show ?thesis unfolding val(1)
    by (intro mult_right_mono) (simp_all only: of_int_le_iff less_imp_le [OF powi_pos])
qed

lemma dec_add_ceiling:
  assumes "0 < prec ctx" and "rounding_mode ctx = ROUND_CEILING" and "money_ok a" and "money_ok b"
  shows "dval a + dval b \<le> dval (dec_add ctx a b) \<and> money_ok (dec_add ctx a b)"
proof -
  have "money_ok (exact_add a b)" using assms(3,4) by (simp add: money_ok_iff)
  with assms(1,2) show ?thesis
    using dec_fix_ceiling [of ctx "exact_add a b"] by (simp add: dec_add_def money_ok_def)
qed

lemma dec_mul_ceiling:
  assumes "0 < prec ctx" and "rounding_mode ctx = ROUND_CEILING" and "money_ok a" and "money_ok b"
  shows "dval a * dval b \<le> dval (dec_mul ctx a b) \<and> money_ok (dec_mul ctx a b)"
proof -
  have "money_ok (exact_mul a b)" using assms(3,4) by (simp add: money_ok_iff)
  with assms(1,2) show ?thesis
    using dec_fix_ceiling [of ctx "exact_mul a b"] by (simp add: dec_mul_def money_ok_def)
qed

lemma dec_sum_ceiling:
  assumes "0 < prec ctx" and "rounding_mode ctx = ROUND_CEILING"
  shows "money_ok acc \<Longrightarrow> list_all money_ok vs \<Longrightarrow>
    dval acc + sum_list (map dval vs) \<le> dval (dec_sum ctx acc vs) \<and> money_ok (dec_sum ctx acc vs)"
proof (induction vs arbitrary: acc)
  case Nil
  then show ?case by simp
next
  case (Cons v vs)
  then have step: "dval acc + dval v \<le> dval (dec_add ctx acc v)" "money_ok (dec_add ctx acc v)"
    using dec_add_ceiling [OF assms, of acc v] by auto
  with Cons.IH [of "dec_add ctx acc v"] Cons.prems show ?case by auto
qed

section \<open>Money sums are exact\<close>

lemma dec_add_exact:
  assumes "0 < prec ctx" and "dval a + dval b = of_int t * 10 powi m" and "\<bar>t\<bar> < 10 ^ prec ctx"
  shows "dval (dec_add ctx a b) = dval a + dval b"
  using dec_fix_exact_val [of ctx "exact_add a b" t m] assms by (simp add: dec_add_def)

text \<open>
  With every summand a multiple of \<open>10 powi m\<close> below \<open>B\<close> units, a sum whose running total
  stays below \<open>10 ^ prec\<close> units is computed without rounding.
\<close>

lemma dec_sum_exact:
  assumes p: "0 < prec ctx"
  shows "\<lbrakk>dval acc = of_int T * 10 powi m; \<bar>T\<bar> \<le> int k * B;
      \<forall>v \<in> set vs. \<exists>t. dval v = of_int t * 10 powi m \<and> \<bar>t\<bar> < B;
      int (k + length vs) * B < 10 ^ prec ctx; 0 \<le> B\<rbrakk>
    \<Longrightarrow> dval (dec_sum ctx acc vs) = dval acc + sum_list (map dval vs)"
proof (induction vs arbitrary: acc T k)
  case Nil
  then show ?case by simp
next
  case (Cons v vs)
  obtain t where t: "dval v = of_int t * 10 powi m" "\<bar>t\<bar> < B" using Cons.prems(3) by auto
  have sum: "dval acc + dval v = of_int (T + t) * 10 powi m"
    using Cons.prems(1) t(1) by (simp add: distrib_right)
  have bound: "\<bar>T + t\<bar> \<le> int (Suc k) * B"
    using Cons.prems(2) t(2) by (simp add: distrib_right)
  have "int (Suc k) * B \<le> int (k + length (v # vs)) * B"
    using Cons.prems(5) by (intro mult_right_mono) auto
  with bound Cons.prems(4) have "\<bar>T + t\<bar> < 10 ^ prec ctx" by linarith
  then have step: "dval (dec_add ctx acc v) = of_int (T + t) * 10 powi m"
    using dec_add_exact [OF p sum] sum by simp
  have "dval (dec_sum ctx (dec_add ctx acc v) vs)
      = dval (dec_add ctx acc v) + sum_list (map dval vs)"
    by (rule Cons.IH [OF step bound]) (use Cons.prems in auto)
  then show ?case using step sum by simp
qed

lemma summand_units:
  assumes "m \<le> expo v" and "adjusted v \<le> M"
  shows "\<exists>t. dval v = of_int t * 10 powi m \<and> \<bar>t\<bar> < 10 ^ nat (M + 1 - m)"
proof (intro exI conjI)
  let ?t = "coeff v * 10 ^ nat (expo v - m)"
  show "dval v = of_int ?t * 10 powi m" by (rule dval_align [OF assms(1)])
  have "\<bar>?t\<bar> = \<bar>coeff v\<bar> * 10 ^ nat (expo v - m)" by (simp add: abs_mult)
  also have "\<dots> < 10 ^ digits v * 10 ^ nat (expo v - m)"
    using digits_bound [of v] by (intro mult_strict_right_mono) auto
  also have "\<dots> = 10 ^ (digits v + nat (expo v - m))" by (simp add: power_add)
  also have "\<dots> \<le> (10::int) ^ nat (M + 1 - m)"
    using assms by (intro power_increasing) (auto simp: adjusted_def)
  finally show "\<bar>?t\<bar> < 10 ^ nat (M + 1 - m)" .
qed

lemma money_sum_exact: "dval (money_sum vs) = sum_list (map dval vs)"
proof (cases "vs = []")
  case True
  then show ?thesis by (simp add: money_sum_def)
next
  case False
  define M where "M = Max (set (map adjusted vs))"
  define m where "m = Min (set (map expo vs))"
  define ctx where "ctx = \<lparr>prec = nat (max 1 (sum_precision vs)), rounding_mode = ROUND_HALF_EVEN\<rparr>"
  have le: "m \<le> expo v \<and> adjusted v \<le> M" if "v \<in> set vs" for v
    using that by (auto simp: m_def M_def)
  obtain v where v: "v \<in> set vs" using False by (cases vs) auto
  have span: "0 < M + 1 - m"
    using le [OF v] digits_pos [of v] by (simp add: adjusted_def del: digits_pos)
  have prec: "prec ctx = nat (M + 1 - m) + ndigits (length vs) + 1"
  proof -
    have "sum_precision vs = M - m + int (ndigits (length vs)) + 2"
      by (simp only: sum_precision_def M_def m_def)
    with span show ?thesis by (simp add: ctx_def)
  qed
  have "int (length vs) < 10 ^ ndigits (length vs)"
    using ndigits_bound [of "length vs"] by (metis of_nat_less_iff of_nat_numeral of_nat_power)
  then have "int (length vs) * 10 ^ nat (M + 1 - m)
      < 10 ^ ndigits (length vs) * 10 ^ nat (M + 1 - m)"
    by (intro mult_strict_right_mono) auto
  also have "\<dots> \<le> 10 ^ prec ctx" by (simp add: prec power_add)
  finally have total: "int (0 + length vs) * 10 ^ nat (M + 1 - m) < 10 ^ prec ctx" by simp
  have "dval (dec_sum ctx ZERO vs) = dval ZERO + sum_list (map dval vs)"
  proof (rule dec_sum_exact [where T = 0 and k = 0 and m = m and B = "10 ^ nat (M + 1 - m)"])
    show "0 < prec ctx" by (simp add: prec)
    show "\<forall>v\<in>set vs. \<exists>t. dval v = rat_of_int t * 10 powi m \<and> \<bar>t\<bar> < 10 ^ nat (M + 1 - m)"
      using summand_units le by blast
  qed (use total in auto)
  with False show ?thesis by (simp add: money_sum_def ctx_def)
qed

lemma money_difference_exact:
  "dval (money_difference v debits) = dval v - sum_list (map dval debits)"
  by (simp add: money_difference_def money_sum_exact o_def uminus_sum_list_map)

section \<open>Division rounds up to the quotient\<close>

lemma dval_strip_zeros: "dval (strip_zeros c e ideal) = of_int c * 10 powi e"
proof (induction c e ideal rule: strip_zeros.induct)
  case (1 c e ideal)
  show ?case
  proof (cases "e < ideal \<and> c mod 10 = 0")
    case True
    then have "strip_zeros c e ideal = strip_zeros (c div 10) (e + 1) ideal"
      by (subst strip_zeros.simps) simp
    moreover have "of_int c * (10::rat) powi e = of_int (c div 10) * 10 powi (e + 1)"
    proof -
      have "(c div 10) * 10 = c" using True by presburger
      then have "of_int (c div 10) * (10::rat) = of_int c"
        by (metis of_int_mult of_int_numeral)
      then show ?thesis by (simp add: power_int_add)
    qed
    ultimately show ?thesis using 1 [OF True] by simp
  next
    case False
    then have "strip_zeros c e ideal = Dec c e" by (subst strip_zeros.simps) auto
    then show ?thesis by (simp add: dval_def)
  qed
qed

lemma div_scaled_spec:
  assumes "0 < coeff a" and "0 < coeff b" and "0 < prec ctx"
    and "div_scaled ctx a b = (num, den)"
  shows "0 < den" and "10 ^ prec ctx \<le> num div den"
    and "dval a / dval b = of_int num / of_int den * 10 powi (expo a - expo b - div_shift ctx a b)"
proof -
  let ?s = "div_shift ctx a b"
  show den: "0 < den"
    using assms by (auto simp: div_scaled_def Let_def split: if_splits)
  have a: "10 ^ (digits a - 1) \<le> coeff a" using digits_lower [of a] assms(1) by simp
  have b: "coeff b < 10 ^ digits b" using digits_bound [of b] assms(2) by simp
  have "10 ^ prec ctx * den \<le> num"
  proof (cases "0 \<le> ?s")
    case True
    have "10 ^ prec ctx * coeff b \<le> 10 ^ prec ctx * 10 ^ digits b"
      using b by (intro mult_left_mono) auto
    also have "\<dots> = 10 ^ (digits a - 1) * 10 ^ nat ?s"
    proof -
      have "prec ctx + digits b = digits a - 1 + nat ?s"
        using True digits_pos [of a] unfolding div_shift_def by linarith
      then show ?thesis by (metis power_add)
    qed
    also have "\<dots> \<le> coeff a * 10 ^ nat ?s" using a by (intro mult_right_mono) auto
    finally show ?thesis using True assms by (auto simp: div_scaled_def Let_def)
  next
    case False
    have "10 ^ prec ctx * (coeff b * 10 ^ nat (- ?s)) \<le> 10 ^ prec ctx * (10 ^ digits b * 10 ^ nat (- ?s))"
      using b by (intro mult_left_mono mult_right_mono) auto
    also have "\<dots> = 10 ^ (digits a - 1)"
      using False by (simp add: div_shift_def flip: power_add)
    finally show ?thesis using False a assms by (auto simp: div_scaled_def Let_def)
  qed
  then have "(10 ^ prec ctx * den) div den \<le> num div den" using den by (intro zdiv_mono1) auto
  then show "10 ^ prec ctx \<le> num div den" using den by simp
  have split: "(10::rat) powi (expo a - expo b - ?s) = 10 powi expo a / 10 powi expo b / 10 powi ?s"
    by (simp add: power_int_diff)
  show "dval a / dval b = of_int num / of_int den * 10 powi (expo a - expo b - ?s)"
  proof (cases "0 \<le> ?s")
    case True
    then have "num = coeff a * 10 ^ nat ?s" "den = coeff b" "(10::rat) powi ?s = 10 ^ nat ?s"
      using assms by (auto simp: div_scaled_def Let_def powi_nat)
    then show ?thesis unfolding split dval_def by simp
  next
    case False
    then have "num = coeff a" "den = coeff b * 10 ^ nat (- ?s)"
      "(10::rat) powi ?s = inverse (10 ^ nat (- ?s))"
      using assms by (auto simp: div_scaled_def Let_def power_int_def power_one_over inverse_eq_divide)
    then show ?thesis unfolding split dval_def by simp
  qed
qed

text \<open>
  The sticky digit makes the dropped remainder visible to the rounding step, so a
  \<open>ROUND_CEILING\<close> quotient of nonnegative operands is never below the true quotient.
\<close>

lemma dec_div_ceiling:
  assumes p: "0 < prec ctx" and mode: "rounding_mode ctx = ROUND_CEILING"
    and a: "money_ok a" and b: "0 < coeff b"
  shows "dval a / dval b \<le> dval (dec_div ctx a b) \<and> money_ok (dec_div ctx a b)"
proof (cases "coeff a = 0")
  case True
  then show ?thesis
    using dec_fix_ceiling [OF p mode, of "Dec 0 (expo a - expo b)"]
    by (simp add: dec_div_def dval_def money_ok_def)
next
  case False
  with a have a: "0 < coeff a" by (simp add: money_ok_def)
  obtain num den where nd: "div_scaled ctx a b = (num, den)" by fastforce
  note spec = div_scaled_spec [OF a b p nd]
  let ?e = "expo a - expo b - div_shift ctx a b" and ?q = "num div den"
  have q: "0 < ?q" using spec(2) zero_less_power [of "10::int" "prec ctx"] by linarith
  show ?thesis
  proof (cases "num mod den = 0")
    case True
    then have "num = ?q * den" by auto
    then have "(of_int num :: rat) / of_int den = of_int ?q"
      using spec(1) by (metis nonzero_mult_div_cancel_right of_int_0_eq_iff of_int_mult less_irrefl)
    then have val: "dval a / dval b = dval (strip_zeros ?q ?e (expo a - expo b))"
      using spec(3) by (simp add: dval_strip_zeros)
    have "dval (strip_zeros ?q ?e (expo a - expo b)) \<ge> 0"
      using q by (simp add: dval_strip_zeros less_imp_le [OF powi_pos])
    then have "0 \<le> coeff (strip_zeros ?q ?e (expo a - expo b))"
      by (simp flip: money_ok_iff add: money_ok_def)
    then show ?thesis
      using dec_fix_ceiling [OF p mode] val True False a b nd
      by (simp add: dec_div_def Let_def money_ok_def)
  next
    case rem: False
    let ?c = "if ?q mod 5 = 0 then ?q + 1 else ?q"
    have "(if x mod 5 = 0 then x + 1 else x) mod 10 \<noteq> 0" for x :: int by presburger
    then have c: "?c mod 10 \<noteq> 0" "?q \<le> ?c" by auto
    have "num < (?q + 1) * den"
      unfolding distrib_right
      using pos_mod_bound [OF spec(1), of num] div_mult_mod_eq [of num den] by linarith
    then have "(of_int num :: rat) < of_int (?q + 1) * of_int den"
      by (metis of_int_less_iff of_int_mult)
    then have "of_int num / of_int den \<le> (of_int (?q + 1) :: rat)"
      using spec(1) by (simp add: divide_le_eq)
    also have "\<dots> \<le> of_int (?c + 1)" using c(2) by (simp only: of_int_le_iff add_le_cancel_right)
    finally have "dval a / dval b \<le> of_int (?c + 1) * 10 powi ?e"
      unfolding spec(3) by (intro mult_right_mono) (simp_all only: less_imp_le [OF powi_pos])
    also have "\<dots> \<le> dval (dec_fix ctx (Dec ?c ?e))"
      using c spec(2) by (intro dec_fix_ceiling_sticky [OF p mode]) linarith+
    finally show ?thesis
      using dec_fix_ceiling [OF p mode, of "Dec ?c ?e"] q rem False a b nd
      by (simp add: dec_div_def Let_def money_ok_def)
  qed
qed

text \<open>A quotient with at most \<open>prec\<close> significant digits is computed exactly.\<close>

lemma dec_div_exact:
  assumes p: "0 < prec ctx" and a: "money_ok a" and b: "0 < coeff b"
    and eq: "dval a / dval b = of_int t * 10 powi m" and lt: "\<bar>t\<bar> < 10 ^ prec ctx"
  shows "dval (dec_div ctx a b) = dval a / dval b"
proof (cases "coeff a = 0")
  case True
  then show ?thesis using p by (simp add: dec_div_def dec_fix_def digits_def ndigits.simps [of 0] dval_def)
next
  case False
  with a have a: "0 < coeff a" by (simp add: money_ok_def)
  obtain num den where nd: "div_scaled ctx a b = (num, den)" by fastforce
  note spec = div_scaled_spec [OF a b p nd]
  let ?e = "expo a - expo b - div_shift ctx a b" and ?q = "num div den"
  have ratio: "of_int num / of_int den * (10::rat) powi ?e = of_int t * 10 powi m"
    using spec(3) eq by simp
  have "?q * den \<le> num"
    using pos_mod_sign [OF spec(1), of num] div_mult_mod_eq [of num den] by linarith
  moreover have "10 ^ prec ctx * den \<le> ?q * den" using spec(1,2) by (intro mult_right_mono) auto
  ultimately have "10 ^ prec ctx * den \<le> num" by linarith
  then have big: "(10::rat) ^ prec ctx \<le> of_int num / of_int den"
    using spec(1)
    by (simp add: pos_le_divide_eq flip: of_int_le_iff [where ?'a = rat])
  have "?e \<le> m"
  proof (rule ccontr)
    assume "\<not> ?e \<le> m"
    then have "(10::rat) powi ?e = 10 ^ nat (?e - m) * 10 powi m" by (intro powi_split) simp
    with ratio have "of_int num / of_int den * (10::rat) ^ nat (?e - m) * 10 powi m
        = of_int t * 10 powi m" by (simp only: mult.assoc)
    then have "of_int num / of_int den * (10::rat) ^ nat (?e - m) = of_int t"
      by (simp only: mult_cancel_right) simp
    moreover have "(10::rat) ^ prec ctx * 1 \<le> of_int num / of_int den * 10 ^ nat (?e - m)"
      using big order_trans [OF _ big, of 0] by (intro mult_mono) auto
    ultimately have "(10::rat) ^ prec ctx \<le> of_int t" by simp
    then have "10 ^ prec ctx \<le> t" by (metis of_int_le_iff of_int_numeral of_int_power)
    with lt show False by simp
  qed
  then have "(10::rat) powi m = 10 ^ nat (m - ?e) * 10 powi ?e" by (rule powi_split)
  with ratio have "of_int num / of_int den * (10::rat) powi ?e
      = of_int (t * 10 ^ nat (m - ?e)) * 10 powi ?e" by simp
  then have "of_int num / of_int den = (of_int (t * 10 ^ nat (m - ?e)) :: rat)"
    by (simp only: mult_cancel_right) simp
  then have "(of_int num :: rat) = of_int (t * 10 ^ nat (m - ?e)) * of_int den"
    using spec(1) by (simp only: divide_eq_eq of_int_0_eq_iff split: if_splits)
  then have num: "num = t * 10 ^ nat (m - ?e) * den"
    by (simp only: of_int_eq_iff flip: of_int_mult)
  then have rem: "num mod den = 0" and q: "?q = t * 10 ^ nat (m - ?e)" using spec(1) by auto
  have val: "dval (strip_zeros ?q ?e (expo a - expo b)) = of_int t * 10 powi m"
    using powi_split [OF \<open>?e \<le> m\<close>] by (simp add: dval_strip_zeros q)
  have "dec_div ctx a b = dec_fix ctx (strip_zeros ?q ?e (expo a - expo b))"
    using False a b nd rem by (simp add: dec_div_def Let_def)
  then show ?thesis using dec_fix_exact_val [OF p val lt] val eq by simp
qed

section \<open>Evaluating exact quotients\<close>

lemma strip_zeros_power: "strip_zeros (c * 10 ^ k) (ideal - int k) ideal = Dec c ideal"
proof (induction k)
  case (Suc k)
  have "strip_zeros (c * 10 ^ Suc k) (ideal - int (Suc k)) ideal
      = strip_zeros (c * 10 ^ Suc k div 10) (ideal - int (Suc k) + 1) ideal"
    by (subst strip_zeros.simps) simp
  also have "\<dots> = strip_zeros (c * 10 ^ k) (ideal - int k) ideal" by simp
  finally show ?case using Suc by simp
qed (subst strip_zeros.simps, simp)

text \<open>When the coefficients divide, the quotient is at the ideal exponent; this spares the scaling.\<close>

lemma dec_div_dvd:
  assumes a: "0 < coeff a" and b: "0 < coeff b" and dvd: "coeff a mod coeff b = 0"
    and shift: "0 \<le> div_shift ctx a b" and fits: "digits (Dec (coeff a div coeff b) 0) \<le> prec ctx"
  shows "dec_div ctx a b = Dec (coeff a div coeff b) (expo a - expo b)"
proof -
  let ?k = "nat (div_shift ctx a b)" and ?q = "coeff a div coeff b"
  have a': "coeff a = ?q * coeff b" using dvd by (simp add: mod_0_imp_dvd)
  have scaled: "div_scaled ctx a b = (coeff a * 10 ^ ?k, coeff b)"
    using a b shift by (simp add: div_scaled_def Let_def)
  have num: "coeff a * 10 ^ ?k = ?q * 10 ^ ?k * coeff b" using a' by (metis mult.assoc mult.commute)
  have "coeff a * 10 ^ ?k div coeff b = ?q * 10 ^ ?k" "coeff a * 10 ^ ?k mod coeff b = 0"
    unfolding num using b by simp_all
  then have "dec_div ctx a b = dec_fix ctx (strip_zeros (?q * 10 ^ ?k) (expo a - expo b - int ?k) (expo a - expo b))"
    using a b shift by (simp add: dec_div_def scaled Let_def)
  also have "\<dots> = Dec ?q (expo a - expo b)"
    unfolding strip_zeros_power using fits by (simp add: dec_fix_def digits_def)
  finally show ?thesis .
qed

lemma dec_div_code [code]:
  "dec_div ctx a b =
     (if 0 < coeff a \<and> 0 < coeff b \<and> coeff a mod coeff b = 0 \<and> 0 \<le> div_shift ctx a b
         \<and> digits (Dec (coeff a div coeff b) 0) \<le> prec ctx
      then Dec (coeff a div coeff b) (expo a - expo b)
      else if coeff a = 0 then dec_fix ctx (Dec 0 (expo a - expo b))
      else let s = sgn (coeff a) * sgn (coeff b);
               e = expo a - expo b - div_shift ctx a b;
               (num, den) = div_scaled ctx a b;
               q = num div den
           in if num mod den \<noteq> 0
              then dec_fix ctx (Dec (s * (if q mod 5 = 0 then q + 1 else q)) e)
              else dec_fix ctx (strip_zeros (s * q) e (expo a - expo b)))"
proof (cases "0 < coeff a \<and> 0 < coeff b \<and> coeff a mod coeff b = 0 \<and> 0 \<le> div_shift ctx a b
         \<and> digits (Dec (coeff a div coeff b) 0) \<le> prec ctx")
  case True
  then show ?thesis by (simp add: dec_div_dvd)
qed (simp only: dec_div_def if_False)

end
