(* ===== verification/Contracts.thy ===== *)
theory Contracts
  imports Decimals
begin

text \<open>
  The normalized inputs and evidence of \<^verbatim>\<open>core/contracts.py\<close>: the enumerations, the
  request, classification, environment and decision records, and the validators that run
  when such a record is built.

  Field names carry a short prefix for the record they belong to and then the name of the
  source. A \<^verbatim>\<open>Count\<close> is a natural number, a \<^verbatim>\<open>Money\<close> a decimal, an aware
  \<^verbatim>\<open>datetime\<close> the integer number of microseconds since a fixed instant, the confidence
  (a float) a rational, which it is. A dict whose order the code observes is an association
  list. \<^verbatim>\<open>rationale_details\<close>, an untyped dict in the source, is a record of the keys the
  router writes into it.
\<close>

type_synonym instant = int

definition ms :: "nat \<Rightarrow> int" where
  "ms n = int n * 1000"

section \<open>Enumerations\<close>

datatype failure_type =
    QUALITY_FAILURE | VALIDATION_FAILURE | TOOL_FAILURE | TIMEOUT | RATE_LIMIT
  | PROVIDER_FAILURE | MALFORMED_OUTPUT | BUDGET_FAILURE | CAPABILITY_FAILURE | UNKNOWN_FAILURE

definition all_failure_types :: "failure_type list" where
  "all_failure_types =
     [QUALITY_FAILURE, VALIDATION_FAILURE, TOOL_FAILURE, TIMEOUT, RATE_LIMIT,
      PROVIDER_FAILURE, MALFORMED_OUTPUT, BUDGET_FAILURE, CAPABILITY_FAILURE, UNKNOWN_FAILURE]"

datatype effort = NONE | LOW | MEDIUM | HIGH | XHIGH | MAX

datatype validation_level = V0 | V1 | V2 | V3

primrec level_index :: "validation_level \<Rightarrow> nat" where
  "level_index V0 = 0"
| "level_index V1 = 1"
| "level_index V2 = 2"
| "level_index V3 = 3"

instantiation validation_level :: linorder
begin

definition less_eq_validation_level :: "validation_level \<Rightarrow> validation_level \<Rightarrow> bool" where
  "less_eq_validation_level a b = (level_index a \<le> level_index b)"

definition less_validation_level :: "validation_level \<Rightarrow> validation_level \<Rightarrow> bool" where
  "less_validation_level a b = (level_index a < level_index b)"

instance
proof
  fix x y z :: validation_level
  show "(x < y) = (x \<le> y \<and> \<not> y \<le> x)"
    by (auto simp: less_eq_validation_level_def less_validation_level_def)
  show "x \<le> x" by (simp add: less_eq_validation_level_def)
  show "x \<le> y \<Longrightarrow> y \<le> z \<Longrightarrow> x \<le> z" by (simp add: less_eq_validation_level_def)
  show "x \<le> y \<Longrightarrow> y \<le> x \<Longrightarrow> x = y"
    by (cases x; cases y) (simp_all add: less_eq_validation_level_def)
  show "x \<le> y \<or> y \<le> x" by (auto simp: less_eq_validation_level_def)
qed

end

datatype consequence = Low_consequence | Moderate_consequence | High_consequence | Critical_consequence

datatype health_state = HEALTHY | DEGRADED | UNHEALTHY

datatype account_access = Access_verified | Access_unknown | Access_unavailable

datatype candidate_source = Source_prior | Source_modifier | Source_floor | Source_fallback

datatype strength = Strength_hard | Strength_preferred

datatype cost_status = Cost_known | Cost_partial | Cost_unavailable

datatype period = Period_day | Period_calendar_month

datatype mock_status = Configured_mock | Unconfigured

definition RationaleCode :: "string list" where
  "RationaleCode =
     [''BASELINE_PRIOR'', ''ENGINEERING_COMPLEX'', ''TECHNICAL_PRECISION_HIGH'', ''MULTISTEP'',
      ''TOOL_ORCHESTRATION_HIGH'', ''LONG_CONTEXT'', ''TASK_FAMILY_FLOOR'',
      ''APPLICATION_BUDGET_CAP'', ''MODEL_DEGRADED'', ''VALIDATION_REQUIRED'', ''FLOOR_RELAXED'',
      ''EXCEPTIONAL_AGENTIC'', ''CAPABILITY_FILTER'', ''CONTEXT_CONSTRAINT'',
      ''CONSTRAINED_FALLBACK'', ''QUALITY_ESCALATION'', ''INFRASTRUCTURE_RECOVERY'',
      ''TOOL_RECOVERY'', ''ESTIMATE_UNAVAILABLE'', ''LOW_CLASSIFIER_CONFIDENCE'']"

section \<open>Inputs\<close>

record components =
  reasoning_depth :: nat
  step_dependency :: nat
  context_synthesis :: nat
  technical_precision :: nat
  ambiguity :: nat
  tool_orchestration :: nat
  reliability_requirement :: nat

text \<open>The fields in declaration order, as \<^verbatim>\<open>model_fields\<close> lists them.\<close>

definition component_items :: "components \<Rightarrow> (string \<times> nat) list" where
  "component_items c =
     [(''reasoning_depth'', reasoning_depth c), (''step_dependency'', step_dependency c),
      (''context_synthesis'', context_synthesis c), (''technical_precision'', technical_precision c),
      (''ambiguity'', ambiguity c), (''tool_orchestration'', tool_orchestration c),
      (''reliability_requirement'', reliability_requirement c)]"

definition component_names :: "string list" where
  "component_names =
     [''reasoning_depth'', ''step_dependency'', ''context_synthesis'', ''technical_precision'',
      ''ambiguity'', ''tool_orchestration'', ''reliability_requirement'']"

definition components_total :: "components \<Rightarrow> nat" where
  "components_total c = sum_list (map snd (component_items c))"

record classification =
  cl_task_family :: string
  cl_task_subclass :: "string option"
  cl_components :: components
  cl_confidence :: rat
  cl_flags :: "(string \<times> bool) list"
  cl_provenance :: string
  cl_supplied_total :: "nat option"

definition classification_ok :: "classification \<Rightarrow> bool" where
  "classification_ok c =
     (0 \<le> cl_confidence c \<and> cl_confidence c \<le> 1 \<and> distinct (map fst (cl_flags c)) \<and>
      (case cl_supplied_total c of None \<Rightarrow> True | Some t \<Rightarrow> t = components_total (cl_components c)))"

record token_context =
  tc_input_tokens :: nat
  tc_expected_output_tokens :: nat
  tc_cached_input_tokens :: nat
  tc_cache_write_tokens :: nat
  tc_cache_evidence :: bool

definition token_context_ok :: "token_context \<Rightarrow> bool" where
  "token_context_ok c = (tc_cached_input_tokens c + tc_cache_write_tokens c \<le> tc_input_tokens c)"

record limits =
  lim_model_tier_floor :: "nat option"
  lim_model_tier_ceiling :: "nat option"
  lim_task_cost_ceiling_usd :: "decimal option"
  lim_task_deadline_ms :: "nat option"
  lim_period_spend_ceiling_usd :: "decimal option"
  lim_period :: "period option"
  lim_live_execution_enabled :: "bool option"

definition no_limits :: limits where
  "no_limits = \<lparr>lim_model_tier_floor = None, lim_model_tier_ceiling = None,
     lim_task_cost_ceiling_usd = None, lim_task_deadline_ms = None,
     lim_period_spend_ceiling_usd = None, lim_period = None, lim_live_execution_enabled = None\<rparr>"

record request =
  rq_task_id :: string
  rq_trace_id :: string
  rq_input :: string
  rq_application_id :: "string option"
  rq_requirements :: "string list"
  rq_consequence :: consequence
  rq_context :: token_context
  rq_constraints :: limits
  rq_requested_validation :: "validation_level option"
  rq_approval_evidence :: bool
  rq_domain_clearance_evidence :: bool
  rq_side_effecting_tool :: bool
  rq_idempotency_evidence :: bool
  rq_policy_version :: "string option"

record model_health =
  mh_state :: health_state
  mh_account_access :: account_access
  mh_usable :: bool

record environment =
  env_snapshot_id :: string
  env_synthetic :: bool
  env_clock :: instant
  env_pricing_version :: string
  env_health_snapshot_id :: "string option"
  env_health_observed_at :: "instant option"
  env_health_valid_until :: "instant option"
  env_models :: "(string \<times> model_health) list"
  env_budget :: limits
  env_remaining_usd :: "decimal option"
  env_trusted_application_id :: "string option"
  env_application_overlay :: "limits option"
  env_application_overlay_version :: "string option"
  env_validation :: "(validation_level \<times> mock_status) list"
  env_required_evaluator_cost_usd :: "decimal option"
  env_required_domain_validator_cost_usd :: "decimal option"
  env_required_tool_charge :: bool
  env_required_tool_charge_usd :: "decimal option"
  env_requested_validation :: "validation_level option"
  env_minimum_next_action_ms :: "nat option"
  env_latency_source :: "string option"
  env_recovery_bounded :: bool
  env_durable_retention :: bool

definition opt_money_ok :: "decimal option \<Rightarrow> bool" where
  "opt_money_ok v = (case v of None \<Rightarrow> True | Some d \<Rightarrow> money_ok d)"

text \<open>\<open>Limits\<close> admits nonnegative money and a positive deadline only.\<close>

definition limits_ok :: "limits \<Rightarrow> bool" where
  "limits_ok l = (opt_money_ok (lim_task_cost_ceiling_usd l)
     \<and> opt_money_ok (lim_period_spend_ceiling_usd l) \<and> lim_task_deadline_ms l \<noteq> Some 0)"

definition environment_ok :: "environment \<Rightarrow> bool" where
  "environment_ok e =
     ((env_application_overlay e = None) = (env_application_overlay_version e = None)
      \<and> (env_synthetic e \<or> (env_validation e = [] \<and> \<not> env_recovery_bounded e))
      \<and> distinct (map fst (env_models e))
      \<and> opt_money_ok (env_remaining_usd e) \<and> opt_money_ok (env_required_evaluator_cost_usd e)
      \<and> opt_money_ok (env_required_domain_validator_cost_usd e)
      \<and> opt_money_ok (env_required_tool_charge_usd e)
      \<and> limits_ok (env_budget e)
      \<and> (case env_application_overlay e of None \<Rightarrow> True | Some l \<Rightarrow> limits_ok l))"

definition request_ok :: "request \<Rightarrow> bool" where
  "request_ok r = (rq_task_id r \<noteq> [] \<and> rq_trace_id r \<noteq> [] \<and> rq_requirements r \<noteq> []
     \<and> token_context_ok (rq_context r) \<and> limits_ok (rq_constraints r))"

section \<open>Evidence\<close>

record candidate =
  cand_model :: string
  cand_effort :: effort
  cand_source :: candidate_source

record floor_evidence =
  fe_rule_id :: string
  fe_strength :: strength
  fe_min_tier :: nat

record candidate_plan =
  plan_candidates :: "candidate list"
  plan_floors :: "floor_evidence list"
  plan_rationale_codes :: "string list"
  plan_matched_rules :: "string list"
  plan_hard_floor :: nat
  plan_preferred_floor :: nat

record cost_estimate =
  ce_status :: cost_status
  ce_amount :: "decimal option"
  ce_currency :: string
  ce_pricing_version :: string
  ce_model_pricing_version :: string
  ce_token_assumptions :: token_context
  ce_known_subtotal :: decimal
  ce_generation_subtotal :: decimal
  ce_breakdown :: "(string \<times> decimal option) list"
  ce_unknown_charges :: "string list"
  ce_cache_read_tokens :: nat
  ce_long_context :: bool

definition cost_coherent :: "cost_estimate \<Rightarrow> bool" where
  "cost_coherent c = ((ce_status c = Cost_known) = (ce_amount c \<noteq> None))"

record feasibility =
  fs_violations :: "string list"
  fs_blockers :: "string list"
  fs_rationale_codes :: "string list"

record validation_requirements =
  vr_level :: validation_level
  vr_profiles :: "validation_level list"
  vr_checks :: "string list"
  vr_evaluator_refs :: "string list"
  vr_validator_refs :: "string list"
  vr_blockers :: "string list"
  vr_evaluator_required :: bool
  vr_approval_required :: bool
  vr_evidence :: string
  vr_execution_restrictions :: "string list"

record removed_candidate =
  rm_model :: string
  rm_effort :: effort
  rm_source :: candidate_source
  rm_constraints :: "string list"

record rationale_details =
  rd_required_capabilities :: "string list"
  rd_matched_rules :: "string list"
  rd_floors :: "floor_evidence list"
  rd_floor_waiver_rules :: "string list"
  rd_floor_waiver_constraints :: "string list"
  rd_removed_candidates :: "removed_candidate list"
  rd_latency_supplied :: bool
  rd_environment_pricing_reference :: string
  rd_cache_miss_budget_estimates :: "(string \<times> cost_estimate) list option"
  rd_selected_source :: "candidate_source option"
  rd_model_pricing_version :: "string option"

record decision_base =
  db_task_id :: string
  db_trace_id :: string
  db_decision_id :: string
  db_policy_version :: string
  db_catalog_version :: string
  db_pricing_version :: string
  db_budget_version :: string
  db_validation_version :: string
  db_application_overlay_version :: "string option"
  db_effective_configuration_hash :: string
  db_classification :: classification
  db_complexity_score :: nat
  db_rationale_codes :: "string list"
  db_rationale_details :: rationale_details
  db_effective_limits :: limits
  db_environment_snapshot_id :: string
  db_synthetic :: bool
  db_health_snapshot_id :: "string option"
  db_readiness_blockers :: "string list"

record route_decision = decision_base +
  rt_selected_model_alias :: string
  rt_provider_model_id :: string
  rt_model_tier :: nat
  rt_reasoning_effort :: effort
  rt_validation_level :: validation_level
  rt_validation_requirements :: validation_requirements
  rt_estimated_cost :: cost_estimate
  rt_executable :: bool

text \<open>A rejection is never executable; the source pins that field to \<open>False\<close>.\<close>

record route_rejection = decision_base +
  rj_failure_type :: failure_type
  rj_violated_constraints :: "string list"
  rj_retryable :: bool

datatype route_result = Decision route_decision | Rejection route_rejection

section \<open>Facts\<close>

lemma map_fst_component_items [simp]: "map fst (component_items c) = component_names"
  by (simp add: component_items_def component_names_def)

lemma distinct_component_names: "distinct component_names"
  by code_simp

lemma set_all_failure_types: "set all_failure_types = UNIV"
proof -
  have "f \<in> set all_failure_types" for f by (cases f) (simp_all add: all_failure_types_def)
  then show ?thesis by auto
qed

lemma opt_money_ok_simps [simp]:
  "opt_money_ok None"
  "opt_money_ok (Some d) = money_ok d"
  by (simp_all add: opt_money_ok_def)

lemma money_ok_ZERO [simp]: "money_ok ZERO"
  by (simp add: money_ok_def ZERO_def)

lemma level_le_iff: "(a::validation_level) \<le> b \<longleftrightarrow> level_index a \<le> level_index b"
  by (simp add: less_eq_validation_level_def)

end
