(* ===== verification/Configuration.thy ===== *)
theory Configuration
  imports Contracts
begin

text \<open>
  The version-one configuration documents of \<^verbatim>\<open>core/configuration.py\<close> and the validators
  that decide whether four decoded documents form a policy bundle.

  Each class is a record and each \<^verbatim>\<open>model_validator\<close> a bool-valued function named after
  its class; it also holds the field constraints of the class (positive, nonnegative, unique
  keys). A field whose only admissible value is fixed by the schema (a one-value
  \<^verbatim>\<open>Literal\<close>, \<^verbatim>\<open>TrueOnly\<close>, \<^verbatim>\<open>FalseOnly\<close>) carries no information and has no
  counterpart here. Names of validation profiles are the four levels, which is what the
  document validator demands of them. Every validator failure is a \<open>ConfigurationError\<close> of
  \<open>bundle_from_documents\<close>, whichever check fails first. The content hash is a parameter: the
  code only stores it.
\<close>

section \<open>The model catalog\<close>

datatype document_status = Draft | Active | Retired

datatype account_status = Requires_verification | Account_verified | Account_unavailable

datatype metadata_status = Documentation_verified | Metadata_verified

datatype pricing_status = Partially_verified | Pricing_verified

record verification =
  vf_checked_at :: string
  vf_live_account_probe_performed :: bool

record capabilities =
  cap_text_input :: "bool option"
  cap_text_output :: "bool option"
  cap_image_input :: "bool option"
  cap_audio_input :: "bool option"
  cap_video_input :: "bool option"
  cap_streaming :: "bool option"
  cap_function_calling :: "bool option"
  cap_structured_outputs :: "bool option"

definition capability_items :: "capabilities \<Rightarrow> (string \<times> bool option) list" where
  "capability_items c =
     [(''text_input'', cap_text_input c), (''text_output'', cap_text_output c),
      (''image_input'', cap_image_input c), (''audio_input'', cap_audio_input c),
      (''video_input'', cap_video_input c), (''streaming'', cap_streaming c),
      (''function_calling'', cap_function_calling c),
      (''structured_outputs'', cap_structured_outputs c)]"

text \<open>\<open>capabilities.get(name) is True\<close>: a missing or unverified capability is not support.\<close>

definition has_capability :: "capabilities \<Rightarrow> string \<Rightarrow> bool" where
  "has_capability c name = (map_of (capability_items c) name = Some (Some True))"

record availability =
  av_configured_enabled :: bool
  av_account_status :: account_status

record long_context_pricing =
  lc_input_tokens_gt :: nat
  lc_input_multiplier :: decimal
  lc_output_multiplier :: decimal
  lc_cached_input_multiplier :: "decimal option"
  lc_cache_write_multiplier :: "decimal option"

definition long_context_ok :: "long_context_pricing \<Rightarrow> bool" where
  "long_context_ok l = (0 < lc_input_tokens_gt l \<and> money_ok (lc_input_multiplier l)
     \<and> money_ok (lc_output_multiplier l) \<and> opt_money_ok (lc_cached_input_multiplier l)
     \<and> opt_money_ok (lc_cache_write_multiplier l))"

record pricing =
  pr_version :: string
  pr_status :: pricing_status
  pr_unit_tokens :: nat
  pr_input_usd :: "decimal option"
  pr_cached_input_usd :: "decimal option"
  pr_output_usd :: "decimal option"
  pr_cache_write_input_multiplier :: "decimal option"
  pr_promotion_available_at_least_through :: "string option"
  pr_long_context :: "long_context_pricing option"
  pr_additional_tool_prices :: "(string \<times> decimal) list option"
  pr_requires_verification :: "string list"

definition pricing_ok :: "pricing \<Rightarrow> bool" where
  "pricing_ok p = (0 < pr_unit_tokens p \<and> opt_money_ok (pr_input_usd p)
     \<and> opt_money_ok (pr_cached_input_usd p) \<and> opt_money_ok (pr_output_usd p)
     \<and> opt_money_ok (pr_cache_write_input_multiplier p)
     \<and> (case pr_long_context p of None \<Rightarrow> True | Some l \<Rightarrow> long_context_ok l)
     \<and> (case pr_additional_tool_prices p of None \<Rightarrow> True
        | Some ts \<Rightarrow> distinct (map fst ts) \<and> list_all (money_ok \<circ> snd) ts)
     \<and> distinct (pr_requires_verification p))"

record model_entry =
  me_tier :: string
  me_tier_rank :: nat
  me_provider_model_id :: string
  me_source_url :: string
  me_metadata_status :: metadata_status
  me_reasoning_efforts :: "effort list"
  me_capabilities :: capabilities
  me_context_window_tokens :: nat
  me_max_output_tokens :: nat
  me_availability :: availability
  me_pricing :: pricing

text \<open>The pattern \<^verbatim>\<open>^L[0-9]+$\<close>.\<close>

definition tier_ok :: "string \<Rightarrow> bool" where
  "tier_ok t = (case t of [] \<Rightarrow> False
     | c # cs \<Rightarrow> c = CHR ''L'' \<and> cs \<noteq> [] \<and> list_all (\<lambda>d. d \<in> set ''0123456789'') cs)"

definition model_entry_ok :: "model_entry \<Rightarrow> bool" where
  "model_entry_ok m = (tier_ok (me_tier m) \<and> 0 < me_context_window_tokens m
     \<and> 0 < me_max_output_tokens m \<and> pricing_ok (me_pricing m)
     \<and> me_reasoning_efforts m \<noteq> [] \<and> distinct (me_reasoning_efforts m)
     \<and> me_max_output_tokens m \<le> me_context_window_tokens m)"

abbreviation configured_enabled :: "model_entry \<Rightarrow> bool" where
  "configured_enabled m \<equiv> av_configured_enabled (me_availability m)"

record catalog_document =
  cat_catalog_version :: string
  cat_status :: document_status
  cat_verification :: verification
  cat_models :: "(string \<times> model_entry) list"

definition catalog_ok :: "catalog_document \<Rightarrow> bool" where
  "catalog_ok c = (cat_models c \<noteq> [] \<and> distinct (map fst (cat_models c))
     \<and> list_all (model_entry_ok \<circ> snd) (cat_models c)
     \<and> distinct (map (me_tier_rank \<circ> snd) (cat_models c))
     \<and> distinct (map (me_tier \<circ> snd) (cat_models c)))"

section \<open>The routing policy\<close>

record component_range =
  cr_min :: nat
  cr_max :: nat

record complexity =
  cx_total_min :: nat
  cx_total_max :: nat
  cx_components :: "(string \<times> component_range) list"

definition complexity_ok :: "complexity \<Rightarrow> bool" where
  "complexity_ok c = (cx_components c \<noteq> [] \<and> distinct (map fst (cx_components c))
     \<and> list_all (\<lambda>(n, r). cr_min r \<le> cr_max r) (cx_components c)
     \<and> set (map fst (cx_components c)) = set component_names
     \<and> cx_total_min c \<le> cx_total_max c
     \<and> sum_list (map (cr_min \<circ> snd) (cx_components c)) = cx_total_min c
     \<and> sum_list (map (cr_max \<circ> snd) (cx_components c)) = cx_total_max c)"

record candidate_spec =
  cs_model :: string
  cs_efforts :: "effort list"

definition candidate_spec_ok :: "candidate_spec \<Rightarrow> bool" where
  "candidate_spec_ok s = (cs_efforts s \<noteq> [] \<and> distinct (cs_efforts s))"

record complexity_band =
  cb_min :: nat
  cb_max :: nat
  cb_candidates :: "candidate_spec list"

definition spec_pairs :: "candidate_spec list \<Rightarrow> (string \<times> effort) list" where
  "spec_pairs specs = concat (map (\<lambda>s. map (Pair (cs_model s)) (cs_efforts s)) specs)"

definition complexity_band_ok :: "complexity_band \<Rightarrow> bool" where
  "complexity_band_ok b = (cb_min b \<le> cb_max b \<and> cb_candidates b \<noteq> []
     \<and> list_all candidate_spec_ok (cb_candidates b) \<and> distinct (spec_pairs (cb_candidates b)))"

record rule_match =
  ma_families :: "string list"
  ma_flags_all :: "string list"
  ma_complexity_min :: "nat option"
  ma_component_min :: "(string \<times> nat) list"

definition rule_match_ok :: "rule_match \<Rightarrow> bool" where
  "rule_match_ok m = ((ma_families m \<noteq> [] \<or> ma_flags_all m \<noteq> [] \<or> ma_complexity_min m \<noteq> None
       \<or> ma_component_min m \<noteq> [])
     \<and> distinct (ma_families m) \<and> distinct (ma_flags_all m) \<and> distinct (map fst (ma_component_min m)))"

record floor_rule =
  fr_id :: string
  fr_match :: rule_match
  fr_strength :: strength
  fr_min_tier :: string
  fr_rationale_codes :: "string list"

definition floor_rule_ok :: "floor_rule \<Rightarrow> bool" where
  "floor_rule_ok r = (rule_match_ok (fr_match r) \<and> tier_ok (fr_min_tier r)
     \<and> fr_rationale_codes r \<noteq> [] \<and> distinct (fr_rationale_codes r))"

record modifier_effect =
  mf_add_candidates :: "candidate_spec list"
  mf_preferred_min_tier :: "string option"
  mf_annotate_only :: "bool option"

definition modifier_effect_ok :: "modifier_effect \<Rightarrow> bool" where
  "modifier_effect_ok e =
     (of_bool (mf_add_candidates e \<noteq> []) + of_bool (mf_preferred_min_tier e \<noteq> None)
        + of_bool (mf_annotate_only e \<noteq> None) = (1::nat)
      \<and> mf_annotate_only e \<noteq> Some False
      \<and> list_all candidate_spec_ok (mf_add_candidates e)
      \<and> (case mf_preferred_min_tier e of None \<Rightarrow> True | Some t \<Rightarrow> tier_ok t))"

record modifier =
  md_id :: string
  md_match :: rule_match
  md_effect :: modifier_effect
  md_rationale_codes :: "string list"

definition modifier_ok :: "modifier \<Rightarrow> bool" where
  "modifier_ok m = (rule_match_ok (md_match m) \<and> modifier_effect_ok (md_effect m)
     \<and> md_rationale_codes m \<noteq> [] \<and> distinct (md_rationale_codes m))"

datatype tie_break = Candidate_order | Estimated_cost | Tier_rank | Effort_order

record selection_policy =
  sel_calibration_version :: "string option"
  sel_tie_break :: "tie_break list"
  sel_floor_candidate_effort_preference :: "effort list"

definition selection_ok :: "selection_policy \<Rightarrow> bool" where
  "selection_ok s = (sel_tie_break s \<noteq> [] \<and> sel_floor_candidate_effort_preference s \<noteq> []
     \<and> distinct (sel_tie_break s) \<and> distinct (sel_floor_candidate_effort_preference s))"

datatype estimate_bucket =
    Bucket_input | Bucket_cached_input | Bucket_cache_write | Bucket_expected_output
  | Bucket_reasoning | Bucket_retrieval_cost

definition context_policy_ok :: "estimate_bucket list \<Rightarrow> bool" where
  "context_policy_ok include_in_estimate = (distinct include_in_estimate
     \<and> set include_in_estimate = {Bucket_input, Bucket_cached_input, Bucket_cache_write,
         Bucket_expected_output, Bucket_reasoning, Bucket_retrieval_cost})"

definition health_policy_ok :: "health_state list \<Rightarrow> bool" where
  "health_policy_ok exclude_states = (distinct exclude_states \<and> set exclude_states = {UNHEALTHY})"

record escalation_limits =
  el_max_total_generation_attempts :: "nat option"
  el_max_quality_escalations :: "nat option"
  el_max_infrastructure_retries :: "nat option"
  el_max_tool_recoveries :: "nat option"
  el_max_elapsed_ms :: "nat option"

record backoff =
  bo_initial_ms :: "nat option"
  bo_max_ms :: "nat option"
  bo_jitter :: "rat option"
  bo_honor_retry_after :: bool

definition backoff_ok :: "backoff \<Rightarrow> bool" where
  "backoff_ok b = (bo_initial_ms b \<noteq> Some 0 \<and> bo_max_ms b \<noteq> Some 0
     \<and> (case bo_jitter b of None \<Rightarrow> True | Some j \<Rightarrow> 0 \<le> j \<and> j \<le> 1)
     \<and> (case (bo_initial_ms b, bo_max_ms b) of (Some i, Some m) \<Rightarrow> i \<le> m | _ \<Rightarrow> True))"

datatype stop_condition =
    Stop_success | Stop_budget_exhausted | Stop_deadline_exceeded | Stop_attempts_exhausted
  | Stop_no_safe_candidate | Stop_approval_required

record escalation_policy =
  es_limits :: escalation_limits
  es_quality_failure_types :: "failure_type list"
  es_infrastructure_failure_types :: "failure_type list"
  es_backoff :: backoff
  es_tool_failure_types :: "failure_type list"
  es_diagnostic_failure_types :: "failure_type list"
  es_terminal_failure_types :: "failure_type list"
  es_stop_when :: "stop_condition list"

definition escalation_ok :: "escalation_policy \<Rightarrow> bool" where
  "escalation_ok e =
     (set (es_quality_failure_types e) \<subseteq> {QUALITY_FAILURE}
      \<and> set (es_infrastructure_failure_types e) \<subseteq> {TIMEOUT, RATE_LIMIT, PROVIDER_FAILURE}
      \<and> set (es_tool_failure_types e) \<subseteq> {TOOL_FAILURE}
      \<and> set (es_diagnostic_failure_types e) \<subseteq> {VALIDATION_FAILURE, MALFORMED_OUTPUT, UNKNOWN_FAILURE}
      \<and> set (es_terminal_failure_types e) \<subseteq> {BUDGET_FAILURE, CAPABILITY_FAILURE}
      \<and> el_max_total_generation_attempts (es_limits e) \<noteq> Some 0
      \<and> el_max_elapsed_ms (es_limits e) \<noteq> Some 0
      \<and> backoff_ok (es_backoff e)
      \<and> distinct (es_stop_when e)
      \<and> (let flattened = es_quality_failure_types e @ es_infrastructure_failure_types e
             @ es_tool_failure_types e @ es_diagnostic_failure_types e @ es_terminal_failure_types e
         in distinct flattened \<and> set flattened = set all_failure_types))"

record policy_document =
  pol_version :: string
  pol_status :: document_status
  pol_catalog_version :: string
  pol_budget_version :: string
  pol_validation_version :: string
  pol_task_families :: "string list"
  pol_complexity :: complexity
  pol_complexity_bands :: "complexity_band list"
  pol_task_family_floors :: "floor_rule list"
  pol_modifiers :: "modifier list"
  pol_selection :: selection_policy
  pol_context :: "estimate_bucket list"
  pol_health_exclude_states :: "health_state list"
  pol_escalation :: escalation_policy
  pol_rationale_codes :: "(string \<times> string) list"

text \<open>The cursor loop of the band check: \<open>None\<close> when a band does not start at the cursor.\<close>

primrec band_cursor :: "nat \<Rightarrow> complexity_band list \<Rightarrow> nat option" where
  "band_cursor cursor [] = Some cursor"
| "band_cursor cursor (b # bs) =
     (if cb_min b = cursor then band_cursor (cb_max b + 1) bs else None)"

definition rule_refs_ok :: "policy_document \<Rightarrow> rule_match \<Rightarrow> string list \<Rightarrow> bool" where
  "rule_refs_ok p m codes =
     (set (ma_families m) \<subseteq> set (pol_task_families p)
      \<and> list_all (\<lambda>(n, threshold). case map_of (cx_components (pol_complexity p)) n of
            None \<Rightarrow> False | Some r \<Rightarrow> cr_min r \<le> threshold \<and> threshold \<le> cr_max r) (ma_component_min m)
      \<and> (case ma_complexity_min m of None \<Rightarrow> True
         | Some t \<Rightarrow> cx_total_min (pol_complexity p) \<le> t \<and> t \<le> cx_total_max (pol_complexity p))
      \<and> set codes \<subseteq> set (map fst (pol_rationale_codes p)))"

definition policy_ok :: "policy_document \<Rightarrow> bool" where
  "policy_ok p =
     (pol_task_families p \<noteq> [] \<and> distinct (pol_task_families p)
      \<and> complexity_ok (pol_complexity p)
      \<and> pol_complexity_bands p \<noteq> [] \<and> list_all complexity_band_ok (pol_complexity_bands p)
      \<and> band_cursor (cx_total_min (pol_complexity p)) (pol_complexity_bands p)
          = Some (cx_total_max (pol_complexity p) + 1)
      \<and> list_all floor_rule_ok (pol_task_family_floors p) \<and> list_all modifier_ok (pol_modifiers p)
      \<and> distinct (map fr_id (pol_task_family_floors p) @ map md_id (pol_modifiers p))
      \<and> selection_ok (pol_selection p) \<and> context_policy_ok (pol_context p)
      \<and> health_policy_ok (pol_health_exclude_states p) \<and> escalation_ok (pol_escalation p)
      \<and> pol_rationale_codes p \<noteq> [] \<and> distinct (map fst (pol_rationale_codes p))
      \<and> list_all (\<lambda>r. rule_refs_ok p (fr_match r) (fr_rationale_codes r)) (pol_task_family_floors p)
      \<and> list_all (\<lambda>m. rule_refs_ok p (md_match m) (md_rationale_codes m)) (pol_modifiers p))"

section \<open>Budgets\<close>

record budget_limits =
  bl_model_tier_floor :: "string option"
  bl_model_tier_ceiling :: "string option"
  bl_task_cost_ceiling_usd :: "decimal option"
  bl_task_deadline_ms :: "nat option"
  bl_period_spend_ceiling_usd :: "decimal option"
  bl_period :: "period option"
  bl_live_execution_enabled :: "bool option"

definition budget_limits_ok :: "budget_limits \<Rightarrow> bool" where
  "budget_limits_ok b =
     ((case bl_model_tier_floor b of None \<Rightarrow> True | Some t \<Rightarrow> tier_ok t)
      \<and> (case bl_model_tier_ceiling b of None \<Rightarrow> True | Some t \<Rightarrow> tier_ok t)
      \<and> opt_money_ok (bl_task_cost_ceiling_usd b) \<and> opt_money_ok (bl_period_spend_ceiling_usd b)
      \<and> bl_task_deadline_ms b \<noteq> Some 0)"

datatype cost_bucket = Cost_classification | Cost_generation | Cost_retries | Cost_tools | Cost_validation

text \<open>\<^verbatim>\<open>BudgetDefaults\<close> makes the tier bounds and the live switch mandatory.\<close>

record budget_defaults =
  bd_limits :: budget_limits
  bd_require_finite_task_cost_ceiling :: bool
  bd_include_costs :: "cost_bucket list"

definition budget_defaults_ok :: "budget_defaults \<Rightarrow> bool" where
  "budget_defaults_ok d =
     (budget_limits_ok (bd_limits d)
      \<and> bl_model_tier_floor (bd_limits d) \<noteq> None \<and> bl_model_tier_ceiling (bd_limits d) \<noteq> None
      \<and> bl_live_execution_enabled (bd_limits d) \<noteq> None
      \<and> (bl_period_spend_ceiling_usd (bd_limits d) = None) = (bl_period (bd_limits d) = None)
      \<and> distinct (bd_include_costs d)
      \<and> set (bd_include_costs d) = {Cost_classification, Cost_generation, Cost_retries, Cost_tools,
          Cost_validation})"

definition overlay_fields :: "string list" where
  "overlay_fields = [''model_tier_floor'', ''model_tier_ceiling'', ''task_cost_ceiling_usd'',
     ''task_deadline_ms'', ''period_spend_ceiling_usd'', ''period'', ''live_execution_enabled'']"

record overlay_contract =
  ov_allowed_fields :: "string list"
  ov_period_values :: "period list"

definition overlay_contract_ok :: "overlay_contract \<Rightarrow> bool" where
  "overlay_contract_ok o' = (ov_allowed_fields o' \<noteq> [] \<and> ov_period_values o' \<noteq> []
     \<and> distinct (ov_allowed_fields o') \<and> distinct (ov_period_values o')
     \<and> set (ov_allowed_fields o') \<subseteq> set overlay_fields)"

record budgets_document =
  bud_version :: string
  bud_status :: document_status
  bud_defaults :: budget_defaults
  bud_overlay_contract :: overlay_contract
  bud_applications :: "(string \<times> budget_limits) list"

definition inherit :: "'a option \<Rightarrow> 'a option \<Rightarrow> 'a option" where
  "inherit overlay base = (if overlay \<noteq> None then overlay else base)"

definition budgets_ok :: "budgets_document \<Rightarrow> bool" where
  "budgets_ok b =
     (budget_defaults_ok (bud_defaults b) \<and> overlay_contract_ok (bud_overlay_contract b)
      \<and> set (ov_allowed_fields (bud_overlay_contract b)) = set overlay_fields
      \<and> distinct (map fst (bud_applications b))
      \<and> list_all (\<lambda>(app, l). budget_limits_ok l \<and>
           (inherit (bl_period_spend_ceiling_usd l) (bl_period_spend_ceiling_usd (bd_limits (bud_defaults b))) = None)
           = (inherit (bl_period l) (bl_period (bd_limits (bud_defaults b))) = None)) (bud_applications b))"

section \<open>Validation\<close>

datatype semantic_kind = Lightweight_semantic | Strong_independent

datatype profile =
    V0Profile "string list"
  | SemanticProfile semantic_kind validation_level string
  | DomainProfile validation_level "string option" "validation_level option"

datatype independence = Separate_call | Separate_call_no_generator_self_grade

record evaluator =
  ev_enabled :: bool
  ev_model_alias :: "string option"
  ev_reasoning_effort :: "effort option"
  ev_rubric_version :: "string option"
  ev_score_scale :: "(rat \<times> rat) option"
  ev_pass_threshold :: "rat option"
  ev_independence :: independence

definition evaluator_ok :: "evaluator \<Rightarrow> bool" where
  "evaluator_ok e =
     (let populated = of_bool (ev_model_alias e \<noteq> None) + of_bool (ev_reasoning_effort e \<noteq> None)
            + of_bool (ev_rubric_version e \<noteq> None) + of_bool (ev_score_scale e \<noteq> None)
            + of_bool (ev_pass_threshold e \<noteq> None)
      in (populated = (0::nat) \<or> populated = 5) \<and> (ev_enabled e \<longrightarrow> populated = 5)
         \<and> (case ev_score_scale e of None \<Rightarrow> True | Some (lo, hi) \<Rightarrow> lo < hi)
         \<and> (case (ev_score_scale e, ev_pass_threshold e) of
              (Some (lo, hi), Some t) \<Rightarrow> lo \<le> t \<and> t \<le> hi | _ \<Rightarrow> True))"

record consequence_default =
  cd_profile :: validation_level
  cd_evidence :: string
  cd_approval_gate :: bool
  cd_execution_restrictions :: "string list"

record shadow_route =
  sr_model :: string
  sr_reasoning_effort :: effort

record shadow_evaluation =
  sh_enabled :: bool
  sh_seed :: string
  sh_rate :: rat
  sh_task_cost_ceiling_usd :: "decimal option"
  sh_period_spend_ceiling_usd :: "decimal option"
  sh_comparisons :: "(shadow_route \<times> shadow_route) list"

definition shadow_ok :: "shadow_evaluation \<Rightarrow> bool" where
  "shadow_ok s =
     (0 \<le> sh_rate s \<and> sh_rate s \<le> 1
      \<and> opt_money_ok (sh_task_cost_ceiling_usd s) \<and> opt_money_ok (sh_period_spend_ceiling_usd s)
      \<and> (sh_enabled s \<longrightarrow> sh_comparisons s \<noteq> [] \<and> sh_task_cost_ceiling_usd s \<noteq> None
           \<and> sh_period_spend_ceiling_usd s \<noteq> None))"

record validation_document =
  val_version :: string
  val_status :: document_status
  val_default_profile :: validation_level
  val_raw_prompt_storage :: bool
  val_raw_response_storage :: bool
  val_profiles :: "(validation_level \<times> profile) list"
  val_evaluators :: "(string \<times> evaluator) list"
  val_consequence_defaults :: "(consequence \<times> consequence_default) list"
  val_shadow_evaluation :: shadow_evaluation

text \<open>The references a profile makes, in the order the validator collects them.\<close>

primrec profile_refs :: "profile \<Rightarrow> validation_level list" where
  "profile_refs (V0Profile checks) = []"
| "profile_refs (SemanticProfile kind base ref) = [base]"
| "profile_refs (DomainProfile base validator required) =
     base # (case required of None \<Rightarrow> [] | Some r \<Rightarrow> [r])"

definition profile_edges :: "validation_document \<Rightarrow> validation_level \<Rightarrow> validation_level list" where
  "profile_edges v n = (case map_of (val_profiles v) n of None \<Rightarrow> [] | Some p \<Rightarrow> profile_refs p)"

primrec profile_local_ok :: "profile \<Rightarrow> bool" where
  "profile_local_ok (V0Profile checks) = (checks \<noteq> [] \<and> distinct checks)"
| "profile_local_ok (SemanticProfile kind base ref) = True"
| "profile_local_ok (DomainProfile base validator required) = True"

primrec evaluator_binding_ok :: "validation_document \<Rightarrow> profile \<Rightarrow> bool" where
  "evaluator_binding_ok v (V0Profile checks) = True"
| "evaluator_binding_ok v (SemanticProfile kind base ref) =
     (case map_of (val_evaluators v) ref of None \<Rightarrow> False
      | Some e \<Rightarrow> ev_independence e = (if kind = Lightweight_semantic then Separate_call
          else Separate_call_no_generator_self_grade))"
| "evaluator_binding_ok v (DomainProfile base validator required) =
     (case required of None \<Rightarrow> True
      | Some r \<Rightarrow> (case map_of (val_profiles v) r of
            Some (SemanticProfile k b e) \<Rightarrow> True | _ \<Rightarrow> False))"

text \<open>
  The depth-first cycle search: \<open>None\<close> when it meets a profile it is still visiting,
  otherwise the profiles visited so far.
\<close>

function (sequential) visit_profile ::
    "(validation_level \<Rightarrow> validation_level list) \<Rightarrow> validation_level list \<Rightarrow> validation_level list
       \<Rightarrow> validation_level \<Rightarrow> validation_level list option"
  and visit_profiles ::
    "(validation_level \<Rightarrow> validation_level list) \<Rightarrow> validation_level list \<Rightarrow> validation_level list
       \<Rightarrow> validation_level list \<Rightarrow> validation_level list option" where
  "visit_profile edges visiting visited n =
     (if n \<in> set visiting then None
      else if n \<in> set visited then Some visited
      else (case visit_profiles edges (n # visiting) visited (edges n) of
              None \<Rightarrow> None | Some visited' \<Rightarrow> Some (n # visited')))"
| "visit_profiles edges visiting visited [] = Some visited"
| "visit_profiles edges visiting visited (r # rs) =
     (case visit_profile edges visiting visited r of
        None \<Rightarrow> None | Some visited' \<Rightarrow> visit_profiles edges visiting visited' rs)"
  by pat_completeness auto
termination
proof (relation "measures
    [\<lambda>x. case x of Inl (edges, visiting, visited, n) \<Rightarrow> card (set [V0, V1, V2, V3] - set visiting)
       | Inr (edges, visiting, visited, rs) \<Rightarrow> card (set [V0, V1, V2, V3] - set visiting),
     \<lambda>x. case x of Inl (edges, visiting, visited, n) \<Rightarrow> 0
       | Inr (edges, visiting, visited, rs) \<Rightarrow> Suc (length rs)]", goal_cases)
  case (2 edges visiting visited n)
  have "n \<in> set [V0, V1, V2, V3]" by (cases n) auto
  with 2 have "set [V0, V1, V2, V3] - set (n # visiting) \<subset> set [V0, V1, V2, V3] - set visiting"
    by auto
  then have "card (set [V0, V1, V2, V3] - set (n # visiting)) < card (set [V0, V1, V2, V3] - set visiting)"
    by (rule psubset_card_mono [rotated]) simp
  then show ?case by simp
qed auto

definition validation_ok :: "validation_document \<Rightarrow> bool" where
  "validation_ok v =
     (distinct (map fst (val_profiles v)) \<and> set (map fst (val_profiles v)) = {V0, V1, V2, V3}
      \<and> (case map_of (val_profiles v) V0 of Some (V0Profile cs) \<Rightarrow> True | _ \<Rightarrow> False)
      \<and> (case map_of (val_profiles v) V1 of
           Some (SemanticProfile k b r) \<Rightarrow> k = Lightweight_semantic | _ \<Rightarrow> False)
      \<and> (case map_of (val_profiles v) V2 of
           Some (SemanticProfile k b r) \<Rightarrow> k = Strong_independent | _ \<Rightarrow> False)
      \<and> (case map_of (val_profiles v) V3 of
           Some (DomainProfile b vr req) \<Rightarrow> vr = None | _ \<Rightarrow> False)
      \<and> val_default_profile v \<in> set (map fst (val_profiles v))
      \<and> distinct (map fst (val_consequence_defaults v))
      \<and> set (map fst (val_consequence_defaults v))
          = {Low_consequence, Moderate_consequence, High_consequence, Critical_consequence}
      \<and> list_all (\<lambda>(c, d). cd_profile d \<in> set (map fst (val_profiles v))
           \<and> distinct (cd_execution_restrictions d)) (val_consequence_defaults v)
      \<and> distinct (map fst (val_evaluators v)) \<and> list_all (evaluator_ok \<circ> snd) (val_evaluators v)
      \<and> list_all (\<lambda>(n, p). profile_local_ok p \<and> evaluator_binding_ok v p
           \<and> set (profile_refs p) \<subseteq> set (map fst (val_profiles v))) (val_profiles v)
      \<and> visit_profiles (profile_edges v) [] [] (map fst (val_profiles v)) \<noteq> None
      \<and> list_all (\<lambda>(n, p). list_all (\<lambda>r. level_index r \<le> level_index n) (profile_refs p)) (val_profiles v)
      \<and> shadow_ok (val_shadow_evaluation v))"

end
