(* ===== verification/Bundle.thy ===== *)
theory Bundle
  imports Configuration
begin

text \<open>
  The cross-document validation of \<^verbatim>\<open>core/configuration.py\<close> and the construction of the
  immutable policy bundle. The lemmas say what a bundle that the loader accepts guarantees
  to the policy engine: every total in range has a complexity band, every candidate the
  policy names is a model of the catalog with a supported effort, every tier a rule names
  exists, the rationale registry covers all codes the engine can emit, and profile
  inheritance is strictly decreasing in level, so that resolving it terminates.
\<close>

record policy_bundle =
  pb_policy :: policy_document
  pb_catalog :: catalog_document
  pb_budgets :: budgets_document
  pb_validation :: validation_document
  pb_content_hash :: string

abbreviation bundle_models :: "policy_bundle \<Rightarrow> (string \<times> model_entry) list" where
  "bundle_models b \<equiv> cat_models (pb_catalog b)"

text \<open>The dict \<^verbatim>\<open>{model.tier: model.tier_rank}\<close>; a later entry for the same tier wins.\<close>

definition tier_table :: "(string \<times> model_entry) list \<Rightarrow> string \<Rightarrow> nat option" where
  "tier_table models = map_of (rev (map (\<lambda>(a, m). (me_tier m, me_tier_rank m)) models))"

definition candidate_ref_ok :: "(string \<times> model_entry) list \<Rightarrow> candidate_spec \<Rightarrow> bool" where
  "candidate_ref_ok models c = (case map_of models (cs_model c) of None \<Rightarrow> False
     | Some m \<Rightarrow> set (cs_efforts c) \<subseteq> set (me_reasoning_efforts m))"

definition policy_refs_ok :: "policy_document \<Rightarrow> (string \<times> model_entry) list \<Rightarrow> bool" where
  "policy_refs_ok p models =
     (set RationaleCode \<subseteq> set (map fst (pol_rationale_codes p))
      \<and> list_all (\<lambda>(a, m). configured_enabled m \<longrightarrow>
           list_ex (\<lambda>e. e \<in> set (me_reasoning_efforts m))
             (sel_floor_candidate_effort_preference (pol_selection p))) models
      \<and> list_all (\<lambda>b. list_all (candidate_ref_ok models) (cb_candidates b)) (pol_complexity_bands p)
      \<and> list_all (\<lambda>m. list_all (candidate_ref_ok models) (mf_add_candidates (md_effect m))
           \<and> (case mf_preferred_min_tier (md_effect m) of None \<Rightarrow> True
              | Some t \<Rightarrow> tier_table models t \<noteq> None)) (pol_modifiers p)
      \<and> list_all (\<lambda>r. tier_table models (fr_min_tier r) \<noteq> None) (pol_task_family_floors p))"

definition opt_tier_known :: "(string \<Rightarrow> nat option) \<Rightarrow> string option \<Rightarrow> bool" where
  "opt_tier_known tiers t = (case t of None \<Rightarrow> True | Some n \<Rightarrow> tiers n \<noteq> None)"

definition opt_rank :: "(string \<Rightarrow> nat option) \<Rightarrow> nat \<Rightarrow> string option \<Rightarrow> nat" where
  "opt_rank tiers fallback t =
     (case t of None \<Rightarrow> fallback | Some n \<Rightarrow> (case tiers n of None \<Rightarrow> fallback | Some r \<Rightarrow> r))"

definition budget_refs_ok :: "budgets_document \<Rightarrow> (string \<Rightarrow> nat option) \<Rightarrow> bool" where
  "budget_refs_ok b tiers =
     (let defaults = bd_limits (bud_defaults b) in
      case (Option.bind (bl_model_tier_floor defaults) tiers,
            Option.bind (bl_model_tier_ceiling defaults) tiers) of
        (Some lo, Some hi) \<Rightarrow>
          lo \<le> hi
          \<and> list_all (\<lambda>(app, l).
               opt_tier_known tiers (bl_model_tier_floor l)
               \<and> opt_tier_known tiers (bl_model_tier_ceiling l)
               \<and> max lo (opt_rank tiers lo (bl_model_tier_floor l))
                   \<le> min hi (opt_rank tiers hi (bl_model_tier_ceiling l)))
             (bud_applications b)
      | _ \<Rightarrow> False)"

text \<open>The task ceiling and deadline of every scope for which live execution is switched on.\<close>

definition enabled_live_limits :: "budgets_document \<Rightarrow> (decimal option \<times> nat option) list" where
  "enabled_live_limits b =
     (let defaults = bd_limits (bud_defaults b);
          live = (bl_live_execution_enabled defaults = Some True)
      in (if live then [(bl_task_cost_ceiling_usd defaults, bl_task_deadline_ms defaults)] else [])
         @ map (\<lambda>(app, l).
              (inherit (bl_task_cost_ceiling_usd l) (bl_task_cost_ceiling_usd defaults),
               inherit (bl_task_deadline_ms l) (bl_task_deadline_ms defaults)))
            (filter (\<lambda>(app, l). live \<and> bl_live_execution_enabled l \<noteq> Some False) (bud_applications b)))"

definition recovery_bounded_policy :: "escalation_policy \<Rightarrow> bool" where
  "recovery_bounded_policy e =
     (el_max_total_generation_attempts (es_limits e) \<noteq> None
      \<and> el_max_quality_escalations (es_limits e) \<noteq> None
      \<and> el_max_infrastructure_retries (es_limits e) \<noteq> None
      \<and> el_max_tool_recoveries (es_limits e) \<noteq> None
      \<and> el_max_elapsed_ms (es_limits e) \<noteq> None
      \<and> bo_initial_ms (es_backoff e) \<noteq> None \<and> bo_max_ms (es_backoff e) \<noteq> None
      \<and> bo_jitter (es_backoff e) \<noteq> None)"

definition activation_ok ::
    "policy_document \<Rightarrow> catalog_document \<Rightarrow> budgets_document \<Rightarrow> validation_document \<Rightarrow> bool" where
  "activation_ok p c b v =
     (pol_status p = Active \<longrightarrow>
        cat_status c = Active \<and> bud_status b = Active \<and> val_status v = Active
        \<and> list_all (\<lambda>(cost, deadline). cost \<noteq> None \<and> deadline \<noteq> None) (enabled_live_limits b)
        \<and> (enabled_live_limits b \<noteq> [] \<longrightarrow>
             list_all (\<lambda>(a, m).
                 configured_enabled m
                 \<and> opt_rank (tier_table (cat_models c)) 0 (bl_model_tier_floor (bd_limits (bud_defaults b)))
                     \<le> me_tier_rank m
                 \<and> me_tier_rank m
                     \<le> opt_rank (tier_table (cat_models c)) 0 (bl_model_tier_ceiling (bd_limits (bud_defaults b)))
                 \<longrightarrow> pr_input_usd (me_pricing m) \<noteq> None \<and> pr_output_usd (me_pricing m) \<noteq> None)
               (cat_models c)
             \<and> recovery_bounded_policy (pol_escalation p)))"

definition evaluation_refs_ok :: "validation_document \<Rightarrow> (string \<times> model_entry) list \<Rightarrow> bool" where
  "evaluation_refs_ok v models =
     (let supports = (\<lambda>alias e. case map_of models alias of None \<Rightarrow> False
                        | Some m \<Rightarrow> e \<in> set (me_reasoning_efforts m))
      in list_all (\<lambda>(n, e). case ev_model_alias e of None \<Rightarrow> True
             | Some alias \<Rightarrow> (case ev_reasoning_effort e of None \<Rightarrow> False | Some eff \<Rightarrow> supports alias eff))
           (val_evaluators v)
         \<and> list_all (\<lambda>(production, shadow).
             supports (sr_model production) (sr_reasoning_effort production)
             \<and> supports (sr_model shadow) (sr_reasoning_effort shadow))
           (sh_comparisons (val_shadow_evaluation v)))"

definition cross_document_ok ::
    "policy_document \<Rightarrow> catalog_document \<Rightarrow> budgets_document \<Rightarrow> validation_document \<Rightarrow> bool" where
  "cross_document_ok p c b v =
     (pol_catalog_version p = cat_catalog_version c
      \<and> pol_budget_version p = bud_version b
      \<and> pol_validation_version p = val_version v
      \<and> policy_refs_ok p (cat_models c)
      \<and> budget_refs_ok b (tier_table (cat_models c))
      \<and> activation_ok p c b v
      \<and> evaluation_refs_ok v (cat_models c))"

definition bundle_from_documents ::
    "(policy_document \<Rightarrow> catalog_document \<Rightarrow> budgets_document \<Rightarrow> validation_document \<Rightarrow> string)
     \<Rightarrow> policy_document \<Rightarrow> catalog_document \<Rightarrow> budgets_document \<Rightarrow> validation_document
     \<Rightarrow> policy_bundle res" where
  "bundle_from_documents hash_documents p c b v =
     (if policy_ok p \<and> catalog_ok c \<and> budgets_ok b \<and> validation_ok v \<and> cross_document_ok p c b v
      then Inr \<lparr>pb_policy = p, pb_catalog = c, pb_budgets = b, pb_validation = v,
                pb_content_hash = hash_documents p c b v\<rparr>
      else Inl ConfigurationError)"

text \<open>What every value of type \<^verbatim>\<open>PolicyBundle\<close> satisfies: it came out of the loader.\<close>

definition bundle_ok :: "policy_bundle \<Rightarrow> bool" where
  "bundle_ok b = (policy_ok (pb_policy b) \<and> catalog_ok (pb_catalog b) \<and> budgets_ok (pb_budgets b)
     \<and> validation_ok (pb_validation b)
     \<and> cross_document_ok (pb_policy b) (pb_catalog b) (pb_budgets b) (pb_validation b))"

section \<open>What an accepted bundle guarantees\<close>

lemma bundle_from_documents_ok:
  "bundle_from_documents h p c b v = Inr pb \<Longrightarrow> bundle_ok pb"
  by (auto simp: bundle_from_documents_def bundle_ok_def split: if_splits)

lemma band_cursor_covers:
  "band_cursor lo bs = Some hi \<Longrightarrow> list_all complexity_band_ok bs \<Longrightarrow> lo \<le> t \<Longrightarrow> t < hi
   \<Longrightarrow> \<exists>b \<in> set bs. cb_min b \<le> t \<and> t \<le> cb_max b"
proof (induction bs arbitrary: lo)
  case Nil
  then show ?case by simp
next
  case (Cons b bs)
  then have "cb_min b = lo" "band_cursor (cb_max b + 1) bs = Some hi"
    by (auto split: if_splits)
  then show ?case
    using Cons.IH [of "cb_max b + 1"] Cons.prems by (cases "t \<le> cb_max b") auto
qed

lemma band_cursor_mono: "band_cursor lo bs = Some hi \<Longrightarrow> list_all complexity_band_ok bs \<Longrightarrow> lo \<le> hi"
proof (induction bs arbitrary: lo)
  case Nil
  then show ?case by simp
next
  case (Cons b bs)
  then have "cb_min b = lo" "band_cursor (cb_max b + 1) bs = Some hi" "cb_min b \<le> cb_max b"
    by (auto simp: complexity_band_ok_def split: if_splits)
  then show ?case using Cons.IH [of "cb_max b + 1"] Cons.prems by auto
qed

lemma band_cursor_ge: "band_cursor lo bs = Some hi \<Longrightarrow> list_all complexity_band_ok bs \<Longrightarrow>
    b \<in> set bs \<Longrightarrow> lo \<le> cb_min b"
proof (induction bs arbitrary: lo)
  case Nil
  then show ?case by simp
next
  case (Cons c bs)
  then have c: "cb_min c = lo" "band_cursor (cb_max c + 1) bs = Some hi" "cb_min c \<le> cb_max c"
    by (auto simp: complexity_band_ok_def split: if_splits)
  show ?case
  proof (cases "b = c")
    case False
    with Cons.prems have "cb_max c + 1 \<le> cb_min b" using Cons.IH [OF c(2)] by auto
    with c show ?thesis by simp
  qed (use c in auto)
qed

text \<open>No total falls into two bands: with coverage, the bands partition the range.\<close>

lemma band_cursor_disjoint:
  "band_cursor lo bs = Some hi \<Longrightarrow> list_all complexity_band_ok bs \<Longrightarrow> i < j \<Longrightarrow> j < length bs
   \<Longrightarrow> cb_max (bs ! i) < cb_min (bs ! j)"
proof (induction bs arbitrary: lo i j)
  case Nil
  then show ?case by simp
next
  case (Cons b bs)
  then have rest: "band_cursor (cb_max b + 1) bs = Some hi" "list_all complexity_band_ok bs"
    by (auto split: if_splits)
  obtain j' where j: "j = Suc j'" using Cons.prems(3) by (cases j) auto
  show ?case
  proof (cases i)
    case 0
    have "bs ! j' \<in> set bs" using Cons.prems(4) j by simp
    from band_cursor_ge [OF rest this] show ?thesis using 0 j by simp
  next
    case (Suc i')
    then show ?thesis using Cons.IH [OF rest, of i' j'] Cons.prems j by simp
  qed
qed

lemma tier_table_first:
  "distinct (map (me_tier \<circ> snd) models) \<Longrightarrow> (a, m) \<in> set models \<Longrightarrow>
   tier_table models (me_tier m) = Some (me_tier_rank m)"
proof -
  assume d: "distinct (map (me_tier \<circ> snd) models)" and in_models: "(a, m) \<in> set models"
  let ?t = "map (\<lambda>(a, m). (me_tier m, me_tier_rank m)) models"
  have "map fst ?t = map (me_tier \<circ> snd) models" by auto
  then have "distinct (map fst (rev ?t))" using d by (simp only: rev_map [symmetric] distinct_rev)
  moreover have "(me_tier m, me_tier_rank m) \<in> set (rev ?t)" using in_models by force
  ultimately show ?thesis by (simp only: tier_table_def map_of_eq_Some_iff)
qed

lemma tier_table_SomeD:
  "tier_table models t = Some r \<Longrightarrow> \<exists>a m. (a, m) \<in> set models \<and> me_tier m = t \<and> me_tier_rank m = r"
  by (force simp: tier_table_def dest!: map_of_SomeD)

text \<open>Inheritance is strictly decreasing: the cycle search refuses a self reference.\<close>

lemma visit_profiles_disjoint:
  "visit_profiles edges vg vd ns = Some vd' \<Longrightarrow> set ns \<inter> set vg = {}"
  by (induction ns arbitrary: vd) (auto split: option.splits if_splits)

lemma visit_profile_no_self:
  "visit_profile edges vg vd n = Some vd' \<Longrightarrow>
     n \<in> set vd' \<and> set vd \<subseteq> set vd' \<and> set vd' \<subseteq> set vd \<union> {k. k \<notin> set (edges k)}"
  and visit_profiles_no_self:
  "visit_profiles edges vg vd ns = Some vd' \<Longrightarrow>
     set ns \<subseteq> set vd' \<and> set vd \<subseteq> set vd' \<and> set vd' \<subseteq> set vd \<union> {k. k \<notin> set (edges k)}"
proof (induction edges vg vd n and edges vg vd ns arbitrary: vd' and vd'
    rule: visit_profile_visit_profiles.induct)
  case (1 edges vg vd n)
  show ?case
  proof (cases "n \<in> set vd")
    case True
    with "1.prems" show ?thesis by (auto split: if_splits)
  next
    case False
    with "1.prems" obtain w where w: "n \<notin> set vg" "vd' = n # w"
      "visit_profiles edges (n # vg) vd (edges n) = Some w"
      by (auto split: if_splits option.splits)
    from visit_profiles_disjoint [OF w(3)] have "n \<notin> set (edges n)" by simp
    with "1.IH" [OF w(1) False w(3)] w(2) show ?thesis by auto
  qed
next
  case (2 edges vg vd)
  then show ?case by simp
next
  case (3 edges vg vd r rs)
  from "3.prems" obtain w where w: "visit_profile edges vg vd r = Some w"
    "visit_profiles edges vg w rs = Some vd'"
    by (auto split: option.splits)
  from "3.IH"(1) [OF w(1)] "3.IH"(2) [OF w(1) w(2)] show ?case by auto
qed

lemma validation_ok_edges_decrease:
  assumes "validation_ok v" and "r \<in> set (profile_edges v n)"
  shows "level_index r < level_index n"
proof -
  obtain p where p: "map_of (val_profiles v) n = Some p" "r \<in> set (profile_refs p)"
    using assms(2) by (cases "map_of (val_profiles v) n") (auto simp: profile_edges_def)
  then have le: "level_index r \<le> level_index n"
    using assms(1) by (auto simp: validation_ok_def list_all_iff dest!: map_of_SomeD)
  have "n \<in> set (map fst (val_profiles v))" using p(1) by (force dest: map_of_SomeD)
  then have "n \<notin> set (profile_edges v n)"
    using assms(1) visit_profiles_no_self [of "profile_edges v" "[]" "[]" "map fst (val_profiles v)"]
    by (auto simp: validation_ok_def)
  then have "r \<noteq> n" using assms(2) by auto
  then have "level_index r \<noteq> level_index n" by (cases r; cases n) auto
  with le show ?thesis by simp
qed

end
