(* ===== verification/Capabilities.thy ===== *)
theory Capabilities
  imports Bundle
begin

text \<open>
  \<^verbatim>\<open>policy/capabilities.py\<close>: the hard capability and context exclusions of one catalog
  model. \<open>check_capabilities_clear\<close> is the contract the router relies on: no violation is
  recorded exactly when every required capability is verified and the whole request, input
  and output allowance, fits the model.
\<close>

definition missing_capabilities :: "request \<Rightarrow> model_entry \<Rightarrow> string list" where
  "missing_capabilities r m =
     extend_unique [] (filter (\<lambda>q. \<not> has_capability (me_capabilities m) q) (rq_requirements r))"

definition output_exceeded :: "request \<Rightarrow> model_entry \<Rightarrow> bool" where
  "output_exceeded r m = (me_max_output_tokens m < tc_expected_output_tokens (rq_context r))"

definition context_exceeded :: "request \<Rightarrow> model_entry \<Rightarrow> bool" where
  "context_exceeded r m = (me_context_window_tokens m
     < tc_input_tokens (rq_context r) + tc_expected_output_tokens (rq_context r))"

definition check_capabilities :: "request \<Rightarrow> model_entry \<Rightarrow> feasibility" where
  "check_capabilities r m =
     (let missing = missing_capabilities r m;
          violations1 = (if output_exceeded r m then append_once missing ''output_allowance'' else missing);
          violations2 = (if context_exceeded r m then append_once violations1 ''combined_context''
                         else violations1)
      in \<lparr>fs_violations = violations2, fs_blockers = [],
          fs_rationale_codes =
            (if missing \<noteq> [] then [''CAPABILITY_FILTER''] else [])
            @ (if output_exceeded r m \<or> context_exceeded r m then [''CONTEXT_CONSTRAINT''] else [])\<rparr>)"

text \<open>The request can be served by the model: the declarative reading of the check.\<close>

definition capable :: "request \<Rightarrow> model_entry \<Rightarrow> bool" where
  "capable r m = ((\<forall>q \<in> set (rq_requirements r). has_capability (me_capabilities m) q)
     \<and> tc_expected_output_tokens (rq_context r) \<le> me_max_output_tokens m
     \<and> tc_input_tokens (rq_context r) + tc_expected_output_tokens (rq_context r)
         \<le> me_context_window_tokens m)"

section \<open>Facts\<close>

lemma missing_capabilities_Nil_iff:
  "missing_capabilities r m = [] \<longleftrightarrow> (\<forall>q \<in> set (rq_requirements r). has_capability (me_capabilities m) q)"
  by (auto simp: missing_capabilities_def filter_empty_conv)

lemma check_capabilities_clear: "fs_violations (check_capabilities r m) = [] \<longleftrightarrow> capable r m"
  by (auto simp: check_capabilities_def Let_def capable_def missing_capabilities_Nil_iff
      output_exceeded_def context_exceeded_def)

lemma check_capabilities_codes:
  "set (fs_rationale_codes (check_capabilities r m)) \<subseteq> set RationaleCode"
  by (auto simp: check_capabilities_def Let_def RationaleCode_def)

lemma check_capabilities_violations:
  "set (fs_violations (check_capabilities r m)) =
     {q \<in> set (rq_requirements r). \<not> has_capability (me_capabilities m) q}
     \<union> (if output_exceeded r m then {''output_allowance''} else {})
     \<union> (if context_exceeded r m then {''combined_context''} else {})"
  by (auto simp: check_capabilities_def Let_def missing_capabilities_def)


end
