(* ===== verification/Budgets.thy ===== *)
theory Budgets
  imports Capabilities
begin

text \<open>
  \<^verbatim>\<open>policy/budgets.py\<close>: resolution of the effective limits from the configured defaults,
  the trusted application overlay and the caller's constraints, and the budget check of one
  cost quote.

  The merging of overlays is stated against an interface, the locale \<open>tightening\<close>: an
  operation that combines a base with an overlay and an order of strictness that it can only
  move down. Its lemma about chains of overlays is used through the interpretation on
  \<open>tighten\<close>.
\<close>

section \<open>Effective limits\<close>

definition tier_rank_budget :: "(string \<times> model_entry) list \<Rightarrow> string \<Rightarrow> nat res" where
  "tier_rank_budget models t =
     (case tier_table models t of None \<Rightarrow> Inl InputError | Some r \<Rightarrow> Inr r)"

definition normalize_tier :: "(string \<times> model_entry) list \<Rightarrow> string option \<Rightarrow> nat option res" where
  "normalize_tier models t = (case t of None \<Rightarrow> Inr None
     | Some n \<Rightarrow> bind_res (tier_rank_budget models n) (\<lambda>r. Inr (Some r)))"

definition normalize_limits :: "budget_limits \<Rightarrow> catalog_document \<Rightarrow> limits res" where
  "normalize_limits b c =
     bind_res (normalize_tier (cat_models c) (bl_model_tier_floor b)) (\<lambda>fl.
     bind_res (normalize_tier (cat_models c) (bl_model_tier_ceiling b)) (\<lambda>ce.
     Inr \<lparr>lim_model_tier_floor = fl, lim_model_tier_ceiling = ce,
          lim_task_cost_ceiling_usd = bl_task_cost_ceiling_usd b,
          lim_task_deadline_ms = bl_task_deadline_ms b,
          lim_period_spend_ceiling_usd = bl_period_spend_ceiling_usd b,
          lim_period = bl_period b,
          lim_live_execution_enabled = bl_live_execution_enabled b\<rparr>))"

definition replace_present :: "limits \<Rightarrow> limits \<Rightarrow> limits" where
  "replace_present base overlay =
     \<lparr>lim_model_tier_floor = inherit (lim_model_tier_floor overlay) (lim_model_tier_floor base),
      lim_model_tier_ceiling = inherit (lim_model_tier_ceiling overlay) (lim_model_tier_ceiling base),
      lim_task_cost_ceiling_usd =
        inherit (lim_task_cost_ceiling_usd overlay) (lim_task_cost_ceiling_usd base),
      lim_task_deadline_ms = inherit (lim_task_deadline_ms overlay) (lim_task_deadline_ms base),
      lim_period_spend_ceiling_usd =
        inherit (lim_period_spend_ceiling_usd overlay) (lim_period_spend_ceiling_usd base),
      lim_period = inherit (lim_period overlay) (lim_period base),
      lim_live_execution_enabled =
        inherit (lim_live_execution_enabled overlay) (lim_live_execution_enabled base)\<rparr>"

text \<open>Combine a bound of the base with one of the overlay; an absent overlay bound inherits.\<close>

definition merge_bound :: "('a \<Rightarrow> 'a \<Rightarrow> 'a) \<Rightarrow> 'a option \<Rightarrow> 'a option \<Rightarrow> 'a option" where
  "merge_bound f current incoming = (case incoming of None \<Rightarrow> current
     | Some i \<Rightarrow> (case current of None \<Rightarrow> Some i | Some c \<Rightarrow> Some (f c i)))"

definition merge_limits :: "limits \<Rightarrow> limits \<Rightarrow> limits" where
  "merge_limits base overlay =
     \<lparr>lim_model_tier_floor =
        merge_bound max (lim_model_tier_floor base) (lim_model_tier_floor overlay),
      lim_model_tier_ceiling =
        merge_bound min (lim_model_tier_ceiling base) (lim_model_tier_ceiling overlay),
      lim_task_cost_ceiling_usd =
        merge_bound dec_min (lim_task_cost_ceiling_usd base) (lim_task_cost_ceiling_usd overlay),
      lim_task_deadline_ms =
        merge_bound min (lim_task_deadline_ms base) (lim_task_deadline_ms overlay),
      lim_period_spend_ceiling_usd =
        merge_bound dec_min (lim_period_spend_ceiling_usd base) (lim_period_spend_ceiling_usd overlay),
      lim_period = inherit (lim_period overlay) (lim_period base),
      lim_live_execution_enabled =
        merge_bound (\<and>) (lim_live_execution_enabled base) (lim_live_execution_enabled overlay)\<rparr>"

definition period_conflict :: "limits \<Rightarrow> limits \<Rightarrow> bool" where
  "period_conflict base overlay = (lim_period overlay \<noteq> None \<and> lim_period base \<noteq> None
     \<and> lim_period base \<noteq> lim_period overlay)"

definition tighten :: "limits \<Rightarrow> limits \<Rightarrow> limits res" where
  "tighten base overlay =
     (if period_conflict base overlay then Inl InputError else Inr (merge_limits base overlay))"

definition validate_period :: "limits \<Rightarrow> unit res" where
  "validate_period l =
     check_res ((lim_period_spend_ceiling_usd l = None) = (lim_period l = None)) InputError"

text \<open>The overlays in the order they are applied after the deployment defaults.\<close>

definition configured_overlay :: "environment \<Rightarrow> policy_bundle \<Rightarrow> budget_limits option" where
  "configured_overlay env b = (case env_trusted_application_id env of None \<Rightarrow> None
     | Some app \<Rightarrow> map_of (bud_applications (pb_budgets b)) app)"

definition resolve_limits :: "request \<Rightarrow> environment \<Rightarrow> policy_bundle \<Rightarrow> limits res" where
  "resolve_limits r env b =
     bind_res (normalize_limits (bd_limits (bud_defaults (pb_budgets b))) (pb_catalog b)) (\<lambda>defaults.
     bind_res (if env_synthetic env then Inr (replace_present defaults (env_budget env))
               else tighten defaults (env_budget env)) (\<lambda>effective1.
     bind_res (case configured_overlay env b of None \<Rightarrow> Inr effective1
               | Some overlay \<Rightarrow> bind_res (normalize_limits overlay (pb_catalog b)) (tighten effective1))
       (\<lambda>effective2.
     bind_res (case env_application_overlay env of None \<Rightarrow> Inr effective2
               | Some overlay \<Rightarrow> tighten effective2 overlay) (\<lambda>effective3.
     bind_res (tighten effective3 (rq_constraints r)) (\<lambda>effective.
     bind_res (validate_period effective) (\<lambda>_. Inr effective))))))"

section \<open>The budget check\<close>

definition charge_names :: "string list" where
  "charge_names = [''required_evaluator'', ''required_domain_validator'', ''required_tool'']"

text \<open>The charge of a name, \<open>None\<close> when the quote has no such entry or an unknown amount.\<close>

definition charge_of :: "cost_estimate \<Rightarrow> string \<Rightarrow> decimal option" where
  "charge_of cost name = Option.bind (map_of (ce_breakdown cost) name) (\<lambda>v. v)"

definition known_charges :: "cost_estimate \<Rightarrow> (string \<times> decimal) list" where
  "known_charges cost =
     List.map_filter (\<lambda>n. map_option (Pair n) (charge_of cost n)) charge_names"

definition funding_precision :: "decimal list \<Rightarrow> int" where
  "funding_precision values =
     Max (set (map adjusted values)) - Min (set (map expo values)) + int (length values) + 2"

fun unfunded_scan :: "dec_context \<Rightarrow> decimal \<Rightarrow> decimal \<Rightarrow> (string \<times> decimal) list \<Rightarrow> string option" where
  "unfunded_scan ctx remaining subtotal [] = None"
| "unfunded_scan ctx remaining subtotal ((name, v) # rest) =
     (let s = dec_add ctx subtotal v
      in if dec_lt remaining s then Some name else unfunded_scan ctx remaining s rest)"

definition first_unfunded_charge :: "cost_estimate \<Rightarrow> decimal \<Rightarrow> string option" where
  "first_unfunded_charge cost remaining =
     (let values = [ce_generation_subtotal cost, remaining] @ map snd (known_charges cost);
          ctx = \<lparr>prec = nat (max 1 (funding_precision values)), rounding_mode = ROUND_HALF_EVEN\<rparr>
      in unfunded_scan ctx remaining (ce_generation_subtotal cost) (known_charges cost))"

definition unknown_cost_blockers :: "cost_estimate \<Rightarrow> string list" where
  "unknown_cost_blockers cost =
     (if ce_unknown_charges cost = [] then [''unknown_cost''] else ce_unknown_charges cost)"

definition over_ceiling :: "limits \<Rightarrow> decimal \<Rightarrow> bool" where
  "over_ceiling l amount =
     (case lim_task_cost_ceiling_usd l of None \<Rightarrow> False | Some c \<Rightarrow> dec_lt c amount)"

definition floor_over_ceiling :: "limits \<Rightarrow> bool" where
  "floor_over_ceiling l = (case (lim_model_tier_floor l, lim_model_tier_ceiling l) of
     (Some lo, Some hi) \<Rightarrow> hi < lo | _ \<Rightarrow> False)"

text \<open>The violation and the blocker that the remaining balance causes.\<close>

definition funding_check :: "cost_estimate \<Rightarrow> decimal option \<Rightarrow> string list \<Rightarrow> string list
    \<Rightarrow> string list \<times> string list" where
  "funding_check cost remaining violations blockers =
     (case remaining of None \<Rightarrow> (violations, blockers)
      | Some rem \<Rightarrow>
          if dec_lt rem (ce_generation_subtotal cost)
          then (append_once violations ''remaining_budget'', blockers)
          else if dec_lt rem (ce_known_subtotal cost)
          then (case first_unfunded_charge cost rem of
                  Some name \<Rightarrow> (violations, append_once blockers (name @ ''_budget''))
                | None \<Rightarrow> (append_once violations ''remaining_budget'', blockers))
          else (violations, blockers))"

definition deadline_blockers :: "limits \<Rightarrow> environment \<Rightarrow> string list \<Rightarrow> string list" where
  "deadline_blockers l env blockers =
     (case lim_task_deadline_ms l of None \<Rightarrow> append_once blockers ''task_deadline_required''
      | Some d \<Rightarrow> (case env_minimum_next_action_ms env of None \<Rightarrow> blockers
          | Some m \<Rightarrow> if d < m then append_once blockers ''deadline'' else blockers))"

text \<open>The amount that the ceiling is compared with.\<close>

definition charged_amount :: "cost_estimate \<Rightarrow> decimal" where
  "charged_amount cost =
     (if ce_status cost = Cost_known
      then (case ce_amount cost of None \<Rightarrow> ce_known_subtotal cost | Some a \<Rightarrow> a)
      else ce_known_subtotal cost)"

definition check_budget :: "cost_estimate \<Rightarrow> limits \<Rightarrow> environment \<Rightarrow> feasibility" where
  "check_budget cost l env =
     (let violations0 = (if floor_over_ceiling l then [''floor_vs_ceiling''] else []);
          known = (ce_status cost = Cost_known);
          violations1 = violations0 @ (if over_ceiling l (charged_amount cost) then [''task_cost_ceiling_usd''] else []);
          blockers1 = (if known then [] else unknown_cost_blockers cost);
          (violations2, blockers2) = funding_check cost (env_remaining_usd env) violations1 blockers1;
          blockers3 = (if lim_live_execution_enabled l \<noteq> Some True
                       then append_once blockers2 ''live_execution_disabled'' else blockers2);
          blockers4 = (if lim_task_cost_ceiling_usd l = None
                       then append_once blockers3 ''finite_task_cost_ceiling_required'' else blockers3)
      in \<lparr>fs_violations = violations2,
          fs_blockers = deadline_blockers l env blockers4,
          fs_rationale_codes = (if known then [] else [''ESTIMATE_UNAVAILABLE''])\<rparr>)"

text \<open>
  The exact reading of the attribution: the first charge whose inclusion takes the running
  total, in generation, evaluator, domain, tool order, above what remains.
\<close>

fun first_crossing :: "rat \<Rightarrow> rat \<Rightarrow> (string \<times> decimal) list \<Rightarrow> string option" where
  "first_crossing remaining running [] = None"
| "first_crossing remaining running ((name, v) # rest) =
     (if remaining < running + dval v then Some name
      else first_crossing remaining (running + dval v) rest)"

text \<open>
  Strictness: every bound that \<open>b\<close> sets is set in \<open>a\<close> at least as tightly, and a scope in
  which \<open>b\<close> disables live execution stays disabled.
\<close>

definition bound_stricter :: "('a \<Rightarrow> 'a \<Rightarrow> bool) \<Rightarrow> 'a option \<Rightarrow> 'a option \<Rightarrow> bool" where
  "bound_stricter le a b = (case b of None \<Rightarrow> True
     | Some y \<Rightarrow> (case a of None \<Rightarrow> False | Some x \<Rightarrow> le x y))"

definition stricter :: "limits \<Rightarrow> limits \<Rightarrow> bool" where
  "stricter a b =
     (bound_stricter (\<ge>) (lim_model_tier_floor a) (lim_model_tier_floor b)
      \<and> bound_stricter (\<le>) (lim_model_tier_ceiling a) (lim_model_tier_ceiling b)
      \<and> bound_stricter dec_le (lim_task_cost_ceiling_usd a) (lim_task_cost_ceiling_usd b)
      \<and> bound_stricter (\<le>) (lim_task_deadline_ms a) (lim_task_deadline_ms b)
      \<and> bound_stricter dec_le (lim_period_spend_ceiling_usd a) (lim_period_spend_ceiling_usd b)
      \<and> bound_stricter (=) (lim_period a) (lim_period b)
      \<and> (lim_live_execution_enabled b = Some False \<longrightarrow> lim_live_execution_enabled a = Some False))"

section \<open>The tightening interface\<close>

locale tightening =
  fixes combine :: "'l \<Rightarrow> 'l \<Rightarrow> 'l res"
    and at_least_as_strict :: "'l \<Rightarrow> 'l \<Rightarrow> bool"
  assumes strict_refl: "at_least_as_strict a a"
    and strict_trans: "at_least_as_strict a b \<Longrightarrow> at_least_as_strict b c \<Longrightarrow> at_least_as_strict a c"
    and combine_keeps_base: "combine base overlay = Inr r \<Longrightarrow> at_least_as_strict r base"
    and combine_keeps_overlay: "combine base overlay = Inr r \<Longrightarrow> at_least_as_strict r overlay"
begin

lemma chain_strict:
  "fold_res (\<lambda>overlay base. combine base overlay) overlays base = Inr r \<Longrightarrow>
   at_least_as_strict r base \<and> (\<forall>l \<in> set overlays. at_least_as_strict r l)"
proof (induction overlays arbitrary: base)
  case Nil
  then show ?case by (simp add: strict_refl)
next
  case (Cons l overlays)
  then obtain s where s: "combine base l = Inr s"
    "fold_res (\<lambda>overlay base. combine base overlay) overlays s = Inr r"
    by (auto simp: bind_res_Inr_iff)
  from Cons.IH [OF s(2)] have "at_least_as_strict r s" "\<forall>l \<in> set overlays. at_least_as_strict r l"
    by auto
  then show ?case
    using combine_keeps_base [OF s(1)] combine_keeps_overlay [OF s(1)] strict_trans by auto
qed

end

section \<open>The limits satisfy the interface\<close>

lemma bound_stricter_refl: "(\<And>x. le x x) \<Longrightarrow> bound_stricter le a a"
  by (auto simp: bound_stricter_def split: option.splits)

lemma bound_stricter_trans:
  "(\<And>x y z. le x y \<Longrightarrow> le y z \<Longrightarrow> le x z) \<Longrightarrow> bound_stricter le a b \<Longrightarrow> bound_stricter le b c
   \<Longrightarrow> bound_stricter le a c"
  by (auto simp: bound_stricter_def split: option.splits)

lemma merge_bound_stricter:
  assumes "\<And>x. le x x" and "\<And>x y. le (f x y) x" and "\<And>x y. le (f x y) y"
  shows "bound_stricter le (merge_bound f a b) a" and "bound_stricter le (merge_bound f a b) b"
  using assms by (auto simp: bound_stricter_def merge_bound_def split: option.splits)

lemma stricter_refl: "stricter a a"
  by (simp add: stricter_def bound_stricter_refl)

lemma stricter_trans: "stricter a b \<Longrightarrow> stricter b c \<Longrightarrow> stricter a c"
  unfolding stricter_def
  by (intro conjI; (elim conjE)?; (rule bound_stricter_trans)?) auto

lemma merge_limits_stricter:
  assumes "\<not> period_conflict base overlay"
  shows "stricter (merge_limits base overlay) base" and "stricter (merge_limits base overlay) overlay"
proof -
  let ?r = "merge_limits base overlay"
  have "bound_stricter (=) (lim_period ?r) (lim_period base)"
    "bound_stricter (=) (lim_period ?r) (lim_period overlay)"
    using assms
    by (auto simp: merge_limits_def period_conflict_def bound_stricter_def inherit_def split: option.splits)
  moreover have
    "lim_live_execution_enabled base = Some False \<Longrightarrow> lim_live_execution_enabled ?r = Some False"
    "lim_live_execution_enabled overlay = Some False \<Longrightarrow> lim_live_execution_enabled ?r = Some False"
    by (auto simp: merge_limits_def merge_bound_def split: option.splits)
  ultimately show "stricter ?r base" "stricter ?r overlay"
    by (simp_all add: stricter_def merge_limits_def merge_bound_stricter)
qed

lemma tighten_stricter:
  "tighten base overlay = Inr r \<Longrightarrow> stricter r base \<and> stricter r overlay"
  using merge_limits_stricter by (auto simp: tighten_def split: if_splits)

interpretation limit_overlays: tightening tighten stricter
  by unfold_locales
    (auto simp: stricter_refl dest: tighten_stricter intro: stricter_trans)

text \<open>The resolution is a chain of tightenings over the deployment limits.\<close>

definition overlay_chain :: "request \<Rightarrow> environment \<Rightarrow> policy_bundle \<Rightarrow> limits list res" where
  "overlay_chain r env b =
     bind_res (case configured_overlay env b of None \<Rightarrow> Inr []
               | Some overlay \<Rightarrow> bind_res (normalize_limits overlay (pb_catalog b)) (\<lambda>l. Inr [l]))
       (\<lambda>configured. Inr (configured
          @ (case env_application_overlay env of None \<Rightarrow> [] | Some overlay \<Rightarrow> [overlay])
          @ [rq_constraints r]))"

lemma resolve_limits_chain:
  assumes "resolve_limits r env b = Inr effective"
  shows "\<exists>defaults start overlays.
     normalize_limits (bd_limits (bud_defaults (pb_budgets b))) (pb_catalog b) = Inr defaults
     \<and> (if env_synthetic env then start = replace_present defaults (env_budget env)
        else tighten defaults (env_budget env) = Inr start)
     \<and> overlay_chain r env b = Inr overlays
     \<and> fold_res (\<lambda>overlay base. tighten base overlay) overlays start = Inr effective
     \<and> (lim_period_spend_ceiling_usd effective = None) = (lim_period effective = None)"
proof -
  obtain defaults start e2 e3 where steps:
    "normalize_limits (bd_limits (bud_defaults (pb_budgets b))) (pb_catalog b) = Inr defaults"
    "(if env_synthetic env then Inr (replace_present defaults (env_budget env))
      else tighten defaults (env_budget env)) = Inr start"
    "(case configured_overlay env b of None \<Rightarrow> Inr start
      | Some overlay \<Rightarrow> bind_res (normalize_limits overlay (pb_catalog b)) (tighten start)) = Inr e2"
    "(case env_application_overlay env of None \<Rightarrow> Inr e2 | Some overlay \<Rightarrow> tighten e2 overlay) = Inr e3"
    "tighten e3 (rq_constraints r) = Inr effective"
    "validate_period effective = Inr ()"
    using assms unfolding resolve_limits_def bind_res_Inr_iff by auto
  obtain configured where c:
    "(case configured_overlay env b of None \<Rightarrow> Inr []
      | Some overlay \<Rightarrow> bind_res (normalize_limits overlay (pb_catalog b)) (\<lambda>l. Inr [l])) = Inr configured"
    "fold_res (\<lambda>overlay base. tighten base overlay) configured start = Inr e2"
    using steps(3) by (cases "configured_overlay env b") (auto simp: bind_res_Inr_iff)
  let ?app = "case env_application_overlay env of None \<Rightarrow> [] | Some overlay \<Rightarrow> [overlay]"
  have app: "fold_res (\<lambda>overlay base. tighten base overlay) ?app e2 = Inr e3"
    using steps(4) by (cases "env_application_overlay env") auto
  have "fold_res (\<lambda>overlay base. tighten base overlay) (configured @ ?app @ [rq_constraints r]) start
      = Inr effective"
    using c(2) app steps(5) by (simp add: fold_res_append)
  moreover have "overlay_chain r env b = Inr (configured @ ?app @ [rq_constraints r])"
    using c(1) by (simp add: overlay_chain_def)
  ultimately show ?thesis
    using steps(1,2,6) by (auto simp: validate_period_def split: if_splits)
qed

text \<open>
  The effective limits respect every trusted and every caller-supplied bound: they are at
  least as strict as each overlay that applies, and outside synthetic snapshots as the
  configured defaults and the environment budget too.
\<close>

lemma resolve_limits_strict:
  assumes "resolve_limits r env b = Inr effective"
  shows "stricter effective (rq_constraints r)"
    and "env_application_overlay env = Some overlay \<Longrightarrow> stricter effective overlay"
    and "configured_overlay env b = Some configured \<Longrightarrow>
      \<exists>l. normalize_limits configured (pb_catalog b) = Inr l \<and> stricter effective l"
    and "\<not> env_synthetic env \<Longrightarrow> stricter effective (env_budget env)"
    and "\<not> env_synthetic env \<Longrightarrow>
      \<exists>l. normalize_limits (bd_limits (bud_defaults (pb_budgets b))) (pb_catalog b) = Inr l
        \<and> stricter effective l"
proof -
  obtain defaults start overlays where chain:
    "normalize_limits (bd_limits (bud_defaults (pb_budgets b))) (pb_catalog b) = Inr defaults"
    "if env_synthetic env then start = replace_present defaults (env_budget env)
     else tighten defaults (env_budget env) = Inr start"
    "overlay_chain r env b = Inr overlays"
    "fold_res (\<lambda>overlay base. tighten base overlay) overlays start = Inr effective"
    using resolve_limits_chain [OF assms] by blast
  from limit_overlays.chain_strict [OF chain(4)]
  have strict: "stricter effective start" "\<And>l. l \<in> set overlays \<Longrightarrow> stricter effective l" by auto
  show "stricter effective (rq_constraints r)"
    and "env_application_overlay env = Some overlay \<Longrightarrow> stricter effective overlay"
    using chain(3) strict(2) by (auto simp: overlay_chain_def bind_res_Inr_iff)
  show "configured_overlay env b = Some configured \<Longrightarrow>
      \<exists>l. normalize_limits configured (pb_catalog b) = Inr l \<and> stricter effective l"
    using chain(3) strict(2) by (auto simp: overlay_chain_def bind_res_Inr_iff)
  assume live: "\<not> env_synthetic env"
  then have "tighten defaults (env_budget env) = Inr start" using chain(2) by simp
  from tighten_stricter [OF this] strict(1)
  have both: "stricter effective (env_budget env)" "stricter effective defaults"
    using stricter_trans by blast+
  then show "stricter effective (env_budget env)" by simp
  show "\<exists>l. normalize_limits (bd_limits (bud_defaults (pb_budgets b))) (pb_catalog b) = Inr l
        \<and> stricter effective l"
    using chain(1) both(2) by blast
qed

section \<open>Funding evidence is exact\<close>

lemma unfunded_scan_exact:
  assumes p: "0 < prec ctx"
  shows "\<lbrakk>dval acc = of_int T * 10 powi m; \<bar>T\<bar> \<le> int k * B;
      \<forall>c \<in> set charges. \<exists>t. dval (snd c) = of_int t * 10 powi m \<and> \<bar>t\<bar> < B;
      int (k + length charges) * B < 10 ^ prec ctx; 0 \<le> B\<rbrakk>
    \<Longrightarrow> unfunded_scan ctx rem acc charges = first_crossing (dval rem) (dval acc) charges"
proof (induction charges arbitrary: acc T k)
  case Nil
  then show ?case by simp
next
  case (Cons c charges)
  obtain name v where c: "c = (name, v)" by (cases c)
  obtain t where t: "dval v = of_int t * 10 powi m" "\<bar>t\<bar> < B" using Cons.prems(3) c by auto
  have sum: "dval acc + dval v = of_int (T + t) * 10 powi m"
    using Cons.prems(1) t(1) by (simp add: distrib_right)
  have bound: "\<bar>T + t\<bar> \<le> int (Suc k) * B"
    using Cons.prems(2) t(2) by (simp add: distrib_right)
  have "int (Suc k) * B \<le> int (k + length (c # charges)) * B"
    using Cons.prems(5) by (intro mult_right_mono) auto
  with bound Cons.prems(4) have "\<bar>T + t\<bar> < 10 ^ prec ctx" by linarith
  then have step: "dval (dec_add ctx acc v) = dval acc + dval v"
    using dec_add_exact [OF p sum] by simp
  have "unfunded_scan ctx rem (dec_add ctx acc v) charges
      = first_crossing (dval rem) (dval (dec_add ctx acc v)) charges"
    by (rule Cons.IH [OF _ bound]) (use Cons.prems step sum in auto)
  then show ?case using step c by (simp add: Let_def)
qed

lemma first_unfunded_charge_exact:
  "first_unfunded_charge cost rem
     = first_crossing (dval rem) (dval (ce_generation_subtotal cost)) (known_charges cost)"
proof -
  define vs where "vs = [ce_generation_subtotal cost, rem] @ map snd (known_charges cost)"
  define M where "M = Max (set (map adjusted vs))"
  define m where "m = Min (set (map expo vs))"
  define ctx where "ctx = \<lparr>prec = nat (max 1 (funding_precision vs)), rounding_mode = ROUND_HALF_EVEN\<rparr>"
  define B :: int where "B = 10 ^ nat (M + 1 - m)"
  have units: "\<exists>t. dval v = of_int t * 10 powi m \<and> \<bar>t\<bar> < B" if "v \<in> set vs" for v
    unfolding B_def using that by (intro summand_units) (auto simp: m_def M_def)
  have gen: "ce_generation_subtotal cost \<in> set vs" by (simp add: vs_def)
  have span: "0 < M + 1 - m"
  proof -
    have "m \<le> expo (ce_generation_subtotal cost)" "adjusted (ce_generation_subtotal cost) \<le> M"
      using gen by (auto simp: m_def M_def)
    then show ?thesis
      using digits_pos [of "ce_generation_subtotal cost"] by (simp add: adjusted_def del: digits_pos)
  qed
  have prec: "prec ctx = nat (M + 1 - m) + length vs + 1"
  proof -
    have "funding_precision vs = M - m + int (length vs) + 2"
      by (simp only: funding_precision_def M_def m_def)
    with span show ?thesis by (simp add: ctx_def)
  qed
  have "length vs < 10 ^ length vs" by (rule power_gt_expt) simp
  then have "int (length vs) < 10 ^ length vs" by (metis of_nat_less_iff of_nat_numeral of_nat_power)
  then have "int (length vs) * B < 10 ^ length vs * B"
    by (intro mult_strict_right_mono) (auto simp: B_def)
  also have "\<dots> \<le> 10 ^ prec ctx" by (simp add: prec B_def power_add)
  finally have total: "int (length vs) * B < 10 ^ prec ctx" .
  have "int (1 + length (known_charges cost)) * B \<le> int (length vs) * B"
    by (intro mult_right_mono) (auto simp: vs_def B_def)
  with total have total': "int (1 + length (known_charges cost)) * B < 10 ^ prec ctx" by linarith
  obtain T where T: "dval (ce_generation_subtotal cost) = of_int T * 10 powi m" "\<bar>T\<bar> < B"
    using units [OF gen] by blast
  have "unfunded_scan ctx rem (ce_generation_subtotal cost) (known_charges cost)
      = first_crossing (dval rem) (dval (ce_generation_subtotal cost)) (known_charges cost)"
  proof (rule unfunded_scan_exact [OF _ T(1), where k = 1 and B = B])
    show "0 < prec ctx" by (simp add: prec)
    show "\<forall>c\<in>set (known_charges cost). \<exists>t. dval (snd c) = of_int t * 10 powi m \<and> \<bar>t\<bar> < B"
      using units by (auto simp: vs_def)
  qed (use T(2) total' in \<open>auto simp: B_def\<close>)
  then show ?thesis by (simp add: first_unfunded_charge_def Let_def ctx_def vs_def)
qed

section \<open>What the budget check establishes\<close>

abbreviation ceiling_violations :: "cost_estimate \<Rightarrow> limits \<Rightarrow> string list" where
  "ceiling_violations cost l \<equiv>
     (if floor_over_ceiling l then [''floor_vs_ceiling''] else [])
     @ (if over_ceiling l (charged_amount cost) then [''task_cost_ceiling_usd''] else [])"

abbreviation estimate_blockers :: "cost_estimate \<Rightarrow> string list" where
  "estimate_blockers cost \<equiv> (if ce_status cost = Cost_known then [] else unknown_cost_blockers cost)"

lemma check_budget_violations:
  "fs_violations (check_budget cost l env)
     = fst (funding_check cost (env_remaining_usd env) (ceiling_violations cost l) (estimate_blockers cost))"
  by (simp add: check_budget_def Let_def split_beta)

lemma deadline_blockers_Nil_iff:
  "deadline_blockers l env bs = [] \<longleftrightarrow> bs = [] \<and> (\<exists>d. lim_task_deadline_ms l = Some d
      \<and> (\<forall>m. env_minimum_next_action_ms env = Some m \<longrightarrow> m \<le> d))"
  by (auto simp: deadline_blockers_def split: option.splits)

lemma funding_check_fst_Nil_iff:
  "fst (funding_check cost remaining vs bs) = [] \<longleftrightarrow> vs = []
     \<and> (\<forall>rem. remaining = Some rem \<longrightarrow> dval (ce_generation_subtotal cost) \<le> dval rem
          \<and> (dval (ce_known_subtotal cost) \<le> dval rem \<or> first_unfunded_charge cost rem \<noteq> None))"
  by (auto simp: funding_check_def split: option.splits)

lemma funding_check_snd_Nil_iff:
  "snd (funding_check cost remaining vs bs) = [] \<longleftrightarrow> bs = []
     \<and> (\<forall>rem. remaining = Some rem \<longrightarrow> dval rem < dval (ce_generation_subtotal cost)
          \<or> dval (ce_known_subtotal cost) \<le> dval rem \<or> first_unfunded_charge cost rem = None)"
  by (auto simp: funding_check_def split: option.splits)

lemma unknown_cost_blockers_not_Nil [simp]: "unknown_cost_blockers cost \<noteq> []"
  by (simp add: unknown_cost_blockers_def)

lemma check_budget_blockers_Nil_iff:
  "fs_blockers (check_budget cost l env) = [] \<longleftrightarrow>
     snd (funding_check cost (env_remaining_usd env) (ceiling_violations cost l) (estimate_blockers cost)) = []
     \<and> lim_live_execution_enabled l = Some True \<and> lim_task_cost_ceiling_usd l \<noteq> None
     \<and> (\<exists>d. lim_task_deadline_ms l = Some d
          \<and> (\<forall>m. env_minimum_next_action_ms env = Some m \<longrightarrow> m \<le> d))"
  by (simp add: check_budget_def Let_def split_beta deadline_blockers_Nil_iff del: split_paired_Ex)

lemma check_budget_no_violation:
  assumes "fs_violations (check_budget cost l env) = []"
  shows "\<not> floor_over_ceiling l" and "\<not> over_ceiling l (charged_amount cost)"
    and "env_remaining_usd env = Some rem \<Longrightarrow> dval (ce_generation_subtotal cost) \<le> dval rem"
  using assms unfolding check_budget_violations funding_check_fst_Nil_iff
  by (auto split: if_splits)

text \<open>
  A quote that meets neither a violation nor a blocker is completely certified: the price is
  known and within a configured ceiling, live execution is enabled, the deadline leaves room
  for the next action, and the known balance covers every charge.
\<close>

lemma check_budget_clear:
  assumes "fs_violations (check_budget cost l env) = []" and "fs_blockers (check_budget cost l env) = []"
  shows "ce_status cost = Cost_known" and "lim_live_execution_enabled l = Some True"
    and "\<exists>c. lim_task_cost_ceiling_usd l = Some c \<and> dval (charged_amount cost) \<le> dval c"
    and "\<exists>d. lim_task_deadline_ms l = Some d
      \<and> (\<forall>m. env_minimum_next_action_ms env = Some m \<longrightarrow> m \<le> d)"
    and "env_remaining_usd env = Some rem \<Longrightarrow> dval (ce_known_subtotal cost) \<le> dval rem"
proof -
  have b: "snd (funding_check cost (env_remaining_usd env) (ceiling_violations cost l) (estimate_blockers cost)) = []"
    "lim_live_execution_enabled l = Some True" "lim_task_cost_ceiling_usd l \<noteq> None"
    "\<exists>d. lim_task_deadline_ms l = Some d \<and> (\<forall>m. env_minimum_next_action_ms env = Some m \<longrightarrow> m \<le> d)"
    using assms(2) unfolding check_budget_blockers_Nil_iff by blast+
  have v: "fst (funding_check cost (env_remaining_usd env) (ceiling_violations cost l) (estimate_blockers cost)) = []"
    using assms(1) by (simp only: check_budget_violations)
  show "ce_status cost = Cost_known"
    using b(1) unfolding funding_check_snd_Nil_iff by (auto split: if_splits)
  show "lim_live_execution_enabled l = Some True" by (fact b(2))
  show "\<exists>c. lim_task_cost_ceiling_usd l = Some c \<and> dval (charged_amount cost) \<le> dval c"
    using b(3) check_budget_no_violation(2) [OF assms(1)] by (auto simp: over_ceiling_def)
  show "\<exists>d. lim_task_deadline_ms l = Some d
      \<and> (\<forall>m. env_minimum_next_action_ms env = Some m \<longrightarrow> m \<le> d)" by (fact b(4))
  show "env_remaining_usd env = Some rem \<Longrightarrow> dval (ce_known_subtotal cost) \<le> dval rem"
    using b(1) v unfolding funding_check_snd_Nil_iff funding_check_fst_Nil_iff by auto
qed

end
