(* ===== verification/Costs.thy ===== *)
theory Costs
  imports Bundle
begin

text \<open>
  The cost quote of one candidate route, \<^verbatim>\<open>policy/costs.py\<close>.

  The quote is computed in a private decimal context that rounds towards the ceiling and whose
  precision is chosen from the digits it meets. Two things are shown of it: a quote never
  undercuts the exact rational price of what it counts, whatever the tariff, and for
  fixed-point tariffs over a power-of-ten token unit it is that exact price.

  The identifier of the quote is a digest of the tariff and of the required fees; the digest is
  a parameter, since the code stores it and never inspects it.
\<close>

section \<open>The pieces of the computation\<close>

type_synonym quote_digest = "string \<Rightarrow> pricing \<Rightarrow> string \<Rightarrow> (string \<times> decimal option) list \<Rightarrow> string"

definition money :: "decimal option \<Rightarrow> decimal option" where
  "money v = (case v of None \<Rightarrow> None | Some d \<Rightarrow> if dec_le ZERO d then Some d else None)"

definition opt_list :: "'a option \<Rightarrow> 'a list" where
  "opt_list v = (case v of None \<Rightarrow> [] | Some x \<Rightarrow> [x])"

text \<open>Every decimal that the nested \<^verbatim>\<open>visit\<close> reaches: the tariff and the three fees.\<close>

definition long_context_decimals :: "long_context_pricing option \<Rightarrow> decimal list" where
  "long_context_decimals lc = (case lc of None \<Rightarrow> []
     | Some l \<Rightarrow> [lc_input_multiplier l, lc_output_multiplier l]
         @ opt_list (lc_cached_input_multiplier l) @ opt_list (lc_cache_write_multiplier l))"

definition visited_decimals :: "pricing \<Rightarrow> environment \<Rightarrow> decimal list" where
  "visited_decimals p env =
     opt_list (pr_input_usd p) @ opt_list (pr_cached_input_usd p) @ opt_list (pr_output_usd p)
     @ opt_list (pr_cache_write_input_multiplier p)
     @ long_context_decimals (pr_long_context p)
     @ (case pr_additional_tool_prices p of None \<Rightarrow> [] | Some ts \<Rightarrow> map snd ts)
     @ opt_list (env_required_evaluator_cost_usd env)
     @ opt_list (env_required_domain_validator_cost_usd env)
     @ opt_list (env_required_tool_charge_usd env)"

definition token_digits :: "token_context \<Rightarrow> nat" where
  "token_digits c = max (max (ndigits (tc_input_tokens c)) (ndigits (tc_expected_output_tokens c))) 1"

definition decimal_digits :: "decimal list \<Rightarrow> nat" where
  "decimal_digits ds = fold (\<lambda>d acc. max acc (digits d)) ds 1"

definition exponent_span :: "decimal list \<Rightarrow> nat" where
  "exponent_span ds = fold (\<lambda>d acc. max acc (nat \<bar>expo d\<bar>)) ds 0"

definition required_precision :: "request \<Rightarrow> pricing \<Rightarrow> environment \<Rightarrow> nat" where
  "required_precision r p env =
     (let ds = visited_decimals p env
      in max 64 (token_digits (rq_context r) + (decimal_digits ds + exponent_span ds) * 3 + 32))"

definition quote_context :: "request \<Rightarrow> pricing \<Rightarrow> environment \<Rightarrow> dec_context" where
  "quote_context r p env = \<lparr>prec = required_precision r p env, rounding_mode = ROUND_CEILING\<rparr>"

definition multiply :: "dec_context \<Rightarrow> decimal option \<Rightarrow> decimal option \<Rightarrow> decimal option" where
  "multiply ctx l r = (case (l, r) of (Some a, Some b) \<Rightarrow> Some (dec_mul ctx a b) | _ \<Rightarrow> None)"

definition token_charge :: "dec_context \<Rightarrow> nat \<Rightarrow> decimal option \<Rightarrow> decimal option \<Rightarrow> decimal option
    \<Rightarrow> decimal option" where
  "token_charge ctx tokens rate unit mult =
     (if tokens = 0 then Some ZERO
      else case (rate, unit, mult) of
          (Some r, Some u, Some m) \<Rightarrow>
            Some (dec_div ctx (dec_mul ctx (dec_mul ctx (dec_of_int (int tokens)) r) m) u)
        | _ \<Rightarrow> None)"

definition cache_read_tokens :: "token_context \<Rightarrow> nat" where
  "cache_read_tokens c = (if tc_cache_evidence c then tc_cached_input_tokens c else 0)"

text \<open>The context validator keeps the difference nonnegative.\<close>

definition uncached_input_tokens :: "token_context \<Rightarrow> nat" where
  "uncached_input_tokens c = tc_input_tokens c - cache_read_tokens c - tc_cache_write_tokens c"

definition long_context_active :: "pricing \<Rightarrow> token_context \<Rightarrow> bool" where
  "long_context_active p c =
     (case pr_long_context p of None \<Rightarrow> False | Some l \<Rightarrow> lc_input_tokens_gt l < tc_input_tokens c)"

definition long_multiplier :: "pricing \<Rightarrow> token_context \<Rightarrow> (long_context_pricing \<Rightarrow> decimal option)
    \<Rightarrow> decimal option" where
  "long_multiplier p c field =
     (if long_context_active p c then money (Option.bind (pr_long_context p) field)
      else Some (dec_of_int 1))"

definition unit_decimal :: "pricing \<Rightarrow> decimal option" where
  "unit_decimal p = (if 0 < pr_unit_tokens p then Some (dec_of_int (int (pr_unit_tokens p))) else None)"

text \<open>The four token buckets, in the order in which the code fills the breakdown.\<close>

definition generation_breakdown :: "dec_context \<Rightarrow> pricing \<Rightarrow> token_context
    \<Rightarrow> (string \<times> decimal option) list" where
  "generation_breakdown ctx p c =
     [(''uncached_input'', token_charge ctx (uncached_input_tokens c) (money (pr_input_usd p))
         (unit_decimal p) (long_multiplier p c (\<lambda>l. Some (lc_input_multiplier l)))),
      (''cache_read_input'', token_charge ctx (cache_read_tokens c) (money (pr_cached_input_usd p))
         (unit_decimal p) (long_multiplier p c lc_cached_input_multiplier)),
      (''cache_write_input'', token_charge ctx (tc_cache_write_tokens c)
         (multiply ctx (money (pr_input_usd p)) (money (pr_cache_write_input_multiplier p)))
         (unit_decimal p) (long_multiplier p c lc_cache_write_multiplier)),
      (''output'', token_charge ctx (tc_expected_output_tokens c) (money (pr_output_usd p))
         (unit_decimal p) (long_multiplier p c (\<lambda>l. Some (lc_output_multiplier l))))]"

definition unknown_name :: "bool \<Rightarrow> string \<Rightarrow> string" where
  "unknown_name long name =
     (if long \<and> name = ''cache_read_input'' then ''long_context_cache_read''
      else if long \<and> name = ''cache_write_input'' then ''long_context_cache_write''
      else name)"

definition unknown_entries :: "bool \<Rightarrow> (string \<times> decimal option) list \<Rightarrow> string list" where
  "unknown_entries long breakdown =
     map (\<lambda>(n, v). unknown_name long n) (filter (\<lambda>(n, v). v = None) breakdown)"

definition required_breakdown :: "request \<Rightarrow> environment \<Rightarrow> validation_requirements
    \<Rightarrow> (string \<times> decimal option) list" where
  "required_breakdown r env v =
     (if vr_evaluator_required v
      then [(''required_evaluator'', env_required_evaluator_cost_usd env)] else [])
     @ (if V3 \<in> set (vr_profiles v)
        then [(''required_domain_validator'',
               if ''domain_validator_unconfigured'' \<in> set (vr_blockers v) then None
               else env_required_domain_validator_cost_usd env)] else [])
     @ (if env_required_tool_charge env \<or> rq_side_effecting_tool r
        then [(''required_tool'', env_required_tool_charge_usd env)] else [])"

definition known_amounts :: "(string \<times> decimal option) list \<Rightarrow> decimal list" where
  "known_amounts breakdown = List.map_filter snd breakdown"

definition estimate_cost :: "quote_digest \<Rightarrow> request \<Rightarrow> model_entry \<Rightarrow> environment
    \<Rightarrow> validation_requirements \<Rightarrow> string \<Rightarrow> cost_estimate" where
  "estimate_cost digest r model env v currency =
     (let p = me_pricing model;
          c = rq_context r;
          ctx = quote_context r p env;
          long = long_context_active p c;
          generation = generation_breakdown ctx p c;
          required = required_breakdown r env v;
          breakdown = generation @ required;
          unknown = unknown_entries long generation @ unknown_entries long required;
          generation_subtotal = dec_sum ctx ZERO (known_amounts generation);
          known_subtotal = dec_sum ctx ZERO (known_amounts breakdown)
      in \<lparr>ce_status = (if unknown \<noteq> [] then (if dec_lt ZERO known_subtotal then Cost_partial else Cost_unavailable)
                       else Cost_known),
          ce_amount = (if unknown \<noteq> [] then None else Some known_subtotal),
          ce_currency = currency,
          ce_pricing_version = digest (me_provider_model_id model) p currency required,
          ce_model_pricing_version = pr_version p,
          ce_token_assumptions = c,
          ce_known_subtotal = known_subtotal,
          ce_generation_subtotal = generation_subtotal,
          ce_breakdown = breakdown,
          ce_unknown_charges = unknown,
          ce_cache_read_tokens = cache_read_tokens c,
          ce_long_context = long\<rparr>)"

section \<open>The exact price\<close>

text \<open>
  The price of the same buckets in rational arithmetic: tokens times rate times multiplier per
  unit, with no rounding anywhere.
\<close>

definition exact_token_charge :: "nat \<Rightarrow> rat option \<Rightarrow> nat \<Rightarrow> rat option \<Rightarrow> rat option" where
  "exact_token_charge tokens rate unit mult =
     (if tokens = 0 then Some 0
      else case (rate, mult) of
          (Some r, Some m) \<Rightarrow> if 0 < unit then Some (of_nat tokens * r * m / of_nat unit) else None
        | _ \<Rightarrow> None)"

definition exact_rate :: "decimal option \<Rightarrow> rat option" where
  "exact_rate v = map_option dval (money v)"

definition exact_write_rate :: "pricing \<Rightarrow> rat option" where
  "exact_write_rate p =
     (case (exact_rate (pr_input_usd p), exact_rate (pr_cache_write_input_multiplier p)) of
        (Some a, Some b) \<Rightarrow> Some (a * b) | _ \<Rightarrow> None)"

definition exact_generation :: "pricing \<Rightarrow> token_context \<Rightarrow> (string \<times> rat option) list" where
  "exact_generation p c =
     [(''uncached_input'', exact_token_charge (uncached_input_tokens c) (exact_rate (pr_input_usd p))
         (pr_unit_tokens p) (exact_rate (long_multiplier p c (\<lambda>l. Some (lc_input_multiplier l))))),
      (''cache_read_input'', exact_token_charge (cache_read_tokens c) (exact_rate (pr_cached_input_usd p))
         (pr_unit_tokens p) (exact_rate (long_multiplier p c lc_cached_input_multiplier))),
      (''cache_write_input'', exact_token_charge (tc_cache_write_tokens c) (exact_write_rate p)
         (pr_unit_tokens p) (exact_rate (long_multiplier p c lc_cache_write_multiplier))),
      (''output'', exact_token_charge (tc_expected_output_tokens c) (exact_rate (pr_output_usd p))
         (pr_unit_tokens p) (exact_rate (long_multiplier p c (\<lambda>l. Some (lc_output_multiplier l)))))]"

definition exact_breakdown :: "request \<Rightarrow> model_entry \<Rightarrow> environment \<Rightarrow> validation_requirements
    \<Rightarrow> (string \<times> rat option) list" where
  "exact_breakdown r model env v =
     exact_generation (me_pricing model) (rq_context r)
     @ map (\<lambda>(n, d). (n, map_option dval d)) (required_breakdown r env v)"

definition exact_subtotal :: "(string \<times> rat option) list \<Rightarrow> rat" where
  "exact_subtotal breakdown = sum_list (List.map_filter snd breakdown)"

section \<open>A quote never undercuts the exact price\<close>

text \<open>How a computed charge stands to the exact one, for a relation \<open>R\<close> on amounts.\<close>

definition charge_rel :: "(decimal \<Rightarrow> rat \<Rightarrow> bool) \<Rightarrow> string \<times> decimal option \<Rightarrow> string \<times> rat option \<Rightarrow> bool" where
  "charge_rel R a b = (fst a = fst b \<and> rel_option R (snd a) (snd b))"

abbreviation covers :: "decimal \<Rightarrow> rat \<Rightarrow> bool" where
  "covers d q \<equiv> money_ok d \<and> q \<le> dval d"

lemma charge_rel_known:
  "list_all2 (charge_rel R) bs es \<Longrightarrow> list_all2 R (known_amounts bs) (List.map_filter snd es)"
proof (induction rule: list_all2_induct)
  case Nil
  then show ?case by (simp add: known_amounts_def)
next
  case (Cons b bs e es)
  then have "rel_option R (snd b) (snd e)" by (simp add: charge_rel_def)
  with Cons show ?case
    by (cases "snd b"; cases "snd e") (auto simp: known_amounts_def)
qed

lemma charge_rel_unknown:
  "list_all2 (charge_rel R) bs es \<Longrightarrow> (unknown_entries long bs = []) \<longleftrightarrow> (\<forall>e \<in> set es. snd e \<noteq> None)"
proof (induction rule: list_all2_induct)
  case (Cons b bs e es)
  then have "rel_option R (snd b) (snd e)" by (simp add: charge_rel_def)
  with Cons show ?case
    by (cases b; cases "snd b"; cases "snd e") (auto simp: unknown_entries_def)
qed (simp add: unknown_entries_def)

lemma covers_sum:
  assumes "0 < prec ctx" and "rounding_mode ctx = ROUND_CEILING" and "list_all2 covers ds qs"
  shows "sum_list qs \<le> dval (dec_sum ctx ZERO ds) \<and> money_ok (dec_sum ctx ZERO ds)"
proof -
  have ok: "list_all money_ok ds" using assms(3) by (induction rule: list_all2_induct) auto
  have "sum_list qs \<le> sum_list (map dval ds)"
    using assms(3) by (induction rule: list_all2_induct) auto
  with dec_sum_ceiling [OF assms(1,2) _ ok, of ZERO] show ?thesis by auto
qed

lemma money_SomeD: "money v = Some d \<Longrightarrow> v = Some d \<and> money_ok d"
  by (auto simp: money_def money_ok_iff split: option.splits if_splits)

lemma dval_of_nat [simp]: "dval (dec_of_int (int n)) = of_nat n"
  by simp

lemma unit_decimal_SomeD:
  "unit_decimal p = Some u \<Longrightarrow> 0 < coeff u \<and> dval u = of_nat (pr_unit_tokens p) \<and> 0 < pr_unit_tokens p"
  by (auto simp: unit_decimal_def dec_of_int_def dval_def split: if_splits)

lemma long_multiplier_money:
  "money (long_multiplier p c f) = long_multiplier p c f"
  by (auto simp: long_multiplier_def money_def split: option.splits if_splits)

lemma token_charge_covers:
  assumes ctx: "0 < prec ctx" "rounding_mode ctx = ROUND_CEILING"
    and rate: "rel_option covers rate xrate" "\<And>q. xrate = Some q \<Longrightarrow> 0 \<le> q"
  shows "rel_option covers (token_charge ctx tokens rate (unit_decimal p) (money mult))
           (exact_token_charge tokens xrate (pr_unit_tokens p) (exact_rate mult))"
proof (cases "tokens = 0 \<or> rate = None \<or> unit_decimal p = None \<or> money mult = None")
  case True
  with rate show ?thesis
    by (auto simp: token_charge_def exact_token_charge_def exact_rate_def unit_decimal_def
        split: option.splits)
next
  case False
  then obtain r u m where known: "rate = Some r" "unit_decimal p = Some u" "money mult = Some m" by auto
  with rate obtain q where q: "xrate = Some q" "money_ok r" "0 \<le> q" "q \<le> dval r"
    by (cases xrate) auto
  have m: "money_ok m" "0 \<le> dval m" using money_SomeD [OF known(3)] by (auto simp: money_ok_iff)
  note u = unit_decimal_SomeD [OF known(2)]
  let ?t = "dec_of_int (int tokens)"
  let ?a = "dec_mul ctx ?t r" and ?b = "dec_mul ctx (dec_mul ctx ?t r) m"
  have t: "money_ok ?t" by (simp add: money_ok_iff)
  have a: "dval ?t * dval r \<le> dval ?a" "money_ok ?a" using dec_mul_ceiling [OF ctx t q(2)] by auto
  have b: "dval ?a * dval m \<le> dval ?b" "money_ok ?b" using dec_mul_ceiling [OF ctx a(2) m(1)] by auto
  have "of_nat tokens * q \<le> dval ?a" using a(1) q(4) by (simp add: order_trans [OF mult_left_mono])
  then have "of_nat tokens * q * dval m \<le> dval ?a * dval m" using m(2) by (rule mult_right_mono)
  with b(1) have "of_nat tokens * q * dval m \<le> dval ?b" by linarith
  then have "of_nat tokens * q * dval m / of_nat (pr_unit_tokens p) \<le> dval ?b / dval u"
    using u by (simp add: divide_right_mono)
  moreover have "dval ?b / dval u \<le> dval (dec_div ctx ?b u)" "money_ok (dec_div ctx ?b u)"
    using dec_div_ceiling [OF ctx b(2), of u] u by simp_all
  ultimately show ?thesis
    using False known q(1) u by (simp add: token_charge_def exact_token_charge_def exact_rate_def)
qed

lemma money_covers: "rel_option covers (money v) (exact_rate v)"
  by (cases "money v") (auto simp: exact_rate_def dest: money_SomeD)

lemma exact_rate_nonneg: "exact_rate v = Some q \<Longrightarrow> 0 \<le> q"
  by (auto simp: exact_rate_def money_ok_iff dest!: money_SomeD)

lemma write_rate_covers:
  assumes ctx: "0 < prec ctx" "rounding_mode ctx = ROUND_CEILING"
  shows "rel_option covers
     (multiply ctx (money (pr_input_usd p)) (money (pr_cache_write_input_multiplier p))) (exact_write_rate p)"
  using dec_mul_ceiling [OF ctx]
  by (cases "money (pr_input_usd p)"; cases "money (pr_cache_write_input_multiplier p)")
    (auto simp: multiply_def exact_write_rate_def exact_rate_def dest!: money_SomeD)

lemma exact_write_rate_nonneg: "exact_write_rate p = Some q \<Longrightarrow> 0 \<le> q"
  by (auto simp: exact_write_rate_def split: option.splits dest!: exact_rate_nonneg)

lemma generation_covers:
  assumes ctx: "0 < prec ctx" "rounding_mode ctx = ROUND_CEILING"
  shows "list_all2 (charge_rel covers) (generation_breakdown ctx p c) (exact_generation p c)"
proof -
  note plain = token_charge_covers [OF ctx money_covers exact_rate_nonneg,
      where mult = "long_multiplier p c f" for f, unfolded long_multiplier_money]
  note written = token_charge_covers [OF ctx write_rate_covers [OF ctx] exact_write_rate_nonneg,
      where mult = "long_multiplier p c f" for f, unfolded long_multiplier_money]
  show ?thesis
    by (simp add: generation_breakdown_def exact_generation_def charge_rel_def plain written)
qed

lemma required_covers:
  assumes "environment_ok env"
  shows "list_all2 (charge_rel (\<lambda>d q. money_ok d \<and> dval d = q)) (required_breakdown r env v)
           (map (\<lambda>(n, d). (n, map_option dval d)) (required_breakdown r env v))"
  using assms
  by (auto simp: required_breakdown_def charge_rel_def environment_ok_def option.rel_map
      split: option.splits intro!: option.rel_refl_strong)

lemma charge_rel_mono:
  assumes "\<And>d q. R d q \<Longrightarrow> S d q" and "list_all2 (charge_rel R) bs es"
  shows "list_all2 (charge_rel S) bs es"
  using assms(2) by (rule list_all2_mono) (auto simp: charge_rel_def intro: option.rel_mono_strong assms(1))

lemma quote_context_ceiling [simp]:
  "0 < prec (quote_context r p env)" "rounding_mode (quote_context r p env) = ROUND_CEILING"
  by (simp_all add: quote_context_def required_precision_def Let_def)

text \<open>The computed breakdown against the exact one, bucket by bucket.\<close>

lemma estimate_covers:
  assumes "environment_ok env"
  shows "list_all2 (charge_rel covers)
     (generation_breakdown (quote_context r (me_pricing model) env) (me_pricing model) (rq_context r) @ required_breakdown r env v)
     (exact_breakdown r model env v)"
  unfolding exact_breakdown_def
  by (intro list_all2_appendI generation_covers charge_rel_mono [OF _ required_covers [OF assms(1)]])
    simp_all

lemmas estimate_fields = estimate_cost_def Let_def

lemma estimate_breakdown:
  "ce_breakdown (estimate_cost dg r model env v cur)
     = generation_breakdown (quote_context r (me_pricing model) env) (me_pricing model) (rq_context r)
       @ required_breakdown r env v"
  by (simp add: estimate_fields)

lemma unknown_entries_append:
  "unknown_entries long (xs @ ys) = unknown_entries long xs @ unknown_entries long ys"
  by (simp add: unknown_entries_def)

lemma estimate_unknown:
  "ce_unknown_charges (estimate_cost dg r model env v cur)
     = unknown_entries (long_context_active (me_pricing model) (rq_context r))
         (ce_breakdown (estimate_cost dg r model env v cur))"
  by (simp add: estimate_fields unknown_entries_append)

lemma estimate_known_subtotal:
  "ce_known_subtotal (estimate_cost dg r model env v cur)
     = dec_sum (quote_context r (me_pricing model) env) ZERO
         (known_amounts (ce_breakdown (estimate_cost dg r model env v cur)))"
  by (simp add: estimate_fields)

lemma estimate_generation_subtotal:
  "ce_generation_subtotal (estimate_cost dg r model env v cur)
     = dec_sum (quote_context r (me_pricing model) env) ZERO
         (known_amounts (generation_breakdown (quote_context r (me_pricing model) env)
            (me_pricing model) (rq_context r)))"
  by (simp add: estimate_fields)

lemma estimate_status_iff:
  "ce_status (estimate_cost dg r model env v cur) = Cost_known
     \<longleftrightarrow> ce_unknown_charges (estimate_cost dg r model env v cur) = []"
  by (simp add: estimate_fields)

lemma estimate_amount:
  "ce_amount (estimate_cost dg r model env v cur)
     = (if ce_unknown_charges (estimate_cost dg r model env v cur) = []
        then Some (ce_known_subtotal (estimate_cost dg r model env v cur)) else None)"
  by (simp add: estimate_fields)

lemma estimate_coherent: "cost_coherent (estimate_cost dg r model env v cur)"
  by (simp add: cost_coherent_def estimate_status_iff estimate_amount)

lemma estimate_known_subtotal_covers:
  assumes "environment_ok env"
  shows "exact_subtotal (exact_breakdown r model env v)
           \<le> dval (ce_known_subtotal (estimate_cost dg r model env v cur))
         \<and> money_ok (ce_known_subtotal (estimate_cost dg r model env v cur))"
  unfolding exact_subtotal_def estimate_known_subtotal estimate_breakdown
  by (intro covers_sum charge_rel_known estimate_covers) (simp_all add: assms)

lemma estimate_generation_subtotal_covers:
  "exact_subtotal (exact_generation (me_pricing model) (rq_context r))
     \<le> dval (ce_generation_subtotal (estimate_cost dg r model env v cur))
   \<and> money_ok (ce_generation_subtotal (estimate_cost dg r model env v cur))"
  unfolding exact_subtotal_def estimate_generation_subtotal
  by (intro covers_sum charge_rel_known generation_covers) simp_all

lemma estimate_unknown_iff:
  assumes "environment_ok env"
  shows "ce_unknown_charges (estimate_cost dg r model env v cur) = []
     \<longleftrightarrow> (\<forall>e \<in> set (exact_breakdown r model env v). snd e \<noteq> None)"
  unfolding estimate_unknown estimate_breakdown
  by (rule charge_rel_unknown [OF estimate_covers [OF assms]])

section \<open>Fixed-point tariffs are quoted exactly\<close>

text \<open>
  A tariff is fixed-point when no decimal of it has a positive exponent and the token unit is a
  power of ten; thirty digits of unit are what the guard digits leave room for.
\<close>

definition fixed_point_quote :: "pricing \<Rightarrow> environment \<Rightarrow> nat \<Rightarrow> bool" where
  "fixed_point_quote p env k =
     (list_all (\<lambda>d. expo d \<le> 0) (visited_decimals p env) \<and> pr_unit_tokens p = 10 ^ k \<and> k \<le> 30)"

text \<open>\<open>d\<close> is a multiple of \<open>10 powi m\<close> with fewer than \<open>N\<close> digits in that unit.\<close>

definition in_units :: "int \<Rightarrow> nat \<Rightarrow> decimal \<Rightarrow> bool" where
  "in_units m N d = (\<exists>t. dval d = of_int t * 10 powi m \<and> \<bar>t\<bar> < 10 ^ N)"

lemma in_unitsI: "dval d = of_int t * 10 powi m \<Longrightarrow> \<bar>t\<bar> < 10 ^ N \<Longrightarrow> in_units m N d"
  by (auto simp: in_units_def)

lemma in_units_decimal:
  assumes "digits d \<le> D" and "- int S \<le> expo d" and "expo d \<le> 0"
  shows "in_units (- int S) (D + S) d"
proof -
  have "adjusted d \<le> int D - 1" using assms by (simp add: adjusted_def)
  from summand_units [OF assms(2) this] show ?thesis
    by (auto simp: in_units_def nat_add_distrib [of "int D" "int S", simplified])
qed

lemma in_units_weaken:
  assumes "in_units m N d" and "m' \<le> m" and "N + nat (m - m') \<le> N'"
  shows "in_units m' N' d"
proof -
  obtain t where t: "dval d = of_int t * 10 powi m" "\<bar>t\<bar> < 10 ^ N" using assms(1) by (auto simp: in_units_def)
  show ?thesis
  proof (rule in_unitsI)
    show "dval d = of_int (t * 10 ^ nat (m - m')) * 10 powi m'"
      using t(1) powi_split [OF assms(2)] by simp
    have "\<bar>t * 10 ^ nat (m - m')\<bar> = \<bar>t\<bar> * 10 ^ nat (m - m')" by (simp add: abs_mult)
    also have "\<dots> < 10 ^ N * 10 ^ nat (m - m')" using t(2) by (intro mult_strict_right_mono) auto
    also have "\<dots> = (10::int) ^ (N + nat (m - m'))" by (simp add: power_add)
    also have "\<dots> \<le> 10 ^ N'" using assms(3) by (intro power_increasing) auto
    finally show "\<bar>t * 10 ^ nat (m - m')\<bar> < 10 ^ N'" .
  qed
qed

lemma in_units_mul:
  assumes a: "in_units m1 N1 a" and b: "in_units m2 N2 b" and p: "0 < prec ctx" "N1 + N2 \<le> prec ctx"
  shows "dval (dec_mul ctx a b) = dval a * dval b" and "in_units (m1 + m2) (N1 + N2) (dec_mul ctx a b)"
proof -
  obtain s t where s: "dval a = of_int s * 10 powi m1" "\<bar>s\<bar> < 10 ^ N1"
    and t: "dval b = of_int t * 10 powi m2" "\<bar>t\<bar> < 10 ^ N2"
    using a b by (auto simp: in_units_def)
  have prod: "dval a * dval b = of_int (s * t) * 10 powi (m1 + m2)"
    using s(1) t(1) by (simp add: power_int_add)
  have lt: "\<bar>s * t\<bar> < 10 ^ (N1 + N2)"
    using s(2) t(2) by (simp add: abs_mult power_add mult_strict_mono')
  have "(10::int) ^ (N1 + N2) \<le> 10 ^ prec ctx" using p(2) by (intro power_increasing) auto
  with lt have "\<bar>s * t\<bar> < 10 ^ prec ctx" by linarith
  from dec_fix_exact_val [OF p(1) _ this, of "exact_mul a b" "m1 + m2"] prod
  show exact: "dval (dec_mul ctx a b) = dval a * dval b" by (simp add: dec_mul_def)
  show "in_units (m1 + m2) (N1 + N2) (dec_mul ctx a b)"
    using exact prod lt by (intro in_unitsI) auto
qed

lemma in_units_div:
  assumes a: "in_units m N a" "money_ok a" and u: "u = dec_of_int (10 ^ k)"
    and p: "0 < prec ctx" "N \<le> prec ctx"
  shows "dval (dec_div ctx a u) = dval a / 10 ^ k" and "in_units (m - int k) N (dec_div ctx a u)"
proof -
  obtain t where t: "dval a = of_int t * 10 powi m" "\<bar>t\<bar> < 10 ^ N" using a by (auto simp: in_units_def)
  have quot: "dval a / dval u = of_int t * 10 powi (m - int k)"
    using t(1) u by (simp add: power_int_diff)
  have "(10::int) ^ N \<le> 10 ^ prec ctx" using p(2) by (intro power_increasing) auto
  with t(2) have "\<bar>t\<bar> < 10 ^ prec ctx" by linarith
  from dec_div_exact [OF p(1) a(2) _ quot this] u
  have "dval (dec_div ctx a u) = dval a / dval u" by (simp add: dec_of_int_def)
  then show "dval (dec_div ctx a u) = dval a / 10 ^ k" "in_units (m - int k) N (dec_div ctx a u)"
    using u quot t(2) by (auto intro: in_unitsI)
qed

lemma in_units_sum:
  assumes "list_all (in_units m N) vs" and "int (length vs) * 10 ^ N < 10 ^ prec ctx" and "0 < prec ctx"
  shows "dval (dec_sum ctx ZERO vs) = sum_list (map dval vs)"
proof -
  have "dval (dec_sum ctx ZERO vs) = dval ZERO + sum_list (map dval vs)"
    by (rule dec_sum_exact [where T = 0 and k = 0 and m = m and B = "10 ^ N"])
      (use assms in \<open>auto simp: in_units_def list_all_iff\<close>)
  then show ?thesis by simp
qed

lemma fold_max_ge: "a \<le> fold (\<lambda>x acc. max acc (f x)) xs a
    \<and> (\<forall>x \<in> set xs. f x \<le> fold (\<lambda>x acc. max acc (f x)) xs (a::nat))"
proof (induction xs arbitrary: a)
  case (Cons y ys)
  from Cons [of "max a (f y)"] show ?case by (simp add: max.bounded_iff)
qed simp

text \<open>The bounds that the chosen precision is computed from.\<close>

definition tariff_decimal :: "pricing \<Rightarrow> environment \<Rightarrow> decimal \<Rightarrow> bool" where
  "tariff_decimal p env d =
     (digits d \<le> decimal_digits (visited_decimals p env)
      \<and> nat \<bar>expo d\<bar> \<le> exponent_span (visited_decimals p env) \<and> expo d \<le> 0)"

abbreviation tariff_digits :: "pricing \<Rightarrow> environment \<Rightarrow> nat" where
  "tariff_digits p env \<equiv> decimal_digits (visited_decimals p env) + exponent_span (visited_decimals p env)"

abbreviation tariff_span :: "pricing \<Rightarrow> environment \<Rightarrow> int" where
  "tariff_span p env \<equiv> int (exponent_span (visited_decimals p env))"

lemma visited_tariff_decimal:
  "fixed_point_quote p env k \<Longrightarrow> d \<in> set (visited_decimals p env) \<Longrightarrow> tariff_decimal p env d"
  using fold_max_ge [where f = digits and xs = "visited_decimals p env" and a = 1]
    fold_max_ge [where f = "\<lambda>d. nat \<bar>expo d\<bar>" and xs = "visited_decimals p env" and a = 0]
  by (auto simp: tariff_decimal_def decimal_digits_def exponent_span_def fixed_point_quote_def list_all_iff)

lemma one_tariff_decimal: "tariff_decimal p env (dec_of_int 1)"
  using fold_max_ge [where f = digits and xs = "visited_decimals p env" and a = 1]
  by (simp add: tariff_decimal_def dec_of_int_def digits_def ndigits.simps [of "Suc 0"] decimal_digits_def)

lemma tariff_decimal_units:
  "tariff_decimal p env d \<Longrightarrow> in_units (- tariff_span p env) (tariff_digits p env) d"
  by (rule in_units_decimal) (auto simp: tariff_decimal_def)

lemma token_units:
  assumes "tokens \<le> tc_input_tokens c \<or> tokens \<le> tc_expected_output_tokens c"
  shows "in_units 0 (token_digits c) (dec_of_int (int tokens))"
proof (rule in_unitsI [where t = "int tokens"])
  have "tokens < 10 ^ token_digits c"
  proof -
    have "n < 10 ^ token_digits c" if "n \<in> {tc_input_tokens c, tc_expected_output_tokens c}" for n
    proof -
      have "0 < token_digits c" "ndigits n \<le> token_digits c" using that by (auto simp: token_digits_def)
      then show ?thesis using ndigits_le_iff by blast
    qed
    then show ?thesis using assms le_less_trans by blast
  qed
  then show "\<bar>int tokens\<bar> < 10 ^ token_digits c"
    by (metis abs_of_nat of_nat_less_iff of_nat_numeral of_nat_power)
qed simp

lemma quote_precision:
  "token_digits (rq_context r) + tariff_digits p env * 3 + 32 \<le> prec (quote_context r p env)"
  by (simp add: quote_context_def required_precision_def Let_def)

lemma in_units_ZERO [simp]: "in_units m N ZERO"
  by (rule in_unitsI [where t = 0]) simp_all

text \<open>One bucket, computed exactly: the rate may be a product of two tariff decimals.\<close>

lemma token_charge_exact:
  fixes r p env
  defines "ctx \<equiv> quote_context r p env"
  assumes fp: "fixed_point_quote p env k"
    and tokens: "tokens \<le> tc_input_tokens (rq_context r) \<or> tokens \<le> tc_expected_output_tokens (rq_context r)"
    and rate: "rel_option (\<lambda>d q. dval d = q \<and> money_ok d
        \<and> in_units (- 2 * tariff_span p env) (2 * tariff_digits p env) d) rate xrate"
    and mult: "\<And>m. money mult = Some m \<Longrightarrow> tariff_decimal p env m"
  shows "rel_option (\<lambda>d q. dval d = q
      \<and> in_units (- 3 * tariff_span p env - int k) (token_digits (rq_context r) + 3 * tariff_digits p env) d)
     (token_charge ctx tokens rate (unit_decimal p) (money mult))
     (exact_token_charge tokens xrate (pr_unit_tokens p) (exact_rate mult))"
proof (cases "tokens = 0 \<or> rate = None \<or> money mult = None")
  case True
  with rate show ?thesis
    by (auto simp: token_charge_def exact_token_charge_def exact_rate_def split: option.splits)
next
  case False
  then obtain d m where known: "rate = Some d" "money mult = Some m" by auto
  then obtain q where q: "xrate = Some q" using rate by (cases xrate) auto
  have d: "dval d = q" "money_ok d" "in_units (- 2 * tariff_span p env) (2 * tariff_digits p env) d"
    using rate known q by auto
  have m: "money_ok m" "in_units (- tariff_span p env) (tariff_digits p env) m"
    using money_SomeD [OF known(2)] tariff_decimal_units [OF mult [OF known(2)]] by auto
  let ?u = "dec_of_int (10 ^ k)" and ?t = "dec_of_int (int tokens)"
  let ?a = "dec_mul ctx ?t d" and ?b = "dec_mul ctx (dec_mul ctx ?t d) m"
  have unit: "unit_decimal p = Some ?u" "pr_unit_tokens p = 10 ^ k"
    using fp by (auto simp: unit_decimal_def fixed_point_quote_def)
  have p: "0 < prec ctx" "rounding_mode ctx = ROUND_CEILING"
    "token_digits (rq_context r) + 3 * tariff_digits p env \<le> prec ctx"
    using quote_precision [of r p env] by (auto simp: ctx_def)
  have t: "money_ok ?t" by (simp add: money_ok_iff)
  have a: "dval ?a = dval ?t * dval d"
    "in_units (0 + - 2 * tariff_span p env) (token_digits (rq_context r) + 2 * tariff_digits p env) ?a"
    using in_units_mul [OF token_units [OF tokens] d(3), of ctx] p by auto
  have b: "dval ?b = dval ?a * dval m"
    "in_units ((0 + - 2 * tariff_span p env) + - tariff_span p env)
       ((token_digits (rq_context r) + 2 * tariff_digits p env) + tariff_digits p env) ?b"
    using in_units_mul [OF a(2) m(2), of ctx] p by auto
  have ok: "money_ok ?b" using dec_mul_ceiling [OF p(1,2)] t d(2) m(1) by blast
  have b': "in_units (- 3 * tariff_span p env) (token_digits (rq_context r) + 3 * tariff_digits p env) ?b"
    by (rule in_units_weaken [OF b(2)]) auto
  note c = in_units_div [OF b' ok refl p(1) p(3), of k]
  have "dval (dec_div ctx ?b ?u) = of_nat tokens * q * dval m / 10 ^ k"
    using c(1) a(1) b(1) d(1) by simp
  with c(2) show ?thesis
    using False known q unit by (simp add: token_charge_def exact_token_charge_def exact_rate_def)
qed

lemma money_visited:
  assumes "fixed_point_quote p env k" and "set (opt_list v) \<subseteq> set (visited_decimals p env)"
    and "money v = Some d"
  shows "tariff_decimal p env d"
  using assms money_SomeD [OF assms(3)] by (auto simp: opt_list_def intro: visited_tariff_decimal)

lemma long_multiplier_tariff:
  assumes "fixed_point_quote p env k"
    and "\<And>l d. pr_long_context p = Some l \<Longrightarrow> f l = Some d \<Longrightarrow> d \<in> set (visited_decimals p env)"
    and "money (long_multiplier p c f) = Some d"
  shows "tariff_decimal p env d"
proof (cases "long_context_active p c")
  case True
  with assms(3) have "Option.bind (pr_long_context p) f = Some d"
    by (auto simp: long_multiplier_money long_multiplier_def dest: money_SomeD)
  then show ?thesis using assms(1,2) by (auto simp: bind_eq_Some_conv intro: visited_tariff_decimal)
next
  case False
  with assms(3) show ?thesis
    by (auto simp: long_multiplier_def one_tariff_decimal dest!: money_SomeD)
qed

lemma plain_rate_exact:
  assumes "fixed_point_quote p env k" and "set (opt_list v) \<subseteq> set (visited_decimals p env)"
  shows "rel_option (\<lambda>d q. dval d = q \<and> money_ok d
      \<and> in_units (- 2 * tariff_span p env) (2 * tariff_digits p env) d) (money v) (exact_rate v)"
proof (cases "money v")
  case (Some d)
  have "in_units (- 2 * tariff_span p env) (2 * tariff_digits p env) d"
    by (rule in_units_weaken [OF tariff_decimal_units [OF money_visited [OF assms Some]]]) auto
  with Some show ?thesis by (auto simp: exact_rate_def dest: money_SomeD)
qed (simp add: exact_rate_def)

lemma write_rate_exact:
  fixes r p env
  defines "ctx \<equiv> quote_context r p env"
  assumes fp: "fixed_point_quote p env k"
  shows "rel_option (\<lambda>d q. dval d = q \<and> money_ok d
      \<and> in_units (- 2 * tariff_span p env) (2 * tariff_digits p env) d)
    (multiply ctx (money (pr_input_usd p)) (money (pr_cache_write_input_multiplier p))) (exact_write_rate p)"
proof (cases "money (pr_input_usd p) = None \<or> money (pr_cache_write_input_multiplier p) = None")
  case True
  then show ?thesis by (auto simp: multiply_def exact_write_rate_def exact_rate_def split: option.splits)
next
  case False
  then obtain a b where ab: "money (pr_input_usd p) = Some a"
    "money (pr_cache_write_input_multiplier p) = Some b" by auto
  have units: "in_units (- tariff_span p env) (tariff_digits p env) a"
    "in_units (- tariff_span p env) (tariff_digits p env) b"
    by (rule tariff_decimal_units [OF money_visited [OF fp _ ab(1)]],
        force simp: visited_decimals_def)
      (rule tariff_decimal_units [OF money_visited [OF fp _ ab(2)]],
        force simp: visited_decimals_def)
  have p: "0 < prec ctx" "rounding_mode ctx = ROUND_CEILING" "tariff_digits p env + tariff_digits p env \<le> prec ctx"
    using quote_precision [of r p env] by (auto simp: ctx_def)
  have "money_ok (dec_mul ctx a b)" using dec_mul_ceiling [OF p(1,2)] ab money_SomeD by blast
  with in_units_mul [OF units p(1) p(3)] ab show ?thesis
    by (auto simp: multiply_def exact_write_rate_def exact_rate_def elim!: in_units_weaken)
qed

abbreviation exact_within :: "int \<Rightarrow> nat \<Rightarrow> decimal \<Rightarrow> rat \<Rightarrow> bool" where
  "exact_within m N d q \<equiv> dval d = q \<and> in_units m N d"

lemma generation_exact:
  fixes r p env
  assumes fp: "fixed_point_quote p env k" and tok: "token_context_ok (rq_context r)"
  shows "list_all2 (charge_rel (exact_within (- 3 * tariff_span p env - int k)
        (token_digits (rq_context r) + 3 * tariff_digits p env)))
      (generation_breakdown (quote_context r p env) p (rq_context r)) (exact_generation p (rq_context r))"
proof -
  let ?c = "rq_context r"
  have tokens: "uncached_input_tokens ?c \<le> tc_input_tokens ?c" "cache_read_tokens ?c \<le> tc_input_tokens ?c"
    "tc_cache_write_tokens ?c \<le> tc_input_tokens ?c"
    using tok by (auto simp: uncached_input_tokens_def cache_read_tokens_def token_context_ok_def)
  note charge = token_charge_exact [OF fp, where mult = "long_multiplier p ?c f" for f,
      unfolded long_multiplier_money]
  note mult = long_multiplier_tariff [OF fp, where c = ?c, unfolded long_multiplier_money]
  have sub: "set (opt_list (pr_input_usd p)) \<subseteq> set (visited_decimals p env)"
    "set (opt_list (pr_cached_input_usd p)) \<subseteq> set (visited_decimals p env)"
    "set (opt_list (pr_output_usd p)) \<subseteq> set (visited_decimals p env)"
    by (auto simp: visited_decimals_def)
  have lc: "pr_long_context p = Some l \<Longrightarrow> d \<in> set (long_context_decimals (Some l))
      \<Longrightarrow> d \<in> set (visited_decimals p env)" for l d
    by (simp add: visited_decimals_def)
  have "m \<in> set (long_context_decimals (Some l))" if "f l = Some m"
    "f = (\<lambda>l. Some (lc_input_multiplier l)) \<or> f = (\<lambda>l. Some (lc_output_multiplier l))
      \<or> f = lc_cached_input_multiplier \<or> f = lc_cache_write_multiplier" for f l m
    using that by (auto simp: long_context_decimals_def opt_list_def)
  then have mults: "long_multiplier p ?c f = Some d \<Longrightarrow> tariff_decimal p env d"
    if "f = (\<lambda>l. Some (lc_input_multiplier l)) \<or> f = (\<lambda>l. Some (lc_output_multiplier l))
      \<or> f = lc_cached_input_multiplier \<or> f = lc_cache_write_multiplier" for f d
    using that by (intro mult [of f d]) (auto intro: lc)
  show ?thesis
    unfolding generation_breakdown_def exact_generation_def
    by (intro list_all2_Cons [THEN iffD2] conjI list.rel_intros(1);
        unfold charge_rel_def fst_conv snd_conv; intro conjI refl charge mults)
      (use tokens plain_rate_exact [OF fp] sub write_rate_exact [OF fp] in auto)
qed

lemma required_exact:
  assumes fp: "fixed_point_quote p env k"
  shows "list_all2 (charge_rel (exact_within (- 3 * tariff_span p env - int k)
        (token_digits c + 3 * tariff_digits p env + 30)))
      (required_breakdown r env v) (map (\<lambda>(n, d). (n, map_option dval d)) (required_breakdown r env v))"
proof -
  have units: "in_units (- 3 * tariff_span p env - int k) (token_digits c + 3 * tariff_digits p env + 30) d"
    if "d \<in> set (visited_decimals p env)" for d
    by (rule in_units_weaken [OF tariff_decimal_units [OF visited_tariff_decimal [OF fp that]]])
      (use fp in \<open>auto simp: fixed_point_quote_def\<close>)
  have "rel_option (exact_within (- 3 * tariff_span p env - int k)
      (token_digits c + 3 * tariff_digits p env + 30)) w (map_option dval w)"
    if "set (opt_list w) \<subseteq> set (visited_decimals p env)" for w
    using that units by (cases w) (auto simp: opt_list_def)
  then show ?thesis
    by (auto simp: required_breakdown_def charge_rel_def visited_decimals_def)
qed

lemma exact_within_sum:
  assumes "list_all2 (exact_within m N) ds qs" and "int (length ds) * 10 ^ N < 10 ^ prec ctx" "0 < prec ctx"
  shows "dval (dec_sum ctx ZERO ds) = sum_list qs"
proof -
  have "list_all (in_units m N) ds" "sum_list (map dval ds) = sum_list qs"
    using assms(1) by (induction rule: list_all2_induct) auto
  with in_units_sum [OF _ assms(2,3)] show ?thesis by simp
qed

lemma estimate_exact:
  assumes fp: "fixed_point_quote (me_pricing model) env k" and "token_context_ok (rq_context r)"
  shows "dval (ce_known_subtotal (estimate_cost dg r model env v cur))
           = exact_subtotal (exact_breakdown r model env v)"
proof -
  let ?p = "me_pricing model"
  let ?ctx = "quote_context r ?p env"
  let ?N = "token_digits (rq_context r) + 3 * tariff_digits ?p env + 30"
  let ?bs = "generation_breakdown ?ctx ?p (rq_context r) @ required_breakdown r env v"
  have "list_all2 (charge_rel (exact_within (- 3 * tariff_span ?p env - int k) ?N)) ?bs
      (exact_breakdown r model env v)"
    unfolding exact_breakdown_def
    by (intro list_all2_appendI charge_rel_mono [OF _ generation_exact [OF assms]] required_exact [OF fp])
      (auto elim: in_units_weaken)
  note known = charge_rel_known [OF this]
  have "length (known_amounts ?bs) \<le> length ?bs"
    by (simp add: known_amounts_def map_filter_def add_mono)
  also have "\<dots> \<le> 7" by (auto simp: generation_breakdown_def required_breakdown_def)
  finally have "int (length (known_amounts ?bs)) * 10 ^ ?N \<le> 7 * 10 ^ ?N"
    by (intro mult_right_mono) auto
  also have "\<dots> < (10::int) ^ (?N + 1)" unfolding power_add by simp
  also have "\<dots> \<le> 10 ^ prec ?ctx"
    using quote_precision [of r ?p env] by (intro power_increasing) auto
  finally show ?thesis
    unfolding estimate_known_subtotal estimate_breakdown exact_subtotal_def
    by (intro exact_within_sum [OF known]) simp_all
qed

end
