(* ===== verification/Modifiers.thy ===== *)
theory Modifiers
  imports Bundle "HOL-Library.Product_Lexorder"
begin

text \<open>
  \<^verbatim>\<open>policy/modifiers.py\<close>: matching a classification against the pinned policy and building
  the ordered candidate plan from the baseline prior, the matched modifiers, the floors and the
  constrained fallbacks.

  The nested \<^verbatim>\<open>add_candidates\<close> is a fold over (model, efforts) entries that skips pairs it
  has seen; the two rule loops are folds over a record of the local variables they update.
  Python's \<^verbatim>\<open>sorted\<close> is the stable \<open>sort_key\<close>.
\<close>

section \<open>Classification checks\<close>

definition known_flags :: "policy_document \<Rightarrow> string set" where
  "known_flags p =
     set (concat (map (ma_flags_all \<circ> fr_match) (pol_task_family_floors p)
        @ map (ma_flags_all \<circ> md_match) (pol_modifiers p)))"

definition component_in_range :: "(string \<times> component_range) list \<Rightarrow> string \<times> nat \<Rightarrow> bool" where
  "component_in_range configured item =
     (case map_of configured (fst item) of None \<Rightarrow> False
      | Some r \<Rightarrow> cr_min r \<le> snd item \<and> snd item \<le> cr_max r)"

definition validated_classification ::
    "classification \<Rightarrow> policy_document \<Rightarrow> (string \<times> nat) list res" where
  "validated_classification c p =
     (let items = component_items (cl_components c);
          total = components_total (cl_components c) in
      bind_res (check_res (cl_task_family c \<in> set (pol_task_families p)) InputError) (\<lambda>_.
      bind_res (check_res (cl_task_subclass c = None) InputError) (\<lambda>_.
      bind_res (check_res (set (map fst items) = set (map fst (cx_components (pol_complexity p))))
        InputError) (\<lambda>_.
      bind_res (check_res (list_all (component_in_range (cx_components (pol_complexity p))) items)
        InputError) (\<lambda>_.
      bind_res (check_res (cx_total_min (pol_complexity p) \<le> total
          \<and> total \<le> cx_total_max (pol_complexity p)) InputError) (\<lambda>_.
      bind_res (check_res (case cl_supplied_total c of None \<Rightarrow> True | Some t \<Rightarrow> t = total) InputError) (\<lambda>_.
      bind_res (check_res (set (map fst (cl_flags c)) \<subseteq> known_flags p) InputError) (\<lambda>_.
      Inr items))))))))"

definition complexity_band_of :: "policy_document \<Rightarrow> nat \<Rightarrow> complexity_band res" where
  "complexity_band_of p t =
     (case find (\<lambda>b. cb_min b \<le> t \<and> t \<le> cb_max b) (pol_complexity_bands p) of
        None \<Rightarrow> Inl InputError | Some b \<Rightarrow> Inr b)"

definition matches :: "rule_match \<Rightarrow> classification \<Rightarrow> (string \<times> nat) list \<Rightarrow> bool" where
  "matches m c components =
     ((ma_families m = [] \<or> cl_task_family c \<in> set (ma_families m))
      \<and> list_all (\<lambda>flag. map_of (cl_flags c) flag = Some True) (ma_flags_all m)
      \<and> (case ma_complexity_min m of None \<Rightarrow> True | Some t \<Rightarrow> t \<le> sum_list (map snd components))
      \<and> list_all (\<lambda>(n, t). case map_of components n of None \<Rightarrow> False | Some v \<Rightarrow> t \<le> v)
          (ma_component_min m))"

section \<open>Candidates\<close>

text \<open>The first catalog model of the tier decides the rank.\<close>

definition tier_rank :: "string \<Rightarrow> (string \<times> model_entry) list \<Rightarrow> nat res" where
  "tier_rank tier models =
     (case find (\<lambda>(a, m). me_tier m = tier) models of
        None \<Rightarrow> Inl InputError | Some (a, m) \<Rightarrow> Inr (me_tier_rank m))"

definition supported_in_order :: "model_entry \<Rightarrow> effort list \<Rightarrow> effort list" where
  "supported_in_order m efforts = filter (\<lambda>e. e \<in> set (me_reasoning_efforts m)) efforts"

definition within_limits :: "nat \<Rightarrow> limits \<Rightarrow> bool" where
  "within_limits rank l =
     ((case lim_model_tier_floor l of None \<Rightarrow> True | Some lo \<Rightarrow> lo \<le> rank)
      \<and> (case lim_model_tier_ceiling l of None \<Rightarrow> True | Some hi \<Rightarrow> rank \<le> hi))"

abbreviation cand_pair :: "candidate \<Rightarrow> string \<times> effort" where
  "cand_pair c \<equiv> (cand_model c, cand_effort c)"

fun add_pairs :: "candidate_source \<Rightarrow> (string \<times> effort) list \<Rightarrow> candidate list \<Rightarrow> candidate list" where
  "add_pairs source [] cands = cands"
| "add_pairs source (k # ks) cands =
     add_pairs source ks
       (if k \<in> set (map cand_pair cands) then cands
        else cands @ [\<lparr>cand_model = fst k, cand_effort = snd k, cand_source = source\<rparr>])"

definition add_candidates :: "candidate_spec list \<Rightarrow> candidate_source \<Rightarrow> candidate list \<Rightarrow> candidate list" where
  "add_candidates entries source cands = add_pairs source (spec_pairs entries) cands"

section \<open>The rule loops\<close>

record rule_state =
  rs_floors :: "floor_evidence list"
  rs_rationales :: "string list"
  rs_matched :: "string list"
  rs_hard :: nat
  rs_preferred :: nat
  rs_entries :: "candidate_spec list"

definition initial_rules :: "nat \<Rightarrow> rule_state" where
  "initial_rules minimum_rank = \<lparr>rs_floors = [], rs_rationales = [''BASELINE_PRIOR''], rs_matched = [],
     rs_hard = minimum_rank, rs_preferred = minimum_rank, rs_entries = []\<rparr>"

definition apply_floor_rule :: "classification \<Rightarrow> (string \<times> nat) list \<Rightarrow> (string \<times> model_entry) list
    \<Rightarrow> floor_rule \<Rightarrow> rule_state \<Rightarrow> rule_state res" where
  "apply_floor_rule c components models rule s =
     (if \<not> matches (fr_match rule) c components then Inr s
      else bind_res (tier_rank (fr_min_tier rule) models) (\<lambda>rank.
        Inr (s\<lparr>rs_floors := rs_floors s @ [\<lparr>fe_rule_id = fr_id rule, fe_strength = fr_strength rule,
                                            fe_min_tier = rank\<rparr>],
              rs_matched := rs_matched s @ [fr_id rule],
              rs_rationales := extend_unique (rs_rationales s) (fr_rationale_codes rule),
              rs_hard := (if fr_strength rule = Strength_hard then max (rs_hard s) rank else rs_hard s),
              rs_preferred := (if fr_strength rule = Strength_hard then rs_preferred s
                               else max (rs_preferred s) rank)\<rparr>)))"

definition apply_modifier :: "classification \<Rightarrow> (string \<times> nat) list \<Rightarrow> (string \<times> model_entry) list
    \<Rightarrow> modifier \<Rightarrow> rule_state \<Rightarrow> rule_state res" where
  "apply_modifier c components models rule s =
     (if \<not> matches (md_match rule) c components then Inr s
      else let s' = s\<lparr>rs_matched := rs_matched s @ [md_id rule],
                      rs_rationales := extend_unique (rs_rationales s) (md_rationale_codes rule),
                      rs_entries := rs_entries s @ mf_add_candidates (md_effect rule)\<rparr>
           in case mf_preferred_min_tier (md_effect rule) of
                None \<Rightarrow> Inr s'
              | Some tier \<Rightarrow> bind_res (tier_rank tier models) (\<lambda>rank.
                  Inr (s'\<lparr>rs_preferred := max (rs_preferred s') rank,
                         rs_floors := rs_floors s' @ [\<lparr>fe_rule_id = md_id rule,
                           fe_strength = Strength_preferred, fe_min_tier = rank\<rparr>]\<rparr>)))"

section \<open>The plan\<close>

definition model_rank :: "(string \<times> model_entry) list \<Rightarrow> string \<Rightarrow> nat" where
  "model_rank models name = (case map_of models name of None \<Rightarrow> 0 | Some m \<Rightarrow> me_tier_rank m)"

definition model_efforts :: "(string \<times> model_entry) list \<Rightarrow> string \<Rightarrow> effort list \<Rightarrow> effort list" where
  "model_efforts models name efforts =
     (case map_of models name of None \<Rightarrow> [] | Some m \<Rightarrow> supported_in_order m efforts)"

definition enabled_models :: "(string \<times> model_entry) list \<Rightarrow> string list" where
  "enabled_models models = map fst (filter (\<lambda>(a, m). configured_enabled m) models)"

text \<open>The distance of a rank to the prior ranks, the first component of the fallback order.\<close>

definition rank_distance :: "nat list \<Rightarrow> nat \<Rightarrow> nat" where
  "rank_distance prior_ranks rank = Min (set (map (\<lambda>p. nat \<bar>int rank - int p\<bar>) prior_ranks))"

definition floor_entries :: "(string \<times> model_entry) list \<Rightarrow> effort list \<Rightarrow> nat \<Rightarrow> string set
    \<Rightarrow> candidate_spec list" where
  "floor_entries models preference applicable existing =
     map (\<lambda>n. \<lparr>cs_model = n, cs_efforts = model_efforts models n preference\<rparr>)
       (filter (\<lambda>n. applicable \<le> model_rank models n \<and> n \<notin> existing)
          (sort_key (model_rank models) (enabled_models models)))"

definition fallback_entries :: "(string \<times> model_entry) list \<Rightarrow> effort list \<Rightarrow> effort list \<Rightarrow> nat list
    \<Rightarrow> string set \<Rightarrow> limits \<Rightarrow> candidate_spec list" where
  "fallback_entries models prior_efforts preference prior_ranks prior_models l =
     map (\<lambda>n. \<lparr>cs_model = n,
                cs_efforts = (let efforts = model_efforts models n prior_efforts
                              in if efforts = [] then model_efforts models n preference else efforts)\<rparr>)
       (filter (\<lambda>n. n \<notin> prior_models \<and> within_limits (model_rank models n) l)
          (sort_key (\<lambda>n. (rank_distance prior_ranks (model_rank models n), model_rank models n))
             (enabled_models models)))"

definition floor_applies :: "floor_evidence list \<Rightarrow> limits \<Rightarrow> nat \<Rightarrow> bool" where
  "floor_applies floors l minimum_rank =
     (floors \<noteq> [] \<or> (case lim_model_tier_floor l of None \<Rightarrow> False | Some lo \<Rightarrow> minimum_rank < lo))"

definition build_candidates :: "classification \<Rightarrow> policy_bundle \<Rightarrow> limits \<Rightarrow> candidate_plan res" where
  "build_candidates c b l =
     (let p = pb_policy b; models = bundle_models b in
      bind_res (validated_classification c p) (\<lambda>components.
      bind_res (check_res (models \<noteq> []) ValueError) (\<lambda>_.
      let minimum_rank = Min (set (map (me_tier_rank \<circ> snd) models)) in
      bind_res (complexity_band_of p (sum_list (map snd components))) (\<lambda>band.
      let prior = cb_candidates band;
          prior_models = set (map cs_model prior) in
      bind_res (map_res (\<lambda>s. bind_res (get_res models (cs_model s)) (\<lambda>m. Inr (me_tier_rank m))) prior)
        (\<lambda>prior_ranks.
      let prior_efforts = stable_unique (concat (map cs_efforts prior));
          cands1 = add_candidates prior Source_prior [] in
      bind_res (fold_res (apply_floor_rule c components models) (pol_task_family_floors p)
          (initial_rules minimum_rank)) (\<lambda>s1.
      bind_res (fold_res (apply_modifier c components models) (pol_modifiers p) s1) (\<lambda>s2.
      let cands2 = add_candidates (rs_entries s2) Source_modifier cands1;
          limit_floor = (case lim_model_tier_floor l of None \<Rightarrow> minimum_rank | Some lo \<Rightarrow> lo);
          applicable = max (max (rs_hard s2) (rs_preferred s2)) limit_floor;
          preference = sel_floor_candidate_effort_preference (pol_selection p);
          cands3 = (if floor_applies (rs_floors s2) l minimum_rank
                    then add_candidates
                      (floor_entries models preference applicable (set (map cand_model cands2)))
                      Source_floor cands2
                    else cands2) in
      bind_res (check_res (prior_ranks \<noteq> [] \<or> enabled_models models = []) ValueError) (\<lambda>_.
      let cands4 = add_candidates
            (fallback_entries models prior_efforts preference prior_ranks prior_models l)
            Source_fallback cands3
      in Inr \<lparr>plan_candidates = cands4, plan_floors = rs_floors s2,
              plan_rationale_codes = rs_rationales s2, plan_matched_rules = rs_matched s2,
              plan_hard_floor = rs_hard s2, plan_preferred_floor = rs_preferred s2\<rparr>))))))))"

section \<open>Adding candidates\<close>

text \<open>On (model, effort) pairs, \<open>add_candidates\<close> is the ordered de-duplication of the prelude.\<close>

lemma pairs_add_pairs:
  "map cand_pair (add_pairs source ks cands) = extend_unique (map cand_pair cands) ks"
  by (induction ks arbitrary: cands) auto

lemma pairs_add_candidates:
  "map cand_pair (add_candidates entries source cands)
     = extend_unique (map cand_pair cands) (spec_pairs entries)"
  by (simp add: add_candidates_def pairs_add_pairs)

lemma add_pairs_source:
  "\<exists>zs. add_pairs source ks cands = cands @ zs \<and> (\<forall>c \<in> set zs. cand_source c = source)"
proof (induction ks arbitrary: cands)
  case (Cons k ks)
  show ?case
    using Cons [of "if k \<in> set (map cand_pair cands) then cands
        else cands @ [\<lparr>cand_model = fst k, cand_effort = snd k, cand_source = source\<rparr>]"]
    by (auto split: if_splits)
qed simp

text \<open>A pair that the catalog can serve: a known model with a supported effort.\<close>

definition supported_pair :: "(string \<times> model_entry) list \<Rightarrow> string \<times> effort \<Rightarrow> bool" where
  "supported_pair models k =
     (case map_of models (fst k) of None \<Rightarrow> False | Some m \<Rightarrow> snd k \<in> set (me_reasoning_efforts m))"

lemma spec_pairs_supported:
  "list_all (candidate_ref_ok models) entries \<Longrightarrow> k \<in> set (spec_pairs entries) \<Longrightarrow> supported_pair models k"
  by (force simp: spec_pairs_def list_all_iff candidate_ref_ok_def supported_pair_def split: option.splits)

lemma model_efforts_supported: "e \<in> set (model_efforts models n efforts) \<Longrightarrow> supported_pair models (n, e)"
  by (cases "map_of models n") (auto simp: model_efforts_def supported_in_order_def supported_pair_def)

lemma floor_entries_supported:
  "k \<in> set (spec_pairs (floor_entries models pref lo ex)) \<Longrightarrow> supported_pair models k"
  by (auto simp: spec_pairs_def floor_entries_def dest: model_efforts_supported)

lemma fallback_entries_supported:
  "k \<in> set (spec_pairs (fallback_entries models pe pref ranks pm l)) \<Longrightarrow> supported_pair models k"
  by (auto simp: spec_pairs_def fallback_entries_def Let_def split: if_splits dest: model_efforts_supported)

section \<open>Matching is total on an accepted bundle\<close>

lemma bundle_okD:
  assumes "bundle_ok b"
  shows "policy_ok (pb_policy b)" and "catalog_ok (pb_catalog b)" and "budgets_ok (pb_budgets b)"
    and "validation_ok (pb_validation b)" and "policy_refs_ok (pb_policy b) (bundle_models b)"
    and "budget_refs_ok (pb_budgets b) (tier_table (bundle_models b))"
  using assms by (simp_all add: bundle_ok_def cross_document_ok_def)

lemma tier_rank_table:
  assumes "distinct (map (me_tier \<circ> snd) models)"
  shows "tier_rank t models = Inr k \<longleftrightarrow> tier_table models t = Some k"
proof
  assume "tier_rank t models = Inr k"
  then obtain a m where "find (\<lambda>(a, m). me_tier m = t) models = Some (a, m)" "k = me_tier_rank m"
    by (auto simp: tier_rank_def split: option.splits)
  then show "tier_table models t = Some k" using tier_table_first [OF assms] by (force dest: find_Some_set)
next
  assume table: "tier_table models t = Some k"
  then obtain a m where m: "(a, m) \<in> set models" "me_tier m = t" by (auto dest: tier_table_SomeD)
  then have "find (\<lambda>(a, m). me_tier m = t) models \<noteq> None" unfolding find_None_iff by auto
  then obtain a' m' where f: "find (\<lambda>(a, m). me_tier m = t) models = Some (a', m')" by auto
  then have "tier_table models t = Some (me_tier_rank m')"
    using tier_table_first [OF assms] by (force dest: find_Some_set)
  with f table show "tier_rank t models = Inr k" by (simp add: tier_rank_def)
qed

lemma bundle_tier_rank:
  "bundle_ok b \<Longrightarrow> tier_rank t (bundle_models b) = Inr k \<longleftrightarrow> tier_table (bundle_models b) t = Some k"
  by (rule tier_rank_table) (auto simp: catalog_ok_def dest: bundle_okD(2))

lemma tier_rank_error: "tier_rank t models = Inl e \<Longrightarrow> e = InputError"
  by (auto simp: tier_rank_def split: option.splits)

lemma validated_classification_error: "validated_classification c p = Inl e \<Longrightarrow> e = InputError"
  by (auto simp: validated_classification_def Let_def bind_res_Inl_iff)

lemma validated_classification_Inr:
  "validated_classification c p = Inr items \<longleftrightarrow>
     items = component_items (cl_components c)
     \<and> cl_task_family c \<in> set (pol_task_families p) \<and> cl_task_subclass c = None
     \<and> set component_names = set (map fst (cx_components (pol_complexity p)))
     \<and> list_all (component_in_range (cx_components (pol_complexity p))) items
     \<and> cx_total_min (pol_complexity p) \<le> components_total (cl_components c)
     \<and> components_total (cl_components c) \<le> cx_total_max (pol_complexity p)
     \<and> (case cl_supplied_total c of None \<Rightarrow> True | Some t \<Rightarrow> t = components_total (cl_components c))
     \<and> set (map fst (cl_flags c)) \<subseteq> known_flags p"
proof -
  have "set component_names = fst ` set (component_items (cl_components c))"
    by (metis map_fst_component_items set_map)
  then show ?thesis
    by (auto simp: validated_classification_def Let_def bind_res_Inr_iff check_res_def split: if_splits)
qed

text \<open>Every admissible total has its band, so the band search cannot fail on an accepted policy.\<close>

lemma complexity_band_of_total:
  assumes "policy_ok p" and "cx_total_min (pol_complexity p) \<le> t" and "t \<le> cx_total_max (pol_complexity p)"
  shows "\<exists>band. complexity_band_of p t = Inr band \<and> band \<in> set (pol_complexity_bands p)
           \<and> cb_min band \<le> t \<and> t \<le> cb_max band"
proof -
  from assms have "\<exists>b \<in> set (pol_complexity_bands p). cb_min b \<le> t \<and> t \<le> cb_max b"
    by (intro band_cursor_covers) (auto simp: policy_ok_def)
  then obtain b where "find (\<lambda>b. cb_min b \<le> t \<and> t \<le> cb_max b) (pol_complexity_bands p) = Some b"
    by (metis (mono_tags, lifting) find_None_iff not_None_eq)
  then show ?thesis by (auto simp: complexity_band_of_def dest: find_Some_set)
qed

section \<open>The rule loops keep their evidence\<close>

text \<open>The floors recorded so far bound the two running maxima from below, and the maxima are attained.\<close>

definition floor_maximum :: "nat \<Rightarrow> floor_evidence list \<Rightarrow> strength \<Rightarrow> nat \<Rightarrow> bool" where
  "floor_maximum minimum floors st peak =
     (minimum \<le> peak
      \<and> (\<forall>f \<in> set floors. fe_strength f = st \<longrightarrow> fe_min_tier f \<le> peak)
      \<and> (peak = minimum \<or> (\<exists>f \<in> set floors. fe_strength f = st \<and> fe_min_tier f = peak)))"

definition catalog_ranks :: "(string \<times> model_entry) list \<Rightarrow> nat set" where
  "catalog_ranks models = set (map (me_tier_rank \<circ> snd) models)"

lemma tier_table_rank: "tier_table models t = Some k \<Longrightarrow> k \<in> catalog_ranks models"
  by (force simp: catalog_ranks_def dest: tier_table_SomeD)

definition rule_inv :: "policy_document \<Rightarrow> (string \<times> model_entry) list \<Rightarrow> nat \<Rightarrow> rule_state \<Rightarrow> bool" where
  "rule_inv p models minimum s =
     (set (rs_rationales s) \<subseteq> set (map fst (pol_rationale_codes p)) \<and> distinct (rs_rationales s)
      \<and> list_all (candidate_ref_ok models) (rs_entries s)
      \<and> floor_maximum minimum (rs_floors s) Strength_hard (rs_hard s)
      \<and> floor_maximum minimum (rs_floors s) Strength_preferred (rs_preferred s)
      \<and> (\<forall>f \<in> set (rs_floors s). fe_min_tier f \<in> catalog_ranks models))"

lemma floor_maximum_snoc [simp]:
  "floor_maximum m fs st peak \<Longrightarrow>
   floor_maximum m (fs @ [\<lparr>fe_rule_id = i, fe_strength = st, fe_min_tier = k\<rparr>]) st (max peak k)"
  "floor_maximum m fs st peak \<Longrightarrow> st' \<noteq> st \<Longrightarrow>
   floor_maximum m (fs @ [\<lparr>fe_rule_id = i, fe_strength = st', fe_min_tier = k\<rparr>]) st peak"
  by (auto simp: floor_maximum_def max_def)

lemma initial_rules_inv:
  "set RationaleCode \<subseteq> set (map fst (pol_rationale_codes p)) \<Longrightarrow> rule_inv p models m (initial_rules m)"
  by (auto simp: rule_inv_def initial_rules_def floor_maximum_def RationaleCode_def)

lemma apply_floor_rule_inv:
  assumes b: "bundle_ok b" and rule: "rule \<in> set (pol_task_family_floors (pb_policy b))"
    and inv: "rule_inv (pb_policy b) (bundle_models b) m s"
    and step: "apply_floor_rule c components (bundle_models b) rule s = Inr s'"
  shows "rule_inv (pb_policy b) (bundle_models b) m s'"
proof (cases "matches (fr_match rule) c components")
  case False
  with step inv show ?thesis by (simp add: apply_floor_rule_def)
next
  case True
  have codes: "set (fr_rationale_codes rule) \<subseteq> set (map fst (pol_rationale_codes (pb_policy b)))"
    using bundle_okD(1) [OF b] rule by (auto simp: policy_ok_def list_all_iff rule_refs_ok_def)
  obtain rank where rank: "tier_rank (fr_min_tier rule) (bundle_models b) = Inr rank"
    using step True by (auto simp: apply_floor_rule_def bind_res_Inr_iff)
  then have "tier_table (bundle_models b) (fr_min_tier rule) = Some rank" using bundle_tier_rank [OF b] by blast
  then have "rank \<in> catalog_ranks (bundle_models b)" by (rule tier_table_rank)
  with step True rank inv codes show ?thesis
    by (cases "fr_strength rule")
      (auto simp: apply_floor_rule_def rule_inv_def)
qed

lemma apply_modifier_inv:
  assumes b: "bundle_ok b" and rule: "rule \<in> set (pol_modifiers (pb_policy b))"
    and inv: "rule_inv (pb_policy b) (bundle_models b) m s"
    and step: "apply_modifier c components (bundle_models b) rule s = Inr s'"
  shows "rule_inv (pb_policy b) (bundle_models b) m s'"
proof (cases "matches (md_match rule) c components")
  case False
  with step inv show ?thesis by (simp add: apply_modifier_def)
next
  case True
  have codes: "set (md_rationale_codes rule) \<subseteq> set (map fst (pol_rationale_codes (pb_policy b)))"
    and refs: "list_all (candidate_ref_ok (bundle_models b)) (mf_add_candidates (md_effect rule))"
    using bundle_okD(1,5) [OF b] rule
    by (auto simp: policy_ok_def policy_refs_ok_def list_all_iff rule_refs_ok_def)
  show ?thesis
  proof (cases "mf_preferred_min_tier (md_effect rule)")
    case None
    with step True inv codes refs show ?thesis
      by (auto simp: apply_modifier_def rule_inv_def Let_def)
  next
    case (Some tier)
    then obtain rank where rank: "tier_rank tier (bundle_models b) = Inr rank"
      using step True by (auto simp: apply_modifier_def bind_res_Inr_iff Let_def)
    then have "tier_table (bundle_models b) tier = Some rank" using bundle_tier_rank [OF b] by blast
    then have "rank \<in> catalog_ranks (bundle_models b)" by (rule tier_table_rank)
    with Some step True rank inv codes refs show ?thesis
      by (auto simp: apply_modifier_def rule_inv_def Let_def)
  qed
qed

lemma rule_loops_inv:
  assumes b: "bundle_ok b"
    and s1: "fold_res (apply_floor_rule c components (bundle_models b))
        (pol_task_family_floors (pb_policy b)) (initial_rules m) = Inr s1"
    and s2: "fold_res (apply_modifier c components (bundle_models b)) (pol_modifiers (pb_policy b)) s1 = Inr s2"
  shows "rule_inv (pb_policy b) (bundle_models b) m s2"
proof -
  have "rule_inv (pb_policy b) (bundle_models b) m s1"
  proof (rule fold_res_invariant [OF s1])
    show "rule_inv (pb_policy b) (bundle_models b) m (initial_rules m)"
      using bundle_okD(5) [OF b] by (intro initial_rules_inv) (simp add: policy_refs_ok_def)
  qed (rule apply_floor_rule_inv [OF b])
  then show ?thesis
    by (rule fold_res_invariant [OF s2]) (rule apply_modifier_inv [OF b])
qed

section \<open>The plan, decomposed\<close>

abbreviation minimum_rank :: "(string \<times> model_entry) list \<Rightarrow> nat" where
  "minimum_rank models \<equiv> Min (set (map (me_tier_rank \<circ> snd) models))"

abbreviation effort_preference :: "policy_bundle \<Rightarrow> effort list" where
  "effort_preference b \<equiv> sel_floor_candidate_effort_preference (pol_selection (pb_policy b))"

text \<open>A successful plan: the intermediate values of the code, and the plan in terms of them.\<close>

lemma build_candidates_Inr:
  assumes "build_candidates c b l = Inr plan"
  obtains band ranks s1 s2 floors where
    "validated_classification c (pb_policy b) = Inr (component_items (cl_components c))"
    "complexity_band_of (pb_policy b) (components_total (cl_components c)) = Inr band"
    "map_res (\<lambda>s. bind_res (get_res (bundle_models b) (cs_model s)) (\<lambda>m. Inr (me_tier_rank m)))
       (cb_candidates band) = Inr ranks"
    "fold_res (apply_floor_rule c (component_items (cl_components c)) (bundle_models b))
       (pol_task_family_floors (pb_policy b)) (initial_rules (minimum_rank (bundle_models b))) = Inr s1"
    "fold_res (apply_modifier c (component_items (cl_components c)) (bundle_models b))
       (pol_modifiers (pb_policy b)) s1 = Inr s2"
    "floors = (if floor_applies (rs_floors s2) l (minimum_rank (bundle_models b))
       then floor_entries (bundle_models b) (effort_preference b)
         (max (max (rs_hard s2) (rs_preferred s2))
            (case lim_model_tier_floor l of None \<Rightarrow> minimum_rank (bundle_models b) | Some lo \<Rightarrow> lo))
         (set (map cand_model (add_candidates (rs_entries s2) Source_modifier
            (add_candidates (cb_candidates band) Source_prior []))))
       else [])"
    "plan_candidates plan = add_candidates
       (fallback_entries (bundle_models b) (stable_unique (concat (map cs_efforts (cb_candidates band))))
          (effort_preference b) ranks (set (map cs_model (cb_candidates band))) l) Source_fallback
       (add_candidates floors Source_floor
         (add_candidates (rs_entries s2) Source_modifier
           (add_candidates (cb_candidates band) Source_prior [])))"
    "plan_floors plan = rs_floors s2" "plan_rationale_codes plan = rs_rationales s2"
    "plan_matched_rules plan = rs_matched s2" "plan_hard_floor plan = rs_hard s2"
    "plan_preferred_floor plan = rs_preferred s2"
proof -
  have items: "validated_classification c (pb_policy b) = Inr components \<Longrightarrow>
      components = component_items (cl_components c)" for components
    by (simp add: validated_classification_Inr)
  have nil: "add_candidates [] source cands = cands" for source cands
    by (simp add: add_candidates_def spec_pairs_def)
  show ?thesis
    using assms items unfolding build_candidates_def Let_def bind_res_Inr_iff
    by (elim exE conjE, clarsimp simp: components_total_def split: if_splits)
      (rule that, auto simp: nil components_total_def)+
qed

section \<open>What every plan satisfies\<close>

lemma plan_pairs_distinct:
  "build_candidates c b l = Inr plan \<Longrightarrow> distinct (map cand_pair (plan_candidates plan))"
  by (erule build_candidates_Inr) (simp add: pairs_add_candidates)

lemma complexity_band_of_Inr:
  "complexity_band_of p t = Inr band \<Longrightarrow>
   band \<in> set (pol_complexity_bands p) \<and> cb_min band \<le> t \<and> t \<le> cb_max band"
  by (auto simp: complexity_band_of_def split: option.splits dest: find_Some_set)

lemma plan_pairs_supported:
  assumes b: "bundle_ok b" and plan: "build_candidates c b l = Inr plan"
    and cand: "cand \<in> set (plan_candidates plan)"
  shows "supported_pair (bundle_models b) (cand_pair cand)"
  using plan
proof (rule build_candidates_Inr)
  fix band ranks s1 s2 floors
  assume band: "complexity_band_of (pb_policy b) (components_total (cl_components c)) = Inr band"
    and s1: "fold_res (apply_floor_rule c (component_items (cl_components c)) (bundle_models b))
       (pol_task_family_floors (pb_policy b)) (initial_rules (minimum_rank (bundle_models b))) = Inr s1"
    and s2: "fold_res (apply_modifier c (component_items (cl_components c)) (bundle_models b))
       (pol_modifiers (pb_policy b)) s1 = Inr s2"
    and floors: "floors = (if floor_applies (rs_floors s2) l (minimum_rank (bundle_models b))
       then floor_entries (bundle_models b) (effort_preference b)
         (max (max (rs_hard s2) (rs_preferred s2))
            (case lim_model_tier_floor l of None \<Rightarrow> minimum_rank (bundle_models b) | Some lo \<Rightarrow> lo))
         (set (map cand_model (add_candidates (rs_entries s2) Source_modifier
            (add_candidates (cb_candidates band) Source_prior []))))
       else [])"
    and cands: "plan_candidates plan = add_candidates
       (fallback_entries (bundle_models b) (stable_unique (concat (map cs_efforts (cb_candidates band))))
          (effort_preference b) ranks (set (map cs_model (cb_candidates band))) l) Source_fallback
       (add_candidates floors Source_floor
         (add_candidates (rs_entries s2) Source_modifier
           (add_candidates (cb_candidates band) Source_prior [])))"
  have prior: "list_all (candidate_ref_ok (bundle_models b)) (cb_candidates band)"
    using bundle_okD(5) [OF b] complexity_band_of_Inr [OF band]
    by (auto simp: policy_refs_ok_def list_all_iff)
  have modifiers: "list_all (candidate_ref_ok (bundle_models b)) (rs_entries s2)"
    using rule_loops_inv [OF b s1 s2] by (simp add: rule_inv_def)
  have floors': "supported_pair (bundle_models b) k" if "k \<in> set (spec_pairs floors)" for k
    using that floors floor_entries_supported by (auto simp: spec_pairs_def [of "[]"] split: if_splits)
  have "cand_pair cand \<in> set (map cand_pair (plan_candidates plan))" using cand by simp
  then show ?thesis
    unfolding cands pairs_add_candidates
    using spec_pairs_supported [OF prior] spec_pairs_supported [OF modifiers] floors'
      fallback_entries_supported
    by auto
qed

text \<open>
  Completeness: no enabled model that the tier bounds admit is left out of the plan. A prior
  model is there with its configured efforts; every other one is reached by the fallback, for
  which an accepted policy names an effort that the model supports.
\<close>

lemma fallback_covers:
  assumes refs: "policy_refs_ok p models" and d: "distinct (map fst models)"
    and m: "(a, m) \<in> set models" "configured_enabled m" "a \<notin> prior" "within_limits (me_tier_rank m) l"
  shows "\<exists>e. (a, e) \<in> set (spec_pairs (fallback_entries models pe
      (sel_floor_candidate_effort_preference (pol_selection p)) ranks prior l))"
proof -
  let ?pref = "sel_floor_candidate_effort_preference (pol_selection p)"
  let ?efforts = "if model_efforts models a pe = [] then model_efforts models a ?pref else model_efforts models a pe"
  have lookup: "map_of models a = Some m" using d m(1) by simp
  have "model_efforts models a ?pref \<noteq> []"
    using refs m(1,2) lookup
    by (auto simp: policy_refs_ok_def list_all_iff list_ex_iff model_efforts_def supported_in_order_def
        filter_empty_conv)
  then obtain e where e: "e \<in> set ?efforts" by (metis last_in_set)
  have "a \<in> set (enabled_models models)" using m by (force simp: enabled_models_def)
  then have "\<lparr>cs_model = a, cs_efforts = ?efforts\<rparr>
      \<in> set (fallback_entries models pe ?pref ranks prior l)"
    using m(3,4) lookup by (auto simp: fallback_entries_def Let_def model_rank_def)
  with e show ?thesis by (force simp: spec_pairs_def)
qed

lemma plan_complete:
  assumes b: "bundle_ok b" and plan: "build_candidates c b l = Inr plan"
    and m: "(a, m) \<in> set (bundle_models b)" "configured_enabled m" "within_limits (me_tier_rank m) l"
  shows "a \<in> set (map cand_model (plan_candidates plan))"
  using plan
proof (rule build_candidates_Inr)
  fix band ranks s1 s2 floors
  assume band: "complexity_band_of (pb_policy b) (components_total (cl_components c)) = Inr band"
    and cands: "plan_candidates plan = add_candidates
       (fallback_entries (bundle_models b) (stable_unique (concat (map cs_efforts (cb_candidates band))))
          (effort_preference b) ranks (set (map cs_model (cb_candidates band))) l) Source_fallback
       (add_candidates floors Source_floor
         (add_candidates (rs_entries s2) Source_modifier
           (add_candidates (cb_candidates band) Source_prior [])))"
  have "\<exists>e. (a, e) \<in> set (map cand_pair (plan_candidates plan))"
  proof (cases "a \<in> set (map cs_model (cb_candidates band))")
    case True
    then obtain spec where spec: "spec \<in> set (cb_candidates band)" "cs_model spec = a" by auto
    then have "cs_efforts spec \<noteq> []"
      using bundle_okD(1) [OF b] complexity_band_of_Inr [OF band]
      by (auto simp: policy_ok_def list_all_iff complexity_band_ok_def candidate_spec_ok_def)
    then obtain e where "e \<in> set (cs_efforts spec)" by (metis last_in_set)
    with spec have "(a, e) \<in> set (spec_pairs (cb_candidates band))" by (auto simp: spec_pairs_def)
    then show ?thesis unfolding cands pairs_add_candidates by auto
  next
    case False
    have "distinct (map fst (bundle_models b))" using bundle_okD(2) [OF b] by (simp add: catalog_ok_def)
    from fallback_covers [OF bundle_okD(5) [OF b] this m(1,2) False m(3)]
    show ?thesis unfolding cands pairs_add_candidates by auto
  qed
  then show ?thesis by auto
qed

text \<open>
  Once a floor matched, every enabled model at the applicable floor or above is a candidate,
  also one that the tier ceiling will remove later: the waiver of a preferred floor needs its
  evidence.
\<close>

definition applicable_floor :: "policy_bundle \<Rightarrow> limits \<Rightarrow> candidate_plan \<Rightarrow> nat" where
  "applicable_floor b l plan = max (max (plan_hard_floor plan) (plan_preferred_floor plan))
     (case lim_model_tier_floor l of None \<Rightarrow> minimum_rank (bundle_models b) | Some lo \<Rightarrow> lo)"

lemma floor_entries_cover:
  assumes refs: "policy_refs_ok p models" and d: "distinct (map fst models)"
    and m: "(a, m) \<in> set models" "configured_enabled m" "a \<notin> existing" "lo \<le> me_tier_rank m"
  shows "\<exists>e. (a, e) \<in> set (spec_pairs (floor_entries models
      (sel_floor_candidate_effort_preference (pol_selection p)) lo existing))"
proof -
  let ?efforts = "model_efforts models a (sel_floor_candidate_effort_preference (pol_selection p))"
  have lookup: "map_of models a = Some m" using d m(1) by simp
  have "?efforts \<noteq> []"
    using refs m(1,2) lookup
    by (auto simp: policy_refs_ok_def list_all_iff list_ex_iff model_efforts_def supported_in_order_def
        filter_empty_conv)
  then obtain e where e: "e \<in> set ?efforts" by (metis last_in_set)
  have "a \<in> set (enabled_models models)" using m by (force simp: enabled_models_def)
  then have "\<lparr>cs_model = a, cs_efforts = ?efforts\<rparr> \<in> set (floor_entries models
      (sel_floor_candidate_effort_preference (pol_selection p)) lo existing)"
    using m(3,4) lookup by (auto simp: floor_entries_def model_rank_def)
  with e show ?thesis by (force simp: spec_pairs_def)
qed

lemma plan_floor_complete:
  assumes b: "bundle_ok b" and plan: "build_candidates c b l = Inr plan" and floors: "plan_floors plan \<noteq> []"
    and m: "(a, m) \<in> set (bundle_models b)" "configured_enabled m" "applicable_floor b l plan \<le> me_tier_rank m"
  shows "a \<in> set (map cand_model (plan_candidates plan))"
  using plan
proof (rule build_candidates_Inr)
  fix band ranks s1 s2 floors'
  let ?cands2 = "add_candidates (rs_entries s2) Source_modifier (add_candidates (cb_candidates band) Source_prior [])"
  assume fe: "floors' = (if floor_applies (rs_floors s2) l (minimum_rank (bundle_models b))
       then floor_entries (bundle_models b) (effort_preference b)
         (max (max (rs_hard s2) (rs_preferred s2))
            (case lim_model_tier_floor l of None \<Rightarrow> minimum_rank (bundle_models b) | Some lo \<Rightarrow> lo))
         (set (map cand_model ?cands2)) else [])"
    and cands: "plan_candidates plan = add_candidates
       (fallback_entries (bundle_models b) (stable_unique (concat (map cs_efforts (cb_candidates band))))
          (effort_preference b) ranks (set (map cs_model (cb_candidates band))) l) Source_fallback
       (add_candidates floors' Source_floor ?cands2)"
    and fields: "plan_floors plan = rs_floors s2" "plan_hard_floor plan = rs_hard s2"
      "plan_preferred_floor plan = rs_preferred s2"
  have sub: "set (map cand_pair ?cands2) \<union> set (spec_pairs floors')
      \<subseteq> set (map cand_pair (plan_candidates plan))"
    unfolding cands pairs_add_candidates by auto
  have "\<exists>e. (a, e) \<in> set (map cand_pair (plan_candidates plan))"
  proof (cases "a \<in> set (map cand_model ?cands2)")
    case True
    then have "\<exists>e. (a, e) \<in> set (map cand_pair ?cands2)" by force
    with sub show ?thesis by blast
  next
    case False
    have "distinct (map fst (bundle_models b))" using bundle_okD(2) [OF b] by (simp add: catalog_ok_def)
    from floor_entries_cover [OF bundle_okD(5) [OF b] this m(1,2) False] m(3)
    have "\<exists>e. (a, e) \<in> set (spec_pairs floors')"
      using floors fields by (simp add: fe floor_applies_def applicable_floor_def)
    with sub show ?thesis by blast
  qed
  then show ?thesis by force
qed

section \<open>Floors, rationale and order of the plan\<close>

lemma floor_rules_matched:
  "fold_res (apply_floor_rule c items models) rules s = Inr s' \<Longrightarrow>
   rs_matched s' = rs_matched s @ map fr_id (filter (\<lambda>r. matches (fr_match r) c items) rules)"
  by (induction rules arbitrary: s) (auto simp: apply_floor_rule_def bind_res_Inr_iff split: if_splits)

lemma apply_modifier_matched:
  "apply_modifier c items models rule s = Inr s' \<Longrightarrow>
   rs_matched s' = rs_matched s @ (if matches (md_match rule) c items then [md_id rule] else [])"
  by (auto simp: apply_modifier_def bind_res_Inr_iff Let_def split: if_splits option.splits)

lemma modifiers_matched:
  "fold_res (apply_modifier c items models) rules s = Inr s' \<Longrightarrow>
   rs_matched s' = rs_matched s @ map md_id (filter (\<lambda>r. matches (md_match r) c items) rules)"
  by (induction rules arbitrary: s) (auto simp: bind_res_Inr_iff dest!: apply_modifier_matched)

lemma plan_matched_rules_eq:
  assumes "build_candidates c b l = Inr plan"
  shows "plan_matched_rules plan
     = map fr_id (filter (\<lambda>r. matches (fr_match r) c (component_items (cl_components c)))
         (pol_task_family_floors (pb_policy b)))
       @ map md_id (filter (\<lambda>r. matches (md_match r) c (component_items (cl_components c)))
         (pol_modifiers (pb_policy b)))"
  using assms
  by (rule build_candidates_Inr)
    (auto simp: initial_rules_def dest!: floor_rules_matched modifiers_matched)

text \<open>A matching hard floor binds the plan; so does a matching preferred one.\<close>

definition floor_bound :: "floor_rule \<Rightarrow> nat \<Rightarrow> rule_state \<Rightarrow> bool" where
  "floor_bound rule rank s = (rank \<le> (if fr_strength rule = Strength_hard then rs_hard s else rs_preferred s)
     \<and> \<lparr>fe_rule_id = fr_id rule, fe_strength = fr_strength rule, fe_min_tier = rank\<rparr> \<in> set (rs_floors s))"

lemma floor_bound_establish:
  assumes "apply_floor_rule c items models rule s = Inr s'" and "matches (fr_match rule) c items"
    and "tier_rank (fr_min_tier rule) models = Inr rank"
  shows "floor_bound rule rank s'"
  using assms by (auto simp: apply_floor_rule_def floor_bound_def)

lemma floor_bound_floor_step:
  "floor_bound rule rank s \<Longrightarrow> apply_floor_rule c items models r s = Inr s' \<Longrightarrow> floor_bound rule rank s'"
  by (auto simp: apply_floor_rule_def floor_bound_def bind_res_Inr_iff le_max_iff_disj split: if_splits)

lemma floor_bound_modifier_step:
  "floor_bound rule rank s \<Longrightarrow> apply_modifier c items models r s = Inr s' \<Longrightarrow> floor_bound rule rank s'"
  by (auto simp: apply_modifier_def floor_bound_def bind_res_Inr_iff le_max_iff_disj Let_def
      split: if_splits option.splits)

lemma plan_floor_binds:
  assumes b: "bundle_ok b" and plan: "build_candidates c b l = Inr plan"
    and rule: "rule \<in> set (pol_task_family_floors (pb_policy b))"
    and match: "matches (fr_match rule) c (component_items (cl_components c))"
    and tier: "tier_table (bundle_models b) (fr_min_tier rule) = Some rank"
  shows "rank \<le> (if fr_strength rule = Strength_hard then plan_hard_floor plan else plan_preferred_floor plan)"
  using plan
proof (rule build_candidates_Inr)
  fix s1 s2
  assume s1: "fold_res (apply_floor_rule c (component_items (cl_components c)) (bundle_models b))
       (pol_task_family_floors (pb_policy b)) (initial_rules (minimum_rank (bundle_models b))) = Inr s1"
    and s2: "fold_res (apply_modifier c (component_items (cl_components c)) (bundle_models b))
       (pol_modifiers (pb_policy b)) s1 = Inr s2"
    and floors: "plan_hard_floor plan = rs_hard s2" "plan_preferred_floor plan = rs_preferred s2"
  have rank: "tier_rank (fr_min_tier rule) (bundle_models b) = Inr rank"
    using tier bundle_tier_rank [OF b] by blast
  have "floor_bound rule rank s1"
    by (rule fold_res_establishes [OF s1 rule])
      (blast intro: floor_bound_establish [OF _ match rank] floor_bound_floor_step)+
  then have "floor_bound rule rank s2"
    by (rule fold_res_invariant [OF s2]) (blast intro: floor_bound_modifier_step)
  then show ?thesis using floors by (auto simp: floor_bound_def)
qed

lemma plan_rule_inv:
  assumes b: "bundle_ok b" and plan: "build_candidates c b l = Inr plan"
  shows "set (plan_rationale_codes plan) \<subseteq> set (map fst (pol_rationale_codes (pb_policy b)))"
    and "distinct (plan_rationale_codes plan)"
    and "floor_maximum (minimum_rank (bundle_models b)) (plan_floors plan) Strength_hard (plan_hard_floor plan)"
    and "floor_maximum (minimum_rank (bundle_models b)) (plan_floors plan) Strength_preferred
          (plan_preferred_floor plan)"
    and "\<forall>f \<in> set (plan_floors plan). fe_min_tier f \<in> catalog_ranks (bundle_models b)"
  using plan by (rule build_candidates_Inr, use rule_loops_inv [OF b] in \<open>force simp: rule_inv_def\<close>)+

text \<open>The four sources come in a fixed order, the baseline prior first.\<close>

primrec source_index :: "candidate_source \<Rightarrow> nat" where
  "source_index Source_prior = 0"
| "source_index Source_modifier = 1"
| "source_index Source_floor = 2"
| "source_index Source_fallback = 3"

lemma add_candidates_sorted:
  assumes "sorted (map (source_index \<circ> cand_source) cands)"
    and "\<forall>c \<in> set cands. source_index (cand_source c) \<le> source_index source"
  shows "sorted (map (source_index \<circ> cand_source) (add_candidates entries source cands))"
    and "\<forall>c \<in> set (add_candidates entries source cands). source_index (cand_source c) \<le> source_index source"
proof -
  obtain zs where zs: "add_candidates entries source cands = cands @ zs" "\<forall>c \<in> set zs. cand_source c = source"
    using add_pairs_source [of source "spec_pairs entries" cands] by (auto simp: add_candidates_def)
  have "sorted (map (source_index \<circ> cand_source) zs)"
    using zs(2) by (induction zs) auto
  then show "sorted (map (source_index \<circ> cand_source) (add_candidates entries source cands))"
    using assms zs by (auto simp: sorted_append)
  show "\<forall>c \<in> set (add_candidates entries source cands). source_index (cand_source c) \<le> source_index source"
    using assms zs by auto
qed

lemma source_bound_weaken:
  "\<forall>c \<in> set cands. source_index (cand_source c) \<le> i \<Longrightarrow> i \<le> j \<Longrightarrow>
   \<forall>c \<in> set cands. source_index (cand_source c) \<le> j"
  by auto

lemma plan_sources_sorted:
  assumes "build_candidates c b l = Inr plan"
  shows "sorted (map (source_index \<circ> cand_source) (plan_candidates plan))"
  using assms
proof (rule build_candidates_Inr)
  fix band ranks s1 s2 floors
  assume cands: "plan_candidates plan = add_candidates
       (fallback_entries (bundle_models b) (stable_unique (concat (map cs_efforts (cb_candidates band))))
          (effort_preference b) ranks (set (map cs_model (cb_candidates band))) l) Source_fallback
       (add_candidates floors Source_floor
         (add_candidates (rs_entries s2) Source_modifier
           (add_candidates (cb_candidates band) Source_prior [])))"
  show ?thesis
    unfolding cands by (intro add_candidates_sorted source_bound_weaken [OF add_candidates_sorted(2)]) auto
qed

section \<open>When planning succeeds\<close>

lemma rule_loops_total:
  assumes b: "bundle_ok b"
  shows "\<exists>s1. fold_res (apply_floor_rule c items (bundle_models b)) (pol_task_family_floors (pb_policy b)) s0 = Inr s1"
    and "\<exists>s2. fold_res (apply_modifier c items (bundle_models b)) (pol_modifiers (pb_policy b)) s1 = Inr s2"
proof -
  have known: "\<exists>k. tier_rank t (bundle_models b) = Inr k" if "tier_table (bundle_models b) t \<noteq> None" for t
    using that bundle_tier_rank [OF b] by auto
  have floor: "tier_table (bundle_models b) (fr_min_tier r) \<noteq> None"
    if "r \<in> set (pol_task_family_floors (pb_policy b))" for r
    using bundle_okD(5) [OF b] that by (auto simp: policy_refs_ok_def list_all_iff)
  have modifier: "tier_table (bundle_models b) t \<noteq> None"
    if "r \<in> set (pol_modifiers (pb_policy b))" "mf_preferred_min_tier (md_effect r) = Some t" for r t
    using bundle_okD(5) [OF b] that by (fastforce simp: policy_refs_ok_def list_all_iff)
  show "\<exists>s1. fold_res (apply_floor_rule c items (bundle_models b)) (pol_task_family_floors (pb_policy b)) s0 = Inr s1"
    by (rule fold_res_total) (use known [OF floor] in \<open>fastforce simp: apply_floor_rule_def\<close>)
  show "\<exists>s2. fold_res (apply_modifier c items (bundle_models b)) (pol_modifiers (pb_policy b)) s1 = Inr s2"
    by (rule fold_res_total)
      (use known [OF modifier] in \<open>fastforce simp: apply_modifier_def Let_def split: option.splits\<close>)
qed

text \<open>
  On an accepted bundle the only failure of planning is an \<open>InputError\<close>, and it is raised exactly
  when the classification leaves the vocabulary or the ranges of the policy.
\<close>

lemma build_candidates_total:
  assumes b: "bundle_ok b"
  shows "(\<exists>plan. build_candidates c b l = Inr plan)
     \<longleftrightarrow> validated_classification c (pb_policy b) = Inr (component_items (cl_components c))"
    and "build_candidates c b l = Inl e \<Longrightarrow> e = InputError"
proof -
  let ?items = "component_items (cl_components c)" and ?models = "bundle_models b"
  have ok: "\<exists>plan. build_candidates c b l = Inr plan"
    if valid: "validated_classification c (pb_policy b) = Inr ?items"
  proof -
    have range: "cx_total_min (pol_complexity (pb_policy b)) \<le> components_total (cl_components c)"
      "components_total (cl_components c) \<le> cx_total_max (pol_complexity (pb_policy b))"
      using valid by (simp_all add: validated_classification_Inr)
    from complexity_band_of_total [OF bundle_okD(1) [OF b] range] obtain band where
      band: "complexity_band_of (pb_policy b) (components_total (cl_components c)) = Inr band"
      "band \<in> set (pol_complexity_bands (pb_policy b))" by blast
    have refs: "list_all (candidate_ref_ok ?models) (cb_candidates band)" and some: "cb_candidates band \<noteq> []"
      using bundle_okD(1,5) [OF b] band(2)
      by (auto simp: policy_refs_ok_def policy_ok_def complexity_band_ok_def list_all_iff)
    have "\<exists>ranks. map_res (\<lambda>s. bind_res (get_res ?models (cs_model s)) (\<lambda>m. Inr (me_tier_rank m)))
        (cb_candidates band) = Inr ranks"
      by (rule map_res_Inr_all)
        (use refs in \<open>fastforce simp: list_all_iff candidate_ref_ok_def get_res_def split: option.splits\<close>)
    then obtain ranks where ranks: "map_res (\<lambda>s. bind_res (get_res ?models (cs_model s)) (\<lambda>m. Inr (me_tier_rank m)))
        (cb_candidates band) = Inr ranks" by blast
    with map_res_Inr_length [OF ranks] some have nonempty: "ranks \<noteq> []" by auto
    obtain s1 s2 where loops:
      "fold_res (apply_floor_rule c ?items ?models) (pol_task_family_floors (pb_policy b))
         (initial_rules (minimum_rank ?models)) = Inr s1"
      "fold_res (apply_modifier c ?items ?models) (pol_modifiers (pb_policy b)) s1 = Inr s2"
      using rule_loops_total [OF b] by metis
    have "?models \<noteq> []" using bundle_okD(2) [OF b] by (simp add: catalog_ok_def)
    then show ?thesis
      using valid band(1) ranks nonempty loops
      by (simp add: build_candidates_def Let_def flip: components_total_def)
  qed
  then show "(\<exists>plan. build_candidates c b l = Inr plan)
     \<longleftrightarrow> validated_classification c (pb_policy b) = Inr ?items"
    by (auto elim: build_candidates_Inr)
  assume err: "build_candidates c b l = Inl e"
  with ok have "\<not> validated_classification c (pb_policy b) = Inr ?items" by auto
  then obtain e' where "validated_classification c (pb_policy b) = Inl e'"
    by (cases "validated_classification c (pb_policy b)") (auto simp: validated_classification_Inr)
  with err show "e = InputError"
    by (auto simp: build_candidates_def Let_def dest: validated_classification_error)
qed

end
