(* ===== verification/ValidationPolicy.thy ===== *)
theory ValidationPolicy
  imports Modifiers
begin

text \<open>
  \<^verbatim>\<open>policy/validation.py\<close>: which validation profiles, checks, evaluators and validators a
  request needs, and which of them block execution.

  The local lists that the nested \<^verbatim>\<open>visit\<close> appends to are the record \<open>visit_state\<close>. The
  recursion of \<^verbatim>\<open>visit\<close> has a depth bound of four calls: at the fifth nested call one of
  the four profiles is open twice, the source would recurse for ever, and the model returns
  \<open>RecursionError\<close>. On an accepted bundle every reference goes to a strictly lower level, so
  that the bound is never met (\<open>determine_validation_total\<close>).
\<close>

section \<open>The model\<close>

record visit_state =
  vs_profiles :: "validation_level list"
  vs_checks :: "string list"
  vs_evaluators :: "string list"
  vs_validators :: "string list"
  vs_blockers :: "string list"

definition empty_visit :: visit_state where
  "empty_visit = \<lparr>vs_profiles = [], vs_checks = [], vs_evaluators = [], vs_validators = [], vs_blockers = []\<rparr>"

definition is_mock :: "environment \<Rightarrow> validation_level \<Rightarrow> bool" where
  "is_mock env n = (env_synthetic env \<and> map_of (env_validation env) n = Some Configured_mock)"

text \<open>What \<^verbatim>\<open>visit\<close> appends for a profile once the profiles it refers to are recorded.\<close>

definition record_profile :: "validation_document \<Rightarrow> environment \<Rightarrow> validation_level \<Rightarrow> profile
    \<Rightarrow> visit_state \<Rightarrow> visit_state res" where
  "record_profile v env n profile s =
     (let s1 = s\<lparr>vs_profiles := vs_profiles s @ [n]\<rparr> in
      case profile of
        V0Profile checks \<Rightarrow> Inr (s1\<lparr>vs_checks := vs_checks s1 @ checks\<rparr>)
      | SemanticProfile kind base ref \<Rightarrow>
          bind_res (get_res (val_evaluators v) ref) (\<lambda>binding.
            Inr (s1\<lparr>vs_evaluators := vs_evaluators s1 @ [ref],
                   vs_blockers := vs_blockers s1
                     @ (if \<not> is_mock env n \<and> \<not> ev_enabled binding then [''evaluator_unconfigured''] else [])\<rparr>))
      | DomainProfile base validator required \<Rightarrow>
          Inr (case validator of
                 Some ref \<Rightarrow> s1\<lparr>vs_validators := vs_validators s1 @ [ref]\<rparr>
               | None \<Rightarrow> s1\<lparr>vs_blockers := vs_blockers s1
                     @ (if \<not> is_mock env n then [''domain_validator_unconfigured''] else [])\<rparr>))"

primrec visit :: "nat \<Rightarrow> validation_document \<Rightarrow> environment \<Rightarrow> validation_level \<Rightarrow> visit_state
    \<Rightarrow> visit_state res" where
  "visit 0 v env n s = Inl RecursionError"
| "visit (Suc depth) v env n s =
     (if n \<in> set (vs_profiles s) then Inr s
      else bind_res (get_res (val_profiles v) n) (\<lambda>profile.
        bind_res (fold_res (visit depth v env) (profile_refs profile) s) (record_profile v env n profile)))"

definition visit_depth :: nat where
  "visit_depth = 4"

definition requested_levels :: "request \<Rightarrow> environment \<Rightarrow> validation_document \<Rightarrow> consequence_default
    \<Rightarrow> validation_level list" where
  "requested_levels r env v cd =
     [val_default_profile v, cd_profile cd]
     @ (case rq_requested_validation r of None \<Rightarrow> [] | Some l \<Rightarrow> [l])
     @ (case env_requested_validation env of None \<Rightarrow> [] | Some l \<Rightarrow> [l])"

definition gate_blockers :: "request \<Rightarrow> consequence_default \<Rightarrow> string list" where
  "gate_blockers r cd =
     (if cd_approval_gate cd \<and> \<not> rq_approval_evidence r then [''approval_missing''] else [])
     @ (if ''domain_clearance_required'' \<in> set (cd_execution_restrictions cd)
           \<and> \<not> rq_domain_clearance_evidence r then [''domain_clearance_missing''] else [])"

definition determine_validation :: "request \<Rightarrow> environment \<Rightarrow> policy_bundle \<Rightarrow> validation_requirements res" where
  "determine_validation r env b =
     (let v = pb_validation b in
      bind_res (get_res (val_consequence_defaults v) (rq_consequence r)) (\<lambda>cd.
      let requested = requested_levels r env v cd in
      bind_res (fold_res (visit visit_depth v env) (stable_unique requested) empty_visit) (\<lambda>s.
      let blockers = vs_blockers s @ gate_blockers r cd in
      Inr \<lparr>vr_level = Max (set requested),
           vr_profiles = vs_profiles s,
           vr_checks = stable_unique (vs_checks s),
           vr_evaluator_refs = stable_unique (vs_evaluators s),
           vr_validator_refs = stable_unique (vs_validators s),
           vr_blockers = stable_unique blockers,
           vr_evaluator_required = (vs_evaluators s \<noteq> []),
           vr_approval_required = cd_approval_gate cd,
           vr_evidence = cd_evidence cd,
           vr_execution_restrictions = cd_execution_restrictions cd\<rparr>)))"

section \<open>The recorded evidence is a function of the profiles\<close>

definition profile_checks :: "validation_document \<Rightarrow> validation_level \<Rightarrow> string list" where
  "profile_checks v n = (case map_of (val_profiles v) n of Some (V0Profile cs) \<Rightarrow> cs | _ \<Rightarrow> [])"

definition profile_evaluators :: "validation_document \<Rightarrow> validation_level \<Rightarrow> string list" where
  "profile_evaluators v n = (case map_of (val_profiles v) n of Some (SemanticProfile k b ref) \<Rightarrow> [ref] | _ \<Rightarrow> [])"

definition profile_validators :: "validation_document \<Rightarrow> validation_level \<Rightarrow> string list" where
  "profile_validators v n =
     (case map_of (val_profiles v) n of Some (DomainProfile b (Some ref) q) \<Rightarrow> [ref] | _ \<Rightarrow> [])"

definition profile_blockers :: "validation_document \<Rightarrow> environment \<Rightarrow> validation_level \<Rightarrow> string list" where
  "profile_blockers v env n = (if is_mock env n then []
     else case map_of (val_profiles v) n of
       Some (SemanticProfile k b ref) \<Rightarrow> (case map_of (val_evaluators v) ref of
           Some e \<Rightarrow> if ev_enabled e then [] else [''evaluator_unconfigured''] | None \<Rightarrow> [])
     | Some (DomainProfile b None q) \<Rightarrow> [''domain_validator_unconfigured'']
     | _ \<Rightarrow> [])"

definition derived_visit :: "validation_document \<Rightarrow> environment \<Rightarrow> validation_level list \<Rightarrow> visit_state" where
  "derived_visit v env ns = \<lparr>vs_profiles = ns, vs_checks = concat (map (profile_checks v) ns),
     vs_evaluators = concat (map (profile_evaluators v) ns),
     vs_validators = concat (map (profile_validators v) ns),
     vs_blockers = concat (map (profile_blockers v env) ns)\<rparr>"

text \<open>Profiles recorded so far: no repetition, and closed under reference.\<close>

definition visit_inv :: "validation_document \<Rightarrow> environment \<Rightarrow> visit_state \<Rightarrow> bool" where
  "visit_inv v env s = (s = derived_visit v env (vs_profiles s) \<and> distinct (vs_profiles s)
     \<and> (\<forall>n \<in> set (vs_profiles s). set (profile_edges v n) \<subseteq> set (vs_profiles s)))"

lemma empty_visit_inv: "visit_inv v env empty_visit"
  by (simp add: visit_inv_def empty_visit_def derived_visit_def)

lemma record_profile_inv:
  assumes "visit_inv v env s" and "map_of (val_profiles v) n = Some profile" and "n \<notin> set (vs_profiles s)"
    and "set (profile_refs profile) \<subseteq> set (vs_profiles s)"
    and "record_profile v env n profile s = Inr s'"
  shows "visit_inv v env s' \<and> vs_profiles s' = vs_profiles s @ [n]"
proof -
  have "s = derived_visit v env (vs_profiles s)" using assms(1) by (simp add: visit_inv_def)
  then obtain ns where s: "s = derived_visit v env ns" by blast
  have "s' = derived_visit v env (ns @ [n])"
    using assms(2,5) s
    by (cases profile)
      (auto simp: record_profile_def derived_visit_def Let_def bind_res_Inr_iff profile_checks_def
        profile_evaluators_def profile_validators_def profile_blockers_def split: option.splits)
  with s have "vs_profiles s' = vs_profiles s @ [n]" "s' = derived_visit v env (vs_profiles s')"
    by (auto simp: derived_visit_def)
  then show ?thesis
    using assms by (auto simp: visit_inv_def profile_edges_def)
qed

lemma validation_ok_lookup:
  assumes "validation_ok v"
  shows "\<exists>profile. map_of (val_profiles v) n = Some profile"
proof -
  have "n \<in> {V0, V1, V2, V3}" by (cases n) auto
  moreover have "fst ` set (val_profiles v) = {V0, V1, V2, V3}" using assms by (simp add: validation_ok_def)
  ultimately show ?thesis using map_of_in_fst by metis
qed

lemma validation_ok_refs:
  assumes "validation_ok v" and "map_of (val_profiles v) n = Some profile" and "m \<in> set (profile_refs profile)"
  shows "level_index m < level_index n"
  using validation_ok_edges_decrease [OF assms(1)] assms(2,3) by (simp add: profile_edges_def)

text \<open>One visit: the invariant, and which profiles it adds.\<close>

definition visited :: "validation_document \<Rightarrow> environment \<Rightarrow> nat \<Rightarrow> validation_level set
    \<Rightarrow> visit_state \<Rightarrow> visit_state \<Rightarrow> bool" where
  "visited v env bound ns s s' = (visit_inv v env s'
     \<and> ns \<union> set (vs_profiles s) \<subseteq> set (vs_profiles s')
     \<and> set (vs_profiles s') \<subseteq> set (vs_profiles s) \<union> {m. level_index m < bound})"

lemma fold_visited:
  assumes step: "\<And>n s s'. n \<in> set ns \<Longrightarrow> f n s = Inr s' \<Longrightarrow> visit_inv v env s \<Longrightarrow> visited v env bound {n} s s'"
    and "fold_res f ns s = Inr s'" and "visit_inv v env s"
  shows "visited v env bound (set ns) s s'"
  using assms
proof (induction ns arbitrary: s)
  case (Cons n ns)
  then obtain t where t: "f n s = Inr t" "fold_res f ns t = Inr s'" by (auto simp: bind_res_Inr_iff)
  have "visited v env bound {n} s t" using Cons.prems(1) [OF _ t(1)] Cons.prems(3) by simp
  moreover have "visited v env bound (set ns) t s'"
  proof (rule Cons.IH [OF _ t(2)])
    show "visit_inv v env t" using \<open>visited v env bound {n} s t\<close> by (simp add: visited_def)
  qed (use Cons.prems(1) in simp)
  ultimately show ?case by (auto simp: visited_def)
qed (simp add: visited_def)

lemma visited_mono: "visited v env i ns s s' \<Longrightarrow> i \<le> j \<Longrightarrow> visited v env j ns s s'"
  by (auto simp: visited_def)

lemma visit_visited:
  assumes v: "validation_ok v"
  shows "visit d v env n s = Inr s' \<Longrightarrow> visit_inv v env s \<Longrightarrow> visited v env (Suc (level_index n)) {n} s s'"
proof (induction d arbitrary: n s s')
  case (Suc d)
  show ?case
  proof (cases "n \<in> set (vs_profiles s)")
    case False
    then obtain profile t where t: "map_of (val_profiles v) n = Some profile"
      "fold_res (visit d v env) (profile_refs profile) s = Inr t"
      "record_profile v env n profile t = Inr s'"
      using Suc.prems by (auto simp: bind_res_Inr_iff)
    have inv: "visited v env (level_index n) (set (profile_refs profile)) s t"
    proof (rule fold_visited [OF _ t(2) Suc.prems(2)])
      fix m u u'
      assume "m \<in> set (profile_refs profile)" "visit d v env m u = Inr u'" "visit_inv v env u"
      with Suc.IH validation_ok_refs [OF v t(1)] show "visited v env (level_index n) {m} u u'"
        by (meson Suc_leI visited_mono)
    qed
    with False have "n \<notin> set (vs_profiles t)" by (auto simp: visited_def)
    from record_profile_inv [OF _ t(1) this _ t(3)] inv show ?thesis by (auto simp: visited_def)
  qed (use Suc in \<open>auto simp: visited_def\<close>)
qed simp

lemma visit_total:
  assumes v: "validation_ok v"
  shows "level_index n < d \<Longrightarrow> \<exists>s'. visit d v env n s = Inr s'"
proof (induction d arbitrary: n s)
  case (Suc d)
  obtain profile where p: "map_of (val_profiles v) n = Some profile" using validation_ok_lookup [OF v] by blast
  have "\<exists>t. fold_res (visit d v env) (profile_refs profile) s = Inr t"
  proof (rule fold_res_total)
    fix m u
    assume "m \<in> set (profile_refs profile)"
    then have "level_index m < d" using validation_ok_refs [OF v p] Suc.prems by force
    then show "\<exists>u'. visit d v env m u = Inr u'" by (rule Suc.IH)
  qed
  then obtain t where t: "fold_res (visit d v env) (profile_refs profile) s = Inr t" by blast
  have "evaluator_binding_ok v profile"
    using v p by (auto simp: validation_ok_def list_all_iff dest!: map_of_SomeD)
  then have "\<exists>s'. record_profile v env n profile t = Inr s'"
    by (cases profile) (auto simp: record_profile_def get_res_def Let_def split: option.splits)
  with p t show ?case by (simp add: get_res_def)
qed simp

section \<open>What the requirements guarantee\<close>

lemma determine_validation_Inr:
  assumes b: "bundle_ok b" and det: "determine_validation r env b = Inr req"
  obtains cd where "map_of (val_consequence_defaults (pb_validation b)) (rq_consequence r) = Some cd"
    "visit_inv (pb_validation b) env (derived_visit (pb_validation b) env (vr_profiles req))"
    "set (requested_levels r env (pb_validation b) cd) \<subseteq> set (vr_profiles req)"
    "\<forall>n \<in> set (vr_profiles req). n \<le> vr_level req"
    "vr_level req = Max (set (requested_levels r env (pb_validation b) cd))"
    "set (vr_blockers req) = set (concat (map (profile_blockers (pb_validation b) env) (vr_profiles req)))
       \<union> set (gate_blockers r cd)"
    "vr_evaluator_required req = (concat (map (profile_evaluators (pb_validation b)) (vr_profiles req)) \<noteq> [])"
    "vr_approval_required req = cd_approval_gate cd"
    "vr_execution_restrictions req = cd_execution_restrictions cd"
proof -
  let ?v = "pb_validation b"
  obtain cd s where s: "map_of (val_consequence_defaults ?v) (rq_consequence r) = Some cd"
    "fold_res (visit visit_depth ?v env) (stable_unique (requested_levels r env ?v cd)) empty_visit = Inr s"
    and req: "req = \<lparr>vr_level = Max (set (requested_levels r env ?v cd)), vr_profiles = vs_profiles s,
           vr_checks = stable_unique (vs_checks s), vr_evaluator_refs = stable_unique (vs_evaluators s),
           vr_validator_refs = stable_unique (vs_validators s),
           vr_blockers = stable_unique (vs_blockers s @ gate_blockers r cd),
           vr_evaluator_required = (vs_evaluators s \<noteq> []), vr_approval_required = cd_approval_gate cd,
           vr_evidence = cd_evidence cd, vr_execution_restrictions = cd_execution_restrictions cd\<rparr>"
    using det by (auto simp: determine_validation_def Let_def bind_res_Inr_iff)
  let ?top = "Max (set (requested_levels r env ?v cd))"
  have vis: "visited ?v env (Suc (level_index ?top)) (set (requested_levels r env ?v cd)) empty_visit s"
  proof -
    have "visited ?v env (Suc (level_index ?top)) (set (stable_unique (requested_levels r env ?v cd))) empty_visit s"
    proof (rule fold_visited [OF _ s(2) empty_visit_inv])
      fix n t t'
      assume n: "n \<in> set (stable_unique (requested_levels r env ?v cd))"
        and "visit visit_depth ?v env n t = Inr t'" "visit_inv ?v env t"
      then have "visited ?v env (Suc (level_index n)) {n} t t'"
        using visit_visited [OF bundle_okD(4) [OF b]] by blast
      moreover have "n \<le> ?top" using n by (intro Max_ge) auto
      ultimately show "visited ?v env (Suc (level_index ?top)) {n} t t'"
        by (auto simp: level_le_iff elim!: visited_mono)
    qed
    then show ?thesis by simp
  qed
  then have inv: "visit_inv ?v env s" by (simp add: visited_def)
  then have derived: "derived_visit ?v env (vs_profiles s) = s" by (simp add: visit_inv_def)
  show thesis
  proof (rule that [OF s(1)])
    show "visit_inv ?v env (derived_visit ?v env (vr_profiles req))" using inv derived req by simp
    show "set (requested_levels r env ?v cd) \<subseteq> set (vr_profiles req)"
      "\<forall>n \<in> set (vr_profiles req). n \<le> vr_level req"
      using vis req by (auto simp: visited_def empty_visit_def level_le_iff)
    have "vs_blockers s = concat (map (profile_blockers ?v env) (vs_profiles s))"
      "vs_evaluators s = concat (map (profile_evaluators ?v) (vs_profiles s))"
      using arg_cong [OF derived, of vs_blockers] arg_cong [OF derived, of vs_evaluators]
      by (simp_all add: derived_visit_def)
    then show "set (vr_blockers req) = set (concat (map (profile_blockers ?v env) (vr_profiles req)))
       \<union> set (gate_blockers r cd)"
      "vr_evaluator_required req = (concat (map (profile_evaluators ?v) (vr_profiles req)) \<noteq> [])"
      using req by simp_all
  qed (simp_all add: req)
qed

lemma determine_validation_total:
  assumes b: "bundle_ok b"
  shows "\<exists>req. determine_validation r env b = Inr req"
proof -
  let ?v = "pb_validation b"
  have v: "validation_ok ?v" by (rule bundle_okD(4) [OF b])
  have "rq_consequence r \<in> {Low_consequence, Moderate_consequence, High_consequence, Critical_consequence}"
    by (cases "rq_consequence r") auto
  moreover have "fst ` set (val_consequence_defaults ?v)
      = {Low_consequence, Moderate_consequence, High_consequence, Critical_consequence}"
    using v by (simp add: validation_ok_def)
  ultimately obtain cd where cd: "map_of (val_consequence_defaults ?v) (rq_consequence r) = Some cd"
    using map_of_in_fst by metis
  have "level_index n < visit_depth" for n by (cases n) (auto simp: visit_depth_def)
  then have "\<exists>s. fold_res (visit visit_depth ?v env) (stable_unique (requested_levels r env ?v cd)) empty_visit = Inr s"
    by (intro fold_res_total visit_total [OF v])
  with cd show ?thesis by (auto simp: determine_validation_def get_res_def Let_def)
qed

text \<open>
  The selected profiles hold every requested level and the default of the consequence class,
  are closed under reference, never repeat, and none lies above the reported level.
\<close>

lemma determine_validation_profiles:
  assumes b: "bundle_ok b" and det: "determine_validation r env b = Inr req"
  shows "distinct (vr_profiles req)"
    and "\<forall>n \<in> set (vr_profiles req). set (profile_edges (pb_validation b) n) \<subseteq> set (vr_profiles req)"
    and "vr_level req = Max (set (vr_profiles req))"
    and "\<forall>l. rq_requested_validation r = Some l \<or> env_requested_validation env = Some l
          \<longrightarrow> l \<in> set (vr_profiles req)"
    and "\<forall>cd. map_of (val_consequence_defaults (pb_validation b)) (rq_consequence r) = Some cd
          \<longrightarrow> cd_profile cd \<in> set (vr_profiles req)"
proof -
  obtain cd where cd: "map_of (val_consequence_defaults (pb_validation b)) (rq_consequence r) = Some cd"
    and inv: "visit_inv (pb_validation b) env (derived_visit (pb_validation b) env (vr_profiles req))"
    and sub: "set (requested_levels r env (pb_validation b) cd) \<subseteq> set (vr_profiles req)"
    and le: "\<forall>n \<in> set (vr_profiles req). n \<le> vr_level req"
    and lv: "vr_level req = Max (set (requested_levels r env (pb_validation b) cd))"
    using determine_validation_Inr [OF b det] by metis
  show "distinct (vr_profiles req)"
    "\<forall>n \<in> set (vr_profiles req). set (profile_edges (pb_validation b) n) \<subseteq> set (vr_profiles req)"
    using inv by (auto simp: visit_inv_def derived_visit_def)
  have "vr_level req \<in> set (requested_levels r env (pb_validation b) cd)"
    unfolding lv by (rule Max_in, rule finite_set) (simp add: requested_levels_def)
  with sub le show "vr_level req = Max (set (vr_profiles req))"
    by (intro Max_eqI [symmetric]) auto
  show "\<forall>l. rq_requested_validation r = Some l \<or> env_requested_validation env = Some l
          \<longrightarrow> l \<in> set (vr_profiles req)"
    "\<forall>cd. map_of (val_consequence_defaults (pb_validation b)) (rq_consequence r) = Some cd
          \<longrightarrow> cd_profile cd \<in> set (vr_profiles req)"
    using sub cd by (auto simp: requested_levels_def)
qed

text \<open>
  The semantic profiles are V1 and V2 and the domain profile is V3, so that an evaluator is
  required exactly when V1 or V2 is selected, and a deployment without synthetic mocks cannot
  clear V3: the configuration schema leaves its validator unset.
\<close>

lemma validation_ok_kinds:
  assumes "validation_ok v"
  shows "\<exists>cs. map_of (val_profiles v) V0 = Some (V0Profile cs)"
    and "\<exists>k b ref. map_of (val_profiles v) V1 = Some (SemanticProfile k b ref)"
    and "\<exists>k b ref. map_of (val_profiles v) V2 = Some (SemanticProfile k b ref)"
    and "\<exists>b q. map_of (val_profiles v) V3 = Some (DomainProfile b None q)"
  using assms by (auto simp: validation_ok_def split: option.splits profile.splits)

lemma profile_evaluators_Nil_iff:
  "validation_ok v \<Longrightarrow> profile_evaluators v n = [] \<longleftrightarrow> n = V0 \<or> n = V3"
  using validation_ok_kinds [of v] by (cases n) (auto simp: profile_evaluators_def)

lemma determine_validation_evaluator:
  assumes b: "bundle_ok b" and det: "determine_validation r env b = Inr req"
  shows "vr_evaluator_required req \<longleftrightarrow> V1 \<in> set (vr_profiles req) \<or> V2 \<in> set (vr_profiles req)"
proof -
  have "vr_evaluator_required req
      = (\<exists>n \<in> set (vr_profiles req). profile_evaluators (pb_validation b) n \<noteq> [])"
    by (rule determine_validation_Inr [OF b det]) simp
  also have "\<dots> \<longleftrightarrow> (\<exists>n \<in> set (vr_profiles req). n = V1 \<or> n = V2)"
    unfolding profile_evaluators_Nil_iff [OF bundle_okD(4) [OF b]]
    by (rule bex_cong [OF refl]) (case_tac n, simp_all)
  also have "\<dots> \<longleftrightarrow> V1 \<in> set (vr_profiles req) \<or> V2 \<in> set (vr_profiles req)" by blast
  finally show ?thesis .
qed

lemma profile_blockers_reported:
  assumes b: "bundle_ok b" and det: "determine_validation r env b = Inr req"
    and "n \<in> set (vr_profiles req)" and "x \<in> set (profile_blockers (pb_validation b) env n)"
  shows "x \<in> set (vr_blockers req)"
  by (rule determine_validation_Inr [OF b det]) (use assms(3,4) in auto)

lemma domain_profile_blocks:
  assumes b: "bundle_ok b" and det: "determine_validation r env b = Inr req"
    and "V3 \<in> set (vr_profiles req)" and "\<not> is_mock env V3"
  shows "''domain_validator_unconfigured'' \<in> set (vr_blockers req)"
proof -
  have "''domain_validator_unconfigured'' \<in> set (profile_blockers (pb_validation b) env V3)"
    using assms(4) validation_ok_kinds(4) [OF bundle_okD(4) [OF b]] by (auto simp: profile_blockers_def)
  then show ?thesis by (rule profile_blockers_reported [OF b det assms(3)])
qed

lemma gate_blocks:
  assumes b: "bundle_ok b" and det: "determine_validation r env b = Inr req"
  shows "vr_approval_required req \<Longrightarrow> \<not> rq_approval_evidence r \<Longrightarrow> ''approval_missing'' \<in> set (vr_blockers req)"
    and "''domain_clearance_required'' \<in> set (vr_execution_restrictions req) \<Longrightarrow>
      \<not> rq_domain_clearance_evidence r \<Longrightarrow> ''domain_clearance_missing'' \<in> set (vr_blockers req)"
  by (rule determine_validation_Inr [OF b det], simp add: gate_blockers_def)+

lemma evaluator_blocks:
  assumes b: "bundle_ok b" and det: "determine_validation r env b = Inr req"
    and "n \<in> set (vr_profiles req)" and "\<not> is_mock env n"
    and "map_of (val_profiles (pb_validation b)) n = Some (SemanticProfile k base ref)"
    and "map_of (val_evaluators (pb_validation b)) ref = Some e" and "\<not> ev_enabled e"
  shows "''evaluator_unconfigured'' \<in> set (vr_blockers req)"
proof -
  have "''evaluator_unconfigured'' \<in> set (profile_blockers (pb_validation b) env n)"
    using assms(4-7) by (simp add: profile_blockers_def)
  then show ?thesis by (rule profile_blockers_reported [OF b det assms(3)])
qed

end
