(* ===== verification/Router.thy ===== *)
theory Router
  imports Capabilities Budgets Costs ValidationPolicy "HOL-Library.AList"
begin

text \<open>
  \<^verbatim>\<open>router.py\<close>: the route-only entry point. The function is modelled in the order of its
  statements; its local closure variables are the record \<open>route_context\<close>, the body of its
  candidate loop the function \<open>assess\<close> and the loop's accumulators functions of the list of
  assessments, and each \<^verbatim>\<open>return\<close> or \<^verbatim>\<open>raise\<close> a branch.

  The accumulated rationale codes are threaded through as values. The four digests are
  parameters, collected in the record \<open>digests\<close>: the code writes them into the decision and
  never reads them back. The catalog currency is the one value its schema admits.
\<close>

section \<open>Parameters and context\<close>

record digests =
  dg_quote :: quote_digest
  dg_config :: "string \<Rightarrow> string option \<Rightarrow> limits \<Rightarrow> string"
  dg_decision :: "request \<Rightarrow> classification \<Rightarrow> environment \<Rightarrow> string \<Rightarrow> string"
  dg_recovery :: "string \<Rightarrow> candidate list \<Rightarrow> string"
  dg_pricing :: "catalog_document \<Rightarrow> environment \<Rightarrow> string"

definition catalog_currency :: string where
  "catalog_currency = ''USD''"

record route_context =
  rc_request :: request
  rc_classification :: classification
  rc_env :: environment
  rc_bundle :: policy_bundle
  rc_limits :: limits
  rc_plan :: candidate_plan
  rc_validation :: validation_requirements
  rc_recovery :: "candidate list option"
  rc_overlay_version :: "string option"
  rc_config_hash :: string
  rc_decision_id :: string
  rc_pricing_version :: string

abbreviation rc_models :: "route_context \<Rightarrow> (string \<times> model_entry) list" where
  "rc_models ctx \<equiv> bundle_models (rc_bundle ctx)"

definition recovery_plan :: "candidate list option \<Rightarrow> (string \<times> model_entry) list \<Rightarrow> candidate_plan
    \<Rightarrow> candidate_plan res" where
  "recovery_plan recovery models plan =
     (case recovery of None \<Rightarrow> Inr plan
      | Some cands \<Rightarrow>
          bind_res (check_res (cands \<noteq> []) InputError) (\<lambda>_.
          bind_res (check_res (list_all (\<lambda>c. supported_pair models (cand_pair c)) cands) InputError) (\<lambda>_.
          let existing = set (map cand_pair (plan_candidates plan));
              extras = filter (\<lambda>c. cand_pair c \<notin> existing) cands
          in Inr (plan\<lparr>plan_candidates := plan_candidates plan @ extras\<rparr>))))"

definition overlay_version_of :: "environment \<Rightarrow> policy_bundle \<Rightarrow> string option" where
  "overlay_version_of env b =
     (case env_application_overlay_version env of Some v \<Rightarrow> Some v
      | None \<Rightarrow> (case env_trusted_application_id env of None \<Rightarrow> None
          | Some app \<Rightarrow> if app \<in> set (map fst (bud_applications (pb_budgets b)))
                        then Some (bud_version (pb_budgets b) @ ''/'' @ app) else None))"

text \<open>Everything up to the first look at a model: the checks, the limits, the plan, the identifiers.\<close>

definition prepare :: "digests \<Rightarrow> request \<Rightarrow> classification \<Rightarrow> environment \<Rightarrow> policy_bundle
    \<Rightarrow> candidate list option \<Rightarrow> route_context res" where
  "prepare dg r c env b recovery =
     bind_res (check_res (rq_policy_version r = None \<or> rq_policy_version r = Some (pol_version (pb_policy b)))
       InputError) (\<lambda>_.
     bind_res (check_res (sel_calibration_version (pol_selection (pb_policy b)) = None) ConfigurationError) (\<lambda>_.
     bind_res (check_res (set (map fst (env_models env)) \<subseteq> set (map fst (bundle_models b))) InputError) (\<lambda>_.
     bind_res (resolve_limits r env b) (\<lambda>l.
     bind_res (build_candidates c b l) (\<lambda>plan0.
     bind_res (recovery_plan recovery (bundle_models b) plan0) (\<lambda>plan.
     bind_res (determine_validation r env b) (\<lambda>v.
     let overlay = overlay_version_of env b;
         config = dg_config dg (pb_content_hash b) overlay l;
         decision = dg_decision dg r c env config
     in Inr \<lparr>rc_request = r, rc_classification = c, rc_env = env, rc_bundle = b, rc_limits = l,
             rc_plan = plan, rc_validation = v, rc_recovery = recovery,
             rc_overlay_version = overlay, rc_config_hash = config,
             rc_decision_id = (case recovery of None \<Rightarrow> decision | Some cands \<Rightarrow> dg_recovery dg decision cands),
             rc_pricing_version = dg_pricing dg (pb_catalog b) env\<rparr>)))))))"

definition initial_codes :: "route_context \<Rightarrow> string list" where
  "initial_codes ctx =
     plan_rationale_codes (rc_plan ctx)
     @ (if cl_confidence (rc_classification ctx) < 1 then [''LOW_CLASSIFIER_CONFIDENCE''] else [])
     @ (if vr_level (rc_validation ctx) \<noteq> val_default_profile (pb_validation (rc_bundle ctx))
           \<or> vr_evaluator_required (rc_validation ctx) then [''VALIDATION_REQUIRED''] else [])"

definition initial_details :: "route_context \<Rightarrow> rationale_details" where
  "initial_details ctx = \<lparr>rd_required_capabilities = rq_requirements (rc_request ctx),
     rd_matched_rules = plan_matched_rules (rc_plan ctx), rd_floors = plan_floors (rc_plan ctx),
     rd_floor_waiver_rules = [], rd_floor_waiver_constraints = [], rd_removed_candidates = [],
     rd_latency_supplied = (env_minimum_next_action_ms (rc_env ctx) \<noteq> None),
     rd_environment_pricing_reference = env_pricing_version (rc_env ctx),
     rd_cache_miss_budget_estimates = None, rd_selected_source = None, rd_model_pricing_version = None\<rparr>"

section \<open>Results\<close>

definition registered :: "route_context \<Rightarrow> string list \<Rightarrow> bool" where
  "registered ctx codes = (set codes \<subseteq> set (map fst (pol_rationale_codes (pb_policy (rc_bundle ctx)))))"

definition rejection_codes :: "failure_type \<Rightarrow> string list \<Rightarrow> string list" where
  "rejection_codes failure codes =
     filter (\<lambda>c. c \<noteq> ''BASELINE_PRIOR'') codes
     @ (if failure = BUDGET_FAILURE then [''APPLICATION_BUDGET_CAP'']
        else if failure = PROVIDER_FAILURE then [''MODEL_DEGRADED''] else [])"

definition reject :: "route_context \<Rightarrow> string list \<Rightarrow> rationale_details \<Rightarrow> failure_type \<Rightarrow> string list
    \<Rightarrow> bool \<Rightarrow> route_result res" where
  "reject ctx codes0 details failure violations retryable =
     (let codes = rejection_codes failure codes0; b = rc_bundle ctx; env = rc_env ctx in
      bind_res (check_res (registered ctx codes) ConfigurationError) (\<lambda>_.
      Inr (Rejection \<lparr>db_task_id = rq_task_id (rc_request ctx), db_trace_id = rq_trace_id (rc_request ctx),
        db_decision_id = rc_decision_id ctx, db_policy_version = pol_version (pb_policy b),
        db_catalog_version = cat_catalog_version (pb_catalog b), db_pricing_version = rc_pricing_version ctx,
        db_budget_version = bud_version (pb_budgets b), db_validation_version = val_version (pb_validation b),
        db_application_overlay_version = rc_overlay_version ctx,
        db_effective_configuration_hash = rc_config_hash ctx, db_classification = rc_classification ctx,
        db_complexity_score = components_total (cl_components (rc_classification ctx)),
        db_rationale_codes = stable_unique codes, db_rationale_details = details,
        db_effective_limits = rc_limits ctx, db_environment_snapshot_id = env_snapshot_id env,
        db_synthetic = env_synthetic env, db_health_snapshot_id = env_health_snapshot_id env,
        db_readiness_blockers = [], rj_failure_type = failure,
        rj_violated_constraints = stable_unique violations, rj_retryable = retryable\<rparr>)))"

section \<open>The candidate loop\<close>

record item =
  it_candidate :: candidate
  it_model :: model_entry
  it_cost :: cost_estimate
  it_budget :: feasibility
  it_health :: "model_health option"

record assessment =
  as_item :: item
  as_violations :: "string list"
  as_miss :: "cost_estimate option"

definition health_excluded :: "route_context \<Rightarrow> model_entry \<Rightarrow> model_health option \<Rightarrow> bool" where
  "health_excluded ctx m health =
     (\<not> configured_enabled m \<or> (case health of None \<Rightarrow> False
        | Some h \<Rightarrow> mh_state h \<in> set (pol_health_exclude_states (pb_policy (rc_bundle ctx)))
            \<or> \<not> mh_usable h \<or> mh_account_access h = Access_unavailable))"

definition effective_floor :: "route_context \<Rightarrow> nat" where
  "effective_floor ctx = max (plan_hard_floor (rc_plan ctx))
     (case lim_model_tier_floor (rc_limits ctx) of None \<Rightarrow> 0 | Some lo \<Rightarrow> lo)"

definition above_ceiling :: "limits \<Rightarrow> nat \<Rightarrow> bool" where
  "above_ceiling l rank = (case lim_model_tier_ceiling l of None \<Rightarrow> False | Some hi \<Rightarrow> hi < rank)"

definition route_violations :: "route_context \<Rightarrow> model_entry \<Rightarrow> model_health option \<Rightarrow> string list" where
  "route_violations ctx m health =
     fs_violations (check_capabilities (rc_request ctx) m)
     @ (if me_tier_rank m < effective_floor ctx then [''model_tier_floor''] else [])
     @ (if above_ceiling (rc_limits ctx) (me_tier_rank m) then [''model_tier_ceiling''] else [])
     @ (if health_excluded ctx m health then [''no_healthy_permitted_path''] else [])"

definition cache_miss_request :: "request \<Rightarrow> request" where
  "cache_miss_request r = r\<lparr>rq_context := (rq_context r)\<lparr>tc_cache_evidence := False\<rparr>\<rparr>"

definition combined_budget :: "feasibility \<Rightarrow> feasibility \<Rightarrow> cost_estimate \<Rightarrow> feasibility" where
  "combined_budget hit miss miss_cost =
     \<lparr>fs_violations = stable_unique (fs_violations hit @ fs_violations miss),
      fs_blockers = stable_unique (fs_blockers hit @ fs_blockers miss
        @ (if ce_status miss_cost \<noteq> Cost_known then [''cache_miss_estimate_unavailable''] else [])),
      fs_rationale_codes = stable_unique (fs_rationale_codes hit @ fs_rationale_codes miss)\<rparr>"

definition quote :: "digests \<Rightarrow> route_context \<Rightarrow> request \<Rightarrow> model_entry \<Rightarrow> cost_estimate" where
  "quote dg ctx r m = estimate_cost (dg_quote dg) r m (rc_env ctx) (rc_validation ctx) catalog_currency"

text \<open>
  The quotes of a candidate: the expected one, and when it counts on cache reads the one for a
  cache miss. Both have to fit.
\<close>

definition budget_of :: "digests \<Rightarrow> route_context \<Rightarrow> model_entry \<Rightarrow> cost_estimate \<times> feasibility \<times> cost_estimate option" where
  "budget_of dg ctx m =
     (let cost = quote dg ctx (rc_request ctx) m;
          budget = check_budget cost (rc_limits ctx) (rc_env ctx)
      in if ce_cache_read_tokens cost = 0 then (cost, budget, None)
         else let miss_cost = quote dg ctx (cache_miss_request (rc_request ctx)) m;
                  miss_budget = check_budget miss_cost (rc_limits ctx) (rc_env ctx)
              in (cost, combined_budget budget miss_budget miss_cost, Some miss_cost))"

definition health_of :: "route_context \<Rightarrow> candidate \<Rightarrow> model_health option" where
  "health_of ctx c = map_of (env_models (rc_env ctx)) (cand_model c)"

definition item_of :: "digests \<Rightarrow> route_context \<Rightarrow> candidate \<Rightarrow> model_entry \<Rightarrow> item" where
  "item_of dg ctx c m = \<lparr>it_candidate = c, it_model = m, it_cost = fst (budget_of dg ctx m),
     it_budget = fst (snd (budget_of dg ctx m)), it_health = health_of ctx c\<rparr>"

definition item_violations :: "digests \<Rightarrow> route_context \<Rightarrow> candidate \<Rightarrow> model_entry \<Rightarrow> string list" where
  "item_violations dg ctx c m =
     route_violations ctx m (health_of ctx c) @ fs_violations (fst (snd (budget_of dg ctx m)))"

definition assess :: "digests \<Rightarrow> route_context \<Rightarrow> candidate \<Rightarrow> assessment res" where
  "assess dg ctx c =
     bind_res (get_res (rc_models ctx) (cand_model c)) (\<lambda>m.
     bind_res (check_res (cand_effort c \<in> set (me_reasoning_efforts m)) ConfigurationError) (\<lambda>_.
     Inr \<lparr>as_item = item_of dg ctx c m,
          as_violations = item_violations dg ctx c m,
          as_miss = snd (snd (budget_of dg ctx m))\<rparr>))"

definition removed_row :: "candidate \<Rightarrow> string list \<Rightarrow> removed_candidate" where
  "removed_row c constraints = \<lparr>rm_model = cand_model c, rm_effort = cand_effort c,
     rm_source = cand_source c, rm_constraints = constraints\<rparr>"

definition feasible_items :: "assessment list \<Rightarrow> item list" where
  "feasible_items as = map as_item (filter (\<lambda>a. as_violations a = []) as)"

definition removed_rows :: "assessment list \<Rightarrow> removed_candidate list" where
  "removed_rows as = map (\<lambda>a. removed_row (it_candidate (as_item a)) (stable_unique (as_violations a)))
     (filter (\<lambda>a. as_violations a \<noteq> []) as)"

definition miss_quotes :: "assessment list \<Rightarrow> (string \<times> cost_estimate) list" where
  "miss_quotes as = fold (\<lambda>a m. case as_miss a of None \<Rightarrow> m
     | Some q \<Rightarrow> AList.update (cand_model (it_candidate (as_item a))) q m) as []"

definition degraded_codes :: "assessment list \<Rightarrow> string list" where
  "degraded_codes as = concat (map (\<lambda>a. case it_health (as_item a) of None \<Rightarrow> []
     | Some h \<Rightarrow> if (mh_state h \<noteq> HEALTHY \<or> \<not> mh_usable h)
           \<and> cand_source (it_candidate (as_item a)) \<noteq> Source_fallback
         then [''MODEL_DEGRADED''] else []) as)"

definition cap_keys :: "string list" where
  "cap_keys = [''model_tier_ceiling'', ''model_tier_floor'', ''task_cost_ceiling_usd'', ''remaining_budget'']"

definition cap_codes :: "removed_candidate list \<Rightarrow> string list" where
  "cap_codes rows = (if list_ex (\<lambda>row. list_ex (\<lambda>v. v \<in> set (rm_constraints row)) cap_keys) rows
     then [''APPLICATION_BUDGET_CAP''] else [])"

text \<open>The rejection when nothing is feasible: availability, then budget, then capability.\<close>

definition reject_infeasible :: "route_context \<Rightarrow> string list \<Rightarrow> rationale_details \<Rightarrow> removed_candidate list
    \<Rightarrow> route_result res" where
  "reject_infeasible ctx codes details rows =
     (let violations = stable_unique (concat (map rm_constraints rows)) in
      if list_ex (\<lambda>row. set (rm_constraints row) = {''no_healthy_permitted_path''}) rows
      then reject ctx codes details PROVIDER_FAILURE violations True
      else if list_ex (\<lambda>v. v \<in> set cap_keys) violations
      then reject ctx codes details BUDGET_FAILURE violations False
      else reject ctx codes details CAPABILITY_FAILURE
        (if violations = [] then [''no_permitted_candidate''] else violations) False)"

section \<open>Selection\<close>

definition funding_blockers :: "string list" where
  "funding_blockers = [''required_evaluator_budget'', ''required_domain_validator_budget'', ''required_tool_budget'']"

definition account_unverified :: "model_health option \<Rightarrow> bool" where
  "account_unverified health = (case health of None \<Rightarrow> True | Some h \<Rightarrow> mh_account_access h \<noteq> Access_verified)"

definition candidate_blockers :: "item \<Rightarrow> string list" where
  "candidate_blockers i = stable_unique
     (filter (\<lambda>b. b \<in> set funding_blockers) (fs_blockers (it_budget i))
      @ (if ''cache_miss_estimate_unavailable'' \<in> set (fs_blockers (it_budget i))
         then [''cache_miss_estimate_unavailable''] else [])
      @ (if ce_status (it_cost i) \<noteq> Cost_known then unknown_cost_blockers (it_cost i) else [])
      @ (if account_unverified (it_health i) then [''account_unknown''] else []))"

definition certified :: "item list \<Rightarrow> item list" where
  "certified items = filter (\<lambda>i. candidate_blockers i = []) items"

text \<open>The items that stay after certification, with the rows and the code that it adds.\<close>

definition certify :: "item list \<Rightarrow> item list \<times> removed_candidate list \<times> string list" where
  "certify items =
     (if certified items = [] then (items, [], [])
      else (certified items,
            map (\<lambda>i. removed_row (it_candidate i) (candidate_blockers i))
              (filter (\<lambda>i. candidate_blockers i \<noteq> []) items),
            if list_ex (\<lambda>i. list_ex (\<lambda>b. b \<in> set (fs_blockers (it_budget i))) funding_blockers) items
            then [''APPLICATION_BUDGET_CAP''] else []))"

abbreviation item_rank :: "item \<Rightarrow> nat" where
  "item_rank i \<equiv> me_tier_rank (it_model i)"

definition attained_floors :: "candidate_plan \<Rightarrow> item list \<Rightarrow> nat list" where
  "attained_floors plan items =
     map fe_min_tier (filter (\<lambda>f. fe_strength f = Strength_preferred
       \<and> list_ex (\<lambda>i. fe_min_tier f \<le> item_rank i) items) (plan_floors plan))"

definition attainable_floor :: "candidate_plan \<Rightarrow> item list \<Rightarrow> nat" where
  "attainable_floor plan items =
     (if attained_floors plan items = [] then plan_hard_floor plan else Max (set (attained_floors plan items)))"

definition waived_floors :: "candidate_plan \<Rightarrow> nat \<Rightarrow> floor_evidence list" where
  "waived_floors plan attainable =
     filter (\<lambda>f. fe_strength f = Strength_preferred \<and> attainable < fe_min_tier f) (plan_floors plan)"

text \<open>The constraints that kept higher tiers out: the evidence for waiving a preferred floor.\<close>

definition waiver_evidence :: "route_context \<Rightarrow> nat \<Rightarrow> removed_candidate list \<Rightarrow> string list" where
  "waiver_evidence ctx attainable rows =
     concat (map rm_constraints (filter (\<lambda>row. attainable < model_rank (rc_models ctx) (rm_model row)) rows))
     @ (case lim_model_tier_ceiling (rc_limits ctx) of None \<Rightarrow> []
        | Some hi \<Rightarrow> if hi < plan_preferred_floor (rc_plan ctx) then [''model_tier_ceiling''] else [])"

definition recovery_order :: "candidate list \<Rightarrow> item list \<Rightarrow> item list" where
  "recovery_order wanted items =
     concat (map (\<lambda>w. filter (\<lambda>i. cand_pair (it_candidate i) = cand_pair w) items) wanted)"

definition reject_recovery :: "route_context \<Rightarrow> string list \<Rightarrow> rationale_details \<Rightarrow> candidate list
    \<Rightarrow> removed_candidate list \<Rightarrow> route_result res" where
  "reject_recovery ctx codes details wanted rows =
     (let violations = concat (map rm_constraints
            (filter (\<lambda>row. (rm_model row, rm_effort row) \<in> set (map cand_pair wanted)) rows)) in
      if list_ex (\<lambda>v. v \<in> set [''remaining_budget'', ''task_cost_ceiling_usd'', ''model_tier_ceiling'']) violations
      then reject ctx codes details BUDGET_FAILURE violations False
      else reject ctx codes details
        (if ''no_healthy_permitted_path'' \<in> set violations then PROVIDER_FAILURE else CAPABILITY_FAILURE)
        (if violations = [] then [''recovery_candidate_not_permitted''] else violations) True)"

definition is_healthy :: "item \<Rightarrow> bool" where
  "is_healthy i = (case it_health i of None \<Rightarrow> False | Some h \<Rightarrow> mh_state h = HEALTHY)"

text \<open>Fallback candidates are a last resort; within the group a healthy one is preferred.\<close>

definition selection_pool :: "bool \<Rightarrow> item list \<Rightarrow> item list" where
  "selection_pool recovering items =
     (let primary = (if recovering then [] else
            filter (\<lambda>i. cand_source (it_candidate i) \<noteq> Source_fallback) items);
          pool = (if primary = [] then items else primary);
          healthy = filter is_healthy pool
      in if healthy = [] then pool else healthy)"

definition snapshot_stale :: "environment \<Rightarrow> bool" where
  "snapshot_stale env = (case (env_health_valid_until env, env_health_observed_at env) of
     (Some until, Some observed) \<Rightarrow> env_clock env < observed \<or> until \<le> env_clock env
   | _ \<Rightarrow> True)"

definition readiness_blockers :: "route_context \<Rightarrow> item \<Rightarrow> string list" where
  "readiness_blockers ctx i =
     vr_blockers (rc_validation ctx) @ fs_blockers (it_budget i)
     @ (if account_unverified (it_health i) then [''account_unknown''] else [])
     @ (if snapshot_stale (rc_env ctx) then [''stale_snapshot''] else [])
     @ (if \<not> env_recovery_bounded (rc_env ctx) then [''recovery_unconfigured''] else [])
     @ (if \<not> env_durable_retention (rc_env ctx) then [''durable_retention_unavailable''] else [])
     @ (if env_health_snapshot_id (rc_env ctx) = None then [''health_snapshot_unversioned''] else [])
     @ (if rq_side_effecting_tool (rc_request ctx) then [''side_effect_execution_unconfigured''] else [])
     @ (if lim_period_spend_ceiling_usd (rc_limits ctx) \<noteq> None then [''period_budget_unverified''] else [])"

definition selection_codes :: "item \<Rightarrow> string list \<Rightarrow> string list" where
  "selection_codes i codes =
     (let codes1 = codes @ (case it_health i of None \<Rightarrow> []
            | Some h \<Rightarrow> if mh_state h = DEGRADED then [''MODEL_DEGRADED''] else []);
          codes2 = (if cand_source (it_candidate i) \<noteq> Source_prior
            then filter (\<lambda>c. c \<noteq> ''BASELINE_PRIOR'') codes1 @ [''CONSTRAINED_FALLBACK''] else codes1)
      in codes2 @ (if ce_long_context (it_cost i) then [''LONG_CONTEXT''] else [])
         @ (if ce_status (it_cost i) \<noteq> Cost_known then [''ESTIMATE_UNAVAILABLE''] else [])
         @ fs_rationale_codes (it_budget i))"

definition decide :: "route_context \<Rightarrow> string list \<Rightarrow> rationale_details \<Rightarrow> item \<Rightarrow> route_result res" where
  "decide ctx codes0 details i =
     (let codes = selection_codes i codes0; b = rc_bundle ctx; env = rc_env ctx;
          blockers = readiness_blockers ctx i; m = it_model i in
      bind_res (check_res (registered ctx codes) ConfigurationError) (\<lambda>_.
      Inr (Decision \<lparr>db_task_id = rq_task_id (rc_request ctx), db_trace_id = rq_trace_id (rc_request ctx),
        db_decision_id = rc_decision_id ctx, db_policy_version = pol_version (pb_policy b),
        db_catalog_version = cat_catalog_version (pb_catalog b),
        db_pricing_version = ce_pricing_version (it_cost i),
        db_budget_version = bud_version (pb_budgets b), db_validation_version = val_version (pb_validation b),
        db_application_overlay_version = rc_overlay_version ctx,
        db_effective_configuration_hash = rc_config_hash ctx, db_classification = rc_classification ctx,
        db_complexity_score = components_total (cl_components (rc_classification ctx)),
        db_rationale_codes = stable_unique codes,
        db_rationale_details = details\<lparr>rd_selected_source := Some (cand_source (it_candidate i)),
          rd_model_pricing_version := Some (pr_version (me_pricing m))\<rparr>,
        db_effective_limits = rc_limits ctx, db_environment_snapshot_id = env_snapshot_id env,
        db_synthetic = env_synthetic env, db_health_snapshot_id = env_health_snapshot_id env,
        db_readiness_blockers = stable_unique blockers,
        rt_selected_model_alias = cand_model (it_candidate i),
        rt_provider_model_id = me_provider_model_id m, rt_model_tier = me_tier_rank m,
        rt_reasoning_effort = cand_effort (it_candidate i),
        rt_validation_level = vr_level (rc_validation ctx), rt_validation_requirements = rc_validation ctx,
        rt_estimated_cost = it_cost i, rt_executable = (blockers = [])\<rparr>)))"

section \<open>The entry point\<close>

text \<open>From a nonempty feasible list on: certification, floors, recovery order, the choice.\<close>

definition choose_route :: "route_context \<Rightarrow> string list \<Rightarrow> rationale_details \<Rightarrow> removed_candidate list
    \<Rightarrow> item list \<Rightarrow> route_result res" where
  "choose_route ctx codes0 details0 rows0 items0 =
     (let (items1, rows1, codes1) = certify items0;
          rows = rows0 @ rows1;
          plan = rc_plan ctx;
          attainable = attainable_floor plan items1;
          items2 = filter (\<lambda>i. attainable \<le> item_rank i) items1;
          waived = waived_floors plan attainable;
          evidence = waiver_evidence ctx attainable rows;
          codes = codes0 @ codes1 @ (if waived \<noteq> [] then [''FLOOR_RELAXED''] else []);
          details = (if waived = [] then details0\<lparr>rd_removed_candidates := rows\<rparr>
            else details0\<lparr>rd_removed_candidates := rows, rd_floor_waiver_rules := map fe_rule_id waived,
                   rd_floor_waiver_constraints := stable_unique evidence\<rparr>) in
      bind_res (check_res (waived = [] \<or> evidence \<noteq> []) ConfigurationError) (\<lambda>_.
      let items3 = (case rc_recovery ctx of None \<Rightarrow> items2 | Some wanted \<Rightarrow> recovery_order wanted items2) in
      case rc_recovery ctx of
        Some wanted \<Rightarrow> if items3 = [] then reject_recovery ctx codes details wanted rows
          else (case selection_pool True items3 of [] \<Rightarrow> Inl IndexError | i # rest \<Rightarrow> decide ctx codes details i)
      | None \<Rightarrow> (case selection_pool False items3 of [] \<Rightarrow> Inl IndexError | i # rest \<Rightarrow> decide ctx codes details i)))"

definition capability_results :: "route_context \<Rightarrow> feasibility list" where
  "capability_results ctx = map (\<lambda>(a, m). check_capabilities (rc_request ctx) m) (rc_models ctx)"

definition base_codes :: "route_context \<Rightarrow> string list" where
  "base_codes ctx = initial_codes ctx @ concat (map fs_rationale_codes (capability_results ctx))"

definition hard_floor_over_ceiling :: "route_context \<Rightarrow> bool" where
  "hard_floor_over_ceiling ctx = above_ceiling (rc_limits ctx) (plan_hard_floor (rc_plan ctx))"

definition select_route :: "digests \<Rightarrow> route_context \<Rightarrow> route_result res" where
  "select_route dg ctx =
     (let codes = base_codes ctx; details = initial_details ctx in
      if list_all (\<lambda>f. fs_violations f \<noteq> []) (capability_results ctx)
      then reject ctx codes details CAPABILITY_FAILURE
        (concat (map fs_violations (capability_results ctx))) False
      else if floor_over_ceiling (rc_limits ctx)
      then reject ctx codes details BUDGET_FAILURE [''floor_vs_ceiling''] False
      else if hard_floor_over_ceiling ctx
      then reject ctx codes details BUDGET_FAILURE [''hard_floor_vs_ceiling''] False
      else bind_res (map_res (assess dg ctx) (plan_candidates (rc_plan ctx))) (\<lambda>as.
        let rows = removed_rows as;
            codes' = codes @ degraded_codes as @ cap_codes rows;
            details' = details\<lparr>rd_removed_candidates := rows,
                              rd_cache_miss_budget_estimates := Some (miss_quotes as)\<rparr> in
        if feasible_items as = [] then reject_infeasible ctx codes' details' rows
        else choose_route ctx codes' details' rows (feasible_items as)))"

definition route :: "digests \<Rightarrow> request \<Rightarrow> classification \<Rightarrow> environment \<Rightarrow> policy_bundle
    \<Rightarrow> candidate list option \<Rightarrow> route_result res" where
  "route dg r c env b recovery = bind_res (prepare dg r c env b recovery) (select_route dg)"

section \<open>Where a decision comes from\<close>

lemma reject_not_decision [simp]: "reject ctx codes details f vs re \<noteq> Inr (Decision d)"
  by (auto simp: reject_def Let_def bind_res_Inr_iff)

lemma reject_infeasible_not_decision [simp]: "reject_infeasible ctx codes details rows \<noteq> Inr (Decision d)"
  by (simp add: reject_infeasible_def Let_def)

lemma reject_recovery_not_decision [simp]: "reject_recovery ctx codes details w rows \<noteq> Inr (Decision d)"
  by (simp add: reject_recovery_def Let_def)

lemma selection_pool_subset: "set (selection_pool rec items) \<subseteq> set items"
  by (auto simp: selection_pool_def Let_def)

lemma selection_pool_Nil_iff [simp]: "selection_pool rec items = [] \<longleftrightarrow> items = []"
  by (auto simp: selection_pool_def Let_def filter_empty_conv)

lemma selection_pool_empty [simp]: "selection_pool rec [] = []"
  by simp

lemma recovery_order_subset: "set (recovery_order wanted items) \<subseteq> set items"
  by (auto simp: recovery_order_def)

lemma certify_subset: "certify items = (items1, rows, codes) \<Longrightarrow> set items1 \<subseteq> set items"
  by (auto simp: certify_def certified_def split: if_splits)

text \<open>The items that reach the choice: certified where possible, at the attainable floor or above.\<close>

definition shortlisted :: "route_context \<Rightarrow> item list \<Rightarrow> item list" where
  "shortlisted ctx items =
     (let items1 = fst (certify items)
      in filter (\<lambda>i. attainable_floor (rc_plan ctx) items1 \<le> item_rank i) items1)"

definition final_items :: "route_context \<Rightarrow> item list \<Rightarrow> item list" where
  "final_items ctx items = (case rc_recovery ctx of None \<Rightarrow> shortlisted ctx items
     | Some wanted \<Rightarrow> recovery_order wanted (shortlisted ctx items))"

lemma choose_route_Decision:
  assumes "choose_route ctx codes0 details0 rows0 items = Inr (Decision d)"
  obtains i rest codes details where
    "selection_pool (rc_recovery ctx \<noteq> None) (final_items ctx items) = i # rest"
    "decide ctx codes details i = Inr (Decision d)"
    "rd_floor_waiver_rules details = map fe_rule_id
       (waived_floors (rc_plan ctx) (attainable_floor (rc_plan ctx) (fst (certify items))))
     \<or> waived_floors (rc_plan ctx) (attainable_floor (rc_plan ctx) (fst (certify items))) = []"
proof -
  obtain items1 rows1 codes1 where c: "certify items = (items1, rows1, codes1)" by (metis prod_cases3)
  show ?thesis
    using assms
    by (cases "rc_recovery ctx")
      (auto simp: choose_route_def c Let_def bind_res_Inr_iff final_items_def shortlisted_def
        split: if_splits list.splits intro!: that)
qed

lemma final_items_subset: "set (final_items ctx items) \<subseteq> set (fst (certify items))"
  using recovery_order_subset [of _ "shortlisted ctx items"]
  by (auto simp: final_items_def shortlisted_def Let_def split: option.splits)

lemma select_route_Decision:
  assumes "select_route dg ctx = Inr (Decision d)"
  obtains as i rest codes details where
    "map_res (assess dg ctx) (plan_candidates (rc_plan ctx)) = Inr as"
    "selection_pool (rc_recovery ctx \<noteq> None) (final_items ctx (feasible_items as)) = i # rest"
    "i \<in> set (feasible_items as)"
    "decide ctx codes details i = Inr (Decision d)"
    "\<not> floor_over_ceiling (rc_limits ctx)" "\<not> hard_floor_over_ceiling ctx"
proof -
  obtain as codes0 details0 where sel:
    "map_res (assess dg ctx) (plan_candidates (rc_plan ctx)) = Inr as"
    "choose_route ctx codes0 details0 (removed_rows as) (feasible_items as) = Inr (Decision d)"
    "\<not> floor_over_ceiling (rc_limits ctx)" "\<not> hard_floor_over_ceiling ctx"
    using assms by (auto simp: select_route_def Let_def bind_res_Inr_iff split: if_splits)
  from sel(2) show ?thesis
  proof (rule choose_route_Decision)
    fix i rest codes details
    assume i: "selection_pool (rc_recovery ctx \<noteq> None) (final_items ctx (feasible_items as)) = i # rest"
      "decide ctx codes details i = Inr (Decision d)"
    obtain items1 rows1 codes1 where c: "certify (feasible_items as) = (items1, rows1, codes1)" by (metis prod_cases3)
    have "i \<in> set (feasible_items as)"
      using selection_pool_subset [of "rc_recovery ctx \<noteq> None" "final_items ctx (feasible_items as)"]
        final_items_subset [of ctx "feasible_items as"] certify_subset [OF c] i(1) c by auto
    with sel i show ?thesis by (intro that)
  qed
qed

lemma decide_Decision:
  assumes "decide ctx codes details i = Inr (Decision d)"
  shows "rt_selected_model_alias d = cand_model (it_candidate i)"
    and "rt_reasoning_effort d = cand_effort (it_candidate i)"
    and "rt_model_tier d = me_tier_rank (it_model i)"
    and "rt_provider_model_id d = me_provider_model_id (it_model i)"
    and "rt_estimated_cost d = it_cost i"
    and "rt_executable d \<longleftrightarrow> readiness_blockers ctx i = []"
    and "db_effective_limits d = rc_limits ctx"
    and "rt_validation_requirements d = rc_validation ctx"
    and "db_readiness_blockers d = stable_unique (readiness_blockers ctx i)"
  using assms by (auto simp: decide_def Let_def bind_res_Inr_iff)

section \<open>What a feasible item satisfies\<close>

lemma map_res_member:
  assumes "map_res f xs = Inr ys" and "y \<in> set ys"
  shows "\<exists>x \<in> set xs. f x = Inr y"
proof -
  obtain k where k: "k < length ys" "y = ys ! k" using assms(2) by (metis in_set_conv_nth)
  then have "k < length xs" using map_res_Inr_length [OF assms(1)] by simp
  with map_res_Inr_nth [OF assms(1) this] k(2) show ?thesis by force
qed

lemma map_res_covers:
  assumes "map_res f xs = Inr ys" and "x \<in> set xs"
  shows "\<exists>y \<in> set ys. f x = Inr y"
proof -
  obtain k where k: "k < length xs" "x = xs ! k" using assms(2) by (metis in_set_conv_nth)
  with map_res_Inr_nth [OF assms(1) k(1)] map_res_Inr_length [OF assms(1)] show ?thesis by auto
qed

lemma assess_Inr:
  "assess dg ctx c = Inr a \<longleftrightarrow> (\<exists>m. map_of (rc_models ctx) (cand_model c) = Some m
     \<and> cand_effort c \<in> set (me_reasoning_efforts m)
     \<and> a = \<lparr>as_item = item_of dg ctx c m, as_violations = item_violations dg ctx c m,
             as_miss = snd (snd (budget_of dg ctx m))\<rparr>)"
  by (auto simp: assess_def bind_res_Inr_iff)

lemma feasible_item_iff:
  assumes "map_res (assess dg ctx) cands = Inr as"
  shows "i \<in> set (feasible_items as) \<longleftrightarrow> (\<exists>c m. c \<in> set cands
     \<and> map_of (rc_models ctx) (cand_model c) = Some m \<and> cand_effort c \<in> set (me_reasoning_efforts m)
     \<and> i = item_of dg ctx c m \<and> item_violations dg ctx c m = [])"
proof -
  have "i \<in> set (feasible_items as) \<longleftrightarrow> (\<exists>a \<in> set as. as_violations a = [] \<and> i = as_item a)"
    by (auto simp: feasible_items_def)
  also have "\<dots> \<longleftrightarrow> (\<exists>c \<in> set cands. \<exists>a. assess dg ctx c = Inr a \<and> as_violations a = [] \<and> i = as_item a)"
    using map_res_member [OF assms] map_res_covers [OF assms] by fastforce
  also have "\<dots> \<longleftrightarrow> (\<exists>c m. c \<in> set cands
     \<and> map_of (rc_models ctx) (cand_model c) = Some m \<and> cand_effort c \<in> set (me_reasoning_efforts m)
     \<and> i = item_of dg ctx c m \<and> item_violations dg ctx c m = [])" (is "?L \<longleftrightarrow> ?R")
  proof
    show "?L \<Longrightarrow> ?R" unfolding assess_Inr by auto
    assume ?R
    then obtain c m where cm: "c \<in> set cands" "map_of (rc_models ctx) (cand_model c) = Some m"
      "cand_effort c \<in> set (me_reasoning_efforts m)" "i = item_of dg ctx c m" "item_violations dg ctx c m = []"
      by blast
    then have "assess dg ctx c = Inr \<lparr>as_item = i, as_violations = [], as_miss = snd (snd (budget_of dg ctx m))\<rparr>"
      by (simp add: assess_Inr)
    with cm(1) show ?L by force
  qed
  finally show ?thesis .
qed

text \<open>Both the expected quote and the cache-miss quote meet the hard budget bounds.\<close>

lemma budget_of_cost: "fst (budget_of dg ctx m) = quote dg ctx (rc_request ctx) m"
  by (simp add: budget_of_def Let_def)

lemma budget_of_violations:
  "fs_violations (fst (snd (budget_of dg ctx m))) = [] \<longleftrightarrow>
     fs_violations (check_budget (quote dg ctx (rc_request ctx) m) (rc_limits ctx) (rc_env ctx)) = []
     \<and> (ce_cache_read_tokens (quote dg ctx (rc_request ctx) m) \<noteq> 0 \<longrightarrow>
          fs_violations (check_budget (quote dg ctx (cache_miss_request (rc_request ctx)) m)
            (rc_limits ctx) (rc_env ctx)) = [])"
  by (simp add: budget_of_def Let_def combined_budget_def)

lemma budget_of_blockers:
  "fs_blockers (fst (snd (budget_of dg ctx m))) = [] \<longleftrightarrow>
     fs_blockers (check_budget (quote dg ctx (rc_request ctx) m) (rc_limits ctx) (rc_env ctx)) = []
     \<and> (ce_cache_read_tokens (quote dg ctx (rc_request ctx) m) \<noteq> 0 \<longrightarrow>
          fs_blockers (check_budget (quote dg ctx (cache_miss_request (rc_request ctx)) m)
            (rc_limits ctx) (rc_env ctx)) = []
          \<and> ce_status (quote dg ctx (cache_miss_request (rc_request ctx)) m) = Cost_known)"
  by (auto simp: budget_of_def Let_def combined_budget_def)

lemma route_violations_Nil_iff:
  "route_violations ctx m health = [] \<longleftrightarrow> capable (rc_request ctx) m
     \<and> effective_floor ctx \<le> me_tier_rank m \<and> \<not> above_ceiling (rc_limits ctx) (me_tier_rank m)
     \<and> \<not> health_excluded ctx m health"
  by (auto simp: route_violations_def check_capabilities_clear)

section \<open>What preparation establishes\<close>

lemma recovery_plan_Inr:
  assumes "recovery_plan recovery models plan0 = Inr plan"
  shows "plan_hard_floor plan = plan_hard_floor plan0" and "plan_preferred_floor plan = plan_preferred_floor plan0"
    and "plan_floors plan = plan_floors plan0" and "plan_rationale_codes plan = plan_rationale_codes plan0"
    and "plan_matched_rules plan = plan_matched_rules plan0"
    and "\<exists>extras. plan_candidates plan = plan_candidates plan0 @ extras
          \<and> (\<forall>c \<in> set extras. supported_pair models (cand_pair c))"
    and "recovery = None \<Longrightarrow> plan = plan0"
  using assms by (auto simp: recovery_plan_def bind_res_Inr_iff Let_def list_all_iff split: option.splits)

lemma prepare_Inr:
  assumes "prepare dg r c env b recovery = Inr ctx"
  obtains plan0 where
    "resolve_limits r env b = Inr (rc_limits ctx)" "build_candidates c b (rc_limits ctx) = Inr plan0"
    "recovery_plan recovery (bundle_models b) plan0 = Inr (rc_plan ctx)"
    "determine_validation r env b = Inr (rc_validation ctx)"
    "rc_request ctx = r" "rc_classification ctx = c" "rc_env ctx = env" "rc_bundle ctx = b"
    "rc_recovery ctx = recovery" "set (map fst (env_models env)) \<subseteq> set (map fst (bundle_models b))"
  using assms by (auto simp: prepare_def bind_res_Inr_iff Let_def)

text \<open>
  The hard constraints on a model, as a predicate on the inputs and the effective limits: it is
  enabled, can serve the request, lies within the tier bounds and at the hard floor or above,
  and no health evidence excludes it.
\<close>

definition permitted :: "request \<Rightarrow> environment \<Rightarrow> policy_bundle \<Rightarrow> limits \<Rightarrow> candidate_plan
    \<Rightarrow> string \<Rightarrow> model_entry \<Rightarrow> bool" where
  "permitted r env b l plan alias m =
     (configured_enabled m \<and> capable r m \<and> within_limits (me_tier_rank m) l
      \<and> plan_hard_floor plan \<le> me_tier_rank m
      \<and> (case map_of (env_models env) alias of None \<Rightarrow> True
         | Some h \<Rightarrow> mh_state h \<noteq> UNHEALTHY \<and> mh_usable h \<and> mh_account_access h \<noteq> Access_unavailable))"

text \<open>The hard budget bounds hold for the expected quote and, if it counts on the cache, for a miss.\<close>

definition affordable :: "digests \<Rightarrow> route_context \<Rightarrow> model_entry \<Rightarrow> bool" where
  "affordable dg ctx m =
     (let fits = (\<lambda>r. fs_violations (check_budget (quote dg ctx r m) (rc_limits ctx) (rc_env ctx)) = [])
      in fits (rc_request ctx)
         \<and> (cache_read_tokens (rq_context (rc_request ctx)) \<noteq> 0 \<longrightarrow> fits (cache_miss_request (rc_request ctx))))"

lemma bundle_exclude_states:
  "bundle_ok b \<Longrightarrow> set (pol_health_exclude_states (pb_policy b)) = {UNHEALTHY}"
  by (auto simp: policy_ok_def health_policy_ok_def dest!: bundle_okD(1))

lemma quote_cache_read: "ce_cache_read_tokens (quote dg ctx r m) = cache_read_tokens (rq_context r)"
  by (simp add: quote_def estimate_fields)

lemma item_violations_Nil_iff:
  assumes "bundle_ok (rc_bundle ctx)"
  shows "item_violations dg ctx c m = [] \<longleftrightarrow>
     permitted (rc_request ctx) (rc_env ctx) (rc_bundle ctx) (rc_limits ctx) (rc_plan ctx) (cand_model c) m
     \<and> affordable dg ctx m"
proof -
  have "effective_floor ctx \<le> me_tier_rank m \<and> \<not> above_ceiling (rc_limits ctx) (me_tier_rank m)
      \<longleftrightarrow> plan_hard_floor (rc_plan ctx) \<le> me_tier_rank m \<and> within_limits (me_tier_rank m) (rc_limits ctx)"
    by (auto simp: effective_floor_def above_ceiling_def within_limits_def split: option.splits)
  moreover have "\<not> health_excluded ctx m (health_of ctx c) \<longleftrightarrow> configured_enabled m
      \<and> (case map_of (env_models (rc_env ctx)) (cand_model c) of None \<Rightarrow> True
         | Some h \<Rightarrow> mh_state h \<noteq> UNHEALTHY \<and> mh_usable h \<and> mh_account_access h \<noteq> Access_unavailable)"
    using bundle_exclude_states [OF assms]
    by (auto simp: health_excluded_def health_of_def split: option.splits)
  ultimately show ?thesis
    by (auto simp: item_violations_def route_violations_Nil_iff budget_of_violations permitted_def
        affordable_def Let_def quote_cache_read)
qed

section \<open>Selected routes meet every hard constraint\<close>

lemma item_of_fields [simp]:
  "it_candidate (item_of dg ctx c m) = c" "it_model (item_of dg ctx c m) = m"
  "it_cost (item_of dg ctx c m) = quote dg ctx (rc_request ctx) m"
  "it_budget (item_of dg ctx c m) = fst (snd (budget_of dg ctx m))"
  "it_health (item_of dg ctx c m) = map_of (env_models (rc_env ctx)) (cand_model c)"
  by (simp_all add: item_of_def budget_of_cost health_of_def)

lemma select_route_sound:
  assumes b: "bundle_ok (rc_bundle ctx)" and sel: "select_route dg ctx = Inr (Decision d)"
  obtains cand m codes details where
    "cand \<in> set (plan_candidates (rc_plan ctx))"
    "map_of (rc_models ctx) (cand_model cand) = Some m" "cand_effort cand \<in> set (me_reasoning_efforts m)"
    "permitted (rc_request ctx) (rc_env ctx) (rc_bundle ctx) (rc_limits ctx) (rc_plan ctx) (cand_model cand) m"
    "affordable dg ctx m"
    "decide ctx codes details (item_of dg ctx cand m) = Inr (Decision d)"
  using sel
proof (rule select_route_Decision)
  fix as i rest codes details
  assume as: "map_res (assess dg ctx) (plan_candidates (rc_plan ctx)) = Inr as"
    and i: "i \<in> set (feasible_items as)" and d: "decide ctx codes details i = Inr (Decision d)"
  obtain cand m where "cand \<in> set (plan_candidates (rc_plan ctx))"
    "map_of (rc_models ctx) (cand_model cand) = Some m" "cand_effort cand \<in> set (me_reasoning_efforts m)"
    "i = item_of dg ctx cand m" "item_violations dg ctx cand m = []"
    using i unfolding feasible_item_iff [OF as] by blast
  with d that show thesis by (simp add: item_violations_Nil_iff [OF b])
qed

section \<open>Every emitted code is registered\<close>

lemma check_budget_codes: "set (fs_rationale_codes (check_budget cost l env)) \<subseteq> set RationaleCode"
  by (auto simp: check_budget_def Let_def split_beta RationaleCode_def)

lemma budget_of_codes: "set (fs_rationale_codes (fst (snd (budget_of dg ctx m)))) \<subseteq> set RationaleCode"
  using check_budget_codes by (simp add: budget_of_def Let_def combined_budget_def)

lemma registered_append [simp]: "registered ctx (xs @ ys) \<longleftrightarrow> registered ctx xs \<and> registered ctx ys"
  by (auto simp: registered_def)

lemma registered_filter: "registered ctx xs \<Longrightarrow> registered ctx (filter P xs)"
  by (auto simp: registered_def)

lemma registered_known:
  "bundle_ok (rc_bundle ctx) \<Longrightarrow> set codes \<subseteq> set RationaleCode \<Longrightarrow> registered ctx codes"
  using bundle_okD(5) [of "rc_bundle ctx"] unfolding registered_def policy_refs_ok_def
  by (blast intro: order_trans)

text \<open>A context that came out of preparation on an accepted bundle.\<close>

definition prepared :: "digests \<Rightarrow> route_context \<Rightarrow> bool" where
  "prepared dg ctx = (bundle_ok (rc_bundle ctx) \<and>
     prepare dg (rc_request ctx) (rc_classification ctx) (rc_env ctx) (rc_bundle ctx) (rc_recovery ctx) = Inr ctx)"

lemma preparedI: "bundle_ok b \<Longrightarrow> prepare dg r c env b recovery = Inr ctx \<Longrightarrow> prepared dg ctx"
  unfolding prepared_def by (rule prepare_Inr, assumption) simp

lemma prepared_bundle: "prepared dg ctx \<Longrightarrow> bundle_ok (rc_bundle ctx)"
  by (simp add: prepared_def)

lemma prepared_plan:
  assumes "prepared dg ctx"
  obtains plan0 where
    "build_candidates (rc_classification ctx) (rc_bundle ctx) (rc_limits ctx) = Inr plan0"
    "recovery_plan (rc_recovery ctx) (rc_models ctx) plan0 = Inr (rc_plan ctx)"
  using assms by (auto simp: prepared_def elim!: prepare_Inr)

lemma prepared_candidates:
  assumes "prepared dg ctx" and "cand \<in> set (plan_candidates (rc_plan ctx))"
  shows "supported_pair (rc_models ctx) (cand_pair cand)"
  using assms(1)
proof (rule prepared_plan)
  fix plan0
  assume "build_candidates (rc_classification ctx) (rc_bundle ctx) (rc_limits ctx) = Inr plan0"
    and "recovery_plan (rc_recovery ctx) (rc_models ctx) plan0 = Inr (rc_plan ctx)"
  with recovery_plan_Inr(6) [OF this(2)] plan_pairs_supported [OF prepared_bundle [OF assms(1)] this(1)] assms(2)
  show ?thesis by auto
qed

lemma base_codes_registered:
  assumes p: "prepared dg ctx"
  shows "registered ctx (base_codes ctx)"
proof -
  obtain plan0 where plan: "build_candidates (rc_classification ctx) (rc_bundle ctx) (rc_limits ctx) = Inr plan0"
    "recovery_plan (rc_recovery ctx) (rc_models ctx) plan0 = Inr (rc_plan ctx)"
    using prepared_plan [OF p] by blast
  have "registered ctx (plan_rationale_codes (rc_plan ctx))"
    using plan_rule_inv(1) [OF prepared_bundle [OF p] plan(1)] recovery_plan_Inr(4) [OF plan(2)]
    by (simp add: registered_def)
  moreover have "set (concat (map fs_rationale_codes (capability_results ctx))) \<subseteq> set RationaleCode"
    using check_capabilities_codes by (fastforce simp: capability_results_def)
  ultimately show ?thesis
    using registered_known [OF prepared_bundle [OF p]]
    by (auto simp: base_codes_def initial_codes_def RationaleCode_def)
qed

lemma rejection_codes_registered:
  assumes "bundle_ok (rc_bundle ctx)" and "registered ctx codes"
  shows "registered ctx (rejection_codes f codes)"
  using registered_filter [OF assms(2)] registered_known [OF assms(1)]
  by (auto simp: rejection_codes_def RationaleCode_def)

lemma selection_codes_registered:
  assumes b: "bundle_ok (rc_bundle ctx)" and codes: "registered ctx codes"
    and budget: "set (fs_rationale_codes (it_budget i)) \<subseteq> set RationaleCode"
  shows "registered ctx (selection_codes i codes)"
proof -
  note known = registered_known [OF b]
  have lits: "registered ctx [''MODEL_DEGRADED'']" "registered ctx [''CONSTRAINED_FALLBACK'']"
    "registered ctx [''LONG_CONTEXT'']" "registered ctx [''ESTIMATE_UNAVAILABLE'']" "registered ctx []"
    by (rule known, simp add: RationaleCode_def)+
  show ?thesis
    using codes lits known [OF budget] registered_filter
    by (simp add: selection_codes_def Let_def split: option.split)
qed

section \<open>Which failures are possible\<close>

lemma reject_total:
  assumes "bundle_ok (rc_bundle ctx)" and "registered ctx codes"
  shows "\<exists>j. reject ctx codes details f vs re = Inr (Rejection j) \<and> rj_failure_type j = f
     \<and> rj_violated_constraints j = stable_unique vs \<and> rj_retryable j = re"
  using rejection_codes_registered [OF assms] by (simp add: reject_def Let_def)

lemma decide_total:
  assumes "bundle_ok (rc_bundle ctx)" and "registered ctx codes"
    and "set (fs_rationale_codes (it_budget i)) \<subseteq> set RationaleCode"
  shows "\<exists>d. decide ctx codes details i = Inr (Decision d)"
  using selection_codes_registered [OF assms] by (simp add: decide_def Let_def)

lemma assess_total:
  assumes "prepared dg ctx"
  shows "\<exists>as. map_res (assess dg ctx) (plan_candidates (rc_plan ctx)) = Inr as"
proof (rule map_res_Inr_all)
  fix cand
  assume "cand \<in> set (plan_candidates (rc_plan ctx))"
  from prepared_candidates [OF assms this] obtain m where
    "map_of (rc_models ctx) (cand_model cand) = Some m" "cand_effort cand \<in> set (me_reasoning_efforts m)"
    by (auto simp: supported_pair_def split: option.splits)
  then show "\<exists>a. assess dg ctx cand = Inr a" by (simp add: assess_Inr)
qed

text \<open>The attainable floor is attained: the shortlist of a nonempty feasible list is not empty.\<close>

lemma certify_Nil_iff: "fst (certify items) = [] \<longleftrightarrow> items = []"
  by (auto simp: certify_def certified_def)

lemma attainable_floor_attained:
  assumes "items \<noteq> []" and "\<forall>i \<in> set items. plan_hard_floor plan \<le> item_rank i"
  shows "\<exists>i \<in> set items. attainable_floor plan items \<le> item_rank i"
proof (cases "attained_floors plan items = []")
  case True
  then show ?thesis using assms by (cases items) (auto simp: attainable_floor_def)
next
  case False
  then have "Max (set (attained_floors plan items)) \<in> set (attained_floors plan items)" by (intro Max_in) auto
  with False show ?thesis by (auto simp: attainable_floor_def attained_floors_def list_ex_iff)
qed

lemma shortlisted_not_Nil:
  assumes "items \<noteq> []" and "\<forall>i \<in> set items. plan_hard_floor (rc_plan ctx) \<le> item_rank i"
  shows "shortlisted ctx items \<noteq> []"
proof -
  obtain items1 rows codes where c: "certify items = (items1, rows, codes)" by (metis prod_cases3)
  have "items1 \<noteq> []" using certify_Nil_iff [of items] assms(1) c by simp
  moreover have "\<forall>i \<in> set items1. plan_hard_floor (rc_plan ctx) \<le> item_rank i"
    using assms(2) certify_subset [OF c] by auto
  ultimately show ?thesis
    using attainable_floor_attained [of items1 "rc_plan ctx"] c
    by (auto simp: shortlisted_def Let_def filter_empty_conv)
qed

definition waiver_supported :: "route_context \<Rightarrow> removed_candidate list \<Rightarrow> item list \<Rightarrow> bool" where
  "waiver_supported ctx rows items =
     (let attainable = attainable_floor (rc_plan ctx) (fst (certify items))
      in waived_floors (rc_plan ctx) attainable = []
         \<or> waiver_evidence ctx attainable (rows @ fst (snd (certify items))) \<noteq> [])"

lemma certify_codes: "set (snd (snd (certify items))) \<subseteq> set RationaleCode"
  by (auto simp: certify_def RationaleCode_def)

lemma reject_recovery_total:
  assumes "bundle_ok (rc_bundle ctx)" and "registered ctx codes"
  shows "\<exists>j. reject_recovery ctx codes details w rows = Inr (Rejection j)"
proof -
  have "\<exists>j. reject ctx codes details f vs re = Inr (Rejection j)" for f vs re
    using reject_total [OF assms] by blast
  then show ?thesis by (simp add: reject_recovery_def Let_def)
qed

lemma choose_route_outcome:
  assumes b: "bundle_ok (rc_bundle ctx)" and codes: "registered ctx codes0"
    and items: "items \<noteq> []" "\<forall>i \<in> set items. plan_hard_floor (rc_plan ctx) \<le> item_rank i"
    and known: "\<forall>i \<in> set items. set (fs_rationale_codes (it_budget i)) \<subseteq> set RationaleCode"
  shows "\<not> waiver_supported ctx rows items \<Longrightarrow> choose_route ctx codes0 details rows items = Inl ConfigurationError"
    and "waiver_supported ctx rows items \<Longrightarrow> final_items ctx items \<noteq> [] \<Longrightarrow>
      \<exists>d. choose_route ctx codes0 details rows items = Inr (Decision d)"
    and "waiver_supported ctx rows items \<Longrightarrow> final_items ctx items = [] \<Longrightarrow> rc_recovery ctx \<noteq> None
      \<and> (\<exists>j. choose_route ctx codes0 details rows items = Inr (Rejection j))"
proof -
  obtain items1 rows1 codes1 where c: "certify items = (items1, rows1, codes1)" by (metis prod_cases3)
  let ?codes = "codes0 @ codes1 @ (if waived_floors (rc_plan ctx) (attainable_floor (rc_plan ctx) items1) \<noteq> []
      then [''FLOOR_RELAXED''] else [])"
  have "registered ctx codes1" using registered_known [OF b certify_codes [of items]] c by simp
  then have reg: "registered ctx ?codes"
    using codes registered_known [OF b] by (auto simp: RationaleCode_def)
  show "\<not> waiver_supported ctx rows items \<Longrightarrow> choose_route ctx codes0 details rows items = Inl ConfigurationError"
    by (simp add: choose_route_def c Let_def waiver_supported_def)
  assume w: "waiver_supported ctx rows items"
  show "\<exists>d. choose_route ctx codes0 details rows items = Inr (Decision d)" if some: "final_items ctx items \<noteq> []"
  proof -
    obtain i rest where pool: "selection_pool (rc_recovery ctx \<noteq> None) (final_items ctx items) = i # rest"
      using some by (meson list.exhaust selection_pool_Nil_iff)
    then have "i \<in> set items"
      using selection_pool_subset [of "rc_recovery ctx \<noteq> None" "final_items ctx items"]
        final_items_subset [of ctx items] certify_subset [OF c] c by auto
    then have "\<exists>d. decide ctx ?codes det i = Inr (Decision d)" for det
      using decide_total [OF b reg] known by blast
    then show ?thesis
      using w pool some
      by (cases "rc_recovery ctx")
        (auto simp: choose_route_def c Let_def waiver_supported_def final_items_def shortlisted_def)
  qed
  assume none: "final_items ctx items = []"
  then have "rc_recovery ctx \<noteq> None"
    using shortlisted_not_Nil [OF items] by (cases "rc_recovery ctx") (auto simp: final_items_def)
  then obtain wanted where wanted: "rc_recovery ctx = Some wanted" by auto
  show "rc_recovery ctx \<noteq> None \<and> (\<exists>j. choose_route ctx codes0 details rows items = Inr (Rejection j))"
    using w none wanted reject_recovery_total [OF b reg]
    by (auto simp: choose_route_def c Let_def waiver_supported_def final_items_def shortlisted_def)
qed

section \<open>The outcome of a route without recovery\<close>

text \<open>A model is open to the request when the hard constraints and the hard budget bounds admit it.\<close>

definition open_model :: "digests \<Rightarrow> route_context \<Rightarrow> string \<Rightarrow> model_entry \<Rightarrow> bool" where
  "open_model dg ctx alias m =
     (permitted (rc_request ctx) (rc_env ctx) (rc_bundle ctx) (rc_limits ctx) (rc_plan ctx) alias m
      \<and> affordable dg ctx m)"

lemma open_model_candidate:
  assumes p: "prepared dg ctx" and m: "(a, m) \<in> set (rc_models ctx)" "open_model dg ctx a m"
  obtains cand where "cand \<in> set (plan_candidates (rc_plan ctx))" "cand_model cand = a"
    "cand_effort cand \<in> set (me_reasoning_efforts m)" "item_violations dg ctx cand m = []"
proof -
  have b: "bundle_ok (rc_bundle ctx)" by (rule prepared_bundle [OF p])
  obtain plan0 where plan: "build_candidates (rc_classification ctx) (rc_bundle ctx) (rc_limits ctx) = Inr plan0"
    "recovery_plan (rc_recovery ctx) (rc_models ctx) plan0 = Inr (rc_plan ctx)"
    using prepared_plan [OF p] by blast
  have "configured_enabled m" "within_limits (me_tier_rank m) (rc_limits ctx)"
    using m(2) by (auto simp: open_model_def permitted_def)
  from plan_complete [OF b plan(1) m(1) this] obtain cand where cand:
    "cand \<in> set (plan_candidates (rc_plan ctx))" "cand_model cand = a"
    using recovery_plan_Inr(6) [OF plan(2)] by fastforce
  have "map_of (rc_models ctx) a = Some m"
    using bundle_okD(2) [OF b] m(1) by (simp add: catalog_ok_def)
  then have "cand_effort cand \<in> set (me_reasoning_efforts m)"
    using prepared_candidates [OF p cand(1)] cand(2) by (simp add: supported_pair_def)
  moreover have "item_violations dg ctx cand m = []"
    using m(2) cand(2) by (simp add: item_violations_Nil_iff [OF b] open_model_def)
  ultimately show thesis using cand that by blast
qed

lemma feasible_items_open:
  assumes p: "prepared dg ctx" and as: "map_res (assess dg ctx) (plan_candidates (rc_plan ctx)) = Inr as"
  shows "feasible_items as \<noteq> [] \<longleftrightarrow> (\<exists>(a, m) \<in> set (rc_models ctx). open_model dg ctx a m)"
proof
  have b: "bundle_ok (rc_bundle ctx)" by (rule prepared_bundle [OF p])
  show "\<exists>(a, m) \<in> set (rc_models ctx). open_model dg ctx a m" if "feasible_items as \<noteq> []"
  proof -
    obtain i where "i \<in> set (feasible_items as)" using \<open>feasible_items as \<noteq> []\<close> by (metis last_in_set)
    then obtain c m where "map_of (rc_models ctx) (cand_model c) = Some m" "item_violations dg ctx c m = []"
      unfolding feasible_item_iff [OF as] by blast
    then show ?thesis
      by (auto simp: item_violations_Nil_iff [OF b] open_model_def dest!: map_of_SomeD)
  qed
  assume "\<exists>(a, m) \<in> set (rc_models ctx). open_model dg ctx a m"
  then obtain a m where am: "(a, m) \<in> set (rc_models ctx)" "open_model dg ctx a m" by auto
  have "map_of (rc_models ctx) a = Some m"
    using bundle_okD(2) [OF b] am(1) by (simp add: catalog_ok_def)
  with open_model_candidate [OF p am] have "\<exists>i. i \<in> set (feasible_items as)"
    unfolding feasible_item_iff [OF as] by metis
  then show "feasible_items as \<noteq> []" by auto
qed

lemma open_model_no_conflict:
  assumes "(a, m) \<in> set (rc_models ctx)" and "open_model dg ctx a m"
  shows "\<not> list_all (\<lambda>f. fs_violations f \<noteq> []) (capability_results ctx)"
    and "\<not> floor_over_ceiling (rc_limits ctx)" and "\<not> hard_floor_over_ceiling ctx"
proof -
  have "capable (rc_request ctx) m" using assms(2) by (simp add: open_model_def permitted_def)
  then show "\<not> list_all (\<lambda>f. fs_violations f \<noteq> []) (capability_results ctx)"
    using assms(1) check_capabilities_clear by (fastforce simp: capability_results_def list_all_iff)
  have "within_limits (me_tier_rank m) (rc_limits ctx)" "plan_hard_floor (rc_plan ctx) \<le> me_tier_rank m"
    using assms(2) by (simp_all add: open_model_def permitted_def)
  then show "\<not> floor_over_ceiling (rc_limits ctx)" "\<not> hard_floor_over_ceiling ctx"
    by (auto simp: within_limits_def floor_over_ceiling_def hard_floor_over_ceiling_def above_ceiling_def
        split: option.splits)
qed

lemma reject_infeasible_total:
  assumes "bundle_ok (rc_bundle ctx)" and "registered ctx codes"
  shows "\<exists>j. reject_infeasible ctx codes details rows = Inr (Rejection j)"
proof -
  have "\<exists>j. reject ctx codes details f vs re = Inr (Rejection j)" for f vs re
    using reject_total [OF assms] by blast
  then show ?thesis by (simp add: reject_infeasible_def Let_def)
qed

lemma loop_codes_registered:
  assumes "prepared dg ctx"
  shows "registered ctx (base_codes ctx @ degraded_codes as @ cap_codes rows)"
proof -
  have "set (degraded_codes as) \<subseteq> set RationaleCode" "set (cap_codes rows) \<subseteq> set RationaleCode"
    by (auto simp: degraded_codes_def cap_codes_def RationaleCode_def split: option.splits if_splits)
  then show ?thesis
    using base_codes_registered [OF assms] registered_known [OF prepared_bundle [OF assms]] by simp
qed

lemma feasible_items_facts:
  assumes p: "prepared dg ctx" and as: "map_res (assess dg ctx) (plan_candidates (rc_plan ctx)) = Inr as"
  shows "\<forall>i \<in> set (feasible_items as). plan_hard_floor (rc_plan ctx) \<le> item_rank i"
    and "\<forall>i \<in> set (feasible_items as). set (fs_rationale_codes (it_budget i)) \<subseteq> set RationaleCode"
proof -
  have "plan_hard_floor (rc_plan ctx) \<le> item_rank i
      \<and> set (fs_rationale_codes (it_budget i)) \<subseteq> set RationaleCode"
    if i: "i \<in> set (feasible_items as)" for i
  proof -
    obtain c m where "i = item_of dg ctx c m" "item_violations dg ctx c m = []"
      using i unfolding feasible_item_iff [OF as] by blast
    then show ?thesis
      using budget_of_codes [of dg ctx m]
      by (simp add: item_violations_Nil_iff [OF prepared_bundle [OF p]] permitted_def)
  qed
  then show "\<forall>i \<in> set (feasible_items as). plan_hard_floor (rc_plan ctx) \<le> item_rank i"
    "\<forall>i \<in> set (feasible_items as). set (fs_rationale_codes (it_budget i)) \<subseteq> set RationaleCode"
    by blast+
qed

lemma select_route_outcome:
  assumes p: "prepared dg ctx" and none: "rc_recovery ctx = None"
    and as: "map_res (assess dg ctx) (plan_candidates (rc_plan ctx)) = Inr as"
  defines "found \<equiv> \<exists>(a, m) \<in> set (rc_models ctx). open_model dg ctx a m"
  shows "\<not> found \<Longrightarrow> \<exists>j. select_route dg ctx = Inr (Rejection j)"
    and "found \<Longrightarrow> waiver_supported ctx (removed_rows as) (feasible_items as) \<Longrightarrow>
      \<exists>d. select_route dg ctx = Inr (Decision d)"
    and "found \<Longrightarrow> \<not> waiver_supported ctx (removed_rows as) (feasible_items as) \<Longrightarrow>
      select_route dg ctx = Inl ConfigurationError"
proof -
  have b: "bundle_ok (rc_bundle ctx)" by (rule prepared_bundle [OF p])
  have rejects: "\<exists>j. reject ctx (base_codes ctx) details f vs re = Inr (Rejection j)" for details f vs re
    using reject_total [OF b base_codes_registered [OF p]] by blast
  note outcome = choose_route_outcome [OF b loop_codes_registered [OF p] _ feasible_items_facts [OF p as]]
  show "\<exists>j. select_route dg ctx = Inr (Rejection j)" if "\<not> found"
    using that feasible_items_open [OF p as] rejects reject_infeasible_total [OF b loop_codes_registered [OF p]]
    by (simp add: select_route_def as Let_def found_def)
  assume f: "found"
  then have items: "feasible_items as \<noteq> []" using feasible_items_open [OF p as] by (simp add: found_def)
  have final: "final_items ctx (feasible_items as) \<noteq> []"
    using shortlisted_not_Nil [OF items feasible_items_facts(1) [OF p as]] none by (simp add: final_items_def)
  obtain a m where am: "(a, m) \<in> set (rc_models ctx)" "open_model dg ctx a m" using f by (auto simp: found_def)
  note clear = open_model_no_conflict [OF am]
  show "\<exists>d. select_route dg ctx = Inr (Decision d)"
    if "waiver_supported ctx (removed_rows as) (feasible_items as)"
    using outcome(2) [OF items that final] clear items by (simp add: select_route_def as Let_def)
  show "select_route dg ctx = Inl ConfigurationError"
    if "\<not> waiver_supported ctx (removed_rows as) (feasible_items as)"
    using outcome(1) [OF items that] clear items by (simp add: select_route_def as Let_def)
qed

section \<open>Waiving a preferred floor always has evidence\<close>

text \<open>
  The highest tier of the catalog has an enabled model. The loader does not ask for it; without
  it a route may end in a \<open>ConfigurationError\<close>.
\<close>

definition top_tier_enabled :: "policy_bundle \<Rightarrow> bool" where
  "top_tier_enabled b =
     list_ex (\<lambda>(a, m). configured_enabled m
       \<and> list_all (\<lambda>(a', m'). me_tier_rank m' \<le> me_tier_rank m) (bundle_models b)) (bundle_models b)"

lemma dropped_row:
  assumes "i \<in> set items" and "i \<notin> set (fst (certify items))"
  shows "removed_row (it_candidate i) (candidate_blockers i) \<in> set (fst (snd (certify items)))
    \<and> candidate_blockers i \<noteq> []"
  using assms by (auto simp: certify_def certified_def split: if_splits)

lemma attained_floor_le:
  "f \<in> set (plan_floors plan) \<Longrightarrow> fe_strength f = Strength_preferred \<Longrightarrow> i \<in> set items \<Longrightarrow>
   fe_min_tier f \<le> item_rank i \<Longrightarrow> fe_min_tier f \<le> attainable_floor plan items"
proof -
  assume "f \<in> set (plan_floors plan)" "fe_strength f = Strength_preferred" "i \<in> set items"
    "fe_min_tier f \<le> item_rank i"
  then have "fe_min_tier f \<in> set (attained_floors plan items)"
    by (auto simp: attained_floors_def list_ex_iff)
  then show ?thesis by (auto simp: attainable_floor_def)
qed

text \<open>An enabled candidate above the attainable floor leaves a row with a reason.\<close>

lemma evidence_from_candidate:
  assumes as: "map_res (assess dg ctx) (plan_candidates (rc_plan ctx)) = Inr as"
    and cand: "cand \<in> set (plan_candidates (rc_plan ctx))"
    and m: "map_of (rc_models ctx) (cand_model cand) = Some m"
    and f: "f \<in> set (plan_floors (rc_plan ctx))" "fe_strength f = Strength_preferred"
      "fe_min_tier f \<le> me_tier_rank m"
    and waived: "attainable_floor (rc_plan ctx) (fst (certify (feasible_items as))) < fe_min_tier f"
  shows "waiver_evidence ctx (attainable_floor (rc_plan ctx) (fst (certify (feasible_items as))))
           (removed_rows as @ fst (snd (certify (feasible_items as)))) \<noteq> []"
proof -
  let ?items = "feasible_items as"
  let ?A = "attainable_floor (rc_plan ctx) (fst (certify ?items))"
  have rank: "?A < model_rank (rc_models ctx) (cand_model cand)"
    using f(3) waived m by (simp add: model_rank_def)
  obtain a where a: "a \<in> set as" "assess dg ctx cand = Inr a" using map_res_covers [OF as cand] by blast
  then have item: "as_item a = item_of dg ctx cand m" using m by (auto simp: assess_Inr)
  have "\<exists>row \<in> set (removed_rows as @ fst (snd (certify ?items))).
      rm_model row = cand_model cand \<and> rm_constraints row \<noteq> []"
  proof (cases "as_violations a = []")
    case False
    then have "removed_row (it_candidate (as_item a)) (stable_unique (as_violations a)) \<in> set (removed_rows as)"
      using a(1) by (auto simp: removed_rows_def)
    with False item show ?thesis by (force simp: removed_row_def)
  next
    case True
    then have i: "as_item a \<in> set ?items" using a(1) by (auto simp: feasible_items_def)
    have "as_item a \<notin> set (fst (certify ?items))"
      using attained_floor_le [OF f(1,2)] f(3) waived item by (metis item_of_fields(2) leD)
    from dropped_row [OF i this] item show ?thesis by (force simp: removed_row_def)
  qed
  then obtain row where "row \<in> set (removed_rows as @ fst (snd (certify ?items)))"
    "rm_model row = cand_model cand" "rm_constraints row \<noteq> []" by blast
  then have "set (rm_constraints row) \<subseteq> set (waiver_evidence ctx ?A (removed_rows as @ fst (snd (certify ?items))))"
    using rank unfolding waiver_evidence_def by auto
  with \<open>rm_constraints row \<noteq> []\<close> show ?thesis by (metis set_empty subset_empty)
qed

lemma waiver_supported_top:
  assumes p: "prepared dg ctx" and none: "rc_recovery ctx = None" and enabled: "top_tier_enabled (rc_bundle ctx)"
    and as: "map_res (assess dg ctx) (plan_candidates (rc_plan ctx)) = Inr as"
    and items: "feasible_items as \<noteq> []"
  shows "waiver_supported ctx (removed_rows as) (feasible_items as)"
proof (cases "waived_floors (rc_plan ctx) (attainable_floor (rc_plan ctx) (fst (certify (feasible_items as)))) = []")
  case True
  then show ?thesis by (simp add: waiver_supported_def Let_def)
next
  case False
  let ?A = "attainable_floor (rc_plan ctx) (fst (certify (feasible_items as)))"
  obtain f where f: "f \<in> set (plan_floors (rc_plan ctx))" "fe_strength f = Strength_preferred" "?A < fe_min_tier f"
    using False by (auto simp: waived_floors_def filter_empty_conv)
  have b: "bundle_ok (rc_bundle ctx)" by (rule prepared_bundle [OF p])
  have plan: "build_candidates (rc_classification ctx) (rc_bundle ctx) (rc_limits ctx) = Inr (rc_plan ctx)"
    using prepared_plan [OF p] recovery_plan_Inr(7) none by metis
  obtain a m where am: "(a, m) \<in> set (rc_models ctx)" "configured_enabled m"
    "\<forall>(a', m') \<in> set (rc_models ctx). me_tier_rank m' \<le> me_tier_rank m"
    using enabled by (auto simp: top_tier_enabled_def list_ex_iff list_all_iff)
  have lookup: "map_of (rc_models ctx) a = Some m"
    using bundle_okD(2) [OF b] am(1) by (simp add: catalog_ok_def)
  have ranks: "k \<le> me_tier_rank m" if "k \<in> catalog_ranks (rc_models ctx)" for k
    using that am(3) by (auto simp: catalog_ranks_def)
  have min: "minimum_rank (rc_models ctx) \<in> catalog_ranks (rc_models ctx)"
    unfolding catalog_ranks_def using am(1) by (intro Min_in) auto
  have floors: "plan_hard_floor (rc_plan ctx) \<le> me_tier_rank m" "plan_preferred_floor (rc_plan ctx) \<le> me_tier_rank m"
    using plan_rule_inv(3,4,5) [OF b plan] ranks min by (auto simp: floor_maximum_def)
  obtain i where i: "i \<in> set (feasible_items as)" using items by (metis last_in_set)
  then obtain c0 :: candidate and m0 where m0: "map_of (rc_models ctx) (cand_model c0) = Some m0"
    "permitted (rc_request ctx) (rc_env ctx) (rc_bundle ctx) (rc_limits ctx) (rc_plan ctx) (cand_model c0) m0"
    unfolding feasible_item_iff [OF as] item_violations_Nil_iff [OF b] by blast
  have "me_tier_rank m0 \<le> me_tier_rank m" using map_of_SomeD [OF m0(1)] am(3) by auto
  moreover have "case lim_model_tier_floor (rc_limits ctx) of None \<Rightarrow> True | Some lo \<Rightarrow> lo \<le> me_tier_rank m0"
    using m0(2) by (simp add: permitted_def within_limits_def)
  ultimately have "applicable_floor (rc_bundle ctx) (rc_limits ctx) (rc_plan ctx) \<le> me_tier_rank m"
    using floors ranks min by (force simp: applicable_floor_def split: option.splits)
  from plan_floor_complete [OF b plan _ am(1,2) this] f(1)
  obtain cand where cand: "cand \<in> set (plan_candidates (rc_plan ctx))" "cand_model cand = a" by force
  have "fe_min_tier f \<le> me_tier_rank m" using plan_rule_inv(5) [OF b plan] f(1) ranks by blast
  from evidence_from_candidate [OF as cand(1) _ f(1,2) this f(3)] lookup cand(2)
  show ?thesis by (simp add: waiver_supported_def Let_def)
qed

section \<open>End to end\<close>

lemma route_Decision:
  assumes b: "bundle_ok b" and r: "route dg r c env b recovery = Inr (Decision d)"
  obtains ctx plan0 cand m codes details where
    "prepare dg r c env b recovery = Inr ctx" "prepared dg ctx"
    "resolve_limits r env b = Inr (rc_limits ctx)" "build_candidates c b (rc_limits ctx) = Inr plan0"
    "map_of (bundle_models b) (cand_model cand) = Some m" "cand_effort cand \<in> set (me_reasoning_efforts m)"
    "permitted r env b (rc_limits ctx) plan0 (cand_model cand) m" "affordable dg ctx m"
    "rc_request ctx = r" "rc_env ctx = env" "rc_bundle ctx = b"
    "determine_validation r env b = Inr (rc_validation ctx)"
    "decide ctx codes details (item_of dg ctx cand m) = Inr (Decision d)"
proof -
  obtain ctx where ctx: "prepare dg r c env b recovery = Inr ctx" "select_route dg ctx = Inr (Decision d)"
    using r by (auto simp: route_def bind_res_Inr_iff)
  from ctx(1) show thesis
  proof (rule prepare_Inr)
    fix plan0
    assume facts: "resolve_limits r env b = Inr (rc_limits ctx)" "build_candidates c b (rc_limits ctx) = Inr plan0"
      "recovery_plan recovery (bundle_models b) plan0 = Inr (rc_plan ctx)"
      "determine_validation r env b = Inr (rc_validation ctx)"
      "rc_request ctx = r" "rc_env ctx = env" "rc_bundle ctx = b"
    have "bundle_ok (rc_bundle ctx)" using b facts(7) by simp
    from this ctx(2) show thesis
    proof (rule select_route_sound)
      fix cand :: candidate and m codes details
      assume "map_of (rc_models ctx) (cand_model cand) = Some m" "cand_effort cand \<in> set (me_reasoning_efforts m)"
        "permitted (rc_request ctx) (rc_env ctx) (rc_bundle ctx) (rc_limits ctx) (rc_plan ctx) (cand_model cand) m"
        "affordable dg ctx m" "decide ctx codes details (item_of dg ctx cand m) = Inr (Decision d)"
      with facts recovery_plan_Inr(1) [OF facts(3)] show thesis
        by (intro that [OF ctx(1) preparedI [OF b ctx(1)]]) (auto simp: permitted_def)
    qed
  qed
qed

text \<open>An executable decision carries no blocker of any kind.\<close>

lemma readiness_blockers_Nil_iff:
  "readiness_blockers ctx i = [] \<longleftrightarrow>
     vr_blockers (rc_validation ctx) = [] \<and> fs_blockers (it_budget i) = []
     \<and> \<not> account_unverified (it_health i) \<and> \<not> snapshot_stale (rc_env ctx)
     \<and> env_recovery_bounded (rc_env ctx) \<and> env_durable_retention (rc_env ctx)
     \<and> env_health_snapshot_id (rc_env ctx) \<noteq> None \<and> \<not> rq_side_effecting_tool (rc_request ctx)
     \<and> lim_period_spend_ceiling_usd (rc_limits ctx) = None"
  by (simp add: readiness_blockers_def)

lemma resolve_limits_error:
  assumes "resolve_limits r env b = Inl e"
  shows "e = InputError"
proof -
  have tier: "tier_rank_budget t cat = Inl e \<Longrightarrow> e = InputError" for t cat e
    by (auto simp: tier_rank_budget_def split: option.splits)
  have norm_tier: "normalize_tier t cat = Inl e \<Longrightarrow> e = InputError" for t cat e
    using tier by (auto simp: normalize_tier_def bind_res_Inl_iff split: option.splits)
  have norm: "normalize_limits l cat = Inl e \<Longrightarrow> e = InputError" for l cat e
    using norm_tier by (auto simp: normalize_limits_def bind_res_Inl_iff)
  have tight: "tighten l k = Inl e \<Longrightarrow> e = InputError" for l k e
    by (auto simp: tighten_def split: if_splits)
  have period: "validate_period l = Inl e \<Longrightarrow> e = InputError" for l e
    by (auto simp: validate_period_def split: if_splits)
  show ?thesis
    using assms norm tight period
    by (auto simp: resolve_limits_def bind_res_Inl_iff split: option.splits if_splits)
qed

lemma prepare_error:
  assumes b: "bundle_ok b" and err: "prepare dg r c env b recovery = Inl e"
  shows "e = InputError \<or> e = ConfigurationError"
proof -
  have recovery: "recovery_plan recovery models plan = Inl e \<Longrightarrow> e = InputError" for models plan e
    by (auto simp: recovery_plan_def bind_res_Inl_iff Let_def split: option.splits)
  obtain v where "determine_validation r env b = Inr v" using determine_validation_total [OF b] by blast
  then show ?thesis
    using err resolve_limits_error build_candidates_total(2) [OF b] recovery
    by (auto simp: prepare_def bind_res_Inl_iff Let_def)
qed

lemma select_route_error:
  assumes p: "prepared dg ctx" and err: "select_route dg ctx = Inl e"
  shows "e = ConfigurationError"
proof -
  have b: "bundle_ok (rc_bundle ctx)" by (rule prepared_bundle [OF p])
  obtain as where as: "map_res (assess dg ctx) (plan_candidates (rc_plan ctx)) = Inr as"
    using assess_total [OF p] by blast
  have rej: "reject ctx codes details f vs re = Inl e' \<Longrightarrow> e' = ConfigurationError" for codes details f vs re e'
    by (auto simp: reject_def Let_def bind_res_Inl_iff)
  have "reject_infeasible ctx codes details rows = Inl e' \<Longrightarrow> e' = ConfigurationError" for codes details rows e'
    using rej by (auto simp: reject_infeasible_def Let_def split: if_splits)
  moreover have "choose_route ctx (base_codes ctx @ degraded_codes as @ cap_codes rows) details rows
      (feasible_items as) = Inl e' \<Longrightarrow> e' = ConfigurationError"
    if "feasible_items as \<noteq> []" for details rows e'
    using choose_route_outcome [OF b loop_codes_registered [OF p] that feasible_items_facts [OF p as],
        of rows as rows details]
    by fastforce
  ultimately show ?thesis
    using err rej by (auto simp: select_route_def as Let_def split: if_splits)
qed

lemma route_error:
  assumes "bundle_ok b" and "route dg r c env b recovery = Inl e"
  shows "e = InputError \<or> e = ConfigurationError"
  using assms prepare_error select_route_error preparedI by (fastforce simp: route_def bind_res_Inl_iff)

section \<open>Preferred floors are relaxed only when nothing certified attains them\<close>

lemma choose_route_waiver:
  assumes dec: "choose_route ctx codes0 details0 rows0 items = Inr (Decision d)"
    and f: "f \<in> set (plan_floors (rc_plan ctx))" "fe_strength f = Strength_preferred"
      "rt_model_tier d < fe_min_tier f"
  shows "fe_rule_id f \<in> set (rd_floor_waiver_rules (db_rationale_details d))"
    and "rd_floor_waiver_constraints (db_rationale_details d) \<noteq> []"
    and "''FLOOR_RELAXED'' \<in> set (db_rationale_codes d)"
    and "\<forall>i \<in> set items. fe_min_tier f \<le> item_rank i \<longrightarrow> candidate_blockers i \<noteq> []"
proof -
  obtain items1 rows1 codes1 where c: "certify items = (items1, rows1, codes1)" by (metis prod_cases3)
  let ?A = "attainable_floor (rc_plan ctx) items1"
  let ?evidence = "waiver_evidence ctx ?A (rows0 @ rows1)"
  let ?waived = "waived_floors (rc_plan ctx) ?A"
  let ?codes = "codes0 @ codes1 @ [''FLOOR_RELAXED'']"
  let ?details = "details0\<lparr>rd_removed_candidates := rows0 @ rows1, rd_floor_waiver_rules := map fe_rule_id ?waived,
      rd_floor_waiver_constraints := stable_unique ?evidence\<rparr>"
  obtain i rest codes details where pool:
    "selection_pool (rc_recovery ctx \<noteq> None) (final_items ctx items) = i # rest"
    "decide ctx codes details i = Inr (Decision d)"
    using choose_route_Decision [OF dec] by metis
  then have "i \<in> set (final_items ctx items)"
    using selection_pool_subset [of "rc_recovery ctx \<noteq> None" "final_items ctx items"] by auto
  then have "?A \<le> item_rank i"
    using recovery_order_subset [of _ "shortlisted ctx items"] c
    by (auto simp: final_items_def shortlisted_def split: option.splits)
  then have below: "?A < fe_min_tier f" using f(3) decide_Decision(3) [OF pool(2)] by simp
  then have waived: "f \<in> set ?waived" using f by (simp add: waived_floors_def)
  then have "?waived \<noteq> []" by auto
  with dec pool(1) c have "?evidence \<noteq> []" and d: "decide ctx ?codes ?details i = Inr (Decision d)"
    by (auto simp: choose_route_def Let_def bind_res_Inr_iff final_items_def shortlisted_def
        split: option.splits if_splits list.splits)
  show "fe_rule_id f \<in> set (rd_floor_waiver_rules (db_rationale_details d))"
    "rd_floor_waiver_constraints (db_rationale_details d) \<noteq> []"
    "''FLOOR_RELAXED'' \<in> set (db_rationale_codes d)"
    using d waived \<open>?evidence \<noteq> []\<close>
    by (auto simp: decide_def Let_def bind_res_Inr_iff selection_codes_def split: if_splits)
  show "\<forall>i \<in> set items. fe_min_tier f \<le> item_rank i \<longrightarrow> candidate_blockers i \<noteq> []"
  proof (intro ballI impI)
    fix j assume j: "j \<in> set items" "fe_min_tier f \<le> item_rank j"
    then have "j \<notin> set (fst (certify items))" using attained_floor_le [OF f(1,2)] below c by force
    from dropped_row [OF j(1) this] show "candidate_blockers j \<noteq> []" by simp
  qed
qed

lemma choose_route_rd_floors:
  assumes "choose_route ctx codes0 details0 rows0 items = Inr (Decision d)"
  shows "rd_floors (db_rationale_details d) = rd_floors details0"
proof -
  obtain items1 rows1 codes1 where c: "certify items = (items1, rows1, codes1)" by (metis prod_cases3)
  have "decide ctx codes details i = Inr (Decision d) \<Longrightarrow>
      rd_floors (db_rationale_details d) = rd_floors details" for codes details i
    by (auto simp: decide_def Let_def bind_res_Inr_iff)
  with assms show ?thesis
    by (auto simp: choose_route_def c Let_def bind_res_Inr_iff split: option.splits list.splits if_splits)
qed

lemma select_route_waiver:
  assumes dec: "select_route dg ctx = Inr (Decision d)"
    and f: "f \<in> set (rd_floors (db_rationale_details d))" "fe_strength f = Strength_preferred"
      "rt_model_tier d < fe_min_tier f"
  obtains as where "map_res (assess dg ctx) (plan_candidates (rc_plan ctx)) = Inr as"
    "fe_rule_id f \<in> set (rd_floor_waiver_rules (db_rationale_details d))"
    "rd_floor_waiver_constraints (db_rationale_details d) \<noteq> []"
    "''FLOOR_RELAXED'' \<in> set (db_rationale_codes d)"
    "\<forall>i \<in> set (feasible_items as). fe_min_tier f \<le> item_rank i \<longrightarrow> candidate_blockers i \<noteq> []"
proof -
  obtain as codes where as: "map_res (assess dg ctx) (plan_candidates (rc_plan ctx)) = Inr as"
    and choice: "choose_route ctx codes ((initial_details ctx)\<lparr>rd_removed_candidates := removed_rows as,
      rd_cache_miss_budget_estimates := Some (miss_quotes as)\<rparr>) (removed_rows as) (feasible_items as)
      = Inr (Decision d)"
    using dec by (auto simp: select_route_def Let_def bind_res_Inr_iff split: if_splits)
  have "f \<in> set (plan_floors (rc_plan ctx))"
    using f(1) choose_route_rd_floors [OF choice] by (simp add: initial_details_def)
  note waiver = choose_route_waiver [OF choice this f(2,3)]
  show thesis by (rule that [OF as waiver])
qed

text \<open>When no model of the catalog can serve the request, the refusal says so and nothing else.\<close>

lemma select_route_incapable:
  assumes p: "prepared dg ctx" and none: "\<forall>(a, m) \<in> set (rc_models ctx). \<not> capable (rc_request ctx) m"
  shows "\<exists>j. select_route dg ctx = Inr (Rejection j) \<and> rj_failure_type j = CAPABILITY_FAILURE \<and> \<not> rj_retryable j"
proof -
  have "list_all (\<lambda>f. fs_violations f \<noteq> []) (capability_results ctx)"
    using none check_capabilities_clear by (fastforce simp: capability_results_def list_all_iff)
  then show ?thesis
    using reject_total [OF prepared_bundle [OF p] base_codes_registered [OF p], of "initial_details ctx"
        CAPABILITY_FAILURE "concat (map fs_violations (capability_results ctx))" False]
    by (auto simp: select_route_def Let_def)
qed

section \<open>The selection, without its record keeping\<close>

text \<open>
  What a caller acts on: the selected route with its price, requirements and blockers, or the
  kind of refusal. \<open>route_spec\<close> computes it from the context without rationale codes, details,
  identifiers or classification; the router implements it (\<open>select_route_refines\<close>).
\<close>

datatype outcome =
    Selected string string nat effort validation_requirements cost_estimate "string list"
  | Refused failure_type "string list" bool

primrec outcome_of :: "route_result \<Rightarrow> outcome" where
  "outcome_of (Decision d) = Selected (rt_selected_model_alias d) (rt_provider_model_id d) (rt_model_tier d)
     (rt_reasoning_effort d) (rt_validation_requirements d) (rt_estimated_cost d) (db_readiness_blockers d)"
| "outcome_of (Rejection j) = Refused (rj_failure_type j) (rj_violated_constraints j) (rj_retryable j)"

definition refuse :: "failure_type \<Rightarrow> string list \<Rightarrow> bool \<Rightarrow> outcome res" where
  "refuse f vs re = Inr (Refused f (stable_unique vs) re)"

definition selected :: "route_context \<Rightarrow> item \<Rightarrow> outcome" where
  "selected ctx i = Selected (cand_model (it_candidate i)) (me_provider_model_id (it_model i))
     (me_tier_rank (it_model i)) (cand_effort (it_candidate i)) (rc_validation ctx) (it_cost i)
     (stable_unique (readiness_blockers ctx i))"

definition refuse_infeasible :: "removed_candidate list \<Rightarrow> outcome res" where
  "refuse_infeasible rows =
     (let violations = stable_unique (concat (map rm_constraints rows)) in
      if list_ex (\<lambda>row. set (rm_constraints row) = {''no_healthy_permitted_path''}) rows
      then refuse PROVIDER_FAILURE violations True
      else if list_ex (\<lambda>v. v \<in> set cap_keys) violations then refuse BUDGET_FAILURE violations False
      else refuse CAPABILITY_FAILURE (if violations = [] then [''no_permitted_candidate''] else violations) False)"

definition refuse_recovery :: "candidate list \<Rightarrow> removed_candidate list \<Rightarrow> outcome res" where
  "refuse_recovery wanted rows =
     (let violations = concat (map rm_constraints
            (filter (\<lambda>row. (rm_model row, rm_effort row) \<in> set (map cand_pair wanted)) rows)) in
      if list_ex (\<lambda>v. v \<in> set [''remaining_budget'', ''task_cost_ceiling_usd'', ''model_tier_ceiling'']) violations
      then refuse BUDGET_FAILURE violations False
      else refuse (if ''no_healthy_permitted_path'' \<in> set violations then PROVIDER_FAILURE else CAPABILITY_FAILURE)
        (if violations = [] then [''recovery_candidate_not_permitted''] else violations) True)"

definition choice_spec :: "route_context \<Rightarrow> removed_candidate list \<Rightarrow> item list \<Rightarrow> outcome res" where
  "choice_spec ctx rows items =
     (if \<not> waiver_supported ctx rows items then Inl ConfigurationError
      else case selection_pool (rc_recovery ctx \<noteq> None) (final_items ctx items) of
          i # rest \<Rightarrow> Inr (selected ctx i)
        | [] \<Rightarrow> (case rc_recovery ctx of None \<Rightarrow> Inl IndexError
            | Some wanted \<Rightarrow> refuse_recovery wanted (rows @ fst (snd (certify items)))))"

definition route_spec :: "digests \<Rightarrow> route_context \<Rightarrow> outcome res" where
  "route_spec dg ctx =
     (if list_all (\<lambda>f. fs_violations f \<noteq> []) (capability_results ctx)
      then refuse CAPABILITY_FAILURE (concat (map fs_violations (capability_results ctx))) False
      else if floor_over_ceiling (rc_limits ctx) then refuse BUDGET_FAILURE [''floor_vs_ceiling''] False
      else if hard_floor_over_ceiling ctx then refuse BUDGET_FAILURE [''hard_floor_vs_ceiling''] False
      else bind_res (map_res (assess dg ctx) (plan_candidates (rc_plan ctx))) (\<lambda>as.
        if feasible_items as = [] then refuse_infeasible (removed_rows as)
        else choice_spec ctx (removed_rows as) (feasible_items as)))"

lemma reject_outcome:
  assumes "bundle_ok (rc_bundle ctx)" and "registered ctx codes"
  shows "map_sum id outcome_of (reject ctx codes details f vs re) = refuse f vs re"
  using reject_total [OF assms, of details f vs re] by (auto simp: refuse_def)

lemma decide_outcome:
  assumes "bundle_ok (rc_bundle ctx)" and "registered ctx codes"
    and "set (fs_rationale_codes (it_budget i)) \<subseteq> set RationaleCode"
  shows "map_sum id outcome_of (decide ctx codes details i) = Inr (selected ctx i)"
  using decide_total [OF assms, of details] by (auto simp: selected_def dest: decide_Decision)

lemma choose_route_refines:
  assumes b: "bundle_ok (rc_bundle ctx)" and codes: "registered ctx codes0"
    and known: "\<forall>i \<in> set items. set (fs_rationale_codes (it_budget i)) \<subseteq> set RationaleCode"
  shows "map_sum id outcome_of (choose_route ctx codes0 details rows items) = choice_spec ctx rows items"
proof -
  obtain items1 rows1 codes1 where c: "certify items = (items1, rows1, codes1)" by (metis prod_cases3)
  let ?waived = "waived_floors (rc_plan ctx) (attainable_floor (rc_plan ctx) items1)"
  let ?codes = "codes0 @ codes1 @ (if ?waived \<noteq> [] then [''FLOOR_RELAXED''] else [])"
  have "registered ctx codes1" using registered_known [OF b certify_codes [of items]] c by simp
  then have reg: "registered ctx ?codes"
    using codes registered_known [OF b] by (auto simp: RationaleCode_def)
  have dec: "map_sum id outcome_of (decide ctx ?codes det i) = Inr (selected ctx i)"
    if "selection_pool (rc_recovery ctx \<noteq> None) (final_items ctx items) = i # rest" for det i rest
  proof (rule decide_outcome [OF b reg])
    have "i \<in> set items"
      using selection_pool_subset [of "rc_recovery ctx \<noteq> None" "final_items ctx items"]
        final_items_subset [of ctx items] certify_subset [OF c] c that by auto
    then show "set (fs_rationale_codes (it_budget i)) \<subseteq> set RationaleCode" using known by blast
  qed
  have rej: "map_sum id outcome_of (reject_recovery ctx ?codes det wanted rws) = refuse_recovery wanted rws"
    for det wanted rws
    by (simp add: reject_recovery_def refuse_recovery_def Let_def reject_outcome [OF b reg])
  show ?thesis
  proof (cases "selection_pool (rc_recovery ctx \<noteq> None) (final_items ctx items)")
    case Nil
    then show ?thesis
      using rej
      by (cases "rc_recovery ctx")
        (auto simp: choose_route_def choice_spec_def c Let_def waiver_supported_def final_items_def shortlisted_def)
  next
    case (Cons i rest)
    then have "final_items ctx items \<noteq> []" by (metis list.distinct(1) selection_pool_Nil_iff)
    with Cons dec [OF Cons] show ?thesis
      by (cases "rc_recovery ctx")
        (auto simp: choose_route_def choice_spec_def c Let_def waiver_supported_def final_items_def shortlisted_def)
  qed
qed

lemma select_route_refines:
  assumes p: "prepared dg ctx"
  shows "map_sum id outcome_of (select_route dg ctx) = route_spec dg ctx"
proof -
  have b: "bundle_ok (rc_bundle ctx)" by (rule prepared_bundle [OF p])
  obtain as where as: "map_res (assess dg ctx) (plan_candidates (rc_plan ctx)) = Inr as"
    using assess_total [OF p] by blast
  note codes = loop_codes_registered [OF p, of as]
  have "map_sum id outcome_of (reject_infeasible ctx (base_codes ctx @ degraded_codes as @ cap_codes rows) det rows)
      = refuse_infeasible rows" for det rows
    by (simp add: reject_infeasible_def refuse_infeasible_def Let_def reject_outcome [OF b codes])
  then show ?thesis
    using choose_route_refines [OF b codes feasible_items_facts(2) [OF p as]]
    by (simp add: select_route_def route_spec_def as Let_def reject_outcome [OF b base_codes_registered [OF p]])
qed

text \<open>The selection does not see the classification itself nor the identifiers.\<close>

definition relabelled :: "classification \<Rightarrow> string \<Rightarrow> route_context \<Rightarrow> route_context" where
  "relabelled c ident ctx = ctx\<lparr>rc_classification := c, rc_decision_id := ident\<rparr>"

lemma relabelled_fields [simp]:
  "rc_request (relabelled c ident ctx) = rc_request ctx" "rc_env (relabelled c ident ctx) = rc_env ctx"
  "rc_bundle (relabelled c ident ctx) = rc_bundle ctx" "rc_limits (relabelled c ident ctx) = rc_limits ctx"
  "rc_plan (relabelled c ident ctx) = rc_plan ctx" "rc_validation (relabelled c ident ctx) = rc_validation ctx"
  "rc_recovery (relabelled c ident ctx) = rc_recovery ctx"
  by (simp_all add: relabelled_def)

lemma assess_relabelled: "assess dg (relabelled c ident ctx) = assess dg ctx"
proof -
  have quote: "quote dg (relabelled c ident ctx) = quote dg ctx"
    by (simp add: fun_eq_iff quote_def)
  have budget: "budget_of dg (relabelled c ident ctx) = budget_of dg ctx"
    unfolding fun_eq_iff budget_of_def quote relabelled_fields by simp
  have "item_of dg (relabelled c ident ctx) = item_of dg ctx"
    by (simp add: fun_eq_iff item_of_def budget health_of_def)
  moreover have "item_violations dg (relabelled c ident ctx) = item_violations dg ctx"
    unfolding fun_eq_iff item_violations_def budget health_of_def route_violations_def
      effective_floor_def health_excluded_def relabelled_fields by simp
  ultimately show ?thesis unfolding fun_eq_iff assess_def budget relabelled_fields by simp
qed

lemma route_spec_relabelled: "route_spec dg (relabelled c ident ctx) = route_spec dg ctx"
proof -
  have fields: "waiver_supported (relabelled c ident ctx) = waiver_supported ctx"
    "final_items (relabelled c ident ctx) = final_items ctx" "selected (relabelled c ident ctx) = selected ctx"
    unfolding fun_eq_iff waiver_supported_def waiver_evidence_def final_items_def shortlisted_def selected_def
      readiness_blockers_def relabelled_fields by simp_all
  have choice: "choice_spec (relabelled c ident ctx) = choice_spec ctx"
    unfolding fun_eq_iff choice_spec_def relabelled_fields fields by simp
  show ?thesis
    unfolding route_spec_def assess_relabelled capability_results_def hard_floor_over_ceiling_def relabelled_fields
      choice by simp
qed

lemma build_candidates_confidence: "build_candidates (c\<lparr>cl_confidence := q\<rparr>) b l = build_candidates c b l"
proof -
  have match: "matches m (c\<lparr>cl_confidence := q\<rparr>) = matches m c" for m
    by (simp add: fun_eq_iff matches_def)
  have valid: "validated_classification (c\<lparr>cl_confidence := q\<rparr>) = validated_classification c"
    by (simp add: fun_eq_iff validated_classification_def)
  have floor: "apply_floor_rule (c\<lparr>cl_confidence := q\<rparr>) = apply_floor_rule c"
    and modifier: "apply_modifier (c\<lparr>cl_confidence := q\<rparr>) = apply_modifier c"
    by (simp_all add: fun_eq_iff apply_floor_rule_def apply_modifier_def match)
  show ?thesis unfolding build_candidates_def valid floor modifier ..
qed

lemma prepare_confidence:
  "\<exists>ident. prepare dg r (c\<lparr>cl_confidence := q\<rparr>) env b recovery
     = map_sum id (relabelled (c\<lparr>cl_confidence := q\<rparr>) ident) (prepare dg r c env b recovery)"
proof -
  let ?g = "\<lambda>c l plan v. let config = dg_config dg (pb_content_hash b) (overlay_version_of env b) l;
      decision = dg_decision dg r c env config
     in \<lparr>rc_request = r, rc_classification = c, rc_env = env, rc_bundle = b, rc_limits = l,
             rc_plan = plan, rc_validation = v, rc_recovery = recovery,
             rc_overlay_version = overlay_version_of env b, rc_config_hash = config,
             rc_decision_id = (case recovery of None \<Rightarrow> decision | Some cands \<Rightarrow> dg_recovery dg decision cands),
             rc_pricing_version = dg_pricing dg (pb_catalog b) env\<rparr>"
  have stable: "?g c' l plan v = relabelled c' (rc_decision_id (?g c' l plan v)) (?g c l plan v)" for c' l plan v
    by (simp add: relabelled_def Let_def)
  show ?thesis
  proof (cases "prepare dg r c env b recovery")
    case (Inr ctx)
    then obtain l plan v where "ctx = ?g c l plan v" "prepare dg r (c\<lparr>cl_confidence := q\<rparr>) env b recovery
        = Inr (?g (c\<lparr>cl_confidence := q\<rparr>) l plan v)"
      unfolding prepare_def build_candidates_confidence bind_res_Inr_iff by (auto simp: Let_def)
    with Inr stable show ?thesis by (metis map_sum.simps(2))
  next
    case (Inl e)
    then have "prepare dg r (c\<lparr>cl_confidence := q\<rparr>) env b recovery = Inl e"
      unfolding prepare_def build_candidates_confidence bind_res_Inl_iff Let_def by simp
    with Inl show ?thesis by simp
  qed
qed

lemma route_outcome:
  assumes "bundle_ok b"
  shows "map_sum id outcome_of (route dg r c env b recovery)
     = bind_res (prepare dg r c env b recovery) (route_spec dg)"
  using select_route_refines preparedI [OF assms]
  by (cases "prepare dg r c env b recovery") (auto simp: route_def)

lemma route_confidence:
  assumes "bundle_ok b"
  shows "map_sum id outcome_of (route dg r (c\<lparr>cl_confidence := q\<rparr>) env b recovery)
     = map_sum id outcome_of (route dg r c env b recovery)"
proof -
  obtain ident where "prepare dg r (c\<lparr>cl_confidence := q\<rparr>) env b recovery
     = map_sum id (relabelled (c\<lparr>cl_confidence := q\<rparr>) ident) (prepare dg r c env b recovery)"
    using prepare_confidence by blast
  then show ?thesis
    unfolding route_outcome [OF assms]
    by (cases "prepare dg r c env b recovery") (simp_all add: route_spec_relabelled)
qed

end
