(* ===== verification/Samples.thy ===== *)
theory Samples
  imports Router
begin

text \<open>
  A concrete bundle, request and environment on which the witnesses of the properties evaluate
  the model. The documents are an excerpt of the shipped ones under \<^verbatim>\<open>config/\<close>: three
  models in three tiers, two complexity bands, one hard and one preferred floor, one modifier,
  the four validation profiles; token counts and windows are scaled down, and the recovery
  limits, task ceiling, deadline and live switch are set, as a deployment would set them.
\<close>

section \<open>Catalog\<close>

definition sample_capabilities :: capabilities where
  "sample_capabilities = \<lparr>cap_text_input = Some True, cap_text_output = Some True, cap_image_input = Some True,
     cap_audio_input = Some False, cap_video_input = Some False, cap_streaming = Some True,
     cap_function_calling = Some True, cap_structured_outputs = Some True\<rparr>"

definition sample_pricing :: "string \<Rightarrow> int \<Rightarrow> int \<Rightarrow> int \<Rightarrow> pricing" where
  "sample_pricing version input cached output =
     \<lparr>pr_version = version, pr_status = Partially_verified, pr_unit_tokens = 10,
      pr_input_usd = Some (Dec input (- 2)), pr_cached_input_usd = Some (Dec cached (- 2)),
      pr_output_usd = Some (Dec output (- 2)), pr_cache_write_input_multiplier = Some (Dec 125 (- 2)),
      pr_promotion_available_at_least_through = None,
      pr_long_context = Some \<lparr>lc_input_tokens_gt = 27, lc_input_multiplier = Dec 2 0,
        lc_output_multiplier = Dec 15 (- 1), lc_cached_input_multiplier = None,
        lc_cache_write_multiplier = None\<rparr>,
      pr_additional_tool_prices = None, pr_requires_verification = [''tool_fees'']\<rparr>"

definition sample_model :: "string \<Rightarrow> nat \<Rightarrow> string \<Rightarrow> pricing \<Rightarrow> model_entry" where
  "sample_model tier rank provider_id prices =
     \<lparr>me_tier = tier, me_tier_rank = rank, me_provider_model_id = provider_id, me_source_url = ''https'',
      me_metadata_status = Documentation_verified, me_reasoning_efforts = [NONE, LOW, MEDIUM, HIGH],
      me_capabilities = sample_capabilities, me_context_window_tokens = 60, me_max_output_tokens = 20,
      me_availability = \<lparr>av_configured_enabled = True, av_account_status = Account_verified\<rparr>,
      me_pricing = prices\<rparr>"

definition luna_model :: model_entry where
  "luna_model = sample_model ''L0'' 0 ''gpt-5.6-luna'' (sample_pricing ''luna-standard'' 20 10 120)"

definition sample_catalog :: catalog_document where
  "sample_catalog = \<lparr>cat_catalog_version = ''models-v1.0.0'', cat_status = Active,
     cat_verification = \<lparr>vf_checked_at = ''2026-09-06'', vf_live_account_probe_performed = False\<rparr>,
     cat_models =
       [(''luna'', luna_model),
        (''terra'', sample_model ''L1'' 1 ''gpt-5.6-terra'' (sample_pricing ''terra-standard'' 200 20 1200)),
        (''sol'', sample_model ''L2'' 2 ''gpt-5.6-sol'' (sample_pricing ''sol-standard'' 400 40 2000))]\<rparr>"

section \<open>Policy\<close>

definition sample_complexity :: complexity where
  "sample_complexity = \<lparr>cx_total_min = 0, cx_total_max = 14,
     cx_components = map (\<lambda>n. (n, \<lparr>cr_min = 0, cr_max = 2\<rparr>)) component_names\<rparr>"

definition sample_escalation :: escalation_policy where
  "sample_escalation =
     \<lparr>es_limits = \<lparr>el_max_total_generation_attempts = Some 4, el_max_quality_escalations = Some 2,
        el_max_infrastructure_retries = Some 2, el_max_tool_recoveries = Some 1, el_max_elapsed_ms = Some 60\<rparr>,
      es_quality_failure_types = [QUALITY_FAILURE],
      es_infrastructure_failure_types = [TIMEOUT, RATE_LIMIT, PROVIDER_FAILURE],
      es_backoff = \<lparr>bo_initial_ms = Some 1, bo_max_ms = Some 8, bo_jitter = Some 0, bo_honor_retry_after = True\<rparr>,
      es_tool_failure_types = [TOOL_FAILURE],
      es_diagnostic_failure_types = [VALIDATION_FAILURE, MALFORMED_OUTPUT, UNKNOWN_FAILURE],
      es_terminal_failure_types = [BUDGET_FAILURE, CAPABILITY_FAILURE],
      es_stop_when = [Stop_success, Stop_budget_exhausted, Stop_deadline_exceeded, Stop_attempts_exhausted,
        Stop_no_safe_candidate, Stop_approval_required]\<rparr>"

definition sample_policy :: policy_document where
  "sample_policy = \<lparr>pol_version = ''router-v1.0.0'', pol_status = Active, pol_catalog_version = ''models-v1.0.0'',
     pol_budget_version = ''budgets-v1.0.0'', pol_validation_version = ''validation-v1.0.0'',
     pol_task_families = [''coding'', ''engineering''], pol_complexity = sample_complexity,
     pol_complexity_bands =
       [\<lparr>cb_min = 0, cb_max = 7, cb_candidates = [\<lparr>cs_model = ''luna'', cs_efforts = [NONE, LOW]\<rparr>]\<rparr>,
        \<lparr>cb_min = 8, cb_max = 14, cb_candidates = [\<lparr>cs_model = ''terra'', cs_efforts = [MEDIUM, HIGH]\<rparr>]\<rparr>],
     pol_task_family_floors =
       [\<lparr>fr_id = ''substantive_coding'',
         fr_match = \<lparr>ma_families = [''coding''], ma_flags_all = [''substantive_implementation''],
           ma_complexity_min = None, ma_component_min = []\<rparr>,
         fr_strength = Strength_hard, fr_min_tier = ''L1'', fr_rationale_codes = [''TASK_FAMILY_FLOOR'']\<rparr>,
        \<lparr>fr_id = ''repository_wide_work'',
         fr_match = \<lparr>ma_families = [''coding''], ma_flags_all = [''repository_wide''],
           ma_complexity_min = None, ma_component_min = []\<rparr>,
         fr_strength = Strength_preferred, fr_min_tier = ''L2'', fr_rationale_codes = [''TASK_FAMILY_FLOOR'']\<rparr>],
     pol_modifiers =
       [\<lparr>md_id = ''tools_heavy'',
         md_match = \<lparr>ma_families = [], ma_flags_all = [], ma_complexity_min = None,
           ma_component_min = [(''tool_orchestration'', 2)]\<rparr>,
         md_effect = \<lparr>mf_add_candidates = [], mf_preferred_min_tier = Some ''L1'', mf_annotate_only = None\<rparr>,
         md_rationale_codes = [''TOOL_ORCHESTRATION_HIGH'']\<rparr>],
     pol_selection = \<lparr>sel_calibration_version = None,
       sel_tie_break = [Candidate_order, Estimated_cost, Tier_rank, Effort_order],
       sel_floor_candidate_effort_preference = [MEDIUM, HIGH, LOW, XHIGH, effort.MAX, NONE]\<rparr>,
     pol_context = [Bucket_input, Bucket_cached_input, Bucket_cache_write, Bucket_expected_output,
       Bucket_reasoning, Bucket_retrieval_cost],
     pol_health_exclude_states = [UNHEALTHY], pol_escalation = sample_escalation,
     pol_rationale_codes = map (\<lambda>c. (c, ''registered'')) RationaleCode\<rparr>"

section \<open>Budgets and validation\<close>

definition sample_budgets :: budgets_document where
  "sample_budgets = \<lparr>bud_version = ''budgets-v1.0.0'', bud_status = Active,
     bud_defaults = \<lparr>bd_limits = \<lparr>bl_model_tier_floor = Some ''L0'', bl_model_tier_ceiling = Some ''L2'',
         bl_task_cost_ceiling_usd = Some (Dec 50 0), bl_task_deadline_ms = Some 40,
         bl_period_spend_ceiling_usd = None, bl_period = None, bl_live_execution_enabled = Some True\<rparr>,
       bd_require_finite_task_cost_ceiling = True,
       bd_include_costs = [Cost_classification, Cost_generation, Cost_retries, Cost_tools, Cost_validation]\<rparr>,
     bud_overlay_contract = \<lparr>ov_allowed_fields = overlay_fields,
       ov_period_values = [Period_day, Period_calendar_month]\<rparr>,
     bud_applications = [(''example_app'', \<lparr>bl_model_tier_floor = None, bl_model_tier_ceiling = Some ''L1'',
         bl_task_cost_ceiling_usd = Some (Dec 25 0), bl_task_deadline_ms = None,
         bl_period_spend_ceiling_usd = None, bl_period = None, bl_live_execution_enabled = None\<rparr>)]\<rparr>"

definition sample_evaluator :: "independence \<Rightarrow> evaluator" where
  "sample_evaluator kind = \<lparr>ev_enabled = False, ev_model_alias = None, ev_reasoning_effort = None,
     ev_rubric_version = None, ev_score_scale = None, ev_pass_threshold = None, ev_independence = kind\<rparr>"

definition sample_validation :: validation_document where
  "sample_validation = \<lparr>val_version = ''validation-v1.0.0'', val_status = Active, val_default_profile = V0,
     val_raw_prompt_storage = False, val_raw_response_storage = False,
     val_profiles = [(V0, V0Profile [''json_schema'', ''expected_fields'']),
       (V1, SemanticProfile Lightweight_semantic V0 ''lightweight''),
       (V2, SemanticProfile Strong_independent V0 ''strong_independent''),
       (V3, DomainProfile V0 None None)],
     val_evaluators = [(''lightweight'', sample_evaluator Separate_call),
       (''strong_independent'', sample_evaluator Separate_call_no_generator_self_grade)],
     val_consequence_defaults =
       [(Low_consequence, \<lparr>cd_profile = V0, cd_evidence = ''task_checks'', cd_approval_gate = False,
           cd_execution_restrictions = []\<rparr>),
        (Moderate_consequence, \<lparr>cd_profile = V1, cd_evidence = ''supporting_evidence'', cd_approval_gate = False,
           cd_execution_restrictions = []\<rparr>),
        (High_consequence, \<lparr>cd_profile = V2, cd_evidence = ''independent_evidence'', cd_approval_gate = True,
           cd_execution_restrictions = [''no_unapproved_side_effects'']\<rparr>),
        (Critical_consequence, \<lparr>cd_profile = V3, cd_evidence = ''domain_evidence'', cd_approval_gate = True,
           cd_execution_restrictions = [''no_unapproved_side_effects'', ''domain_clearance_required'']\<rparr>)],
     val_shadow_evaluation = \<lparr>sh_enabled = False, sh_seed = ''shadow-v1'', sh_rate = 0,
       sh_task_cost_ceiling_usd = None, sh_period_spend_ceiling_usd = None, sh_comparisons = []\<rparr>\<rparr>"

definition sample_bundle :: policy_bundle where
  "sample_bundle = \<lparr>pb_policy = sample_policy, pb_catalog = sample_catalog, pb_budgets = sample_budgets,
     pb_validation = sample_validation, pb_content_hash = ''bundle''\<rparr>"

section \<open>Request and environment\<close>

definition sample_request :: request where
  "sample_request = \<lparr>rq_task_id = ''task-1'', rq_trace_id = ''trace-1'', rq_input = ''refactor'',
     rq_application_id = None, rq_requirements = [''text_input'', ''text_output''],
     rq_consequence = Low_consequence,
     rq_context = \<lparr>tc_input_tokens = 20, tc_expected_output_tokens = 10, tc_cached_input_tokens = 4,
       tc_cache_write_tokens = 2, tc_cache_evidence = True\<rparr>,
     rq_constraints = no_limits, rq_requested_validation = None, rq_approval_evidence = False,
     rq_domain_clearance_evidence = False, rq_side_effecting_tool = False, rq_idempotency_evidence = False,
     rq_policy_version = None\<rparr>"

definition sample_classification :: classification where
  "sample_classification = \<lparr>cl_task_family = ''coding'', cl_task_subclass = None,
     cl_components = \<lparr>reasoning_depth = 1, step_dependency = 1, context_synthesis = 1, technical_precision = 1,
       ambiguity = 1, tool_orchestration = 1, reliability_requirement = 1\<rparr>,
     cl_confidence = 1, cl_flags = [(''substantive_implementation'', True)],
     cl_provenance = ''caller'', cl_supplied_total = Some 7\<rparr>"

text \<open>A request that only the lowest tier may serve, without cache reads.\<close>

definition capped_request :: request where
  "capped_request = sample_request\<lparr>
     rq_context := \<lparr>tc_input_tokens = 20, tc_expected_output_tokens = 10, tc_cached_input_tokens = 0,
       tc_cache_write_tokens = 0, tc_cache_evidence = False\<rparr>,
     rq_constraints := no_limits\<lparr>lim_model_tier_ceiling := Some 0\<rparr>\<rparr>"

definition plain_classification :: classification where
  "plain_classification = sample_classification\<lparr>cl_flags := []\<rparr>"

definition sample_health :: model_health where
  "sample_health = \<lparr>mh_state = HEALTHY, mh_account_access = Access_verified, mh_usable = True\<rparr>"

definition sample_environment :: environment where
  "sample_environment = \<lparr>env_snapshot_id = ''snapshot-1'', env_synthetic = True, env_clock = 100,
     env_pricing_version = ''prices-1'', env_health_snapshot_id = Some ''health-1'',
     env_health_observed_at = Some 90, env_health_valid_until = Some 200,
     env_models = [(''luna'', sample_health), (''terra'', sample_health), (''sol'', sample_health)],
     env_budget = no_limits, env_remaining_usd = Some (Dec 100 0), env_trusted_application_id = None,
     env_application_overlay = None, env_application_overlay_version = None, env_validation = [],
     env_required_evaluator_cost_usd = None, env_required_domain_validator_cost_usd = None,
     env_required_tool_charge = False, env_required_tool_charge_usd = None,
     env_requested_validation = None, env_minimum_next_action_ms = Some 5, env_latency_source = None,
     env_recovery_bounded = True, env_durable_retention = True\<rparr>"

definition sample_requirements :: validation_requirements where
  "sample_requirements = \<lparr>vr_level = V0, vr_profiles = [V0], vr_checks = [''json_schema''], vr_evaluator_refs = [],
     vr_validator_refs = [], vr_blockers = [], vr_evaluator_required = False, vr_approval_required = False,
     vr_evidence = ''task_checks'', vr_execution_restrictions = []\<rparr>"

definition sample_digests :: digests where
  "sample_digests = \<lparr>dg_quote = (\<lambda>m p c b. ''quote-'' @ m), dg_config = (\<lambda>h v l. h), dg_decision = (\<lambda>r c e h. rq_task_id r @ h),
     dg_recovery = (\<lambda>d cs. d @ ''-recovery''), dg_pricing = (\<lambda>c e. cat_catalog_version c)\<rparr>"

section \<open>Evaluation\<close>

text \<open>The definitions of the router with their sequencing as case distinctions, for evaluation.\<close>

lemma bind_res_case: "bind_res m f = (case m of Inl e \<Rightarrow> Inl e | Inr x \<Rightarrow> f x)"
  by (simp add: bind_res_def)

lemma assess_code [code]:
  "assess dg ctx c = (case map_of (rc_models ctx) (cand_model c) of None \<Rightarrow> Inl KeyError
     | Some m \<Rightarrow> if cand_effort c \<in> set (me_reasoning_efforts m)
         then Inr \<lparr>as_item = item_of dg ctx c m, as_violations = item_violations dg ctx c m,
                   as_miss = snd (snd (budget_of dg ctx m))\<rparr>
         else Inl ConfigurationError)"
  by (simp add: assess_def get_res_def check_res_def split: option.split)

lemmas select_route_code [code] = select_route_def [unfolded bind_res_case]

lemmas route_code [code] = route_def [unfolded bind_res_case]

lemma budget_of_code [code]:
  "budget_of dg ctx m =
     (if cache_read_tokens (rq_context (rc_request ctx)) = 0
      then (quote dg ctx (rc_request ctx) m,
            check_budget (quote dg ctx (rc_request ctx) m) (rc_limits ctx) (rc_env ctx), None)
      else (quote dg ctx (rc_request ctx) m,
            combined_budget (check_budget (quote dg ctx (rc_request ctx) m) (rc_limits ctx) (rc_env ctx))
              (check_budget (quote dg ctx (cache_miss_request (rc_request ctx)) m) (rc_limits ctx) (rc_env ctx))
              (quote dg ctx (cache_miss_request (rc_request ctx)) m),
            Some (quote dg ctx (cache_miss_request (rc_request ctx)) m)))"
  by (simp add: budget_of_def Let_def quote_cache_read)

section \<open>The samples are valid\<close>

lemma sample_bundle_ok: "bundle_ok sample_bundle"
  by code_simp

lemma sample_environment_ok: "environment_ok sample_environment"
  by code_simp

lemma sample_request_ok: "request_ok sample_request"
  by code_simp

definition decision_with :: "(route_decision \<Rightarrow> bool) \<Rightarrow> route_result res \<Rightarrow> bool" where
  "decision_with P x = (case x of Inr (Decision d) \<Rightarrow> P d | _ \<Rightarrow> False)"

lemma decision_withD: "decision_with P x \<Longrightarrow> \<exists>d. x = Inr (Decision d) \<and> P d"
  by (auto simp: decision_with_def split: sum.splits route_result.splits)

lemma capped_route:
  "decision_with rt_executable
     (route sample_digests capped_request plain_classification sample_environment sample_bundle None)"
  by code_simp

text \<open>A repository-wide task prefers the highest tier; the cap forbids it and the floor is waived.\<close>

definition wide_classification :: classification where
  "wide_classification = sample_classification\<lparr>cl_flags := [(''repository_wide'', True)]\<rparr>"

lemma relaxed_route:
  "decision_with (\<lambda>d. rt_model_tier d = 0 \<and> list_ex (\<lambda>f. fe_strength f = Strength_preferred
        \<and> 0 < fe_min_tier f) (rd_floors (db_rationale_details d)))
     (route sample_digests capped_request wide_classification sample_environment sample_bundle None)"
  by code_simp

end
