(* ===== verification/ExecutionContracts.thy ===== *)
theory ExecutionContracts
  imports Contracts
begin

text \<open>
  The records of \<^verbatim>\<open>core/execution_contracts.py\<close> that the recovery policy, the admission
  control and the budget authorities exchange. A \<^verbatim>\<open>Duration\<close> is a positive count; the
  validators state it. The actions of a recovery proposal and the sources of a failure are
  enumerations of the source's literals. The arguments of a tool call are opaque to the modelled
  code, which only compares them: they are a token for the contents of the dict. The output type
  of the controls, a class of the caller's, is the test whether it accepts a dumped model.
\<close>

datatype task_status =
    Created | Classified | Routed | Admitted | Running | Validating | Recovering
  | Succeeded | Failed | Blocked | Cancelled

datatype attempt_status =
    Attempt_started | Attempt_succeeded | Attempt_failed | Attempt_unknown | Attempt_cancelled

datatype failure_source =
    Source_provider | Source_adapter | Source_validation | Source_tool | Source_admission
  | Source_orchestrator | Source_storage | Source_classifier | Source_evaluator

record failure =
  fl_failure_type :: failure_type
  fl_source :: failure_source
  fl_stage :: string
  fl_cause_code :: string
  fl_retryable :: bool
  fl_retry_after_ms :: "nat option"

record execution_limits =
  xl_max_total_generation_attempts :: nat
  xl_max_quality_escalations :: nat
  xl_max_infrastructure_retries :: nat
  xl_max_tool_recoveries :: nat
  xl_max_elapsed_ms :: nat
  xl_initial_backoff_ms :: nat
  xl_max_backoff_ms :: nat
  xl_task_cost_ceiling_usd :: decimal

definition execution_limits_ok :: "execution_limits \<Rightarrow> bool" where
  "execution_limits_ok l = (0 < xl_max_total_generation_attempts l \<and> 0 < xl_max_elapsed_ms l
     \<and> money_ok (xl_task_cost_ceiling_usd l))"

record counters =
  ct_generation_attempts :: nat
  ct_quality_escalations :: nat
  ct_infrastructure_retries :: nat
  ct_tool_recoveries :: nat

definition no_counters :: counters where
  "no_counters = \<lparr>ct_generation_attempts = 0, ct_quality_escalations = 0, ct_infrastructure_retries = 0,
     ct_tool_recoveries = 0\<rparr>"

record route_target =
  tg_model :: string
  tg_effort :: effort

datatype action_kind =
    Increase_effort | Increase_tier | Retry_backoff | Health_aware_fallback
  | Retry_tool | Alternate_tool | Recoverable_failure | Stop_reconcile | Diagnose
  | Retry_evaluator | Stop_action | Stop_budget | Stop_deadline | Stop_attempts | Stop_approval
  | Stop_succeeded

record recovery_action =
  ra_action :: action_kind
  ra_failure :: "failure_type option"
  ra_original_failure :: "failure_type option"
  ra_route :: "route_target option"
  ra_validated :: bool
  ra_backoff_ms :: nat
  ra_rationale_codes :: "string list"
  ra_reason :: string

record tool_call =
  tl_tool :: string
  tl_operation :: string
  tl_side_effecting :: bool
  tl_idempotency_key :: "string option"
  tl_reconciliation_evidence :: bool
  tl_cost_upper_bound_usd :: "decimal option"
  tl_arguments :: string
  tl_alternate_tool :: "string option"

text \<open>A dumped model: its fields, with tokens for their values.\<close>

type_synonym dumped_model = "(string \<times> string) list"

record execution_controls =
  xc_idempotency_key :: "string option"
  xc_authorized :: bool
  xc_authorized_tools :: "string list"
  xc_side_effects_authorized :: bool
  xc_tool_calls :: "tool_call list"
  xc_expected_fields :: "string list"
  xc_required_checks :: "string list"
  xc_output_type :: "(dumped_model \<Rightarrow> bool) option"

record recovery_context =
  rx_decision :: route_decision
  rx_failure :: failure
  rx_counters :: counters
  rx_limits :: execution_limits
  rx_environment :: environment
  rx_remaining_usd :: decimal
  rx_elapsed_ms :: nat
  rx_validated :: bool
  rx_original_failure :: "failure_type option"
  rx_tool_call :: "tool_call option"
  rx_tool_retryable :: bool
  rx_alternate_authorized :: bool

definition truthy_name :: "string option \<Rightarrow> bool" where
  "truthy_name v = (case v of None \<Rightarrow> False | Some s \<Rightarrow> s \<noteq> [])"

text \<open>A side effect may be repeated only under an idempotency key or with reconciliation evidence.\<close>

definition replay_safe :: "tool_call \<Rightarrow> bool" where
  "replay_safe call = (truthy_name (tl_idempotency_key call) \<or> tl_reconciliation_evidence call)"

end
