(* ===== verification/Recovery.thy ===== *)
theory Recovery
  imports ExecutionContracts Modifiers
begin

text \<open>
  The recovery policy of \<^verbatim>\<open>escalation/recovery.py\<close>: one bounded proposal for a normalized
  failure. The lemmas say that the saturating backoff is the doubling sequence cut off at the
  maximum, that the failure programs are exhaustive and total on an accepted bundle, that a
  quality escalation strictly climbs the ladder of tiers and efforts (so the ladder ends), that a
  health-aware fallback never raises the tier nor falls below a hard floor, that retries keep
  within attempts, backoff bound and deadline, and that no unsafe side effect is replayed.
\<close>

section \<open>Proposals\<close>

definition action_of :: "recovery_context \<Rightarrow> action_kind \<Rightarrow> string \<Rightarrow> failure_type option
    \<Rightarrow> failure_type option \<Rightarrow> route_target option \<Rightarrow> string list \<Rightarrow> nat \<Rightarrow> recovery_action" where
  "action_of ctx action reason failure original_failure route rationale_codes backoff =
     \<lparr>ra_action = action,
      ra_failure = (if failure = None then Some (fl_failure_type (rx_failure ctx)) else failure),
      ra_original_failure = (if original_failure = None then rx_original_failure ctx else original_failure),
      ra_route = route, ra_validated = rx_validated ctx, ra_backoff_ms = backoff,
      ra_rationale_codes = rationale_codes, ra_reason = reason\<rparr>"

definition or_failure :: "failure_type option \<Rightarrow> failure_type \<Rightarrow> failure_type" where
  "or_failure original observed = (case original of None \<Rightarrow> observed | Some f \<Rightarrow> f)"

definition current_route :: "recovery_context \<Rightarrow> route_target" where
  "current_route ctx = \<lparr>tg_model = rt_selected_model_alias (rx_decision ctx),
     tg_effort = rt_reasoning_effort (rx_decision ctx)\<rparr>"

definition model_of :: "policy_bundle \<Rightarrow> string \<Rightarrow> model_entry res" where
  "model_of b alias = (case map_of (bundle_models b) alias of None \<Rightarrow> Inl ValueError | Some m \<Rightarrow> Inr m)"

definition attempts_exhausted :: "recovery_context \<Rightarrow> recovery_action" where
  "attempts_exhausted ctx = action_of ctx Stop_attempts ''recovery_attempts_exhausted'' (Some BUDGET_FAILURE)
     (Some (or_failure (rx_original_failure ctx) (fl_failure_type (rx_failure ctx)))) None [] 0"

definition bounded_stop :: "recovery_context \<Rightarrow> failure_type \<Rightarrow> recovery_action option" where
  "bounded_stop ctx original_failure =
     (if dec_le (rx_remaining_usd ctx) ZERO
      then Some (action_of ctx Stop_budget ''remaining_budget_exhausted'' (Some BUDGET_FAILURE)
        (Some original_failure) None [] 0)
      else if xl_max_elapsed_ms (rx_limits ctx) \<le> rx_elapsed_ms ctx
      then Some (action_of ctx Stop_deadline ''recovery_deadline_exhausted'' (Some BUDGET_FAILURE)
        (Some original_failure) None [] 0)
      else None)"

section \<open>Targets\<close>

definition configured_efforts :: "policy_bundle \<Rightarrow> nat \<Rightarrow> string \<Rightarrow> effort list" where
  "configured_efforts b score alias =
     (case find (\<lambda>band. cb_min band \<le> score \<and> score \<le> cb_max band) (pol_complexity_bands (pb_policy b)) of
        None \<Rightarrow> []
      | Some band \<Rightarrow> (case find (\<lambda>c. cs_model c = alias) (cb_candidates band) of
            None \<Rightarrow> [] | Some c \<Rightarrow> cs_efforts c))"

text \<open>The part of a list behind the first occurrence of a value.\<close>

definition after_first :: "'a \<Rightarrow> 'a list \<Rightarrow> 'a list" where
  "after_first x xs = tl (dropWhile (\<lambda>y. y \<noteq> x) xs)"

definition next_prior_effort :: "recovery_context \<Rightarrow> policy_bundle \<Rightarrow> model_entry \<Rightarrow> effort option" where
  "next_prior_effort ctx b m =
     (let configured = configured_efforts b (db_complexity_score (rx_decision ctx))
            (rt_selected_model_alias (rx_decision ctx));
          current = rt_reasoning_effort (rx_decision ctx)
      in if current \<notin> set (me_reasoning_efforts m) then None
         else find (\<lambda>e. e \<in> set configured) (after_first current (me_reasoning_efforts m)))"

definition preferred_effort :: "model_entry \<Rightarrow> policy_bundle \<Rightarrow> effort option" where
  "preferred_effort m b = find (\<lambda>e. e \<in> set (me_reasoning_efforts m))
     (sel_floor_candidate_effort_preference (pol_selection (pb_policy b)))"

fun first_preferred :: "policy_bundle \<Rightarrow> (string \<times> model_entry) list \<Rightarrow> route_target option" where
  "first_preferred b [] = None"
| "first_preferred b ((alias, m) # rest) =
     (case preferred_effort m b of
        Some e \<Rightarrow> Some \<lparr>tg_model = alias, tg_effort = e\<rparr>
      | None \<Rightarrow> first_preferred b rest)"

definition higher_models :: "policy_bundle \<Rightarrow> nat \<Rightarrow> (string \<times> model_entry) list" where
  "higher_models b rank = sort_key (\<lambda>(a, m). me_tier_rank m)
     (filter (\<lambda>(a, m). rank < me_tier_rank m \<and> configured_enabled m) (bundle_models b))"

definition next_tier_target :: "string \<Rightarrow> policy_bundle \<Rightarrow> route_target option res" where
  "next_tier_target current b =
     bind_res (model_of b current) (\<lambda>m. Inr (first_preferred b (higher_models b (me_tier_rank m))))"

definition minimum_permitted_rank :: "recovery_context \<Rightarrow> nat" where
  "minimum_permitted_rank ctx =
     fold (\<lambda>f lo. if fe_strength f = Strength_hard then max lo (fe_min_tier f) else lo)
       (rd_floors (db_rationale_details (rx_decision ctx)))
       (case lim_model_tier_floor (db_effective_limits (rx_decision ctx)) of None \<Rightarrow> 0 | Some lo \<Rightarrow> lo)"

text \<open>Descending rank; \<^verbatim>\<open>sorted\<close> with \<^verbatim>\<open>reverse=True\<close> keeps equal keys in source order.\<close>

definition fallback_models :: "recovery_context \<Rightarrow> policy_bundle \<Rightarrow> nat \<Rightarrow> (string \<times> model_entry) list" where
  "fallback_models ctx b current_rank = sort_key (\<lambda>(a, m). - int (me_tier_rank m))
     (filter (\<lambda>(a, m). a \<noteq> rt_selected_model_alias (rx_decision ctx)
        \<and> minimum_permitted_rank ctx \<le> me_tier_rank m \<and> me_tier_rank m \<le> current_rank
        \<and> configured_enabled m) (bundle_models b))"

definition fallback_usable :: "recovery_context \<Rightarrow> policy_bundle \<Rightarrow> string \<Rightarrow> bool" where
  "fallback_usable ctx b alias = (case map_of (env_models (rx_environment ctx)) alias of None \<Rightarrow> False
     | Some h \<Rightarrow> mh_usable h \<and> mh_state h \<notin> set (pol_health_exclude_states (pb_policy b)))"

definition fallback_effort :: "recovery_context \<Rightarrow> policy_bundle \<Rightarrow> model_entry \<Rightarrow> effort option" where
  "fallback_effort ctx b m =
     (let e = rt_reasoning_effort (rx_decision ctx)
      in if e \<in> set (me_reasoning_efforts m) then Some e else preferred_effort m b)"

fun first_usable :: "recovery_context \<Rightarrow> policy_bundle \<Rightarrow> (string \<times> model_entry) list \<Rightarrow> route_target option" where
  "first_usable ctx b [] = None"
| "first_usable ctx b ((alias, m) # rest) =
     (if \<not> fallback_usable ctx b alias then first_usable ctx b rest
      else (case fallback_effort ctx b m of
              Some e \<Rightarrow> Some \<lparr>tg_model = alias, tg_effort = e\<rparr>
            | None \<Rightarrow> first_usable ctx b rest))"

definition healthy_fallback :: "recovery_context \<Rightarrow> policy_bundle \<Rightarrow> route_target option res" where
  "healthy_fallback ctx b =
     bind_res (model_of b (rt_selected_model_alias (rx_decision ctx))) (\<lambda>m.
     Inr (first_usable ctx b (fallback_models ctx b (me_tier_rank m))))"

section \<open>Backoff\<close>

fun bit_length :: "nat \<Rightarrow> nat" where
  "bit_length n = (if n = 0 then 0 else Suc (bit_length (n div 2)))"

declare bit_length.simps [simp del]

definition backoff_ms :: "recovery_context \<Rightarrow> nat" where
  "backoff_ms ctx =
     (let exponent = ct_infrastructure_retries (rx_counters ctx);
          initial = xl_initial_backoff_ms (rx_limits ctx);
          maximum = xl_max_backoff_ms (rx_limits ctx);
          computed = (if initial = 0 \<or> maximum = 0 then 0
            else if bit_length (maximum div initial) \<le> exponent then maximum
            else min (initial * 2 ^ exponent) maximum)
      in case fl_retry_after_ms (rx_failure ctx) of None \<Rightarrow> computed | Some r \<Rightarrow> max computed r)"

section \<open>The failure programs\<close>

definition generation_exhausted :: "recovery_context \<Rightarrow> bool" where
  "generation_exhausted ctx =
     (xl_max_total_generation_attempts (rx_limits ctx) \<le> ct_generation_attempts (rx_counters ctx))"

definition quality_recovery :: "recovery_context \<Rightarrow> policy_bundle \<Rightarrow> recovery_action res" where
  "quality_recovery ctx b =
     (if generation_exhausted ctx
         \<or> xl_max_quality_escalations (rx_limits ctx) \<le> ct_quality_escalations (rx_counters ctx)
      then Inr (attempts_exhausted ctx)
      else
        let current_model = rt_selected_model_alias (rx_decision ctx) in
        bind_res (model_of b current_model) (\<lambda>m.
        case next_prior_effort ctx b m of
          Some e \<Rightarrow> Inr (action_of ctx Increase_effort ''configured_effort_step'' None None
            (Some \<lparr>tg_model = current_model, tg_effort = e\<rparr>) [''QUALITY_ESCALATION''] 0)
        | None \<Rightarrow>
            bind_res (next_tier_target current_model b) (\<lambda>target.
            case target of
              Some t \<Rightarrow> Inr (action_of ctx Increase_tier ''configured_tier_step'' None None
                (Some t) [''QUALITY_ESCALATION''] 0)
            | None \<Rightarrow> Inr (action_of ctx Stop_action ''no_higher_configured_tier'' (Some CAPABILITY_FAILURE)
                (Some (or_failure (rx_original_failure ctx) QUALITY_FAILURE)) None [] 0))))"

text \<open>The retry on the current route, once no fallback applies.\<close>

definition retry_current :: "recovery_context \<Rightarrow> recovery_action" where
  "retry_current ctx =
     (if \<not> fl_retryable (rx_failure ctx)
      then action_of ctx Recoverable_failure ''infrastructure_not_retryable'' None None None
        [''INFRASTRUCTURE_RECOVERY''] 0
      else if (case fl_retry_after_ms (rx_failure ctx) of None \<Rightarrow> False
                | Some r \<Rightarrow> xl_max_backoff_ms (rx_limits ctx) < r)
      then action_of ctx Recoverable_failure ''retry_after_exceeds_backoff_bound'' None None None
        [''INFRASTRUCTURE_RECOVERY''] 0
      else if xl_max_elapsed_ms (rx_limits ctx) \<le> rx_elapsed_ms ctx + backoff_ms ctx
      then action_of ctx Stop_deadline ''backoff_exceeds_deadline'' (Some BUDGET_FAILURE)
        (Some (or_failure (rx_original_failure ctx) (fl_failure_type (rx_failure ctx)))) None [] 0
      else action_of ctx Retry_backoff ''bounded_infrastructure_retry'' None None
        (Some (current_route ctx)) [''INFRASTRUCTURE_RECOVERY''] (backoff_ms ctx))"

definition route_unwell :: "model_health \<Rightarrow> bool" where
  "route_unwell h = (\<not> mh_usable h \<or> mh_state h \<in> {DEGRADED, UNHEALTHY})"

definition route_down :: "model_health \<Rightarrow> bool" where
  "route_down h = (\<not> mh_usable h \<or> mh_state h = UNHEALTHY)"

definition infrastructure_recovery :: "recovery_context \<Rightarrow> policy_bundle \<Rightarrow> recovery_action res" where
  "infrastructure_recovery ctx b =
     (if generation_exhausted ctx
         \<or> xl_max_infrastructure_retries (rx_limits ctx) \<le> ct_infrastructure_retries (rx_counters ctx)
      then Inr (attempts_exhausted ctx)
      else (case map_of (env_models (rx_environment ctx)) (rt_selected_model_alias (rx_decision ctx)) of
              None \<Rightarrow> Inr (retry_current ctx)
            | Some h \<Rightarrow>
                if \<not> route_unwell h then Inr (retry_current ctx)
                else bind_res (healthy_fallback ctx b) (\<lambda>fallback.
                  case fallback of
                    Some t \<Rightarrow> Inr (action_of ctx Health_aware_fallback ''current_route_not_healthy'' None None
                      (Some t) [''INFRASTRUCTURE_RECOVERY'', ''MODEL_DEGRADED''] 0)
                  | None \<Rightarrow>
                      if route_down h
                      then Inr (action_of ctx Recoverable_failure ''no_safe_infrastructure_fallback'' None None
                        None [''INFRASTRUCTURE_RECOVERY''] 0)
                      else Inr (retry_current ctx))))"

definition tool_recovery :: "recovery_context \<Rightarrow> recovery_action" where
  "tool_recovery ctx =
     (if xl_max_tool_recoveries (rx_limits ctx) \<le> ct_tool_recoveries (rx_counters ctx)
      then attempts_exhausted ctx
      else (case rx_tool_call ctx of
              None \<Rightarrow> action_of ctx Recoverable_failure ''tool_recovery_unavailable'' None None None
                [''TOOL_RECOVERY''] 0
            | Some call \<Rightarrow>
                if tl_side_effecting call \<and> \<not> replay_safe call
                then action_of ctx Stop_reconcile ''unsafe_side_effect_replay'' None None None
                  [''TOOL_RECOVERY''] 0
                else if rx_tool_retryable ctx
                then action_of ctx Retry_tool ''safe_tool_retry'' None
                  (Some (or_failure (rx_original_failure ctx) TOOL_FAILURE)) (Some (current_route ctx))
                  [''TOOL_RECOVERY''] 0
                else if rx_alternate_authorized ctx \<and> tl_alternate_tool call \<noteq> None
                then action_of ctx Alternate_tool ''authorized_alternate_tool'' None None
                  (Some (current_route ctx)) [''TOOL_RECOVERY''] 0
                else action_of ctx Recoverable_failure ''tool_recovery_unavailable'' None None None
                  [''TOOL_RECOVERY''] 0))"

definition choose_recovery :: "recovery_context \<Rightarrow> policy_bundle \<Rightarrow> recovery_action res" where
  "choose_recovery ctx b =
     (let failure_type = fl_failure_type (rx_failure ctx);
          original_failure = or_failure (rx_original_failure ctx) failure_type;
          escalation = pol_escalation (pb_policy b)
      in if failure_type \<in> set (es_terminal_failure_types escalation)
         then Inr (action_of ctx Stop_action ''terminal_failure'' (Some failure_type)
           (rx_original_failure ctx) None [] 0)
         else (case bounded_stop ctx original_failure of
           Some bounded \<Rightarrow> Inr bounded
         | None \<Rightarrow>
             if failure_type \<in> set (es_quality_failure_types escalation) then quality_recovery ctx b
             else if failure_type \<in> set (es_infrastructure_failure_types escalation)
             then infrastructure_recovery ctx b
             else if failure_type \<in> set (es_tool_failure_types escalation) then Inr (tool_recovery ctx)
             else if failure_type \<in> set (es_diagnostic_failure_types escalation)
             then Inr (action_of ctx Diagnose ''diagnosis_required'' None None (Some (current_route ctx)) [] 0)
             else Inr (action_of ctx Stop_action ''unsupported_failure_program'' (Some UNKNOWN_FAILURE)
               (Some original_failure) None [] 0)))"


section \<open>Facts about the targets\<close>

lemma action_of_fields [simp]:
  "ra_action (action_of ctx k r f o' t cs n) = k"
  "ra_route (action_of ctx k r f o' t cs n) = t"
  "ra_backoff_ms (action_of ctx k r f o' t cs n) = n"
  "ra_reason (action_of ctx k r f o' t cs n) = r"
  "ra_rationale_codes (action_of ctx k r f o' t cs n) = cs"
  "ra_validated (action_of ctx k r f o' t cs n) = rx_validated ctx"
  by (simp_all add: action_of_def)

lemma model_of_Inr [simp]: "model_of b alias = Inr m \<longleftrightarrow> map_of (bundle_models b) alias = Some m"
  by (auto simp: model_of_def split: option.splits)

lemma after_first_split: "x \<in> set xs \<Longrightarrow> \<exists>ys. xs = ys @ x # after_first x xs \<and> x \<notin> set ys"
proof (induction xs)
  case (Cons a xs)
  show ?case
  proof (cases "a = x")
    case True
    then show ?thesis by (auto simp: after_first_def)
  next
    case False
    with Cons obtain ys where "xs = ys @ x # after_first x xs" "x \<notin> set ys" by auto
    then have "a # xs = (a # ys) @ x # after_first x (a # xs)" "x \<notin> set (a # ys)"
      using False by (simp_all add: after_first_def)
    then show ?thesis by blast
  qed
qed simp

text \<open>The position of an effort in the order the catalog lists them.\<close>

definition effort_index :: "model_entry \<Rightarrow> effort \<Rightarrow> nat" where
  "effort_index m e = length (takeWhile (\<lambda>x. x \<noteq> e) (me_reasoning_efforts m))"

lemma takeWhile_neq_split: "x \<notin> set ys \<Longrightarrow> takeWhile (\<lambda>y. y \<noteq> x) (ys @ x # zs) = ys"
  by (induction ys) auto

lemma effort_index_split:
  "me_reasoning_efforts m = ys @ e # zs \<Longrightarrow> e \<notin> set ys \<Longrightarrow> effort_index m e = length ys"
  by (simp add: effort_index_def takeWhile_neq_split)

lemma effort_index_bound: "e \<in> set (me_reasoning_efforts m) \<Longrightarrow>
    effort_index m e < length (me_reasoning_efforts m)"
  by (auto simp: effort_index_split dest!: split_list_first)

lemma after_first_later:
  assumes d: "distinct (me_reasoning_efforts m)" and e: "e \<in> set (me_reasoning_efforts m)"
    and f: "f \<in> set (after_first e (me_reasoning_efforts m))"
  shows "f \<in> set (me_reasoning_efforts m)" and "effort_index m e < effort_index m f"
proof -
  obtain ys where ys: "me_reasoning_efforts m = ys @ e # after_first e (me_reasoning_efforts m)" "e \<notin> set ys"
    using after_first_split [OF e] by blast
  obtain us vs where us: "after_first e (me_reasoning_efforts m) = us @ f # vs" "f \<notin> set us"
    using split_list_first [OF f] by blast
  show "f \<in> set (me_reasoning_efforts m)" using ys(1) f by (metis Un_iff list.set_intros(2) set_append)
  have all: "me_reasoning_efforts m = (ys @ e # us) @ f # vs" using ys(1) us(1) by simp
  then have "f \<notin> set (ys @ e # us)" using d by auto
  from effort_index_split [OF all this] effort_index_split [OF ys]
  show "effort_index m e < effort_index m f" by simp
qed

lemma next_prior_effort_later:
  assumes "distinct (me_reasoning_efforts m)" and "next_prior_effort ctx b m = Some e"
  shows "e \<in> set (me_reasoning_efforts m)"
    and "effort_index m (rt_reasoning_effort (rx_decision ctx)) < effort_index m e"
    and "e \<in> set (configured_efforts b (db_complexity_score (rx_decision ctx))
           (rt_selected_model_alias (rx_decision ctx)))"
proof -
  from assms(2) have cur: "rt_reasoning_effort (rx_decision ctx) \<in> set (me_reasoning_efforts m)"
    and f: "find (\<lambda>e. e \<in> set (configured_efforts b (db_complexity_score (rx_decision ctx))
        (rt_selected_model_alias (rx_decision ctx))))
      (after_first (rt_reasoning_effort (rx_decision ctx)) (me_reasoning_efforts m)) = Some e"
    by (auto simp: next_prior_effort_def Let_def split: if_splits)
  from find_Some_set [OF f] have "e \<in> set (after_first (rt_reasoning_effort (rx_decision ctx)) (me_reasoning_efforts m))"
    by simp
  from after_first_later [OF assms(1) cur this] find_Some_set [OF f]
  show "e \<in> set (me_reasoning_efforts m)"
    and "effort_index m (rt_reasoning_effort (rx_decision ctx)) < effort_index m e"
    and "e \<in> set (configured_efforts b (db_complexity_score (rx_decision ctx))
           (rt_selected_model_alias (rx_decision ctx)))"
    by simp_all
qed

lemma preferred_effort_supported: "preferred_effort m b = Some e \<Longrightarrow> e \<in> set (me_reasoning_efforts m)"
  by (auto simp: preferred_effort_def dest: find_Some_set)

lemma preferred_effort_total:
  assumes "bundle_ok b" and "(a, m) \<in> set (bundle_models b)" and "configured_enabled m"
  shows "\<exists>e. preferred_effort m b = Some e"
proof -
  have "list_ex (\<lambda>e. e \<in> set (me_reasoning_efforts m))
      (sel_floor_candidate_effort_preference (pol_selection (pb_policy b)))"
    using bundle_okD(5) [OF assms(1)] assms(2,3) by (auto simp: policy_refs_ok_def list_all_iff)
  then show ?thesis
    by (auto simp: preferred_effort_def list_ex_iff find_None_iff simp flip: not_None_eq)
qed

text \<open>Both target searches return the first entry of their list that qualifies.\<close>

lemma first_preferred_Some:
  "first_preferred b xs = Some t \<Longrightarrow>
     \<exists>m us vs. xs = us @ (tg_model t, m) # vs \<and> preferred_effort m b = Some (tg_effort t)
       \<and> (\<forall>(c, k) \<in> set us. preferred_effort k b = None)"
proof (induction b xs rule: first_preferred.induct)
  case (2 b a m rest)
  show ?case
  proof (cases "preferred_effort m b")
    case None
    with 2 obtain k us vs where "rest = us @ (tg_model t, k) # vs" "preferred_effort k b = Some (tg_effort t)"
      "\<forall>(c, k) \<in> set us. preferred_effort k b = None" by auto
    with None have "(a, m) # rest = ((a, m) # us) @ (tg_model t, k) # vs"
      "\<forall>(c, k) \<in> set ((a, m) # us). preferred_effort k b = None" by auto
    with \<open>preferred_effort k b = Some (tg_effort t)\<close> show ?thesis by blast
  next
    case (Some e)
    with 2 have "(a, m) # rest = [] @ (tg_model t, m) # rest" "preferred_effort m b = Some (tg_effort t)"
      by auto
    then show ?thesis by (metis empty_iff list.set(1))
  qed
qed simp

lemma first_preferred_None:
  "first_preferred b xs = None \<longleftrightarrow> (\<forall>(a, m) \<in> set xs. preferred_effort m b = None)"
  by (induction b xs rule: first_preferred.induct) (auto split: option.splits)

abbreviation fallback_candidate :: "recovery_context \<Rightarrow> policy_bundle \<Rightarrow> string \<times> model_entry \<Rightarrow> bool" where
  "fallback_candidate ctx b x \<equiv> fallback_usable ctx b (fst x) \<and> fallback_effort ctx b (snd x) \<noteq> None"

lemma first_usable_Some:
  "first_usable ctx b xs = Some t \<Longrightarrow>
     \<exists>m us vs. xs = us @ (tg_model t, m) # vs \<and> fallback_usable ctx b (tg_model t)
       \<and> fallback_effort ctx b m = Some (tg_effort t) \<and> (\<forall>x \<in> set us. \<not> fallback_candidate ctx b x)"
proof (induction ctx b xs rule: first_usable.induct)
  case (2 ctx b a m rest)
  show ?case
  proof (cases "fallback_candidate ctx b (a, m)")
    case False
    then have "first_usable ctx b rest = Some t" using "2.prems" by (auto split: if_splits option.splits)
    with False 2 obtain k us vs where "rest = us @ (tg_model t, k) # vs" "fallback_usable ctx b (tg_model t)"
      "fallback_effort ctx b k = Some (tg_effort t)" "\<forall>x \<in> set us. \<not> fallback_candidate ctx b x"
      by (metis (no_types, lifting) fst_conv not_None_eq snd_conv)
    moreover from this False have "(a, m) # rest = ((a, m) # us) @ (tg_model t, k) # vs"
      "\<forall>x \<in> set ((a, m) # us). \<not> fallback_candidate ctx b x" by auto
    ultimately show ?thesis by blast
  next
    case True
    with 2 have "(a, m) # rest = [] @ (tg_model t, m) # rest" "fallback_usable ctx b (tg_model t)"
      "fallback_effort ctx b m = Some (tg_effort t)" by auto
    then show ?thesis by (metis empty_iff list.set(1))
  qed
qed simp

lemma first_usable_None:
  "first_usable ctx b xs = None \<longleftrightarrow> (\<forall>x \<in> set xs. \<not> fallback_candidate ctx b x)"
  by (induction ctx b xs rule: first_usable.induct) (auto split: option.splits)

lemma sorted_prefix_le:
  "sorted (map f (us @ x # vs)) \<Longrightarrow> y \<in> set vs \<Longrightarrow> f x \<le> f y"
  by (auto simp: sorted_append)

text \<open>The minimum rank is the larger of the effective floor and every hard floor.\<close>

lemma minimum_permitted_rank_ge:
  shows "lim_model_tier_floor (db_effective_limits (rx_decision ctx)) = Some lo \<Longrightarrow> lo \<le> minimum_permitted_rank ctx"
    and "f \<in> set (rd_floors (db_rationale_details (rx_decision ctx))) \<Longrightarrow> fe_strength f = Strength_hard
      \<Longrightarrow> fe_min_tier f \<le> minimum_permitted_rank ctx"
proof -
  have mono: "start \<le> fold (\<lambda>f lo. if fe_strength f = Strength_hard then max lo (fe_min_tier f) else lo) fs start"
    for fs :: "floor_evidence list" and start :: nat
  proof (induction fs arbitrary: start)
    case (Cons g fs)
    show ?case
      using Cons.IH [of "if fe_strength g = Strength_hard then max start (fe_min_tier g) else start"]
      by (auto split: if_splits)
  qed simp
  have hard: "f \<in> set fs \<Longrightarrow> fe_strength f = Strength_hard \<Longrightarrow>
      fe_min_tier f \<le> fold (\<lambda>f lo. if fe_strength f = Strength_hard then max lo (fe_min_tier f) else lo) fs start"
    for f and fs :: "floor_evidence list" and start :: nat
  proof (induction fs arbitrary: start)
    case (Cons g fs)
    show ?case
    proof (cases "f = g")
      case True
      then show ?thesis using Cons.prems mono [of "max start (fe_min_tier g)" fs] by simp
    next
      case False
      then show ?thesis using Cons by auto
    qed
  qed simp
  show "lim_model_tier_floor (db_effective_limits (rx_decision ctx)) = Some lo \<Longrightarrow> lo \<le> minimum_permitted_rank ctx"
    unfolding minimum_permitted_rank_def by (simp add: mono)
  show "f \<in> set (rd_floors (db_rationale_details (rx_decision ctx))) \<Longrightarrow> fe_strength f = Strength_hard
      \<Longrightarrow> fe_min_tier f \<le> minimum_permitted_rank ctx"
    unfolding minimum_permitted_rank_def by (rule hard)
qed

section \<open>Backoff\<close>

lemma bit_length_bound: "n < 2 ^ bit_length n"
proof (induction n rule: bit_length.induct)
  case (1 n)
  show ?case
  proof (cases "n = 0")
    case False
    with 1 have "n div 2 < 2 ^ bit_length (n div 2)" by simp
    then have "n < 2 * 2 ^ bit_length (n div 2)" by linarith
    with False show ?thesis by (simp add: bit_length.simps [of n])
  qed (simp add: bit_length.simps)
qed

lemma saturated_doubling:
  fixes initial maximum exponent :: nat
  assumes "0 < initial" and "bit_length (maximum div initial) \<le> exponent"
  shows "maximum \<le> initial * 2 ^ exponent"
proof -
  have "maximum div initial < 2 ^ exponent"
    using bit_length_bound [of "maximum div initial"] assms(2)
    by (meson le_less_trans less_le_trans one_le_numeral order_less_imp_le power_increasing)
  then show ?thesis using assms(1) by (simp add: div_less_iff_less_mult mult.commute order_less_imp_le)
qed

lemma backoff_ms_doubling:
  "backoff_ms ctx =
     max (min (xl_initial_backoff_ms (rx_limits ctx) * 2 ^ ct_infrastructure_retries (rx_counters ctx))
            (xl_max_backoff_ms (rx_limits ctx)))
       (case fl_retry_after_ms (rx_failure ctx) of None \<Rightarrow> 0 | Some r \<Rightarrow> r)"
  using saturated_doubling [of "xl_initial_backoff_ms (rx_limits ctx)" "xl_max_backoff_ms (rx_limits ctx)"
      "ct_infrastructure_retries (rx_counters ctx)"]
  by (auto simp: backoff_ms_def Let_def split: option.splits)


section \<open>The programs\<close>

lemma bounded_stop_actions: "bounded_stop ctx f = Some a \<Longrightarrow> ra_action a \<in> {Stop_budget, Stop_deadline} \<and> ra_route a = None"
  by (auto simp: bounded_stop_def split: if_splits)

lemma bounded_stop_None:
  "bounded_stop ctx f = None \<longleftrightarrow>
     0 < dval (rx_remaining_usd ctx) \<and> rx_elapsed_ms ctx < xl_max_elapsed_ms (rx_limits ctx)"
  by (auto simp: bounded_stop_def)

lemma attempts_exhausted_action [simp]:
  "ra_action (attempts_exhausted ctx) = Stop_attempts" "ra_route (attempts_exhausted ctx) = None"
  "ra_reason (attempts_exhausted ctx) = ''recovery_attempts_exhausted''"
  by (simp_all add: attempts_exhausted_def)

lemma quality_recovery_actions:
  "quality_recovery ctx b = Inr a \<Longrightarrow> ra_action a \<in> {Stop_attempts, Increase_effort, Increase_tier, Stop_action}"
  by (auto simp: quality_recovery_def Let_def bind_res_Inr_iff split: if_splits option.splits)

lemma retry_current_actions: "ra_action (retry_current ctx) \<in> {Recoverable_failure, Stop_deadline, Retry_backoff}"
  by (auto simp: retry_current_def split: option.splits)

lemma infrastructure_recovery_actions:
  "infrastructure_recovery ctx b = Inr a \<Longrightarrow>
     ra_action a \<in> {Stop_attempts, Health_aware_fallback, Recoverable_failure, Stop_deadline, Retry_backoff}"
  using retry_current_actions [of ctx]
  by (auto simp: infrastructure_recovery_def bind_res_Inr_iff split: if_splits option.splits)

text \<open>The outcomes of the infrastructure program.\<close>

lemma infrastructure_recovery_cases:
  assumes "infrastructure_recovery ctx b = Inr a"
  obtains (exhausted) "a = attempts_exhausted ctx"
  | (retry) "a = retry_current ctx" "\<not> generation_exhausted ctx"
      "ct_infrastructure_retries (rx_counters ctx) < xl_max_infrastructure_retries (rx_limits ctx)"
  | (fallback) t where "healthy_fallback ctx b = Inr (Some t)"
      "a = action_of ctx Health_aware_fallback ''current_route_not_healthy'' None None
         (Some t) [''INFRASTRUCTURE_RECOVERY'', ''MODEL_DEGRADED''] 0"
  | (down) "ra_action a = Recoverable_failure" "ra_route a = None"
proof (cases "generation_exhausted ctx
    \<or> xl_max_infrastructure_retries (rx_limits ctx) \<le> ct_infrastructure_retries (rx_counters ctx)")
  case True
  with assms show ?thesis using exhausted by (simp add: infrastructure_recovery_def)
next
  case False
  then have live: "\<not> generation_exhausted ctx"
    "ct_infrastructure_retries (rx_counters ctx) < xl_max_infrastructure_retries (rx_limits ctx)" by auto
  note chosen = assms [unfolded infrastructure_recovery_def if_not_P [OF False]]
  show ?thesis
  proof (cases "a = retry_current ctx")
    case True
    from retry [OF this live] show ?thesis .
  next
    case other: False
    with chosen obtain h fb where "map_of (env_models (rx_environment ctx)) (rt_selected_model_alias (rx_decision ctx)) = Some h"
      "route_unwell h" "healthy_fallback ctx b = Inr fb"
      by (auto simp: bind_res_Inr_iff split: option.splits if_splits)
    with chosen other show ?thesis
      by (cases fb) (auto intro: fallback down split: if_splits)
  qed
qed

lemma tool_recovery_actions:
  "ra_action (tool_recovery ctx) \<in> {Stop_attempts, Recoverable_failure, Stop_reconcile, Retry_tool, Alternate_tool}"
  by (auto simp: tool_recovery_def split: option.splits)

text \<open>Which program made a proposal, by its action.\<close>

lemma choose_recovery_program:
  assumes "choose_recovery ctx b = Inr a"
  obtains (terminal) "ra_action a = Stop_action" "ra_route a = None" "ra_reason a = ''terminal_failure''"
  | (bounded) "ra_action a \<in> {Stop_budget, Stop_deadline}" "ra_route a = None"
      "bounded_stop ctx (or_failure (rx_original_failure ctx) (fl_failure_type (rx_failure ctx))) = Some a"
  | (quality) "quality_recovery ctx b = Inr a" "0 < dval (rx_remaining_usd ctx)"
      "rx_elapsed_ms ctx < xl_max_elapsed_ms (rx_limits ctx)"
  | (infrastructure) "infrastructure_recovery ctx b = Inr a" "0 < dval (rx_remaining_usd ctx)"
      "rx_elapsed_ms ctx < xl_max_elapsed_ms (rx_limits ctx)"
  | (tool) "a = tool_recovery ctx" "0 < dval (rx_remaining_usd ctx)"
      "rx_elapsed_ms ctx < xl_max_elapsed_ms (rx_limits ctx)"
  | (diagnostic) "ra_action a = Diagnose" "ra_route a = Some (current_route ctx)" "ra_backoff_ms a = 0"
      "ra_reason a = ''diagnosis_required''" "0 < dval (rx_remaining_usd ctx)"
      "rx_elapsed_ms ctx < xl_max_elapsed_ms (rx_limits ctx)"
  | (unsupported) "ra_action a = Stop_action" "ra_route a = None"
      "fl_failure_type (rx_failure ctx) \<notin> set (es_quality_failure_types (pol_escalation (pb_policy b))
        @ es_infrastructure_failure_types (pol_escalation (pb_policy b))
        @ es_tool_failure_types (pol_escalation (pb_policy b))
        @ es_diagnostic_failure_types (pol_escalation (pb_policy b))
        @ es_terminal_failure_types (pol_escalation (pb_policy b)))"
proof (cases "fl_failure_type (rx_failure ctx) \<in> set (es_terminal_failure_types (pol_escalation (pb_policy b)))")
  case True
  with assms show ?thesis using terminal by (auto simp: choose_recovery_def)
next
  case nt: False
  show ?thesis
  proof (cases "bounded_stop ctx (or_failure (rx_original_failure ctx) (fl_failure_type (rx_failure ctx)))")
    case (Some x)
    with assms nt have "x = a" by (simp add: choose_recovery_def Let_def)
    with Some bounded bounded_stop_actions [OF Some] show ?thesis by simp
  next
    case None
    let ?f = "fl_failure_type (rx_failure ctx)" and ?e = "pol_escalation (pb_policy b)"
    from None have live: "0 < dval (rx_remaining_usd ctx)" "rx_elapsed_ms ctx < xl_max_elapsed_ms (rx_limits ctx)"
      by (simp_all add: bounded_stop_None)
    note chosen = assms [unfolded choose_recovery_def Let_def None if_not_P [OF nt] option.case]
    consider (q) "?f \<in> set (es_quality_failure_types ?e)"
      | (i) "?f \<notin> set (es_quality_failure_types ?e)" "?f \<in> set (es_infrastructure_failure_types ?e)"
      | (t) "?f \<notin> set (es_quality_failure_types ?e)" "?f \<notin> set (es_infrastructure_failure_types ?e)"
          "?f \<in> set (es_tool_failure_types ?e)"
      | (d) "?f \<notin> set (es_quality_failure_types ?e)" "?f \<notin> set (es_infrastructure_failure_types ?e)"
          "?f \<notin> set (es_tool_failure_types ?e)" "?f \<in> set (es_diagnostic_failure_types ?e)"
      | (u) "?f \<notin> set (es_quality_failure_types ?e)" "?f \<notin> set (es_infrastructure_failure_types ?e)"
          "?f \<notin> set (es_tool_failure_types ?e)" "?f \<notin> set (es_diagnostic_failure_types ?e)"
      by blast
    then show ?thesis
    proof cases
      case q
      with chosen have "quality_recovery ctx b = Inr a" by simp
      from quality [OF this live] show ?thesis .
    next
      case i
      with chosen have "infrastructure_recovery ctx b = Inr a" by simp
      from infrastructure [OF this live] show ?thesis .
    next
      case t
      with chosen have "a = tool_recovery ctx" by simp
      from tool [OF this live] show ?thesis .
    next
      case d
      with chosen have a: "a = action_of ctx Diagnose ''diagnosis_required'' None None (Some (current_route ctx)) [] 0"
        by simp
      show ?thesis by (rule diagnostic) (use a live in simp_all)
    next
      case u
      with chosen have a: "a = action_of ctx Stop_action ''unsupported_failure_program'' (Some UNKNOWN_FAILURE)
          (Some (or_failure (rx_original_failure ctx) ?f)) None [] 0" by simp
      show ?thesis by (rule unsupported) (use a u nt in simp_all)
    qed
  qed
qed

lemma quality_program:
  assumes "choose_recovery ctx b = Inr a" and "ra_action a \<in> {Increase_effort, Increase_tier}"
  shows "quality_recovery ctx b = Inr a"
proof (rule choose_recovery_program [OF assms(1)])
  assume "a = tool_recovery ctx"
  then show ?thesis using tool_recovery_actions [of ctx] assms(2) by auto
qed (use assms(2) infrastructure_recovery_actions [of ctx b a] in auto)

lemma infrastructure_program:
  assumes "choose_recovery ctx b = Inr a" and "ra_action a \<in> {Health_aware_fallback, Retry_backoff}"
  shows "infrastructure_recovery ctx b = Inr a"
proof (rule choose_recovery_program [OF assms(1)])
  assume "a = tool_recovery ctx"
  then show ?thesis using tool_recovery_actions [of ctx] assms(2) by auto
qed (use assms(2) quality_recovery_actions [of ctx b a] in auto)

lemma tool_program:
  assumes "choose_recovery ctx b = Inr a" and "ra_action a \<in> {Retry_tool, Alternate_tool}"
  shows "a = tool_recovery ctx"
  by (rule choose_recovery_program [OF assms(1)])
    (use assms(2) quality_recovery_actions [of ctx b a] infrastructure_recovery_actions [of ctx b a] in auto)

text \<open>The failure vocabulary is exhaustive on an accepted bundle.\<close>

lemma failure_programs_exhaustive:
  assumes "bundle_ok b"
  shows "f \<in> set (es_quality_failure_types (pol_escalation (pb_policy b))
        @ es_infrastructure_failure_types (pol_escalation (pb_policy b))
        @ es_tool_failure_types (pol_escalation (pb_policy b))
        @ es_diagnostic_failure_types (pol_escalation (pb_policy b))
        @ es_terminal_failure_types (pol_escalation (pb_policy b)))"
proof -
  have "escalation_ok (pol_escalation (pb_policy b))" using bundle_okD(1) [OF assms] by (simp add: policy_ok_def)
  then show ?thesis unfolding escalation_ok_def Let_def by (simp only: set_all_failure_types) blast
qed

lemma choose_recovery_errors:
  "choose_recovery ctx b = Inl e \<Longrightarrow>
     e = ValueError \<and> map_of (bundle_models b) (rt_selected_model_alias (rx_decision ctx)) = None"
  by (auto simp: choose_recovery_def quality_recovery_def infrastructure_recovery_def next_tier_target_def
      healthy_fallback_def model_of_def Let_def bind_res_Inl_iff split: if_splits option.splits)

lemma quality_recovery_reason:
  "quality_recovery ctx b = Inr a \<Longrightarrow> ra_reason a \<noteq> ''unsupported_failure_program''"
  by (auto simp: quality_recovery_def Let_def bind_res_Inr_iff split: if_splits option.splits)

lemma infrastructure_recovery_reason:
  "infrastructure_recovery ctx b = Inr a \<Longrightarrow> ra_reason a \<noteq> ''unsupported_failure_program''"
  by (auto simp: infrastructure_recovery_def retry_current_def bind_res_Inr_iff split: if_splits option.splits)

lemma tool_recovery_reason: "ra_reason (tool_recovery ctx) \<noteq> ''unsupported_failure_program''"
  by (auto simp: tool_recovery_def split: option.splits)

lemma bounded_stop_reason:
  "bounded_stop ctx f = Some a \<Longrightarrow> ra_reason a \<noteq> ''unsupported_failure_program''"
  by (auto simp: bounded_stop_def split: if_splits)

lemma choose_recovery_supported:
  assumes "bundle_ok b" and r: "choose_recovery ctx b = Inr a"
  shows "ra_reason a \<noteq> ''unsupported_failure_program''"
  by (rule choose_recovery_program [OF r])
    (use failure_programs_exhaustive [OF assms(1)] in
      \<open>auto dest: quality_recovery_reason infrastructure_recovery_reason bounded_stop_reason
        simp: tool_recovery_reason\<close>)

lemma choose_recovery_outcome:
  assumes "bundle_ok b"
  shows "case choose_recovery ctx b of
      Inr a \<Rightarrow> ra_reason a \<noteq> ''unsupported_failure_program''
    | Inl e \<Rightarrow> e = ValueError \<and> map_of (bundle_models b) (rt_selected_model_alias (rx_decision ctx)) = None"
  using choose_recovery_supported [OF assms, of ctx] choose_recovery_errors [of ctx b]
  by (simp split: sum.splits)

text \<open>The stops: what a proposal without budget, time or attempts can be.\<close>

lemma choose_recovery_route_bounds:
  assumes r: "choose_recovery ctx b = Inr a" and t: "ra_route a \<noteq> None"
  shows "0 < dval (rx_remaining_usd ctx)"
    and "rx_elapsed_ms ctx + ra_backoff_ms a < xl_max_elapsed_ms (rx_limits ctx)"
proof -
  have elapsed: "rx_elapsed_ms ctx + ra_backoff_ms a < xl_max_elapsed_ms (rx_limits ctx)"
    if "rx_elapsed_ms ctx < xl_max_elapsed_ms (rx_limits ctx)"
      "quality_recovery ctx b = Inr a \<or> infrastructure_recovery ctx b = Inr a \<or> a = tool_recovery ctx"
    using that t
    by (elim disjE) (auto simp: quality_recovery_def infrastructure_recovery_def tool_recovery_def
        retry_current_def Let_def bind_res_Inr_iff split: if_splits option.splits)
  show "rx_elapsed_ms ctx + ra_backoff_ms a < xl_max_elapsed_ms (rx_limits ctx)"
    by (rule choose_recovery_program [OF r]) (use t elapsed in auto)
  show "0 < dval (rx_remaining_usd ctx)"
    by (rule choose_recovery_program [OF r]) (use t in auto)
qed


section \<open>Escalation climbs, fallback does not\<close>

lemma catalog_model:
  assumes "bundle_ok b" and "(n, m) \<in> set (bundle_models b)"
  shows "map_of (bundle_models b) n = Some m" and "distinct (me_reasoning_efforts m)"
  using bundle_okD(2) [OF assms(1)] assms(2)
  by (auto simp: catalog_ok_def list_all_iff model_entry_ok_def intro!: map_of_is_SomeI)

lemma increase_effort_step:
  assumes b: "bundle_ok b" and r: "choose_recovery ctx b = Inr a" and k: "ra_action a = Increase_effort"
    and m: "map_of (bundle_models b) (rt_selected_model_alias (rx_decision ctx)) = Some m"
  obtains e where "ra_route a = Some \<lparr>tg_model = rt_selected_model_alias (rx_decision ctx), tg_effort = e\<rparr>"
    and "rt_reasoning_effort (rx_decision ctx) \<in> set (me_reasoning_efforts m)"
    and "e \<in> set (me_reasoning_efforts m)"
    and "effort_index m (rt_reasoning_effort (rx_decision ctx)) < effort_index m e"
    and "e \<in> set (configured_efforts b (db_complexity_score (rx_decision ctx))
           (rt_selected_model_alias (rx_decision ctx)))"
proof -
  from k have "ra_action a \<in> {Increase_effort, Increase_tier}" by simp
  from quality_program [OF r this] obtain e where e: "next_prior_effort ctx b m = Some e"
    "ra_route a = Some \<lparr>tg_model = rt_selected_model_alias (rx_decision ctx), tg_effort = e\<rparr>"
    using k m by (auto simp: quality_recovery_def Let_def bind_res_Inr_iff split: if_splits option.splits)
  have d: "distinct (me_reasoning_efforts m)" using catalog_model(2) [OF b] m by (meson map_of_SomeD)
  have "rt_reasoning_effort (rx_decision ctx) \<in> set (me_reasoning_efforts m)"
    using e(1) by (auto simp: next_prior_effort_def Let_def split: if_splits)
  with that [OF e(2)] next_prior_effort_later [OF d e(1)] show ?thesis by blast
qed

lemma higher_models_set:
  "(n, k) \<in> set (higher_models b rank) \<longleftrightarrow>
     (n, k) \<in> set (bundle_models b) \<and> rank < me_tier_rank k \<and> configured_enabled k"
  by (auto simp: higher_models_def)

text \<open>The next tier is the lowest enabled one above the current model.\<close>

lemma first_preferred_least:
  assumes b: "bundle_ok b" and t: "first_preferred b (higher_models b rank) = Some t"
  obtains m where "map_of (bundle_models b) (tg_model t) = Some m" and "rank < me_tier_rank m"
    and "configured_enabled m" and "tg_effort t \<in> set (me_reasoning_efforts m)"
    and "\<And>n k. (n, k) \<in> set (bundle_models b) \<Longrightarrow> configured_enabled k \<Longrightarrow> rank < me_tier_rank k
       \<Longrightarrow> me_tier_rank m \<le> me_tier_rank k"
proof -
  obtain m us vs where split: "higher_models b rank = us @ (tg_model t, m) # vs"
    and e: "preferred_effort m b = Some (tg_effort t)"
    and us: "\<forall>(c, k) \<in> set us. preferred_effort k b = None"
    using first_preferred_Some [OF t] by blast
  have "(tg_model t, m) \<in> set (higher_models b rank)" using split by simp
  then have m: "(tg_model t, m) \<in> set (bundle_models b)" "rank < me_tier_rank m" "configured_enabled m"
    by (simp_all add: higher_models_set)
  have least: "me_tier_rank m \<le> me_tier_rank k"
    if k: "(n, k) \<in> set (bundle_models b)" "configured_enabled k" "rank < me_tier_rank k" for n k
  proof -
    have "(n, k) \<in> set (us @ (tg_model t, m) # vs)" using k split higher_models_set by metis
    moreover have "(n, k) \<notin> set us" using preferred_effort_total [OF b k(1,2)] us by fastforce
    moreover have "sorted (map (\<lambda>(a, m). me_tier_rank m) (us @ (tg_model t, m) # vs))"
      unfolding split [symmetric] higher_models_def by simp
    ultimately show ?thesis by (auto simp: sorted_append)
  qed
  show ?thesis
    by (rule that [OF catalog_model(1) [OF b m(1)] m(2,3) preferred_effort_supported [OF e]])
      (rule least)
qed

lemma increase_tier_step:
  assumes b: "bundle_ok b" and r: "choose_recovery ctx b = Inr a" and k: "ra_action a = Increase_tier"
  obtains t m n where "ra_route a = Some t"
    and "map_of (bundle_models b) (rt_selected_model_alias (rx_decision ctx)) = Some m"
    and "map_of (bundle_models b) (tg_model t) = Some n" and "me_tier_rank m < me_tier_rank n"
    and "configured_enabled n" and "tg_effort t \<in> set (me_reasoning_efforts n)"
    and "\<And>x l. (x, l) \<in> set (bundle_models b) \<Longrightarrow> configured_enabled l \<Longrightarrow> me_tier_rank m < me_tier_rank l
       \<Longrightarrow> me_tier_rank n \<le> me_tier_rank l"
proof -
  from k have "ra_action a \<in> {Increase_effort, Increase_tier}" by simp
  from quality_program [OF r this] obtain m t where m: "map_of (bundle_models b) (rt_selected_model_alias (rx_decision ctx)) = Some m"
    and t: "first_preferred b (higher_models b (me_tier_rank m)) = Some t" "ra_route a = Some t"
    using k by (auto simp: quality_recovery_def next_tier_target_def Let_def bind_res_Inr_iff
        split: if_splits option.splits)
  show ?thesis by (rule first_preferred_least [OF b t(1)]) (rule that [OF t(2) m])
qed

lemma fallback_models_set:
  "(n, k) \<in> set (fallback_models ctx b rank) \<longleftrightarrow>
     (n, k) \<in> set (bundle_models b) \<and> n \<noteq> rt_selected_model_alias (rx_decision ctx)
     \<and> minimum_permitted_rank ctx \<le> me_tier_rank k \<and> me_tier_rank k \<le> rank \<and> configured_enabled k"
  by (auto simp: fallback_models_def)

lemma fallback_effort_supported: "fallback_effort ctx b m = Some e \<Longrightarrow> e \<in> set (me_reasoning_efforts m)"
  by (auto simp: fallback_effort_def Let_def preferred_effort_supported split: if_splits)

lemma fallback_effort_total:
  "bundle_ok b \<Longrightarrow> (n, m) \<in> set (bundle_models b) \<Longrightarrow> configured_enabled m \<Longrightarrow> fallback_effort ctx b m \<noteq> None"
  using preferred_effort_total by (fastforce simp: fallback_effort_def Let_def)

text \<open>The fallback is the highest usable permitted model that is not above the current one.\<close>

lemma fallback_step:
  assumes b: "bundle_ok b" and r: "choose_recovery ctx b = Inr a" and k: "ra_action a = Health_aware_fallback"
  obtains t m n where "ra_route a = Some t"
    and "map_of (bundle_models b) (rt_selected_model_alias (rx_decision ctx)) = Some m"
    and "map_of (bundle_models b) (tg_model t) = Some n" and "tg_model t \<noteq> rt_selected_model_alias (rx_decision ctx)"
    and "configured_enabled n" and "minimum_permitted_rank ctx \<le> me_tier_rank n" and "me_tier_rank n \<le> me_tier_rank m"
    and "fallback_usable ctx b (tg_model t)" and "tg_effort t \<in> set (me_reasoning_efforts n)"
    and "\<And>x l. (x, l) \<in> set (fallback_models ctx b (me_tier_rank m)) \<Longrightarrow> fallback_usable ctx b x
       \<Longrightarrow> me_tier_rank l \<le> me_tier_rank n"
proof -
  from k have "ra_action a \<in> {Health_aware_fallback, Retry_backoff}" by simp
  from infrastructure_program [OF r this]
  obtain t where t0: "healthy_fallback ctx b = Inr (Some t)" "ra_route a = Some t"
    by (rule infrastructure_recovery_cases) (use k retry_current_actions [of ctx] in auto)
  then obtain m where
    m: "map_of (bundle_models b) (rt_selected_model_alias (rx_decision ctx)) = Some m"
    and t: "first_usable ctx b (fallback_models ctx b (me_tier_rank m)) = Some t" "ra_route a = Some t"
    by (auto simp: healthy_fallback_def bind_res_Inr_iff)
  obtain n us vs where split: "fallback_models ctx b (me_tier_rank m) = us @ (tg_model t, n) # vs"
    and u: "fallback_usable ctx b (tg_model t)" and e: "fallback_effort ctx b n = Some (tg_effort t)"
    and us: "\<forall>x \<in> set us. \<not> fallback_candidate ctx b x"
    using first_usable_Some [OF t(1)] by blast
  have "(tg_model t, n) \<in> set (fallback_models ctx b (me_tier_rank m))" using split by simp
  then have n: "(tg_model t, n) \<in> set (bundle_models b)" "tg_model t \<noteq> rt_selected_model_alias (rx_decision ctx)"
    "configured_enabled n" "minimum_permitted_rank ctx \<le> me_tier_rank n" "me_tier_rank n \<le> me_tier_rank m"
    by (simp_all add: fallback_models_set)
  have greatest: "me_tier_rank l \<le> me_tier_rank n"
    if l: "(x, l) \<in> set (fallback_models ctx b (me_tier_rank m))" "fallback_usable ctx b x" for x l
  proof -
    have "(x, l) \<in> set (us @ (tg_model t, n) # vs)" using l(1) split by simp
    moreover have "(x, l) \<notin> set us"
      using us l fallback_effort_total [OF b, of x l ctx] by (auto simp: fallback_models_set)
    moreover have "sorted (map (\<lambda>(a, m). - int (me_tier_rank m)) (us @ (tg_model t, n) # vs))"
      unfolding split [symmetric] fallback_models_def by simp
    ultimately show ?thesis by (auto simp: sorted_append)
  qed
  show ?thesis
    by (rule that [OF t(2) m catalog_model(1) [OF b n(1)] n(2-5) u fallback_effort_supported [OF e]])
      (rule greatest)
qed

text \<open>
  The ladder of quality escalations: \<open>escalates b t t'\<close> when some failure on route \<open>t\<close> makes the
  policy propose to escalate to \<open>t'\<close>. It climbs strictly, so it cannot be longer than the catalog.
\<close>

definition escalates :: "policy_bundle \<Rightarrow> route_target \<Rightarrow> route_target \<Rightarrow> bool" where
  "escalates b t t' = (\<exists>ctx a. current_route ctx = t \<and> choose_recovery ctx b = Inr a
     \<and> ra_action a \<in> {Increase_effort, Increase_tier} \<and> ra_route a = Some t')"

definition catalog_pairs :: "policy_bundle \<Rightarrow> (string \<times> effort) list" where
  "catalog_pairs b = concat (map (\<lambda>(n, m). map (Pair n) (me_reasoning_efforts m)) (bundle_models b))"

definition above :: "policy_bundle \<Rightarrow> route_target \<Rightarrow> route_target \<Rightarrow> bool" where
  "above b t t' = (\<exists>m n. map_of (bundle_models b) (tg_model t) = Some m
     \<and> map_of (bundle_models b) (tg_model t') = Some n \<and> tg_effort t' \<in> set (me_reasoning_efforts n)
     \<and> (me_tier_rank m < me_tier_rank n
        \<or> tg_model t = tg_model t' \<and> effort_index m (tg_effort t) < effort_index m (tg_effort t')))"

lemma escalates_above:
  assumes b: "bundle_ok b" and "escalates b t t'"
  shows "above b t t'"
proof -
  obtain ctx a where c: "current_route ctx = t" "choose_recovery ctx b = Inr a"
    "ra_action a \<in> {Increase_effort, Increase_tier}" "ra_route a = Some t'"
    using assms(2) by (auto simp: escalates_def)
  have t: "tg_model t = rt_selected_model_alias (rx_decision ctx)"
    "tg_effort t = rt_reasoning_effort (rx_decision ctx)"
    using c(1) by (auto simp: current_route_def)
  show ?thesis
  proof (cases "ra_action a = Increase_effort")
    case True
    obtain m where m: "map_of (bundle_models b) (rt_selected_model_alias (rx_decision ctx)) = Some m"
      using quality_program [OF c(2,3)] True
      by (auto simp: quality_recovery_def Let_def bind_res_Inr_iff split: if_splits)
    show ?thesis
      by (rule increase_effort_step [OF b c(2) True m]) (use c(4) t m in \<open>auto simp: above_def\<close>)
  next
    case False
    with c(3) have k: "ra_action a = Increase_tier" by simp
    show ?thesis
      by (rule increase_tier_step [OF b c(2) k]) (use c(4) t in \<open>auto simp: above_def\<close>)
  qed
qed

lemma above_trans: "above b t u \<Longrightarrow> above b u v \<Longrightarrow> above b t v"
  by (fastforce simp: above_def)

lemma above_irrefl: "\<not> above b t t"
  by (auto simp: above_def)

lemma above_chain_distinct:
  assumes "sorted_wrt (above b) ts"
  shows "distinct ts"
  using assms above_irrefl by (induction ts) auto

lemma escalation_ladder_bounded:
  assumes b: "bundle_ok b" and chain: "successively (escalates b) (t # ts)"
  shows "length ts \<le> length (catalog_pairs b)"
proof -
  have "successively (above b) (t # ts)"
    by (rule successively_mono [OF chain]) (rule escalates_above [OF b])
  moreover have "transp (above b)" by (rule transpI) (rule above_trans)
  ultimately have s: "sorted_wrt (above b) (t # ts)" by (simp add: successively_conv_sorted_wrt)
  let ?p = "\<lambda>t :: route_target. (tg_model t, tg_effort t)"
  have "inj ?p" by (rule injI) simp
  moreover have "distinct ts" using above_chain_distinct [OF s] by simp
  ultimately have d: "distinct (map ?p ts)" by (auto simp: distinct_map intro: inj_on_subset)
  have "set (map ?p ts) \<subseteq> set (catalog_pairs b)"
    using s by (fastforce simp: above_def catalog_pairs_def dest: map_of_SomeD)
  then have "card (set (map ?p ts)) \<le> card (set (catalog_pairs b))" by (rule card_mono [rotated]) simp
  with distinct_card [OF d] card_length [of "catalog_pairs b"] show ?thesis by simp
qed

section \<open>Retries\<close>

lemma retry_step:
  assumes r: "choose_recovery ctx b = Inr a" and k: "ra_action a = Retry_backoff"
  shows "ra_route a = Some (current_route ctx)" and "fl_retryable (rx_failure ctx)"
    and "ra_backoff_ms a = backoff_ms ctx"
    and "backoff_ms ctx \<le> xl_max_backoff_ms (rx_limits ctx)"
    and "ct_generation_attempts (rx_counters ctx) < xl_max_total_generation_attempts (rx_limits ctx)"
    and "ct_infrastructure_retries (rx_counters ctx) < xl_max_infrastructure_retries (rx_limits ctx)"
proof -
  from k have "ra_action a \<in> {Health_aware_fallback, Retry_backoff}" by simp
  from infrastructure_program [OF r this]
  have "a = retry_current ctx \<and> \<not> generation_exhausted ctx
    \<and> ct_infrastructure_retries (rx_counters ctx) < xl_max_infrastructure_retries (rx_limits ctx)"
    by (rule infrastructure_recovery_cases) (use k in auto)
  then have a: "a = retry_current ctx" and attempts: "\<not> generation_exhausted ctx"
    "ct_infrastructure_retries (rx_counters ctx) < xl_max_infrastructure_retries (rx_limits ctx)"
    by auto
  then show "ct_generation_attempts (rx_counters ctx) < xl_max_total_generation_attempts (rx_limits ctx)"
    and "ct_infrastructure_retries (rx_counters ctx) < xl_max_infrastructure_retries (rx_limits ctx)"
    by (simp_all add: generation_exhausted_def)
  from a k show "ra_route a = Some (current_route ctx)" and "fl_retryable (rx_failure ctx)"
    and "ra_backoff_ms a = backoff_ms ctx"
    by (auto simp: retry_current_def split: if_splits option.splits)
  from a k show "backoff_ms ctx \<le> xl_max_backoff_ms (rx_limits ctx)"
    by (auto simp: retry_current_def backoff_ms_doubling split: if_splits option.splits)
qed

lemma tool_step:
  assumes r: "choose_recovery ctx b = Inr a" and k: "ra_action a \<in> {Retry_tool, Alternate_tool}"
  obtains call where "rx_tool_call ctx = Some call" and "tl_side_effecting call \<Longrightarrow> replay_safe call"
    and "ct_tool_recoveries (rx_counters ctx) < xl_max_tool_recoveries (rx_limits ctx)"
    and "ra_action a = Retry_tool \<Longrightarrow> rx_tool_retryable ctx"
    and "ra_action a = Alternate_tool \<Longrightarrow> rx_alternate_authorized ctx \<and> tl_alternate_tool call \<noteq> None"
proof -
  have a: "a = tool_recovery ctx" by (rule tool_program [OF r k])
  with k have live: "ct_tool_recoveries (rx_counters ctx) < xl_max_tool_recoveries (rx_limits ctx)"
    by (auto simp: tool_recovery_def split: if_splits)
  show ?thesis
  proof (cases "rx_tool_call ctx")
    case None
    with a k live show ?thesis by (auto simp: tool_recovery_def)
  next
    case (Some call)
    show ?thesis
      by (rule that [OF Some _ live]) (use a k live Some in \<open>auto simp: tool_recovery_def split: if_splits\<close>)
  qed
qed

end
