(* ===== verification/Admission.thy ===== *)
theory Admission
  imports Recovery
begin

text \<open>
  The fail-closed admission check of \<^verbatim>\<open>execution/admission.py\<close>: the blocker for one next
  action, or \<open>None\<close> when it may be dispatched. The code's guards against values outside the
  declared types are kept where such a value can be written in the model: missing limits and
  controls, a negative elapsed time, an unknown action name, and amounts that are missing or
  negative (an amount that is not a finite decimal is \<open>None\<close> here). The lemmas give the exact
  condition for admission and show that a recovery proposal is never refused for lack of attempts.
\<close>

definition admission_failure :: "failure_type \<Rightarrow> string \<Rightarrow> failure" where
  "admission_failure ft cause = \<lparr>fl_failure_type = ft, fl_source = Source_admission,
     fl_stage = ''admission'', fl_cause_code = cause, fl_retryable = False, fl_retry_after_ms = None\<rparr>"

definition amount_of :: "decimal option \<Rightarrow> decimal option" where
  "amount_of value = (case value of None \<Rightarrow> None | Some d \<Rightarrow> if dec_lt d ZERO then None else Some d)"

definition tool_actions :: "string list" where
  "tool_actions = [''tool'', ''tool_recovery'', ''retry_tool'', ''alternate_tool'']"

definition admission_actions :: "string list" where
  "admission_actions = [''classification'', ''generation'', ''quality_escalation'', ''infrastructure_retry'',
     ''validation'', ''tool'', ''tool_recovery'', ''increase_effort'', ''increase_tier'', ''retry_backoff'',
     ''health_aware_fallback'', ''retry_tool'', ''alternate_tool'']"

definition generation_actions :: "string list" where
  "generation_actions = [''generation'', ''quality_escalation'', ''infrastructure_retry'', ''increase_effort'',
     ''increase_tier'', ''retry_backoff'', ''health_aware_fallback'']"

definition attempt_blocker :: "string \<Rightarrow> counters \<Rightarrow> execution_limits \<Rightarrow> failure option" where
  "attempt_blocker action counters limits =
     (if action \<notin> set admission_actions
      then Some (admission_failure CAPABILITY_FAILURE ''unknown_action'')
      else if action \<in> set generation_actions
          \<and> xl_max_total_generation_attempts limits \<le> ct_generation_attempts counters
      then Some (admission_failure UNKNOWN_FAILURE ''generation_attempts_exhausted'')
      else if action \<in> set [''quality_escalation'', ''increase_effort'', ''increase_tier'']
          \<and> xl_max_quality_escalations limits \<le> ct_quality_escalations counters
      then Some (admission_failure QUALITY_FAILURE ''quality_escalations_exhausted'')
      else if action \<in> set [''infrastructure_retry'', ''retry_backoff'', ''health_aware_fallback'']
          \<and> xl_max_infrastructure_retries limits \<le> ct_infrastructure_retries counters
      then Some (admission_failure PROVIDER_FAILURE ''infrastructure_retries_exhausted'')
      else if action \<in> set [''tool_recovery'', ''retry_tool'', ''alternate_tool'']
          \<and> xl_max_tool_recoveries limits \<le> ct_tool_recoveries counters
      then Some (admission_failure TOOL_FAILURE ''tool_recoveries_exhausted'')
      else None)"

text \<open>Equality of two tool calls: field by field, amounts by value.\<close>

definition call_eq :: "tool_call \<Rightarrow> tool_call \<Rightarrow> bool" where
  "call_eq a b = (tl_tool a = tl_tool b \<and> tl_operation a = tl_operation b
     \<and> tl_side_effecting a = tl_side_effecting b \<and> tl_idempotency_key a = tl_idempotency_key b
     \<and> tl_reconciliation_evidence a = tl_reconciliation_evidence b
     \<and> (case (tl_cost_upper_bound_usd a, tl_cost_upper_bound_usd b) of
          (None, None) \<Rightarrow> True | (Some x, Some y) \<Rightarrow> dec_eq x y | _ \<Rightarrow> False)
     \<and> tl_arguments a = tl_arguments b \<and> tl_alternate_tool a = tl_alternate_tool b)"

definition alternate_call :: "execution_controls \<Rightarrow> tool_call \<Rightarrow> bool" where
  "alternate_call controls call =
     list_ex (\<lambda>declared. tl_alternate_tool declared = Some (tl_tool call)
        \<and> call_eq call (declared\<lparr>tl_tool := tl_tool call, tl_alternate_tool := None\<rparr>))
       (xc_tool_calls controls)"

definition declared_call :: "execution_controls \<Rightarrow> tool_call \<Rightarrow> bool" where
  "declared_call controls call = list_ex (call_eq call) (xc_tool_calls controls)"

definition check_tool :: "execution_controls \<Rightarrow> tool_call option \<Rightarrow> bool \<Rightarrow> failure option" where
  "check_tool controls tool_call replay =
     (case tool_call of None \<Rightarrow> Some (admission_failure TOOL_FAILURE ''tool_call_required'')
      | Some call \<Rightarrow>
          if tl_tool call \<notin> set (xc_authorized_tools controls)
          then Some (admission_failure TOOL_FAILURE ''tool_not_authorized'')
          else if xc_tool_calls controls \<noteq> [] \<and> \<not> declared_call controls call \<and> \<not> alternate_call controls call
          then Some (admission_failure TOOL_FAILURE ''tool_call_not_authorized'')
          else if tl_side_effecting call \<and> \<not> xc_side_effects_authorized controls
          then Some (admission_failure TOOL_FAILURE ''side_effect_not_authorized'')
          else if replay \<and> tl_side_effecting call \<and> \<not> tl_reconciliation_evidence call
              \<and> (alternate_call controls call \<or> tl_idempotency_key call = None)
          then Some (admission_failure TOOL_FAILURE ''unsafe_tool_replay'')
          else None)"

text \<open>The cost checks in their order: known balance, known cost, task ceiling, balance.\<close>

definition cost_blocker :: "execution_limits \<Rightarrow> decimal option \<Rightarrow> decimal option \<Rightarrow> failure option" where
  "cost_blocker limits remaining_usd cost_usd =
     (case amount_of remaining_usd of
        None \<Rightarrow> Some (admission_failure BUDGET_FAILURE ''remaining_budget_required'')
      | Some remaining \<Rightarrow> (case amount_of cost_usd of
          None \<Rightarrow> Some (admission_failure BUDGET_FAILURE ''action_cost_required'')
        | Some cost \<Rightarrow>
            if dec_lt (xl_task_cost_ceiling_usd limits) cost
            then Some (admission_failure BUDGET_FAILURE ''task_cost_ceiling_exceeded'')
            else if dec_lt remaining cost
            then Some (admission_failure BUDGET_FAILURE ''remaining_budget_exceeded'')
            else None))"

definition check_admission :: "execution_controls option \<Rightarrow> execution_limits option \<Rightarrow> counters \<Rightarrow> int
    \<Rightarrow> decimal option \<Rightarrow> decimal option \<Rightarrow> string \<Rightarrow> bool \<Rightarrow> tool_call option \<Rightarrow> failure option" where
  "check_admission controls_opt limits_opt counters elapsed_ms remaining_usd cost_usd action replay tool_call =
     (case limits_opt of
        None \<Rightarrow> Some (admission_failure CAPABILITY_FAILURE ''execution_limits_required'')
      | Some limits \<Rightarrow> (case controls_opt of
          None \<Rightarrow> Some (admission_failure CAPABILITY_FAILURE ''execution_not_authorized'')
        | Some controls \<Rightarrow>
            if \<not> xc_authorized controls
            then Some (admission_failure CAPABILITY_FAILURE ''execution_not_authorized'')
            else if elapsed_ms < 0 then Some (admission_failure TIMEOUT ''elapsed_time_invalid'')
            else if int (xl_max_elapsed_ms limits) \<le> elapsed_ms
            then Some (admission_failure TIMEOUT ''deadline_exhausted'')
            else (case attempt_blocker action counters limits of
                Some blocker \<Rightarrow> Some blocker
              | None \<Rightarrow> (case cost_blocker limits remaining_usd cost_usd of
                  Some blocker \<Rightarrow> Some blocker
                | None \<Rightarrow> if action \<in> set tool_actions \<or> tool_call \<noteq> None
                    then check_tool controls tool_call replay else None))))"

section \<open>When an action is admitted\<close>

lemma if_Some_None: "((if c then Some x else y) = None) \<longleftrightarrow> \<not> c \<and> y = None"
  by simp

lemma amount_of_Some [simp]: "amount_of v = Some d \<longleftrightarrow> v = Some d \<and> 0 \<le> dval d"
  by (auto simp: amount_of_def split: option.splits)

lemma cost_blocker_None:
  "cost_blocker limits remaining cost = None \<longleftrightarrow>
     (\<exists>r c. remaining = Some r \<and> cost = Some c \<and> 0 \<le> dval c
        \<and> dval c \<le> dval r \<and> dval c \<le> dval (xl_task_cost_ceiling_usd limits))"
  by (auto simp: cost_blocker_def amount_of_def split: option.splits)

lemma attempt_blocker_None:
  "attempt_blocker action counters limits = None \<longleftrightarrow>
     action \<in> set admission_actions
     \<and> (action \<in> set generation_actions
          \<longrightarrow> ct_generation_attempts counters < xl_max_total_generation_attempts limits)
     \<and> (action \<in> set [''quality_escalation'', ''increase_effort'', ''increase_tier'']
          \<longrightarrow> ct_quality_escalations counters < xl_max_quality_escalations limits)
     \<and> (action \<in> set [''infrastructure_retry'', ''retry_backoff'', ''health_aware_fallback'']
          \<longrightarrow> ct_infrastructure_retries counters < xl_max_infrastructure_retries limits)
     \<and> (action \<in> set [''tool_recovery'', ''retry_tool'', ''alternate_tool'']
          \<longrightarrow> ct_tool_recoveries counters < xl_max_tool_recoveries limits)"
  unfolding attempt_blocker_def by (simp only: if_Some_None not_le [symmetric]) blast

lemma check_tool_None:
  "check_tool controls tool_call replay = None \<longleftrightarrow>
     (\<exists>call. tool_call = Some call \<and> tl_tool call \<in> set (xc_authorized_tools controls)
        \<and> (xc_tool_calls controls = [] \<or> declared_call controls call \<or> alternate_call controls call)
        \<and> (tl_side_effecting call \<longrightarrow> xc_side_effects_authorized controls)
        \<and> (replay \<and> tl_side_effecting call \<longrightarrow> tl_reconciliation_evidence call
             \<or> tl_idempotency_key call \<noteq> None \<and> \<not> alternate_call controls call))"
  by (cases tool_call) (auto simp: check_tool_def)

lemma check_admission_None:
  "check_admission controls_opt limits_opt counters elapsed remaining cost action replay tool_call = None \<longleftrightarrow>
     (\<exists>limits controls. limits_opt = Some limits \<and> controls_opt = Some controls \<and> xc_authorized controls
        \<and> 0 \<le> elapsed \<and> elapsed < int (xl_max_elapsed_ms limits)
        \<and> attempt_blocker action counters limits = None
        \<and> cost_blocker limits remaining cost = None
        \<and> (action \<in> set tool_actions \<or> tool_call \<noteq> None \<longrightarrow> check_tool controls tool_call replay = None))"
proof (cases limits_opt)
  case None
  then show ?thesis by (simp add: check_admission_def)
next
  case limits: (Some limits)
  show ?thesis
  proof (cases controls_opt)
    case None
    with limits show ?thesis by (simp add: check_admission_def)
  next
    case (Some controls)
    with limits show ?thesis
      by (cases "attempt_blocker action counters limits"; cases "cost_blocker limits remaining cost")
        (auto simp: check_admission_def not_le)
  qed
qed

text \<open>Every refusal is a non-retryable failure of the admission stage.\<close>

definition refusal :: "failure \<Rightarrow> bool" where
  "refusal f = (fl_source f = Source_admission \<and> fl_stage f = ''admission'' \<and> \<not> fl_retryable f
     \<and> fl_retry_after_ms f = None)"

lemma refusal_admission_failure [simp]: "refusal (admission_failure ft cause)"
  by (simp add: refusal_def admission_failure_def)

lemma refusal_if:
  "(if c then Some (admission_failure ft cause) else rest) = Some f \<Longrightarrow> (rest = Some f \<Longrightarrow> refusal f) \<Longrightarrow> refusal f"
  by (auto split: if_splits)

lemma attempt_blocker_refusal: "attempt_blocker action counters limits = Some f \<Longrightarrow> refusal f"
  unfolding attempt_blocker_def by (elim refusal_if) simp

lemma cost_blocker_refusal: "cost_blocker limits remaining cost = Some f \<Longrightarrow> refusal f"
  unfolding cost_blocker_def by (auto split: if_splits option.splits)

lemma check_tool_refusal: "check_tool controls tool_call replay = Some f \<Longrightarrow> refusal f"
  unfolding check_tool_def by (cases tool_call) (simp_all only: option.case, auto, elim refusal_if, simp)

lemma check_admission_refusal:
  assumes "check_admission controls_opt limits_opt counters elapsed remaining cost action replay tool_call = Some f"
  shows "refusal f"
proof (cases limits_opt)
  case None
  with assms show ?thesis by (auto simp: check_admission_def)
next
  case limits: (Some limits)
  show ?thesis
  proof (cases controls_opt)
    case None
    with limits assms show ?thesis by (auto simp: check_admission_def)
  next
    case (Some controls)
    with limits assms show ?thesis
      by (cases "attempt_blocker action counters limits"; cases "cost_blocker limits remaining cost")
        (auto simp: check_admission_def split: if_splits
          dest: attempt_blocker_refusal cost_blocker_refusal check_tool_refusal)
  qed
qed

section \<open>Recovery proposals and attempts\<close>

primrec action_name :: "action_kind \<Rightarrow> string" where
  "action_name Increase_effort = ''increase_effort''"
| "action_name Increase_tier = ''increase_tier''"
| "action_name Retry_backoff = ''retry_backoff''"
| "action_name Health_aware_fallback = ''health_aware_fallback''"
| "action_name Retry_tool = ''retry_tool''"
| "action_name Alternate_tool = ''alternate_tool''"
| "action_name Recoverable_failure = ''recoverable_failure''"
| "action_name Stop_reconcile = ''stop_reconcile''"
| "action_name Diagnose = ''diagnose''"
| "action_name Retry_evaluator = ''retry_evaluator''"
| "action_name Stop_action = ''stop''"
| "action_name Stop_budget = ''stop_budget''"
| "action_name Stop_deadline = ''stop_deadline''"
| "action_name Stop_attempts = ''stop_attempts''"
| "action_name Stop_approval = ''stop_approval''"
| "action_name Stop_succeeded = ''stop_success''"

definition dispatching :: "action_kind list" where
  "dispatching = [Increase_effort, Increase_tier, Retry_backoff, Health_aware_fallback, Retry_tool, Alternate_tool]"

lemma quality_attempts:
  assumes "quality_recovery ctx b = Inr a" and "ra_action a \<in> {Increase_effort, Increase_tier}"
  shows "\<not> generation_exhausted ctx"
    and "ct_quality_escalations (rx_counters ctx) < xl_max_quality_escalations (rx_limits ctx)"
  using assms by (auto simp: quality_recovery_def split: if_splits)

lemma infrastructure_attempts:
  assumes "infrastructure_recovery ctx b = Inr a" and "ra_action a \<in> {Health_aware_fallback, Retry_backoff}"
  shows "\<not> generation_exhausted ctx"
    and "ct_infrastructure_retries (rx_counters ctx) < xl_max_infrastructure_retries (rx_limits ctx)"
  using assms by (auto simp: infrastructure_recovery_def split: if_splits)

lemma proposal_attempts:
  assumes r: "choose_recovery ctx b = Inr a" and k: "ra_action a \<in> set dispatching"
  shows "attempt_blocker (action_name (ra_action a)) (rx_counters ctx) (rx_limits ctx) = None"
proof -
  consider (q) "ra_action a \<in> {Increase_effort, Increase_tier}"
    | (i) "ra_action a \<in> {Health_aware_fallback, Retry_backoff}" | (t) "ra_action a \<in> {Retry_tool, Alternate_tool}"
    using k by (auto simp: dispatching_def)
  then show ?thesis
  proof cases
    case q
    with quality_attempts [OF quality_program [OF r q] q] show ?thesis
      by (auto simp: attempt_blocker_None admission_actions_def generation_actions_def generation_exhausted_def)
  next
    case i
    with infrastructure_attempts [OF infrastructure_program [OF r i] i] show ?thesis
      by (auto simp: attempt_blocker_None admission_actions_def generation_actions_def generation_exhausted_def)
  next
    case t
    have "ct_tool_recoveries (rx_counters ctx) < xl_max_tool_recoveries (rx_limits ctx)"
      by (rule tool_step [OF r t])
    with t show ?thesis
      by (auto simp: attempt_blocker_None admission_actions_def generation_actions_def)
  qed
qed

end
