(* ===== verification/Ledger.thy ===== *)
theory Ledger
  imports Admission
begin

text \<open>
  The contract of a budget authority, the port \<^verbatim>\<open>BudgetAuthority\<close> of
  \<^verbatim>\<open>core/execution_contracts.py\<close>, as a locale. Funds are held in pools (a task's own, and for
  the durable authority the application's as well); a reservation charges every pool its task
  belongs to. \<open>held\<close> reads the reservation of an action: the amount reserved and, once it is
  settled, the amount charged. The first argument of the operations stands for what the storage
  does during the call, on which the result may depend. Inside the locale, once for both implementations: reservations are
  permanent and settle at most once, and a sequence of operations whose settlements stay within
  their reservations never takes a pool over its ceiling.
\<close>

type_synonym hold = "rat \<times> rat option"

definition hold_debit :: "hold \<Rightarrow> rat" where
  "hold_debit h = (case snd h of None \<Rightarrow> fst h | Some actual \<Rightarrow> actual)"

datatype 'x ledger_op = Reserve 'x string string "decimal option" | Settle 'x string string "decimal option"

definition ledger_step :: "('x \<Rightarrow> 's \<Rightarrow> string \<Rightarrow> string \<Rightarrow> decimal option \<Rightarrow> 's \<times> bool res)
    \<Rightarrow> ('x \<Rightarrow> 's \<Rightarrow> string \<Rightarrow> string \<Rightarrow> decimal option \<Rightarrow> 's \<times> unit res) \<Rightarrow> 's \<Rightarrow> 'x ledger_op \<Rightarrow> 's" where
  "ledger_step reserve settle s op = (case op of
     Reserve w task action amount \<Rightarrow> fst (reserve w s task action amount)
   | Settle w task action actual \<Rightarrow> fst (settle w s task action actual))"

definition ledger_run :: "('x \<Rightarrow> 's \<Rightarrow> string \<Rightarrow> string \<Rightarrow> decimal option \<Rightarrow> 's \<times> bool res)
    \<Rightarrow> ('x \<Rightarrow> 's \<Rightarrow> string \<Rightarrow> string \<Rightarrow> decimal option \<Rightarrow> 's \<times> unit res) \<Rightarrow> 's \<Rightarrow> 'x ledger_op list \<Rightarrow> 's" where
  "ledger_run reserve settle s ops = foldl (ledger_step reserve settle) s ops"

text \<open>A settlement of an open reservation that charges no more than was reserved.\<close>

definition op_within :: "(string \<times> string \<Rightarrow> hold option) \<Rightarrow> 'x ledger_op \<Rightarrow> bool" where
  "op_within held op = (case op of
     Settle w task action (Some actual) \<Rightarrow>
       (case held (task, action) of Some (reserved, None) \<Rightarrow> dval actual \<le> reserved | _ \<Rightarrow> True)
   | _ \<Rightarrow> True)"

primrec ops_within :: "('s \<Rightarrow> 'x ledger_op \<Rightarrow> 's) \<Rightarrow> ('s \<Rightarrow> string \<times> string \<Rightarrow> hold option) \<Rightarrow> 's \<Rightarrow> 'x ledger_op list \<Rightarrow> bool" where
  "ops_within step held s [] = True"
| "ops_within step held s (op # ops) = (op_within (held s) op \<and> ops_within step held (step s op) ops)"

locale ledger =
  fixes reserve :: "'x \<Rightarrow> 's \<Rightarrow> string \<Rightarrow> string \<Rightarrow> decimal option \<Rightarrow> 's \<times> bool res"
    and settle :: "'x \<Rightarrow> 's \<Rightarrow> string \<Rightarrow> string \<Rightarrow> decimal option \<Rightarrow> 's \<times> unit res"
    and good :: "'s \<Rightarrow> bool"
    and held :: "'s \<Rightarrow> string \<times> string \<Rightarrow> hold option"
    and spent :: "'s \<Rightarrow> 'p \<Rightarrow> rat"
    and cap :: "'s \<Rightarrow> 'p \<Rightarrow> rat"
    and charged :: "'p \<Rightarrow> string \<Rightarrow> bool"
  assumes reserve_good: "good s \<Longrightarrow> good (fst (reserve w s task action amount))"
    and settle_good: "good s \<Longrightarrow> good (fst (settle w s task action actual))"
    and reserve_cap: "good s \<Longrightarrow> cap (fst (reserve w s task action amount)) p = cap s p"
    and settle_cap: "good s \<Longrightarrow> cap (fst (settle w s task action actual)) p = cap s p"
    and reserve_law: "good s \<Longrightarrow> reserve w s task action amount = (s', r) \<Longrightarrow>
      (held s' = held s \<and> spent s' = spent s)
      \<or> (\<exists>d. r \<noteq> Inr False \<and> amount = Some d \<and> 0 \<le> dval d \<and> held s (task, action) = None
          \<and> held s' = (held s)((task, action) \<mapsto> (dval d, None))
          \<and> (\<forall>p. spent s' p = spent s p + (if charged p task then dval d else 0))
          \<and> (\<forall>p. spent s' p \<le> max (cap s p) (spent s p)))"
    and settle_law: "good s \<Longrightarrow> settle w s task action actual = (s', u) \<Longrightarrow>
      (held s' = held s \<and> spent s' = spent s)
      \<or> (\<exists>d v. actual = Some d \<and> 0 \<le> dval d \<and> held s (task, action) = Some (v, None)
          \<and> held s' = (held s)((task, action) \<mapsto> (v, Some (dval d)))
          \<and> (\<forall>p. spent s' p = spent s p + (if charged p task then dval d - v else 0)))"
    and reserve_held: "good s \<Longrightarrow> reserve w s task action amount = (s', Inr True) \<Longrightarrow>
      \<exists>d x. amount = Some d \<and> held s' (task, action) = Some (dval d, x)"
    and reserve_again: "good s \<Longrightarrow> reserve w s task action amount = (s1, Inr True) \<Longrightarrow> good s2 \<Longrightarrow>
      held s1 (task, action) = Some (v, x) \<Longrightarrow> held s2 (task, action) = Some (v, y) \<Longrightarrow>
      reserve w' s2 task action amount = (s3, Inr ok) \<Longrightarrow> ok \<and> held s3 = held s2 \<and> spent s3 = spent s2"
begin

lemma step_good: "good s \<Longrightarrow> good (ledger_step reserve settle s op)"
  by (simp add: ledger_step_def reserve_good settle_good split: ledger_op.splits)

lemma step_cap: "good s \<Longrightarrow> cap (ledger_step reserve settle s op) p = cap s p"
  by (simp add: ledger_step_def reserve_cap settle_cap split: ledger_op.splits)

lemma step_within:
  assumes "good s" and "op_within (held s) op" and "\<And>p. spent s p \<le> cap s p"
  shows "spent (ledger_step reserve settle s op) p \<le> cap s p"
proof (cases op)
  case (Reserve w task action amount)
  obtain s' r where r: "reserve w s task action amount = (s', r)" by force
  show ?thesis
    using reserve_law [OF assms(1) r] assms(3) [of p]
    by (auto simp: ledger_step_def Reserve r max_def dest: spec [of _ p] split: if_splits)
next
  case (Settle w task action actual)
  obtain s' r where r: "settle w s task action actual = (s', r)" by force
  show ?thesis
    using settle_law [OF assms(1) r] assms(2) assms(3) [of p]
    by (auto simp: ledger_step_def op_within_def Settle r intro: order_trans [rotated])
qed

lemma run_within:
  assumes "good s" and "ops_within (ledger_step reserve settle) held s ops" and "\<And>p. spent s p \<le> cap s p"
  shows "good (ledger_run reserve settle s ops)
    \<and> (\<forall>p. cap (ledger_run reserve settle s ops) p = cap s p \<and> spent (ledger_run reserve settle s ops) p \<le> cap s p)"
  using assms
proof (induction ops arbitrary: s)
  case Nil
  then show ?case by (simp add: ledger_run_def)
next
  case (Cons op ops)
  let ?s = "ledger_step reserve settle s op"
  have g: "good ?s" using Cons.prems(1) by (rule step_good)
  have w: "ops_within (ledger_step reserve settle) held ?s ops" and o: "op_within (held s) op"
    using Cons.prems(2) by simp_all
  have c: "cap ?s p = cap s p" for p by (rule step_cap [OF Cons.prems(1)])
  have "spent ?s p \<le> cap ?s p" for p
    unfolding c by (rule step_within [OF Cons.prems(1) o Cons.prems(3)])
  from Cons.IH [OF g w this] show ?case by (simp add: ledger_run_def c)
qed

text \<open>A reservation is never dropped, resized or settled twice.\<close>

lemma step_held:
  assumes "good s" and "held s k = Some (v, x)"
  shows "\<exists>x'. held (ledger_step reserve settle s op) k = Some (v, x') \<and> (x \<noteq> None \<longrightarrow> x' = x)"
proof (cases op)
  case (Reserve w task action amount)
  obtain s' r where r: "reserve w s task action amount = (s', r)" by force
  show ?thesis
    using reserve_law [OF assms(1) r] assms(2) by (auto simp: ledger_step_def Reserve r)
next
  case (Settle w task action actual)
  obtain s' r where r: "settle w s task action actual = (s', r)" by force
  show ?thesis
    using settle_law [OF assms(1) r] assms(2) by (auto simp: ledger_step_def Settle r)
qed

lemma run_held:
  assumes "good s" and "held s k = Some (v, x)"
  shows "\<exists>x'. held (ledger_run reserve settle s ops) k = Some (v, x') \<and> (x \<noteq> None \<longrightarrow> x' = x)"
  using assms
proof (induction ops arbitrary: s x)
  case Nil
  then show ?case by (simp add: ledger_run_def)
next
  case (Cons op ops)
  obtain x' where x': "held (ledger_step reserve settle s op) k = Some (v, x')" "x \<noteq> None \<longrightarrow> x' = x"
    using step_held [OF Cons.prems] by blast
  from Cons.IH [OF step_good [OF Cons.prems(1)] x'(1)] x'(2)
  show ?case by (auto simp: ledger_run_def)
qed

text \<open>A granted reservation may be requested again at any later time: it is granted and charges nothing.\<close>

lemma run_good: "good s \<Longrightarrow> good (ledger_run reserve settle s ops)"
  by (induction ops arbitrary: s) (auto simp: ledger_run_def step_good)

lemma retry_idempotent:
  assumes g: "good s" and first: "reserve w s task action amount = (s1, Inr True)"
    and again: "reserve w' (ledger_run reserve settle s1 ops) task action amount = (s3, Inr ok)"
  shows "ok \<and> held s3 = held (ledger_run reserve settle s1 ops) \<and> spent s3 = spent (ledger_run reserve settle s1 ops)"
proof -
  have g1: "good s1" using reserve_good [OF g, of w task action amount] first by simp
  obtain d x where h1: "held s1 (task, action) = Some (dval d, x)" using reserve_held [OF g first] by blast
  obtain y where h2: "held (ledger_run reserve settle s1 ops) (task, action) = Some (dval d, y)"
    using run_held [OF g1 h1] by blast
  show ?thesis by (rule reserve_again [OF g first run_good [OF g1] h1 h2 again])
qed

text \<open>A positive amount that is newly granted fits at that moment, whatever was settled before.\<close>

lemma granted_fits:
  assumes "good s" and "reserve w s task action (Some d) = (s', Inr True)" and "held s (task, action) = None"
    and "held s' (task, action) \<noteq> None" and "0 < dval d" and "charged p task"
  shows "spent s' p = spent s p + dval d" and "spent s' p \<le> cap s p"
proof -
  have law: "spent s' p = spent s p + dval d \<and> spent s' p \<le> max (cap s p) (spent s p)"
    using reserve_law [OF assms(1,2)] assms(3,4,6) by auto
  then show "spent s' p = spent s p + dval d" and "spent s' p \<le> cap s p" using assms(5) by auto
qed

end

end
