(* ===== verification/MemoryBudget.thy ===== *)
theory MemoryBudget
  imports Ledger "HOL-Library.AList"
begin

text \<open>
  \<^verbatim>\<open>MemoryBudgetAuthority\<close> of \<^verbatim>\<open>execution/admission.py\<close>: finite per-task balances with
  idempotent reservations. The two dicts are association lists, updated the way a dict is. Each
  method holds the lock throughout, so it is one step of the state; a method that installs the
  default balance while it reads returns the updated state. The interpretation discharges the
  laws of a budget authority for it.
\<close>

record reservation =
  rv_reserved :: decimal
  rv_actual :: "decimal option"
  rv_settled :: bool

definition debit :: "reservation \<Rightarrow> decimal" where
  "debit r = (case rv_actual r of None \<Rightarrow> rv_reserved r
     | Some actual \<Rightarrow> if rv_settled r then actual else rv_reserved r)"

record memory_budget =
  mb_default_ceiling :: "decimal option"
  mb_balances :: "(string \<times> decimal) list"
  mb_reservations :: "(string \<times> (string \<times> reservation) list) list"

definition task_reservations :: "memory_budget \<Rightarrow> string \<Rightarrow> (string \<times> reservation) list" where
  "task_reservations s task = (case map_of (mb_reservations s) task of None \<Rightarrow> [] | Some rs \<Rightarrow> rs)"

definition set_balance :: "memory_budget \<Rightarrow> string \<Rightarrow> decimal option \<Rightarrow> memory_budget res" where
  "set_balance s task amount =
     (case amount_of amount of
        None \<Rightarrow> Inl ValueError
      | Some normalized \<Rightarrow>
          if task = [] then Inl ValueError
          else if task_reservations s task \<noteq> [] then Inl ValueError
          else Inr (s\<lparr>mb_balances := AList.update task normalized (mb_balances s)\<rparr>))"

definition new_memory_budget :: "(string \<times> decimal option) list \<Rightarrow> decimal option option \<Rightarrow> memory_budget res" where
  "new_memory_budget balances default_ceiling =
     bind_res (case default_ceiling of None \<Rightarrow> Inr None
               | Some v \<Rightarrow> (case amount_of v of None \<Rightarrow> Inl ValueError | Some d \<Rightarrow> Inr (Some d)))
       (\<lambda>default_amount. fold_res (\<lambda>(task, amount) s. set_balance s task amount) balances
          \<lparr>mb_default_ceiling = default_amount, mb_balances = [], mb_reservations = []\<rparr>)"

definition task_balance :: "memory_budget \<Rightarrow> string \<Rightarrow> memory_budget \<times> decimal" where
  "task_balance s task =
     (case map_of (mb_balances s) task of
        Some balance \<Rightarrow> (s, balance)
      | None \<Rightarrow> (case mb_default_ceiling s of
          Some d \<Rightarrow> (s\<lparr>mb_balances := AList.update task d (mb_balances s)\<rparr>, d)
        | None \<Rightarrow> (s, ZERO)))"

definition remaining_memory :: "memory_budget \<Rightarrow> string \<Rightarrow> memory_budget \<times> decimal" where
  "remaining_memory s task =
     (let (s', balance) = task_balance s task;
          debited = money_sum (map (debit \<circ> snd) (task_reservations s' task))
      in (s', dec_max ZERO (money_difference balance [debited])))"

text \<open>The state with the dict of the task's reservations created, as \<^verbatim>\<open>setdefault\<close> does.\<close>

definition with_task :: "memory_budget \<Rightarrow> string \<Rightarrow> memory_budget" where
  "with_task s task = (if map_of (mb_reservations s) task = None
     then s\<lparr>mb_reservations := AList.update task [] (mb_reservations s)\<rparr> else s)"

definition reserve_memory :: "memory_budget \<Rightarrow> string \<Rightarrow> string \<Rightarrow> decimal option \<Rightarrow> memory_budget \<times> bool res" where
  "reserve_memory s task action amount =
     (case amount_of amount of
        None \<Rightarrow> (s, Inr False)
      | Some normalized \<Rightarrow>
          if task = [] \<or> action = [] then (s, Inr False)
          else
            let s1 = with_task s task
            in case map_of (task_reservations s1 task) action of
                 Some existing \<Rightarrow> (s1, Inr (dec_eq (rv_reserved existing) normalized))
               | None \<Rightarrow>
                   let (s2, available) = remaining_memory s1 task
                   in if dec_lt available normalized then (s2, Inr False)
                      else (s2\<lparr>mb_reservations := AList.update task
                              (AList.update action \<lparr>rv_reserved = normalized, rv_actual = None, rv_settled = False\<rparr>
                                (task_reservations s2 task)) (mb_reservations s2)\<rparr>, Inr True))"

definition settle_memory :: "memory_budget \<Rightarrow> string \<Rightarrow> string \<Rightarrow> decimal option \<Rightarrow> memory_budget \<times> unit res" where
  "settle_memory s task action actual =
     (case map_of (task_reservations s task) action of
        None \<Rightarrow> (s, Inl KeyError)
      | Some reservation \<Rightarrow>
          (case actual of
             None \<Rightarrow> (s, Inr ())
           | Some value \<Rightarrow>
               (case amount_of (Some value) of
                  None \<Rightarrow> (s, Inl ValueError)
                | Some normalized \<Rightarrow>
                    if rv_settled reservation
                    then (if (case rv_actual reservation of None \<Rightarrow> True | Some a \<Rightarrow> \<not> dec_eq a normalized)
                          then (s, Inl ValueError) else (s, Inr ()))
                    else (s\<lparr>mb_reservations := AList.update task
                           (AList.update action (reservation\<lparr>rv_actual := Some normalized, rv_settled := True\<rparr>)
                             (task_reservations s task)) (mb_reservations s)\<rparr>, Inr ()))))"

section \<open>The invariant\<close>

definition reservation_ok :: "reservation \<Rightarrow> bool" where
  "reservation_ok r = (0 \<le> dval (rv_reserved r) \<and> rv_settled r = (rv_actual r \<noteq> None)
     \<and> (case rv_actual r of None \<Rightarrow> True | Some a \<Rightarrow> 0 \<le> dval a))"

definition memory_ok :: "memory_budget \<Rightarrow> bool" where
  "memory_ok s = (list_all (\<lambda>(task, rs). list_all (reservation_ok \<circ> snd) rs) (mb_reservations s)
     \<and> list_all (\<lambda>(task, d). 0 \<le> dval d) (mb_balances s)
     \<and> (case mb_default_ceiling s of None \<Rightarrow> True | Some d \<Rightarrow> 0 \<le> dval d))"

definition hold_of :: "reservation \<Rightarrow> hold" where
  "hold_of r = (dval (rv_reserved r), if rv_settled r then map_option dval (rv_actual r) else None)"

definition memory_held :: "memory_budget \<Rightarrow> string \<times> string \<Rightarrow> hold option" where
  "memory_held s k = map_option hold_of (map_of (task_reservations s (fst k)) (snd k))"

definition memory_spent :: "memory_budget \<Rightarrow> string \<Rightarrow> rat" where
  "memory_spent s task = sum_list (map (dval \<circ> debit \<circ> snd) (task_reservations s task))"

definition memory_cap :: "memory_budget \<Rightarrow> string \<Rightarrow> rat" where
  "memory_cap s task = (case map_of (mb_balances s) task of Some d \<Rightarrow> dval d
     | None \<Rightarrow> (case mb_default_ceiling s of Some d \<Rightarrow> dval d | None \<Rightarrow> 0))"

lemma list_all_update: "list_all P xs \<Longrightarrow> P (k, v) \<Longrightarrow> list_all P (AList.update k v xs)"
  by (induction xs) auto

lemma sum_list_update:
  fixes f :: "'k \<times> 'v \<Rightarrow> rat"
  shows "sum_list (map f (AList.update k v xs)) =
     sum_list (map f xs) - (case map_of xs k of None \<Rightarrow> 0 | Some w \<Rightarrow> f (k, w)) + f (k, v)"
  by (induction xs) (auto split: option.splits)

lemma task_reservations_update [simp]:
  "task_reservations (s\<lparr>mb_reservations := AList.update task rs (mb_reservations s)\<rparr>) =
     (task_reservations s)(task := rs)"
  by (rule ext) (simp add: task_reservations_def update_conv')

lemma task_reservations_balances [simp]:
  "task_reservations (s\<lparr>mb_balances := bs\<rparr>) = task_reservations s"
  by (rule ext) (simp add: task_reservations_def)

lemma task_reservations_ok:
  assumes "memory_ok s"
  shows "list_all (reservation_ok \<circ> snd) (task_reservations s task)"
proof (cases "map_of (mb_reservations s) task")
  case (Some rs)
  then have "(task, rs) \<in> set (mb_reservations s)" by (rule map_of_SomeD)
  with assms Some show ?thesis by (auto simp: memory_ok_def task_reservations_def list_all_iff)
qed (simp add: task_reservations_def)

lemma lookup_reservation_ok:
  "memory_ok s \<Longrightarrow> map_of (task_reservations s task) action = Some r \<Longrightarrow> reservation_ok r"
  using task_reservations_ok [of s task] by (fastforce simp: list_all_iff dest: map_of_SomeD)

lemma dval_debit: "reservation_ok r \<Longrightarrow> dval (debit r) = hold_debit (hold_of r)"
  by (auto simp: debit_def hold_debit_def hold_of_def reservation_ok_def split: option.splits)

text \<open>Reading the balance may install the default; nothing else changes.\<close>

lemma task_balance_spec:
  assumes "memory_ok s"
  shows "memory_ok (fst (task_balance s task))"
    and "dval (snd (task_balance s task)) = memory_cap s task"
    and "memory_cap (fst (task_balance s task)) = memory_cap s"
    and "task_reservations (fst (task_balance s task)) = task_reservations s"
    and "mb_reservations (fst (task_balance s task)) = mb_reservations s"
proof -
  show "memory_ok (fst (task_balance s task))"
    using assms by (auto simp: task_balance_def memory_ok_def list_all_update split: option.splits)
  show "dval (snd (task_balance s task)) = memory_cap s task"
    by (auto simp: task_balance_def memory_cap_def split: option.splits)
  show "memory_cap (fst (task_balance s task)) = memory_cap s"
    by (rule ext) (auto simp: task_balance_def memory_cap_def update_conv' split: option.splits)
  show "task_reservations (fst (task_balance s task)) = task_reservations s"
    by (auto simp: task_balance_def split: option.splits)
  show "mb_reservations (fst (task_balance s task)) = mb_reservations s"
    by (auto simp: task_balance_def split: option.splits)
qed

lemma remaining_memory_spec:
  assumes "memory_ok s"
  shows "fst (remaining_memory s task) = fst (task_balance s task)"
    and "dval (snd (remaining_memory s task)) = max 0 (memory_cap s task - memory_spent s task)"
  using task_balance_spec [OF assms, of task]
  by (auto simp: remaining_memory_def Let_def case_prod_beta memory_spent_def money_difference_exact
      money_sum_exact comp_assoc)


section \<open>The laws of a budget authority\<close>

lemma memory_ok_update:
  assumes "memory_ok s" and "list_all (reservation_ok \<circ> snd) rs"
  shows "memory_ok (s\<lparr>mb_reservations := AList.update task rs (mb_reservations s)\<rparr>)"
  using assms by (simp add: memory_ok_def list_all_update)

lemma memory_cap_reservations [simp]: "memory_cap (s\<lparr>mb_reservations := rs\<rparr>) = memory_cap s"
  by (rule ext) (simp add: memory_cap_def split: option.splits)

lemma with_task_spec:
  shows "memory_ok s \<Longrightarrow> memory_ok (with_task s task)"
    and "task_reservations (with_task s task) = task_reservations s"
    and "memory_cap (with_task s task) = memory_cap s"
proof -
  show "task_reservations (with_task s task) = task_reservations s"
    by (rule ext) (auto simp: with_task_def task_reservations_def update_conv')
qed (auto simp: with_task_def memory_ok_update)

text \<open>The three outcomes of a reservation.\<close>

lemma reserve_memory_cases:
  assumes ok: "memory_ok s" and r: "reserve_memory s task action amount = (s', r)"
  obtains (refused) "r \<noteq> Inr True" "task_reservations s' = task_reservations s" "memory_cap s' = memory_cap s" "memory_ok s'"
  | (replayed) x d where "map_of (task_reservations s task) action = Some x" "amount = Some d"
      "r = Inr (dval (rv_reserved x) = dval d)" "task_reservations s' = task_reservations s"
      "memory_cap s' = memory_cap s" "memory_ok s'"
  | (granted) d where "map_of (task_reservations s task) action = None" "amount = Some d" "0 \<le> dval d"
      "r = Inr True" "dval d \<le> max 0 (memory_cap s task - memory_spent s task)"
      "task_reservations s' = (task_reservations s)(task := AList.update action
         \<lparr>rv_reserved = d, rv_actual = None, rv_settled = False\<rparr> (task_reservations s task))"
      "memory_cap s' = memory_cap s" "memory_ok s'"
proof (cases "amount_of amount = None \<or> task = [] \<or> action = []")
  case True
  with r have "s' = s \<and> r = Inr False" by (auto simp: reserve_memory_def split: option.splits)
  with ok refused show ?thesis by simp
next
  case False
  then obtain d where d: "amount = Some d" "0 \<le> dval d" "amount_of amount = Some d" "task \<noteq> []" "action \<noteq> []"
    by (auto simp: amount_of_def split: option.splits if_splits)
  let ?s = "with_task s task"
  note ws = with_task_spec(1) [OF ok, of task] with_task_spec(2,3) [of s task]
  note run = r [unfolded reserve_memory_def d(3) option.case Let_def if_not_P [OF False [unfolded de_Morgan_disj, THEN conjunct2, folded de_Morgan_disj]]]
  show ?thesis
  proof (cases "map_of (task_reservations s task) action")
    case (Some x)
    then have "s' = ?s \<and> r = Inr (dec_eq (rv_reserved x) d)" using run d ws by (simp add: Let_def)
    with replayed [OF Some d(1)] ws show ?thesis by simp
  next
    case None
    obtain s2 av where m: "remaining_memory ?s task = (s2, av)" by force
    have "memory_spent ?s task = memory_spent s task" by (simp add: memory_spent_def ws(2))
    with remaining_memory_spec [OF ws(1), of task] m ws(3)
    have s2: "s2 = fst (task_balance ?s task)" "dval av = max 0 (memory_cap s task - memory_spent s task)" by simp_all
    with task_balance_spec [OF ws(1), of task] ws(2,3)
    have s2_ok: "memory_ok s2" "memory_cap s2 = memory_cap s" "task_reservations s2 = task_reservations s" by simp_all
    let ?rs = "AList.update action \<lparr>rv_reserved = d, rv_actual = None, rv_settled = False\<rparr> (task_reservations s task)"
    show ?thesis
    proof (cases "dec_lt av d")
      case True
      then have "s' = s2 \<and> r = Inr False" using run d ws None m by (simp add: Let_def)
      with s2_ok refused show ?thesis by simp
    next
      case False
      then have s': "s' = s2\<lparr>mb_reservations := AList.update task ?rs (mb_reservations s2)\<rparr>" "r = Inr True"
        using run d ws None m s2_ok by (simp_all add: Let_def)
      have "list_all (reservation_ok \<circ> snd) ?rs"
        by (rule list_all_update [OF task_reservations_ok [OF ok]]) (simp add: reservation_ok_def d(2))
      from memory_ok_update [OF s2_ok(1) this] have ok': "memory_ok s'" by (simp only: s'(1))
      have fits: "dval d \<le> max 0 (memory_cap s task - memory_spent s task)"
        using False by (simp only: s2(2) dec_lt_iff not_less)
      show ?thesis by (rule granted [OF None d(1,2) s'(2) fits _ _ ok']) (simp_all add: s'(1) s2_ok)
    qed
  qed
qed

lemma settle_memory_cases:
  assumes ok: "memory_ok s" and r: "settle_memory s task action actual = (s', r)"
  obtains (kept) "s' = s"
  | (settled) x d where "map_of (task_reservations s task) action = Some x" "\<not> rv_settled x" "actual = Some d"
      "0 \<le> dval d" "r = Inr ()"
      "task_reservations s' = (task_reservations s)(task := AList.update action
         (x\<lparr>rv_actual := Some d, rv_settled := True\<rparr>) (task_reservations s task))"
      "memory_cap s' = memory_cap s" "memory_ok s'"
proof (cases "s' = s")
  case False
  then obtain x d where x: "map_of (task_reservations s task) action = Some x" "\<not> rv_settled x" "actual = Some d"
    "0 \<le> dval d" "r = Inr ()" "s' = s\<lparr>mb_reservations := AList.update task
      (AList.update action (x\<lparr>rv_actual := Some d, rv_settled := True\<rparr>) (task_reservations s task))
      (mb_reservations s)\<rparr>"
    using r by (auto simp: settle_memory_def split: option.splits if_splits)
  have "list_all (reservation_ok \<circ> snd)
      (AList.update action (x\<lparr>rv_actual := Some d, rv_settled := True\<rparr>) (task_reservations s task))"
    by (rule list_all_update [OF task_reservations_ok [OF ok]])
      (use lookup_reservation_ok [OF ok x(1)] x(4) in \<open>simp add: reservation_ok_def\<close>)
  from settled [OF x(1-5)] x(6) memory_ok_update [OF ok this] show ?thesis by simp
qed (rule kept)

lemma memory_update_spent:
  assumes "task_reservations s' = (task_reservations s)(task := AList.update action x (task_reservations s task))"
  shows "memory_spent s' p = memory_spent s p + (if p = task then dval (debit x)
    - (case map_of (task_reservations s task) action of None \<Rightarrow> 0 | Some y \<Rightarrow> dval (debit y)) else 0)"
  by (simp add: memory_spent_def assms sum_list_update split: option.splits)

lemma memory_update_held:
  assumes "task_reservations s' = (task_reservations s)(task := AList.update action x (task_reservations s task))"
  shows "memory_held s' = (memory_held s)((task, action) \<mapsto> hold_of x)"
  by (rule ext) (auto simp: memory_held_def assms update_conv')

lemma memory_same:
  "task_reservations s' = task_reservations s \<Longrightarrow> memory_held s' = memory_held s \<and> memory_spent s' = memory_spent s"
  by (auto simp: memory_held_def memory_spent_def)

interpretation memory: ledger "\<lambda>_ :: unit. reserve_memory" "\<lambda>_ :: unit. settle_memory" memory_ok memory_held memory_spent memory_cap
  "\<lambda>p task. p = task"
proof (unfold_locales, goal_cases)
  case (1 s w task action amount)
  obtain s' r where r: "reserve_memory s task action amount = (s', r)" by force
  show ?case unfolding r fst_conv by (rule reserve_memory_cases [OF 1 r]) simp_all
next
  case (2 s w task action actual)
  obtain s' r where r: "settle_memory s task action actual = (s', r)" by force
  show ?case unfolding r fst_conv by (rule settle_memory_cases [OF 2 r]) (use 2 in simp_all)
next
  case (3 s w task action amount p)
  obtain s' r where r: "reserve_memory s task action amount = (s', r)" by force
  show ?case unfolding r fst_conv by (rule reserve_memory_cases [OF 3 r]) simp_all
next
  case (4 s w task action actual p)
  obtain s' r where r: "settle_memory s task action actual = (s', r)" by force
  show ?case unfolding r fst_conv by (rule settle_memory_cases [OF 4 r]) simp_all
next
  case (5 s w task action amount s' r)
  show ?case
  proof (rule reserve_memory_cases [OF 5])
    fix d
    assume g: "map_of (task_reservations s task) action = None" "amount = Some d" "0 \<le> dval d" "r = Inr True"
      "dval d \<le> max 0 (memory_cap s task - memory_spent s task)"
      and t: "task_reservations s' = (task_reservations s)(task := AList.update action
         \<lparr>rv_reserved = d, rv_actual = None, rv_settled = False\<rparr> (task_reservations s task))"
    have spent: "memory_spent s' p = memory_spent s p + (if p = task then dval d else 0)" for p
      using memory_update_spent [OF t, of p] g(1) by (simp add: debit_def)
    have "memory_spent s' p \<le> max (memory_cap s p) (memory_spent s p)" for p
      using g(5) by (auto simp: spent max_def split: if_splits)
    then show ?thesis
      using g spent memory_update_held [OF t] by (auto simp: memory_held_def hold_of_def)
  qed (use memory_same in blast)+
next
  case (6 s w task action actual s' r)
  show ?case
  proof (rule settle_memory_cases [OF 6])
    fix x d
    assume g: "map_of (task_reservations s task) action = Some x" "\<not> rv_settled x" "actual = Some d"
      "0 \<le> dval d" "r = Inr ()"
      and t: "task_reservations s' = (task_reservations s)(task := AList.update action
         (x\<lparr>rv_actual := Some d, rv_settled := True\<rparr>) (task_reservations s task))"
    have "rv_actual x = None" using lookup_reservation_ok [OF 6(1) g(1)] g(2) by (simp add: reservation_ok_def)
    with g memory_update_spent [OF t] memory_update_held [OF t] show ?thesis
      by (auto simp: memory_held_def debit_def hold_of_def)
  qed simp
next
  case (7 s w task action amount s')
  show ?case
    by (rule reserve_memory_cases [OF 7])
      (auto simp: memory_held_def hold_of_def update_conv')
next
  case (8 s w task action amount s1 s2 v x y w' s3 ok)
  obtain d where d: "amount = Some d" "v = dval d"
    by (rule reserve_memory_cases [OF 8(1,2)]) (use 8(4) in \<open>auto simp: memory_held_def hold_of_def update_conv'\<close>)
  have valid: "amount_of amount = Some d \<and> task \<noteq> [] \<and> action \<noteq> []"
    using 8(2) d(1) by (auto simp: reserve_memory_def split: option.splits if_splits)
  obtain z where z: "map_of (task_reservations s2 task) action = Some z" "dval (rv_reserved z) = dval d"
    using 8(5) d by (auto simp: memory_held_def hold_of_def)
  have "s3 = with_task s2 task \<and> ok"
    using 8(6) valid z by (simp add: reserve_memory_def Let_def with_task_spec)
  then show ?case using memory_same [OF with_task_spec(2)] by simp
qed

section \<open>Creating and funding\<close>

lemma set_balance_Inr:
  assumes "memory_ok s" and "set_balance s task amount = Inr s'"
  shows "memory_ok s'" and "task_reservations s' = task_reservations s" and "task_reservations s task = []"
  using assms by (auto simp: set_balance_def memory_ok_def list_all_update split: option.splits if_splits)

lemma new_memory_budget_Inr:
  assumes "new_memory_budget balances dc = Inr s"
  shows "memory_ok s" and "task_reservations s = (\<lambda>_. [])"
proof -
  obtain da where a: "(case dc of None \<Rightarrow> Inr None
      | Some v \<Rightarrow> (case amount_of v of None \<Rightarrow> Inl ValueError | Some d \<Rightarrow> Inr (Some d))) = Inr da"
    and f: "fold_res (\<lambda>(task, amount) s. set_balance s task amount) balances
      \<lparr>mb_default_ceiling = da, mb_balances = [], mb_reservations = []\<rparr> = Inr s"
    using assms unfolding new_memory_budget_def bind_res_Inr_iff by blast
  from a have da: "case da of None \<Rightarrow> True | Some d \<Rightarrow> 0 \<le> dval d"
    by (auto simp: amount_of_def split: option.splits if_splits)
  have "memory_ok s \<and> task_reservations s = (\<lambda>_. [])"
  proof (rule fold_res_invariant [OF f])
    show "memory_ok \<lparr>mb_default_ceiling = da, mb_balances = [], mb_reservations = []\<rparr>
        \<and> task_reservations \<lparr>mb_default_ceiling = da, mb_balances = [], mb_reservations = []\<rparr> = (\<lambda>_. [])"
      using da by (auto simp: memory_ok_def task_reservations_def)
  qed (auto dest: set_balance_Inr)
  then show "memory_ok s" and "task_reservations s = (\<lambda>_. [])" by auto
qed

lemma memory_cap_nonneg: "memory_ok s \<Longrightarrow> 0 \<le> memory_cap s task"
  by (fastforce simp: memory_cap_def memory_ok_def list_all_iff dest: map_of_SomeD split: option.splits)

lemma memory_never_overspent:
  assumes "new_memory_budget balances dc = Inr s"
    and "ops_within (ledger_step (\<lambda>_. reserve_memory) (\<lambda>_. settle_memory)) memory_held s ops"
  shows "memory_spent (ledger_run (\<lambda>_. reserve_memory) (\<lambda>_ :: unit. settle_memory) s ops) task \<le> memory_cap s task"
  using memory.run_within [OF new_memory_budget_Inr(1) [OF assms(1)] assms(2)]
  by (simp add: memory_spent_def new_memory_budget_Inr(2) [OF assms(1)]
      memory_cap_nonneg [OF new_memory_budget_Inr(1) [OF assms(1)]])

text \<open>What is left to reserve is exact, and zero once a task has overrun its balance.\<close>

lemma remaining_memory_exact:
  "memory_ok s \<Longrightarrow> dval (snd (remaining_memory s task)) = max 0 (memory_cap s task - memory_spent s task)"
  by (rule remaining_memory_spec)

lemma settle_memory_outcome:
  assumes ok: "memory_ok s" and act: "actual = None \<or> (\<exists>d. actual = Some d \<and> 0 \<le> dval d)"
  shows "snd (settle_memory s task action actual) =
    (case (memory_held s (task, action), actual) of
       (None, _) \<Rightarrow> Inl KeyError
     | (Some (v, Some paid), Some d) \<Rightarrow> if paid = dval d then Inr () else Inl ValueError
     | _ \<Rightarrow> Inr ())"
proof (cases "map_of (task_reservations s task) action")
  case None
  then show ?thesis by (simp add: settle_memory_def memory_held_def)
next
  case (Some x)
  have "reservation_ok x" by (rule lookup_reservation_ok [OF ok Some])
  with Some act show ?thesis
    by (auto simp: settle_memory_def memory_held_def hold_of_def reservation_ok_def amount_of_def split: option.splits)
qed

end
