(* ===== verification/MoneyText.thy ===== *)
theory MoneyText
  imports Decimals
begin

text \<open>
  The text form in which \<^verbatim>\<open>storage/budget.py\<close> stores amounts: \<^verbatim>\<open>_money_text\<close> formats a
  decimal in positional notation and strips trailing zeros, and \<^verbatim>\<open>Decimal(text)\<close> reads it
  back. Only nonnegative amounts are ever written (\<^verbatim>\<open>_amount\<close> admits no others), so a sign is not
  modelled. The text is exact and canonical: reading it back gives the same value, and two amounts
  have the same text exactly when they are numerically equal, which is what the comparison of the
  immutable ceilings relies on.
\<close>

section \<open>Digits as characters\<close>

definition digit_char :: "nat \<Rightarrow> char" where
  "digit_char n = ''0123456789'' ! n"

definition digit_value :: "char \<Rightarrow> nat" where
  "digit_value c = of_char c - of_char CHR ''0''"

fun nat_text :: "nat \<Rightarrow> string" where
  "nat_text n = (if n < 10 then [digit_char n] else nat_text (n div 10) @ [digit_char (n mod 10)])"

declare nat_text.simps [simp del]

definition text_value :: "string \<Rightarrow> nat" where
  "text_value s = foldl (\<lambda>acc c. 10 * acc + digit_value c) 0 s"

section \<open>Formatting and parsing\<close>

text \<open>The two sides of the point in the format \<^verbatim>\<open>f\<close>; a zero with a positive exponent is a plain zero.\<close>

definition fixed_parts :: "decimal \<Rightarrow> string \<times> string" where
  "fixed_parts d =
     (let ds = nat_text (nat \<bar>coeff d\<bar>);
          e = (if coeff d = 0 \<and> 0 < expo d then 0 else expo d);
          dotplace = e + int (length ds)
      in if dotplace < 0 then (''0'', replicate (nat (- dotplace)) CHR ''0'' @ ds)
         else if int (length ds) < dotplace
         then (ds @ replicate (nat (dotplace - int (length ds))) CHR ''0'', [])
         else (if take (nat dotplace) ds = [] then ''0'' else take (nat dotplace) ds, drop (nat dotplace) ds))"

definition format_f :: "decimal \<Rightarrow> string" where
  "format_f d = (case fixed_parts d of (whole, decs) \<Rightarrow> if decs = [] then whole else whole @ CHR ''.'' # decs)"

definition rstrip :: "char \<Rightarrow> string \<Rightarrow> string" where
  "rstrip c s = rev (dropWhile (\<lambda>x. x = c) (rev s))"

definition money_text :: "decimal \<Rightarrow> string" where
  "money_text amount =
     (let normalized = format_f amount;
          stripped = (if CHR ''.'' \<in> set normalized then rstrip CHR ''.'' (rstrip CHR ''0'' normalized)
            else normalized)
      in if stripped = [] then ''0'' else stripped)"

definition parse_decimal :: "string \<Rightarrow> decimal" where
  "parse_decimal s =
     (let whole = takeWhile (\<lambda>c. c \<noteq> CHR ''.'') s; decs = tl (dropWhile (\<lambda>c. c \<noteq> CHR ''.'') s)
      in Dec (int (text_value (whole @ decs))) (- int (length decs)))"


section \<open>Digit strings\<close>

lemma digit_char_cases:
  assumes "n < 10"
  shows "digit_value (digit_char n) = n \<and> digit_char n \<noteq> CHR ''.'' \<and> (digit_char n = CHR ''0'' \<longleftrightarrow> n = 0)"
proof -
  have "n \<in> {0, 1, 2, 3, 4, 5, 6, 7, 8, 9}" using assms by auto
  then show ?thesis by (elim insertE emptyE) (simp_all add: digit_char_def digit_value_def)
qed

lemma digit_value_zero [simp]: "digit_value CHR ''0'' = 0"
  by (simp add: digit_value_def)

lemma nat_text_small: "n < 10 \<Longrightarrow> nat_text n = [digit_char n]"
  by (subst nat_text.simps) simp

lemma nat_text_zero [simp]: "nat_text 0 = ''0''"
  by (simp add: nat_text_small digit_char_def)

lemma nat_text_not_Nil [simp]: "nat_text n \<noteq> []"
  by (subst nat_text.simps) simp

lemma nat_text_no_point [simp]: "CHR ''.'' \<notin> set (nat_text n)"
proof (induction n rule: nat_text.induct)
  case (1 n)
  then show ?case
    using digit_char_cases [of n] digit_char_cases [of "n mod 10"]
    by (subst nat_text.simps) auto
qed

lemma text_value_foldl: "foldl (\<lambda>acc c. 10 * acc + digit_value c) a s = a * 10 ^ length s + text_value s"
proof (induction s arbitrary: a)
  case (Cons c s)
  have "text_value (c # s) = foldl (\<lambda>acc c. 10 * acc + digit_value c) (digit_value c) s"
    unfolding text_value_def by simp
  also have "\<dots> = digit_value c * 10 ^ length s + text_value s" by (rule Cons)
  finally have v: "text_value (c # s) = digit_value c * 10 ^ length s + text_value s" .
  have "foldl (\<lambda>acc c. 10 * acc + digit_value c) a (c # s)
      = (10 * a + digit_value c) * 10 ^ length s + text_value s"
    unfolding foldl_Cons by (rule Cons)
  also have "\<dots> = a * 10 ^ length (c # s) + text_value (c # s)"
    unfolding v by (simp add: add_mult_distrib)
  finally show ?case .
qed (simp add: text_value_def)

lemma text_value_append: "text_value (s @ t) = text_value s * 10 ^ length t + text_value t"
proof -
  have "text_value (s @ t) = foldl (\<lambda>acc c. 10 * acc + digit_value c) (text_value s) t"
    by (simp add: text_value_def)
  then show ?thesis by (simp only: text_value_foldl)
qed

lemma text_value_zeros [simp]: "text_value (replicate k CHR ''0'') = 0"
  by (induction k) (simp_all add: text_value_def)

lemma text_value_single [simp]: "text_value [c] = digit_value c"
  by (simp add: text_value_def)

lemma text_value_leading_zero [simp]: "text_value (CHR ''0'' # s) = text_value s"
  using text_value_append [of "''0''" s] by simp

lemma text_value_nat_text [simp]: "text_value (nat_text n) = n"
proof (induction n rule: nat_text.induct)
  case (1 n)
  show ?case
  proof (cases "n < 10")
    case True
    then show ?thesis using digit_char_cases [of n] by (simp add: nat_text_small)
  next
    case False
    then have "nat_text n = nat_text (n div 10) @ [digit_char (n mod 10)]" by (subst nat_text.simps) simp
    with 1 False digit_char_cases [of "n mod 10"] show ?thesis by (simp add: text_value_append)
  qed
qed

lemma nat_text_times_ten: "0 < n \<Longrightarrow> nat_text (n * 10) = nat_text n @ ''0''"
  by (subst nat_text.simps) (simp add: digit_char_def)

lemma nat_text_times_power: "0 < n \<Longrightarrow> nat_text (n * 10 ^ k) = nat_text n @ replicate k CHR ''0''"
proof (induction k)
  case (Suc k)
  then have "nat_text (n * 10 ^ k * 10) = nat_text (n * 10 ^ k) @ ''0''" by (intro nat_text_times_ten) simp
  moreover have "n * 10 ^ Suc k = n * 10 ^ k * 10" by simp
  ultimately show ?case using Suc by (simp only: append_assoc replicate_Suc replicate_append_same [symmetric])
qed simp

section \<open>Stripping\<close>

lemma rstrip_split: "\<exists>k. s = rstrip c s @ replicate k c"
proof (induction s rule: rev_induct)
  case (snoc x s)
  then obtain k where k: "s = rstrip c s @ replicate k c" by blast
  show ?case
  proof (cases "x = c")
    case True
    then have "rstrip c (s @ [x]) = rstrip c s" by (simp add: rstrip_def)
    moreover have "s @ [x] = rstrip c s @ replicate (Suc k) c"
      using k True by (metis append_assoc replicate_Suc replicate_append_same)
    ultimately show ?thesis by metis
  next
    case False
    then have "s @ [x] = rstrip c (s @ [x]) @ replicate 0 c" by (simp add: rstrip_def)
    then show ?thesis by blast
  qed
qed (simp add: rstrip_def)

lemma rstrip_snoc [simp]: "rstrip c (s @ [c]) = rstrip c s"
  by (simp add: rstrip_def)

lemma dropWhile_keep: "\<not> P x \<Longrightarrow> dropWhile P (t @ x # s) = dropWhile P t @ x # s"
  by (induction t) auto

lemma rstrip_keep: "x \<noteq> c \<Longrightarrow> rstrip c (s @ x # t) = s @ x # rstrip c t"
  by (simp add: rstrip_def dropWhile_keep)

lemma rstrip_id: "c \<notin> set s \<Longrightarrow> rstrip c s = s"
  by (cases s rule: rev_cases) (auto simp: rstrip_def)

lemma set_rstrip: "set (rstrip c s) \<subseteq> set s"
  by (auto simp: rstrip_def dest: set_dropWhileD)

definition point :: "string \<Rightarrow> string" where
  "point decs = (if decs = [] then [] else CHR ''.'' # decs)"

lemma fixed_parts_no_point:
  assumes "fixed_parts d = (whole, decs)"
  shows "CHR ''.'' \<notin> set whole" and "CHR ''.'' \<notin> set decs" and "whole \<noteq> []"
  using assms nat_text_no_point [of "nat \<bar>coeff d\<bar>"]
  by (auto simp: fixed_parts_def Let_def split: if_splits dest: in_set_takeD in_set_dropD)

lemma money_text_parts:
  assumes "fixed_parts d = (whole, decs)"
  shows "money_text d = whole @ point (rstrip CHR ''0'' decs)"
proof (cases "decs = []")
  case True
  then show ?thesis
    using fixed_parts_no_point [OF assms] assms
    by (simp add: money_text_def format_f_def point_def rstrip_def)
next
  case False
  then have "format_f d = whole @ CHR ''.'' # decs" using assms by (simp add: format_f_def)
  then have m: "money_text d = (let t = rstrip CHR ''.'' (whole @ CHR ''.'' # rstrip CHR ''0'' decs)
      in if t = [] then ''0'' else t)"
    by (simp add: money_text_def Let_def rstrip_keep)
  have np: "CHR ''.'' \<notin> set (rstrip CHR ''0'' decs)"
    using fixed_parts_no_point(2) [OF assms] set_rstrip by blast
  show ?thesis
  proof (cases "rstrip CHR ''0'' decs" rule: rev_cases)
    case Nil
    then show ?thesis
      using m fixed_parts_no_point(1,3) [OF assms] by (simp add: point_def rstrip_id Let_def)
  next
    case (snoc ys y)
    with np have "y \<noteq> CHR ''.''" by auto
    then have "rstrip CHR ''.'' ((whole @ CHR ''.'' # ys) @ y # []) = (whole @ CHR ''.'' # ys) @ y # rstrip CHR ''.'' []"
      by (rule rstrip_keep)
    then have "rstrip CHR ''.'' (whole @ CHR ''.'' # rstrip CHR ''0'' decs) = whole @ CHR ''.'' # rstrip CHR ''0'' decs"
      unfolding snoc by (simp add: rstrip_id)
    then show ?thesis unfolding m Let_def by (simp add: point_def snoc)
  qed
qed


section \<open>The text is exact and canonical\<close>

lemma split_at_point:
  "CHR ''.'' \<notin> set xs \<Longrightarrow> takeWhile (\<lambda>c. c \<noteq> CHR ''.'') (xs @ CHR ''.'' # ys) = xs
     \<and> dropWhile (\<lambda>c. c \<noteq> CHR ''.'') (xs @ CHR ''.'' # ys) = CHR ''.'' # ys"
  by (induction xs) auto

lemma parse_parts:
  assumes "CHR ''.'' \<notin> set whole"
  shows "parse_decimal (whole @ point decs) = Dec (int (text_value (whole @ decs))) (- int (length decs))"
proof -
  have "takeWhile (\<lambda>c. c \<noteq> CHR ''.'') whole = whole" and "dropWhile (\<lambda>c. c \<noteq> CHR ''.'') whole = []"
    using assms by (auto simp: takeWhile_eq_all_conv)
  moreover have "takeWhile (\<lambda>c. c \<noteq> CHR ''.'') (whole @ CHR ''.'' # decs) = whole"
    and "dropWhile (\<lambda>c. c \<noteq> CHR ''.'') (whole @ CHR ''.'' # decs) = CHR ''.'' # decs"
    using split_at_point [OF assms] by auto
  ultimately show ?thesis by (simp add: parse_decimal_def point_def Let_def)
qed

lemma power_ratio: "(10::rat) ^ k * 10 powi (- int (n + k)) = 10 powi (- int n)"
proof -
  have "(10::rat) powi (- int n) = 10 ^ nat (- int n - - int (n + k)) * 10 powi (- int (n + k))"
    by (rule powi_split) simp
  then show ?thesis by simp
qed

text \<open>Trailing zeros behind the point do not change the value.\<close>

lemma dval_parts_strip:
  "dval (Dec (int (text_value (whole @ rstrip CHR ''0'' decs))) (- int (length (rstrip CHR ''0'' decs))))
     = dval (Dec (int (text_value (whole @ decs))) (- int (length decs)))"
proof -
  obtain k where k: "decs = rstrip CHR ''0'' decs @ replicate k CHR ''0''" using rstrip_split by blast
  let ?f = "rstrip CHR ''0'' decs"
  have "text_value (whole @ decs) = text_value (whole @ ?f) * 10 ^ k"
    using k text_value_append [of "whole @ ?f" "replicate k CHR ''0''"] by (simp del: append_assoc)
       (metis append_assoc)
  moreover have "length decs = length ?f + k" using k by (metis length_append length_replicate)
  ultimately show ?thesis using power_ratio [of k "length ?f"] by (simp add: dval_def mult.assoc)
qed

lemma fixed_parts_value:
  assumes "0 \<le> coeff d" and "fixed_parts d = (whole, decs)"
  shows "dval (Dec (int (text_value (whole @ decs))) (- int (length decs))) = dval d"
proof -
  define ds where "ds = nat_text (nat \<bar>coeff d\<bar>)"
  define e where "e = (if coeff d = 0 \<and> 0 < expo d then 0 else expo d)"
  have val: "int (text_value ds) = coeff d" using assms(1) by (simp add: ds_def)
  have d: "dval d = of_int (coeff d) * 10 powi e" by (simp add: dval_def e_def)
  have parts: "fixed_parts d = (if e + int (length ds) < 0 then (''0'', replicate (nat (- (e + int (length ds)))) CHR ''0'' @ ds)
      else if 0 < e then (ds @ replicate (nat e) CHR ''0'', [])
      else (if take (nat (e + int (length ds))) ds = [] then ''0'' else take (nat (e + int (length ds))) ds,
            drop (nat (e + int (length ds))) ds))"
    by (simp add: fixed_parts_def Let_def ds_def e_def)
  consider (small) "e + int (length ds) < 0" | (large) "0 < e" | (mid) "0 \<le> e + int (length ds)" "e \<le> 0" by linarith
  then show ?thesis
  proof cases
    case small
    then have p: "whole = ''0''" "decs = replicate (nat (- (e + int (length ds)))) CHR ''0'' @ ds"
      using parts assms(2) by auto
    have "- int (length decs) = e" using small by (simp add: p(2))
    moreover have "text_value (whole @ decs) = text_value ds"
      by (simp add: p text_value_append)
    ultimately show ?thesis unfolding d by (simp add: dval_def flip: val)
  next
    case large
    then have p: "whole = ds @ replicate (nat e) CHR ''0''" "decs = []" using parts assms(2) by auto
    have "text_value (whole @ decs) = text_value ds * 10 ^ nat e" by (simp add: p text_value_append)
    with large show ?thesis unfolding d by (simp add: dval_def powi_nat p(2) flip: val)
  next
    case mid
    then have p: "whole = (if take (nat (e + int (length ds))) ds = [] then ''0'' else take (nat (e + int (length ds))) ds)"
      "decs = drop (nat (e + int (length ds))) ds" using parts assms(2) by auto
    have "- int (length decs) = e" using mid by (simp add: p(2))
    moreover have "text_value (whole @ decs) = text_value ds"
    proof (cases "take (nat (e + int (length ds))) ds = []")
      case True
      then have "drop (nat (e + int (length ds))) ds = ds" by (auto simp: take_eq_Nil)
      with True p show ?thesis by (simp add: text_value_append)
    next
      case False
      then show ?thesis by (simp add: p)
    qed
    ultimately show ?thesis unfolding d by (simp add: dval_def flip: val)
  qed
qed

lemma money_text_roundtrip:
  assumes "0 \<le> coeff d"
  shows "dval (parse_decimal (money_text d)) = dval d"
proof -
  obtain whole decs where p: "fixed_parts d = (whole, decs)" by force
  show ?thesis
    unfolding money_text_parts [OF p] parse_parts [OF fixed_parts_no_point(1) [OF p]] dval_parts_strip
    by (rule fixed_parts_value [OF assms p])
qed

text \<open>Refining the exponent of an amount does not change its text.\<close>

lemma money_text_zero: "money_text (Dec 0 e) = ''0''"
proof -
  have "\<exists>k. fixed_parts (Dec 0 e) = (''0'', replicate k CHR ''0'')"
  proof -
    consider "0 < e" | "e = 0" | "e = - 1" | "e < - 1" by linarith
    then show ?thesis
    proof cases
      case 1
      then show ?thesis by (auto simp: fixed_parts_def Let_def intro: exI [of _ 0])
    next
      case 2
      then show ?thesis by (auto simp: fixed_parts_def Let_def intro: exI [of _ 0])
    next
      case 3
      then show ?thesis by (auto simp: fixed_parts_def Let_def intro: exI [of _ 1])
    next
      case 4
      then show ?thesis
        by (auto simp: fixed_parts_def Let_def replicate_append_same simp flip: replicate_Suc)
    qed
  qed
  then obtain k where "fixed_parts (Dec 0 e) = (''0'', replicate k CHR ''0'')" by blast
  moreover have "rstrip CHR ''0'' (replicate k CHR ''0'') = []" by (simp add: rstrip_def)
  ultimately show ?thesis by (simp add: money_text_parts point_def)
qed

lemma money_text_whole:
  assumes "0 < c" and "0 < e"
  shows "money_text (Dec c e) = money_text (Dec (c * 10 ^ nat e) 0)"
proof -
  have "nat \<bar>c * 10 ^ nat e\<bar> = nat \<bar>c\<bar> * 10 ^ nat e"
    using assms(1) by (simp add: nat_mult_distrib nat_power_eq)
  then have "fixed_parts (Dec c e) = fixed_parts (Dec (c * 10 ^ nat e) 0)"
    using assms by (simp add: fixed_parts_def Let_def nat_text_times_power)
  then show ?thesis by (simp add: money_text_def format_f_def)
qed

lemma money_text_refine:
  assumes "0 < c" and "e \<le> 0"
  shows "money_text (Dec (c * 10) (e - 1)) = money_text (Dec c e)"
proof -
  have "nat (c * 10) = nat c * 10" using assms(1) by simp
  then have t: "nat_text (nat (c * 10)) = nat_text (nat c) @ ''0''"
    using nat_text_times_ten [of "nat c"] assms(1) by simp
  obtain whole decs where p: "fixed_parts (Dec c e) = (whole, decs)" by force
  have "fixed_parts (Dec (c * 10) (e - 1)) = (whole, decs @ ''0'')"
    using p assms by (auto simp: fixed_parts_def Let_def t split: if_splits)
  from money_text_parts [OF this] money_text_parts [OF p] show ?thesis by simp
qed


lemma money_text_refine_many:
  assumes "0 < c" and "e \<le> 0"
  shows "money_text (Dec (c * 10 ^ k) (e - int k)) = money_text (Dec c e)"
proof (induction k)
  case (Suc k)
  have "money_text (Dec (c * 10 ^ k * 10) (e - int k - 1)) = money_text (Dec (c * 10 ^ k) (e - int k))"
    by (rule money_text_refine) (use assms in auto)
  with Suc show ?case by (simp add: algebra_simps)
qed simp

text \<open>Every amount has the text of some refinement with any lower exponent that is not positive.\<close>

lemma money_text_lower:
  assumes "0 < c" and "m \<le> e" and "m \<le> 0"
  shows "money_text (Dec c e) = money_text (Dec (c * 10 ^ nat (e - m)) m)"
proof (cases "0 < e")
  case True
  have "money_text (Dec (c * 10 ^ nat e * 10 ^ nat (- m)) (0 - int (nat (- m)))) = money_text (Dec (c * 10 ^ nat e) 0)"
    by (rule money_text_refine_many) (use assms(1) in auto)
  moreover have "c * 10 ^ nat e * 10 ^ nat (- m) = c * 10 ^ nat (e - m)"
    using True assms(3) by (simp add: power_add [symmetric] nat_add_distrib [symmetric] mult.assoc)
  ultimately show ?thesis using money_text_whole [OF assms(1) True] assms(3) by simp
next
  case False
  then have "money_text (Dec (c * 10 ^ nat (e - m)) (e - int (nat (e - m)))) = money_text (Dec c e)"
    by (intro money_text_refine_many) (use assms in auto)
  then show ?thesis using assms(2) by simp
qed

lemma money_text_canonical:
  assumes "0 \<le> coeff a" and "0 \<le> coeff b"
  shows "money_text a = money_text b \<longleftrightarrow> dval a = dval b"
proof
  assume "money_text a = money_text b"
  then show "dval a = dval b" using money_text_roundtrip [OF assms(1)] money_text_roundtrip [OF assms(2)] by metis
next
  assume eq: "dval a = dval b"
  obtain ca ea cb eb where ab: "a = Dec ca ea" "b = Dec cb eb" by (cases a; cases b) auto
  show "money_text a = money_text b"
  proof (cases "ca = 0 \<or> cb = 0")
    case True
    then have "ca = 0 \<and> cb = 0" using eq ab by (auto simp: dval_def)
    then show ?thesis by (simp add: ab money_text_zero)
  next
    case False
    then have pos: "0 < ca" "0 < cb" using assms ab by auto
    define m where "m = min 0 (min ea eb)"
    have m: "m \<le> ea" "m \<le> eb" "m \<le> 0" by (auto simp: m_def)
    have "of_int ca * (10::rat) ^ nat (ea - m) * 10 powi m = of_int cb * 10 ^ nat (eb - m) * 10 powi m"
      using eq powi_split [OF m(1)] powi_split [OF m(2)] by (simp add: ab dval_def mult.assoc)
    then have "of_int (ca * 10 ^ nat (ea - m)) = (of_int (cb * 10 ^ nat (eb - m)) :: rat)" by simp
    then have "ca * 10 ^ nat (ea - m) = cb * 10 ^ nat (eb - m)" by (simp only: of_int_eq_iff)
    then show ?thesis
      using money_text_lower [OF pos(1) m(1,3)] money_text_lower [OF pos(2) m(2,3)] by (simp add: ab)
  qed
qed

lemma parse_money_nonneg: "0 \<le> coeff d \<Longrightarrow> 0 \<le> coeff (parse_decimal (money_text d))"
  by (simp add: parse_decimal_def Let_def)

end
