(* ===== verification/SqlBudget.thy ===== *)
theory SqlBudget
  imports MemoryBudget MoneyText
begin

text \<open>
  \<^verbatim>\<open>SQLBudgetAuthority\<close> of \<^verbatim>\<open>storage/budget.py\<close>: the durable allocation that the threads,
  processes and hosts of an application share. The database is the four tables the code reads and
  writes, keyed as the schema keys them; creation times are not modelled, no code reads them.

  Each method runs in one serialized write session, so it is one step of the database. The session
  commits when its body returns and rolls back when the body raises. A storage failure shows up in
  one of two ways: the session is rolled back, or it is committed and the acknowledgement is lost;
  either way the caller sees \<open>RepositoryUnavailable\<close>. The parameter of type \<open>store_outcome\<close> says
  which. The interpretation discharges the laws of a budget authority for every allocation, with
  the application's pool \<open>None\<close> and the pool \<open>Some task\<close> of each task.
\<close>

datatype store_outcome = Store_ok | Store_failed | Store_lost_ack

record allocation_row =
  al_application_ceiling :: string
  al_task_ceiling :: string

record reservation_row =
  rr_reserved :: string
  rr_actual :: "string option"
  rr_settled :: bool

record budget_db =
  bg_task_scopes :: "(string \<times> string) list"
  bg_allocations :: "((string \<times> string) \<times> allocation_row) list"
  bg_tasks :: "((string \<times> string \<times> string) \<times> string) list"
  bg_reservations :: "((string \<times> string \<times> string \<times> string) \<times> reservation_row) list"

record sql_authority =
  sa_application_id :: string
  sa_allocation_id :: string
  sa_application_ceiling :: decimal
  sa_task_ceiling :: decimal

definition write_session :: "store_outcome \<Rightarrow> (budget_db \<Rightarrow> budget_db \<times> 'a res) \<Rightarrow> budget_db
    \<Rightarrow> budget_db \<times> 'a res" where
  "write_session st body db =
     (case st of
        Store_failed \<Rightarrow> (db, Inl RepositoryUnavailable)
      | Store_ok \<Rightarrow> (case body db of (db', Inl e) \<Rightarrow> (db, Inl e) | (db', Inr x) \<Rightarrow> (db', Inr x))
      | Store_lost_ack \<Rightarrow> (case body db of (db', Inl e) \<Rightarrow> (db, Inl e)
          | (db', Inr x) \<Rightarrow> (db', Inl RepositoryUnavailable)))"

abbreviation allocation_key :: "sql_authority \<Rightarrow> string \<times> string" where
  "allocation_key auth \<equiv> (sa_application_id auth, sa_allocation_id auth)"

abbreviation task_key :: "sql_authority \<Rightarrow> string \<Rightarrow> string \<times> string \<times> string" where
  "task_key auth task \<equiv> (sa_application_id auth, sa_allocation_id auth, task)"

abbreviation action_key :: "sql_authority \<Rightarrow> string \<Rightarrow> string \<Rightarrow> string \<times> string \<times> string \<times> string" where
  "action_key auth task action \<equiv> (sa_application_id auth, sa_allocation_id auth, task, action)"

section \<open>Operations\<close>

definition ensure_allocation :: "sql_authority \<Rightarrow> budget_db \<Rightarrow> budget_db \<times> unit res" where
  "ensure_allocation auth db =
     (let texts = \<lparr>al_application_ceiling = money_text (sa_application_ceiling auth),
            al_task_ceiling = money_text (sa_task_ceiling auth)\<rparr>;
          db' = (if map_of (bg_allocations db) (allocation_key auth) = None
            then db\<lparr>bg_allocations := AList.update (allocation_key auth) texts (bg_allocations db)\<rparr> else db)
      in (db', if map_of (bg_allocations db') (allocation_key auth) = Some texts then Inr () else Inl ValueError))"

definition new_sql_authority :: "store_outcome \<Rightarrow> budget_db \<Rightarrow> string \<Rightarrow> string \<Rightarrow> decimal option \<Rightarrow> decimal option
    \<Rightarrow> budget_db \<times> sql_authority res" where
  "new_sql_authority st db application_id allocation_id application_ceiling task_ceiling =
     (if application_id = [] \<or> allocation_id = [] then (db, Inl ValueError)
      else (case (amount_of application_ceiling, amount_of task_ceiling) of
          (Some application_amount, Some task_amount) \<Rightarrow>
            if dec_lt application_amount task_amount then (db, Inl ValueError)
            else
              let auth = \<lparr>sa_application_id = application_id, sa_allocation_id = allocation_id,
                    sa_application_ceiling = application_amount, sa_task_ceiling = task_amount\<rparr>;
                  (db', r) = write_session st (ensure_allocation auth) db
              in (db', bind_res r (\<lambda>_. Inr auth))
        | _ \<Rightarrow> (db, Inl ValueError)))"

definition locked_allocation :: "sql_authority \<Rightarrow> budget_db \<Rightarrow> allocation_row res" where
  "locked_allocation auth db = (case map_of (bg_allocations db) (allocation_key auth) of
     None \<Rightarrow> Inl RepositoryUnavailable | Some row \<Rightarrow> Inr row)"

definition verify_task_owner :: "sql_authority \<Rightarrow> budget_db \<Rightarrow> string \<Rightarrow> unit res" where
  "verify_task_owner auth db task = (case map_of (bg_task_scopes db) task of None \<Rightarrow> Inr ()
     | Some scope \<Rightarrow> if scope \<noteq> sa_application_id auth then Inl IdempotencyConflict else Inr ())"

definition row_debit :: "reservation_row \<Rightarrow> decimal" where
  "row_debit row = (case rr_actual row of
     Some actual \<Rightarrow> if rr_settled row then parse_decimal actual else parse_decimal (rr_reserved row)
   | None \<Rightarrow> parse_decimal (rr_reserved row))"

definition in_allocation :: "sql_authority \<Rightarrow> (string \<times> string \<times> string \<times> string) \<times> reservation_row \<Rightarrow> bool" where
  "in_allocation auth r = (case r of ((app, alloc, task, action), row) \<Rightarrow>
     app = sa_application_id auth \<and> alloc = sa_allocation_id auth)"

definition of_task :: "sql_authority \<Rightarrow> string \<Rightarrow> (string \<times> string \<times> string \<times> string) \<times> reservation_row \<Rightarrow> bool" where
  "of_task auth t r = (in_allocation auth r \<and> (case r of ((app, alloc, task, action), row) \<Rightarrow> task = t))"

definition app_debit :: "sql_authority \<Rightarrow> budget_db \<Rightarrow> decimal" where
  "app_debit auth db = money_sum (map (row_debit \<circ> snd) (filter (in_allocation auth) (bg_reservations db)))"

definition task_debit :: "sql_authority \<Rightarrow> budget_db \<Rightarrow> string \<Rightarrow> decimal" where
  "task_debit auth db task = money_sum (map (row_debit \<circ> snd) (filter (of_task auth task) (bg_reservations db)))"

definition remaining_sql :: "store_outcome \<Rightarrow> sql_authority \<Rightarrow> budget_db \<Rightarrow> string \<Rightarrow> budget_db \<times> decimal res" where
  "remaining_sql st auth db0 task =
     (if task = [] then (db0, Inr ZERO)
      else write_session st (\<lambda>db. (db,
        bind_res (locked_allocation auth db) (\<lambda>allocation.
        bind_res (verify_task_owner auth db task) (\<lambda>_.
        Inr (dec_min
          (dec_max ZERO (money_difference (parse_decimal (al_application_ceiling allocation)) [app_debit auth db]))
          (dec_max ZERO (money_difference (parse_decimal (al_task_ceiling allocation)) [task_debit auth db task]))))))) db0)"

text \<open>The task row that pins a task to the allocation, created on its first reservation.\<close>

definition pin_task :: "sql_authority \<Rightarrow> allocation_row \<Rightarrow> budget_db \<Rightarrow> string \<Rightarrow> (budget_db \<times> string) res" where
  "pin_task auth allocation db task =
     (case map_of (bg_tasks db) (task_key auth task) of
        None \<Rightarrow> Inr (db\<lparr>bg_tasks := AList.update (task_key auth task) (al_task_ceiling allocation) (bg_tasks db)\<rparr>,
                   al_task_ceiling allocation)
      | Some pinned \<Rightarrow> if pinned \<noteq> al_task_ceiling allocation then Inl ValueError else Inr (db, pinned))"

definition reserve_new :: "sql_authority \<Rightarrow> allocation_row \<Rightarrow> budget_db \<Rightarrow> string \<Rightarrow> string \<Rightarrow> decimal
    \<Rightarrow> budget_db \<times> bool res" where
  "reserve_new auth allocation db0 task action normalized =
     (case pin_task auth allocation db0 task of
        Inl e \<Rightarrow> (db0, Inl e)
      | Inr (db, pinned) \<Rightarrow>
          if dec_lt (parse_decimal (al_application_ceiling allocation)) (money_sum [app_debit auth db, normalized])
          then (db, Inr False)
          else if dec_lt (parse_decimal pinned) (money_sum [task_debit auth db task, normalized])
          then (db, Inr False)
          else (db\<lparr>bg_reservations := AList.update (action_key auth task action)
                 \<lparr>rr_reserved = money_text normalized, rr_actual = None, rr_settled = False\<rparr> (bg_reservations db)\<rparr>,
                Inr True))"

definition reserve_body :: "sql_authority \<Rightarrow> string \<Rightarrow> string \<Rightarrow> decimal \<Rightarrow> budget_db \<Rightarrow> budget_db \<times> bool res" where
  "reserve_body auth task action normalized db =
     (case bind_res (locked_allocation auth db) (\<lambda>allocation.
           bind_res (verify_task_owner auth db task) (\<lambda>_. Inr allocation)) of
        Inl e \<Rightarrow> (db, Inl e)
      | Inr allocation \<Rightarrow> (case map_of (bg_reservations db) (action_key auth task action) of
          Some existing \<Rightarrow> (db, Inr (dec_eq (parse_decimal (rr_reserved existing)) normalized))
        | None \<Rightarrow> reserve_new auth allocation db task action normalized))"

definition reserve_sql :: "sql_authority \<Rightarrow> store_outcome \<Rightarrow> budget_db \<Rightarrow> string \<Rightarrow> string \<Rightarrow> decimal option
    \<Rightarrow> budget_db \<times> bool res" where
  "reserve_sql auth st db task action amount =
     (case amount_of amount of
        None \<Rightarrow> (db, Inr False)
      | Some normalized \<Rightarrow>
          if task = [] \<or> action = [] then (db, Inr False)
          else write_session st (reserve_body auth task action normalized) db)"

definition settle_body :: "sql_authority \<Rightarrow> string \<Rightarrow> string \<Rightarrow> decimal \<Rightarrow> budget_db \<Rightarrow> budget_db \<times> unit res" where
  "settle_body auth task action normalized db =
     (case bind_res (locked_allocation auth db) (\<lambda>_. verify_task_owner auth db task) of
        Inl e \<Rightarrow> (db, Inl e)
      | Inr _ \<Rightarrow> (case map_of (bg_reservations db) (action_key auth task action) of
          None \<Rightarrow> (db, Inl KeyError)
        | Some row \<Rightarrow>
            if rr_settled row
            then (db, if (case rr_actual row of None \<Rightarrow> True | Some a \<Rightarrow> \<not> dec_eq (parse_decimal a) normalized)
                  then Inl ValueError else Inr ())
            else (db\<lparr>bg_reservations := AList.update (action_key auth task action)
                   (row\<lparr>rr_actual := Some (money_text normalized), rr_settled := True\<rparr>) (bg_reservations db)\<rparr>,
                  Inr ())))"

definition settle_sql :: "sql_authority \<Rightarrow> store_outcome \<Rightarrow> budget_db \<Rightarrow> string \<Rightarrow> string \<Rightarrow> decimal option
    \<Rightarrow> budget_db \<times> unit res" where
  "settle_sql auth st db task action actual =
     (case actual of
        None \<Rightarrow> (db, Inr ())
      | Some value \<Rightarrow> (case amount_of (Some value) of
          None \<Rightarrow> (db, Inl ValueError)
        | Some normalized \<Rightarrow> write_session st (settle_body auth task action normalized) db))"


section \<open>What the tables hold\<close>

definition row_ok :: "reservation_row \<Rightarrow> bool" where
  "row_ok row = (rr_settled row = (rr_actual row \<noteq> None))"

definition sql_ok :: "budget_db \<Rightarrow> bool" where
  "sql_ok db = list_all (row_ok \<circ> snd) (bg_reservations db)"

definition row_hold :: "reservation_row \<Rightarrow> hold" where
  "row_hold row = (dval (parse_decimal (rr_reserved row)),
     if rr_settled row then map_option (dval \<circ> parse_decimal) (rr_actual row) else None)"

definition sql_held :: "sql_authority \<Rightarrow> budget_db \<Rightarrow> string \<times> string \<Rightarrow> hold option" where
  "sql_held auth db k = map_option row_hold (map_of (bg_reservations db) (action_key auth (fst k) (snd k)))"

definition in_pool :: "sql_authority \<Rightarrow> string option \<Rightarrow> (string \<times> string \<times> string \<times> string) \<times> reservation_row \<Rightarrow> bool" where
  "in_pool auth pool r = (case pool of None \<Rightarrow> in_allocation auth r | Some task \<Rightarrow> of_task auth task r)"

definition sql_spent :: "sql_authority \<Rightarrow> budget_db \<Rightarrow> string option \<Rightarrow> rat" where
  "sql_spent auth db pool =
     sum_list (map (\<lambda>r. if in_pool auth pool r then dval (row_debit (snd r)) else 0) (bg_reservations db))"

definition sql_cap :: "sql_authority \<Rightarrow> budget_db \<Rightarrow> string option \<Rightarrow> rat" where
  "sql_cap auth db pool = (case map_of (bg_allocations db) (allocation_key auth) of None \<Rightarrow> 0
     | Some row \<Rightarrow> dval (parse_decimal (case pool of None \<Rightarrow> al_application_ceiling row
         | Some task \<Rightarrow> al_task_ceiling row)))"

definition in_charge :: "string option \<Rightarrow> string \<Rightarrow> bool" where
  "in_charge pool task = (case pool of None \<Rightarrow> True | Some t \<Rightarrow> t = task)"

lemma app_debit_spent: "dval (app_debit auth db) = sql_spent auth db None"
  by (simp add: app_debit_def sql_spent_def in_pool_def money_sum_exact sum_list_map_filter' o_def)

lemma task_debit_spent: "dval (task_debit auth db task) = sql_spent auth db (Some task)"
  by (simp add: task_debit_def sql_spent_def in_pool_def money_sum_exact sum_list_map_filter' o_def)

lemma in_pool_key: "in_pool auth pool (action_key auth task action, row) \<longleftrightarrow> in_charge pool task"
  by (auto simp: in_pool_def in_allocation_def of_task_def in_charge_def split: option.splits)

lemma sql_update_spent:
  assumes "bg_reservations db' = AList.update (action_key auth task action) row (bg_reservations db)"
  shows "sql_spent auth db' pool = sql_spent auth db pool + (if in_charge pool task then dval (row_debit row)
    - (case map_of (bg_reservations db) (action_key auth task action) of None \<Rightarrow> 0 | Some r \<Rightarrow> dval (row_debit r)) else 0)"
  unfolding sql_spent_def assms sum_list_update by (simp add: in_pool_key split: option.splits)

lemma sql_update_held:
  assumes "bg_reservations db' = AList.update (action_key auth task action) row (bg_reservations db)"
  shows "sql_held auth db' = (sql_held auth db)((task, action) \<mapsto> row_hold row)"
  by (rule ext) (auto simp: sql_held_def assms update_conv')

lemma sql_same:
  "bg_reservations db' = bg_reservations db \<Longrightarrow> sql_held auth db' = sql_held auth db \<and> sql_spent auth db' = sql_spent auth db"
  by (auto simp: sql_held_def sql_spent_def)

lemma sql_cap_same: "bg_allocations db' = bg_allocations db \<Longrightarrow> sql_cap auth db' = sql_cap auth db"
  by (rule ext) (simp add: sql_cap_def)

lemma write_session_cases:
  assumes "write_session st body db = (db', r)"
  obtains (rolled_back) e where "db' = db" "r = Inl e"
  | (committed) x where "body db = (db', Inr x)" "r = Inr x"
  | (unacknowledged) x where "body db = (db', Inr x)" "r = Inl RepositoryUnavailable"
  using assms by (cases st; cases "body db"; cases "snd (body db)") (auto simp: write_session_def)

section \<open>Outcomes of the operations\<close>

text \<open>The parts of the database that no operation touches, and what a granted reservation adds.\<close>

definition granted_row :: "decimal \<Rightarrow> reservation_row" where
  "granted_row d = \<lparr>rr_reserved = money_text d, rr_actual = None, rr_settled = False\<rparr>"

lemma reserve_body_Inr:
  assumes "reserve_body auth task action d db = (db', Inr ok)"
  obtains (same) "bg_reservations db' = bg_reservations db" "bg_allocations db' = bg_allocations db"
      "bg_task_scopes db' = bg_task_scopes db"
      "ok \<Longrightarrow> \<exists>row. map_of (bg_reservations db) (action_key auth task action) = Some row
         \<and> dval (parse_decimal (rr_reserved row)) = dval d"
  | (granted) "ok" "map_of (bg_reservations db) (action_key auth task action) = None"
      "bg_reservations db' = AList.update (action_key auth task action) (granted_row d) (bg_reservations db)"
      "bg_allocations db' = bg_allocations db" "bg_task_scopes db' = bg_task_scopes db"
      "sql_spent auth db None + dval d \<le> sql_cap auth db None"
      "sql_spent auth db (Some task) + dval d \<le> sql_cap auth db (Some task)"
proof -
  obtain allocation where al: "map_of (bg_allocations db) (allocation_key auth) = Some allocation"
    and b: "(case map_of (bg_reservations db) (action_key auth task action) of
          Some existing \<Rightarrow> (db, Inr (dec_eq (parse_decimal (rr_reserved existing)) d))
        | None \<Rightarrow> reserve_new auth allocation db task action d) = (db', Inr ok)"
    using assms by (auto simp: reserve_body_def locked_allocation_def bind_res_Inr_iff split: sum.splits option.splits)
  show ?thesis
  proof (cases "map_of (bg_reservations db) (action_key auth task action)")
    case (Some existing)
    with b same show ?thesis by auto
  next
    case None
    then have n: "reserve_new auth allocation db task action d = (db', Inr ok)" using b by simp
    then obtain db1 where pin: "pin_task auth allocation db task = Inr (db1, al_task_ceiling allocation)"
      by (auto simp: reserve_new_def pin_task_def split: sum.splits option.splits if_splits)
    then have db1: "bg_reservations db1 = bg_reservations db" "bg_allocations db1 = bg_allocations db"
      "bg_task_scopes db1 = bg_task_scopes db"
      by (auto simp: pin_task_def split: option.splits if_splits)
    note d1 = app_debit_spent [of auth db1] task_debit_spent [of auth db1 task]
    note s1 = conjunct2 [OF sql_same [OF db1(1), of auth]]
    show ?thesis
    proof (cases "sql_cap auth db None < sql_spent auth db None + dval d
        \<or> sql_cap auth db (Some task) < sql_spent auth db (Some task) + dval d")
      case True
      then have "db' = db1 \<and> \<not> ok"
        using n pin al by (auto simp: reserve_new_def money_sum_exact d1 s1 sql_cap_def split: if_splits)
      with db1 same show ?thesis by simp
    next
      case False
      then have "db' = db1\<lparr>bg_reservations := AList.update (action_key auth task action) (granted_row d) (bg_reservations db1)\<rparr> \<and> ok"
        using n pin al by (auto simp: reserve_new_def granted_row_def money_sum_exact d1 s1 sql_cap_def split: if_splits)
      with granted [OF _ None] False db1 show ?thesis by (simp add: not_less)
    qed
  qed
qed

lemma settle_body_Inr:
  assumes "settle_body auth task action d db = (db', Inr u)"
  obtains (same) "db' = db"
  | (settled) row where "map_of (bg_reservations db) (action_key auth task action) = Some row" "\<not> rr_settled row"
      "db' = db\<lparr>bg_reservations := AList.update (action_key auth task action)
         (row\<lparr>rr_actual := Some (money_text d), rr_settled := True\<rparr>) (bg_reservations db)\<rparr>"
  using assms by (auto simp: settle_body_def split: sum.splits option.splits if_splits)


text \<open>A step of either operation keeps the rows well formed and never touches an allocation.\<close>

lemma sql_ok_update: "sql_ok db \<Longrightarrow> row_ok row \<Longrightarrow>
    bg_reservations db' = AList.update k row (bg_reservations db) \<Longrightarrow> sql_ok db'"
  by (simp add: sql_ok_def list_all_update)

lemma lookup_row_ok: "sql_ok db \<Longrightarrow> map_of (bg_reservations db) k = Some row \<Longrightarrow> row_ok row"
  by (fastforce simp: sql_ok_def list_all_iff dest: map_of_SomeD)

lemma granted_row_facts:
  assumes "0 \<le> dval d"
  shows "row_ok (granted_row d)" and "row_hold (granted_row d) = (dval d, None)"
    and "dval (row_debit (granted_row d)) = dval d" and "dval (parse_decimal (rr_reserved (granted_row d))) = dval d"
  using money_text_roundtrip [of d] assms
  by (simp_all add: granted_row_def row_ok_def row_hold_def row_debit_def money_ok_iff [symmetric] money_ok_def)

lemma settled_row_facts:
  assumes "0 \<le> dval d" and "row_ok row" and "\<not> rr_settled row"
  defines "paid \<equiv> row\<lparr>rr_actual := Some (money_text d), rr_settled := True\<rparr>"
  shows "row_ok paid" and "row_hold row = (fst (row_hold row), None)"
    and "row_hold paid = (fst (row_hold row), Some (dval d))"
    and "dval (row_debit paid) = dval d" and "dval (row_debit row) = fst (row_hold row)"
  using money_text_roundtrip [of d] assms
  by (simp_all add: row_ok_def row_hold_def row_debit_def money_ok_iff [symmetric] money_ok_def)

lemma reserve_sql_cases:
  assumes ok: "sql_ok db" and r: "reserve_sql auth st db task action amount = (db', r)"
  obtains (same) "bg_reservations db' = bg_reservations db" "bg_allocations db' = bg_allocations db" "sql_ok db'"
      "r = Inr True \<Longrightarrow> \<exists>d row. amount = Some d \<and> map_of (bg_reservations db) (action_key auth task action) = Some row
         \<and> dval (parse_decimal (rr_reserved row)) = dval d"
  | (granted) d where "amount = Some d" "0 \<le> dval d" "r \<noteq> Inr False"
      "map_of (bg_reservations db) (action_key auth task action) = None"
      "bg_reservations db' = AList.update (action_key auth task action) (granted_row d) (bg_reservations db)"
      "bg_allocations db' = bg_allocations db" "sql_ok db'"
      "sql_spent auth db None + dval d \<le> sql_cap auth db None"
      "sql_spent auth db (Some task) + dval d \<le> sql_cap auth db (Some task)"
proof (cases "amount_of amount = None \<or> task = [] \<or> action = []")
  case True
  then have "db' = db \<and> r = Inr False" using r by (auto simp: reserve_sql_def split: option.splits)
  with ok same show ?thesis by simp
next
  case False
  then obtain d where d: "amount = Some d" "0 \<le> dval d" "amount_of amount = Some d" "task \<noteq> []" "action \<noteq> []"
    by (auto simp: amount_of_def split: option.splits if_splits)
  then have w: "write_session st (reserve_body auth task action d) db = (db', r)"
    using r unfolding reserve_sql_def d(3) option.case by simp
  have body: ?thesis if b: "reserve_body auth task action d db = (db', Inr x)" and rx: "r = Inr x \<or> isl r" for x
  proof (rule reserve_body_Inr [OF b])
    assume s: "bg_reservations db' = bg_reservations db" "bg_allocations db' = bg_allocations db"
      and e: "x \<Longrightarrow> \<exists>row. map_of (bg_reservations db) (action_key auth task action) = Some row
         \<and> dval (parse_decimal (rr_reserved row)) = dval d"
    show ?thesis by (rule same) (use s e rx d ok in \<open>auto simp: sql_ok_def\<close>)
  next
    assume g: "x" "map_of (bg_reservations db) (action_key auth task action) = None"
      "bg_reservations db' = AList.update (action_key auth task action) (granted_row d) (bg_reservations db)"
      "bg_allocations db' = bg_allocations db" "bg_task_scopes db' = bg_task_scopes db"
      "sql_spent auth db None + dval d \<le> sql_cap auth db None"
      "sql_spent auth db (Some task) + dval d \<le> sql_cap auth db (Some task)"
    show ?thesis
      by (rule granted [OF d(1,2) _ g(2-4) sql_ok_update [OF ok granted_row_facts(1) [OF d(2)] g(3)] g(6,7)])
        (use g(1) rx in auto)
  qed
  show ?thesis
  proof (rule write_session_cases [OF w])
    show ?thesis if "db' = db" "r = Inl e" for e using same that ok by simp
    show ?thesis if "reserve_body auth task action d db = (db', Inr x)" "r = Inr x" for x using body that by simp
    show ?thesis if "reserve_body auth task action d db = (db', Inr x)" "r = Inl RepositoryUnavailable" for x
      using body that by simp
  qed
qed

lemma settle_sql_cases:
  assumes ok: "sql_ok db" and r: "settle_sql auth st db task action actual = (db', r)"
  obtains (same) "db' = db"
  | (settled) d row where "actual = Some d" "0 \<le> dval d"
      "map_of (bg_reservations db) (action_key auth task action) = Some row" "\<not> rr_settled row" "row_ok row"
      "db' = db\<lparr>bg_reservations := AList.update (action_key auth task action)
         (row\<lparr>rr_actual := Some (money_text d), rr_settled := True\<rparr>) (bg_reservations db)\<rparr>"
proof (cases "db' = db")
  case False
  then obtain d where d: "actual = Some d" "0 \<le> dval d"
    and w: "write_session st (settle_body auth task action d) db = (db', r)"
    using r by (auto simp: settle_sql_def split: option.splits)
  obtain x where "settle_body auth task action d db = (db', Inr x)"
    by (rule write_session_cases [OF w]) (use False in auto)
  then show ?thesis
    by (rule settle_body_Inr) (use False settled [OF d] lookup_row_ok [OF ok] in auto)
qed (rule same)

interpretation sql: ledger "reserve_sql auth" "settle_sql auth" sql_ok "sql_held auth" "sql_spent auth"
  "sql_cap auth" in_charge for auth
proof (unfold_locales, goal_cases)
  case (1 s w task action amount)
  obtain s' r where r: "reserve_sql auth w s task action amount = (s', r)" by force
  show ?case unfolding r fst_conv by (rule reserve_sql_cases [OF 1 r])
next
  case (2 s w task action actual)
  obtain s' r where r: "settle_sql auth w s task action actual = (s', r)" by force
  show ?case unfolding r fst_conv
  proof (rule settle_sql_cases [OF 2 r])
    fix d row
    assume "0 \<le> dval d" "\<not> rr_settled row" "row_ok row"
      and s': "s' = s\<lparr>bg_reservations := AList.update (action_key auth task action)
         (row\<lparr>rr_actual := Some (money_text d), rr_settled := True\<rparr>) (bg_reservations s)\<rparr>"
    then show "sql_ok s'" using sql_ok_update [OF 2 settled_row_facts(1)] by simp
  qed (use 2 in simp)
next
  case (3 s w task action amount p)
  obtain s' r where r: "reserve_sql auth w s task action amount = (s', r)" by force
  have "bg_allocations s' = bg_allocations s" by (rule reserve_sql_cases [OF 3 r])
  from sql_cap_same [OF this, of auth] show ?case by (simp add: r)
next
  case (4 s w task action actual p)
  obtain s' r where r: "settle_sql auth w s task action actual = (s', r)" by force
  show ?case unfolding r fst_conv by (rule settle_sql_cases [OF 4 r]) (simp_all add: sql_cap_def)
next
  case (5 s w task action amount s' r)
  show ?case
  proof (rule reserve_sql_cases [OF 5])
    fix d
    assume g: "amount = Some d" "0 \<le> dval d" "r \<noteq> Inr False"
      "map_of (bg_reservations s) (action_key auth task action) = None"
      and t: "bg_reservations s' = AList.update (action_key auth task action) (granted_row d) (bg_reservations s)"
      and fits: "sql_spent auth s None + dval d \<le> sql_cap auth s None"
        "sql_spent auth s (Some task) + dval d \<le> sql_cap auth s (Some task)"
    have spent: "sql_spent auth s' p = sql_spent auth s p + (if in_charge p task then dval d else 0)" for p
      using sql_update_spent [OF t, of p] g(4) granted_row_facts(3) [OF g(2)] by simp
    have "sql_spent auth s' p \<le> max (sql_cap auth s p) (sql_spent auth s p)" for p
      using fits by (cases p) (auto simp: spent in_charge_def max_def)
    moreover have "sql_held auth s' = (sql_held auth s)((task, action) \<mapsto> (dval d, None))"
      using sql_update_held [OF t] granted_row_facts(2) [OF g(2)] by simp
    ultimately show ?thesis using g spent by (auto simp: sql_held_def)
  qed (use sql_same in blast)
next
  case (6 s w task action actual s' r)
  show ?case
  proof (rule settle_sql_cases [OF 6])
    fix d row
    assume g: "actual = Some d" "0 \<le> dval d" "map_of (bg_reservations s) (action_key auth task action) = Some row"
      "\<not> rr_settled row" "row_ok row"
      and s': "s' = s\<lparr>bg_reservations := AList.update (action_key auth task action)
         (row\<lparr>rr_actual := Some (money_text d), rr_settled := True\<rparr>) (bg_reservations s)\<rparr>"
    note f = settled_row_facts [OF g(2,5,4)]
    have t: "bg_reservations s' = AList.update (action_key auth task action)
         (row\<lparr>rr_actual := Some (money_text d), rr_settled := True\<rparr>) (bg_reservations s)" by (simp add: s')
    have "sql_spent auth s' p = sql_spent auth s p + (if in_charge p task then dval d - fst (row_hold row) else 0)" for p
      using sql_update_spent [OF t, of p] g(3) f(4,5) by simp
    moreover have "sql_held auth s' = (sql_held auth s)((task, action) \<mapsto> (fst (row_hold row), Some (dval d)))"
      using sql_update_held [OF t] f(3) by simp
    moreover have "sql_held auth s (task, action) = Some (fst (row_hold row), None)"
      using g(3) f(2) by (simp add: sql_held_def)
    ultimately show ?thesis using g(1,2) by blast
  qed simp
next
  case (7 s w task action amount s')
  show ?case
    by (rule reserve_sql_cases [OF 7])
      (auto simp: sql_held_def row_hold_def update_conv' granted_row_facts)
next
  case (8 s w task action amount s1 s2 v x y w' s3 ok)
  obtain d where d: "amount = Some d" "v = dval d"
    by (rule reserve_sql_cases [OF 8(1,2)])
      (use 8(4) in \<open>auto simp: sql_held_def row_hold_def update_conv' granted_row_facts\<close>)
  have valid: "amount_of amount = Some d \<and> task \<noteq> [] \<and> action \<noteq> []"
    using 8(2) d(1) by (auto simp: reserve_sql_def split: option.splits if_splits)
  obtain z where z: "map_of (bg_reservations s2) (action_key auth task action) = Some z"
    "dval (parse_decimal (rr_reserved z)) = dval d"
    using 8(5) d by (auto simp: sql_held_def row_hold_def)
  have w: "write_session w' (reserve_body auth task action d) s2 = (s3, Inr ok)"
    using 8(6) conjunct2 [OF valid] unfolding reserve_sql_def conjunct1 [OF valid] option.case by simp
  have "s3 = s2 \<and> ok"
    by (rule write_session_cases [OF w]) (use z in \<open>auto simp: reserve_body_def split: sum.splits\<close>)
  then show ?case by simp
qed


section \<open>Allocations\<close>

text \<open>
  Building an authority, again or for the first time, records the allocation on first use, accepts
  only numerically equal ceilings afterwards and never touches a reservation.
\<close>

lemma ensure_allocation_facts:
  assumes "ensure_allocation auth db = (db', r)"
  shows "bg_reservations db' = bg_reservations db" and "bg_tasks db' = bg_tasks db"
    and "r = Inr () \<longleftrightarrow> map_of (bg_allocations db') (allocation_key auth)
      = Some \<lparr>al_application_ceiling = money_text (sa_application_ceiling auth),
              al_task_ceiling = money_text (sa_task_ceiling auth)\<rparr>"
    and "map_of (bg_allocations db) k = Some row \<Longrightarrow> map_of (bg_allocations db') k = Some row"
  using assms by (auto simp: ensure_allocation_def Let_def update_conv' split: if_splits)

lemma new_sql_authority_Inr:
  assumes "new_sql_authority st db app alloc app_ceiling task_ceiling = (db', Inr auth)"
  obtains a t where "app_ceiling = Some a" and "task_ceiling = Some t" and "0 \<le> dval t" and "dval t \<le> dval a"
    and "auth = \<lparr>sa_application_id = app, sa_allocation_id = alloc, sa_application_ceiling = a, sa_task_ceiling = t\<rparr>"
    and "bg_reservations db' = bg_reservations db"
    and "sql_cap auth db' None = dval a" and "sql_cap auth db' (Some task) = dval t"
proof -
  obtain a t where am: "amount_of app_ceiling = Some a" "amount_of task_ceiling = Some t"
    using assms by (cases "amount_of app_ceiling"; cases "amount_of task_ceiling")
      (simp_all add: new_sql_authority_def del: amount_of_Some split: if_splits)
  then have at: "app_ceiling = Some a" "task_ceiling = Some t" "0 \<le> dval a" "0 \<le> dval t" by simp_all
  note call = assms [unfolded new_sql_authority_def am prod.case option.case Let_def]
  have le: "dval t \<le> dval a" using call by (auto split: if_splits)
  let ?auth = "\<lparr>sa_application_id = app, sa_allocation_id = alloc, sa_application_ceiling = a, sa_task_ceiling = t\<rparr>"
  obtain db1 r where w1: "write_session st (ensure_allocation ?auth) db = (db1, r)" by force
  have "db1 = db' \<and> bind_res r (\<lambda>_. Inr ?auth) = Inr auth"
    using call unfolding w1 prod.case by (simp split: if_splits)
  then obtain u where w: "write_session st (ensure_allocation ?auth) db = (db', Inr u)" and auth: "auth = ?auth"
    using w1 by (auto simp: bind_res_Inr_iff)
  have e: "ensure_allocation auth db = (db', Inr ())"
    by (rule write_session_cases [OF w]) (auto simp: auth)
  from ensure_allocation_facts(3) [OF e]
  have row: "map_of (bg_allocations db') (allocation_key auth)
      = Some \<lparr>al_application_ceiling = money_text a, al_task_ceiling = money_text t\<rparr>" by (simp add: auth)
  show ?thesis
    by (rule that [OF at(1,2,4) le auth ensure_allocation_facts(1) [OF e]])
      (use row at(3,4) money_text_roundtrip [of a] money_text_roundtrip [of t] in
        \<open>simp_all add: sql_cap_def money_ok_iff [symmetric] money_ok_def\<close>)
qed

lemma sql_never_overspent:
  assumes start: "new_sql_authority st db app alloc app_ceiling task_ceiling = (db', Inr auth)"
    and ok: "sql_ok db'" and within: "\<And>pool. sql_spent auth db' pool \<le> sql_cap auth db' pool"
    and ops: "ops_within (ledger_step (reserve_sql auth) (settle_sql auth)) (sql_held auth) db' ops"
  shows "sql_spent auth (ledger_run (reserve_sql auth) (settle_sql auth) db' ops) pool \<le> sql_cap auth db' pool"
  using sql.run_within [OF ok ops within] by blast

text \<open>Operations on one allocation are invisible in every other.\<close>

lemma sql_spent_other:
  assumes "allocation_key auth' \<noteq> allocation_key auth"
    and "bg_reservations db' = AList.update (action_key auth task action) row (bg_reservations db)"
  shows "sql_spent auth' db' pool = sql_spent auth' db pool" and "sql_held auth' db' = sql_held auth' db"
proof -
  have out: "\<not> in_pool auth' pool (action_key auth task action, r)" for r
    using assms(1) by (auto simp: in_pool_def in_allocation_def of_task_def split: option.splits)
  show "sql_spent auth' db' pool = sql_spent auth' db pool"
    unfolding sql_spent_def assms(2) sum_list_update by (simp add: out split: option.splits)
  show "sql_held auth' db' = sql_held auth' db"
    using assms(1) by (auto simp: sql_held_def assms(2) update_conv')
qed

lemma sql_step_other:
  assumes ok: "sql_ok db" and other: "allocation_key auth' \<noteq> allocation_key auth"
  shows "sql_spent auth' (ledger_step (reserve_sql auth) (settle_sql auth) db op) pool = sql_spent auth' db pool"
    and "sql_held auth' (ledger_step (reserve_sql auth) (settle_sql auth) db op) = sql_held auth' db"
proof -
  let ?db = "ledger_step (reserve_sql auth) (settle_sql auth) db op"
  have "bg_reservations ?db = bg_reservations db
      \<or> (\<exists>task action row. bg_reservations ?db = AList.update (action_key auth task action) row (bg_reservations db))"
  proof (cases op)
    case (Reserve w task action amount)
    obtain s' r where r: "reserve_sql auth w db task action amount = (s', r)" by force
    have s': "?db = s'" by (simp add: ledger_step_def Reserve r)
    show ?thesis unfolding s' by (rule reserve_sql_cases [OF ok r]) auto
  next
    case (Settle w task action actual)
    obtain s' r where r: "settle_sql auth w db task action actual = (s', r)" by force
    have s': "?db = s'" by (simp add: ledger_step_def Settle r)
    show ?thesis unfolding s' by (rule settle_sql_cases [OF ok r]) auto
  qed
  then show "sql_spent auth' ?db pool = sql_spent auth' db pool" and "sql_held auth' ?db = sql_held auth' db"
    using sql_spent_other [OF other] sql_same [of ?db db auth'] by metis+
qed

lemma sql_run_other:
  assumes "sql_ok db" and other: "allocation_key auth' \<noteq> allocation_key auth"
  shows "sql_spent auth' (ledger_run (reserve_sql auth) (settle_sql auth) db ops) pool = sql_spent auth' db pool
    \<and> sql_held auth' (ledger_run (reserve_sql auth) (settle_sql auth) db ops) = sql_held auth' db"
  using assms(1)
proof (induction ops arbitrary: db)
  case (Cons op ops)
  from Cons.IH [OF sql.step_good [OF Cons.prems]] sql_step_other [OF Cons.prems other]
  show ?case by (simp add: ledger_run_def)
qed (simp add: ledger_run_def)

text \<open>What is left is the smaller of what the application and the task have left.\<close>

lemma remaining_sql_exact:
  assumes "remaining_sql st auth db task = (db', Inr d)" and "task \<noteq> []"
  shows "db' = db" and "dval d = min (max 0 (sql_cap auth db None - sql_spent auth db None))
    (max 0 (sql_cap auth db (Some task) - sql_spent auth db (Some task)))"
proof -
  let ?body = "\<lambda>db. (db,
        bind_res (locked_allocation auth db) (\<lambda>allocation.
        bind_res (verify_task_owner auth db task) (\<lambda>_.
        Inr (dec_min
          (dec_max ZERO (money_difference (parse_decimal (al_application_ceiling allocation)) [app_debit auth db]))
          (dec_max ZERO (money_difference (parse_decimal (al_task_ceiling allocation)) [task_debit auth db task]))))))"
  have w: "write_session st ?body db = (db', Inr d)" using assms by (simp add: remaining_sql_def)
  have b: "?body db = (db', Inr d)" by (rule write_session_cases [OF w]) auto
  then show "db' = db" by simp
  from b obtain al where al: "map_of (bg_allocations db) (allocation_key auth) = Some al"
    and d: "d = dec_min
          (dec_max ZERO (money_difference (parse_decimal (al_application_ceiling al)) [app_debit auth db]))
          (dec_max ZERO (money_difference (parse_decimal (al_task_ceiling al)) [task_debit auth db task]))"
    by (auto simp: bind_res_Inr_iff locked_allocation_def split: option.splits)
  show "dval d = min (max 0 (sql_cap auth db None - sql_spent auth db None))
    (max 0 (sql_cap auth db (Some task) - sql_spent auth db (Some task)))"
    by (simp add: d money_difference_exact app_debit_spent task_debit_spent sql_cap_def al)
qed

end
