(* ===== verification/ExecutionSamples.thy ===== *)
theory ExecutionSamples
  imports Samples SqlBudget
begin

text \<open>
  Concrete failures, tool calls and budget ledgers on which the witnesses of the execution
  properties evaluate the model, beside the sample bundle: a decision for the middle tier with
  failures of each program.
\<close>

definition sample_cost :: cost_estimate where
  "sample_cost = \<lparr>ce_status = Cost_known, ce_amount = Some (Dec 16 0), ce_currency = ''USD'',
     ce_pricing_version = ''prices-1'', ce_model_pricing_version = ''terra-standard'',
     ce_token_assumptions = rq_context capped_request, ce_known_subtotal = Dec 16 0,
     ce_generation_subtotal = Dec 16 0, ce_breakdown = [], ce_unknown_charges = [],
     ce_cache_read_tokens = 0, ce_long_context = False\<rparr>"

definition sample_details :: rationale_details where
  "sample_details = \<lparr>rd_required_capabilities = [''text_input''], rd_matched_rules = [], rd_floors = [],
     rd_floor_waiver_rules = [], rd_floor_waiver_constraints = [], rd_removed_candidates = [],
     rd_latency_supplied = True, rd_environment_pricing_reference = ''prices-1'',
     rd_cache_miss_budget_estimates = None, rd_selected_source = Some Source_prior,
     rd_model_pricing_version = Some ''terra-standard''\<rparr>"

definition sample_decision :: route_decision where
  "sample_decision = \<lparr>db_task_id = ''task-1'', db_trace_id = ''trace-1'', db_decision_id = ''decision-1'',
     db_policy_version = ''router-v1.0.0'', db_catalog_version = ''models-v1.0.0'', db_pricing_version = ''prices-1'',
     db_budget_version = ''budgets-v1.0.0'', db_validation_version = ''validation-v1.0.0'',
     db_application_overlay_version = None, db_effective_configuration_hash = ''hash'',
     db_classification = plain_classification, db_complexity_score = 8,
     db_rationale_codes = [''BASELINE_PRIOR''], db_rationale_details = sample_details,
     db_effective_limits = no_limits, db_environment_snapshot_id = ''snapshot-1'', db_synthetic = True,
     db_health_snapshot_id = Some ''health-1'', db_readiness_blockers = [],
     rt_selected_model_alias = ''terra'', rt_provider_model_id = ''gpt-5.6-terra'', rt_model_tier = 1,
     rt_reasoning_effort = MEDIUM, rt_validation_level = V0, rt_validation_requirements = sample_requirements,
     rt_estimated_cost = sample_cost, rt_executable = True\<rparr>"

definition sample_failure :: "failure_type \<Rightarrow> failure" where
  "sample_failure ft = \<lparr>fl_failure_type = ft, fl_source = Source_provider, fl_stage = ''generation'',
     fl_cause_code = ''observed'', fl_retryable = True, fl_retry_after_ms = Some 3\<rparr>"

definition sample_limits :: execution_limits where
  "sample_limits = \<lparr>xl_max_total_generation_attempts = 4, xl_max_quality_escalations = 2,
     xl_max_infrastructure_retries = 3, xl_max_tool_recoveries = 1, xl_max_elapsed_ms = 60,
     xl_initial_backoff_ms = 2, xl_max_backoff_ms = 7, xl_task_cost_ceiling_usd = Dec 20 0\<rparr>"

definition sample_call :: tool_call where
  "sample_call = \<lparr>tl_tool = ''search'', tl_operation = ''query'', tl_side_effecting = True,
     tl_idempotency_key = Some ''key-1'', tl_reconciliation_evidence = False,
     tl_cost_upper_bound_usd = Some (Dec 1 0), tl_arguments = ''q'', tl_alternate_tool = None\<rparr>"

definition sample_context :: "failure_type \<Rightarrow> recovery_context" where
  "sample_context ft = \<lparr>rx_decision = sample_decision, rx_failure = sample_failure ft,
     rx_counters = no_counters\<lparr>ct_generation_attempts := 1, ct_infrastructure_retries := 1\<rparr>,
     rx_limits = sample_limits, rx_environment = sample_environment, rx_remaining_usd = Dec 10 0,
     rx_elapsed_ms = 10, rx_validated = False, rx_original_failure = None, rx_tool_call = Some sample_call,
     rx_tool_retryable = True, rx_alternate_authorized = False\<rparr>"

text \<open>The same failure on a route whose model is degraded.\<close>

definition degraded_context :: recovery_context where
  "degraded_context = (sample_context TIMEOUT)\<lparr>rx_environment := sample_environment\<lparr>
     env_models := [(''luna'', sample_health), (''terra'', sample_health\<lparr>mh_state := DEGRADED\<rparr>)]\<rparr>\<rparr>"

definition sample_controls :: execution_controls where
  "sample_controls = \<lparr>xc_idempotency_key = None, xc_authorized = True, xc_authorized_tools = [''search''],
     xc_side_effects_authorized = True, xc_tool_calls = [sample_call], xc_expected_fields = [],
     xc_required_checks = [], xc_output_type = None\<rparr>"

definition sample_ops :: "'x \<Rightarrow> 'x ledger_op list" where
  "sample_ops w = [Reserve w ''task-1'' ''a-1'' (Some (Dec 35 (- 1))), Reserve w ''task-1'' ''a-2'' (Some (Dec 3 0)),
     Settle w ''task-1'' ''a-1'' (Some (Dec 25 (- 1))), Reserve w ''task-1'' ''a-2'' (Some (Dec 30 (- 1)))]"

definition empty_db :: budget_db where
  "empty_db = \<lparr>bg_task_scopes = [(''task-1'', ''app-1'')], bg_allocations = [], bg_tasks = [], bg_reservations = []\<rparr>"

lemma sample_context_route [simp]:
  "rt_selected_model_alias (rx_decision (sample_context ft)) = ''terra''"
  "rt_selected_model_alias (rx_decision degraded_context) = ''terra''"
  "current_route (sample_context ft) = \<lparr>tg_model = ''terra'', tg_effort = MEDIUM\<rparr>"
  "rx_tool_call (sample_context ft) = Some sample_call"
  by (simp_all add: degraded_context_def sample_context_def sample_decision_def current_route_def)

definition proposal_with :: "(recovery_action \<Rightarrow> bool) \<Rightarrow> recovery_action res \<Rightarrow> bool" where
  "proposal_with P x = (case x of Inr a \<Rightarrow> P a | Inl e \<Rightarrow> False)"

lemma proposal_withD: "proposal_with P x \<Longrightarrow> \<exists>a. x = Inr a \<and> P a"
  by (auto simp: proposal_with_def split: sum.splits)

lemma sample_quality: "proposal_with (\<lambda>a. ra_action a = Increase_effort)
    (choose_recovery (sample_context QUALITY_FAILURE) sample_bundle)"
  by code_simp

lemma sample_retry: "proposal_with (\<lambda>a. ra_action a = Retry_backoff)
    (choose_recovery (sample_context TIMEOUT) sample_bundle)"
  by code_simp

lemma sample_fallback: "proposal_with (\<lambda>a. ra_action a = Health_aware_fallback)
    (choose_recovery degraded_context sample_bundle)"
  by code_simp

lemma sample_tool: "proposal_with (\<lambda>a. ra_action a = Retry_tool)
    (choose_recovery (sample_context TOOL_FAILURE) sample_bundle)"
  by code_simp

end
