(* ===== verification/ExecutionClaims.thy ===== *)
theory ExecutionClaims
  imports ExecutionSamples
begin

text \<open>
  The properties of recovery, admission and the budget authorities, with their witnesses.
\<close>

section \<open>Recovery\<close>

text \<open>
  C34. On an accepted bundle the recovery policy always answers with one of its failure programs;
  the fail-closed default for an unknown failure is unreachable, and the only error is the
  ValueError for a decision that names a model outside the catalog.
\<close>

theorem recovery_total:
  assumes "bundle_ok b"
  shows "case choose_recovery ctx b of
      Inr a \<Rightarrow> ra_reason a \<noteq> ''unsupported_failure_program''
    | Inl e \<Rightarrow> e = ValueError \<and> map_of (bundle_models b) (rt_selected_model_alias (rx_decision ctx)) = None"
  by (rule choose_recovery_outcome [OF assms])

theorem recovery_total_witness:
  "case choose_recovery (sample_context UNKNOWN_FAILURE) sample_bundle of
      Inr a \<Rightarrow> ra_reason a \<noteq> ''unsupported_failure_program''
    | Inl e \<Rightarrow> e = ValueError \<and> map_of (bundle_models sample_bundle) ''terra'' = None"
  using recovery_total [OF sample_bundle_ok, of "sample_context UNKNOWN_FAILURE"]
  by (simp only: sample_context_route)

text \<open>
  A retry waits for the doubled initial backoff cut off at the maximum, or for the provider's
  retry-after when that is longer; the wait never exceeds the maximum, the retry starts before the
  deadline, stays on the current route, and is proposed for a retryable failure while attempts and
  retries are left.
\<close>

theorem retry_bounded:
  assumes r: "choose_recovery ctx b = Inr a" and k: "ra_action a = Retry_backoff"
  shows "ra_backoff_ms a =
       max (min (xl_initial_backoff_ms (rx_limits ctx) * 2 ^ ct_infrastructure_retries (rx_counters ctx))
              (xl_max_backoff_ms (rx_limits ctx)))
         (case fl_retry_after_ms (rx_failure ctx) of None \<Rightarrow> 0 | Some w \<Rightarrow> w)
     \<and> ra_backoff_ms a \<le> xl_max_backoff_ms (rx_limits ctx)
     \<and> rx_elapsed_ms ctx + ra_backoff_ms a < xl_max_elapsed_ms (rx_limits ctx)
     \<and> ra_route a = Some (current_route ctx) \<and> fl_retryable (rx_failure ctx)
     \<and> ct_generation_attempts (rx_counters ctx) < xl_max_total_generation_attempts (rx_limits ctx)
     \<and> ct_infrastructure_retries (rx_counters ctx) < xl_max_infrastructure_retries (rx_limits ctx)"
  using retry_step [OF r k] choose_recovery_route_bounds(2) [OF r] by (simp add: backoff_ms_doubling)

theorem retry_bounded_witness:
  "\<exists>a. choose_recovery (sample_context TIMEOUT) sample_bundle = Inr a \<and> ra_backoff_ms a = 4"
proof -
  obtain a where a: "choose_recovery (sample_context TIMEOUT) sample_bundle = Inr a" "ra_action a = Retry_backoff"
    using proposal_withD [OF sample_retry] by blast
  from retry_bounded [OF this] have "ra_backoff_ms a = 4"
    by (simp add: sample_context_def sample_limits_def sample_failure_def no_counters_def)
  with a(1) show ?thesis by blast
qed

text \<open>
  A quality escalation climbs: either the effort on the same model moves strictly up the
  catalog's order to one that the complexity band configures, or the model moves to the lowest
  enabled tier above the current one, with a supported effort.
\<close>

theorem quality_escalation_climbs:
  assumes b: "bundle_ok b" and r: "choose_recovery ctx b = Inr a"
    and k: "ra_action a \<in> {Increase_effort, Increase_tier}"
  shows "\<exists>t m n. ra_route a = Some t
     \<and> map_of (bundle_models b) (rt_selected_model_alias (rx_decision ctx)) = Some m
     \<and> map_of (bundle_models b) (tg_model t) = Some n \<and> tg_effort t \<in> set (me_reasoning_efforts n)
     \<and> (if ra_action a = Increase_effort
        then tg_model t = rt_selected_model_alias (rx_decision ctx)
          \<and> effort_index m (rt_reasoning_effort (rx_decision ctx)) < effort_index m (tg_effort t)
          \<and> tg_effort t \<in> set (configured_efforts b (db_complexity_score (rx_decision ctx)) (tg_model t))
        else configured_enabled n \<and> me_tier_rank m < me_tier_rank n
          \<and> (\<forall>(x, l) \<in> set (bundle_models b). configured_enabled l \<and> me_tier_rank m < me_tier_rank l
               \<longrightarrow> me_tier_rank n \<le> me_tier_rank l))"
proof (cases "ra_action a = Increase_effort")
  case True
  obtain m where m: "map_of (bundle_models b) (rt_selected_model_alias (rx_decision ctx)) = Some m"
    using quality_program [OF r k] True
    by (auto simp: quality_recovery_def Let_def bind_res_Inr_iff split: if_splits)
  show ?thesis
    by (rule increase_effort_step [OF b r True m])
      (use True m in \<open>intro exI [of _ "\<lparr>tg_model = _, tg_effort = _\<rparr>"] exI [of _ m]; simp\<close>)
next
  case False
  with k have t: "ra_action a = Increase_tier" by simp
  show ?thesis by (rule increase_tier_step [OF b r t]) (use t in auto)
qed

theorem quality_escalation_climbs_witness:
  "\<exists>a t. choose_recovery (sample_context QUALITY_FAILURE) sample_bundle = Inr a \<and> ra_route a = Some t
     \<and> tg_model t = ''terra''"
proof -
  obtain a where a: "choose_recovery (sample_context QUALITY_FAILURE) sample_bundle = Inr a" "ra_action a = Increase_effort"
    using proposal_withD [OF sample_quality] by blast
  then have "ra_action a \<in> {Increase_effort, Increase_tier}" by simp
  from quality_escalation_climbs [OF sample_bundle_ok a(1) this] a show ?thesis by auto
qed

text \<open>
  The ladder ends: a chain of quality escalations, each proposed for a failure on the route
  the previous one led to, is not longer than the number of model and effort pairs of the catalog.
\<close>

theorem escalation_ladder_ends:
  assumes "bundle_ok b" and "successively (escalates b) (t # ts)"
  shows "length ts \<le> length (catalog_pairs b)"
  by (rule escalation_ladder_bounded [OF assms])

theorem escalation_ladder_ends_witness:
  "\<exists>t. successively (escalates sample_bundle) [\<lparr>tg_model = ''terra'', tg_effort = MEDIUM\<rparr>, t]
     \<and> length [t] \<le> length (catalog_pairs sample_bundle)"
proof -
  obtain a where a: "choose_recovery (sample_context QUALITY_FAILURE) sample_bundle = Inr a" "ra_action a = Increase_effort"
    using proposal_withD [OF sample_quality] by blast
  have "proposal_with (\<lambda>a. ra_route a \<noteq> None) (choose_recovery (sample_context QUALITY_FAILURE) sample_bundle)"
    by code_simp
  then obtain t where t: "ra_route a = Some t" using a(1) by (auto simp: proposal_with_def)
  have "escalates sample_bundle \<lparr>tg_model = ''terra'', tg_effort = MEDIUM\<rparr> t"
    unfolding escalates_def
    by (rule exI [of _ "sample_context QUALITY_FAILURE"], rule exI [of _ a])
      (simp add: a t)
  then have "successively (escalates sample_bundle) [\<lparr>tg_model = ''terra'', tg_effort = MEDIUM\<rparr>, t]" by simp
  from this escalation_ladder_ends [OF sample_bundle_ok this] show ?thesis by blast
qed

text \<open>
  A health-aware fallback never raises the tier and never drops below a hard floor: the target
  is another enabled model with a supported effort, known to be usable and in no excluded state,
  whose tier is at most the current one, at least the effective tier floor and at least every hard
  floor recorded in the decision; no usable permitted model lies above it.
\<close>

theorem fallback_within_floors:
  assumes b: "bundle_ok b" and r: "choose_recovery ctx b = Inr a" and k: "ra_action a = Health_aware_fallback"
  shows "\<exists>t m n h. ra_route a = Some t \<and> tg_model t \<noteq> rt_selected_model_alias (rx_decision ctx)
     \<and> map_of (bundle_models b) (rt_selected_model_alias (rx_decision ctx)) = Some m
     \<and> map_of (bundle_models b) (tg_model t) = Some n \<and> configured_enabled n
     \<and> tg_effort t \<in> set (me_reasoning_efforts n) \<and> me_tier_rank n \<le> me_tier_rank m
     \<and> (\<forall>lo. lim_model_tier_floor (db_effective_limits (rx_decision ctx)) = Some lo \<longrightarrow> lo \<le> me_tier_rank n)
     \<and> (\<forall>f \<in> set (rd_floors (db_rationale_details (rx_decision ctx))).
          fe_strength f = Strength_hard \<longrightarrow> fe_min_tier f \<le> me_tier_rank n)
     \<and> map_of (env_models (rx_environment ctx)) (tg_model t) = Some h \<and> mh_usable h
     \<and> mh_state h \<notin> set (pol_health_exclude_states (pb_policy b))
     \<and> (\<forall>(x, l) \<in> set (fallback_models ctx b (me_tier_rank m)). fallback_usable ctx b x
          \<longrightarrow> me_tier_rank l \<le> me_tier_rank n)"
proof (rule fallback_step [OF b r k])
  fix t m n
  assume f: "ra_route a = Some t" "map_of (bundle_models b) (rt_selected_model_alias (rx_decision ctx)) = Some m"
    "map_of (bundle_models b) (tg_model t) = Some n" "tg_model t \<noteq> rt_selected_model_alias (rx_decision ctx)"
    "configured_enabled n" "minimum_permitted_rank ctx \<le> me_tier_rank n" "me_tier_rank n \<le> me_tier_rank m"
    "tg_effort t \<in> set (me_reasoning_efforts n)"
    and u: "fallback_usable ctx b (tg_model t)"
    and top: "\<And>x l. (x, l) \<in> set (fallback_models ctx b (me_tier_rank m)) \<Longrightarrow> fallback_usable ctx b x
       \<Longrightarrow> me_tier_rank l \<le> me_tier_rank n"
  obtain h where h: "map_of (env_models (rx_environment ctx)) (tg_model t) = Some h" "mh_usable h"
    "mh_state h \<notin> set (pol_health_exclude_states (pb_policy b))"
    using u by (auto simp: fallback_usable_def split: option.splits)
  have floors: "lim_model_tier_floor (db_effective_limits (rx_decision ctx)) = Some lo \<longrightarrow> lo \<le> me_tier_rank n"
    "\<forall>f \<in> set (rd_floors (db_rationale_details (rx_decision ctx))).
       fe_strength f = Strength_hard \<longrightarrow> fe_min_tier f \<le> me_tier_rank n" for lo
    using minimum_permitted_rank_ge [where ctx = ctx] f(6) by (auto intro: order_trans)
  show ?thesis
    by (rule exI [of _ t], rule exI [of _ m], rule exI [of _ n], rule exI [of _ h]) (use f h floors top in auto)
qed

theorem fallback_within_floors_witness:
  "\<exists>a t. choose_recovery degraded_context sample_bundle = Inr a \<and> ra_route a = Some t \<and> tg_model t \<noteq> ''terra''"
proof -
  obtain a where a: "choose_recovery degraded_context sample_bundle = Inr a" "ra_action a = Health_aware_fallback"
    using proposal_withD [OF sample_fallback] by blast
  from fallback_within_floors [OF sample_bundle_ok a] a(1) show ?thesis
    by auto
qed

text \<open>
  C35. Tool recovery replays nothing unsafe: it is proposed for a known call only, while tool
  recoveries are left; a side-effecting call is repeated only under an idempotency key or with
  reconciliation evidence, a retry only when the tool is retryable, and an alternate tool only when
  one is declared and authorized.
\<close>

theorem tool_replay_safe:
  assumes r: "choose_recovery ctx b = Inr a" and k: "ra_action a \<in> {Retry_tool, Alternate_tool}"
  shows "\<exists>call. rx_tool_call ctx = Some call \<and> (tl_side_effecting call \<longrightarrow> replay_safe call)
     \<and> ct_tool_recoveries (rx_counters ctx) < xl_max_tool_recoveries (rx_limits ctx)
     \<and> (ra_action a = Retry_tool \<longrightarrow> rx_tool_retryable ctx)
     \<and> (ra_action a = Alternate_tool \<longrightarrow> rx_alternate_authorized ctx \<and> tl_alternate_tool call \<noteq> None)"
  by (rule tool_step [OF r k]) blast

theorem tool_replay_safe_witness:
  "\<exists>a call. choose_recovery (sample_context TOOL_FAILURE) sample_bundle = Inr a
     \<and> rx_tool_call (sample_context TOOL_FAILURE) = Some call \<and> tl_side_effecting call \<and> replay_safe call"
proof -
  obtain a where a: "choose_recovery (sample_context TOOL_FAILURE) sample_bundle = Inr a" "ra_action a = Retry_tool"
    using proposal_withD [OF sample_tool] by blast
  then have "ra_action a \<in> {Retry_tool, Alternate_tool}" by simp
  from tool_replay_safe [OF a(1) this] a(1) show ?thesis
    by (auto simp: sample_call_def)
qed


section \<open>Admission\<close>

text \<open>
  Admission fails closed: an action is admitted exactly when limits are configured, execution
  is authorized, the elapsed time is before the deadline, the action is known and has attempts of
  its kind left, its cost is known and fits the task ceiling and the known remaining balance, and,
  for a tool, the call is an authorized one, its side effects are authorized, and a replay of a side
  effect has reconciliation evidence or the idempotency key of the declared call. Every refusal is
  a non-retryable failure of the admission stage.
\<close>

theorem admission_exact:
  "(check_admission controls_opt limits_opt counters elapsed remaining cost action replay tool_call = None \<longleftrightarrow>
      (\<exists>limits controls r c. limits_opt = Some limits \<and> controls_opt = Some controls \<and> xc_authorized controls
        \<and> 0 \<le> elapsed \<and> elapsed < int (xl_max_elapsed_ms limits)
        \<and> attempt_blocker action counters limits = None
        \<and> remaining = Some r \<and> cost = Some c \<and> 0 \<le> dval c \<and> dval c \<le> dval r
        \<and> dval c \<le> dval (xl_task_cost_ceiling_usd limits)
        \<and> (action \<in> set tool_actions \<or> tool_call \<noteq> None \<longrightarrow>
             (\<exists>call. tool_call = Some call \<and> tl_tool call \<in> set (xc_authorized_tools controls)
                \<and> (xc_tool_calls controls = [] \<or> declared_call controls call \<or> alternate_call controls call)
                \<and> (tl_side_effecting call \<longrightarrow> xc_side_effects_authorized controls)
                \<and> (replay \<and> tl_side_effecting call \<longrightarrow> tl_reconciliation_evidence call
                     \<or> tl_idempotency_key call \<noteq> None \<and> \<not> alternate_call controls call)))))
   \<and> (\<forall>f. check_admission controls_opt limits_opt counters elapsed remaining cost action replay tool_call = Some f
        \<longrightarrow> fl_source f = Source_admission \<and> \<not> fl_retryable f)"
proof (rule conjI)
  show "check_admission controls_opt limits_opt counters elapsed remaining cost action replay tool_call = None \<longleftrightarrow>
      (\<exists>limits controls r c. limits_opt = Some limits \<and> controls_opt = Some controls \<and> xc_authorized controls
        \<and> 0 \<le> elapsed \<and> elapsed < int (xl_max_elapsed_ms limits)
        \<and> attempt_blocker action counters limits = None
        \<and> remaining = Some r \<and> cost = Some c \<and> 0 \<le> dval c \<and> dval c \<le> dval r
        \<and> dval c \<le> dval (xl_task_cost_ceiling_usd limits)
        \<and> (action \<in> set tool_actions \<or> tool_call \<noteq> None \<longrightarrow>
             (\<exists>call. tool_call = Some call \<and> tl_tool call \<in> set (xc_authorized_tools controls)
                \<and> (xc_tool_calls controls = [] \<or> declared_call controls call \<or> alternate_call controls call)
                \<and> (tl_side_effecting call \<longrightarrow> xc_side_effects_authorized controls)
                \<and> (replay \<and> tl_side_effecting call \<longrightarrow> tl_reconciliation_evidence call
                     \<or> tl_idempotency_key call \<noteq> None \<and> \<not> alternate_call controls call))))"
    unfolding check_admission_None cost_blocker_None check_tool_None [symmetric] by blast
qed (use check_admission_refusal in \<open>auto simp: refusal_def\<close>)

theorem admission_exact_witness:
  "check_admission (Some sample_controls) (Some sample_limits) no_counters 10 (Some (Dec 10 0)) (Some (Dec 1 0))
      ''tool'' True (Some sample_call) = None
   \<and> (\<exists>f. check_admission None (Some sample_limits) no_counters 10 None None ''tool'' True None = Some f
        \<and> fl_source f = Source_admission \<and> \<not> fl_retryable f)"
proof (rule conjI)
  show "check_admission (Some sample_controls) (Some sample_limits) no_counters 10 (Some (Dec 10 0)) (Some (Dec 1 0))
      ''tool'' True (Some sample_call) = None" by code_simp
  have "check_admission None (Some sample_limits) no_counters 10 None None ''tool'' True None \<noteq> None" by code_simp
  then show "\<exists>f. check_admission None (Some sample_limits) no_counters 10 None None ''tool'' True None = Some f
        \<and> fl_source f = Source_admission \<and> \<not> fl_retryable f"
    using admission_exact [of None "Some sample_limits" no_counters 10 None None "''tool''" True None] by blast
qed

section \<open>Budget authorities\<close>

text \<open>
  The in-memory authority never overspends: from its creation on, after any sequence of
  reservations and of settlements that charge no more than was reserved, what a task has spent or
  holds reserved stays within the task's balance.
\<close>

theorem memory_budget_never_overspent:
  assumes "new_memory_budget balances default_ceiling = Inr s"
    and "ops_within (ledger_step (\<lambda>_. reserve_memory) (\<lambda>_. settle_memory)) memory_held s ops"
  shows "memory_spent (ledger_run (\<lambda>_. reserve_memory) (\<lambda>_ :: unit. settle_memory) s ops) task \<le> memory_cap s task"
  by (rule memory_never_overspent [OF assms])

theorem memory_budget_never_overspent_witness:
  "\<exists>s. new_memory_budget [(''task-1'', Some (Dec 6 0))] None = Inr s
     \<and> memory_spent (ledger_run (\<lambda>_. reserve_memory) (\<lambda>_ :: unit. settle_memory) s (sample_ops ())) ''task-1''
         \<le> memory_cap s ''task-1''"
proof -
  have "case new_memory_budget [(''task-1'', Some (Dec 6 0))] None of Inl e \<Rightarrow> False
    | Inr s \<Rightarrow> ops_within (ledger_step (\<lambda>_. reserve_memory) (\<lambda>_. settle_memory)) memory_held s (sample_ops ())"
    by code_simp
  then obtain s where s: "new_memory_budget [(''task-1'', Some (Dec 6 0))] None = Inr s"
    "ops_within (ledger_step (\<lambda>_. reserve_memory) (\<lambda>_. settle_memory)) memory_held s (sample_ops ())"
    by (auto split: sum.splits)
  from memory_budget_never_overspent [OF s] s(1) show ?thesis by blast
qed




abbreviation sample_authority :: "budget_db \<times> sql_authority res" where
  "sample_authority \<equiv> new_sql_authority Store_ok empty_db ''app-1'' ''alloc-1'' (Some (Dec 9 0)) (Some (Dec 65 (- 1)))"



text \<open>
  Reservations of the durable authority are idempotent and permanent: once granted, the same
  request is granted again after any further history, without a second charge, and until it is
  settled the reservation keeps holding its amount.
\<close>

theorem sql_reservation_idempotent:
  assumes ok: "sql_ok db" and first: "reserve_sql auth st db task action amount = (db1, Inr True)"
    and again: "reserve_sql auth st' (ledger_run (reserve_sql auth) (settle_sql auth) db1 ops) task action amount = (db3, Inr granted)"
  shows "granted \<and> sql_spent auth db3 = sql_spent auth (ledger_run (reserve_sql auth) (settle_sql auth) db1 ops)
     \<and> (\<exists>d x. amount = Some d \<and> sql_held auth db3 (task, action) = Some (dval d, x))"
proof -
  have g1: "sql_ok db1" using sql.reserve_good [OF ok, of auth st task action amount] first by simp
  obtain d x where d: "amount = Some d" "sql_held auth db1 (task, action) = Some (dval d, x)"
    using sql.reserve_held [OF ok first] by blast
  from sql.retry_idempotent [OF ok first again] sql.run_held [OF g1 d(2), of ops] d(1) show ?thesis by fastforce
qed

theorem sql_reservation_idempotent_witness:
  "\<exists>db1 db3. reserve_sql \<lparr>sa_application_id = ''app-1'', sa_allocation_id = ''alloc-1'',
        sa_application_ceiling = Dec 9 0, sa_task_ceiling = Dec 6 0\<rparr> Store_ok (fst sample_authority)
        ''task-1'' ''a-1'' (Some (Dec 5 0)) = (db1, Inr True)
     \<and> reserve_sql \<lparr>sa_application_id = ''app-1'', sa_allocation_id = ''alloc-1'',
        sa_application_ceiling = Dec 9 0, sa_task_ceiling = Dec 6 0\<rparr> Store_ok db1
        ''task-1'' ''a-1'' (Some (Dec 5 0)) = (db3, Inr True)"
proof -
  let ?auth = "\<lparr>sa_application_id = ''app-1'', sa_allocation_id = ''alloc-1'',
        sa_application_ceiling = Dec 9 0, sa_task_ceiling = Dec 6 0\<rparr>"
  have "sql_ok (fst sample_authority)" by code_simp
  moreover have "snd (reserve_sql ?auth Store_ok (fst sample_authority) ''task-1'' ''a-1'' (Some (Dec 5 0))) = Inr True"
    by code_simp
  then obtain db1 where r1: "reserve_sql ?auth Store_ok (fst sample_authority) ''task-1'' ''a-1'' (Some (Dec 5 0)) = (db1, Inr True)"
    by (metis prod.collapse)
  moreover have "case reserve_sql ?auth Store_ok (fst sample_authority) ''task-1'' ''a-1'' (Some (Dec 5 0)) of
      (db1, r) \<Rightarrow> \<not> isl (snd (reserve_sql ?auth Store_ok db1 ''task-1'' ''a-1'' (Some (Dec 5 0))))"
    by code_simp
  then have "\<not> isl (snd (reserve_sql ?auth Store_ok db1 ''task-1'' ''a-1'' (Some (Dec 5 0))))"
    unfolding r1 prod.case .
  then obtain db3 granted where r3: "reserve_sql ?auth Store_ok db1 ''task-1'' ''a-1'' (Some (Dec 5 0)) = (db3, Inr granted)"
    by (metis prod.collapse sum.collapse(2))
  ultimately have "granted"
    using sql_reservation_idempotent [of "fst sample_authority" ?auth Store_ok "''task-1''" "''a-1''" "Some (Dec 5 0)" db1
        Store_ok "[]" db3 granted] by (simp add: ledger_run_def)
  with r1 r3 show ?thesis by simp
qed

text \<open>
  Allocations are isolated: whatever sequence of operations runs on one allocation, the
  holds and the spending of every other allocation in the same database are untouched.
\<close>

theorem sql_allocations_isolated:
  assumes "sql_ok db" and "allocation_key auth' \<noteq> allocation_key auth"
  shows "sql_spent auth' (ledger_run (reserve_sql auth) (settle_sql auth) db ops) pool = sql_spent auth' db pool
    \<and> sql_held auth' (ledger_run (reserve_sql auth) (settle_sql auth) db ops) = sql_held auth' db"
  by (rule sql_run_other [OF assms])

theorem sql_allocations_isolated_witness:
  "sql_spent \<lparr>sa_application_id = ''app-2'', sa_allocation_id = ''alloc-1'', sa_application_ceiling = Dec 9 0,
       sa_task_ceiling = Dec 6 0\<rparr>
     (ledger_run (reserve_sql \<lparr>sa_application_id = ''app-1'', sa_allocation_id = ''alloc-1'',
        sa_application_ceiling = Dec 9 0, sa_task_ceiling = Dec 6 0\<rparr>)
        (settle_sql \<lparr>sa_application_id = ''app-1'', sa_allocation_id = ''alloc-1'',
        sa_application_ceiling = Dec 9 0, sa_task_ceiling = Dec 6 0\<rparr>) empty_db (sample_ops Store_ok)) None = 0"
proof -
  have "sql_ok empty_db" by code_simp
  moreover have "sql_spent auth empty_db None = 0" for auth by (simp add: sql_spent_def empty_db_def)
  ultimately show ?thesis by (subst sql_allocations_isolated [THEN conjunct1]) simp_all
qed

end
