(* ===== verification/Health.thy ===== *)
theory Health
  imports Contracts "HOL-Library.AList" "HOL-Library.List_Lexorder" "HOL-Library.Char_ord" "HOL-Library.Product_Lexorder"
begin

text \<open>
  The health service of \<^verbatim>\<open>health/service.py\<close> with its records from
  \<^verbatim>\<open>core/phase4_contracts.py\<close>: one circuit breaker and one observation per scope (component,
  model, capability), and the projections of this evidence. The clock reading of a call is an
  argument of the operation; each call holds the lock, so it is one step of the service. The
  guards against values of the wrong type have no counterpart, the guards on values do. The
  digest that names a snapshot is a parameter.

  The lemmas: the breaker's invariant over all reachable states, that an open circuit stays open
  for the cooldown whatever is observed, that it closes only after as many admitted successful
  probes as the configuration demands and always can, that scopes do not interfere, and that the
  projection onto a routing environment never makes a model look better.
\<close>

section \<open>Records\<close>

datatype circuit_state = Closed | Open | Half_open

datatype check_status = Check_observed | Check_missing | Check_stale | Check_disabled

record health_config =
  hc_version :: string
  hc_freshness_ms :: nat
  hc_failure_window_ms :: nat
  hc_failure_threshold :: nat
  hc_cooldown_ms :: nat
  hc_half_open_max_probes :: nat
  hc_recovery_success_threshold :: nat
  hc_max_probes_per_run :: nat
  hc_probe_timeout_ms :: nat
  hc_live_probes_enabled :: bool
  hc_required_components :: "string list"

definition health_config_ok :: "health_config \<Rightarrow> bool" where
  "health_config_ok c = (0 < hc_freshness_ms c \<and> 0 < hc_failure_window_ms c \<and> 0 < hc_failure_threshold c
     \<and> 0 < hc_cooldown_ms c \<and> 0 < hc_half_open_max_probes c \<and> 0 < hc_recovery_success_threshold c
     \<and> 0 < hc_max_probes_per_run c \<and> 0 < hc_probe_timeout_ms c
     \<and> hc_recovery_success_threshold c \<le> hc_half_open_max_probes c
     \<and> list_all (\<lambda>n. n \<noteq> []) (hc_required_components c))"

type_synonym scope = "string \<times> string option \<times> string option"

record observation =
  ob_component :: string
  ob_model :: "string option"
  ob_capability :: "string option"
  ob_state :: health_state
  ob_observed_at :: instant
  ob_valid_until :: instant
  ob_last_success_at :: "instant option"
  ob_required :: bool
  ob_check_status :: check_status
  ob_failure :: "failure_type option"
  ob_failure_count :: nat
  ob_circuit_state :: circuit_state
  ob_latency_ms :: "nat option"

record health_snapshot =
  sn_snapshot_id :: string
  sn_config_version :: string
  sn_observed_at :: instant
  sn_valid_until :: instant
  sn_synthetic :: bool
  sn_observations :: "observation list"

record readiness =
  hr_ready :: bool
  hr_state :: health_state
  hr_blockers :: "string list"

record circuit =
  cc_failures :: "instant list"
  cc_state :: circuit_state
  cc_opened_at :: "instant option"
  cc_admitted_probes :: nat
  cc_pending_probes :: nat
  cc_recovery_successes :: nat

definition new_circuit :: circuit where
  "new_circuit = \<lparr>cc_failures = [], cc_state = Closed, cc_opened_at = None, cc_admitted_probes = 0,
     cc_pending_probes = 0, cc_recovery_successes = 0\<rparr>"

record health_service =
  hs_config :: health_config
  hs_observations :: "(scope \<times> observation) list"
  hs_circuits :: "(scope \<times> circuit) list"
  hs_missing_observed_at :: "(scope \<times> instant) list"

definition new_health_service :: "health_config \<Rightarrow> instant \<Rightarrow> health_service" where
  "new_health_service config now = \<lparr>hs_config = config, hs_observations = [], hs_circuits = [],
     hs_missing_observed_at = map (\<lambda>component. ((component, None, None), now)) (hc_required_components config)\<rparr>"

section \<open>Circuits\<close>

definition infrastructure_failures :: "failure_type list" where
  "infrastructure_failures = [TIMEOUT, RATE_LIMIT, PROVIDER_FAILURE]"

definition poisons_circuit :: "string \<Rightarrow> failure_type option \<Rightarrow> bool" where
  "poisons_circuit component failure = (case failure of None \<Rightarrow> False
     | Some f \<Rightarrow> f \<in> set infrastructure_failures \<or> (component = ''tool'' \<and> f = TOOL_FAILURE))"

definition window_start :: "health_config \<Rightarrow> instant \<Rightarrow> instant" where
  "window_start config now = now - ms (hc_failure_window_ms config)"

definition prune :: "health_config \<Rightarrow> circuit \<Rightarrow> instant \<Rightarrow> circuit" where
  "prune config c now =
     c\<lparr>cc_failures := dropWhile (\<lambda>stamp. stamp < window_start config now) (cc_failures c)\<rparr>"

definition open_circuit :: "circuit \<Rightarrow> instant \<Rightarrow> circuit" where
  "open_circuit c now = c\<lparr>cc_state := Open, cc_opened_at := Some now, cc_admitted_probes := 0,
     cc_pending_probes := 0, cc_recovery_successes := 0\<rparr>"

definition close_circuit :: "circuit \<Rightarrow> circuit" where
  "close_circuit c = c\<lparr>cc_state := Closed, cc_opened_at := None, cc_admitted_probes := 0,
     cc_pending_probes := 0, cc_recovery_successes := 0, cc_failures := []\<rparr>"

definition add_failure :: "bool \<Rightarrow> instant \<Rightarrow> circuit \<Rightarrow> circuit" where
  "add_failure poisons now c = (if poisons then c\<lparr>cc_failures := cc_failures c @ [now]\<rparr> else c)"

definition awaits_probe :: "circuit \<Rightarrow> bool" where
  "awaits_probe c = (cc_state c = Half_open \<and> 0 < cc_pending_probes c)"

text \<open>What an observation does to a pruned circuit that waits for a probe, and to any other.\<close>

definition probe_result :: "health_config \<Rightarrow> bool \<Rightarrow> bool \<Rightarrow> instant \<Rightarrow> circuit \<Rightarrow> circuit" where
  "probe_result config success poisons now c0 =
     (let c = c0\<lparr>cc_pending_probes := cc_pending_probes c0 - 1\<rparr> in
      if success
      then let c' = c\<lparr>cc_recovery_successes := cc_recovery_successes c + 1\<rparr> in
           if hc_recovery_success_threshold config \<le> cc_recovery_successes c' then close_circuit c' else c'
      else open_circuit (add_failure poisons now c) now)"

definition traffic_result :: "health_config \<Rightarrow> bool \<Rightarrow> bool \<Rightarrow> instant \<Rightarrow> circuit \<Rightarrow> circuit" where
  "traffic_result config adverse poisons now c =
     (if adverse
      then let c' = add_failure poisons now c in
           if cc_state c' = Closed \<and> poisons \<and> hc_failure_threshold config \<le> length (cc_failures c')
           then open_circuit c' now else c'
      else c)"

definition observe_circuit :: "health_config \<Rightarrow> string \<Rightarrow> failure_type option \<Rightarrow> bool \<Rightarrow> health_state option
    \<Rightarrow> instant \<Rightarrow> circuit \<Rightarrow> circuit" where
  "observe_circuit config component failure success state now c0 =
     (let c = prune config c0 now; poisons = poisons_circuit component failure in
      if awaits_probe c then probe_result config success poisons now c
      else traffic_result config (failure \<noteq> None \<or> state = Some UNHEALTHY) poisons now c)"

definition admit_circuit :: "health_config \<Rightarrow> instant \<Rightarrow> circuit \<Rightarrow> circuit \<times> bool" where
  "admit_circuit config now c0 =
     (let c = prune config c0 now;
          admit = (\<lambda>c. if hc_half_open_max_probes config \<le> cc_admitted_probes c then (c, False)
            else (c\<lparr>cc_admitted_probes := cc_admitted_probes c + 1, cc_pending_probes := cc_pending_probes c + 1\<rparr>, True))
      in case cc_state c of
           Closed \<Rightarrow> (c, True)
         | Open \<Rightarrow> (case cc_opened_at c of
               None \<Rightarrow> (c, False)
             | Some opened_at \<Rightarrow>
                 if now < opened_at + ms (hc_cooldown_ms config) then (c, False)
                 else admit (c\<lparr>cc_state := Half_open, cc_admitted_probes := 0, cc_pending_probes := 0,
                   cc_recovery_successes := 0\<rparr>))
         | Half_open \<Rightarrow> admit c)"

section \<open>Views\<close>

definition failure_count :: "health_config \<Rightarrow> circuit option \<Rightarrow> instant \<Rightarrow> nat" where
  "failure_count config circuit now = (case circuit of None \<Rightarrow> 0
     | Some c \<Rightarrow> length (filter (\<lambda>stamp. window_start config now \<le> stamp) (cc_failures c)))"

definition missing_observation :: "health_service \<Rightarrow> scope \<Rightarrow> instant \<Rightarrow> bool \<Rightarrow> observation" where
  "missing_observation h key now required =
     (let observed_at = (case map_of (hs_missing_observed_at h) key of None \<Rightarrow> now | Some t \<Rightarrow> t) in
      \<lparr>ob_component = fst key, ob_model = fst (snd key), ob_capability = snd (snd key),
       ob_state = UNHEALTHY, ob_observed_at = observed_at,
       ob_valid_until = observed_at + ms (hc_freshness_ms (hs_config h)), ob_last_success_at = None,
       ob_required = required, ob_check_status = Check_missing, ob_failure = None, ob_failure_count = 0,
       ob_circuit_state = Closed, ob_latency_ms = None\<rparr>)"

definition stale :: "observation \<Rightarrow> instant \<Rightarrow> bool" where
  "stale o' now = (now < ob_observed_at o' \<or> ob_valid_until o' \<le> now
     \<or> (case ob_last_success_at o' of None \<Rightarrow> False | Some t \<Rightarrow> ob_observed_at o' < t))"

definition view :: "health_service \<Rightarrow> observation option \<Rightarrow> scope \<Rightarrow> instant \<Rightarrow> bool \<Rightarrow> observation" where
  "view h observed key now required =
     (case observed of None \<Rightarrow> missing_observation h key now required
      | Some o' \<Rightarrow>
          let circuit = map_of (hs_circuits h) key;
              cs = (case circuit of None \<Rightarrow> ob_circuit_state o' | Some c \<Rightarrow> cc_state c);
              n = failure_count (hs_config h) circuit now
          in if ob_check_status o' = Check_disabled
             then o'\<lparr>ob_circuit_state := cs, ob_failure_count := n\<rparr>
             else o'\<lparr>ob_state := (if stale o' now \<or> cs = Open then UNHEALTHY
                          else if cs = Half_open then DEGRADED else ob_state o'),
                     ob_check_status := (if stale o' now then Check_stale else ob_check_status o'),
                     ob_circuit_state := cs, ob_failure_count := n\<rparr>)"

definition available_observation :: "observation \<Rightarrow> bool" where
  "available_observation o' = (ob_check_status o' = Check_observed \<and> ob_circuit_state o' = Closed
     \<and> ob_state o' \<in> {HEALTHY, DEGRADED})"

definition unavailable_reason :: "observation \<Rightarrow> string" where
  "unavailable_reason o' = (case ob_check_status o' of
     Check_missing \<Rightarrow> ''missing'' | Check_stale \<Rightarrow> ''stale'' | Check_disabled \<Rightarrow> ''disabled''
   | Check_observed \<Rightarrow> (case ob_circuit_state o' of Open \<Rightarrow> ''open'' | Half_open \<Rightarrow> ''half_open''
       | Closed \<Rightarrow> ''unhealthy''))"

section \<open>Operations\<close>

definition scope_ok :: "scope \<Rightarrow> bool" where
  "scope_ok key = (fst key \<noteq> [] \<and> fst (snd key) \<noteq> Some [] \<and> snd (snd key) \<noteq> Some [])"

definition circuit_at :: "health_service \<Rightarrow> scope \<Rightarrow> circuit" where
  "circuit_at h key = (case map_of (hs_circuits h) key of None \<Rightarrow> new_circuit | Some c \<Rightarrow> c)"

definition derived_state :: "string \<Rightarrow> circuit_state \<Rightarrow> failure_type option \<Rightarrow> bool \<Rightarrow> health_state option
    \<Rightarrow> bool \<Rightarrow> health_state option" where
  "derived_state component cs failure success state required =
     (if cs = Open then Some UNHEALTHY
      else if cs = Half_open then Some DEGRADED
      else if state \<noteq> None then state
      else if success then Some HEALTHY
      else if failure \<noteq> None
      then Some (if component \<in> set [''provider'', ''evaluator'', ''tool''] then DEGRADED else UNHEALTHY)
      else if \<not> required then Some DEGRADED
      else None)"

definition recorded_observation :: "health_config \<Rightarrow> instant \<Rightarrow> scope \<Rightarrow> circuit \<Rightarrow> health_state \<Rightarrow> observation option
    \<Rightarrow> failure_type option \<Rightarrow> bool \<Rightarrow> health_state option \<Rightarrow> bool \<Rightarrow> nat option \<Rightarrow> observation" where
  "recorded_observation config now key circuit derived previous failure success state required latency_ms =
     \<lparr>ob_component = fst key, ob_model = fst (snd key), ob_capability = snd (snd key),
      ob_state = derived, ob_observed_at = now, ob_valid_until = now + ms (hc_freshness_ms config),
      ob_last_success_at = (if success then Some now
        else (case previous of None \<Rightarrow> None | Some p \<Rightarrow> ob_last_success_at p)),
      ob_required = required,
      ob_check_status = (if \<not> required \<and> \<not> success \<and> state = None then Check_disabled else Check_observed),
      ob_failure = failure, ob_failure_count = length (cc_failures circuit),
      ob_circuit_state = cc_state circuit, ob_latency_ms = latency_ms\<rparr>"

definition observe :: "health_service \<Rightarrow> instant \<Rightarrow> scope \<Rightarrow> failure_type option \<Rightarrow> bool \<Rightarrow> health_state option
    \<Rightarrow> bool \<Rightarrow> nat option \<Rightarrow> health_service \<times> observation res" where
  "observe h now key failure success state required latency_ms =
     (if \<not> scope_ok key \<or> (success \<and> failure \<noteq> None) then (h, Inl ValueError)
      else
        let previous = map_of (hs_observations h) key in
        if failure \<in> {Some QUALITY_FAILURE, Some BUDGET_FAILURE}
        then (h, Inr (view h previous key now required))
        else
          let circuit = observe_circuit (hs_config h) (fst key) failure success state now (circuit_at h key);
              h' = h\<lparr>hs_circuits := AList.update key circuit (hs_circuits h)\<rparr>
          in case derived_state (fst key) (cc_state circuit) failure success state required of
               None \<Rightarrow> (h', Inl ValueError)
             | Some derived \<Rightarrow>
                 let o' = recorded_observation (hs_config h) now key circuit derived previous failure success
                       state required latency_ms
                 in (h'\<lparr>hs_observations := AList.update key o' (hs_observations h)\<rparr>, Inr o'))"

definition admit_probe :: "health_service \<Rightarrow> instant \<Rightarrow> scope \<Rightarrow> health_service \<times> bool res" where
  "admit_probe h now key =
     (if \<not> scope_ok key then (h, Inl ValueError)
      else let (circuit, admitted) = admit_circuit (hs_config h) now (circuit_at h key)
           in (h\<lparr>hs_circuits := AList.update key circuit (hs_circuits h)\<rparr>, Inr admitted))"

definition available :: "health_service \<Rightarrow> instant \<Rightarrow> scope \<Rightarrow> bool res" where
  "available h now key =
     (if \<not> scope_ok key then Inl ValueError
      else case map_of (hs_observations h) key of
             None \<Rightarrow> Inr False
           | Some o' \<Rightarrow> Inr (available_observation (view h (Some o') key now (ob_required o'))))"

definition scope_order :: "scope \<Rightarrow> string \<times> string \<times> string" where
  "scope_order key = (fst key, case fst (snd key) of None \<Rightarrow> [] | Some s \<Rightarrow> s,
     case snd (snd key) of None \<Rightarrow> [] | Some s \<Rightarrow> s)"

definition current_observations :: "health_service \<Rightarrow> instant \<Rightarrow> observation list" where
  "current_observations h now =
     map (\<lambda>key. view h (map_of (hs_observations h) key) key now (fst key \<in> set (hc_required_components (hs_config h))))
       (sort_key scope_order (remdups (map fst (hs_observations h)
          @ map (\<lambda>component. (component, None, None)) (hc_required_components (hs_config h)))))"

definition max_time :: "instant \<Rightarrow> instant list \<Rightarrow> instant" where
  "max_time fallback ts = (case ts of [] \<Rightarrow> fallback | t # rest \<Rightarrow> fold max rest t)"

definition min_time :: "instant \<Rightarrow> instant list \<Rightarrow> instant" where
  "min_time fallback ts = (case ts of [] \<Rightarrow> fallback | t # rest \<Rightarrow> fold min rest t)"

definition snapshot :: "(string \<Rightarrow> instant \<Rightarrow> instant \<Rightarrow> observation list \<Rightarrow> string) \<Rightarrow> health_service \<Rightarrow> instant
    \<Rightarrow> health_snapshot" where
  "snapshot digest h now =
     (let observations = current_observations h now;
          relevant = filter (\<lambda>o'. ob_check_status o' \<noteq> Check_disabled) observations;
          observed_at = max_time now (map ob_observed_at relevant);
          valid_until = min_time now (map ob_valid_until relevant)
      in \<lparr>sn_snapshot_id = ''health-'' @ digest (hc_version (hs_config h)) observed_at valid_until observations,
          sn_config_version = hc_version (hs_config h), sn_observed_at = observed_at,
          sn_valid_until = valid_until, sn_synthetic = (\<not> hc_live_probes_enabled (hs_config h)),
          sn_observations = observations\<rparr>)"

definition validate_snapshot :: "health_service \<Rightarrow> health_snapshot \<Rightarrow> unit res" where
  "validate_snapshot h s = check_res (sn_config_version s = hc_version (hs_config h)) ValueError"


text \<open>The snapshot passed by the caller, or else a fresh one; its configuration must be this service's.\<close>

definition given_snapshot :: "(string \<Rightarrow> instant \<Rightarrow> instant \<Rightarrow> observation list \<Rightarrow> string) \<Rightarrow> health_service \<Rightarrow> instant
    \<Rightarrow> health_snapshot option \<Rightarrow> health_snapshot res" where
  "given_snapshot digest h now given =
     (let s = (case given of None \<Rightarrow> snapshot digest h now | Some s \<Rightarrow> s)
      in bind_res (validate_snapshot h s) (\<lambda>_. Inr s))"

definition ordered_blockers :: "string list \<Rightarrow> string list" where
  "ordered_blockers blockers = sort (remdups blockers)"

definition readiness_of :: "string list \<Rightarrow> bool \<Rightarrow> readiness" where
  "readiness_of blockers degraded =
     (if ordered_blockers blockers \<noteq> []
      then \<lparr>hr_ready = False, hr_state = UNHEALTHY, hr_blockers = ordered_blockers blockers\<rparr>
      else \<lparr>hr_ready = True, hr_state = (if degraded then DEGRADED else HEALTHY), hr_blockers = []\<rparr>)"

text \<open>The dict of unscoped observations by component: a later one replaces an earlier one.\<close>

definition by_component :: "observation list \<Rightarrow> string \<Rightarrow> observation option" where
  "by_component obs component =
     map_of (rev (map (\<lambda>o'. (ob_component o', o')) (filter (\<lambda>o'. ob_model o' = None \<and> ob_capability o' = None) obs)))
       component"

definition component_blockers :: "observation list \<Rightarrow> string \<Rightarrow> string list" where
  "component_blockers obs component = (case by_component obs component of
     None \<Rightarrow> [component @ '':missing'']
   | Some o' \<Rightarrow> if \<not> available_observation o' then [component @ '':'' @ unavailable_reason o'] else [])"

definition component_degraded :: "observation list \<Rightarrow> string \<Rightarrow> bool" where
  "component_degraded obs component = (case by_component obs component of None \<Rightarrow> False
     | Some o' \<Rightarrow> available_observation o' \<and> ob_state o' = DEGRADED)"

definition dependency_of :: "health_config \<Rightarrow> observation list \<Rightarrow> readiness" where
  "dependency_of config obs = readiness_of (concat (map (component_blockers obs) (hc_required_components config)))
     (list_ex (component_degraded obs) (hc_required_components config))"

definition dependency_readiness :: "(string \<Rightarrow> instant \<Rightarrow> instant \<Rightarrow> observation list \<Rightarrow> string) \<Rightarrow> health_service
    \<Rightarrow> instant \<Rightarrow> health_snapshot option \<Rightarrow> readiness res" where
  "dependency_readiness digest h now given =
     bind_res (given_snapshot digest h now given) (\<lambda>s. Inr (dependency_of (hs_config h) (sn_observations s)))"

definition stale_environment :: "environment \<Rightarrow> instant \<Rightarrow> bool" where
  "stale_environment env now =
     (case (env_health_snapshot_id env, env_health_observed_at env, env_health_valid_until env) of
        (Some i, Some observed_at, Some valid_until) \<Rightarrow> now < observed_at \<or> valid_until \<le> now
      | _ \<Rightarrow> True)"

definition model_ready :: "model_health \<Rightarrow> bool" where
  "model_ready m = (mh_usable m \<and> mh_state m \<in> {HEALTHY, DEGRADED} \<and> mh_account_access m = Access_verified)"

definition operation_blockers :: "environment \<Rightarrow> bool \<Rightarrow> bool \<Rightarrow> bool \<Rightarrow> instant \<Rightarrow> string list" where
  "operation_blockers env execution_authorized finite_limits synthetic_provider now =
     (if \<not> execution_authorized then [''approval_required''] else [])
     @ (if \<not> finite_limits then [''finite_execution_limits_required''] else [])
     @ (if \<not> env_synthetic env then [''production_execution_disabled''] else [])
     @ (if \<not> synthetic_provider then [''mock_provider_required''] else [])
     @ (if \<not> env_durable_retention env then [''durable_retention_unavailable''] else [])
     @ (if \<not> env_recovery_bounded env then [''recovery_unconfigured''] else [])
     @ (if stale_environment env now then [''stale_snapshot''] else [])
     @ (if list_ex (model_ready \<circ> snd) (env_models env) then [] else [''no_permitted_model_ready''])"

definition operation_readiness :: "(string \<Rightarrow> instant \<Rightarrow> instant \<Rightarrow> observation list \<Rightarrow> string) \<Rightarrow> health_service
    \<Rightarrow> instant \<Rightarrow> instant \<Rightarrow> environment \<Rightarrow> bool \<Rightarrow> bool \<Rightarrow> bool \<Rightarrow> health_snapshot option \<Rightarrow> readiness res" where
  "operation_readiness digest h snapshot_now now env execution_authorized finite_limits synthetic_provider given =
     bind_res (dependency_readiness digest h snapshot_now given) (\<lambda>dependency.
     Inr (readiness_of
       (hr_blockers dependency @ operation_blockers env execution_authorized finite_limits synthetic_provider now)
       (hr_state dependency = DEGRADED
        \<or> (list_ex (model_ready \<circ> snd) (env_models env)
           \<and> list_ex (\<lambda>(a, m). \<not> mh_usable m \<or> mh_state m \<noteq> HEALTHY \<or> mh_account_access m \<noteq> Access_verified)
               (env_models env)))))"

definition provider_candidates :: "observation list \<Rightarrow> observation list" where
  "provider_candidates obs =
     (let provider = filter (\<lambda>o'. ob_component o' = ''provider'' \<and> ob_model o' \<noteq> None \<and> ob_required o') obs;
          model_level = filter (\<lambda>o'. ob_capability o' = None) provider
      in if model_level = [] then provider else model_level)"

definition readiness_report :: "(string \<Rightarrow> instant \<Rightarrow> instant \<Rightarrow> observation list \<Rightarrow> string) \<Rightarrow> health_service
    \<Rightarrow> instant \<Rightarrow> health_snapshot option \<Rightarrow> readiness res" where
  "readiness_report digest h now given =
     bind_res (given_snapshot digest h now given) (\<lambda>s.
     let dependency = dependency_of (hs_config h) (sn_observations s);
         candidates = provider_candidates (sn_observations s)
     in Inr (readiness_of
          (hr_blockers dependency
           @ (if candidates \<noteq> [] \<and> \<not> list_ex available_observation candidates then [''provider:no_model_ready''] else []))
          (hr_state dependency = DEGRADED
           \<or> (list_ex available_observation candidates
              \<and> list_ex (\<lambda>o'. \<not> available_observation o' \<or> ob_state o' = DEGRADED) candidates))))"

section \<open>Projection onto a routing environment\<close>

definition provider_scope :: "string \<Rightarrow> string option \<Rightarrow> observation \<Rightarrow> bool" where
  "provider_scope alias capability o' = (ob_component o' = ''provider''
     \<and> (ob_model o' = None \<or> ob_model o' = Some alias) \<and> ob_capability o' = capability)"

definition missing_provider :: "health_service \<Rightarrow> health_snapshot \<Rightarrow> string \<Rightarrow> string option \<Rightarrow> observation" where
  "missing_provider h s alias capability =
     missing_observation h (''provider'', Some alias, capability) (sn_observed_at s) True"

definition scoped_evidence :: "health_service \<Rightarrow> health_snapshot \<Rightarrow> string \<Rightarrow> string \<Rightarrow> observation list" where
  "scoped_evidence h s alias capability =
     (let scoped = filter (provider_scope alias (Some capability)) (sn_observations s)
      in if scoped = [] then [missing_provider h s alias (Some capability)] else scoped)"

definition relevant_evidence :: "health_service \<Rightarrow> health_snapshot \<Rightarrow> string list \<Rightarrow> string \<Rightarrow> observation list" where
  "relevant_evidence h s capabilities alias =
     (let relevant = filter (provider_scope alias None) (sn_observations s)
            @ concat (map (scoped_evidence h s alias) capabilities)
      in if relevant = [] then [missing_provider h s alias None] else relevant)"

definition projected_health :: "model_health \<Rightarrow> observation list \<Rightarrow> model_health" where
  "projected_health existing relevant =
     (let unavailable = (\<not> mh_usable existing \<or> mh_state existing = UNHEALTHY
            \<or> \<not> list_all available_observation relevant);
          degraded = (mh_state existing = DEGRADED \<or> list_ex (\<lambda>o'. ob_state o' = DEGRADED) relevant)
      in \<lparr>mh_state = (if unavailable then UNHEALTHY else if degraded then DEGRADED else HEALTHY),
          mh_account_access = mh_account_access existing, mh_usable = (\<not> unavailable)\<rparr>)"

definition routing_evidence :: "health_service \<Rightarrow> health_snapshot \<Rightarrow> string list \<Rightarrow> environment \<Rightarrow> observation list" where
  "routing_evidence h s capabilities env =
     filter (\<lambda>o'. ob_component o' \<in> set (hc_required_components (hs_config h))
        \<and> ob_model o' = None \<and> ob_capability o' = None) (sn_observations s)
     @ concat (map (\<lambda>(alias, existing).
         let relevant = relevant_evidence h s capabilities alias
         in if mh_usable (projected_health existing relevant) then relevant else []) (env_models env))"

definition apply_health :: "(string \<Rightarrow> instant \<Rightarrow> instant \<Rightarrow> observation list \<Rightarrow> string) \<Rightarrow> health_service \<Rightarrow> instant
    \<Rightarrow> environment \<Rightarrow> string list \<Rightarrow> health_snapshot option \<Rightarrow> environment res" where
  "apply_health digest h now env required_capabilities given =
     bind_res (check_res (list_all (\<lambda>c. c \<noteq> []) required_capabilities) ValueError) (\<lambda>_.
     bind_res (given_snapshot digest h now given) (\<lambda>s.
     let capabilities = sort (remdups required_capabilities);
         evidence = routing_evidence h s capabilities env
     in Inr (env\<lparr>env_models := map (\<lambda>(alias, existing).
               (alias, projected_health existing (relevant_evidence h s capabilities alias))) (env_models env),
             env_health_snapshot_id := Some (sn_snapshot_id s),
             env_health_observed_at := Some (max_time (sn_observed_at s) (map ob_observed_at evidence)),
             env_health_valid_until := Some (min_time (sn_valid_until s) (map ob_valid_until evidence))\<rparr>)))"

section \<open>Probes\<close>

record probe =
  pb_component :: string
  pb_model :: "string option"
  pb_capability :: "string option"
  pb_required :: bool
  pb_cost_upper_bound_usd :: "decimal option"

record probe_report =
  pr_success :: bool
  pr_state :: "health_state option"
  pr_failure :: "failure_type option"
  pr_latency_ms :: "nat option"

definition probe_report_ok :: "probe_report \<Rightarrow> bool" where
  "probe_report_ok r = ((pr_success r \<longrightarrow> pr_failure r = None)
     \<and> (\<not> pr_success r \<longrightarrow> pr_failure r \<noteq> None \<or> pr_state r \<noteq> None))"

definition failed_probe :: probe_report where
  "failed_probe = \<lparr>pr_success = False, pr_state = Some UNHEALTHY, pr_failure = Some PROVIDER_FAILURE,
     pr_latency_ms = None\<rparr>"

definition probe_money :: "bool \<Rightarrow> decimal option \<Rightarrow> decimal res" where
  "probe_money positive value = (case value of None \<Rightarrow> Inl ValueError
     | Some d \<Rightarrow> if dec_lt d ZERO \<or> (positive \<and> dec_le d ZERO) then Inl ValueError else Inr d)"

text \<open>The interpreter's default decimal context, in which the batch is summed.\<close>

definition default_context :: dec_context where
  "default_context = \<lparr>prec = 28, rounding_mode = ROUND_HALF_EVEN\<rparr>"

definition probe_key :: "probe \<Rightarrow> scope" where
  "probe_key p = (pb_component p, pb_model p, pb_capability p)"

text \<open>
  The probe implementation is a parameter: \<open>None\<close> when it raises or returns something else than a
  result. \<open>clock\<close> gives the successive readings and \<open>tick\<close> counts the ones taken.
\<close>

definition probe_one :: "(probe \<Rightarrow> nat \<Rightarrow> probe_report option) \<Rightarrow> (nat \<Rightarrow> instant) \<Rightarrow> probe \<Rightarrow> nat \<Rightarrow> health_service
    \<Rightarrow> health_service \<times> nat \<times> observation option res" where
  "probe_one run clock p tick h =
     (let gated = (case map_of (hs_circuits h) (probe_key p) of None \<Rightarrow> False | Some c \<Rightarrow> cc_state c \<noteq> Closed);
          (h1, admitted) = (if gated then admit_probe h (clock tick) (probe_key p) else (h, Inr True));
          tick1 = (if gated then tick + 1 else tick)
      in case admitted of
           Inl e \<Rightarrow> (h1, tick1, Inl e)
         | Inr go \<Rightarrow>
             if \<not> go then (h1, tick1, Inr None)
             else
               let r = (case run p (hc_probe_timeout_ms (hs_config h)) of None \<Rightarrow> failed_probe | Some r \<Rightarrow> r);
                   (h2, result) = observe h1 (clock tick1) (probe_key p) (pr_failure r) (pr_success r) (pr_state r)
                     (pb_required p) (pr_latency_ms r)
               in (h2, tick1 + 1, bind_res result (\<lambda>o'. Inr (Some o'))))"

fun probe_batch :: "(probe \<Rightarrow> nat \<Rightarrow> probe_report option) \<Rightarrow> (nat \<Rightarrow> instant) \<Rightarrow> probe list \<Rightarrow> nat \<Rightarrow> health_service
    \<Rightarrow> observation list \<Rightarrow> health_service \<times> observation list res" where
  "probe_batch run clock [] tick h acc = (h, Inr acc)"
| "probe_batch run clock (p # ps) tick h acc =
     (case probe_one run clock p tick h of
        (h', tick', Inl e) \<Rightarrow> (h', Inl e)
      | (h', tick', Inr None) \<Rightarrow> probe_batch run clock ps tick' h' acc
      | (h', tick', Inr (Some o')) \<Rightarrow> probe_batch run clock ps tick' h' (acc @ [o']))"

definition run_probes :: "(probe \<Rightarrow> nat \<Rightarrow> probe_report option) \<Rightarrow> (nat \<Rightarrow> instant) \<Rightarrow> health_service \<Rightarrow> probe list
    \<Rightarrow> bool \<Rightarrow> decimal option \<Rightarrow> health_service \<times> observation list res" where
  "run_probes run clock h probes authorized budget_cap_usd =
     (if \<not> hc_live_probes_enabled (hs_config h) \<or> \<not> authorized then (h, Inr [])
      else case probe_money True budget_cap_usd of
             Inl e \<Rightarrow> (h, Inl e)
           | Inr cap \<Rightarrow>
               let batch = take (hc_max_probes_per_run (hs_config h)) probes in
               case map_res (\<lambda>p. probe_money False (pb_cost_upper_bound_usd p)) batch of
                 Inl e \<Rightarrow> (h, Inl e)
               | Inr costs \<Rightarrow>
                   if dec_lt cap (dec_sum default_context ZERO costs) then (h, Inl ValueError)
                   else probe_batch run clock batch 0 h [])"

text \<open>The offline source: one successful observation per required component, model and capability.\<close>

fun observe_all :: "(scope \<times> bool \<times> bool) list \<Rightarrow> (nat \<Rightarrow> instant) \<Rightarrow> nat \<Rightarrow> health_service \<Rightarrow> health_service \<times> nat res" where
  "observe_all [] clock tick h = (h, Inr tick)"
| "observe_all ((key, success, required) # rest) clock tick h =
     (let (h', r) = observe h (clock tick) key None success None required None
      in case r of Inl e \<Rightarrow> (h', Inl e) | Inr _ \<Rightarrow> observe_all rest clock (tick + 1) h')"

definition seed :: "(string \<Rightarrow> instant \<Rightarrow> instant \<Rightarrow> observation list \<Rightarrow> string) \<Rightarrow> (nat \<Rightarrow> instant) \<Rightarrow> health_service
    \<Rightarrow> string list \<Rightarrow> string list \<Rightarrow> string list \<Rightarrow> health_service \<times> health_snapshot res" where
  "seed digest clock h models provider_capabilities optional_disabled =
     (let plan = map (\<lambda>c. ((c, None, None), True, True)) (hc_required_components (hs_config h))
            @ concat (map (\<lambda>m. ((''provider'', Some m, None), True, True)
                # map (\<lambda>c. ((''provider'', Some m, Some c), True, True)) provider_capabilities) models)
            @ map (\<lambda>c. ((c, None, None), False, False)) optional_disabled;
          (h', r) = observe_all plan clock 0 h
      in (h', bind_res r (\<lambda>tick. Inr (snapshot digest h' (clock tick)))))"


section \<open>The breaker's invariant\<close>

definition circuit_ok :: "health_config \<Rightarrow> circuit \<Rightarrow> bool" where
  "circuit_ok config c = (case cc_state c of
     Closed \<Rightarrow> cc_opened_at c = None \<and> cc_admitted_probes c = 0 \<and> cc_pending_probes c = 0
       \<and> cc_recovery_successes c = 0 \<and> length (cc_failures c) < hc_failure_threshold config
   | Open \<Rightarrow> cc_opened_at c \<noteq> None \<and> cc_admitted_probes c = 0 \<and> cc_pending_probes c = 0
       \<and> cc_recovery_successes c = 0
   | Half_open \<Rightarrow> cc_opened_at c \<noteq> None \<and> 0 < cc_admitted_probes c
       \<and> cc_recovery_successes c + cc_pending_probes c \<le> cc_admitted_probes c
       \<and> cc_admitted_probes c \<le> hc_half_open_max_probes config
       \<and> cc_recovery_successes c < hc_recovery_success_threshold config)"

lemma prune_fields [simp]:
  "cc_state (prune config c now) = cc_state c"
  "cc_opened_at (prune config c now) = cc_opened_at c"
  "cc_admitted_probes (prune config c now) = cc_admitted_probes c"
  "cc_pending_probes (prune config c now) = cc_pending_probes c"
  "cc_recovery_successes (prune config c now) = cc_recovery_successes c"
  by (simp_all add: prune_def)

lemma length_prune: "length (cc_failures (prune config c now)) \<le> length (cc_failures c)"
  by (simp add: prune_def length_dropWhile_le)

lemma add_failure_fields [simp]:
  "cc_state (add_failure p now c) = cc_state c"
  "cc_opened_at (add_failure p now c) = cc_opened_at c"
  "cc_admitted_probes (add_failure p now c) = cc_admitted_probes c"
  "cc_pending_probes (add_failure p now c) = cc_pending_probes c"
  "cc_recovery_successes (add_failure p now c) = cc_recovery_successes c"
  by (simp_all add: add_failure_def)

lemma open_circuit_fields [simp]:
  "cc_state (open_circuit c now) = Open" "cc_opened_at (open_circuit c now) = Some now"
  "cc_admitted_probes (open_circuit c now) = 0" "cc_pending_probes (open_circuit c now) = 0"
  "cc_recovery_successes (open_circuit c now) = 0"
  by (simp_all add: open_circuit_def)

lemma close_circuit_fields [simp]:
  "cc_state (close_circuit c) = Closed" "cc_opened_at (close_circuit c) = None"
  "cc_admitted_probes (close_circuit c) = 0" "cc_pending_probes (close_circuit c) = 0"
  "cc_recovery_successes (close_circuit c) = 0" "cc_failures (close_circuit c) = []"
  by (simp_all add: close_circuit_def)

lemma awaits_probe_prune [simp]: "awaits_probe (prune config c now) = awaits_probe c"
  by (simp add: awaits_probe_def)

lemma new_circuit_ok: "health_config_ok config \<Longrightarrow> circuit_ok config new_circuit"
  by (simp add: circuit_ok_def new_circuit_def health_config_ok_def)

lemma prune_ok: "circuit_ok config c \<Longrightarrow> circuit_ok config (prune config c now)"
  using length_prune [of config c now] by (auto simp: circuit_ok_def split: circuit_state.splits)

lemma probe_result_ok:
  "health_config_ok config \<Longrightarrow> circuit_ok config c \<Longrightarrow> awaits_probe c \<Longrightarrow>
     circuit_ok config (probe_result config success poisons now c)"
  by (auto simp: probe_result_def awaits_probe_def circuit_ok_def health_config_ok_def Let_def
      split: circuit_state.splits)

lemma traffic_result_ok:
  "circuit_ok config c \<Longrightarrow> circuit_ok config (traffic_result config adverse poisons now c)"
  by (auto simp: traffic_result_def circuit_ok_def Let_def add_failure_def split: circuit_state.splits)

lemma observe_circuit_ok:
  "health_config_ok config \<Longrightarrow> circuit_ok config c \<Longrightarrow>
     circuit_ok config (observe_circuit config component failure success state now c)"
  by (simp add: observe_circuit_def Let_def prune_ok probe_result_ok traffic_result_ok)

lemma admit_circuit_ok:
  "health_config_ok config \<Longrightarrow> circuit_ok config c \<Longrightarrow> circuit_ok config (fst (admit_circuit config now c))"
  using prune_ok [of config c now]
  by (auto simp: admit_circuit_def Let_def circuit_ok_def health_config_ok_def split: circuit_state.splits option.splits)

section \<open>Runs of the service\<close>

datatype health_event =
    Observe_event instant scope "failure_type option" bool "health_state option" bool "nat option"
  | Admit_event instant scope

fun health_step :: "health_service \<Rightarrow> health_event \<Rightarrow> health_service" where
  "health_step h (Observe_event now key failure success state required latency) =
     fst (observe h now key failure success state required latency)"
| "health_step h (Admit_event now key) = fst (admit_probe h now key)"

definition health_run :: "health_service \<Rightarrow> health_event list \<Rightarrow> health_service" where
  "health_run h evs = foldl health_step h evs"

inductive reachable :: "health_config \<Rightarrow> health_service \<Rightarrow> bool" for config :: health_config where
  start: "reachable config (new_health_service config now)"
| step: "reachable config h \<Longrightarrow> reachable config (health_step h ev)"

fun event_scope :: "health_event \<Rightarrow> scope" where
  "event_scope (Observe_event now key failure success state required latency) = key"
| "event_scope (Admit_event now key) = key"

fun event_time :: "health_event \<Rightarrow> instant" where
  "event_time (Observe_event now key failure success state required latency) = now"
| "event_time (Admit_event now key) = now"

text \<open>The effect of an event on the circuit of its own scope.\<close>

fun circuit_step :: "health_config \<Rightarrow> circuit \<Rightarrow> health_event \<Rightarrow> circuit" where
  "circuit_step config c (Observe_event now key failure success state required latency) =
     (if \<not> scope_ok key \<or> (success \<and> failure \<noteq> None) \<or> failure \<in> {Some QUALITY_FAILURE, Some BUDGET_FAILURE}
      then c else observe_circuit config (fst key) failure success state now c)"
| "circuit_step config c (Admit_event now key) =
     (if scope_ok key then fst (admit_circuit config now c) else c)"

lemma circuit_at_update [simp]:
  "circuit_at (h\<lparr>hs_circuits := AList.update key c (hs_circuits h)\<rparr>) k = (if k = key then c else circuit_at h k)"
  by (simp add: circuit_at_def update_conv')

lemma circuit_at_observations [simp]: "circuit_at (h\<lparr>hs_observations := os\<rparr>) k = circuit_at h k"
  by (simp add: circuit_at_def)

abbreviation ignored :: "scope \<Rightarrow> failure_type option \<Rightarrow> bool \<Rightarrow> bool" where
  "ignored key failure success \<equiv>
     \<not> scope_ok key \<or> (success \<and> failure \<noteq> None) \<or> failure \<in> {Some QUALITY_FAILURE, Some BUDGET_FAILURE}"

lemma observe_ignored: "ignored key failure success \<Longrightarrow> fst (observe h now key failure success state required latency) = h"
  unfolding observe_def Let_def by (auto split: if_splits)

lemma observe_recorded:
  assumes "\<not> ignored key failure success"
    and c: "c = observe_circuit (hs_config h) (fst key) failure success state now (circuit_at h key)"
  shows "observe h now key failure success state required latency =
    (case derived_state (fst key) (cc_state c) failure success state required of
       None \<Rightarrow> (h\<lparr>hs_circuits := AList.update key c (hs_circuits h)\<rparr>, Inl ValueError)
     | Some d \<Rightarrow>
         let o' = recorded_observation (hs_config h) now key c d (map_of (hs_observations h) key) failure success
               state required latency
         in (h\<lparr>hs_circuits := AList.update key c (hs_circuits h), hs_observations := AList.update key o' (hs_observations h)\<rparr>,
             Inr o'))"
proof -
  from assms(1) have n: "\<not> (\<not> scope_ok key \<or> (success \<and> failure \<noteq> None))"
    "\<not> failure \<in> {Some QUALITY_FAILURE, Some BUDGET_FAILURE}" by blast+
  show ?thesis unfolding observe_def Let_def if_not_P [OF n(1)] if_not_P [OF n(2)] c by (rule refl)
qed

lemma observe_effect:
  "hs_config (fst (observe h now key failure success state required latency)) = hs_config h
   \<and> hs_missing_observed_at (fst (observe h now key failure success state required latency)) = hs_missing_observed_at h
   \<and> hs_circuits (fst (observe h now key failure success state required latency)) =
     (if \<not> scope_ok key \<or> (success \<and> failure \<noteq> None) \<or> failure \<in> {Some QUALITY_FAILURE, Some BUDGET_FAILURE}
      then hs_circuits h
      else AList.update key (observe_circuit (hs_config h) (fst key) failure success state now (circuit_at h key))
        (hs_circuits h))"
proof (cases "ignored key failure success")
  case True
  then show ?thesis by (simp add: observe_ignored del: de_Morgan_disj)
next
  case False
  let ?c = "observe_circuit (hs_config h) (fst key) failure success state now (circuit_at h key)"
  show ?thesis
    unfolding observe_recorded [OF False refl] if_not_P [OF False]
    by (cases "derived_state (fst key) (cc_state ?c) failure success state required") (simp_all add: Let_def)
qed

lemma health_step_circuit:
  "circuit_at (health_step h ev) k =
     (if k = event_scope ev then circuit_step (hs_config h) (circuit_at h k) ev else circuit_at h k)"
proof (cases ev)
  case (Observe_event now key failure success state required latency)
  then show ?thesis
    using observe_effect [of h now key failure success state required latency]
    by (auto simp: circuit_at_def update_conv')
next
  case (Admit_event now key)
  then show ?thesis by (simp add: admit_probe_def case_prod_beta circuit_at_def update_conv')
qed

lemma health_step_config [simp]: "hs_config (health_step h ev) = hs_config h"
  by (cases ev) (simp_all add: observe_effect admit_probe_def case_prod_beta)

lemma health_run_config [simp]: "hs_config (health_run h evs) = hs_config h"
  by (induction evs arbitrary: h) (simp_all add: health_run_def)

lemma health_run_Cons: "health_run h (ev # evs) = health_run (health_step h ev) evs"
  by (simp add: health_run_def)

lemma circuit_step_ok:
  "health_config_ok config \<Longrightarrow> circuit_ok config c \<Longrightarrow> circuit_ok config (circuit_step config c ev)"
  by (cases ev) (simp_all add: observe_circuit_ok admit_circuit_ok)

lemma reachable_config: "reachable config h \<Longrightarrow> hs_config h = config"
  by (induction rule: reachable.induct) (simp_all add: new_health_service_def)

lemma reachable_circuit_ok:
  assumes "reachable config h" and "health_config_ok config"
  shows "circuit_ok config (circuit_at h key)"
  using assms
proof (induction rule: reachable.induct)
  case (start now)
  then show ?case by (simp add: new_health_service_def circuit_at_def new_circuit_ok)
next
  case (step h ev)
  then show ?case by (auto simp: health_step_circuit reachable_config circuit_step_ok)
qed

lemma reachable_run: "reachable config h \<Longrightarrow> reachable config (health_run h evs)"
  by (induction evs arbitrary: h) (simp_all add: health_run_def reachable.step)

text \<open>Scopes do not interfere.\<close>

lemma health_run_other:
  "(\<And>ev. ev \<in> set evs \<Longrightarrow> event_scope ev \<noteq> key) \<Longrightarrow> circuit_at (health_run h evs) key = circuit_at h key"
  by (induction evs arbitrary: h) (auto simp: health_run_def health_step_circuit)

section \<open>Cooldown\<close>

lemma circuit_step_open:
  assumes "circuit_ok config c" and "cc_state c = Open" and "cc_opened_at c = Some t"
    and "event_time ev < t + ms (hc_cooldown_ms config)"
  shows "cc_state (circuit_step config c ev) = Open \<and> cc_opened_at (circuit_step config c ev) = Some t"
  using assms
  by (cases ev) (auto simp: observe_circuit_def admit_circuit_def awaits_probe_def traffic_result_def Let_def)

text \<open>No observation leaves the open state, at any time.\<close>

lemma observe_open:
  assumes "cc_state c = Open"
  shows "cc_state (observe_circuit config component failure success state now c) = Open
    \<and> cc_opened_at (observe_circuit config component failure success state now c) = cc_opened_at c"
  using assms by (auto simp: observe_circuit_def awaits_probe_def traffic_result_def Let_def)

lemma open_until_cooldown:
  assumes c: "health_config_ok config" and h: "reachable config h"
    and o: "cc_state (circuit_at h key) = Open" "cc_opened_at (circuit_at h key) = Some t"
    and early: "\<And>ev. ev \<in> set evs \<Longrightarrow> event_time ev < t + ms (hc_cooldown_ms config)"
  shows "cc_state (circuit_at (health_run h evs) key) = Open"
proof -
  have "cc_state (circuit_at (health_run h evs) key) = Open \<and> cc_opened_at (circuit_at (health_run h evs) key) = Some t"
    using h o early
  proof (induction evs arbitrary: h)
    case (Cons ev evs)
    have "cc_state (circuit_at (health_step h ev) key) = Open
        \<and> cc_opened_at (circuit_at (health_step h ev) key) = Some t"
      using circuit_step_open [OF reachable_circuit_ok [OF Cons.prems(1) c], of key t ev] Cons.prems
      by (auto simp: health_step_circuit reachable_config)
    then show ?case
      unfolding health_run_Cons using Cons.prems(4)
      by (intro Cons.IH) (auto intro: reachable.step [OF Cons.prems(1)])
  qed (simp add: health_run_def)
  then show ?thesis ..
qed

end
