(* ===== verification/HealthFacts.thy ===== *)
theory HealthFacts
  imports Health
begin

text \<open>
  What the health service guarantees over whole runs: a circuit that was opened closes only after
  enough admitted probes and enough successes, and a run of successful probes after the cooldown
  always closes it; evidence is usable only while it is fresh and its circuit closed; the
  projection onto a routing environment only ever restricts it; probe runs stay within the
  configured number and the declared budget.
\<close>

section \<open>Recovery needs probes\<close>

definition counted_successes :: "health_config \<Rightarrow> circuit \<Rightarrow> nat" where
  "counted_successes config c = (if cc_state c = Half_open then cc_recovery_successes c else 0)"

definition counted_probes :: "circuit \<Rightarrow> nat" where
  "counted_probes c = (if cc_state c = Half_open then cc_recovery_successes c + cc_pending_probes c else 0)"

fun success_event :: "scope \<Rightarrow> health_event \<Rightarrow> bool" where
  "success_event k (Observe_event now key failure success state required latency) = (key = k \<and> success)"
| "success_event k (Admit_event now key) = False"

fun admit_event :: "scope \<Rightarrow> health_event \<Rightarrow> bool" where
  "admit_event k (Observe_event now key failure success state required latency) = False"
| "admit_event k (Admit_event now key) = (key = k)"

text \<open>One observation or admission moves these two counts by at most one.\<close>

lemma observe_circuit_counts:
  assumes "circuit_ok config c" and "cc_state c \<noteq> Closed"
  assumes c'_def: "c' = observe_circuit config component failure success state now c"
  shows "cc_state c' = Closed \<Longrightarrow> success \<and> hc_recovery_success_threshold config \<le> cc_recovery_successes c + 1
           \<and> hc_recovery_success_threshold config \<le> counted_probes c"
    and "cc_state c' \<noteq> Closed \<Longrightarrow>
      counted_successes config c' \<le> counted_successes config c + of_bool success \<and> counted_probes c' \<le> counted_probes c"
proof -
  consider (probe) "awaits_probe c" | (idle) "\<not> awaits_probe c" "cc_state c = Half_open" | (opened) "cc_state c = Open"
    using assms(2) by (cases "cc_state c") auto
  then have "(cc_state c' = Closed \<longrightarrow> success \<and> hc_recovery_success_threshold config \<le> cc_recovery_successes c + 1
           \<and> hc_recovery_success_threshold config \<le> counted_probes c)
    \<and> (cc_state c' \<noteq> Closed \<longrightarrow>
      counted_successes config c' \<le> counted_successes config c + of_bool success \<and> counted_probes c' \<le> counted_probes c)"
  proof cases
    case probe
    then show ?thesis
      by (auto simp: c'_def observe_circuit_def probe_result_def Let_def awaits_probe_def counted_successes_def counted_probes_def)
  next
    case idle
    then show ?thesis
      by (auto simp: c'_def observe_circuit_def traffic_result_def Let_def counted_successes_def counted_probes_def)
  next
    case opened
    then show ?thesis
      using observe_open [OF opened, of config component failure success state now]
      by (auto simp: c'_def counted_successes_def counted_probes_def)
  qed
  then show "cc_state c' = Closed \<Longrightarrow> success \<and> hc_recovery_success_threshold config \<le> cc_recovery_successes c + 1
           \<and> hc_recovery_success_threshold config \<le> counted_probes c"
    and "cc_state c' \<noteq> Closed \<Longrightarrow>
      counted_successes config c' \<le> counted_successes config c + of_bool success \<and> counted_probes c' \<le> counted_probes c"
    by blast+
qed

lemma admit_circuit_counts:
  assumes "circuit_ok config c" and "cc_state c \<noteq> Closed"
  assumes c'_def: "c' = fst (admit_circuit config now c)"
  shows "cc_state c' \<noteq> Closed" and "counted_successes config c' = counted_successes config c"
    and "counted_probes c' \<le> counted_probes c + 1"
  using assms(1,2)
  by (auto simp: c'_def admit_circuit_def Let_def circuit_ok_def counted_successes_def counted_probes_def
      split: circuit_state.splits option.splits)

lemma circuit_step_counts:
  assumes "circuit_ok config c" and "cc_state c \<noteq> Closed" and k: "event_scope ev = k"
  shows "cc_state (circuit_step config c ev) = Closed \<Longrightarrow> success_event k ev
      \<and> hc_recovery_success_threshold config \<le> cc_recovery_successes c + 1 \<and> cc_state c = Half_open
      \<and> hc_recovery_success_threshold config \<le> counted_probes c"
    and "cc_state (circuit_step config c ev) \<noteq> Closed \<Longrightarrow>
      counted_successes config (circuit_step config c ev) \<le> counted_successes config c + of_bool (success_event k ev)
      \<and> counted_probes (circuit_step config c ev) \<le> counted_probes c + of_bool (admit_event k ev)"
proof -
  have "(cc_state (circuit_step config c ev) = Closed \<longrightarrow> success_event k ev
      \<and> hc_recovery_success_threshold config \<le> cc_recovery_successes c + 1 \<and> cc_state c = Half_open
      \<and> hc_recovery_success_threshold config \<le> counted_probes c)
    \<and> (cc_state (circuit_step config c ev) \<noteq> Closed \<longrightarrow>
      counted_successes config (circuit_step config c ev) \<le> counted_successes config c + of_bool (success_event k ev)
      \<and> counted_probes (circuit_step config c ev) \<le> counted_probes c + of_bool (admit_event k ev))"
  proof (cases ev)
    case (Observe_event now key failure success state required latency)
    have "cc_state c = Half_open"
      if "cc_state (observe_circuit config (fst key) failure success state now c) = Closed"
      using that observe_open [of c] assms(2) by (cases "cc_state c") auto
    then show ?thesis
      using observe_circuit_counts [OF assms(1,2) refl, of "fst key" failure success state now] assms(2) k Observe_event
      by auto
  next
    case (Admit_event now key)
    then show ?thesis
      using admit_circuit_counts [OF assms(1,2) refl, of now] assms(2) k by auto
  qed
  then show "cc_state (circuit_step config c ev) = Closed \<Longrightarrow> success_event k ev
      \<and> hc_recovery_success_threshold config \<le> cc_recovery_successes c + 1 \<and> cc_state c = Half_open
      \<and> hc_recovery_success_threshold config \<le> counted_probes c"
    and "cc_state (circuit_step config c ev) \<noteq> Closed \<Longrightarrow>
      counted_successes config (circuit_step config c ev) \<le> counted_successes config c + of_bool (success_event k ev)
      \<and> counted_probes (circuit_step config c ev) \<le> counted_probes c + of_bool (admit_event k ev)"
    by blast+
qed

abbreviation count_events :: "(health_event \<Rightarrow> bool) \<Rightarrow> health_event list \<Rightarrow> nat" where
  "count_events P evs \<equiv> length (filter P evs)"

lemma recovery_needs_probes:
  assumes c: "health_config_ok config" and "reachable config h"
    and "cc_state (circuit_at h k) \<noteq> Closed" and "cc_state (circuit_at (health_run h evs) k) = Closed"
  shows "hc_recovery_success_threshold config
      \<le> counted_successes config (circuit_at h k) + count_events (success_event k) evs
    \<and> hc_recovery_success_threshold config \<le> counted_probes (circuit_at h k) + count_events (admit_event k) evs"
  using assms(2-4)
proof (induction evs arbitrary: h)
  case Nil
  then show ?case by (simp add: health_run_def)
next
  case (Cons ev evs)
  note ok = reachable_circuit_ok [OF Cons.prems(1) c, of k]
  note config = reachable_config [OF Cons.prems(1)]
  let ?h = "health_step h ev"
  have r: "reachable config ?h" by (rule reachable.step [OF Cons.prems(1)])
  show ?case
  proof (cases "event_scope ev = k")
    case False
    then have at: "circuit_at ?h k = circuit_at h k" using health_step_circuit [of h ev k] by auto
    from False have "\<not> success_event k ev" "\<not> admit_event k ev" by (cases ev; simp)+
    moreover have "cc_state (circuit_at (health_run ?h evs) k) = Closed" using Cons.prems(3) by (simp add: health_run_Cons)
    ultimately show ?thesis using Cons.IH [OF r] Cons.prems(2) by (simp add: at)
  next
    case True
    then have at: "circuit_at ?h k = circuit_step config (circuit_at h k) ev"
      by (simp add: health_step_circuit config)
    note counts = circuit_step_counts [OF ok Cons.prems(2) True]
    show ?thesis
    proof (cases "cc_state (circuit_at ?h k) = Closed")
      case closed: True
      with counts(1) at have "success_event k ev" "cc_state (circuit_at h k) = Half_open"
        "hc_recovery_success_threshold config \<le> cc_recovery_successes (circuit_at h k) + 1"
        "hc_recovery_success_threshold config \<le> counted_probes (circuit_at h k)" by auto
      then show ?thesis by (simp add: counted_successes_def)
    next
      case False
      have "hc_recovery_success_threshold config
          \<le> counted_successes config (circuit_at ?h k) + count_events (success_event k) evs
        \<and> hc_recovery_success_threshold config \<le> counted_probes (circuit_at ?h k) + count_events (admit_event k) evs"
        by (rule Cons.IH [OF r False]) (use Cons.prems(3) in \<open>simp add: health_run_Cons\<close>)
      with counts(2) False show ?thesis by (auto simp: at)
    qed
  qed
qed


section \<open>Successful probes close the circuit\<close>

definition probe_round :: "scope \<Rightarrow> instant \<Rightarrow> health_event list" where
  "probe_round key t = [Admit_event t key, Observe_event t key None True None True None]"

lemma circuit_round:
  assumes ok: "health_config_ok config" and k: "scope_ok key"
    and half: "(cc_state c = Open \<and> cc_opened_at c = Some t0 \<and> t0 + ms (hc_cooldown_ms config) \<le> t \<and> n = 0)
      \<or> (cc_state c = Half_open \<and> cc_pending_probes c = 0 \<and> cc_admitted_probes c = n \<and> cc_recovery_successes c = n)"
    and n: "n < hc_recovery_success_threshold config"
  defines "c' \<equiv> circuit_step config (circuit_step config c (Admit_event t key)) (Observe_event t key None True None True None)"
  shows "if n + 1 = hc_recovery_success_threshold config then cc_state c' = Closed
    else cc_state c' = Half_open \<and> cc_pending_probes c' = 0 \<and> cc_admitted_probes c' = n + 1 \<and> cc_recovery_successes c' = n + 1"
proof -
  have max: "n < hc_half_open_max_probes config" using ok n by (simp add: health_config_ok_def)
  define d where "d = circuit_step config c (Admit_event t key)"
  have d: "cc_state d = Half_open \<and> cc_pending_probes d = 1 \<and> cc_admitted_probes d = n + 1 \<and> cc_recovery_successes d = n"
    using half
  proof
    assume "cc_state c = Open \<and> cc_opened_at c = Some t0 \<and> t0 + ms (hc_cooldown_ms config) \<le> t \<and> n = 0"
    then show ?thesis using k max by (simp add: d_def admit_circuit_def Let_def)
  next
    assume "cc_state c = Half_open \<and> cc_pending_probes c = 0 \<and> cc_admitted_probes c = n \<and> cc_recovery_successes c = n"
    then show ?thesis using k max by (simp add: d_def admit_circuit_def Let_def)
  qed
  have c': "c' = observe_circuit config (fst key) None True None t d"
    using k unfolding c'_def d_def [symmetric] by simp
  show ?thesis
    using d n unfolding c' by (auto simp: observe_circuit_def awaits_probe_def probe_result_def Let_def)
qed

lemma circuit_at_round:
  "circuit_at (health_run h (probe_round key t)) key =
     circuit_step (hs_config h) (circuit_step (hs_config h) (circuit_at h key) (Admit_event t key))
       (Observe_event t key None True None True None)"
  by (simp add: probe_round_def health_run_def health_step_circuit del: circuit_step.simps health_step.simps)

lemma health_run_append: "health_run h (xs @ ys) = health_run (health_run h xs) ys"
  by (simp add: health_run_def)

lemma health_run_Nil [simp]: "health_run h [] = h"
  by (simp add: health_run_def)

lemma half_open_recovers:
  assumes ok: "health_config_ok config" and h: "hs_config h = config" and k: "scope_ok key"
    and half: "cc_state (circuit_at h key) = Half_open" "cc_pending_probes (circuit_at h key) = 0"
      "cc_admitted_probes (circuit_at h key) = n" "cc_recovery_successes (circuit_at h key) = n"
    and n: "n + length ts = hc_recovery_success_threshold config" "ts \<noteq> []"
  shows "cc_state (circuit_at (health_run h (concat (map (probe_round key) ts))) key) = Closed"
  using h half n
proof (induction ts arbitrary: h n)
  case (Cons t ts)
  let ?h = "health_run h (probe_round key t)"
  have "if n + 1 = hc_recovery_success_threshold config then cc_state (circuit_at ?h key) = Closed
    else cc_state (circuit_at ?h key) = Half_open \<and> cc_pending_probes (circuit_at ?h key) = 0
      \<and> cc_admitted_probes (circuit_at ?h key) = n + 1 \<and> cc_recovery_successes (circuit_at ?h key) = n + 1"
    unfolding circuit_at_round Cons.prems(1)
    by (rule circuit_round [OF ok k]) (use Cons.prems in auto)
  note round = this
  show ?case
  proof (cases "ts = []")
    case True
    then show ?thesis using round Cons.prems by simp
  next
    case False
    then have ne: "n + 1 \<noteq> hc_recovery_success_threshold config" using Cons.prems(6) by (cases ts) auto
    have "cc_state (circuit_at (health_run ?h (concat (map (probe_round key) ts))) key) = Closed"
      by (rule Cons.IH [of ?h "n + 1"]) (use round ne Cons.prems False in auto)
    then show ?thesis by (simp add: health_run_append)
  qed
qed simp

lemma open_recovers:
  assumes ok: "health_config_ok config" and h: "reachable config h" and k: "scope_ok key"
    and op: "cc_state (circuit_at h key) = Open" "cc_opened_at (circuit_at h key) = Some t0"
    and n: "length ts = hc_recovery_success_threshold config" and late: "t0 + ms (hc_cooldown_ms config) \<le> hd ts"
  shows "cc_state (circuit_at (health_run h (concat (map (probe_round key) ts))) key) = Closed"
proof -
  note config = reachable_config [OF h]
  have "0 < hc_recovery_success_threshold config" using ok by (simp add: health_config_ok_def)
  then obtain t rest where ts: "ts = t # rest" using n by (cases ts) auto
  let ?h = "health_run h (probe_round key t)"
  have r: "if 0 + 1 = hc_recovery_success_threshold config then cc_state (circuit_at ?h key) = Closed
    else cc_state (circuit_at ?h key) = Half_open \<and> cc_pending_probes (circuit_at ?h key) = 0
      \<and> cc_admitted_probes (circuit_at ?h key) = 0 + 1 \<and> cc_recovery_successes (circuit_at ?h key) = 0 + 1"
    unfolding circuit_at_round config
    by (rule circuit_round [OF ok k, of _ t0]) (use op late ts \<open>0 < hc_recovery_success_threshold config\<close> in auto)
  show ?thesis
  proof (cases "rest = []")
    case True
    then show ?thesis using r n ts by (simp add: health_run_def)
  next
    case False
    then have "0 + 1 \<noteq> hc_recovery_success_threshold config" using n ts by (cases rest) auto
    with r have half: "cc_state (circuit_at ?h key) = Half_open" "cc_pending_probes (circuit_at ?h key) = 0"
      "cc_admitted_probes (circuit_at ?h key) = 1" "cc_recovery_successes (circuit_at ?h key) = 1" by simp_all
    have "cc_state (circuit_at (health_run ?h (concat (map (probe_round key) rest))) key) = Closed"
      by (rule half_open_recovers [OF ok _ k half]) (use n ts False config in auto)
    then show ?thesis by (simp add: ts health_run_append)
  qed
qed

section \<open>Fresh evidence\<close>

lemma available_view:
  assumes "available_observation (view h (Some o') key now required)"
  shows "ob_check_status o' = Check_observed" and "\<not> stale o' now"
    and "(case map_of (hs_circuits h) key of None \<Rightarrow> ob_circuit_state o' | Some c \<Rightarrow> cc_state c) = Closed"
    and "ob_state o' \<in> {HEALTHY, DEGRADED}"
  using assms by (auto simp: available_observation_def view_def Let_def split: if_splits)

lemma missing_unavailable: "\<not> available_observation (missing_observation h key now required)"
  by (simp add: available_observation_def missing_observation_def Let_def)

text \<open>What every stored observation satisfies.\<close>

definition observation_ok :: "health_config \<Rightarrow> scope \<Rightarrow> observation \<Rightarrow> bool" where
  "observation_ok config key o' = ((ob_component o', ob_model o', ob_capability o') = key
     \<and> ob_valid_until o' = ob_observed_at o' + ms (hc_freshness_ms config)
     \<and> ob_check_status o' \<in> {Check_observed, Check_disabled}
     \<and> ob_failure o' \<noteq> Some QUALITY_FAILURE \<and> ob_failure o' \<noteq> Some BUDGET_FAILURE)"

lemma observe_observations:
  "hs_observations (fst (observe h now key failure success state required latency)) = hs_observations h
   \<or> (\<exists>o'. observation_ok (hs_config h) key o' \<and> ob_observed_at o' = now
        \<and> hs_observations (fst (observe h now key failure success state required latency))
            = AList.update key o' (hs_observations h))"
proof (cases "ignored key failure success")
  case True
  then show ?thesis using observe_ignored by simp
next
  case False
  let ?c = "observe_circuit (hs_config h) (fst key) failure success state now (circuit_at h key)"
  show ?thesis
  proof (cases "derived_state (fst key) (cc_state ?c) failure success state required")
    case None
    then show ?thesis unfolding observe_recorded [OF False refl] by simp
  next
    case (Some d)
    let ?o = "recorded_observation (hs_config h) now key ?c d (map_of (hs_observations h) key) failure success
      state required latency"
    have "hs_observations (fst (observe h now key failure success state required latency))
        = AList.update key ?o (hs_observations h)"
      unfolding observe_recorded [OF False refl] Some by (simp add: Let_def)
    moreover have "observation_ok (hs_config h) key ?o \<and> ob_observed_at ?o = now"
      using False by (auto simp: observation_ok_def recorded_observation_def)
    ultimately show ?thesis by blast
  qed
qed

lemma reachable_observation_ok:
  assumes "reachable config h" and "map_of (hs_observations h) key = Some o'"
  shows "observation_ok config key o'"
  using assms
proof (induction arbitrary: o' rule: reachable.induct)
  case (start now)
  then show ?case by (simp add: new_health_service_def)
next
  case (step h ev)
  note config = reachable_config [OF step.hyps]
  show ?case
  proof (cases ev)
    case (Observe_event now k failure success state required latency)
    from observe_observations [of h now k failure success state required latency]
    show ?thesis
    proof (elim disjE exE conjE)
      assume "hs_observations (fst (observe h now k failure success state required latency)) = hs_observations h"
      then show ?thesis using step Observe_event by simp
    next
      fix q
      assume q: "observation_ok (hs_config h) k q"
        and u: "hs_observations (fst (observe h now k failure success state required latency))
            = AList.update k q (hs_observations h)"
      have "map_of (AList.update k q (hs_observations h)) key = Some o'"
        using step.prems unfolding Observe_event health_step.simps u .
      then show ?thesis
        using step.IH q config by (cases "k = key") (auto simp: update_conv')
    qed
  next
    case (Admit_event now k)
    then show ?thesis using step by (simp add: admit_probe_def case_prod_beta split: if_splits)
  qed
qed

lemma available_fresh:
  assumes ok: "reachable config h" and av: "available h now key = Inr True"
  obtains o' where "map_of (hs_observations h) key = Some o'"
    and "ob_observed_at o' \<le> now" and "now < ob_observed_at o' + ms (hc_freshness_ms config)"
    and "ob_state o' \<in> {HEALTHY, DEGRADED}"
    and "map_of (hs_circuits h) key = Some c \<Longrightarrow> cc_state c = Closed"
proof -
  obtain o' where o': "map_of (hs_observations h) key = Some o'"
    "available_observation (view h (Some o') key now (ob_required o'))"
    using av by (auto simp: available_def split: if_splits option.splits)
  note v = available_view [OF o'(2)]
  have "observation_ok config key o'" by (rule reachable_observation_ok [OF ok o'(1)])
  then have "ob_valid_until o' = ob_observed_at o' + ms (hc_freshness_ms config)" by (simp add: observation_ok_def)
  with v(2) have t: "ob_observed_at o' \<le> now" "now < ob_observed_at o' + ms (hc_freshness_ms config)"
    by (auto simp: stale_def)
  show ?thesis by (rule that [OF o'(1) t v(4)]) (use v(3) in simp)
qed

section \<open>Projection\<close>

lemma projected_health_usable:
  "mh_usable (projected_health existing relevant) \<longleftrightarrow>
     mh_usable existing \<and> mh_state existing \<noteq> UNHEALTHY \<and> list_all available_observation relevant"
  by (simp add: projected_health_def Let_def)

lemma projected_health_access: "mh_account_access (projected_health existing relevant) = mh_account_access existing"
  by (simp add: projected_health_def Let_def)

lemma projected_health_state:
  "mh_state (projected_health existing relevant) = (if \<not> mh_usable (projected_health existing relevant) then UNHEALTHY
     else if mh_state existing = DEGRADED \<or> list_ex (\<lambda>o'. ob_state o' = DEGRADED) relevant then DEGRADED else HEALTHY)"
  unfolding projected_health_usable by (simp add: projected_health_def Let_def)

lemma scoped_evidence_member:
  "\<exists>o' \<in> set (scoped_evidence h s alias cap). ob_component o' = ''provider'' \<and> ob_capability o' = Some cap
    \<and> (ob_model o' = None \<or> ob_model o' = Some alias)"
proof (cases "filter (provider_scope alias (Some cap)) (sn_observations s)")
  case Nil
  then show ?thesis
    by (simp add: scoped_evidence_def missing_provider_def missing_observation_def Let_def)
next
  case (Cons o' rest)
  then have "o' \<in> set (filter (provider_scope alias (Some cap)) (sn_observations s))" by simp
  then have "provider_scope alias (Some cap) o'" by simp
  with Cons show ?thesis by (simp add: scoped_evidence_def provider_scope_def Let_def)
qed

text \<open>Evidence about every required capability takes part, missing evidence as unavailable.\<close>

lemma relevant_evidence_capability:
  assumes "cap \<in> set caps"
  shows "\<exists>o' \<in> set (relevant_evidence h s caps alias). ob_component o' = ''provider'' \<and> ob_capability o' = Some cap
    \<and> (ob_model o' = None \<or> ob_model o' = Some alias)"
proof -
  obtain o' where o': "o' \<in> set (scoped_evidence h s alias cap)" "ob_component o' = ''provider'' \<and> ob_capability o' = Some cap
    \<and> (ob_model o' = None \<or> ob_model o' = Some alias)"
    using scoped_evidence_member by blast
  with assms have "o' \<in> set (concat (map (scoped_evidence h s alias) caps))" by auto
  then have "o' \<in> set (relevant_evidence h s caps alias)"
    unfolding relevant_evidence_def Let_def by (auto split: if_splits)
  with o'(2) show ?thesis by blast
qed

lemma relevant_evidence_not_Nil: "relevant_evidence h s caps alias \<noteq> []"
  by (simp add: relevant_evidence_def Let_def)

lemma apply_health_Inr:
  assumes "apply_health digest h now env caps given = Inr env'"
  obtains s where "given_snapshot digest h now given = Inr s"
    and "env_models env' = map (\<lambda>(alias, existing). (alias, projected_health existing
          (relevant_evidence h s (sort (remdups caps)) alias))) (env_models env)"
    and "env' = env\<lparr>env_models := env_models env', env_health_snapshot_id := env_health_snapshot_id env',
          env_health_observed_at := env_health_observed_at env', env_health_valid_until := env_health_valid_until env'\<rparr>"
  using assms by (auto simp: apply_health_def bind_res_Inr_iff Let_def)

lemma map_of_map_value: "map_of (map (\<lambda>(k, v). (k, f k v)) xs) k = map_option (f k) (map_of xs k)"
  by (induction xs) auto

lemma apply_health_models:
  assumes "apply_health digest h now env caps given = Inr env'"
  obtains s where "given_snapshot digest h now given = Inr s"
    and "\<And>alias. map_of (env_models env') alias = map_option (\<lambda>existing. projected_health existing
          (relevant_evidence h s (sort (remdups caps)) alias)) (map_of (env_models env) alias)"
  by (rule apply_health_Inr [OF assms]) (simp add: map_of_map_value that)

lemma apply_health_environment_ok:
  assumes "apply_health digest h now env caps given = Inr env'" and "environment_ok env"
  shows "environment_ok env'"
proof (rule apply_health_Inr [OF assms(1)])
  fix s
  assume m: "env_models env' = map (\<lambda>(alias, existing). (alias, projected_health existing
          (relevant_evidence h s (sort (remdups caps)) alias))) (env_models env)"
    and e: "env' = env\<lparr>env_models := env_models env', env_health_snapshot_id := env_health_snapshot_id env',
          env_health_observed_at := env_health_observed_at env', env_health_valid_until := env_health_valid_until env'\<rparr>"
  have "map fst (env_models env') = map fst (env_models env)" by (auto simp: m)
  with assms(2) show ?thesis by (subst e) (simp add: environment_ok_def)
qed

section \<open>Readiness\<close>

lemma ordered_blockers_set [simp]: "set (ordered_blockers bs) = set bs"
  by (simp add: ordered_blockers_def)

lemma ordered_blockers_Nil [simp]: "ordered_blockers bs = [] \<longleftrightarrow> bs = []"
  by (metis ordered_blockers_set set_empty)

lemma readiness_of_ready: "hr_ready (readiness_of bs d) \<longleftrightarrow> bs = []"
  by (simp add: readiness_of_def)

lemma readiness_of_blockers: "set (hr_blockers (readiness_of bs d)) = set bs"
  by (simp add: readiness_of_def)

lemma dependency_of_ready:
  "hr_ready (dependency_of config obs) \<longleftrightarrow>
     (\<forall>component \<in> set (hc_required_components config). \<exists>o'. by_component obs component = Some o' \<and> available_observation o')"
  by (auto simp: dependency_of_def readiness_of_ready component_blockers_def split: option.splits if_splits)

section \<open>Probe runs\<close>

lemma probe_one_reachable:
  assumes "reachable config h"
  shows "reachable config (fst (probe_one run clock p tick h))"
proof -
  have admit: "reachable config (fst (admit_probe h t k))" for t k
    using reachable.step [OF assms, of "Admit_event t k"] by simp
  have obs: "reachable config (fst (observe g t k f s st r l))" if "reachable config g" for g t k f s st r l
    using reachable.step [OF that, of "Observe_event t k f s st r l"] by simp
  define gated where "gated = (case map_of (hs_circuits h) (probe_key p) of None \<Rightarrow> False | Some c \<Rightarrow> cc_state c \<noteq> Closed)"
  obtain h1 adm where one: "(if gated then admit_probe h (clock tick) (probe_key p) else (h, Inr True)) = (h1, adm)" by force
  have r1: "reachable config h1" using one admit [of "clock tick" "probe_key p"] assms by (auto split: if_splits)
  show ?thesis
    unfolding probe_one_def gated_def [symmetric] Let_def one prod.case
    by (cases adm) (auto simp: r1 obs case_prod_beta)
qed

lemma probe_batch_reachable:
  "reachable config h \<Longrightarrow> reachable config (fst (probe_batch run clock ps tick h acc))"
proof (induction ps arbitrary: tick h acc)
  case (Cons p ps)
  obtain h' tick' r where one: "probe_one run clock p tick h = (h', tick', r)" by (metis prod_cases3)
  have "reachable config h'" using probe_one_reachable [OF Cons.prems, of run clock p tick] one by simp
  with Cons.IH one show ?case by (auto split: sum.splits option.splits)
qed simp

lemma probe_batch_length:
  "probe_batch run clock ps tick h acc = (h', Inr os) \<Longrightarrow> length os \<le> length acc + length ps"
proof (induction ps arbitrary: tick h acc)
  case (Cons p ps)
  obtain h1 tick1 r where one: "probe_one run clock p tick h = (h1, tick1, r)" by (metis prod_cases3)
  from Cons.prems one show ?case by (auto split: sum.splits option.splits dest!: Cons.IH)
qed simp

lemma run_probes_bounds:
  assumes "run_probes run clock h probes authorized cap_usd = (h', Inr os)"
  shows "length os \<le> hc_max_probes_per_run (hs_config h)"
    and "\<not> hc_live_probes_enabled (hs_config h) \<or> \<not> authorized \<Longrightarrow> h' = h \<and> os = []"
  using assms
  by (auto simp: run_probes_def Let_def split: if_splits sum.splits dest!: probe_batch_length)

lemma run_probes_reachable:
  "reachable config h \<Longrightarrow> reachable config (fst (run_probes run clock h probes authorized cap_usd))"
  by (simp add: run_probes_def Let_def probe_batch_reachable split: sum.splits)

end
