(* ===== verification/HealthClaims.thy ===== *)
theory HealthClaims
  imports Samples HealthFacts
begin

text \<open>
  The properties of the health service, with a sample configuration and its witnesses, and the one
  that connects it to routing.
\<close>

definition sample_health_config :: health_config where
  "sample_health_config = \<lparr>hc_version = ''health-1'', hc_freshness_ms = 3, hc_failure_window_ms = 2,
     hc_failure_threshold = 2, hc_cooldown_ms = 2, hc_half_open_max_probes = 2, hc_recovery_success_threshold = 2,
     hc_max_probes_per_run = 2, hc_probe_timeout_ms = 1, hc_live_probes_enabled = False,
     hc_required_components = [''storage'']\<rparr>"

definition luna_scope :: scope where
  "luna_scope = (''provider'', Some ''luna'', None)"

text \<open>A service on which the provider failed twice within the window.\<close>

definition tripped_service :: health_service where
  "tripped_service = health_run (new_health_service sample_health_config 0)
     [Observe_event 10 luna_scope (Some TIMEOUT) False None True None,
      Observe_event 20 luna_scope (Some RATE_LIMIT) False None True None]"

lemma sample_health_config_ok: "health_config_ok sample_health_config"
  by code_simp

lemma tripped_reachable: "reachable sample_health_config tripped_service"
  unfolding tripped_service_def by (rule reachable_run) (rule reachable.start)

lemma tripped_open:
  "cc_state (circuit_at tripped_service luna_scope) = Open"
  "cc_opened_at (circuit_at tripped_service luna_scope) = Some 20"
  by code_simp+

lemma luna_scope_ok: "scope_ok luna_scope"
  by code_simp

text \<open>
  C38. The breaker's invariant holds in every reachable state of the service: a closed circuit has
  seen fewer failures than the threshold in its window and holds no probe; an open one knows when
  it was opened and has admitted none; a half-open one has admitted at most the configured number
  of probes, each of which is pending, counted as a success or lost, and not yet enough successes.
\<close>

theorem breaker_invariant:
  fixes key :: scope
  assumes "health_config_ok config" and "reachable config h"
  defines "c \<equiv> circuit_at h key"
  shows "case cc_state c of
      Closed \<Rightarrow> length (cc_failures c) < hc_failure_threshold config \<and> cc_opened_at c = None
        \<and> cc_admitted_probes c = 0 \<and> cc_pending_probes c = 0 \<and> cc_recovery_successes c = 0
    | Open \<Rightarrow> cc_opened_at c \<noteq> None \<and> cc_admitted_probes c = 0 \<and> cc_pending_probes c = 0
        \<and> cc_recovery_successes c = 0
    | Half_open \<Rightarrow> cc_opened_at c \<noteq> None \<and> 0 < cc_admitted_probes c
        \<and> cc_recovery_successes c + cc_pending_probes c \<le> cc_admitted_probes c
        \<and> cc_admitted_probes c \<le> hc_half_open_max_probes config
        \<and> cc_recovery_successes c < hc_recovery_success_threshold config"
  using reachable_circuit_ok [OF assms(2,1), of key]
  unfolding c_def circuit_ok_def by (simp split: circuit_state.splits)

theorem breaker_invariant_witness:
  "cc_opened_at (circuit_at tripped_service luna_scope) \<noteq> None"
  using breaker_invariant [OF sample_health_config_ok tripped_reachable, of luna_scope]
  by (simp add: tripped_open(1))

text \<open>
  An open circuit stays open for the whole cooldown: whatever is observed and whatever probes
  are requested, on this or any other scope, as long as every clock reading is before the end of
  the cooldown.
\<close>

theorem open_circuit_waits:
  assumes "health_config_ok config" and "reachable config h"
    and "cc_state (circuit_at h key) = Open" and "cc_opened_at (circuit_at h key) = Some t"
    and "\<forall>ev \<in> set evs. event_time ev < t + ms (hc_cooldown_ms config)"
  shows "cc_state (circuit_at (health_run h evs) key) = Open"
  using open_until_cooldown [OF assms(1-4)] assms(5) by blast

theorem open_circuit_waits_witness:
  "cc_state (circuit_at (health_run tripped_service
     [Admit_event 30 luna_scope, Observe_event 40 luna_scope None True None True None]) luna_scope) = Open"
  by (rule open_circuit_waits [OF sample_health_config_ok tripped_reachable tripped_open])
    (simp add: sample_health_config_def ms_def)

text \<open>
  C39. An open circuit never closes by itself: in any run from an open circuit to a closed one there
  are at least as many requests for a probe on that scope, and at least as many successful
  observations of it, as the configured recovery threshold.
\<close>

theorem closing_needs_probes:
  assumes "health_config_ok config" and "reachable config h" and o: "cc_state (circuit_at h key) = Open"
    and "cc_state (circuit_at (health_run h evs) key) = Closed"
  shows "hc_recovery_success_threshold config \<le> length (filter (admit_event key) evs)
     \<and> hc_recovery_success_threshold config \<le> length (filter (success_event key) evs)"
proof -
  have "cc_state (circuit_at h key) \<noteq> Closed" using o by simp
  from recovery_needs_probes [OF assms(1,2) this assms(4)] o show ?thesis
    by (simp add: counted_successes_def counted_probes_def)
qed

theorem closing_needs_probes_witness:
  "hc_recovery_success_threshold sample_health_config \<le> length (filter (admit_event luna_scope)
     (concat (map (probe_round luna_scope) [2020, 2030])))"
proof -
  have "cc_state (circuit_at (health_run tripped_service (concat (map (probe_round luna_scope) [2020, 2030]))) luna_scope)
      = Closed" by code_simp
  from closing_needs_probes [OF sample_health_config_ok tripped_reachable tripped_open(1) this] show ?thesis ..
qed

text \<open>
  Recovery is always possible: after the cooldown, as many rounds of one admitted and
  successful probe as the recovery threshold demands close the circuit; the configured allowance of
  probes is always enough.
\<close>

theorem probes_close_circuit:
  assumes "health_config_ok config" and "reachable config h" and "scope_ok key"
    and "cc_state (circuit_at h key) = Open" and "cc_opened_at (circuit_at h key) = Some t"
    and "length ts = hc_recovery_success_threshold config" and "t + ms (hc_cooldown_ms config) \<le> hd ts"
  shows "cc_state (circuit_at (health_run h (concat (map (probe_round key) ts))) key) = Closed"
  by (rule open_recovers [OF assms])

theorem probes_close_circuit_witness:
  "cc_state (circuit_at (health_run tripped_service (concat (map (probe_round luna_scope) [2020, 2030]))) luna_scope)
     = Closed"
  by (rule probes_close_circuit [OF sample_health_config_ok tripped_reachable luna_scope_ok tripped_open])
    (simp_all add: sample_health_config_def ms_def)




end
