(* ===== verification/TaskContracts.thy ===== *)
theory TaskContracts
  imports Recovery Health
begin

text \<open>
  The records of one execution: the provider contracts of \<^verbatim>\<open>core/provider_contracts.py\<close>, the
  attempts, tool outcomes, events and the task of \<^verbatim>\<open>core/execution_contracts.py\<close>, and the lifecycle
  of tasks and attempts in \<^verbatim>\<open>execution/lifecycle.py\<close>. Fields that only the optional semantic
  evaluation or the shadow experiment writes have no counterpart, nor have the pinned configuration
  of those two. A latency (a float) is a rational. The lemmas say that a finished task never moves
  again and that a step of the lifecycle is one of the edges of its graph.
\<close>

section \<open>One provider invocation\<close>

datatype purpose = For_generation | For_classification | For_evaluation

datatype response_status =
    Response_completed | Response_failed | Response_in_progress | Response_cancelled
  | Response_queued | Response_incomplete

datatype failure_stage = Stage_preflight | Stage_invocation | Stage_normalization

primrec stage_name :: "failure_stage \<Rightarrow> string" where
  "stage_name Stage_preflight = ''preflight''"
| "stage_name Stage_invocation = ''invocation''"
| "stage_name Stage_normalization = ''normalization''"

record provider_request =
  pq_task_id :: string
  pq_trace_id :: string
  pq_invocation_id :: string
  pq_policy_version :: string
  pq_catalog_version :: string
  pq_model_alias :: string
  pq_provider_model_id :: string
  pq_reasoning_effort :: effort
  pq_input :: string
  pq_output_type :: "(dumped_model \<Rightarrow> bool) option"
  pq_max_output_tokens :: nat
  pq_timeout_ms :: nat
  pq_purpose :: purpose

record provider_usage =
  us_input_tokens :: "nat option"
  us_cached_input_tokens :: "nat option"
  us_cache_write_input_tokens :: "nat option"
  us_output_tokens :: "nat option"
  us_reasoning_tokens :: "nat option"
  us_total_tokens :: "nat option"

definition no_usage :: provider_usage where
  "no_usage = \<lparr>us_input_tokens = None, us_cached_input_tokens = None, us_cache_write_input_tokens = None,
     us_output_tokens = None, us_reasoning_tokens = None, us_total_tokens = None\<rparr>"

definition or_zero :: "nat option \<Rightarrow> nat" where
  "or_zero v = (case v of None \<Rightarrow> 0 | Some n \<Rightarrow> n)"

definition usage_ok :: "provider_usage \<Rightarrow> bool" where
  "usage_ok u =
     ((case us_input_tokens u of None \<Rightarrow> True
       | Some i \<Rightarrow> or_zero (us_cached_input_tokens u) + or_zero (us_cache_write_input_tokens u) \<le> i)
      \<and> (case (us_output_tokens u, us_reasoning_tokens u) of (Some out, Some r) \<Rightarrow> r \<le> out | _ \<Rightarrow> True)
      \<and> (case (us_input_tokens u, us_output_tokens u, us_total_tokens u) of
           (Some i, Some out, Some t) \<Rightarrow> i + out = t | _ \<Rightarrow> True))"

record provider_evidence =
  pe_task_id :: string
  pe_trace_id :: string
  pe_invocation_id :: string
  pe_policy_version :: string
  pe_catalog_version :: string
  pe_model_alias :: string
  pe_provider_model_id :: string
  pe_reasoning_effort :: effort
  pe_purpose :: purpose
  pe_response_id :: "string option"
  pe_response_status :: "response_status option"
  pe_returned_model_id :: "string option"
  pe_returned_service_tier :: "string option"
  pe_latency_ms :: rat
  pe_usage :: provider_usage

record provider_result = provider_evidence +
  ps_text :: "string option"
  ps_structured_output :: "dumped_model option"
  ps_incomplete_reason :: "string option"
  ps_refused :: bool

record provider_failure = provider_evidence +
  pf_failure_type :: failure_type
  pf_source :: failure_source
  pf_stage :: failure_stage
  pf_cause_code :: string
  pf_retryable :: bool
  pf_http_status :: "nat option"
  pf_request_id :: "string option"
  pf_retry_after_ms :: "nat option"
  pf_diagnostic_fields :: "string list"

datatype provider_outcome = Result provider_result | Provider_failed provider_failure

definition evidence_of :: "provider_outcome \<Rightarrow> provider_evidence" where
  "evidence_of out = (case out of Result r \<Rightarrow> provider_evidence.truncate r
     | Provider_failed f \<Rightarrow> provider_evidence.truncate f)"

text \<open>What an adapter returns must name the invocation it answers.\<close>

definition correlated :: "provider_request \<Rightarrow> provider_outcome \<Rightarrow> bool" where
  "correlated q out = (let e = evidence_of out in
     pe_task_id e = pq_task_id q \<and> pe_trace_id e = pq_trace_id q \<and> pe_invocation_id e = pq_invocation_id q
     \<and> pe_policy_version e = pq_policy_version q \<and> pe_catalog_version e = pq_catalog_version q
     \<and> pe_model_alias e = pq_model_alias q \<and> pe_provider_model_id e = pq_provider_model_id q
     \<and> pe_reasoning_effort e = pq_reasoning_effort q \<and> pe_purpose e = pq_purpose q)"

text \<open>A failure that the caller itself records for a request, with the evidence of the request.\<close>

definition adapter_failure :: "provider_request \<Rightarrow> failure_type \<Rightarrow> failure_stage \<Rightarrow> string \<Rightarrow> string list
    \<Rightarrow> provider_failure" where
  "adapter_failure q ft stage cause diagnostics =
     \<lparr>pe_task_id = pq_task_id q, pe_trace_id = pq_trace_id q, pe_invocation_id = pq_invocation_id q,
      pe_policy_version = pq_policy_version q, pe_catalog_version = pq_catalog_version q,
      pe_model_alias = pq_model_alias q, pe_provider_model_id = pq_provider_model_id q,
      pe_reasoning_effort = pq_reasoning_effort q, pe_purpose = pq_purpose q, pe_response_id = None,
      pe_response_status = None, pe_returned_model_id = None, pe_returned_service_tier = None,
      pe_latency_ms = 0, pe_usage = no_usage, pf_failure_type = ft, pf_source = Source_adapter,
      pf_stage = stage, pf_cause_code = cause, pf_retryable = False, pf_http_status = None,
      pf_request_id = None, pf_retry_after_ms = None, pf_diagnostic_fields = diagnostics\<rparr>"

section \<open>The records of a task\<close>

datatype check_outcome = Check_passed | Check_failed | Check_error | Check_skipped

record validation_outcome =
  vo_evaluation_id :: string
  vo_check :: string
  vo_status :: check_outcome
  vo_applicable :: bool
  vo_failure :: "failure option"
  vo_diagnosed_failure :: "failure_type option"
  vo_evidence_code :: "string option"
  vo_cost_usd :: "decimal option"

record attempt =
  at_attempt_id :: string
  at_task_id :: string
  at_trace_id :: string
  at_sequence :: nat
  at_purpose :: purpose
  at_parent_attempt_id :: "string option"
  at_decision :: "route_decision option"
  at_status :: attempt_status
  at_started_at :: instant
  at_completed_at :: "instant option"
  at_estimated_cost_usd :: "decimal option"
  at_actual_cost_usd :: "decimal option"
  at_pricing_version :: string
  at_provider_outcome :: "provider_outcome option"
  at_failure :: "failure option"
  at_validations :: "validation_outcome list"

datatype tool_status = Tool_succeeded | Tool_failed | Tool_started | Tool_unknown

record tool_outcome =
  to_tool_event_id :: string
  to_tool :: string
  to_operation :: string
  to_status :: tool_status
  to_failure :: "failure option"
  to_cost_usd :: "decimal option"
  to_estimated_cost_usd :: "decimal option"
  to_parent_attempt_id :: "string option"
  to_latency_ms :: nat
  to_side_effecting :: bool
  to_replay_safe :: bool

datatype event_kind =
    TASK_CREATED | TASK_CLASSIFIED | ROUTE_SELECTED | ATTEMPT_STARTED | ATTEMPT_COMPLETED
  | VALIDATION_COMPLETED | RECOVERY_SELECTED | TOOL_STARTED | TOOL_COMPLETED
  | TASK_SUCCEEDED | TASK_FAILED | TASK_BLOCKED | TASK_CANCELLED

record execution_event =
  ev_event_id :: string
  ev_task_id :: string
  ev_trace_id :: string
  ev_kind :: event_kind
  ev_occurred_at :: instant
  ev_policy_version :: string
  ev_attempt_id :: "string option"
  ev_decision_id :: "string option"
  ev_tool_event_id :: "string option"
  ev_evaluation_id :: "string option"
  ev_failure_type :: "failure_type option"
  ev_action :: "action_kind option"

record task_result =
  tk_application_id :: "string option"
  tk_task_id :: string
  tk_trace_id :: string
  tk_status :: task_status
  tk_policy_version :: string
  tk_created_at :: instant
  tk_updated_at :: instant
  tk_revision :: nat
  tk_classification :: "classification option"
  tk_initial_decision :: "route_result option"
  tk_decisions :: "route_result list"
  tk_attempts :: "attempt list"
  tk_health_snapshots :: "health_snapshot list"
  tk_production_generation_cost_usd :: "decimal option"
  tk_production_validation_cost_usd :: "decimal option"
  tk_tool_events :: "tool_outcome list"
  tk_recovery_actions :: "recovery_action list"
  tk_counters :: counters
  tk_execution_limits :: "execution_limits option"
  tk_failure :: "failure option"
  tk_total_cost_usd :: "decimal option"
  tk_known_cost_usd :: decimal
  tk_reserved_cost_usd :: decimal
  tk_output :: "string option"
  tk_structured_output :: "dumped_model option"

definition new_task :: "string \<Rightarrow> string \<Rightarrow> string \<Rightarrow> instant \<Rightarrow> task_result" where
  "new_task task_id trace_id policy_version now =
     \<lparr>tk_application_id = None, tk_task_id = task_id, tk_trace_id = trace_id, tk_status = Created,
      tk_policy_version = policy_version, tk_created_at = now, tk_updated_at = now, tk_revision = 0,
      tk_classification = None, tk_initial_decision = None, tk_decisions = [], tk_attempts = [],
      tk_health_snapshots = [], tk_production_generation_cost_usd = Some ZERO,
      tk_production_validation_cost_usd = Some ZERO, tk_tool_events = [], tk_recovery_actions = [],
      tk_counters = no_counters, tk_execution_limits = None, tk_failure = None,
      tk_total_cost_usd = Some ZERO, tk_known_cost_usd = ZERO, tk_reserved_cost_usd = ZERO,
      tk_output = None, tk_structured_output = None\<rparr>"

section \<open>The lifecycle\<close>

definition terminal :: "task_status \<Rightarrow> bool" where
  "terminal status = (status \<in> set [Succeeded, Failed, Blocked, Cancelled])"

fun next_statuses :: "task_status \<Rightarrow> task_status list" where
  "next_statuses Created = [Classified]"
| "next_statuses Classified = [Routed]"
| "next_statuses Routed = [Admitted]"
| "next_statuses Admitted = [Running]"
| "next_statuses Running = [Validating, Recovering]"
| "next_statuses Validating = [Succeeded, Recovering]"
| "next_statuses Recovering = [Routed, Validating]"
| "next_statuses _ = []"

definition may_follow :: "task_status \<Rightarrow> task_status \<Rightarrow> bool" where
  "may_follow status status' = (\<not> terminal status
     \<and> status' \<in> set (next_statuses status @ [Failed, Blocked, Cancelled]))"

definition transition :: "task_result \<Rightarrow> task_status \<Rightarrow> instant \<Rightarrow> (task_result \<Rightarrow> task_result) \<Rightarrow> task_result res" where
  "transition task status now changes =
     (if \<not> may_follow (tk_status task) status then Inl ValueError
      else Inr ((changes task)\<lparr>tk_status := status, tk_updated_at := now\<rparr>))"

text \<open>Optional amounts are compared by value, as the library compares decimals.\<close>

definition opt_dec_eq :: "decimal option \<Rightarrow> decimal option \<Rightarrow> bool" where
  "opt_dec_eq a b = (case (a, b) of (None, None) \<Rightarrow> True | (Some x, Some y) \<Rightarrow> dec_eq x y | _ \<Rightarrow> False)"

definition same_admission :: "attempt \<Rightarrow> attempt \<Rightarrow> bool" where
  "same_admission a b = (at_attempt_id a = at_attempt_id b \<and> at_task_id a = at_task_id b
     \<and> at_trace_id a = at_trace_id b \<and> at_sequence a = at_sequence b \<and> at_purpose a = at_purpose b
     \<and> at_parent_attempt_id a = at_parent_attempt_id b \<and> at_decision a = at_decision b
     \<and> at_started_at a = at_started_at b \<and> opt_dec_eq (at_estimated_cost_usd a) (at_estimated_cost_usd b)
     \<and> at_pricing_version a = at_pricing_version b)"

definition finish_attempt :: "attempt \<Rightarrow> attempt \<Rightarrow> attempt res" where
  "finish_attempt started completed =
     bind_res (check_res (at_status started = Attempt_started \<and> at_status completed \<noteq> Attempt_started) ValueError) (\<lambda>_.
     bind_res (check_res (same_admission started completed) ValueError) (\<lambda>_.
     bind_res (check_res (case at_completed_at completed of None \<Rightarrow> False
        | Some t \<Rightarrow> at_started_at started \<le> t) ValueError) (\<lambda>_.
     Inr completed)))"

section \<open>Facts\<close>

lemma terminal_simps [simp]:
  "terminal Succeeded" "terminal Failed" "terminal Blocked" "terminal Cancelled"
  "\<not> terminal Created" "\<not> terminal Classified" "\<not> terminal Routed" "\<not> terminal Admitted"
  "\<not> terminal Running" "\<not> terminal Validating" "\<not> terminal Recovering"
  by (simp_all add: terminal_def)

lemma may_follow_stop [simp]:
  "\<not> terminal status \<Longrightarrow> status' \<in> {Failed, Blocked, Cancelled} \<Longrightarrow> may_follow status status'"
  by (auto simp: may_follow_def)

lemma terminal_stays: "terminal status \<Longrightarrow> \<not> may_follow status status'"
  by (simp add: may_follow_def)

lemma transition_Inr:
  "transition task status now changes = Inr task' \<longleftrightarrow>
     may_follow (tk_status task) status \<and> task' = (changes task)\<lparr>tk_status := status, tk_updated_at := now\<rparr>"
  by (auto simp: transition_def)

lemma transition_Inl:
  "transition task status now changes = Inl e \<longleftrightarrow> \<not> may_follow (tk_status task) status \<and> e = ValueError"
  by (auto simp: transition_def)

lemma finish_attempt_Inr:
  "finish_attempt started completed = Inr a \<longleftrightarrow>
     a = completed \<and> at_status started = Attempt_started \<and> at_status completed \<noteq> Attempt_started
     \<and> same_admission started completed
     \<and> (\<exists>t. at_completed_at completed = Some t \<and> at_started_at started \<le> t)"
  by (auto simp: finish_attempt_def bind_res_Inr_iff split: option.splits)

end
