(* ===== verification/Actions.thy ===== *)
theory Actions
  imports Complex_Main
begin

text \<open>
  Steps that change a state and may raise: how they are sequenced, raised and caught, and their
  weakest preconditions. The collection \<open>wp\<close> holds one equation for each combinator, so that
  simplification turns a step into its verification condition.
\<close>

type_synonym ('a, 'e, 's) act = "'s \<Rightarrow> ('e + 'a) \<times> 's"

section \<open>Sequencing\<close>

definition ret :: "'a \<Rightarrow> ('a, 'e, 's) act" where
  "ret x s = (Inr x, s)"

definition seq :: "('a, 'e, 's) act \<Rightarrow> ('a \<Rightarrow> ('b, 'e, 's) act) \<Rightarrow> ('b, 'e, 's) act" where
  "seq m f s = (case m s of (Inl e, s') \<Rightarrow> (Inl e, s') | (Inr x, s') \<Rightarrow> f x s')"

definition raise :: "'e \<Rightarrow> ('a, 'e, 's) act" where
  "raise e s = (Inl e, s)"

definition catch :: "('a, 'e, 's) act \<Rightarrow> ('e \<Rightarrow> ('a, 'e, 's) act) \<Rightarrow> ('a, 'e, 's) act" where
  "catch m h s = (case m s of (Inl e, s') \<Rightarrow> h e s' | (Inr x, s') \<Rightarrow> (Inr x, s'))"

definition get :: "('s \<Rightarrow> 'a) \<Rightarrow> ('a, 'e, 's) act" where
  "get f s = (Inr (f s), s)"

definition modify :: "('s \<Rightarrow> 's) \<Rightarrow> (unit, 'e, 's) act" where
  "modify f s = (Inr (), f s)"

section \<open>Weakest preconditions\<close>

named_theorems wp \<open>weakest preconditions of the combinators\<close>

definition wp :: "('a, 'e, 's) act \<Rightarrow> ('a \<Rightarrow> 's \<Rightarrow> bool) \<Rightarrow> ('e \<Rightarrow> 's \<Rightarrow> bool)
    \<Rightarrow> 's \<Rightarrow> bool" where
  "wp m Q R s = (case m s of (Inl e, s') \<Rightarrow> R e s' | (Inr x, s') \<Rightarrow> Q x s')"

lemma wp_ret [wp]: "wp (ret x) Q R s = Q x s"
  by (simp add: wp_def ret_def)

lemma wp_seq [wp]: "wp (seq m f) Q R s = wp m (\<lambda>x. wp (f x) Q R) R s"
  by (simp add: wp_def seq_def split: prod.splits sum.splits)

lemma wp_raise [wp]: "wp (raise e) Q R s = R e s"
  by (simp add: wp_def raise_def)

lemma wp_catch [wp]: "wp (catch m h) Q R s = wp m Q (\<lambda>e. wp (h e) Q R) s"
  by (simp add: wp_def catch_def split: prod.splits sum.splits)

lemma wp_get [wp]: "wp (get f) Q R s = Q (f s) s"
  by (simp add: wp_def get_def)

lemma wp_modify [wp]: "wp (modify f) Q R s = Q () (f s)"
  by (simp add: wp_def modify_def)

lemma wp_if [wp]: "wp (if c then m else m') Q R s = (if c then wp m Q R s else wp m' Q R s)"
  by simp

lemma wp_Let [wp]: "wp (let x = t in f x) Q R s = (let x = t in wp (f x) Q R s)"
  by (simp add: Let_def)

lemma wp_option [wp]:
  "wp (case v of None \<Rightarrow> m | Some x \<Rightarrow> f x) Q R s
     = (case v of None \<Rightarrow> wp m Q R s | Some x \<Rightarrow> wp (f x) Q R s)"
  by (simp split: option.splits)

lemma wp_sum [wp]:
  "wp (case v of Inl e \<Rightarrow> m e | Inr x \<Rightarrow> f x) Q R s
     = (case v of Inl e \<Rightarrow> wp (m e) Q R s | Inr x \<Rightarrow> wp (f x) Q R s)"
  by (simp split: sum.splits)

text \<open>What a step establishes may be weakened, and two facts about the same step combine.\<close>

lemma wp_weaken:
  assumes "wp m Q R s" and "\<And>x s'. Q x s' \<Longrightarrow> Q' x s'" and "\<And>e s'. R e s' \<Longrightarrow> R' e s'"
  shows "wp m Q' R' s"
  using assms by (auto simp: wp_def split: prod.splits sum.splits)

lemma wp_conj:
  assumes "wp m Q R s" and "wp m Q' R' s"
  shows "wp m (\<lambda>x s'. Q x s' \<and> Q' x s') (\<lambda>e s'. R e s' \<and> R' e s') s"
  using assms by (auto simp: wp_def split: prod.splits sum.splits)

lemma wp_result:
  assumes "wp m Q R s" and "m s = (r, s')"
  shows "case r of Inl e \<Rightarrow> R e s' | Inr x \<Rightarrow> Q x s'"
  using assms by (simp add: wp_def)

end
