(* ===== verification/Execution.thy ===== *)
theory Execution
  imports TaskContracts Admission Router Actions
begin

text \<open>
  The setting in which one task is executed: the dependencies that \<^verbatim>\<open>ExecutionDependencies\<close> of
  \<^verbatim>\<open>execution/orchestrator.py\<close> injects, and the state of one \<^verbatim>\<open>_Execution\<close> object on
  which its steps work.

  A dependency is a function that takes and returns the state of the outside world, of an arbitrary
  type: the clock, the environment source, the provider, the repository, the budget authority, the
  checks, the tools and the cancellation signal may depend on each other and on everything that
  happened before. \<open>None\<close> stands for an exception of an adapter whose class the code does not look
  at. An exception keeps the state, as it does in an object whose method raises. \<open>ex_log\<close> is not a
  field of the source: it records the calls that reach the provider, the tools, the budget authority
  and the repository, in order, so that properties can speak of them.
\<close>

datatype exec_error =
    Raised router_error
  | Invalid_transition
  | Environment_changed
  | Loop_bound

datatype call =
    Save_call task_result "execution_event list" bool
  | Retain_call task_result "execution_event list"
  | Execute_call provider_request
  | Tool_call tool_call string
  | Reserve_call string decimal bool
  | Settle_call string "decimal option"

record 'w check =
  ck_run :: "request \<Rightarrow> provider_result \<Rightarrow> 'w \<Rightarrow> validation_outcome option \<times> 'w"
  ck_cost_upper_bound_usd :: "decimal option"

record 'w dependencies =
  dp_bundle :: policy_bundle
  dp_digests :: digests
  dp_request_digest :: "request \<Rightarrow> execution_controls \<Rightarrow> classification option \<Rightarrow> string"
  dp_key_digest :: "string \<Rightarrow> string \<Rightarrow> string"
  dp_snapshot_digest :: "string \<Rightarrow> instant \<Rightarrow> instant \<Rightarrow> observation list \<Rightarrow> string"
  dp_milliseconds :: "int \<Rightarrow> int"
  dp_uuid :: "'w \<Rightarrow> string \<times> 'w"
  dp_now :: "'w \<Rightarrow> instant \<times> 'w"
  dp_sleep :: "nat \<Rightarrow> 'w \<Rightarrow> 'w"
  dp_environment :: "'w \<Rightarrow> environment \<times> 'w"
  dp_mock_provider :: bool
  dp_execute :: "provider_request \<Rightarrow> 'w \<Rightarrow> provider_outcome option \<times> 'w"
  dp_create :: "task_result \<Rightarrow> execution_event \<Rightarrow> string \<Rightarrow> string option \<Rightarrow> string \<Rightarrow> 'w
    \<Rightarrow> task_result option res \<times> 'w"
  dp_pin_versions :: "policy_bundle \<Rightarrow> 'w \<Rightarrow> unit res \<times> 'w"
  dp_save :: "task_result \<Rightarrow> execution_event list \<Rightarrow> nat \<Rightarrow> 'w \<Rightarrow> unit res \<times> 'w"
  dp_retain_pending :: "task_result \<Rightarrow> execution_event list \<Rightarrow> 'w \<Rightarrow> unit res \<times> 'w"
  dp_remaining :: "string \<Rightarrow> 'w \<Rightarrow> decimal option \<times> 'w"
  dp_reserve :: "string \<Rightarrow> string \<Rightarrow> decimal \<Rightarrow> 'w \<Rightarrow> bool option \<times> 'w"
  dp_settle :: "string \<Rightarrow> string \<Rightarrow> decimal option \<Rightarrow> 'w \<Rightarrow> unit option \<times> 'w"
  dp_limits :: "execution_limits option"
  dp_controls :: execution_controls
  dp_mock_classifier :: "(request \<Rightarrow> 'w \<Rightarrow> ((failure_type \<times> string) + classification) \<times> 'w) option"
  dp_checks :: "(string \<times> 'w check) list"
  dp_tools :: "(tool_call \<Rightarrow> string \<Rightarrow> string \<Rightarrow> string \<Rightarrow> 'w \<Rightarrow> tool_outcome option \<times> 'w) option"
  dp_health :: "health_service option"
  dp_cancelled :: "'w \<Rightarrow> bool \<times> 'w"

record 'w execution =
  ex_task :: task_result
  ex_classification :: "classification option"
  ex_limits :: "execution_limits option"
  ex_cost_violation :: bool
  ex_budget_unavailable :: bool
  ex_initial_environment :: "environment option"
  ex_health :: "health_service option"
  ex_log :: "call list"
  ex_world :: 'w

type_synonym ('a, 'w) step = "('a, exec_error, 'w execution) act"

section \<open>Steps of an execution\<close>

definition world :: "('w \<Rightarrow> 'a \<times> 'w) \<Rightarrow> ('a, 'w) step" where
  "world f s = (let (x, w) = f (ex_world s) in (Inr x, s\<lparr>ex_world := w\<rparr>))"

definition log_call :: "call \<Rightarrow> (unit, 'w) step" where
  "log_call c = modify (\<lambda>s. s\<lparr>ex_log := ex_log s @ [c]\<rparr>)"

definition set_task :: "(task_result \<Rightarrow> task_result) \<Rightarrow> (unit, 'w) step" where
  "set_task f = modify (\<lambda>s. s\<lparr>ex_task := f (ex_task s)\<rparr>)"

definition from_res :: "'a res \<Rightarrow> ('a, 'w) step" where
  "from_res r = (case r of Inl e \<Rightarrow> raise (Raised e) | Inr x \<Rightarrow> ret x)"

text \<open>The ValueError of a transition outside the lifecycle has a name of its own.\<close>

definition from_lifecycle :: "'a res \<Rightarrow> ('a, 'w) step" where
  "from_lifecycle r = (case r of Inl e \<Rightarrow> raise Invalid_transition | Inr x \<Rightarrow> ret x)"

lemma wp_world [wp]:
  "wp (world f) Q R s = Q (fst (f (ex_world s))) (s\<lparr>ex_world := snd (f (ex_world s))\<rparr>)"
  by (simp add: wp_def world_def split: prod.splits)

lemma wp_log_call [wp]: "wp (log_call c) Q R s = Q () (s\<lparr>ex_log := ex_log s @ [c]\<rparr>)"
  by (simp add: log_call_def wp)

lemma wp_set_task [wp]: "wp (set_task f) Q R s = Q () (s\<lparr>ex_task := f (ex_task s)\<rparr>)"
  by (simp add: set_task_def wp)

lemma wp_from_res [wp]:
  "wp (from_res r) Q R s = (case r of Inl e \<Rightarrow> R (Raised e) s | Inr x \<Rightarrow> Q x s)"
  by (simp add: from_res_def wp split: sum.splits)

lemma wp_from_lifecycle [wp]:
  "wp (from_lifecycle r) Q R s = (case r of Inl e \<Rightarrow> R Invalid_transition s | Inr x \<Rightarrow> Q x s)"
  by (simp add: from_lifecycle_def wp split: sum.splits)

end
