(* ===== verification/Orchestrator.thy ===== *)
theory Orchestrator
  imports OutputValidation
begin

text \<open>
  The execution of one task, \<^verbatim>\<open>execution/orchestrator.py\<close>: the methods of \<^verbatim>\<open>_Execution\<close> in the order
  in which \<^verbatim>\<open>run\<close> uses them, and \<^verbatim>\<open>execute\<close> around it. The composition is the one that the
  defaults of \<^verbatim>\<open>ExecutionDependencies\<close> give, with the health service and the tools as options: no live
  authorization, no semantic evaluation and no shadow experiment is injected, so the branches that
  test for one of the three are not taken and have no counterpart.

  The two loops have a bound: the number of generation attempts, and of tool recoveries, that the
  limits leave, plus one. Meeting it is the error \<open>Loop_bound\<close>; that it is never met is a theorem.
  The health service is the modelled one, used by this task alone while it runs, with the clock of
  the task. The number of milliseconds in a time difference is a parameter, since the source computes
  it in floating point.
\<close>

section \<open>Reading the surroundings\<close>

text \<open>The fields of the environment that may not change while a task runs; amounts compare by value.\<close>

definition same_limits :: "limits \<Rightarrow> limits \<Rightarrow> bool" where
  "same_limits a b = (lim_model_tier_floor a = lim_model_tier_floor b
     \<and> lim_model_tier_ceiling a = lim_model_tier_ceiling b
     \<and> opt_dec_eq (lim_task_cost_ceiling_usd a) (lim_task_cost_ceiling_usd b)
     \<and> lim_task_deadline_ms a = lim_task_deadline_ms b
     \<and> opt_dec_eq (lim_period_spend_ceiling_usd a) (lim_period_spend_ceiling_usd b)
     \<and> lim_period a = lim_period b \<and> lim_live_execution_enabled a = lim_live_execution_enabled b)"

definition same_overlay :: "limits option \<Rightarrow> limits option \<Rightarrow> bool" where
  "same_overlay a b = (case (a, b) of (None, None) \<Rightarrow> True | (Some x, Some y) \<Rightarrow> same_limits x y | _ \<Rightarrow> False)"

definition same_validation :: "(validation_level \<times> mock_status) list \<Rightarrow> (validation_level \<times> mock_status) list \<Rightarrow> bool" where
  "same_validation a b = list_all (\<lambda>level. map_of a level = map_of b level) [V0, V1, V2, V3]"

definition pinned :: "environment \<Rightarrow> environment \<Rightarrow> bool" where
  "pinned a b = (env_synthetic a = env_synthetic b \<and> env_pricing_version a = env_pricing_version b
     \<and> same_limits (env_budget a) (env_budget b)
     \<and> env_trusted_application_id a = env_trusted_application_id b
     \<and> same_overlay (env_application_overlay a) (env_application_overlay b)
     \<and> env_application_overlay_version a = env_application_overlay_version b
     \<and> same_validation (env_validation a) (env_validation b)
     \<and> opt_dec_eq (env_required_evaluator_cost_usd a) (env_required_evaluator_cost_usd b)
     \<and> opt_dec_eq (env_required_domain_validator_cost_usd a) (env_required_domain_validator_cost_usd b)
     \<and> env_required_tool_charge a = env_required_tool_charge b
     \<and> opt_dec_eq (env_required_tool_charge_usd a) (env_required_tool_charge_usd b)
     \<and> env_requested_validation a = env_requested_validation b
     \<and> env_recovery_bounded a = env_recovery_bounded b
     \<and> env_durable_retention a = env_durable_retention b)"

definition add_snapshot :: "health_snapshot \<Rightarrow> task_result \<Rightarrow> task_result" where
  "add_snapshot sn task =
     (if list_all (\<lambda>s. sn_snapshot_id s \<noteq> sn_snapshot_id sn) (tk_health_snapshots task)
      then task\<lparr>tk_health_snapshots := tk_health_snapshots task @ [sn]\<rparr> else task)"

definition pin_environment :: "environment \<Rightarrow> (unit, 'w) step" where
  "pin_environment env =
     seq (get ex_initial_environment) (\<lambda>initial.
     case initial of
       None \<Rightarrow> modify (\<lambda>s. s\<lparr>ex_initial_environment := Some env\<rparr>)
     | Some first \<Rightarrow> if pinned env first then ret () else raise Environment_changed)"

definition project_health :: "'w dependencies \<Rightarrow> request \<Rightarrow> environment \<Rightarrow> (environment, 'w) step" where
  "project_health d r env =
     seq (get ex_health) (\<lambda>health.
     case health of
       None \<Rightarrow> ret env
     | Some h \<Rightarrow>
         seq (world (dp_now d)) (\<lambda>now.
         let sn = snapshot (dp_snapshot_digest d) h now in
         seq (from_res (apply_health (dp_snapshot_digest d) h now env (rq_requirements r) (Some sn))) (\<lambda>env'.
         seq (set_task (add_snapshot sn)) (\<lambda>_.
         ret env'))))"

definition environment_changed_config :: "'w dependencies \<Rightarrow> health_service option \<Rightarrow> bool" where
  "environment_changed_config d health = (map_option hs_config health \<noteq> map_option hs_config (dp_health d))"

definition read_environment :: "'w dependencies \<Rightarrow> request \<Rightarrow> (environment, 'w) step" where
  "read_environment d r =
     seq (get ex_health) (\<lambda>health.
     if environment_changed_config d health then raise Environment_changed
     else
       seq (world (dp_environment d)) (\<lambda>env.
       seq (pin_environment env) (\<lambda>_.
       seq (world (dp_now d)) (\<lambda>now.
       project_health d r (env\<lparr>env_clock := now\<rparr>)))))"

definition elapsed :: "'w dependencies \<Rightarrow> (nat, 'w) step" where
  "elapsed d =
     seq (world (dp_now d)) (\<lambda>now.
     seq (get (tk_created_at \<circ> ex_task)) (\<lambda>created_at.
     ret (nat (max 0 (dp_milliseconds d (now - created_at))))))"

definition mark_unavailable :: "(unit, 'w) step" where
  "mark_unavailable = modify (\<lambda>s. s\<lparr>ex_budget_unavailable := True\<rparr>)"

definition remaining :: "'w dependencies \<Rightarrow> (decimal, 'w) step" where
  "remaining d =
     seq (get ex_limits) (\<lambda>limits.
     case limits of
       None \<Rightarrow> ret ZERO
     | Some l \<Rightarrow>
         seq (get (tk_task_id \<circ> ex_task)) (\<lambda>task_id.
         seq (world (dp_remaining d task_id)) (\<lambda>answer.
         case answer of
           None \<Rightarrow> seq mark_unavailable (\<lambda>_. ret ZERO)
         | Some funds \<Rightarrow>
             seq (get ex_task) (\<lambda>task.
             ret (dec_max ZERO (dec_min funds (money_difference (xl_task_cost_ceiling_usd l)
               [tk_known_cost_usd task, tk_reserved_cost_usd task])))))))"

section \<open>Evidence\<close>

record event_details =
  ed_attempt_id :: "string option"
  ed_decision_id :: "string option"
  ed_failure :: "failure_type option"
  ed_action :: "action_kind option"
  ed_tool_event_id :: "string option"
  ed_evaluation_id :: "string option"

definition no_details :: event_details where
  "no_details = \<lparr>ed_attempt_id = None, ed_decision_id = None, ed_failure = None, ed_action = None,
     ed_tool_event_id = None, ed_evaluation_id = None\<rparr>"

definition event :: "'w dependencies \<Rightarrow> event_kind \<Rightarrow> event_details \<Rightarrow> (execution_event, 'w) step" where
  "event d kind x =
     seq (world (dp_uuid d)) (\<lambda>event_id.
     seq (world (dp_now d)) (\<lambda>now.
     seq (get ex_task) (\<lambda>task.
     ret \<lparr>ev_event_id = event_id, ev_task_id = tk_task_id task, ev_trace_id = tk_trace_id task, ev_kind = kind,
          ev_occurred_at = now, ev_policy_version = tk_policy_version task, ev_attempt_id = ed_attempt_id x,
          ev_decision_id = ed_decision_id x, ev_tool_event_id = ed_tool_event_id x,
          ev_evaluation_id = ed_evaluation_id x, ev_failure_type = ed_failure x, ev_action = ed_action x\<rparr>)))"

text \<open>
  A revision is saved with its events; when the repository is unavailable it is put in the recovery
  journal. Either way the caller sees \<open>RepositoryUnavailable\<close>.
\<close>

definition save :: "'w dependencies \<Rightarrow> execution_event list \<Rightarrow> (unit, 'w) step" where
  "save d events =
     seq (get (tk_revision \<circ> ex_task)) (\<lambda>prior.
     seq (world (dp_now d)) (\<lambda>now.
     seq (set_task (\<lambda>t. t\<lparr>tk_revision := prior + 1, tk_updated_at := now\<rparr>)) (\<lambda>_.
     seq (get ex_task) (\<lambda>task.
     seq (world (dp_save d task events prior)) (\<lambda>saved.
     seq (log_call (Save_call task events (saved = Inr ()))) (\<lambda>_.
     case saved of
       Inr _ \<Rightarrow> ret ()
     | Inl e \<Rightarrow>
         if e \<noteq> RepositoryUnavailable then raise (Raised e)
         else
           seq (world (dp_retain_pending d task events)) (\<lambda>_.
           seq (log_call (Retain_call task events)) (\<lambda>_.
           raise (Raised RepositoryUnavailable)))))))))"

definition save_event :: "'w dependencies \<Rightarrow> event_kind \<Rightarrow> event_details \<Rightarrow> (unit, 'w) step" where
  "save_event d kind x = seq (event d kind x) (\<lambda>ev. save d [ev])"

definition move :: "'w dependencies \<Rightarrow> task_status \<Rightarrow> (task_result \<Rightarrow> task_result) \<Rightarrow> (unit, 'w) step" where
  "move d status changes =
     seq (world (dp_now d)) (\<lambda>now.
     seq (get ex_task) (\<lambda>task.
     seq (from_lifecycle (transition task status now changes)) (\<lambda>task'.
     set_task (\<lambda>_. task'))))"

definition exec_failure :: "failure_type \<Rightarrow> string \<Rightarrow> failure_source \<Rightarrow> failure" where
  "exec_failure ft cause source = \<lparr>fl_failure_type = ft, fl_source = source, fl_stage = ''execution'',
     fl_cause_code = cause, fl_retryable = False, fl_retry_after_ms = None\<rparr>"

abbreviation admission_stop :: "failure_type \<Rightarrow> string \<Rightarrow> failure" where
  "admission_stop ft cause \<equiv> exec_failure ft cause Source_admission"

definition stop_event :: "task_status \<Rightarrow> event_kind" where
  "stop_event status = (case status of Blocked \<Rightarrow> TASK_BLOCKED | Cancelled \<Rightarrow> TASK_CANCELLED | _ \<Rightarrow> TASK_FAILED)"

definition stop :: "'w dependencies \<Rightarrow> failure \<Rightarrow> task_status \<Rightarrow> (task_result, 'w) step" where
  "stop d failure status =
     seq (move d status (\<lambda>t. t\<lparr>tk_failure := Some failure\<rparr>)) (\<lambda>_.
     seq (save_event d (stop_event status) (no_details\<lparr>ed_failure := Some (fl_failure_type failure)\<rparr>)) (\<lambda>_.
     get ex_task))"

text \<open>The status in which a failure of the checkpoint leaves the task.\<close>

definition halt :: "'w dependencies \<Rightarrow> failure \<Rightarrow> (task_result, 'w) step" where
  "halt d failure = stop d failure (if fl_cause_code failure = ''cancelled'' then Cancelled else Failed)"

section \<open>Checkpoints\<close>

definition dependencies_ready :: "'w dependencies \<Rightarrow> (bool, 'w) step" where
  "dependencies_ready d =
     seq (get ex_health) (\<lambda>health.
     case health of
       None \<Rightarrow> ret True
     | Some h \<Rightarrow>
         seq (world (dp_now d)) (\<lambda>now.
         seq (from_res (dependency_readiness (dp_snapshot_digest d) h now None)) (\<lambda>readiness.
         ret (hr_ready readiness))))"

definition past_deadline :: "'w dependencies \<Rightarrow> (bool, 'w) step" where
  "past_deadline d =
     seq (get ex_limits) (\<lambda>limits.
     case limits of
       None \<Rightarrow> ret False
     | Some l \<Rightarrow> seq (elapsed d) (\<lambda>ms. ret (xl_max_elapsed_ms l \<le> ms)))"

definition checkpoint :: "'w dependencies \<Rightarrow> request \<Rightarrow> (failure option, 'w) step" where
  "checkpoint d r =
     seq (read_environment d r) (\<lambda>_.
     seq (dependencies_ready d) (\<lambda>ready.
     if \<not> ready then ret (Some (admission_stop PROVIDER_FAILURE ''required_health_unavailable''))
     else
       seq (get id) (\<lambda>s.
       if ex_budget_unavailable s
       then ret (Some (admission_stop BUDGET_FAILURE ''budget_authority_unavailable''))
       else if ex_cost_violation s
       then ret (Some (admission_stop BUDGET_FAILURE ''actual_cost_exceeded_reservation''))
       else
         seq (world (dp_cancelled d)) (\<lambda>cancelled.
         if cancelled then ret (Some (admission_stop UNKNOWN_FAILURE ''cancelled''))
         else
           seq (past_deadline d) (\<lambda>late.
           ret (if late then Some (admission_stop BUDGET_FAILURE ''deadline_exceeded'') else None))))))"

definition environment_failure :: failure where
  "environment_failure = admission_stop CAPABILITY_FAILURE ''trusted_execution_environment_changed''"

definition validation_checkpoint :: "'w dependencies \<Rightarrow> request \<Rightarrow> (failure option, 'w) step" where
  "validation_checkpoint d r =
     catch (checkpoint d r) (\<lambda>e. if e = Environment_changed then ret (Some environment_failure) else raise e)"

section \<open>Routing and readiness\<close>

definition target :: "route_decision \<Rightarrow> route_target" where
  "target decision = \<lparr>tg_model = rt_selected_model_alias decision, tg_effort = rt_reasoning_effort decision\<rparr>"

definition as_candidate :: "route_target \<Rightarrow> candidate" where
  "as_candidate t = \<lparr>cand_model = tg_model t, cand_effort = tg_effort t, cand_source = Source_fallback\<rparr>"

definition route_task :: "'w dependencies \<Rightarrow> request \<Rightarrow> environment \<Rightarrow> route_target option \<Rightarrow> (route_result, 'w) step" where
  "route_task d r env wanted =
     seq (get ex_classification) (\<lambda>classification.
     case classification of
       None \<Rightarrow> raise (Raised TypeError)
     | Some c \<Rightarrow> from_res (route (dp_digests d) r c env (dp_bundle d)
         (map_option (\<lambda>t. [as_candidate t]) wanted)))"

fun decision_id_of :: "route_result \<Rightarrow> string" where
  "decision_id_of (Decision dec) = db_decision_id dec"
| "decision_id_of (Rejection rej) = db_decision_id rej"

definition record_route :: "route_result \<Rightarrow> task_result \<Rightarrow> task_result" where
  "record_route decision task = task\<lparr>
     tk_initial_decision := (case tk_initial_decision task of None \<Rightarrow> Some decision | Some i \<Rightarrow> Some i),
     tk_decisions := tk_decisions task @ [decision]\<rparr>"

definition select :: "'w dependencies \<Rightarrow> request \<Rightarrow> route_target option \<Rightarrow> bool \<Rightarrow> (route_result, 'w) step" where
  "select d r wanted persist =
     seq (read_environment d r) (\<lambda>env.
     seq (remaining d) (\<lambda>available.
     seq (route_task d r (env\<lparr>env_remaining_usd := Some available\<rparr>) wanted) (\<lambda>decision.
     if \<not> persist then ret decision
     else
       seq (move d Routed (record_route decision)) (\<lambda>_.
       seq (save_event d ROUTE_SELECTED (no_details\<lparr>ed_decision_id := Some (decision_id_of decision)\<rparr>)) (\<lambda>_.
       ret decision)))))"

definition tool_available :: "'w dependencies \<Rightarrow> string \<Rightarrow> (bool, 'w) step" where
  "tool_available d tool =
     seq (get ex_health) (\<lambda>health.
     case health of
       None \<Rightarrow> ret True
     | Some h \<Rightarrow> seq (world (dp_now d)) (\<lambda>now. from_res (available h now (''tool'', None, Some tool))))"

primrec tool_blockers :: "'w dependencies \<Rightarrow> tool_call list \<Rightarrow> (string list, 'w) step" where
  "tool_blockers d [] = ret []"
| "tool_blockers d (call # calls) =
     seq (tool_available d (tl_tool call)) (\<lambda>ok.
     seq (tool_blockers d calls) (\<lambda>rest.
     ret (if ok then rest else ''required_tool_unavailable'' # rest)))"

text \<open>The blockers of a decision, less the placeholder that scoped tool authorization discharges.\<close>

definition undischarged :: "'w dependencies \<Rightarrow> route_decision \<Rightarrow> string list" where
  "undischarged d decision =
     (if xc_side_effects_authorized (dp_controls d) \<and> dp_tools d \<noteq> None \<and> xc_tool_calls (dp_controls d) \<noteq> []
      then remove1 ''side_effect_execution_unconfigured'' (db_readiness_blockers decision)
      else db_readiness_blockers decision)"

definition readiness_of_decision :: "'w dependencies \<Rightarrow> request \<Rightarrow> route_decision \<Rightarrow> (string list, 'w) step" where
  "readiness_of_decision d r decision =
     seq (tool_blockers d (xc_tool_calls (dp_controls d))) (\<lambda>unavailable.
     ret (undischarged d decision
       @ v0_readiness (dp_checks d) decision (dp_controls d)
       @ (if tc_expected_output_tokens (rq_context r) = 0 then [''positive_output_bound_required''] else [])
       @ (if xc_tool_calls (dp_controls d) \<noteq> [] \<and> dp_tools d = None then [''tool_executor_unavailable''] else [])
       @ unavailable
       @ (if rq_side_effecting_tool r \<and> \<not> list_ex tl_side_effecting (xc_tool_calls (dp_controls d))
          then [''side_effect_scope_missing''] else [])))"

definition task_readiness :: "'w dependencies \<Rightarrow> request \<Rightarrow> route_result \<Rightarrow> (string list, 'w) step" where
  "task_readiness d r result = (case result of
     Rejection _ \<Rightarrow> ret [''route_rejected''] | Decision decision \<Rightarrow> readiness_of_decision d r decision)"

section \<open>Money\<close>

definition exceeds :: "decimal option \<Rightarrow> decimal \<Rightarrow> bool" where
  "exceeds actual estimate = (case actual of None \<Rightarrow> False | Some a \<Rightarrow> dec_lt estimate a)"

definition charged :: "decimal option \<Rightarrow> decimal \<Rightarrow> bool \<Rightarrow> task_result \<Rightarrow> task_result" where
  "charged actual estimate settled task = task\<lparr>
     tk_known_cost_usd := money_sum [tk_known_cost_usd task, case actual of None \<Rightarrow> ZERO | Some a \<Rightarrow> a],
     tk_reserved_cost_usd := money_difference (tk_reserved_cost_usd task)
       [if actual \<noteq> None \<and> settled then estimate else ZERO],
     tk_total_cost_usd := (case (actual, tk_total_cost_usd task) of
         (Some a, Some t) \<Rightarrow> Some (money_sum [t, a]) | _ \<Rightarrow> None)\<rparr>"

definition charge :: "'w dependencies \<Rightarrow> string \<Rightarrow> decimal option \<Rightarrow> decimal \<Rightarrow> (unit, 'w) step" where
  "charge d action_id actual estimate =
     seq (if exceeds actual estimate then modify (\<lambda>s. s\<lparr>ex_cost_violation := True\<rparr>) else ret ()) (\<lambda>_.
     seq (get (tk_task_id \<circ> ex_task)) (\<lambda>task_id.
     seq (world (dp_settle d task_id action_id actual)) (\<lambda>settled.
     seq (log_call (Settle_call action_id actual)) (\<lambda>_.
     seq (if settled = None then mark_unavailable else ret ()) (\<lambda>_.
     set_task (charged actual estimate (settled \<noteq> None)))))))"

definition reserve :: "'w dependencies \<Rightarrow> string \<Rightarrow> decimal \<Rightarrow> (bool, 'w) step" where
  "reserve d action_id amount =
     seq (get (tk_task_id \<circ> ex_task)) (\<lambda>task_id.
     seq (world (dp_reserve d task_id action_id amount)) (\<lambda>reserved.
     seq (log_call (Reserve_call action_id amount (reserved = Some True))) (\<lambda>_.
     case reserved of
       None \<Rightarrow> seq mark_unavailable (\<lambda>_. ret False)
     | Some granted \<Rightarrow>
         if \<not> granted then ret False
         else seq (set_task (\<lambda>t. t\<lparr>tk_reserved_cost_usd := money_sum [tk_reserved_cost_usd t, amount]\<rparr>)) (\<lambda>_.
              ret True))))"

definition plus_cost :: "decimal option \<Rightarrow> decimal option \<Rightarrow> decimal option" where
  "plus_cost previous actual = (case (previous, actual) of (Some p, Some a) \<Rightarrow> Some (money_sum [p, a]) | _ \<Rightarrow> None)"

definition add_generation_cost :: "decimal option \<Rightarrow> (unit, 'w) step" where
  "add_generation_cost actual = set_task (\<lambda>t. t\<lparr>tk_production_generation_cost_usd :=
     plus_cost (tk_production_generation_cost_usd t) actual\<rparr>)"

definition add_validation_cost :: "decimal option \<Rightarrow> (unit, 'w) step" where
  "add_validation_cost actual = set_task (\<lambda>t. t\<lparr>tk_production_validation_cost_usd :=
     plus_cost (tk_production_validation_cost_usd t) actual\<rparr>)"

definition observe_health :: "'w dependencies \<Rightarrow> scope \<Rightarrow> failure_type option \<Rightarrow> bool \<Rightarrow> (unit, 'w) step" where
  "observe_health d key failure success =
     seq (get ex_health) (\<lambda>health.
     case health of
       None \<Rightarrow> ret ()
     | Some h \<Rightarrow>
         seq (world (dp_now d)) (\<lambda>now.
         let (h', result) = observe h now key failure success None True None in
         seq (modify (\<lambda>s. s\<lparr>ex_health := Some h'\<rparr>)) (\<lambda>_.
         seq (from_res result) (\<lambda>_. ret ()))))"

end
