(* ===== verification/Dispatch.thy ===== *)
theory Dispatch
  imports Orchestrator
begin

text \<open>
  The actions of a task, \<^verbatim>\<open>execution/orchestrator.py\<close> continued: one generation attempt from its
  admission to its final record, the declared tools with their recoveries, the recovery after a
  failed attempt, and the whole run. Each action follows one scheme: check, admit, reserve, record
  the start, check again, call the outside, record what came back, settle.
\<close>

section \<open>A generation attempt\<close>

definition generation_estimate :: "route_decision \<Rightarrow> decimal" where
  "generation_estimate decision =
     (let subtotal = ce_generation_subtotal (rt_estimated_cost decision) in
      case rd_cache_miss_budget_estimates (db_rationale_details decision) of
        None \<Rightarrow> subtotal
      | Some misses \<Rightarrow> (case map_of misses (rt_selected_model_alias decision) of
          None \<Rightarrow> subtotal
        | Some miss \<Rightarrow> dec_max subtotal (ce_generation_subtotal miss)))"

text \<open>All the work the attempt entails must fit, not only the generation; the last zero is the semantic bound.\<close>

definition admission_cost :: "'w dependencies \<Rightarrow> route_decision \<Rightarrow> decimal option" where
  "admission_cost d decision =
     (let tool_bounds = map tl_cost_upper_bound_usd (xc_tool_calls (dp_controls d)) in
      case (ce_amount (rt_estimated_cost decision), validation_bound (dp_checks d) (dp_controls d)) of
        (Some amount, Some bound) \<Rightarrow>
          if None \<in> set tool_bounds then None
          else Some (dec_max amount (money_sum
            ([generation_estimate decision, bound, ZERO] @ map the tool_bounds)))
      | _ \<Rightarrow> None)"

definition admit :: "'w dependencies \<Rightarrow> string \<Rightarrow> bool \<Rightarrow> tool_call option \<Rightarrow> decimal option
    \<Rightarrow> (failure option, 'w) step" where
  "admit d action replay call cost =
     seq (elapsed d) (\<lambda>ms.
     seq (remaining d) (\<lambda>available.
     seq (get id) (\<lambda>s.
     ret (check_admission (Some (dp_controls d)) (ex_limits s) (tk_counters (ex_task s)) (int ms)
       (Some available) cost action replay call))))"

definition replace_last :: "attempt \<Rightarrow> task_result \<Rightarrow> task_result" where
  "replace_last a task = task\<lparr>tk_attempts := butlast (tk_attempts task) @ [a]\<rparr>"

definition started_attempt :: "task_result \<Rightarrow> route_decision \<Rightarrow> decimal \<Rightarrow> string \<Rightarrow> instant \<Rightarrow> attempt" where
  "started_attempt task decision estimate attempt_id now =
     \<lparr>at_attempt_id = attempt_id, at_task_id = tk_task_id task, at_trace_id = tk_trace_id task,
      at_sequence = length (tk_attempts task) + 1, at_purpose = For_generation,
      at_parent_attempt_id = (if tk_attempts task = [] then None else Some (at_attempt_id (last (tk_attempts task)))),
      at_decision = Some decision, at_status = Attempt_started, at_started_at = now, at_completed_at = None,
      at_estimated_cost_usd = Some estimate, at_actual_cost_usd = None,
      at_pricing_version = db_pricing_version decision, at_provider_outcome = None, at_failure = None,
      at_validations = []\<rparr>"

definition count_generation :: "counters \<Rightarrow> counters" where
  "count_generation c = c\<lparr>ct_generation_attempts := ct_generation_attempts c + 1\<rparr>"

definition begin_attempt :: "'w dependencies \<Rightarrow> route_decision \<Rightarrow> decimal \<Rightarrow> string \<Rightarrow> (attempt, 'w) step" where
  "begin_attempt d decision estimate attempt_id =
     seq (move d Admitted id) (\<lambda>_.
     seq (world (dp_now d)) (\<lambda>now.
     seq (get ex_task) (\<lambda>task.
     let started = started_attempt task decision estimate attempt_id now in
     seq (move d Running (\<lambda>t. t\<lparr>tk_attempts := tk_attempts t @ [started],
            tk_counters := count_generation (tk_counters t)\<rparr>)) (\<lambda>_.
     seq (save_event d ATTEMPT_STARTED (no_details\<lparr>ed_attempt_id := Some attempt_id,
            ed_decision_id := Some (db_decision_id decision)\<rparr>)) (\<lambda>_.
     ret started)))))"

text \<open>What may have changed since the route was selected.\<close>

definition dispatch_blocker :: "'w dependencies \<Rightarrow> request \<Rightarrow> route_decision \<Rightarrow> decimal \<Rightarrow> (failure option, 'w) step" where
  "dispatch_blocker d r decision estimate =
     seq (checkpoint d r) (\<lambda>failure.
     if failure \<noteq> None then ret failure
     else
       seq (read_environment d r) (\<lambda>env.
       seq (remaining d) (\<lambda>available.
       seq (route_task d r (env\<lparr>env_remaining_usd := Some (money_sum [available, estimate])\<rparr>)
              (Some (target decision))) (\<lambda>refreshed.
       seq (task_readiness d r refreshed) (\<lambda>blockers.
       ret (case refreshed of
           Rejection rejection \<Rightarrow> Some (admission_stop (rj_failure_type rejection) ''dispatch_readiness_changed'')
         | Decision _ \<Rightarrow> if blockers \<noteq> []
             then Some (admission_stop CAPABILITY_FAILURE ''dispatch_readiness_changed'') else None))))))"

definition finish :: "'w dependencies \<Rightarrow> attempt \<Rightarrow> (instant \<Rightarrow> attempt) \<Rightarrow> (unit, 'w) step" where
  "finish d started completed =
     seq (world (dp_now d)) (\<lambda>now.
     seq (from_res (finish_attempt started (completed now))) (\<lambda>a.
     set_task (replace_last a)))"

definition cancel_attempt :: "'w dependencies \<Rightarrow> attempt \<Rightarrow> decimal \<Rightarrow> failure \<Rightarrow> (unit, 'w) step" where
  "cancel_attempt d started estimate failure =
     seq (charge d (at_attempt_id started) (Some ZERO) estimate) (\<lambda>_.
     seq (finish d started (\<lambda>now. started\<lparr>at_status := Attempt_cancelled, at_completed_at := Some now,
            at_actual_cost_usd := Some ZERO, at_failure := Some failure\<rparr>)) (\<lambda>_.
     save_event d ATTEMPT_COMPLETED (no_details\<lparr>ed_attempt_id := Some (at_attempt_id started),
       ed_failure := Some (fl_failure_type failure)\<rparr>)))"

definition generation_request :: "'w dependencies \<Rightarrow> request \<Rightarrow> task_result \<Rightarrow> execution_limits \<Rightarrow> route_decision
    \<Rightarrow> string \<Rightarrow> nat \<Rightarrow> provider_request" where
  "generation_request d r task limits decision attempt_id elapsed_ms =
     \<lparr>pq_task_id = tk_task_id task, pq_trace_id = tk_trace_id task, pq_invocation_id = attempt_id,
      pq_policy_version = db_policy_version decision, pq_catalog_version = db_catalog_version decision,
      pq_model_alias = rt_selected_model_alias decision, pq_provider_model_id = rt_provider_model_id decision,
      pq_reasoning_effort = rt_reasoning_effort decision, pq_input = rq_input r,
      pq_output_type = xc_output_type (dp_controls d),
      pq_max_output_tokens = max 1 (tc_expected_output_tokens (rq_context r)),
      pq_timeout_ms = min (xl_max_elapsed_ms limits) (max 1 (xl_max_elapsed_ms limits - elapsed_ms)),
      pq_purpose = For_generation\<rparr>"

text \<open>An exception, a value that is no outcome and an outcome of another request are all contract errors.\<close>

definition accepted_outcome :: "provider_request \<Rightarrow> provider_outcome option \<Rightarrow> provider_outcome" where
  "accepted_outcome q answer =
     (let contract_error = Provider_failed (adapter_failure q UNKNOWN_FAILURE Stage_invocation
            ''provider_contract_error'' [])
      in case answer of None \<Rightarrow> contract_error | Some out \<Rightarrow> if correlated q out then out else contract_error)"

definition invoke :: "'w dependencies \<Rightarrow> request \<Rightarrow> route_decision \<Rightarrow> string \<Rightarrow> (provider_outcome, 'w) step" where
  "invoke d r decision attempt_id =
     seq (elapsed d) (\<lambda>ms.
     seq (get id) (\<lambda>s.
     case ex_limits s of
       None \<Rightarrow> raise (Raised TypeError)
     | Some limits \<Rightarrow>
         let q = generation_request d r (ex_task s) limits decision attempt_id ms in
         seq (log_call (Execute_call q)) (\<lambda>_.
         seq (world (dp_execute d q)) (\<lambda>answer.
         ret (accepted_outcome q answer)))))"

definition actual_cost :: "'w dependencies \<Rightarrow> request \<Rightarrow> environment \<Rightarrow> provider_outcome \<Rightarrow> decimal option" where
  "actual_cost d r env out =
     (case out of
        Provider_failed f \<Rightarrow> if pf_stage f = Stage_preflight then Some ZERO
          else provider_cost (dg_quote (dp_digests d)) r out (dp_bundle d) env
      | Result _ \<Rightarrow> provider_cost (dg_quote (dp_digests d)) r out (dp_bundle d) env)"

definition outcome_failure :: "provider_outcome \<Rightarrow> failure option" where
  "outcome_failure out = (case out of Result _ \<Rightarrow> None
     | Provider_failed f \<Rightarrow> Some \<lparr>fl_failure_type = pf_failure_type f, fl_source = pf_source f,
         fl_stage = stage_name (pf_stage f), fl_cause_code = pf_cause_code f, fl_retryable = pf_retryable f,
         fl_retry_after_ms = pf_retry_after_ms f\<rparr>)"

text \<open>The usage evidence is saved before the settlement, which may fail.\<close>

definition account :: "'w dependencies \<Rightarrow> attempt \<Rightarrow> route_decision \<Rightarrow> decimal \<Rightarrow> provider_outcome \<Rightarrow> decimal option
    \<Rightarrow> (attempt, 'w) step" where
  "account d started decision estimate out actual =
     (let interim = started\<lparr>at_provider_outcome := Some out, at_actual_cost_usd := actual\<rparr> in
      seq (set_task (replace_last interim)) (\<lambda>_.
      seq (save d []) (\<lambda>_.
      seq (charge d (at_attempt_id started) actual estimate) (\<lambda>_.
      seq (add_generation_cost actual) (\<lambda>_.
      seq (observe_health d (''provider'', Some (rt_selected_model_alias decision), None)
             (map_option fl_failure_type (outcome_failure out)) (outcome_failure out = None)) (\<lambda>_.
      seq (set_task (replace_last interim)) (\<lambda>_.
      ret interim)))))))"

record verdict =
  vd_failure :: "failure option"
  vd_validated :: bool
  vd_original :: "failure_type option"
  vd_validations :: "validation_outcome list"

definition first_problem :: "validation_outcome list \<Rightarrow> validation_outcome option" where
  "first_problem results =
     (case find (\<lambda>v. map_option fl_failure_type (vo_failure v) = Some BUDGET_FAILURE) results of
        Some v \<Rightarrow> Some v
      | None \<Rightarrow> find (\<lambda>v. vo_failure v \<noteq> None) results)"

definition judge :: "validation_outcome list \<Rightarrow> verdict" where
  "judge results =
     (case first_problem results of
        None \<Rightarrow> \<lparr>vd_failure = None, vd_validated = list_all (\<lambda>v. vo_status v = Check_passed) results,
                 vd_original = None, vd_validations = results\<rparr>
      | Some problem \<Rightarrow> (case vo_diagnosed_failure problem of
          None \<Rightarrow> \<lparr>vd_failure = vo_failure problem, vd_validated = (claims_quality problem \<and> quality_evidence problem),
                   vd_original = None, vd_validations = results\<rparr>
        | Some diagnosed \<Rightarrow>
            \<lparr>vd_failure = map_option (\<lambda>f. f\<lparr>fl_failure_type := diagnosed\<rparr>) (vo_failure problem),
             vd_validated = (diagnosed = QUALITY_FAILURE),
             vd_original = map_option fl_failure_type (vo_failure problem), vd_validations = results\<rparr>))"

definition unjudged :: "failure option \<Rightarrow> verdict" where
  "unjudged failure = \<lparr>vd_failure = failure, vd_validated = False, vd_original = None, vd_validations = []\<rparr>"

definition run_validation :: "'w dependencies \<Rightarrow> request \<Rightarrow> provider_result \<Rightarrow> string \<Rightarrow> decimal
    \<Rightarrow> (verdict, 'w) step" where
  "run_validation d r result validation_id bound =
     seq (save d []) (\<lambda>_.
     seq (validate_output d (validation_checkpoint d r) r result (dp_controls d)) (\<lambda>validations.
     let costs = map vo_cost_usd validations;
         cost = (if None \<in> set costs then None else Some (money_sum (map the costs))) in
     seq (charge d validation_id cost bound) (\<lambda>_.
     seq (add_validation_cost cost) (\<lambda>_.
     ret (judge validations)))))"

definition validate_attempt :: "'w dependencies \<Rightarrow> request \<Rightarrow> provider_result \<Rightarrow> (verdict, 'w) step" where
  "validate_attempt d r result =
     seq (move d Validating id) (\<lambda>_.
     seq (save d []) (\<lambda>_.
     seq (checkpoint d r) (\<lambda>stopped.
     let bound = validation_bound (dp_checks d) (dp_controls d) in
     seq (if stopped \<noteq> None then ret stopped else admit d ''validation'' False None bound) (\<lambda>refused.
     seq (world (dp_uuid d)) (\<lambda>validation_id.
     case (refused, bound) of
       (None, Some amount) \<Rightarrow>
         seq (reserve d validation_id amount) (\<lambda>granted.
         if \<not> granted then ret (unjudged (Some (admission_stop BUDGET_FAILURE ''validation_reservation_refused'')))
         else run_validation d r result validation_id amount)
     | (None, None) \<Rightarrow> raise (Raised TypeError)
     | (Some f, _) \<Rightarrow> ret (unjudged (Some f)))))))"

definition recorded_failure :: "verdict \<Rightarrow> failure option \<Rightarrow> failure option" where
  "recorded_failure v failure =
     (if vd_original v \<noteq> None
      then (case find (\<lambda>o'. vo_failure o' \<noteq> None) (vd_validations v) of None \<Rightarrow> None | Some o' \<Rightarrow> vo_failure o')
      else failure)"

primrec validation_events :: "'w dependencies \<Rightarrow> string \<Rightarrow> validation_outcome list \<Rightarrow> (execution_event list, 'w) step" where
  "validation_events d attempt_id [] = ret []"
| "validation_events d attempt_id (v # vs) =
     seq (event d VALIDATION_COMPLETED (no_details\<lparr>ed_attempt_id := Some attempt_id,
            ed_evaluation_id := Some (vo_evaluation_id v),
            ed_failure := map_option fl_failure_type (vo_failure v)\<rparr>)) (\<lambda>ev.
     seq (validation_events d attempt_id vs) (\<lambda>evs.
     ret (ev # evs)))"

definition complete_attempt :: "'w dependencies \<Rightarrow> request \<Rightarrow> attempt \<Rightarrow> attempt \<Rightarrow> verdict \<Rightarrow> (verdict, 'w) step" where
  "complete_attempt d r started interim v =
     seq (if vd_failure v \<noteq> None then ret (vd_failure v) else validation_checkpoint d r) (\<lambda>failure.
     seq (finish d started (\<lambda>now. interim\<lparr>
            at_status := (if failure \<noteq> None then Attempt_failed else Attempt_succeeded),
            at_completed_at := Some now, at_failure := recorded_failure v failure,
            at_validations := vd_validations v\<rparr>)) (\<lambda>_.
     seq (event d ATTEMPT_COMPLETED (no_details\<lparr>ed_attempt_id := Some (at_attempt_id started),
            ed_failure := map_option fl_failure_type failure\<rparr>)) (\<lambda>completed.
     seq (validation_events d (at_attempt_id started) (vd_validations v)) (\<lambda>checks.
     seq (save d (completed # checks)) (\<lambda>_.
     ret (v\<lparr>vd_failure := failure\<rparr>))))))"

definition attempt_body :: "'w dependencies \<Rightarrow> request \<Rightarrow> environment \<Rightarrow> route_decision \<Rightarrow> decimal \<Rightarrow> attempt
    \<Rightarrow> (verdict, 'w) step" where
  "attempt_body d r env decision estimate started =
     seq (invoke d r decision (at_attempt_id started)) (\<lambda>out.
     seq (account d started decision estimate out (actual_cost d r env out)) (\<lambda>interim.
     seq (case out of Provider_failed _ \<Rightarrow> ret (unjudged (outcome_failure out))
          | Result result \<Rightarrow> validate_attempt d r result) (\<lambda>v.
     complete_attempt d r started interim v)))"

definition generate :: "'w dependencies \<Rightarrow> request \<Rightarrow> route_decision \<Rightarrow> (verdict, 'w) step" where
  "generate d r decision =
     seq (read_environment d r) (\<lambda>env.
     let estimate = generation_estimate decision in
     seq (admit d ''generation'' False None (admission_cost d decision)) (\<lambda>refused.
     if refused \<noteq> None then ret (unjudged refused)
     else
       seq (world (dp_uuid d)) (\<lambda>attempt_id.
       seq (reserve d attempt_id estimate) (\<lambda>granted.
       if \<not> granted then ret (unjudged (Some (admission_stop BUDGET_FAILURE ''budget_reservation_refused'')))
       else
         seq (begin_attempt d decision estimate attempt_id) (\<lambda>started.
         seq (dispatch_blocker d r decision estimate) (\<lambda>blocked.
         case blocked of
           Some f \<Rightarrow> seq (cancel_attempt d started estimate f) (\<lambda>_. ret (unjudged (Some f)))
         | None \<Rightarrow> attempt_body d r env decision estimate started))))))"

section \<open>Tools\<close>

definition last_attempt_id :: "task_result \<Rightarrow> string res" where
  "last_attempt_id task = (if tk_attempts task = [] then Inl IndexError
     else Inr (at_attempt_id (last (tk_attempts task))))"

definition started_tool :: "tool_call \<Rightarrow> string \<Rightarrow> string \<Rightarrow> tool_outcome" where
  "started_tool call event_id parent =
     \<lparr>to_tool_event_id = event_id, to_tool = tl_tool call, to_operation = tl_operation call,
      to_status = Tool_started, to_failure = None, to_cost_usd = None,
      to_estimated_cost_usd = tl_cost_upper_bound_usd call, to_parent_attempt_id = Some parent,
      to_latency_ms = 0, to_side_effecting = tl_side_effecting call, to_replay_safe = replay_safe call\<rparr>"

definition replace_last_tool :: "tool_outcome \<Rightarrow> task_result \<Rightarrow> task_result" where
  "replace_last_tool o' task = task\<lparr>tk_tool_events := butlast (tk_tool_events task) @ [o']\<rparr>"

definition begin_tool :: "'w dependencies \<Rightarrow> tool_call \<Rightarrow> string \<Rightarrow> (tool_outcome, 'w) step" where
  "begin_tool d call event_id =
     seq (get (last_attempt_id \<circ> ex_task)) (\<lambda>parent.
     seq (from_res parent) (\<lambda>parent_id.
     let started = started_tool call event_id parent_id in
     seq (set_task (\<lambda>t. t\<lparr>tk_tool_events := tk_tool_events t @ [started]\<rparr>)) (\<lambda>_.
     seq (save_event d TOOL_STARTED (no_details\<lparr>ed_tool_event_id := Some event_id,
            ed_attempt_id := Some parent_id\<rparr>)) (\<lambda>_.
     ret started))))"

abbreviation tool_unavailable :: failure where
  "tool_unavailable \<equiv> exec_failure TOOL_FAILURE ''required_tool_unavailable'' Source_tool"

definition tool_blocker :: "'w dependencies \<Rightarrow> request \<Rightarrow> tool_call \<Rightarrow> (failure option, 'w) step" where
  "tool_blocker d r call =
     seq (checkpoint d r) (\<lambda>stopped.
     if stopped \<noteq> None then ret stopped
     else seq (tool_available d (tl_tool call)) (\<lambda>ok. ret (if ok then None else Some tool_unavailable)))"

definition record_tool :: "'w dependencies \<Rightarrow> tool_outcome \<Rightarrow> tool_outcome \<Rightarrow> decimal \<Rightarrow> (unit, 'w) step" where
  "record_tool d started o' bound =
     seq (charge d (to_tool_event_id started) (to_cost_usd o') bound) (\<lambda>_.
     seq (set_task (replace_last_tool o')) (\<lambda>_.
     save_event d TOOL_COMPLETED (no_details\<lparr>ed_tool_event_id := Some (to_tool_event_id started),
       ed_attempt_id := to_parent_attempt_id started, ed_failure := map_option fl_failure_type (to_failure o')\<rparr>)))"

definition tool_outcome_ok :: "tool_call \<Rightarrow> string \<Rightarrow> tool_outcome \<Rightarrow> bool" where
  "tool_outcome_ok call event_id o' = (to_tool_event_id o' = event_id \<and> to_tool o' = tl_tool call
     \<and> to_operation o' = tl_operation call \<and> to_status o' \<in> {Tool_succeeded, Tool_failed}
     \<and> (to_status o' = Tool_failed) = (to_failure o' \<noteq> None)
     \<and> (case to_failure o' of None \<Rightarrow> True
        | Some f \<Rightarrow> fl_failure_type f = TOOL_FAILURE \<and> fl_source f = Source_tool))"

definition accepted_tool_outcome :: "tool_call \<Rightarrow> tool_outcome \<Rightarrow> tool_outcome option \<Rightarrow> tool_outcome" where
  "accepted_tool_outcome call started answer =
     (let contract_error = started\<lparr>to_status := Tool_unknown,
            to_failure := Some (exec_failure TOOL_FAILURE ''tool_contract_error'' Source_tool)\<rparr>;
          o' = (case answer of None \<Rightarrow> contract_error
            | Some o' \<Rightarrow> if tool_outcome_ok call (to_tool_event_id started) o' then o' else contract_error)
      in o'\<lparr>to_estimated_cost_usd := to_estimated_cost_usd started,
            to_parent_attempt_id := to_parent_attempt_id started,
            to_side_effecting := to_side_effecting started, to_replay_safe := to_replay_safe started\<rparr>)"

definition run_tool :: "'w dependencies \<Rightarrow> tool_call \<Rightarrow> tool_outcome \<Rightarrow> decimal \<Rightarrow> (tool_outcome, 'w) step" where
  "run_tool d call started bound =
     seq (get ex_task) (\<lambda>task.
     seq (log_call (Tool_call call (to_tool_event_id started))) (\<lambda>_.
     seq (case dp_tools d of None \<Rightarrow> ret None
          | Some tools \<Rightarrow> world (tools call (tk_task_id task) (tk_trace_id task) (to_tool_event_id started))) (\<lambda>answer.
     let o' = accepted_tool_outcome call started answer in
     seq (observe_health d (''tool'', None, Some (tl_tool call)) (map_option fl_failure_type (to_failure o'))
            (to_failure o' = None)) (\<lambda>_.
     seq (record_tool d started o' bound) (\<lambda>_.
     ret o')))))"

definition recovery_context_of :: "'w dependencies \<Rightarrow> request \<Rightarrow> route_decision \<Rightarrow> failure
    \<Rightarrow> (recovery_context, 'w) step" where
  "recovery_context_of d r decision failure =
     seq (read_environment d r) (\<lambda>env.
     seq (remaining d) (\<lambda>available.
     seq (elapsed d) (\<lambda>ms.
     seq (get id) (\<lambda>s.
     case ex_limits s of
       None \<Rightarrow> raise (Raised TypeError)
     | Some limits \<Rightarrow> ret \<lparr>rx_decision = decision, rx_failure = failure, rx_counters = tk_counters (ex_task s),
         rx_limits = limits, rx_environment = env, rx_remaining_usd = available, rx_elapsed_ms = ms,
         rx_validated = False, rx_original_failure = None, rx_tool_call = None, rx_tool_retryable = False,
         rx_alternate_authorized = False\<rparr>))))"

definition record_action :: "'w dependencies \<Rightarrow> recovery_action \<Rightarrow> (unit, 'w) step" where
  "record_action d a =
     seq (set_task (\<lambda>t. t\<lparr>tk_recovery_actions := tk_recovery_actions t @ [a]\<rparr>)) (\<lambda>_.
     save_event d RECOVERY_SELECTED (no_details\<lparr>ed_failure := ra_failure a, ed_action := Some (ra_action a)\<rparr>))"

definition alternate_authorized :: "execution_controls \<Rightarrow> tool_call \<Rightarrow> bool" where
  "alternate_authorized controls call = (case tl_alternate_tool call of None \<Rightarrow> False
     | Some tool \<Rightarrow> tool \<noteq> [] \<and> tool \<in> set (xc_authorized_tools controls))"

text \<open>After a failed tool call: the failure that ends the task, or the call to make next.\<close>

definition count_tool_recovery :: "counters \<Rightarrow> counters" where
  "count_tool_recovery c = c\<lparr>ct_tool_recoveries := ct_tool_recoveries c + 1\<rparr>"

definition recover_tool :: "'w dependencies \<Rightarrow> request \<Rightarrow> route_decision \<Rightarrow> tool_call \<Rightarrow> failure
    \<Rightarrow> (failure + tool_call, 'w) step" where
  "recover_tool d r decision call failure =
     seq (move d Recovering id) (\<lambda>_.
     seq (recovery_context_of d r decision failure) (\<lambda>ctx.
     seq (from_res (choose_recovery (ctx\<lparr>rx_tool_call := Some call, rx_tool_retryable := fl_retryable failure,
            rx_alternate_authorized := alternate_authorized (dp_controls d) call\<rparr>) (dp_bundle d))) (\<lambda>a.
     seq (record_action d a) (\<lambda>_.
     if ra_action a \<notin> {Retry_tool, Alternate_tool}
     then ret (Inl (exec_failure (case ra_failure a of None \<Rightarrow> TOOL_FAILURE | Some f \<Rightarrow> f)
            (if ra_action a = Stop_reconcile then ''unsafe_side_effect_replay'' else ra_reason a) Source_tool))
     else
       seq (set_task (\<lambda>t. t\<lparr>tk_counters := count_tool_recovery (tk_counters t)\<rparr>)) (\<lambda>_.
       seq (move d Validating id) (\<lambda>_.
       ret (Inr (if ra_action a = Alternate_tool
         then (case tl_alternate_tool call of None \<Rightarrow> call
               | Some tool \<Rightarrow> call\<lparr>tl_tool := tool, tl_alternate_tool := None\<rparr>)
         else call))))))))"

definition use_tool :: "'w dependencies \<Rightarrow> request \<Rightarrow> tool_call \<Rightarrow> bool \<Rightarrow> (failure + tool_outcome, 'w) step" where
  "use_tool d r call replay =
     seq (read_environment d r) (\<lambda>_.
     seq (checkpoint d r) (\<lambda>stopped.
     seq (if stopped \<noteq> None then ret stopped
          else admit d ''tool'' replay (Some call) (tl_cost_upper_bound_usd call)) (\<lambda>refused.
     case (refused, tl_cost_upper_bound_usd call) of
       (Some f, _) \<Rightarrow> ret (Inl f)
     | (None, None) \<Rightarrow> raise (Raised TypeError)
     | (None, Some bound) \<Rightarrow>
         seq (tool_available d (tl_tool call)) (\<lambda>ok.
         if \<not> ok then ret (Inl tool_unavailable)
         else
           seq (world (dp_uuid d)) (\<lambda>event_id.
           seq (reserve d event_id bound) (\<lambda>granted.
           if \<not> granted then ret (Inl (admission_stop BUDGET_FAILURE ''tool_reservation_refused''))
           else
             seq (begin_tool d call event_id) (\<lambda>started.
             seq (tool_blocker d r call) (\<lambda>blocked.
             case blocked of
               Some f \<Rightarrow>
                 seq (record_tool d started (started\<lparr>to_status := Tool_failed, to_failure := Some f,
                        to_cost_usd := Some ZERO\<rparr>) bound) (\<lambda>_. ret (Inl f))
             | None \<Rightarrow> seq (run_tool d call started bound) (\<lambda>o'. ret (Inr o'))))))))))"

primrec tool_loop :: "'w dependencies \<Rightarrow> request \<Rightarrow> route_decision \<Rightarrow> nat \<Rightarrow> tool_call \<Rightarrow> bool
    \<Rightarrow> (failure option, 'w) step" where
  "tool_loop d r decision 0 call replay = raise Loop_bound"
| "tool_loop d r decision (Suc n) call replay =
     seq (use_tool d r call replay) (\<lambda>used.
     case used of
       Inl f \<Rightarrow> ret (Some f)
     | Inr o' \<Rightarrow> (case to_failure o' of
         None \<Rightarrow> ret None
       | Some f \<Rightarrow>
           seq (recover_tool d r decision call f) (\<lambda>step.
           case step of Inl stopped \<Rightarrow> ret (Some stopped) | Inr call' \<Rightarrow> tool_loop d r decision n call' True)))"

primrec run_tools :: "'w dependencies \<Rightarrow> request \<Rightarrow> route_decision \<Rightarrow> nat \<Rightarrow> tool_call list \<Rightarrow> (failure option, 'w) step" where
  "run_tools d r decision n [] = ret None"
| "run_tools d r decision n (call # calls) =
     seq (tool_loop d r decision n call False) (\<lambda>failure.
     if failure \<noteq> None then ret failure else run_tools d r decision n calls)"

section \<open>Recovery of an attempt\<close>

definition plain_action :: "action_kind \<Rightarrow> failure_type option \<Rightarrow> failure_type option \<Rightarrow> route_target option
    \<Rightarrow> bool \<Rightarrow> string list \<Rightarrow> string \<Rightarrow> recovery_action" where
  "plain_action kind failure original wanted validated codes reason =
     \<lparr>ra_action = kind, ra_failure = failure, ra_original_failure = original, ra_route = wanted,
      ra_validated = validated, ra_backoff_ms = 0, ra_rationale_codes = codes, ra_reason = reason\<rparr>"

definition redispatching :: "action_kind list" where
  "redispatching = [Increase_effort, Increase_tier, Retry_backoff, Health_aware_fallback]"

definition wait_backoff :: "'w dependencies \<Rightarrow> recovery_action \<Rightarrow> failure \<Rightarrow> bool \<Rightarrow> (recovery_action, 'w) step" where
  "wait_backoff d a failure validated =
     (if ra_backoff_ms a = 0 then ret a
      else
        seq (elapsed d) (\<lambda>ms.
        seq (get ex_limits) (\<lambda>limits.
        case limits of
          None \<Rightarrow> raise (Raised TypeError)
        | Some l \<Rightarrow>
            if xl_max_elapsed_ms l \<le> ms + ra_backoff_ms a
            then ret (plain_action Stop_deadline (Some BUDGET_FAILURE) (Some (fl_failure_type failure)) None
              validated [] ''deadline_exceeded'')
            else seq (world (\<lambda>w. ((), dp_sleep d (ra_backoff_ms a) w))) (\<lambda>_. ret a))))"

text \<open>The proposed route must be available, else the proposal turns into a stop.\<close>

definition probe_route :: "'w dependencies \<Rightarrow> request \<Rightarrow> recovery_action \<Rightarrow> failure \<Rightarrow> bool
    \<Rightarrow> (recovery_action, 'w) step" where
  "probe_route d r a failure validated =
     (case ra_route a of
        None \<Rightarrow> ret a
      | Some wanted \<Rightarrow>
          seq (select d r (Some wanted) False) (\<lambda>next_decision.
          seq (task_readiness d r next_decision) (\<lambda>blockers.
          ret (case next_decision of
              Rejection rejection \<Rightarrow>
                plain_action (if rj_failure_type rejection = BUDGET_FAILURE then Stop_budget else Recoverable_failure)
                  (Some (rj_failure_type rejection)) (Some (fl_failure_type failure)) None validated
                  (ra_rationale_codes a) ''recovery_route_unavailable''
            | Decision _ \<Rightarrow>
                if blockers \<noteq> []
                then plain_action Recoverable_failure (Some (fl_failure_type failure))
                  (Some (fl_failure_type failure)) None validated (ra_rationale_codes a) ''recovery_route_unavailable''
                else a))))"

definition propose :: "'w dependencies \<Rightarrow> request \<Rightarrow> route_decision \<Rightarrow> failure \<Rightarrow> bool \<Rightarrow> failure_type option
    \<Rightarrow> (recovery_action, 'w) step" where
  "propose d r decision failure validated original =
     seq (recovery_context_of d r decision failure) (\<lambda>ctx.
     if fl_failure_type failure = QUALITY_FAILURE \<and> \<not> validated
     then ret (plain_action Diagnose (Some (fl_failure_type failure)) original (Some (target decision)) False []
       ''quality_confirmation_required'')
     else from_res (choose_recovery (ctx\<lparr>rx_validated := validated, rx_original_failure := original\<rparr>) (dp_bundle d)))"

definition recover :: "'w dependencies \<Rightarrow> request \<Rightarrow> route_decision \<Rightarrow> failure \<Rightarrow> bool \<Rightarrow> failure_type option
    \<Rightarrow> (recovery_action, 'w) step" where
  "recover d r decision failure validated original =
     seq (move d Recovering id) (\<lambda>_.
     seq (propose d r decision failure validated original) (\<lambda>proposed.
     seq (if ra_action proposed \<in> set redispatching
          then seq (wait_backoff d proposed failure validated) (\<lambda>waited. probe_route d r waited failure validated)
          else ret proposed) (\<lambda>a.
     seq (record_action d a) (\<lambda>_.
     ret a))))"

section \<open>The run\<close>

definition conclude :: "'w dependencies \<Rightarrow> route_decision \<Rightarrow> (task_result, 'w) step" where
  "conclude d decision =
     seq (get (tk_attempts \<circ> ex_task)) (\<lambda>attempts.
     case (if attempts = [] then None else at_provider_outcome (last attempts)) of
       Some (Result final) \<Rightarrow>
         seq (set_task (\<lambda>t. t\<lparr>tk_recovery_actions := tk_recovery_actions t
                @ [plain_action Stop_succeeded None None (Some (target decision)) True [] ''validated_success'']\<rparr>)) (\<lambda>_.
         seq (move d Succeeded (\<lambda>t. t\<lparr>tk_output := ps_text final,
                tk_structured_output := ps_structured_output final\<rparr>)) (\<lambda>_.
         seq (save_event d TASK_SUCCEEDED no_details) (\<lambda>_.
         get ex_task)))
     | _ \<Rightarrow> raise (Raised TypeError))"

definition halt_tool :: "'w dependencies \<Rightarrow> failure \<Rightarrow> (task_result, 'w) step" where
  "halt_tool d failure = stop d failure
     (if fl_cause_code failure = ''cancelled'' then Cancelled
      else if fl_cause_code failure \<in> {''unsafe_side_effect_replay'', ''approval_required''} then Blocked else Failed)"

definition tool_fuel :: "execution_limits option \<Rightarrow> nat" where
  "tool_fuel limits = (case limits of None \<Rightarrow> 0 | Some l \<Rightarrow> xl_max_tool_recoveries l + 1)"

definition succeed :: "'w dependencies \<Rightarrow> request \<Rightarrow> route_decision \<Rightarrow> (task_result, 'w) step" where
  "succeed d r decision =
     seq (get (tool_fuel \<circ> ex_limits)) (\<lambda>n.
     seq (run_tools d r decision n (xc_tool_calls (dp_controls d))) (\<lambda>tool_failure.
     case tool_failure of
       Some f \<Rightarrow> halt_tool d f
     | None \<Rightarrow>
         seq (checkpoint d r) (\<lambda>stopped.
         case stopped of Some f \<Rightarrow> halt d f | None \<Rightarrow> conclude d decision)))"

definition count_recovery :: "action_kind \<Rightarrow> counters \<Rightarrow> counters" where
  "count_recovery kind c =
     (if kind \<in> {Increase_effort, Increase_tier}
      then c\<lparr>ct_quality_escalations := ct_quality_escalations c + 1\<rparr>
      else c\<lparr>ct_infrastructure_retries := ct_infrastructure_retries c + 1\<rparr>)"

text \<open>After a failed attempt: the status the task ends in, or \<open>None\<close> when recovery may be tried.\<close>

definition final_failure :: "'w execution \<Rightarrow> failure \<Rightarrow> (failure \<times> task_status) option" where
  "final_failure s failure =
     (if fl_source failure = Source_evaluator then Some (failure, Failed)
      else if ex_budget_unavailable s
      then Some (admission_stop BUDGET_FAILURE ''budget_authority_unavailable'', Failed)
      else if fl_cause_code failure = ''trusted_execution_environment_changed'' then Some (failure, Blocked)
      else if fl_cause_code failure = ''cancelled'' then Some (failure, Cancelled)
      else if tk_status (ex_task s) \<in> {Routed, Admitted} then Some (failure, Blocked)
      else None)"

definition next_route :: "'w dependencies \<Rightarrow> request \<Rightarrow> recovery_action \<Rightarrow> failure
    \<Rightarrow> (task_result + route_decision, 'w) step" where
  "next_route d r a failure =
     (if ra_action a \<notin> set redispatching
      then seq (stop d (exec_failure (case ra_failure a of None \<Rightarrow> fl_failure_type failure | Some f \<Rightarrow> f)
             (ra_reason a) (fl_source failure)) Failed) (\<lambda>task. ret (Inl task))
      else
        seq (set_task (\<lambda>t. t\<lparr>tk_counters := count_recovery (ra_action a) (tk_counters t)\<rparr>)) (\<lambda>_.
        seq (select d r (ra_route a) True) (\<lambda>result.
        case result of
          Rejection rejection \<Rightarrow> seq (stop d (admission_stop (rj_failure_type rejection) ''recovery_route_rejected'') Failed)
            (\<lambda>task. ret (Inl task))
        | Decision decision \<Rightarrow> ret (Inr decision))))"

primrec run_loop :: "'w dependencies \<Rightarrow> request \<Rightarrow> nat \<Rightarrow> route_decision \<Rightarrow> (task_result, 'w) step" where
  "run_loop d r 0 decision = raise Loop_bound"
| "run_loop d r (Suc n) decision =
     seq (checkpoint d r) (\<lambda>stopped.
     case stopped of
       Some f \<Rightarrow> halt d f
     | None \<Rightarrow>
         seq (readiness_of_decision d r decision) (\<lambda>blockers.
         case blockers of
           blocker # _ \<Rightarrow> stop d (admission_stop CAPABILITY_FAILURE blocker) Blocked
         | [] \<Rightarrow>
             seq (generate d r decision) (\<lambda>v.
             case vd_failure v of
               None \<Rightarrow> succeed d r decision
             | Some failure \<Rightarrow>
                 seq (get id) (\<lambda>s.
                 case final_failure s failure of
                   Some (f, status) \<Rightarrow> stop d f status
                 | None \<Rightarrow>
                     seq (recover d r decision failure (vd_validated v) (vd_original v)) (\<lambda>a.
                     seq (next_route d r a failure) (\<lambda>step.
                     case step of Inl task \<Rightarrow> ret task | Inr decision' \<Rightarrow> run_loop d r n decision'))))))"

definition loop_fuel :: "execution_limits option \<Rightarrow> nat" where
  "loop_fuel limits = (case limits of None \<Rightarrow> 0 | Some l \<Rightarrow> xl_max_total_generation_attempts l + 1)"

definition start_routing :: "'w dependencies \<Rightarrow> request \<Rightarrow> classification \<Rightarrow> (task_result, 'w) step" where
  "start_routing d r c =
     seq (move d Classified (\<lambda>t. t\<lparr>tk_classification := Some c\<rparr>)) (\<lambda>_.
     seq (save_event d TASK_CLASSIFIED no_details) (\<lambda>_.
     seq (select d r None True) (\<lambda>result.
     case result of
       Rejection rejection \<Rightarrow> stop d (admission_stop (rj_failure_type rejection) ''initial_route_rejected'') Failed
     | Decision decision \<Rightarrow> seq (get (loop_fuel \<circ> ex_limits)) (\<lambda>n. run_loop d r n decision))))"

definition classify :: "'w dependencies \<Rightarrow> request \<Rightarrow> (task_result + classification, 'w) step" where
  "classify d r =
     seq (get ex_classification) (\<lambda>supplied.
     case supplied of
       Some c \<Rightarrow> ret (Inr c)
     | None \<Rightarrow> (case dp_mock_classifier d of
         None \<Rightarrow> seq (stop d (admission_stop CAPABILITY_FAILURE ''admitted_mock_classifier_required'') Blocked)
           (\<lambda>task. ret (Inl task))
       | Some run_classifier \<Rightarrow>
           seq (admit d ''classification'' False None (Some ZERO)) (\<lambda>refused.
           case refused of
             Some f \<Rightarrow> seq (stop d f Blocked) (\<lambda>task. ret (Inl task))
           | None \<Rightarrow>
               seq (world (run_classifier r)) (\<lambda>result.
               case result of
                 Inl (ft, cause) \<Rightarrow> seq (stop d (exec_failure ft cause Source_classifier) Failed) (\<lambda>task. ret (Inl task))
               | Inr c \<Rightarrow> seq (modify (\<lambda>s. s\<lparr>ex_classification := Some c\<rparr>)) (\<lambda>_. ret (Inr c))))))"

definition narrow_limits :: "limits \<Rightarrow> execution_limits \<Rightarrow> execution_limits option" where
  "narrow_limits resolved l =
     (case (lim_task_cost_ceiling_usd resolved, lim_task_deadline_ms resolved) of
        (Some cost_ceiling, Some deadline) \<Rightarrow> Some (l\<lparr>
           xl_task_cost_ceiling_usd := dec_min (xl_task_cost_ceiling_usd l) cost_ceiling,
           xl_max_elapsed_ms := min (xl_max_elapsed_ms l) deadline\<rparr>)
      | _ \<Rightarrow> None)"

definition run_admitted :: "'w dependencies \<Rightarrow> request \<Rightarrow> environment \<Rightarrow> (task_result, 'w) step" where
  "run_admitted d r env =
     seq (get ex_limits) (\<lambda>given.
     let blocked = (\<lambda>ft cause. stop d (admission_stop ft cause) Blocked) in
     if \<not> env_synthetic env then blocked CAPABILITY_FAILURE ''production_execution_disabled''
     else if \<not> dp_mock_provider d then blocked CAPABILITY_FAILURE ''mock_provider_required''
     else case given of
       None \<Rightarrow> blocked BUDGET_FAILURE ''finite_execution_limits_required''
     | Some l \<Rightarrow>
         seq (from_res (resolve_limits r env (dp_bundle d))) (\<lambda>resolved.
         case narrow_limits resolved l of
           None \<Rightarrow> blocked BUDGET_FAILURE ''finite_execution_limits_required''
         | Some narrowed \<Rightarrow>
             seq (modify (\<lambda>s. s\<lparr>ex_limits := Some narrowed\<rparr>)) (\<lambda>_.
             seq (set_task (\<lambda>t. t\<lparr>tk_execution_limits := Some narrowed\<rparr>)) (\<lambda>_.
             if \<not> xc_authorized (dp_controls d) then blocked CAPABILITY_FAILURE ''approval_required''
             else
               seq (checkpoint d r) (\<lambda>stopped.
               case stopped of
                 Some f \<Rightarrow> halt d f
               | None \<Rightarrow>
                   seq (classify d r) (\<lambda>classified.
                   case classified of Inl task \<Rightarrow> ret task | Inr c \<Rightarrow> start_routing d r c))))))"

definition run :: "'w dependencies \<Rightarrow> request \<Rightarrow> (task_result, 'w) step" where
  "run d r =
     seq (read_environment d r) (\<lambda>env.
     let scope = (if truthy_name (env_trusted_application_id env) then the (env_trusted_application_id env)
           else ''embedded'');
         key = xc_idempotency_key (dp_controls d) in
     seq (set_task (\<lambda>t. t\<lparr>tk_application_id := env_trusted_application_id env\<rparr>)) (\<lambda>_.
     seq (event d TASK_CREATED no_details) (\<lambda>created.
     seq (get id) (\<lambda>s.
     seq (world (dp_create d (ex_task s) created scope
            (if truthy_name key then Some (dp_key_digest d scope (the key)) else None)
            (dp_request_digest d r (dp_controls d) (ex_classification s)))) (\<lambda>answer.
     seq (from_res answer) (\<lambda>existing.
     case existing of
       Some task \<Rightarrow> ret task
     | None \<Rightarrow>
         seq (world (dp_pin_versions d (dp_bundle d))) (\<lambda>pinned_versions.
         case pinned_versions of
           Inl e \<Rightarrow>
             if e = ConcurrentUpdate
             then stop d (exec_failure CAPABILITY_FAILURE ''configuration_snapshot_conflict'' Source_storage) Blocked
             else if e = RepositoryUnavailable
             then stop d (exec_failure PROVIDER_FAILURE ''configuration_snapshot_unavailable'' Source_storage) Blocked
             else raise (Raised e)
         | Inr _ \<Rightarrow> run_admitted d r env)))))))"

definition new_execution :: "'w dependencies \<Rightarrow> request \<Rightarrow> classification option \<Rightarrow> 'w \<Rightarrow> 'w execution" where
  "new_execution d r supplied w =
     (let (now, w') = dp_now d w
      in \<lparr>ex_task = new_task (rq_task_id r) (rq_trace_id r) (pol_version (pb_policy (dp_bundle d))) now,
          ex_classification = supplied, ex_limits = dp_limits d, ex_cost_violation = False,
          ex_budget_unavailable = False, ex_initial_environment = None, ex_health = dp_health d,
          ex_log = [], ex_world = w'\<rparr>)"

definition execute :: "'w dependencies \<Rightarrow> request \<Rightarrow> classification option \<Rightarrow> 'w
    \<Rightarrow> (exec_error + task_result) \<times> 'w execution" where
  "execute d r supplied w =
     catch (run d r)
       (\<lambda>e. if e = Environment_changed then stop d environment_failure Blocked else raise e)
       (new_execution d r supplied w)"

end
