(* ===== verification/ExecutionLogic.thy ===== *)
theory ExecutionLogic
  imports Dispatch
begin

text \<open>
  How steps of an execution are reasoned about. Most steps are clerical: they read the surroundings,
  write revisions and change nothing that the guarantees of an execution speak of. Being clerical
  composes, so it is shown by introduction rules alone. A triple says what the other steps establish;
  it has one assertion for all the ways in which a step may raise.
\<close>

section \<open>Clerical steps\<close>

fun clerical_call :: "call \<Rightarrow> bool" where
  "clerical_call (Save_call task events saved) = True"
| "clerical_call (Retain_call task events) = True"
| "clerical_call c = False"

text \<open>A task without the bookkeeping that every revision and every look at the health service changes.\<close>

definition core :: "task_result \<Rightarrow> task_result" where
  "core t = t\<lparr>tk_revision := 0, tk_updated_at := 0, tk_health_snapshots := []\<rparr>"

definition touch :: "'w execution \<Rightarrow> 'w execution \<Rightarrow> bool" where
  "touch s s' =
     (ex_limits s' = ex_limits s \<and> ex_cost_violation s' = ex_cost_violation s
      \<and> (ex_budget_unavailable s \<longrightarrow> ex_budget_unavailable s')
      \<and> (\<exists>calls. list_all clerical_call calls \<and> ex_log s' = ex_log s @ calls)
      \<and> core (ex_task s') = core (ex_task s))"

lemma core_fields [simp]:
  "tk_status (core t) = tk_status t" "tk_attempts (core t) = tk_attempts t"
  "tk_counters (core t) = tk_counters t" "tk_known_cost_usd (core t) = tk_known_cost_usd t"
  "tk_reserved_cost_usd (core t) = tk_reserved_cost_usd t" "tk_tool_events (core t) = tk_tool_events t"
  by (simp_all add: core_def)

lemma touch_core:
  assumes "touch s s'"
  shows "tk_status (ex_task s') = tk_status (ex_task s)" and "tk_attempts (ex_task s') = tk_attempts (ex_task s)"
    and "tk_counters (ex_task s') = tk_counters (ex_task s)"
    and "tk_known_cost_usd (ex_task s') = tk_known_cost_usd (ex_task s)"
    and "tk_reserved_cost_usd (ex_task s') = tk_reserved_cost_usd (ex_task s)"
    and "tk_tool_events (ex_task s') = tk_tool_events (ex_task s)"
  using assms unfolding touch_def by (metis core_fields)+

lemma touch_refl: "touch s s"
  by (auto simp: touch_def intro: exI [of _ "[]"])

lemma touch_trans:
  assumes "touch s t" and "touch t u"
  shows "touch s u"
proof -
  obtain c1 c2 where "list_all clerical_call (c1 @ c2)" and "ex_log u = ex_log s @ (c1 @ c2)"
    using assms unfolding touch_def by auto
  then show ?thesis using assms unfolding touch_def by metis
qed

definition tame :: "exec_error \<Rightarrow> bool" where
  "tame e = (e \<noteq> Invalid_transition \<and> e \<noteq> Loop_bound)"

definition clerical :: "('a, 'w) step \<Rightarrow> bool" where
  "clerical m = (\<forall>s. wp m (\<lambda>_ s'. touch s s') (\<lambda>e s'. touch s s' \<and> tame e) s)"

named_theorems clerical_steps \<open>which steps are clerical\<close>

lemma clericalI: "(\<And>s. wp m (\<lambda>_ s'. touch s s') (\<lambda>e s'. touch s s' \<and> tame e) s) \<Longrightarrow> clerical m"
  by (simp add: clerical_def)

lemma clerical_ret [clerical_steps]: "clerical (ret x)"
  by (simp add: clerical_def wp touch_refl)

lemma clerical_raise_env [clerical_steps]: "clerical (raise Environment_changed)"
  by (simp add: clerical_def wp touch_refl tame_def)

lemma clerical_raise [clerical_steps]: "clerical (raise (Raised e))"
  by (simp add: clerical_def wp touch_refl tame_def)

lemma clerical_get [clerical_steps]: "clerical (get f)"
  by (simp add: clerical_def wp touch_refl)

lemma touch_world: "touch s (s\<lparr>ex_world := w\<rparr>)"
  using touch_refl [of s] by (simp add: touch_def)

lemma clerical_world [clerical_steps]: "clerical (world f)"
  by (simp add: clerical_def wp touch_world)

lemma clerical_from_res [clerical_steps]: "clerical (from_res v)"
  by (auto simp: clerical_def wp touch_refl tame_def split: sum.splits)

lemma clerical_seq [clerical_steps]:
  fixes m :: "('a, 'w) step" and f :: "'a \<Rightarrow> ('b, 'w) step"
  assumes m: "clerical m" and f: "\<And>x. clerical (f x)"
  shows "clerical (seq m f)"
proof (rule clericalI)
  fix s :: "'w execution"
  have "wp m (\<lambda>_ s'. touch s s') (\<lambda>e s'. touch s s' \<and> tame e) s" using m by (simp add: clerical_def)
  then have "wp m (\<lambda>x. wp (f x) (\<lambda>_ s'. touch s s') (\<lambda>e s'. touch s s' \<and> tame e))
      (\<lambda>e s'. touch s s' \<and> tame e) s"
  proof (rule wp_weaken)
    fix x t
    assume "touch s t"
    moreover have "wp (f x) (\<lambda>_ s'. touch t s') (\<lambda>e s'. touch t s' \<and> tame e) t"
      using f by (simp add: clerical_def)
    ultimately show "wp (f x) (\<lambda>_ s'. touch s s') (\<lambda>e s'. touch s s' \<and> tame e) t"
      by (auto elim!: wp_weaken intro: touch_trans)
  qed
  then show "wp (seq m f) (\<lambda>_ s'. touch s s') (\<lambda>e s'. touch s s' \<and> tame e) s" by (simp add: wp)
qed

lemma clerical_catch [clerical_steps]:
  fixes m :: "('a, 'w) step"
  assumes m: "clerical m" and h: "\<And>e. tame e \<Longrightarrow> clerical (h e)"
  shows "clerical (catch m h)"
proof (rule clericalI)
  fix s :: "'w execution"
  have "wp m (\<lambda>_ s'. touch s s') (\<lambda>e s'. touch s s' \<and> tame e) s" using m by (simp add: clerical_def)
  then have "wp m (\<lambda>_ s'. touch s s') (\<lambda>e. wp (h e) (\<lambda>_ s'. touch s s') (\<lambda>e s'. touch s s' \<and> tame e)) s"
  proof (rule wp_weaken)
    fix e t
    assume "touch s t \<and> tame e"
    then have "touch s t" and "wp (h e) (\<lambda>_ s'. touch t s') (\<lambda>e s'. touch t s' \<and> tame e) t"
      using h by (auto simp: clerical_def)
    then show "wp (h e) (\<lambda>_ s'. touch s s') (\<lambda>e s'. touch s s' \<and> tame e) t"
      by (auto elim!: wp_weaken intro: touch_trans)
  qed
  then show "wp (catch m h) (\<lambda>_ s'. touch s s') (\<lambda>e s'. touch s s' \<and> tame e) s" by (simp add: wp)
qed

lemma clerical_reraise: "tame e \<Longrightarrow> clerical (raise e)"
  by (simp add: clerical_def wp touch_refl)

lemma clerical_if [clerical_steps]: "clerical m \<Longrightarrow> clerical m' \<Longrightarrow> clerical (if c then m else m')"
  by simp

lemma clerical_Let [clerical_steps]: "(\<And>x. clerical (f x)) \<Longrightarrow> clerical (let x = t in f x)"
  by (simp add: Let_def)

lemma clerical_option [clerical_steps]:
  "clerical m \<Longrightarrow> (\<And>x. clerical (f x)) \<Longrightarrow> clerical (case v of None \<Rightarrow> m | Some x \<Rightarrow> f x)"
  by (simp split: option.split)

lemma clerical_sum [clerical_steps]:
  "(\<And>e. clerical (m e)) \<Longrightarrow> (\<And>x. clerical (f x)) \<Longrightarrow> clerical (case v of Inl e \<Rightarrow> m e | Inr x \<Rightarrow> f x)"
  by (simp split: sum.split)

lemma clerical_prod [clerical_steps]: "(\<And>x y. clerical (f x y)) \<Longrightarrow> clerical (case v of (x, y) \<Rightarrow> f x y)"
  by (simp split: prod.split)

lemma clerical_route_result [clerical_steps]:
  "(\<And>x. clerical (f x)) \<Longrightarrow> (\<And>x. clerical (g x)) \<Longrightarrow> clerical (case v of Decision x \<Rightarrow> f x | Rejection x \<Rightarrow> g x)"
  by (simp split: route_result.split)

lemma clerical_mark_unavailable [clerical_steps]: "clerical mark_unavailable"
  using touch_refl by (auto simp: clerical_def mark_unavailable_def wp touch_def)

lemma clerical_pin [clerical_steps]: "clerical (modify (\<lambda>s. s\<lparr>ex_initial_environment := v\<rparr>))"
  using touch_refl by (auto simp: clerical_def wp touch_def)

lemma clerical_health [clerical_steps]: "clerical (modify (\<lambda>s. s\<lparr>ex_health := v\<rparr>))"
  using touch_refl by (auto simp: clerical_def wp touch_def)

lemma clerical_task:
  assumes "\<And>t. core (f t) = core t"
  shows "clerical (set_task f)"
  using assms touch_refl by (auto simp: clerical_def wp touch_def)

lemma clerical_add_snapshot [clerical_steps]: "clerical (set_task (add_snapshot sn))"
  by (rule clerical_task) (simp add: add_snapshot_def core_def)

lemma clerical_revision [clerical_steps]: "clerical (set_task (\<lambda>t. t\<lparr>tk_revision := n, tk_updated_at := now\<rparr>))"
  by (rule clerical_task) (simp add: core_def)

lemma clerical_log [clerical_steps]:
  assumes "clerical_call c"
  shows "clerical (log_call c)"
  using assms touch_refl by (auto simp: clerical_def wp touch_def)

section \<open>Which steps are clerical\<close>

lemma clerical_read_environment [clerical_steps]: "clerical (read_environment d r)"
  unfolding read_environment_def pin_environment_def project_health_def by (intro clerical_steps)

lemma clerical_elapsed [clerical_steps]: "clerical (elapsed d)"
  unfolding elapsed_def by (intro clerical_steps)

lemma clerical_remaining [clerical_steps]: "clerical (remaining d)"
  unfolding remaining_def by (intro clerical_steps)

lemma clerical_event [clerical_steps]: "clerical (event d kind x)"
  unfolding event_def by (intro clerical_steps)

lemma clerical_save [clerical_steps]: "clerical (save d events)"
  unfolding save_def by (intro clerical_steps) simp_all

lemma clerical_save_event [clerical_steps]: "clerical (save_event d kind x)"
  unfolding save_event_def by (intro clerical_steps)

lemma clerical_checkpoint [clerical_steps]: "clerical (checkpoint d r)"
  unfolding checkpoint_def dependencies_ready_def past_deadline_def by (intro clerical_steps)

lemma clerical_validation_checkpoint [clerical_steps]: "clerical (validation_checkpoint d r)"
  unfolding validation_checkpoint_def by (intro clerical_steps clerical_reraise)

lemma clerical_route_task [clerical_steps]: "clerical (route_task d r env wanted)"
  unfolding route_task_def by (intro clerical_steps)

lemma clerical_tool_available [clerical_steps]: "clerical (tool_available d tool)"
  unfolding tool_available_def by (intro clerical_steps)

lemma clerical_tool_blockers [clerical_steps]: "clerical (tool_blockers d calls)"
  by (induction calls) (auto intro!: clerical_steps)

lemma clerical_readiness_of_decision [clerical_steps]: "clerical (readiness_of_decision d r decision)"
  unfolding readiness_of_decision_def by (intro clerical_steps)

lemma clerical_task_readiness [clerical_steps]: "clerical (task_readiness d r result)"
  unfolding task_readiness_def by (intro clerical_steps)

lemma clerical_observe_health [clerical_steps]: "clerical (observe_health d key failure success)"
  unfolding observe_health_def by (intro clerical_steps)

lemma clerical_admit [clerical_steps]: "clerical (admit d action replay call cost)"
  unfolding admit_def by (intro clerical_steps)

lemma clerical_dispatch_blocker [clerical_steps]: "clerical (dispatch_blocker d r decision estimate)"
  unfolding dispatch_blocker_def by (intro clerical_steps)

lemma clerical_outcome [clerical_steps]: "clerical (outcome d check status failure)"
  unfolding outcome_def by (intro clerical_steps)

lemma clerical_check_error [clerical_steps]: "clerical (check_error d name checked)"
  unfolding check_error_def by (intro clerical_steps)

lemma clerical_run_check [clerical_steps]: "clerical (run_check d r result name)"
  unfolding run_check_def by (intro clerical_steps)

lemma clerical_run_checks [clerical_steps]:
  "clerical before_check \<Longrightarrow> clerical (run_checks d before_check r result names results)"
  by (induction names arbitrary: results) (auto intro!: clerical_steps)

lemma clerical_validate_output [clerical_steps]:
  "clerical before_check \<Longrightarrow> clerical (validate_output d before_check r result controls)"
  unfolding validate_output_def failed_check_def by (intro clerical_steps)

lemma clerical_validation_events [clerical_steps]: "clerical (validation_events d attempt_id vs)"
  by (induction vs) (auto intro!: clerical_steps)

lemma clerical_recovery_context_of [clerical_steps]: "clerical (recovery_context_of d r decision failure)"
  unfolding recovery_context_of_def by (intro clerical_steps)

lemma clerical_tool_blocker [clerical_steps]: "clerical (tool_blocker d r call)"
  unfolding tool_blocker_def by (intro clerical_steps)

lemma clerical_wait_backoff [clerical_steps]: "clerical (wait_backoff d a failure validated)"
  unfolding wait_backoff_def by (intro clerical_steps)

lemma clerical_select [clerical_steps]: "clerical (select d r wanted False)"
  unfolding select_def by (simp only: not_False_eq_True if_True, intro clerical_steps)

lemma clerical_probe_route [clerical_steps]: "clerical (probe_route d r a failure validated)"
  unfolding probe_route_def by (intro clerical_steps)

lemma clerical_propose [clerical_steps]: "clerical (propose d r decision failure validated original)"
  unfolding propose_def by (intro clerical_steps)

end
