(* ===== verification/ExecutionFacts.thy ===== *)
theory ExecutionFacts
  imports ExecutionLogic
begin

text \<open>
  What every step of an execution keeps: the money of the task within its ceiling, the counters
  within the limits, and a log in which no provider and no tool is called without a reservation and a
  saved record of the intent. \<open>point\<close> describes a point of a running task; the lemmas give the effect of
  the primitive changes on it.
\<close>

section \<open>What is kept\<close>

definition sound_bounds :: "'w dependencies \<Rightarrow> bool" where
  "sound_bounds d = (bundle_ok (dp_bundle d)
     \<and> list_all (\<lambda>(name, ck). opt_money_ok (ck_cost_upper_bound_usd ck)) (dp_checks d)
     \<and> list_all (opt_money_ok \<circ> tl_cost_upper_bound_usd) (xc_tool_calls (dp_controls d)))"

definition ceiling_of :: "'w execution \<Rightarrow> rat" where
  "ceiling_of s = (case ex_limits s of None \<Rightarrow> 0 | Some l \<Rightarrow> max 0 (dval (xl_task_cost_ceiling_usd l)))"

abbreviation known_cost :: "'w execution \<Rightarrow> rat" where
  "known_cost s \<equiv> dval (tk_known_cost_usd (ex_task s))"

abbreviation reserved_cost :: "'w execution \<Rightarrow> rat" where
  "reserved_cost s \<equiv> dval (tk_reserved_cost_usd (ex_task s))"

definition within_ceiling :: "'w execution \<Rightarrow> bool" where
  "within_ceiling s = (ex_cost_violation s \<or> (0 \<le> reserved_cost s \<and> known_cost s \<le> ceiling_of s
     \<and> (ex_budget_unavailable s \<or> known_cost s + reserved_cost s \<le> ceiling_of s)))"

fun is_dispatch :: "call \<Rightarrow> bool" where
  "is_dispatch (Execute_call q) = True"
| "is_dispatch c = False"

fun is_tool_run :: "call \<Rightarrow> bool" where
  "is_tool_run (Tool_call call event_id) = True"
| "is_tool_run c = False"

definition dispatches :: "call list \<Rightarrow> nat" where
  "dispatches calls_made = length (filter is_dispatch calls_made)"

definition tool_runs :: "call list \<Rightarrow> nat" where
  "tool_runs calls_made = length (filter is_tool_run calls_made)"

definition counters_within :: "counters \<Rightarrow> execution_limits \<Rightarrow> bool" where
  "counters_within c l = (ct_generation_attempts c \<le> xl_max_total_generation_attempts l
     \<and> ct_quality_escalations c \<le> xl_max_quality_escalations l
     \<and> ct_infrastructure_retries c \<le> xl_max_infrastructure_retries l
     \<and> ct_tool_recoveries c \<le> xl_max_tool_recoveries l)"

definition counted :: "'w execution \<Rightarrow> bool" where
  "counted s = (dispatches (ex_log s) \<le> ct_generation_attempts (tk_counters (ex_task s))
     \<and> (\<forall>l. ex_limits s = Some l \<longrightarrow> counters_within (tk_counters (ex_task s)) l))"

text \<open>A decision of the router on this task with nothing left that blocks its execution.\<close>

definition cleared :: "'w dependencies \<Rightarrow> request \<Rightarrow> route_decision \<Rightarrow> bool" where
  "cleared d r decision =
     ((\<exists>c env recovery. route (dp_digests d) r c env (dp_bundle d) recovery = Inr (Decision decision))
      \<and> undischarged d decision = [] \<and> v0_readiness (dp_checks d) decision (dp_controls d) = [])"

definition intends_attempt :: "task_result \<Rightarrow> provider_request \<Rightarrow> decimal \<Rightarrow> route_decision \<Rightarrow> bool" where
  "intends_attempt task q amount decision = (tk_attempts task \<noteq> [] \<and>
     (let a = last (tk_attempts task)
      in at_attempt_id a = pq_invocation_id q \<and> at_status a = Attempt_started
         \<and> at_estimated_cost_usd a = Some amount \<and> at_decision a = Some decision
         \<and> rt_selected_model_alias decision = pq_model_alias q
         \<and> rt_reasoning_effort decision = pq_reasoning_effort q))"

definition intends_tool :: "task_result \<Rightarrow> tool_call \<Rightarrow> string \<Rightarrow> bool" where
  "intends_tool task call event_id = (tk_tool_events task \<noteq> [] \<and>
     (let o' = last (tk_tool_events task)
      in to_tool_event_id o' = event_id \<and> to_status o' = Tool_started \<and> to_tool o' = tl_tool call))"

definition tool_permitted :: "execution_controls \<Rightarrow> tool_call \<Rightarrow> bool" where
  "tool_permitted controls call = (xc_authorized controls \<and> tl_tool call \<in> set (xc_authorized_tools controls)
     \<and> (declared_call controls call \<or> alternate_call controls call \<or> xc_tool_calls controls = [])
     \<and> (tl_side_effecting call \<longrightarrow> xc_side_effects_authorized controls))"

fun justified :: "'w dependencies \<Rightarrow> request \<Rightarrow> call set \<Rightarrow> call \<Rightarrow> bool" where
  "justified d r before (Execute_call q) =
     (\<exists>amount task events decision. Reserve_call (pq_invocation_id q) amount True \<in> before
        \<and> Save_call task events True \<in> before \<and> intends_attempt task q amount decision
        \<and> cleared d r decision)"
| "justified d r before (Tool_call call event_id) =
     (\<exists>amount task events. Reserve_call event_id amount True \<in> before
        \<and> Save_call task events True \<in> before \<and> intends_tool task call event_id
        \<and> tl_cost_upper_bound_usd call = Some amount \<and> tool_permitted (dp_controls d) call)"
| "justified d r before c = True"

definition justified_log :: "'w dependencies \<Rightarrow> request \<Rightarrow> call list \<Rightarrow> bool" where
  "justified_log d r calls_made = (\<forall>i<length calls_made. justified d r (set (take i calls_made)) (calls_made ! i))"

text \<open>The limits in force are the injected ones, at most tightened.\<close>

definition tightened :: "execution_limits \<Rightarrow> execution_limits \<Rightarrow> bool" where
  "tightened given l = (dval (xl_task_cost_ceiling_usd l) \<le> dval (xl_task_cost_ceiling_usd given)
     \<and> xl_max_elapsed_ms l \<le> xl_max_elapsed_ms given
     \<and> xl_max_total_generation_attempts l = xl_max_total_generation_attempts given
     \<and> xl_max_quality_escalations l = xl_max_quality_escalations given
     \<and> xl_max_infrastructure_retries l = xl_max_infrastructure_retries given
     \<and> xl_max_tool_recoveries l = xl_max_tool_recoveries given)"

definition within_given :: "execution_limits option \<Rightarrow> execution_limits option \<Rightarrow> bool" where
  "within_given given current = (case current of None \<Rightarrow> given = None
     | Some l \<Rightarrow> (\<exists>g. given = Some g \<and> tightened g l))"

definition good :: "'w dependencies \<Rightarrow> request \<Rightarrow> 'w execution \<Rightarrow> bool" where
  "good d r s = ((sound_bounds d \<longrightarrow> within_ceiling s) \<and> counted s \<and> justified_log d r (ex_log s)
     \<and> within_given (dp_limits d) (ex_limits s))"

definition tools_within :: "nat \<Rightarrow> 'w execution \<Rightarrow> bool" where
  "tools_within k s = (tool_runs (ex_log s) \<le> k + ct_tool_recoveries (tk_counters (ex_task s)))"

abbreviation declared_tools :: "'w dependencies \<Rightarrow> nat" where
  "declared_tools d \<equiv> length (xc_tool_calls (dp_controls d))"

definition live :: "'w dependencies \<Rightarrow> request \<Rightarrow> nat \<Rightarrow> 'w execution \<Rightarrow> bool" where
  "live d r k s = (good d r s \<and> tools_within k s \<and> k \<le> declared_tools d \<and> \<not> terminal (tk_status (ex_task s)))"

definition raised :: "'w dependencies \<Rightarrow> request \<Rightarrow> exec_error \<Rightarrow> 'w execution \<Rightarrow> bool" where
  "raised d r e s = (good d r s \<and> tools_within (declared_tools d) s \<and> tame e
     \<and> (e = Environment_changed \<longrightarrow> \<not> terminal (tk_status (ex_task s))))"

section \<open>The log\<close>

lemma dispatches_append [simp]: "dispatches (xs @ ys) = dispatches xs + dispatches ys"
  by (simp add: dispatches_def)

lemma tool_runs_append [simp]: "tool_runs (xs @ ys) = tool_runs xs + tool_runs ys"
  by (simp add: tool_runs_def)

lemma dispatches_simps [simp]:
  "dispatches [] = 0" "dispatches (c # cs) = (if is_dispatch c then 1 else 0) + dispatches cs"
  by (simp_all add: dispatches_def)

lemma tool_runs_simps [simp]:
  "tool_runs [] = 0" "tool_runs (c # cs) = (if is_tool_run c then 1 else 0) + tool_runs cs"
  by (simp_all add: tool_runs_def)

lemma clerical_calls:
  assumes "list_all clerical_call calls"
  shows "dispatches calls = 0" and "tool_runs calls = 0"
proof -
  have "\<not> is_dispatch c \<and> \<not> is_tool_run c" if "clerical_call c" for c using that by (cases c) simp_all
  then show "dispatches calls = 0" and "tool_runs calls = 0"
    using assms by (induction calls) simp_all
qed

lemma justified_log_snoc:
  "justified_log d r (calls_made @ [c]) \<longleftrightarrow> justified_log d r calls_made \<and> justified d r (set calls_made) c"
  by (auto simp: justified_log_def nth_append less_Suc_eq)

lemma justified_log_clerical:
  assumes "list_all clerical_call calls" and "justified_log d r calls_made"
  shows "justified_log d r (calls_made @ calls)"
  using assms
proof (induction calls rule: rev_induct)
  case (snoc c calls)
  then have "justified_log d r ((calls_made @ calls) @ [c])"
    by (cases c) (simp_all only: justified_log_snoc, simp_all)
  then show ?case by simp
qed simp

section \<open>Points of a running task\<close>

type_synonym facts = "execution_limits option \<times> task_status \<times> attempt list \<times> counters \<times> tool_outcome list"

definition facts :: "'w execution \<Rightarrow> facts" where
  "facts s = (ex_limits s, tk_status (ex_task s), tk_attempts (ex_task s), tk_counters (ex_task s),
     tk_tool_events (ex_task s))"

definition point :: "'w dependencies \<Rightarrow> request \<Rightarrow> nat \<Rightarrow> facts \<Rightarrow> call list \<Rightarrow> 'w execution \<Rightarrow> bool" where
  "point d r k x calls s = (live d r k s \<and> facts s = x \<and> set calls \<subseteq> set (ex_log s))"

definition stable :: "('w execution \<Rightarrow> bool) \<Rightarrow> bool" where
  "stable P = (\<forall>s s'. touch s s' \<longrightarrow> P s \<longrightarrow> P s')"

lemma touch_facts: "touch s s' \<Longrightarrow> facts s' = facts s"
  by (simp add: facts_def touch_core) (simp add: touch_def)

lemma touch_limits: "touch s s' \<Longrightarrow> ex_limits s' = ex_limits s"
  by (simp add: touch_def)

lemma touch_ceiling: "touch s s' \<Longrightarrow> ceiling_of s' = ceiling_of s"
  by (simp add: ceiling_of_def touch_limits)

lemma touch_good:
  assumes t: "touch s s'" and "good d r s"
  shows "good d r s'"
proof -
  obtain calls where calls: "list_all clerical_call calls" "ex_log s' = ex_log s @ calls"
    using t by (auto simp: touch_def)
  have "within_ceiling s \<Longrightarrow> within_ceiling s'"
    using t by (auto simp: within_ceiling_def touch_core [OF t] touch_ceiling [OF t]) (auto simp: touch_def)
  moreover have "counted s'"
    using assms calls by (auto simp: good_def counted_def touch_core [OF t] touch_limits clerical_calls)
  moreover have "justified_log d r (ex_log s')"
    using assms(2) calls by (simp add: good_def justified_log_clerical)
  ultimately show ?thesis using assms(2) by (auto simp: good_def touch_limits [OF t])
qed

lemma touch_live: "touch s s' \<Longrightarrow> live d r k s \<Longrightarrow> live d r k s'"
  unfolding live_def using touch_good [of s s' d r]
  by (auto simp: tools_within_def touch_core clerical_calls) (auto simp: touch_def clerical_calls)

lemma stable_point: "stable (point d r k x calls)"
proof -
  have "point d r k x calls s'" if t: "touch s s'" and a: "point d r k x calls s" for s s'
    using a touch_live [OF t] touch_facts [OF t] t by (auto simp: point_def touch_def)
  then show ?thesis by (simp add: stable_def)
qed

lemma stable_conj: "stable P \<Longrightarrow> stable Q \<Longrightarrow> stable (\<lambda>s. P s \<and> Q s)"
  by (simp add: stable_def)

lemma stable_True: "stable (\<lambda>_. c)"
  by (simp add: stable_def)

section \<open>Triples\<close>

definition triple :: "'w dependencies \<Rightarrow> request \<Rightarrow> ('w execution \<Rightarrow> bool) \<Rightarrow> ('a, 'w) step
    \<Rightarrow> ('a \<Rightarrow> 'w execution \<Rightarrow> bool) \<Rightarrow> bool" where
  "triple d r P m Q = (\<forall>s. P s \<longrightarrow> wp m Q (raised d r) s)"

lemma tripleI: "(\<And>s. P s \<Longrightarrow> wp m Q (raised d r) s) \<Longrightarrow> triple d r P m Q"
  by (simp add: triple_def)

lemma triple_pre: "triple d r P m Q \<Longrightarrow> (\<And>s. P' s \<Longrightarrow> P s) \<Longrightarrow> triple d r P' m Q"
  by (simp add: triple_def)

lemma triple_post: "triple d r P m Q \<Longrightarrow> (\<And>x s. Q x s \<Longrightarrow> Q' x s) \<Longrightarrow> triple d r P m Q'"
  by (auto simp: triple_def elim!: wp_weaken)

lemma triple_seq:
  assumes m: "triple d r P m P'" and f: "\<And>x. triple d r (P' x) (f x) Q"
  shows "triple d r P (seq m f) Q"
proof (rule tripleI)
  fix s
  assume "P s"
  then have "wp m P' (raised d r) s" using m by (simp add: triple_def)
  then show "wp (seq m f) Q (raised d r) s"
    unfolding wp_seq by (rule wp_weaken) (use f in \<open>auto simp: triple_def\<close>)
qed

lemma triple_ret: "(\<And>s. P s \<Longrightarrow> Q x s) \<Longrightarrow> triple d r P (ret x) Q"
  by (simp add: triple_def wp)

lemma triple_if: "(c \<Longrightarrow> triple d r P m Q) \<Longrightarrow> (\<not> c \<Longrightarrow> triple d r P m' Q) \<Longrightarrow> triple d r P (if c then m else m') Q"
  by simp

lemma triple_get: "(\<And>y. triple d r (\<lambda>s. P s \<and> y = f s) (g y) Q) \<Longrightarrow> triple d r P (seq (get f) g) Q"
  by (simp add: triple_def wp)

lemma triple_set_task:
  "triple d r P' (g ()) Q \<Longrightarrow> (\<And>s. P s \<Longrightarrow> P' (s\<lparr>ex_task := f (ex_task s)\<rparr>)) \<Longrightarrow> triple d r P (seq (set_task f) g) Q"
  by (simp add: triple_def wp)

lemma triple_ex: "(\<And>y. triple d r (P y) m Q) \<Longrightarrow> triple d r (\<lambda>s. \<exists>y. P y s) m Q"
  by (auto simp: triple_def)

lemma triple_fact: "(c \<Longrightarrow> triple d r P m Q) \<Longrightarrow> triple d r (\<lambda>s. P s \<and> c) m Q"
  by (auto simp: triple_def)

text \<open>A clerical step keeps a point and everything stable that is known there, and its result may be described.\<close>

lemma live_raised: "live d r k s \<Longrightarrow> tame e \<Longrightarrow> raised d r e s"
  by (auto simp: live_def raised_def tools_within_def)

lemma clerical_fact:
  assumes m: "clerical m" and st: "stable \<phi>"
    and fact: "\<And>s. point d r k x calls s \<Longrightarrow> \<phi> s \<Longrightarrow> wp m \<psi> (\<lambda>_ _. True) s"
    and f: "\<And>y. triple d r (\<lambda>s. point d r k x calls s \<and> \<phi> s \<and> \<psi> y s) (f y) Q"
  shows "triple d r (\<lambda>s. point d r k x calls s \<and> \<phi> s) (seq m f) Q"
proof (rule tripleI)
  fix s
  assume p: "point d r k x calls s \<and> \<phi> s"
  have st': "stable (\<lambda>s. point d r k x calls s \<and> \<phi> s)" by (rule stable_conj [OF stable_point st])
  have "wp m (\<lambda>y s'. touch s s' \<and> \<psi> y s') (\<lambda>e s'. (touch s s' \<and> tame e) \<and> True) s"
    by (rule wp_conj) (use m p fact in \<open>auto simp: clerical_def\<close>)
  then show "wp (seq m f) Q (raised d r) s"
    unfolding wp_seq
  proof (rule wp_weaken)
    fix y s'
    assume "touch s s' \<and> \<psi> y s'"
    then have "point d r k x calls s' \<and> \<phi> s' \<and> \<psi> y s'" using p st' unfolding stable_def by blast
    then show "wp (f y) Q (raised d r) s'" using f by (simp add: triple_def)
  next
    fix e s'
    assume "(touch s s' \<and> tame e) \<and> True"
    moreover from this have "point d r k x calls s'" using p stable_point unfolding stable_def by blast
    ultimately show "raised d r e s'" by (auto simp: point_def intro: live_raised)
  qed
qed

lemma clerical_step:
  assumes "clerical m" and "stable \<phi>" and "\<And>y. triple d r (\<lambda>s. point d r k x calls s \<and> \<phi> s) (f y) Q"
  shows "triple d r (\<lambda>s. point d r k x calls s \<and> \<phi> s) (seq m f) Q"
  by (rule clerical_fact [OF assms(1,2), of d r k x calls "\<lambda>_ _. True"])
    (use assms(3) in \<open>auto simp: wp_def split: prod.split sum.split\<close>)

lemma point_step:
  assumes "clerical m" and "\<And>y. triple d r (point d r k x calls) (f y) Q"
  shows "triple d r (point d r k x calls) (seq m f) Q"
  using clerical_step [OF assms(1) stable_True [of True], where f = f and Q = Q] assms(2) by simp

lemma point_last:
  assumes "clerical m"
  shows "triple d r (\<lambda>s. point d r k x calls s) m (\<lambda>_ s. point d r k x calls s)"
proof (rule tripleI)
  fix s
  assume p: "point d r k x calls s"
  have "wp m (\<lambda>_ s'. touch s s') (\<lambda>e s'. touch s s' \<and> tame e) s" using assms by (simp add: clerical_def)
  then show "wp m (\<lambda>_. point d r k x calls) (raised d r) s"
  proof (rule wp_weaken)
    show "point d r k x calls s'" if "touch s s'" for s' using p stable_point that unfolding stable_def by blast
    show "raised d r e s'" if "touch s s' \<and> tame e" for e s'
    proof -
      have "point d r k x calls s'" using p stable_point that unfolding stable_def by blast
      then show ?thesis using that by (auto simp: point_def intro: live_raised)
    qed
  qed
qed

end
