(* ===== verification/ExecutionSteps.thy ===== *)
theory ExecutionSteps
  imports ExecutionFacts
begin

text \<open>
  The effect of the primitive changes of an execution on a point of it, and what the checks before
  an action establish: a task changed, a call logged, money reserved and charged, a revision saved,
  an action admitted.
\<close>

section \<open>Changes of the task\<close>

lemma point_task:
  assumes p: "point d r k (l, st, as, ct, ts) calls s"
    and money: "tk_known_cost_usd t = tk_known_cost_usd (ex_task s)"
      "tk_reserved_cost_usd t = tk_reserved_cost_usd (ex_task s)"
    and counters: "ct_generation_attempts ct \<le> ct_generation_attempts (tk_counters t)"
      "ct_tool_recoveries ct \<le> ct_tool_recoveries (tk_counters t)"
      "\<And>l'. l = Some l' \<Longrightarrow> counters_within (tk_counters t) l'"
    and status: "\<not> terminal (tk_status t)"
  shows "point d r k (l, tk_status t, tk_attempts t, tk_counters t, tk_tool_events t) calls (s\<lparr>ex_task := t\<rparr>)"
  using assms unfolding point_def live_def good_def within_ceiling_def ceiling_of_def counted_def tools_within_def
    facts_def by auto

lemma point_counters:
  "point d r k (Some l, st, as, ct, ts) calls s \<Longrightarrow> counters_within ct l"
  by (auto simp: point_def live_def good_def counted_def facts_def)

lemma point_facts:
  assumes "point d r k (l, st, as, ct, ts) calls s"
  shows "ex_limits s = l" "tk_status (ex_task s) = st" "tk_attempts (ex_task s) = as"
    "tk_counters (ex_task s) = ct" "tk_tool_events (ex_task s) = ts"
  using assms by (simp_all add: point_def facts_def)

lemma point_live: "point d r k x calls s \<Longrightarrow> live d r k s"
  by (simp add: point_def)

lemma point_status: "point d r k (l, st, as, ct, ts) calls s \<Longrightarrow> \<not> terminal st"
  by (auto simp: point_def live_def facts_def)

lemma point_world: "point d r k x calls (s\<lparr>ex_world := w\<rparr>) = point d r k x calls s"
  by (simp add: point_def live_def good_def counted_def within_ceiling_def ceiling_of_def tools_within_def facts_def)

text \<open>A step of the lifecycle that changes no money and, of the facts, what the equations say.\<close>

lemma wp_move:
  assumes "may_follow (tk_status (ex_task s)) status"
    and "\<And>now w. Q () (s\<lparr>ex_world := w, ex_task := (changes (ex_task s))\<lparr>tk_status := status, tk_updated_at := now\<rparr>\<rparr>)"
  shows "wp (move d status changes) Q R s"
  using assms by (simp add: move_def wp transition_def)

text \<open>What is known of money and calls is not affected by a step of the lifecycle.\<close>

definition ledger_fact :: "('w execution \<Rightarrow> bool) \<Rightarrow> bool" where
  "ledger_fact \<phi> = (stable \<phi> \<and> (\<forall>s t w. \<phi> s \<longrightarrow> tk_known_cost_usd t = tk_known_cost_usd (ex_task s)
     \<longrightarrow> tk_reserved_cost_usd t = tk_reserved_cost_usd (ex_task s) \<longrightarrow> \<phi> (s\<lparr>ex_world := w, ex_task := t\<rparr>)))"

lemma ledger_factD:
  "ledger_fact \<phi> \<Longrightarrow> \<phi> s \<Longrightarrow> tk_known_cost_usd t = tk_known_cost_usd (ex_task s)
     \<Longrightarrow> tk_reserved_cost_usd t = tk_reserved_cost_usd (ex_task s) \<Longrightarrow> \<phi> (s\<lparr>ex_world := w, ex_task := t\<rparr>)"
  by (simp add: ledger_fact_def)

lemma ledger_fact_stable: "ledger_fact \<phi> \<Longrightarrow> stable \<phi>"
  by (simp add: ledger_fact_def)

lemma ledger_fact_conj: "ledger_fact \<phi> \<Longrightarrow> ledger_fact \<psi> \<Longrightarrow> ledger_fact (\<lambda>s. \<phi> s \<and> \<psi> s)"
  by (simp add: ledger_fact_def stable_conj)

lemma ledger_fact_True: "ledger_fact (\<lambda>_. c)"
  by (simp add: ledger_fact_def stable_True)

lemma point_move:
  assumes "may_follow st st'" and "\<not> terminal st'"
    and "\<And>t. tk_known_cost_usd (changes t) = tk_known_cost_usd t" "\<And>t. tk_reserved_cost_usd (changes t) = tk_reserved_cost_usd t"
    and "\<And>t. tk_attempts t = as \<Longrightarrow> tk_attempts (changes t) = as'"
    and "\<And>t. tk_counters t = ct \<Longrightarrow> tk_counters (changes t) = ct'"
    and "\<And>t. tk_tool_events (changes t) = tk_tool_events t"
    and "ct_generation_attempts ct \<le> ct_generation_attempts ct'" "ct_tool_recoveries ct \<le> ct_tool_recoveries ct'"
    and "\<And>l'. l = Some l' \<Longrightarrow> counters_within ct l' \<Longrightarrow> counters_within ct' l'"
    and fact: "ledger_fact \<phi>"
  shows "triple d r (\<lambda>s. point d r k (l, st, as, ct, ts) calls s \<and> \<phi> s) (move d st' changes)
     (\<lambda>_ s. point d r k (l, st', as', ct', ts) calls s \<and> \<phi> s)"
proof (rule tripleI)
  fix s
  assume "point d r k (l, st, as, ct, ts) calls s \<and> \<phi> s"
  then have p: "point d r k (l, st, as, ct, ts) calls s" and \<phi>: "\<phi> s" by simp_all
  note f = point_facts [OF p]
  have wl: "l = Some l' \<Longrightarrow> counters_within ct l'" for l' using p point_counters by blast
  show "wp (move d st' changes) (\<lambda>_ s. point d r k (l, st', as', ct', ts) calls s \<and> \<phi> s) (raised d r) s"
  proof (rule wp_move)
    show "may_follow (tk_status (ex_task s)) st'" using assms(1) f by simp
    fix now w
    let ?t = "(changes (ex_task s))\<lparr>tk_status := st', tk_updated_at := now\<rparr>"
    have fields: "tk_status ?t = st'" "tk_attempts ?t = as'" "tk_counters ?t = ct'" "tk_tool_events ?t = ts"
      using assms(5) [OF f(3)] assms(6) [OF f(4)] assms(7) [of "ex_task s"] f(5) by simp_all
    have "point d r k (l, tk_status ?t, tk_attempts ?t, tk_counters ?t, tk_tool_events ?t) calls (s\<lparr>ex_task := ?t\<rparr>)"
      proof (rule point_task [OF p])
      show "tk_known_cost_usd ?t = tk_known_cost_usd (ex_task s)" "tk_reserved_cost_usd ?t = tk_reserved_cost_usd (ex_task s)"
        using assms(3,4) by simp_all
      show "ct_generation_attempts ct \<le> ct_generation_attempts (tk_counters ?t)"
        "ct_tool_recoveries ct \<le> ct_tool_recoveries (tk_counters ?t)"
        unfolding fields by (rule assms(8), rule assms(9))
      show "counters_within (tk_counters ?t) l'" if "l = Some l'" for l'
        unfolding fields by (rule assms(10) [OF that wl [OF that]])
      show "\<not> terminal (tk_status ?t)" using assms(2) by simp
    qed
    then have "point d r k (l, st', as', ct', ts) calls (s\<lparr>ex_task := ?t\<rparr>)" unfolding fields .
    then have "point d r k (l, st', as', ct', ts) calls ((s\<lparr>ex_task := ?t\<rparr>)\<lparr>ex_world := w\<rparr>)"
      unfolding point_world .
    moreover have "(s\<lparr>ex_task := ?t\<rparr>)\<lparr>ex_world := w\<rparr> = s\<lparr>ex_world := w, ex_task := ?t\<rparr>" by (cases s) simp
    moreover have "\<phi> (s\<lparr>ex_world := w, ex_task := ?t\<rparr>)"
      by (rule ledger_factD [OF fact \<phi>]) (use assms(3,4) in simp_all)
    ultimately show "point d r k (l, st', as', ct', ts) calls (s\<lparr>ex_world := w, ex_task := ?t\<rparr>)
        \<and> \<phi> (s\<lparr>ex_world := w, ex_task := ?t\<rparr>)" by (simp only: simp_thms)
  qed
qed

section \<open>What else is known at a point\<close>

definition afford :: "rat \<Rightarrow> 'w execution \<Rightarrow> bool" where
  "afford a s = (a \<le> max 0 (ceiling_of s - known_cost s - reserved_cost s))"

definition covered :: "rat \<Rightarrow> 'w execution \<Rightarrow> bool" where
  "covered a s = (ex_cost_violation s \<or> (0 \<le> a \<and> a \<le> reserved_cost s \<and> known_cost s + a \<le> ceiling_of s))"

definition may_dispatch :: "'w execution \<Rightarrow> bool" where
  "may_dispatch s = (dispatches (ex_log s) < ct_generation_attempts (tk_counters (ex_task s)))"

definition may_run_tool :: "nat \<Rightarrow> 'w execution \<Rightarrow> bool" where
  "may_run_tool k s = (tool_runs (ex_log s) < k + ct_tool_recoveries (tk_counters (ex_task s)))"

lemma stable_afford: "stable (\<lambda>s. c \<longrightarrow> afford a s)"
  unfolding stable_def afford_def by (metis touch_ceiling touch_core(4,5))

lemma stable_covered: "stable (\<lambda>s. c \<longrightarrow> covered a s)"
proof -
  have "covered a s'" if "touch s s'" "covered a s" for s s' :: "'w execution"
    using that touch_core [OF that(1)] touch_ceiling [OF that(1)] by (auto simp: covered_def touch_def)
  then show ?thesis by (auto simp: stable_def)
qed

lemma touch_counts:
  assumes "touch s s'"
  shows "dispatches (ex_log s') = dispatches (ex_log s)" "tool_runs (ex_log s') = tool_runs (ex_log s)"
  using assms by (auto simp: touch_def clerical_calls)

lemma stable_may_dispatch: "stable may_dispatch"
  by (auto simp: stable_def may_dispatch_def touch_counts touch_core)

lemma stable_may_run_tool: "stable (may_run_tool k)"
  by (auto simp: stable_def may_run_tool_def touch_counts touch_core)

lemma ledger_fact_covered: "ledger_fact (\<lambda>s. c \<longrightarrow> covered a s)"
  by (simp add: ledger_fact_def stable_covered) (simp add: covered_def ceiling_of_def)

lemma ledger_fact_dispatches: "ledger_fact (\<lambda>s. dispatches (ex_log s) \<le> n)"
  by (simp add: ledger_fact_def stable_def touch_counts)

lemma ledger_fact_tool_runs: "ledger_fact (\<lambda>s. tool_runs (ex_log s) \<le> n)"
  by (simp add: ledger_fact_def stable_def touch_counts)

lemma point_dispatches: "point d r k (l, st, as, ct, ts) calls s \<Longrightarrow> dispatches (ex_log s) \<le> ct_generation_attempts ct"
  by (auto simp: point_def live_def good_def counted_def facts_def)

lemma point_tool_runs: "point d r k (l, st, as, ct, ts) calls s \<Longrightarrow> tool_runs (ex_log s) \<le> k + ct_tool_recoveries ct"
  by (auto simp: point_def live_def tools_within_def facts_def)

section \<open>Calls\<close>

lemma point_log_dispatch:
  assumes "point d r k x calls s" and "may_dispatch s" and "justified d r (set (ex_log s)) (Execute_call q)"
  shows "point d r k x calls (s\<lparr>ex_log := ex_log s @ [Execute_call q]\<rparr>)"
  using assms unfolding point_def live_def good_def counted_def within_ceiling_def ceiling_of_def tools_within_def
    may_dispatch_def facts_def by (auto simp: justified_log_snoc)

lemma point_log_tool:
  assumes "point d r k x calls s" and "may_run_tool k s" and "justified d r (set (ex_log s)) (Tool_call call i)"
  shows "point d r k x calls (s\<lparr>ex_log := ex_log s @ [Tool_call call i]\<rparr>)"
  using assms unfolding point_def live_def good_def counted_def within_ceiling_def ceiling_of_def tools_within_def
    may_run_tool_def facts_def by (auto simp: justified_log_snoc)

section \<open>Money\<close>

lemma dval_money_sum_pair [simp]: "dval (money_sum [a, b]) = dval a + dval b"
  by (simp add: money_sum_exact)

lemma dval_money_difference_one [simp]: "dval (money_difference a [b]) = dval a - dval b"
  by (simp add: money_difference_exact)

text \<open>Reserving: what is afforded becomes covered.\<close>

lemma reserved_task:
  fixes s :: "'w execution" and l as ct ts
  assumes p: "point d r k x calls s" and a: "sound_bounds d \<Longrightarrow> 0 \<le> dval amount \<and> afford (dval amount) s"
  defines "s' \<equiv> s\<lparr>ex_task := (ex_task s)\<lparr>tk_reserved_cost_usd := money_sum [tk_reserved_cost_usd (ex_task s), amount]\<rparr>\<rparr>"
  shows "point d r k x calls s' \<and> (sound_bounds d \<longrightarrow> covered (dval amount) s')"
proof -
  have "within_ceiling s' \<and> covered (dval amount) s'" if "sound_bounds d"
    using a [OF that] p that
    by (auto simp: s'_def point_def live_def good_def within_ceiling_def covered_def afford_def ceiling_of_def
        max_def split: option.splits if_splits)
  then show ?thesis using p by (auto simp: s'_def point_def live_def good_def counted_def tools_within_def facts_def)
qed

lemma point_log_budget:
  assumes "point d r k x calls s"
  shows "point d r k x calls (s\<lparr>ex_log := ex_log s @ [Settle_call i v]\<rparr>)"
    and "point d r k x calls (s\<lparr>ex_log := ex_log s @ [Reserve_call i a g]\<rparr>)"
  using assms unfolding point_def live_def good_def counted_def within_ceiling_def ceiling_of_def tools_within_def
    facts_def by (auto simp: justified_log_snoc)

lemma point_unavailable: "point d r k x calls s \<Longrightarrow> point d r k x calls (s\<lparr>ex_budget_unavailable := True\<rparr>)"
  by (auto simp: point_def live_def good_def counted_def within_ceiling_def ceiling_of_def tools_within_def facts_def)

lemma point_calls: "point d r k x calls s \<Longrightarrow> c \<in> set (ex_log s) \<Longrightarrow> point d r k x (c # calls) s"
  by (auto simp: point_def)

lemma point_fewer: "point d r k x calls s \<Longrightarrow> set calls' \<subseteq> set calls \<Longrightarrow> point d r k x calls' s"
  by (auto simp: point_def)

lemma afford_frame [simp]:
  "afford a (s\<lparr>ex_world := w\<rparr>) = afford a s" "afford a (s\<lparr>ex_log := ys\<rparr>) = afford a s"
  by (simp_all add: afford_def ceiling_of_def)

lemma covered_frame [simp]:
  "covered a (s\<lparr>ex_world := w\<rparr>) = covered a s" "covered a (s\<lparr>ex_log := ys\<rparr>) = covered a s"
  by (simp_all add: covered_def ceiling_of_def)

lemma reserve_triple:
  "triple d r (\<lambda>s. point d r k x calls s \<and> (sound_bounds d \<longrightarrow> 0 \<le> dval amount \<and> afford (dval amount) s))
     (reserve d i amount)
     (\<lambda>granted s. point d r k x (if granted then Reserve_call i amount True # calls else calls) s
        \<and> (granted \<longrightarrow> sound_bounds d \<longrightarrow> covered (dval amount) s))"
proof (rule tripleI)
  fix s
  assume p: "point d r k x calls s \<and> (sound_bounds d \<longrightarrow> 0 \<le> dval amount \<and> afford (dval amount) s)"
  define answer where "answer = dp_reserve d (tk_task_id (ex_task s)) i amount (ex_world s)"
  define t where "t = s\<lparr>ex_world := snd answer, ex_log := ex_log s @ [Reserve_call i amount (fst answer = Some True)]\<rparr>"
  have "point d r k x calls (s\<lparr>ex_world := snd answer\<rparr>)" using p by (simp add: point_world)
  from point_log_budget(2) [OF this] have logged: "point d r k x calls t" by (simp add: t_def)
  show "wp (reserve d i amount) (\<lambda>granted s. point d r k x (if granted then Reserve_call i amount True # calls else calls) s
        \<and> (granted \<longrightarrow> sound_bounds d \<longrightarrow> covered (dval amount) s)) (raised d r) s"
  proof (cases "fst answer = Some True")
    case True
    have "Reserve_call i amount True \<in> set (ex_log t)" using True by (simp add: t_def)
    then have "point d r k x (Reserve_call i amount True # calls) t" by (rule point_calls [OF logged])
    moreover have "sound_bounds d \<Longrightarrow> 0 \<le> dval amount \<and> afford (dval amount) t"
      using p by (simp add: t_def)
    ultimately show ?thesis
      using reserved_task [of d r k x "Reserve_call i amount True # calls" t amount] True
      by (simp add: reserve_def wp answer_def [symmetric] t_def)
  next
    case False
    then show ?thesis
      using logged point_unavailable [OF logged]
      by (auto simp: reserve_def wp answer_def [symmetric] t_def mark_unavailable_def split: option.splits)
  qed
qed

lemma charged_task:
  assumes p: "point d r k x calls s" and c: "sound_bounds d \<Longrightarrow> covered (dval estimate) s"
    and fine: "\<not> exceeds actual estimate \<or> ex_cost_violation s" and "settled \<or> ex_budget_unavailable s"
  shows "point d r k x calls (s\<lparr>ex_task := charged actual estimate settled (ex_task s)\<rparr>)"
proof -
  have "within_ceiling (s\<lparr>ex_task := charged actual estimate settled (ex_task s)\<rparr>)" if "sound_bounds d"
    using c [OF that] assms that
    by (cases actual)
      (auto simp: point_def live_def good_def within_ceiling_def covered_def charged_def exceeds_def
        ceiling_of_def)
  then show ?thesis
    using p by (auto simp: point_def live_def good_def counted_def tools_within_def facts_def charged_def)
qed

lemma point_violation: "point d r k x calls s \<Longrightarrow> point d r k x calls (s\<lparr>ex_cost_violation := True\<rparr>)"
  by (auto simp: point_def live_def good_def counted_def within_ceiling_def ceiling_of_def tools_within_def facts_def)

lemma charge_triple:
  "triple d r (\<lambda>s. point d r k x calls s \<and> (sound_bounds d \<longrightarrow> covered (dval estimate) s))
     (charge d i actual estimate) (\<lambda>_. point d r k x calls)"
proof (rule tripleI)
  fix s
  assume p: "point d r k x calls s \<and> (sound_bounds d \<longrightarrow> covered (dval estimate) s)"
  define s1 where "s1 = (if exceeds actual estimate then s\<lparr>ex_cost_violation := True\<rparr> else s)"
  define answer where "answer = dp_settle d (tk_task_id (ex_task s1)) i actual (ex_world s1)"
  define s2 where "s2 = s1\<lparr>ex_world := snd answer, ex_log := ex_log s1 @ [Settle_call i actual]\<rparr>"
  define s3 where "s3 = (if fst answer = None then s2\<lparr>ex_budget_unavailable := True\<rparr> else s2)"
  have "point d r k x calls s1" using p point_violation [of d r k x calls s] by (simp add: s1_def)
  then have "point d r k x calls (s1\<lparr>ex_world := snd answer\<rparr>)" by (simp add: point_world)
  from point_log_budget(1) [OF this] have s2: "point d r k x calls s2" by (simp add: s2_def)
  have "point d r k x calls s3" using s2 point_unavailable [OF s2] by (simp add: s3_def)
  moreover have "sound_bounds d \<Longrightarrow> covered (dval estimate) s3"
    using p by (auto simp: s1_def s2_def s3_def covered_def ceiling_of_def)
  ultimately have "point d r k x calls (s3\<lparr>ex_task := charged actual estimate (fst answer \<noteq> None) (ex_task s3)\<rparr>)"
    by (rule charged_task) (auto simp: s1_def s2_def s3_def)
  then show "wp (charge d i actual estimate) (\<lambda>_. point d r k x calls) (raised d r) s"
    by (auto simp: charge_def wp mark_unavailable_def s1_def answer_def s2_def s3_def split: if_splits)
qed

section \<open>What a check before an action establishes\<close>

definition admitted :: "'w dependencies \<Rightarrow> string \<Rightarrow> bool \<Rightarrow> tool_call option \<Rightarrow> decimal option \<Rightarrow> 'w execution \<Rightarrow> bool" where
  "admitted d action replay call cost s = (\<exists>l c. ex_limits s = Some l \<and> cost = Some c \<and> 0 \<le> dval c
     \<and> afford (dval c) s \<and> attempt_blocker action (tk_counters (ex_task s)) l = None
     \<and> xc_authorized (dp_controls d)
     \<and> (action \<in> set tool_actions \<or> call \<noteq> None \<longrightarrow> check_tool (dp_controls d) call replay = None))"

lemma remaining_afforded:
  "wp (remaining d) (\<lambda>funds s'. dval funds \<le> max 0 (ceiling_of s' - known_cost s' - reserved_cost s')) (\<lambda>_ _. True) s"
  by (auto simp: remaining_def wp mark_unavailable_def ceiling_of_def money_difference_exact
      split: option.splits)

lemma admit_fact: "wp (admit d action replay call cost) (\<lambda>refused s'. refused = None \<longrightarrow> admitted d action replay call cost s')
    (\<lambda>_ _. True) s"
  unfolding admit_def elapsed_def
  by (simp add: wp, rule wp_weaken [OF remaining_afforded])
    (auto simp: wp check_admission_None cost_blocker_None admitted_def afford_def)

lemma stable_admitted: "stable (\<lambda>s. c \<longrightarrow> admitted d action replay call cost s)"
  unfolding stable_def admitted_def afford_def
  by (auto simp: touch_core touch_limits touch_ceiling)

text \<open>After a revision is saved, the log holds it.\<close>

definition saved_here :: "'w execution \<Rightarrow> bool" where
  "saved_here s = (\<exists>task events. Save_call task events True \<in> set (ex_log s)
     \<and> tk_attempts task = tk_attempts (ex_task s) \<and> tk_tool_events task = tk_tool_events (ex_task s))"

lemma save_fact: "wp (save d events) (\<lambda>_ s'. saved_here s') (\<lambda>_ _. True) s"
  by (auto simp: save_def wp saved_here_def split: sum.splits)

lemma save_event_fact: "wp (save_event d kind x) (\<lambda>_ s'. saved_here s') (\<lambda>_ _. True) s"
  using save_fact by (simp add: save_event_def event_def wp)

end
