(* ===== verification/AttemptFacts.thy ===== *)
theory AttemptFacts
  imports ExecutionSteps
begin

text \<open>
  What one generation attempt keeps and establishes, from its admission to its final record: the
  provider is only reached after the reservation and the record of the attempt, the attempt is
  counted, its money is settled, and an attempt without a failure carries a complete response that
  has passed every required check.
\<close>

section \<open>Validation\<close>

definition valid_result :: "execution_controls \<Rightarrow> provider_result \<Rightarrow> validation_outcome list \<Rightarrow> bool" where
  "valid_result controls result validations = (complete_response result \<and> schema_valid controls result
     \<and> fields_present controls result \<and> all_passed validations
     \<and> set (xc_required_checks controls) \<subseteq> set (map vo_check validations))"

lemma wp_trivial: "wp m (\<lambda>_ _. True) (\<lambda>_ _. True) s"
  by (simp add: wp_def split: prod.split sum.split)

lemma clean_append [simp]: "clean (xs @ ys) \<longleftrightarrow> clean xs \<and> clean ys"
  by (simp add: clean_def)

lemma all_passed_append [simp]: "all_passed (xs @ ys) \<longleftrightarrow> all_passed xs \<and> all_passed ys"
  by (simp add: all_passed_def)

lemma all_passed_simps [simp]:
  "all_passed []" "all_passed (v # vs) \<longleftrightarrow> vo_status v = Check_passed \<and> all_passed vs"
  by (simp_all add: all_passed_def)

definition checks_added :: "string list \<Rightarrow> validation_outcome list \<Rightarrow> validation_outcome list \<Rightarrow> bool" where
  "checks_added names results out = (clean out \<longrightarrow>
     (\<exists>added. out = results @ added \<and> all_passed added \<and> map vo_check added = names))"

lemma checks_added_more:
  assumes "clean added \<Longrightarrow> all_passed added \<and> map vo_check added = [name]"
    and "checks_added names (results @ added) out"
  shows "checks_added (name # names) results out"
  unfolding checks_added_def
proof
  assume "clean out"
  then obtain more where "out = results @ added @ more" "all_passed more" "map vo_check more = names"
    using assms(2) by (auto simp: checks_added_def)
  with assms(1) \<open>clean out\<close> show "\<exists>new. out = results @ new \<and> all_passed new \<and> map vo_check new = name # names"
    by (intro exI [of _ "added @ more"]) simp
qed

lemma wp_case_prod: "wp (case p of (x, y) \<Rightarrow> f x y) Q R s = wp (f (fst p) (snd p)) Q R s"
  by (simp add: case_prod_unfold)

lemma run_check_fact:
  "wp (run_check d r result name) (\<lambda>out _. clean (fst out) \<longrightarrow>
     snd out \<and> all_passed (fst out) \<and> map vo_check (fst out) = [name]) (\<lambda>_ _. True) s"
  by (rule wp_weaken [OF run_check_clean]) auto

lemma run_checks_fact:
  "wp (run_checks d before_check r result names results) (\<lambda>out _. checks_added names results out) (\<lambda>_ _. True) s"
proof (induction names arbitrary: results s)
  case Nil
  then show ?case by (simp add: wp checks_added_def)
next
  case (Cons name names)
  have checked: "wp (run_check d r result name) (\<lambda>out.
      wp (if snd out then run_checks d before_check r result names (results @ fst out) else ret (results @ fst out))
        (\<lambda>out _. checks_added (name # names) results out) (\<lambda>_ _. True)) (\<lambda>_ _. True) t" for t
  proof (rule wp_weaken [OF run_check_fact])
    fix out t'
    assume o: "clean (fst out) \<longrightarrow> snd out \<and> all_passed (fst out) \<and> map vo_check (fst out) = [name]"
    have "wp (run_checks d before_check r result names (results @ fst out))
        (\<lambda>out _. checks_added (name # names) results out) (\<lambda>_ _. True) t'"
      by (rule wp_weaken [OF Cons.IH]) (use o in \<open>auto intro: checks_added_more\<close>)
    then show "wp (if snd out then run_checks d before_check r result names (results @ fst out)
          else ret (results @ fst out)) (\<lambda>out _. checks_added (name # names) results out) (\<lambda>_ _. True) t'"
      using o by (cases "snd out") (auto simp: wp checks_added_def)
  qed simp
  show ?case
    unfolding run_checks.simps wp_seq
    by (rule wp_weaken [OF wp_trivial])
      (auto simp: wp clean_def checks_added_def case_prod_unfold split: option.split
        intro!: wp_weaken [OF checked])
qed

lemma valid_from_checks:
  assumes "checks_added (xc_required_checks controls) results out" and "complete_response result"
    and "schema_valid controls result" and "fields_present controls result" and "all_passed results"
  shows "clean out \<longrightarrow> valid_result controls result out"
  using assms by (auto simp: checks_added_def valid_result_def simp flip: set_map)

lemma validate_output_fact:
  "wp (validate_output d before_check r result controls)
     (\<lambda>out _. clean out \<longrightarrow> valid_result controls result out) (\<lambda>_ _. True) s"
proof (cases "complete_response result \<and> schema_valid controls result
    \<and> (xc_expected_fields controls = [] \<or> fields_present controls result)")
  case False
  then show ?thesis
    by (auto simp: validate_output_def failed_check_def wp clean_def validation_failure_def)
next
  case True
  then have "fields_present controls result" by (auto simp: fields_present_def Let_def)
  with True show ?thesis
    by (auto simp: validate_output_def wp intro!: wp_weaken [OF run_checks_fact] dest: valid_from_checks)
qed

lemma find_None_all: "find P xs = None \<Longrightarrow> x \<in> set xs \<Longrightarrow> \<not> P x"
  by (simp add: find_None_iff)

lemma judge_clean: "vd_failure (judge results) = None \<Longrightarrow> clean results"
proof (cases "first_problem results")
  case None
  then have "find (\<lambda>v. vo_failure v \<noteq> None) results = None"
    by (auto simp: first_problem_def split: option.splits)
  then show ?thesis by (auto simp: clean_def list_all_iff dest: find_None_all)
next
  case (Some problem)
  then have "vo_failure problem \<noteq> None"
    by (auto simp: first_problem_def dest!: find_Some_set split: option.splits)
  moreover assume "vd_failure (judge results) = None"
  ultimately show ?thesis using Some by (auto simp: judge_def split: option.splits)
qed

lemma judge_validations [simp]: "vd_validations (judge results) = results"
  by (simp add: judge_def split: option.split)

end
