(* ===== verification/GenerateFacts.thy ===== *)
theory GenerateFacts
  imports AttemptFacts
begin

text \<open>
  The steps of a generation attempt as triples, and \<open>generate\<close> itself: from a point at which a cleared
  decision is routed, every outcome of an attempt is a point of the running task with at most one more
  attempt and one more counted generation, and an outcome without a failure leaves a last attempt
  that succeeded with a verified response.
\<close>

section \<open>The estimate\<close>

lemma generation_estimate_nonneg:
  assumes "bundle_ok (dp_bundle d)" and "cleared d r decision"
  shows "0 \<le> dval (generation_estimate decision)"
proof -
  obtain c env recovery where r: "route (dp_digests d) r c env (dp_bundle d) recovery = Inr (Decision decision)"
    using assms(2) by (auto simp: cleared_def)
  obtain ctx cand m codes details where
    "decide ctx codes details (item_of (dp_digests d) ctx cand m) = Inr (Decision decision)"
    by (rule route_Decision [OF assms(1) r])
  then have "rt_estimated_cost decision = quote (dp_digests d) ctx (rc_request ctx) m"
    by (simp add: decide_Decision(5))
  then have "0 \<le> dval (ce_generation_subtotal (rt_estimated_cost decision))"
    using estimate_generation_subtotal_covers by (auto simp: quote_def money_ok_iff)
  then show ?thesis
    by (auto simp: generation_estimate_def Let_def split: option.split)
qed

lemma money_sum_nonneg: "list_all (\<lambda>d. 0 \<le> dval d) ds \<Longrightarrow> 0 \<le> dval (money_sum ds)"
  by (induction ds) (auto simp: money_sum_exact)

lemma money_all: "list_all opt_money_ok vs \<Longrightarrow> None \<notin> set vs \<Longrightarrow> list_all (\<lambda>d. 0 \<le> dval d) (map the vs)"
  by (induction vs) (auto simp: opt_money_ok_def money_ok_iff split: option.splits)

lemma validation_bound_nonneg:
  assumes "sound_bounds d" and "validation_bound (dp_checks d) controls = Some bound"
  shows "0 \<le> dval bound"
proof -
  have "opt_money_ok (ck_cost_upper_bound_usd (the (map_of (dp_checks d) name)))"
    if "map_of (dp_checks d) name \<noteq> None" for name
  proof -
    from that obtain ck where ck: "map_of (dp_checks d) name = Some ck" by (cases "map_of (dp_checks d) name") simp_all
    then have "(name, ck) \<in> set (dp_checks d)" by (rule map_of_SomeD)
    with assms(1) ck show ?thesis by (auto simp: sound_bounds_def list_all_iff)
  qed
  then have "list_all opt_money_ok (check_bounds (dp_checks d) controls)"
    by (simp add: check_bounds_def list_all_iff)
  with assms(2) show ?thesis
    by (auto simp: validation_bound_def Let_def split: if_splits intro!: money_sum_nonneg money_all)
qed

lemma estimate_within_admission:
  assumes "sound_bounds d" and "admission_cost d decision = Some c"
  shows "dval (generation_estimate decision) \<le> dval c"
proof -
  let ?tools = "map tl_cost_upper_bound_usd (xc_tool_calls (dp_controls d))"
  obtain amount bound where b: "validation_bound (dp_checks d) (dp_controls d) = Some bound" "None \<notin> set ?tools"
    and c: "c = dec_max amount (money_sum ([generation_estimate decision, bound, ZERO] @ map the ?tools))"
    using assms(2) by (auto simp: admission_cost_def Let_def split: option.splits if_splits)
  have "list_all opt_money_ok ?tools" using assms(1) by (simp add: sound_bounds_def list_all_iff)
  from money_all [OF this b(2)] have "0 \<le> sum_list (map dval (map the ?tools))"
    by (auto simp: list_all_iff intro!: sum_list_nonneg)
  moreover have "0 \<le> dval bound" by (rule validation_bound_nonneg [OF assms(1) b(1)])
  ultimately show ?thesis
    unfolding c by (simp add: money_sum_exact le_max_iff_disj)
qed

section \<open>Changes of the last attempt\<close>

lemma point_replace:
  assumes "point d r k (l, st, as @ [a], ct, ts) calls s"
  shows "point d r k (l, st, as @ [b], ct, ts) calls (s\<lparr>ex_task := replace_last b (ex_task s)\<rparr>)"
  using assms unfolding point_def live_def good_def within_ceiling_def ceiling_of_def counted_def tools_within_def
    facts_def replace_last_def by auto

lemma triple_task:
  assumes "\<And>t. tk_known_cost_usd (f t) = tk_known_cost_usd t" "\<And>t. tk_reserved_cost_usd (f t) = tk_reserved_cost_usd t"
    "\<And>t. tk_status (f t) = tk_status t" "\<And>t. tk_counters (f t) = tk_counters t"
    and a: "\<And>t. tk_attempts t = as \<Longrightarrow> tk_attempts (f t) = as'"
    and t: "\<And>t. tk_tool_events t = ts \<Longrightarrow> tk_tool_events (f t) = ts'"
    and fact: "ledger_fact \<phi>"
  shows "triple d r (\<lambda>s. point d r k (l, st, as, ct, ts) calls s \<and> \<phi> s) (set_task f)
     (\<lambda>_ s. point d r k (l, st, as', ct, ts') calls s \<and> \<phi> s)"
proof (rule tripleI)
  fix s
  assume p: "point d r k (l, st, as, ct, ts) calls s \<and> \<phi> s"
  note q = point_facts [OF conjunct1 [OF p]]
  let ?t = "f (ex_task s)"
  have "point d r k (l, tk_status ?t, tk_attempts ?t, tk_counters ?t, tk_tool_events ?t) calls (s\<lparr>ex_task := ?t\<rparr>)"
  proof (rule point_task [OF conjunct1 [OF p]])
    show "counters_within (tk_counters ?t) l'" if "l = Some l'" for l'
      using point_counters [of d r k l' st as ct ts calls s] p that by (simp add: assms(4) q)
    show "\<not> terminal (tk_status ?t)" using point_status [OF conjunct1 [OF p]] by (simp add: assms(3) q)
  qed (simp_all add: assms(1-4) q)
  moreover have "\<phi> (s\<lparr>ex_world := ex_world s, ex_task := ?t\<rparr>)"
    by (rule ledger_factD [OF fact conjunct2 [OF p]]) (simp_all add: assms(1,2))
  moreover have "s\<lparr>ex_world := ex_world s, ex_task := ?t\<rparr> = s\<lparr>ex_task := ?t\<rparr>" by simp
  ultimately show "wp (set_task f) (\<lambda>_ s. point d r k (l, st, as', ct, ts') calls s \<and> \<phi> s) (raised d r) s"
    by (simp add: wp assms(3,4) q a t)
qed

lemma finish_triple:
  "triple d r (point d r k (l, st, as @ [a], ct, ts) calls) (finish d started completed)
     (\<lambda>_ s. \<exists>now. point d r k (l, st, as @ [completed now], ct, ts) calls s)"
  unfolding finish_def
proof (rule point_step [OF clerical_world])
  fix now
  show "triple d r (point d r k (l, st, as @ [a], ct, ts) calls)
      (seq (from_res (finish_attempt started (completed now))) (\<lambda>a. set_task (replace_last a)))
      (\<lambda>_ s. \<exists>now. point d r k (l, st, as @ [completed now], ct, ts) calls s)"
  proof (cases "finish_attempt started (completed now)")
    case (Inl e)
    then show ?thesis by (auto simp: triple_def wp tame_def intro: live_raised [OF point_live])
  next
    case (Inr b)
    then have "b = completed now" by (simp add: finish_attempt_Inr)
    with Inr show ?thesis by (auto simp: triple_def wp intro: point_replace)
  qed
qed

section \<open>The steps of an attempt\<close>

definition recorded :: "attempt list \<Rightarrow> tool_outcome list \<Rightarrow> 'w execution \<Rightarrow> bool" where
  "recorded as ts s = (\<exists>task events. Save_call task events True \<in> set (ex_log s)
     \<and> tk_attempts task = as \<and> tk_tool_events task = ts)"

lemma recorded_mono: "recorded as ts s \<Longrightarrow> set (ex_log s) \<subseteq> set (ex_log s') \<Longrightarrow> recorded as ts s'"
  by (auto simp: recorded_def)

lemma stable_recorded: "stable (recorded as ts)"
  by (auto simp: stable_def touch_def elim!: recorded_mono)

lemma saved_recorded: "saved_here s \<Longrightarrow> point d r k (l, st, as, ct, ts) calls s \<Longrightarrow> recorded as ts s"
  by (auto simp: saved_here_def recorded_def point_facts dest: point_facts)

definition started_well :: "route_decision \<Rightarrow> decimal \<Rightarrow> string \<Rightarrow> attempt \<Rightarrow> bool" where
  "started_well decision estimate attempt_id a = (at_status a = Attempt_started \<and> at_attempt_id a = attempt_id
     \<and> at_decision a = Some decision \<and> at_estimated_cost_usd a = Some estimate)"

lemma started_attempt_well: "started_well decision estimate attempt_id (started_attempt task decision estimate attempt_id now)"
  by (simp add: started_well_def started_attempt_def)

definition armed :: "'w dependencies \<Rightarrow> decimal \<Rightarrow> attempt list \<Rightarrow> tool_outcome list \<Rightarrow> 'w execution \<Rightarrow> bool" where
  "armed d amount as ts s = ((sound_bounds d \<longrightarrow> covered (dval amount) s) \<and> may_dispatch s \<and> recorded as ts s)"

lemma stable_armed: "stable (armed d amount as ts)"
  unfolding armed_def by (intro stable_conj stable_covered stable_may_dispatch stable_recorded)

lemma counted_generation:
  assumes "ct_generation_attempts ct < xl_max_total_generation_attempts l" and "counters_within ct l"
  shows "counters_within (count_generation ct) l"
  using assms by (simp add: counters_within_def count_generation_def)

lemma begin_attempt_triple:
  assumes "ct_generation_attempts ct < xl_max_total_generation_attempts l"
  shows "triple d r (\<lambda>s. point d r k (Some l, Routed, as, ct, ts) calls s \<and> (sound_bounds d \<longrightarrow> covered (dval e) s))
     (begin_attempt d decision e i)
     (\<lambda>started s. started_well decision e i started
        \<and> point d r k (Some l, Running, as @ [started], count_generation ct, ts) calls s
        \<and> armed d e (as @ [started]) ts s)"
    (is "triple d r ?P _ ?Q")
  unfolding begin_attempt_def Let_def
proof (rule triple_seq [OF point_move [where st = Routed]], (simp_all add: may_follow_def ledger_fact_covered)[11],
    rule clerical_step [OF clerical_world stable_covered], rule triple_get)
  fix now task
  let ?started = "started_attempt task decision e i now"
  let ?n = "ct_generation_attempts ct"
  let ?\<phi> = "\<lambda>s. (sound_bounds d \<longrightarrow> covered (dval e) s) \<and> dispatches (ex_log s) \<le> ?n"
  have \<phi>: "ledger_fact ?\<phi>" by (intro ledger_fact_conj ledger_fact_covered ledger_fact_dispatches)
  have "triple d r (\<lambda>s. point d r k (Some l, Admitted, as, ct, ts) calls s \<and> ?\<phi> s)
      (seq (move d Running (\<lambda>t. t\<lparr>tk_attempts := tk_attempts t @ [?started],
         tk_counters := count_generation (tk_counters t)\<rparr>)) (\<lambda>_.
       seq (save_event d ATTEMPT_STARTED (no_details\<lparr>ed_attempt_id := Some i,
         ed_decision_id := Some (db_decision_id decision)\<rparr>)) (\<lambda>_. ret ?started))) ?Q"
  proof (rule triple_seq [OF point_move [where st = Admitted and ct = ct and as = as, OF _ _ _ _ _ _ _ _ _ _ \<phi>]])
    show "counters_within (count_generation ct) l'" if "Some l = Some l'" "counters_within ct l'" for l'
      using that counted_generation [OF assms] by simp
  next
    show "triple d r (\<lambda>s. point d r k (Some l, Running, as @ [?started], count_generation ct, ts) calls s \<and> ?\<phi> s)
      (seq (save_event d ATTEMPT_STARTED (no_details\<lparr>ed_attempt_id := Some i,
         ed_decision_id := Some (db_decision_id decision)\<rparr>)) (\<lambda>_. ret ?started)) ?Q"
      by (rule clerical_fact [OF clerical_save_event ledger_fact_stable [OF \<phi>], where \<psi> = "\<lambda>_. saved_here"],
          rule save_event_fact, rule triple_ret)
        (auto simp: armed_def may_dispatch_def point_facts count_generation_def started_attempt_well
          intro: saved_recorded)
  qed (simp_all add: may_follow_def count_generation_def)
  then show "triple d r (\<lambda>s. (point d r k (Some l, Admitted, as, ct, ts) calls s
        \<and> (sound_bounds d \<longrightarrow> covered (dval e) s)) \<and> task = ex_task s)
      (seq (move d Running (\<lambda>t. t\<lparr>tk_attempts := tk_attempts t @ [?started],
         tk_counters := count_generation (tk_counters t)\<rparr>)) (\<lambda>_.
       seq (save_event d ATTEMPT_STARTED (no_details\<lparr>ed_attempt_id := Some i,
         ed_decision_id := Some (db_decision_id decision)\<rparr>)) (\<lambda>_. ret ?started))) ?Q"
    by (rule triple_pre) (auto dest: point_dispatches)
qed

lemma cancel_attempt_triple:
  "triple d r (\<lambda>s. point d r k (l, st, as @ [a], ct, ts) calls s \<and> (sound_bounds d \<longrightarrow> covered (dval e) s))
     (cancel_attempt d started e f) (\<lambda>_ s. \<exists>b. point d r k (l, st, as @ [b], ct, ts) calls s)"
  unfolding cancel_attempt_def
  by (rule triple_seq [OF charge_triple], rule triple_seq [OF finish_triple], rule triple_ex,
      rule triple_post [OF point_last [OF clerical_save_event]]) auto

definition ready_to_call :: "'w dependencies \<Rightarrow> request \<Rightarrow> route_decision \<Rightarrow> decimal \<Rightarrow> string \<Rightarrow> attempt \<Rightarrow> call list \<Rightarrow> bool" where
  "ready_to_call d r decision e i started calls = (started_well decision e i started \<and> cleared d r decision
     \<and> Reserve_call i e True \<in> set calls)"

lemma justified_dispatch:
  assumes "ready_to_call d r decision e i started calls" and "set calls \<subseteq> before"
    and "Save_call task events True \<in> before" and "tk_attempts task = as @ [started]"
  shows "justified d r before (Execute_call (generation_request d r task' limits decision i spent))"
proof -
  have "intends_attempt task (generation_request d r task' limits decision i spent) e decision"
    using assms by (simp add: intends_attempt_def ready_to_call_def started_well_def generation_request_def)
  then show ?thesis
    using assms by (auto simp: ready_to_call_def generation_request_def)
qed

lemma invoke_triple:
  assumes c: "ready_to_call d r decision e i started calls"
  shows "triple d r (\<lambda>s. point d r k (Some l, st, as @ [started], ct, ts) calls s \<and> armed d e (as @ [started]) ts s)
     (invoke d r decision i)
     (\<lambda>_ s. point d r k (Some l, st, as @ [started], ct, ts) calls s \<and> (sound_bounds d \<longrightarrow> covered (dval e) s))"
  unfolding invoke_def
proof (rule clerical_step [OF clerical_elapsed stable_armed], rule tripleI)
  fix spent s
  assume a: "point d r k (Some l, st, as @ [started], ct, ts) calls s \<and> armed d e (as @ [started]) ts s"
  then obtain task events where saved: "Save_call task events True \<in> set (ex_log s)" "tk_attempts task = as @ [started]"
    by (auto simp: armed_def recorded_def)
  let ?q = "generation_request d r (ex_task s) l decision i spent"
  have "justified d r (set (ex_log s)) (Execute_call ?q)"
    by (rule justified_dispatch [OF c _ saved]) (use a in \<open>auto simp: point_def\<close>)
  then have "point d r k (Some l, st, as @ [started], ct, ts) calls (s\<lparr>ex_log := ex_log s @ [Execute_call ?q]\<rparr>)"
    using a by (intro point_log_dispatch) (auto simp: armed_def)
  moreover have "ex_limits s = Some l" using point_facts(1) [OF conjunct1 [OF a]] .
  ultimately show "wp (seq (get id) (\<lambda>s. case ex_limits s of None \<Rightarrow> raise (Raised TypeError)
       | Some limits \<Rightarrow> let q = generation_request d r (ex_task s) limits decision i spent in
           seq (log_call (Execute_call q)) (\<lambda>_. seq (world (dp_execute d q)) (\<lambda>answer. ret (accepted_outcome q answer)))))
     (\<lambda>_ s. point d r k (Some l, st, as @ [started], ct, ts) calls s \<and> (sound_bounds d \<longrightarrow> covered (dval e) s))
     (raised d r) s"
    using a by (simp add: wp Let_def point_world armed_def)
qed

section \<open>Accounting and validation\<close>

lemma charge_last:
  assumes "\<And>y. triple d r (point d r k x calls) (f y) Q"
  shows "triple d r (\<lambda>s. point d r k x calls s \<and> (sound_bounds d \<longrightarrow> covered (dval e) s)) (seq (charge d i actual e) f) Q"
  by (rule triple_seq [OF charge_triple]) (rule assms)

lemma point_task_step:
  assumes "\<And>t. tk_known_cost_usd (f t) = tk_known_cost_usd t" "\<And>t. tk_reserved_cost_usd (f t) = tk_reserved_cost_usd t"
    "\<And>t. tk_status (f t) = tk_status t" "\<And>t. tk_counters (f t) = tk_counters t"
    "\<And>t. tk_attempts t = as \<Longrightarrow> tk_attempts (f t) = as'" "\<And>t. tk_tool_events t = ts \<Longrightarrow> tk_tool_events (f t) = ts'"
    and "\<And>y. triple d r (point d r k (l, st, as', ct, ts') calls) (g y) Q"
  shows "triple d r (point d r k (l, st, as, ct, ts) calls) (seq (set_task f) g) Q"
  using triple_seq [OF triple_task [OF assms(1-6) ledger_fact_True [of True], where d = d and r = r and k = k and l = l and st = st and ct = ct and calls = calls], where f = g and Q = Q]
    assms(7) by simp

lemma generation_cost_step:
  assumes "triple d r (point d r k x calls) (f ()) Q"
  shows "triple d r (point d r k x calls) (seq (add_generation_cost actual) f) Q"
  using assms unfolding add_generation_cost_def
  by (cases x) (auto intro!: point_task_step)

lemma validation_cost_step:
  assumes "triple d r (point d r k x calls) (f ()) Q"
  shows "triple d r (point d r k x calls) (seq (add_validation_cost actual) f) Q"
  using assms unfolding add_validation_cost_def
  by (cases x) (auto intro!: point_task_step)

lemma account_triple:
  "triple d r (\<lambda>s. point d r k (l, st, as @ [a], ct, ts) calls s \<and> (sound_bounds d \<longrightarrow> covered (dval e) s))
     (account d started decision e out actual)
     (\<lambda>interim s. at_provider_outcome interim = Some out \<and> point d r k (l, st, as @ [interim], ct, ts) calls s)"
  unfolding account_def Let_def
  by (rule triple_seq [OF triple_task [where as = "as @ [a]" and ts = ts, OF _ _ _ _ _ _ ledger_fact_covered]],
      (simp_all add: replace_last_def)[6], rule clerical_step [OF clerical_save stable_covered], rule charge_last,
      rule generation_cost_step, rule point_step [OF clerical_observe_health], rule point_task_step,
      (simp_all add: replace_last_def)[6], rule triple_ret, simp)

definition sound_verdict :: "'w dependencies \<Rightarrow> provider_outcome \<Rightarrow> verdict \<Rightarrow> bool" where
  "sound_verdict d out v = (vd_failure v = None \<longrightarrow>
     (\<exists>result. out = Result result \<and> valid_result (dp_controls d) result (vd_validations v)))"

lemma unjudged_failure [simp]: "vd_failure (unjudged f) = f"
  by (simp add: unjudged_def)

lemma sound_unjudged [simp]: "sound_verdict d out (unjudged (Some f))"
  by (simp add: sound_verdict_def)

lemma run_validation_triple:
  "triple d r (\<lambda>s. point d r k x calls s \<and> (sound_bounds d \<longrightarrow> covered (dval bound) s))
     (run_validation d r result i bound)
     (\<lambda>v s. point d r k x calls s \<and> sound_verdict d (Result result) v)"
  unfolding run_validation_def Let_def
proof (rule clerical_step [OF clerical_save stable_covered],
    rule clerical_fact [OF clerical_validate_output [OF clerical_validation_checkpoint] stable_covered,
      where \<psi> = "\<lambda>out _. clean out \<longrightarrow> valid_result (dp_controls d) result out"], rule validate_output_fact)
  fix validations :: "validation_outcome list"
  let ?cost = "if None \<in> set (map vo_cost_usd validations) then None
    else Some (money_sum (map the (map vo_cost_usd validations)))"
  have "triple d r (\<lambda>s. point d r k x calls s \<and> (sound_bounds d \<longrightarrow> covered (dval bound) s))
      (seq (charge d i ?cost bound) (\<lambda>_. seq (add_validation_cost ?cost) (\<lambda>_. ret (judge validations))))
      (\<lambda>v s. point d r k x calls s \<and> sound_verdict d (Result result) v)"
    if "clean validations \<longrightarrow> valid_result (dp_controls d) result validations"
    by (rule charge_last, rule validation_cost_step, rule triple_ret)
      (use that judge_clean in \<open>auto simp: sound_verdict_def\<close>)
  then show "triple d r (\<lambda>s. point d r k x calls s \<and> (sound_bounds d \<longrightarrow> covered (dval bound) s)
        \<and> (clean validations \<longrightarrow> valid_result (dp_controls d) result validations))
      (seq (charge d i ?cost bound) (\<lambda>_. seq (add_validation_cost ?cost) (\<lambda>_. ret (judge validations))))
      (\<lambda>v s. point d r k x calls s \<and> sound_verdict d (Result result) v)"
    unfolding triple_def by blast
qed

lemma move_step:
  assumes "may_follow st st'" and "\<not> terminal st'" and "\<And>y. triple d r (point d r k (l, st', as, ct, ts) calls) (g y) Q"
  shows "triple d r (point d r k (l, st, as, ct, ts) calls) (seq (move d st' id) g) Q"
proof -
  have "triple d r (\<lambda>s. point d r k (l, st, as, ct, ts) calls s \<and> True) (move d st' id)
      (\<lambda>_ s. point d r k (l, st', as, ct, ts) calls s \<and> True)"
    by (rule point_move [OF assms(1,2)]) (simp_all add: ledger_fact_True)
  then show ?thesis using assms(3) by (intro triple_seq) auto
qed

text \<open>A raise at a point, and an action admitted there.\<close>

lemma triple_raise: "(\<And>s. P s \<Longrightarrow> live d r k s) \<Longrightarrow> triple d r P (raise (Raised e)) Q"
  by (auto simp: triple_def wp tame_def intro: live_raised [of d r k])

lemma admitted_afford:
  "admitted d action replay call (Some c) s \<Longrightarrow> 0 \<le> dval c \<and> afford (dval c) s"
  by (auto simp: admitted_def)

definition checked_or :: "'w dependencies \<Rightarrow> failure option \<Rightarrow> string \<Rightarrow> bool \<Rightarrow> tool_call option \<Rightarrow> decimal option
    \<Rightarrow> (failure option, 'w) step" where
  "checked_or d stopped action replay call cost =
     (if stopped \<noteq> None then ret stopped else admit d action replay call cost)"

lemma checked_or_fact:
  "wp (checked_or d stopped action replay call cost)
     (\<lambda>refused s'. refused = None \<longrightarrow> admitted d action replay call cost s') (\<lambda>_ _. True) s"
  using admit_fact by (auto simp: checked_or_def wp)

lemma clerical_checked_or [clerical_steps]: "clerical (checked_or d stopped action replay call cost)"
  unfolding checked_or_def by (intro clerical_steps)

lemma validate_attempt_triple:
  "triple d r (point d r k (l, Running, as, ct, ts) calls) (validate_attempt d r result)
     (\<lambda>v s. point d r k (l, Validating, as, ct, ts) calls s \<and> sound_verdict d (Result result) v)"
    (is "triple d r _ _ ?Q")
proof -
  let ?P = "point d r k (l, Validating, as, ct, ts) calls"
  let ?bound = "validation_bound (dp_checks d) (dp_controls d)"
  have granted: "triple d r (\<lambda>s. ?P s \<and> (None = None \<longrightarrow> admitted d ''validation'' False None (Some bound) s))
      (seq (reserve d i bound) (\<lambda>granted.
       if \<not> granted then ret (unjudged (Some (admission_stop BUDGET_FAILURE ''validation_reservation_refused'')))
       else run_validation d r result i bound)) ?Q" for i bound
  proof (rule triple_seq, rule triple_pre [OF reserve_triple])
    show "triple d r (\<lambda>s. point d r k (l, Validating, as, ct, ts) (if ok then Reserve_call i bound True # calls else calls) s
          \<and> (ok \<longrightarrow> sound_bounds d \<longrightarrow> covered (dval bound) s))
        (if \<not> ok then ret (unjudged (Some (admission_stop BUDGET_FAILURE ''validation_reservation_refused'')))
         else run_validation d r result i bound) ?Q" for ok
    proof (cases ok)
      case True
      have "triple d r (\<lambda>s. point d r k (l, Validating, as, ct, ts) (Reserve_call i bound True # calls) s
          \<and> (sound_bounds d \<longrightarrow> covered (dval bound) s)) (run_validation d r result i bound) ?Q"
        by (rule triple_post [OF run_validation_triple]) (auto elim: point_fewer)
      then show ?thesis using True by simp
    next
      case False
      then show ?thesis by (auto intro!: triple_ret)
    qed
  qed (auto dest: admitted_afford)
  have step: "triple d r (\<lambda>s. ?P s \<and> (refused = None \<longrightarrow> admitted d ''validation'' False None ?bound s))
      (seq (world (dp_uuid d)) (\<lambda>i. case (refused, ?bound) of
         (None, Some amount) \<Rightarrow> seq (reserve d i amount) (\<lambda>granted.
           if \<not> granted then ret (unjudged (Some (admission_stop BUDGET_FAILURE ''validation_reservation_refused'')))
           else run_validation d r result i amount)
       | (None, None) \<Rightarrow> raise (Raised TypeError)
       | (Some f, _) \<Rightarrow> ret (unjudged (Some f)))) ?Q" for refused
  proof (rule clerical_step [OF clerical_world stable_admitted])
    show "triple d r (\<lambda>s. ?P s \<and> (refused = None \<longrightarrow> admitted d ''validation'' False None ?bound s))
      (case (refused, ?bound) of
         (None, Some amount) \<Rightarrow> seq (reserve d i amount) (\<lambda>granted.
           if \<not> granted then ret (unjudged (Some (admission_stop BUDGET_FAILURE ''validation_reservation_refused'')))
           else run_validation d r result i amount)
       | (None, None) \<Rightarrow> raise (Raised TypeError)
       | (Some f, _) \<Rightarrow> ret (unjudged (Some f))) ?Q" for i
      using granted by (cases refused; cases ?bound) (auto intro: triple_ret triple_raise point_live)
  qed
  have "triple d r ?P (seq (checked_or d stopped ''validation'' False None ?bound) (\<lambda>refused.
       seq (world (dp_uuid d)) (\<lambda>i. case (refused, ?bound) of
         (None, Some amount) \<Rightarrow> seq (reserve d i amount) (\<lambda>granted.
           if \<not> granted then ret (unjudged (Some (admission_stop BUDGET_FAILURE ''validation_reservation_refused'')))
           else run_validation d r result i amount)
       | (None, None) \<Rightarrow> raise (Raised TypeError)
       | (Some f, _) \<Rightarrow> ret (unjudged (Some f))))) ?Q" for stopped
    using clerical_fact [OF clerical_checked_or stable_True [of True] checked_or_fact, where Q = ?Q] step by simp
  note checked = this [unfolded checked_or_def]
  show ?thesis
    unfolding validate_attempt_def Let_def
    by (rule move_step, simp add: may_follow_def, simp, rule point_step [OF clerical_save],
        rule point_step [OF clerical_checkpoint], rule checked)
qed

section \<open>The whole attempt\<close>

text \<open>An attempt that succeeded with a complete response that passed every required check.\<close>

definition verified :: "execution_controls \<Rightarrow> attempt \<Rightarrow> bool" where
  "verified controls a = (at_status a = Attempt_succeeded
     \<and> (\<exists>result. at_provider_outcome a = Some (Result result) \<and> valid_result controls result (at_validations a)))"

lemma complete_attempt_triple:
  assumes v: "sound_verdict d out v" and out: "at_provider_outcome interim = Some out"
    and st: "vd_failure v = None \<Longrightarrow> st = Validating"
  shows "triple d r (point d r k (l, st, as @ [a], ct, ts) calls) (complete_attempt d r started interim v)
     (\<lambda>v' s. \<exists>b. point d r k (l, st, as @ [b], ct, ts) calls s
        \<and> (vd_failure v' = None \<longrightarrow> st = Validating \<and> verified (dp_controls d) b))"
    (is "triple d r ?P _ ?Q")
proof -
  have rest: "triple d r ?P (seq (finish d started (\<lambda>now. interim\<lparr>
            at_status := (if failure \<noteq> None then Attempt_failed else Attempt_succeeded),
            at_completed_at := Some now, at_failure := recorded_failure v failure,
            at_validations := vd_validations v\<rparr>)) (\<lambda>_.
       seq (event d ATTEMPT_COMPLETED (no_details\<lparr>ed_attempt_id := Some (at_attempt_id started),
            ed_failure := map_option fl_failure_type failure\<rparr>)) (\<lambda>completed.
       seq (validation_events d (at_attempt_id started) (vd_validations v)) (\<lambda>checks.
       seq (save d (completed # checks)) (\<lambda>_. ret (v\<lparr>vd_failure := failure\<rparr>)))))) ?Q"
    if "failure = None \<Longrightarrow> vd_failure v = None" for failure
    by (rule triple_seq [OF finish_triple], rule triple_ex, rule point_step [OF clerical_event],
        rule point_step [OF clerical_validation_events], rule point_step [OF clerical_save], rule triple_ret)
      (use that v out st in \<open>auto simp: verified_def sound_verdict_def intro!: exI\<close>)
  have decided: "wp (if vd_failure v \<noteq> None then ret (vd_failure v) else validation_checkpoint d r)
      (\<lambda>failure _. failure = None \<longrightarrow> vd_failure v = None) (\<lambda>_ _. True) s" for s
    using wp_trivial by (cases "vd_failure v") (simp_all add: wp)
  have "triple d r (\<lambda>s. ?P s \<and> True) (complete_attempt d r started interim v) ?Q"
    unfolding complete_attempt_def
  proof (rule clerical_fact [OF _ stable_True decided])
    show "clerical (if vd_failure v \<noteq> None then ret (vd_failure v) else validation_checkpoint d r)"
      by (intro clerical_steps)
  qed (unfold simp_thms, rule triple_fact, rule rest, blast)
  then show ?thesis by simp
qed

definition attempted :: "'w dependencies \<Rightarrow> request \<Rightarrow> nat \<Rightarrow> execution_limits option \<Rightarrow> counters \<Rightarrow> tool_outcome list
    \<Rightarrow> call list \<Rightarrow> verdict \<Rightarrow> 'w execution \<Rightarrow> bool" where
  "attempted d r k l ct ts calls v s = (\<exists>st as b. (st = Running \<or> st = Validating)
     \<and> point d r k (l, st, as @ [b], ct, ts) calls s
     \<and> (vd_failure v = None \<longrightarrow> st = Validating \<and> verified (dp_controls d) b))"

lemma attemptedI:
  assumes "st = Running \<or> st = Validating" and "point d r k (l, st, as @ [b], ct, ts) calls s"
    and "vd_failure v = None \<Longrightarrow> st = Validating \<and> verified (dp_controls d) b"
  shows "attempted d r k l ct ts calls v s"
  unfolding attempted_def by (rule exI [of _ st], rule exI [of _ as], rule exI [of _ b]) (use assms in simp)

lemma attemptedE:
  assumes "attempted d r k l ct ts calls v s"
  obtains st as b where "st = Running \<or> st = Validating" "point d r k (l, st, as @ [b], ct, ts) calls s"
    "vd_failure v = None \<longrightarrow> st = Validating \<and> verified (dp_controls d) b"
  using assms unfolding attempted_def by metis

lemma attempted_fewer:
  assumes "attempted d r k l ct ts (c # calls) v s"
  shows "attempted d r k l ct ts calls v s"
proof -
  obtain st as b where a: "st = Running \<or> st = Validating" "point d r k (l, st, as @ [b], ct, ts) (c # calls) s"
    "vd_failure v = None \<longrightarrow> st = Validating \<and> verified (dp_controls d) b"
    using assms by (rule attemptedE)
  have "point d r k (l, st, as @ [b], ct, ts) calls s" using point_fewer [OF a(2)] by auto
  with a(1,3) show ?thesis by (intro attemptedI) simp_all
qed

lemma attempt_body_triple:
  assumes c: "ready_to_call d r decision e (at_attempt_id started) started calls"
  shows "triple d r (\<lambda>s. point d r k (Some l, Running, as @ [started], ct, ts) calls s \<and> armed d e (as @ [started]) ts s)
     (attempt_body d r env decision e started) (attempted d r k (Some l) ct ts calls)"
  unfolding attempt_body_def
proof (rule triple_seq [OF invoke_triple [OF c]], rule triple_seq [OF account_triple])
  fix out interim
  have judged: "triple d r (point d r k (Some l, Running, as @ [interim], ct, ts) calls)
      (case out of Provider_failed _ \<Rightarrow> ret (unjudged (outcome_failure out)) | Result result \<Rightarrow> validate_attempt d r result)
      (\<lambda>v s. \<exists>st. point d r k (Some l, st, as @ [interim], ct, ts) calls s
         \<and> ((st = Running \<or> st = Validating) \<and> sound_verdict d out v \<and> (vd_failure v = None \<longrightarrow> st = Validating)))"
  proof (cases out)
    case (Provider_failed f)
    then show ?thesis by (auto intro!: triple_ret simp: outcome_failure_def)
  next
    case (Result result)
    have "triple d r (point d r k (Some l, Running, as @ [interim], ct, ts) calls) (validate_attempt d r result)
      (\<lambda>v s. \<exists>st. point d r k (Some l, st, as @ [interim], ct, ts) calls s
         \<and> ((st = Running \<or> st = Validating) \<and> sound_verdict d (Result result) v \<and> (vd_failure v = None \<longrightarrow> st = Validating)))"
      by (rule triple_post [OF validate_attempt_triple]) blast
    with Result show ?thesis by simp
  qed
  have "triple d r (point d r k (Some l, Running, as @ [interim], ct, ts) calls)
      (seq (case out of Provider_failed _ \<Rightarrow> ret (unjudged (outcome_failure out))
            | Result result \<Rightarrow> validate_attempt d r result) (complete_attempt d r started interim))
      (attempted d r k (Some l) ct ts calls)"
    if "at_provider_outcome interim = Some out"
  proof (rule triple_seq [OF judged], rule triple_ex, rule triple_fact)
    fix v st
    assume "(st = Running \<or> st = Validating) \<and> sound_verdict d out v \<and> (vd_failure v = None \<longrightarrow> st = Validating)"
    then have st: "st = Running \<or> st = Validating" and v: "sound_verdict d out v"
      "vd_failure v = None \<Longrightarrow> st = Validating" by simp_all
    show "triple d r (point d r k (Some l, st, as @ [interim], ct, ts) calls) (complete_attempt d r started interim v)
        (attempted d r k (Some l) ct ts calls)"
      by (rule triple_post [OF complete_attempt_triple [OF v(1) that v(2)]]) (use st in \<open>auto intro: attemptedI [where st = st]\<close>)
  qed
  then show "triple d r (\<lambda>s. at_provider_outcome interim = Some out
        \<and> point d r k (Some l, Running, as @ [interim], ct, ts) calls s)
      (seq (case out of Provider_failed _ \<Rightarrow> ret (unjudged (outcome_failure out))
            | Result result \<Rightarrow> validate_attempt d r result) (complete_attempt d r started interim))
      (attempted d r k (Some l) ct ts calls)"
    unfolding triple_def by blast
qed

text \<open>Every outcome of \<open>generate\<close>: refused before an attempt began, or one attempt more.\<close>

definition generated :: "'w dependencies \<Rightarrow> request \<Rightarrow> nat \<Rightarrow> execution_limits option \<Rightarrow> attempt list \<Rightarrow> counters
    \<Rightarrow> tool_outcome list \<Rightarrow> verdict \<Rightarrow> 'w execution \<Rightarrow> bool" where
  "generated d r k l as ct ts v s =
     ((point d r k (l, Routed, as, ct, ts) [] s \<and> vd_failure v \<noteq> None)
      \<or> attempted d r k l (count_generation ct) ts [] v s)"

lemma admitted_generation:
  assumes "admitted d ''generation'' False None cost s" and "point d r k (Some l, st, as, ct, ts) calls s"
  shows "ct_generation_attempts ct < xl_max_total_generation_attempts l"
  using assms point_facts [OF assms(2)]
  by (auto simp: admitted_def attempt_blocker_None generation_actions_def)

lemma admitted_estimate:
  assumes "admitted d ''generation'' False None (admission_cost d decision) s" and "cleared d r decision"
    and "sound_bounds d"
  shows "0 \<le> dval (generation_estimate decision) \<and> afford (dval (generation_estimate decision)) s"
proof -
  obtain c where c: "admission_cost d decision = Some c" "afford (dval c) s" using assms(1) by (auto simp: admitted_def)
  then show ?thesis
    using estimate_within_admission [OF assms(3) c(1)] generation_estimate_nonneg [OF _ assms(2)] assms(3)
    by (auto simp: afford_def sound_bounds_def)
qed

lemma start_attempt_triple:
  assumes c: "cleared d r decision" and room: "ct_generation_attempts ct < xl_max_total_generation_attempts l"
    and R: "Reserve_call i e True \<in> set calls"
  shows "triple d r (\<lambda>s. point d r k (Some l, Routed, as, ct, ts) calls s \<and> (sound_bounds d \<longrightarrow> covered (dval e) s))
     (seq (begin_attempt d decision e i) (\<lambda>started.
      seq (dispatch_blocker d r decision e) (\<lambda>blocked.
      case blocked of
        Some f \<Rightarrow> seq (cancel_attempt d started e f) (\<lambda>_. ret (unjudged (Some f)))
      | None \<Rightarrow> attempt_body d r env decision e started)))
     (attempted d r k (Some l) (count_generation ct) ts calls)"
proof (rule triple_seq [OF begin_attempt_triple [OF room]])
  fix started
  let ?p = "point d r k (Some l, Running, as @ [started], count_generation ct, ts) calls"
  let ?a = "armed d e (as @ [started]) ts"
  have "triple d r (\<lambda>s. ?p s \<and> ?a s) (seq (dispatch_blocker d r decision e) (\<lambda>blocked.
      case blocked of
        Some f \<Rightarrow> seq (cancel_attempt d started e f) (\<lambda>_. ret (unjudged (Some f)))
      | None \<Rightarrow> attempt_body d r env decision e started)) (attempted d r k (Some l) (count_generation ct) ts calls)"
    if w: "started_well decision e i started"
  proof (rule clerical_step [OF clerical_dispatch_blocker stable_armed])
    have ready: "ready_to_call d r decision e (at_attempt_id started) started calls"
      using w c R by (simp add: ready_to_call_def started_well_def)
    have "triple d r (\<lambda>s. ?p s \<and> ?a s) (seq (cancel_attempt d started e f) (\<lambda>_. ret (unjudged (Some f))))
        (attempted d r k (Some l) (count_generation ct) ts calls)" for f
      by (rule triple_pre, rule triple_seq [OF cancel_attempt_triple], rule triple_ret)
        (auto simp: attempted_def armed_def)
    then show "triple d r (\<lambda>s. ?p s \<and> ?a s) (case blocked of
        Some f \<Rightarrow> seq (cancel_attempt d started e f) (\<lambda>_. ret (unjudged (Some f)))
      | None \<Rightarrow> attempt_body d r env decision e started) (attempted d r k (Some l) (count_generation ct) ts calls)"
      for blocked using attempt_body_triple [OF ready] by (cases blocked) simp_all
  qed
  then show "triple d r (\<lambda>s. started_well decision e i started \<and> ?p s \<and> ?a s)
     (seq (dispatch_blocker d r decision e) (\<lambda>blocked.
      case blocked of
        Some f \<Rightarrow> seq (cancel_attempt d started e f) (\<lambda>_. ret (unjudged (Some f)))
      | None \<Rightarrow> attempt_body d r env decision e started)) (attempted d r k (Some l) (count_generation ct) ts calls)"
    unfolding triple_def by blast
qed

lemma generate_triple:
  assumes c: "cleared d r decision"
  shows "triple d r (point d r k (Some l, Routed, as, ct, ts) []) (generate d r decision) (generated d r k (Some l) as ct ts)"
    (is "triple d r ?P _ ?Q")
  unfolding generate_def Let_def
proof (rule point_step [OF clerical_read_environment])
  fix env
  let ?e = "generation_estimate decision" and ?c = "admission_cost d decision"
  let ?go = "\<lambda>i. seq (reserve d i ?e) (\<lambda>granted.
       if \<not> granted then ret (unjudged (Some (admission_stop BUDGET_FAILURE ''budget_reservation_refused'')))
       else
         seq (begin_attempt d decision ?e i) (\<lambda>started.
         seq (dispatch_blocker d r decision ?e) (\<lambda>blocked.
         case blocked of
           Some f \<Rightarrow> seq (cancel_attempt d started ?e f) (\<lambda>_. ret (unjudged (Some f)))
         | None \<Rightarrow> attempt_body d r env decision ?e started)))"
  have go: "triple d r (\<lambda>s. ?P s \<and> (sound_bounds d \<longrightarrow> 0 \<le> dval ?e \<and> afford (dval ?e) s)) (?go i) ?Q"
    if room: "ct_generation_attempts ct < xl_max_total_generation_attempts l" for i
  proof (rule triple_seq [OF reserve_triple])
    fix ok
    show "triple d r (\<lambda>s. point d r k (Some l, Routed, as, ct, ts) (if ok then [Reserve_call i ?e True] else []) s
          \<and> (ok \<longrightarrow> sound_bounds d \<longrightarrow> covered (dval ?e) s))
        (if \<not> ok then ret (unjudged (Some (admission_stop BUDGET_FAILURE ''budget_reservation_refused'')))
         else
         seq (begin_attempt d decision ?e i) (\<lambda>started.
         seq (dispatch_blocker d r decision ?e) (\<lambda>blocked.
         case blocked of
           Some f \<Rightarrow> seq (cancel_attempt d started ?e f) (\<lambda>_. ret (unjudged (Some f)))
         | None \<Rightarrow> attempt_body d r env decision ?e started))) ?Q"
    proof (cases ok)
      case True
      have "triple d r (\<lambda>s. point d r k (Some l, Routed, as, ct, ts) [Reserve_call i ?e True] s
            \<and> (sound_bounds d \<longrightarrow> covered (dval ?e) s))
         (seq (begin_attempt d decision ?e i) (\<lambda>started.
         seq (dispatch_blocker d r decision ?e) (\<lambda>blocked.
         case blocked of
           Some f \<Rightarrow> seq (cancel_attempt d started ?e f) (\<lambda>_. ret (unjudged (Some f)))
         | None \<Rightarrow> attempt_body d r env decision ?e started))) ?Q"
        by (rule triple_post [OF start_attempt_triple [OF c room]]) (auto simp: generated_def dest: attempted_fewer)
      then show ?thesis using True by simp
    next
      case False
      then show ?thesis by (auto intro!: triple_ret simp: generated_def)
    qed
  qed
  have step: "triple d r (\<lambda>s. ?P s \<and> (refused = None \<longrightarrow> admitted d ''generation'' False None ?c s))
      (if refused \<noteq> None then ret (unjudged refused) else seq (world (dp_uuid d)) ?go) ?Q" for refused
  proof (cases refused)
    case None
    have "triple d r (\<lambda>s. ?P s \<and> (sound_bounds d \<longrightarrow> 0 \<le> dval ?e \<and> afford (dval ?e) s)
        \<and> ct_generation_attempts ct < xl_max_total_generation_attempts l) (?go i) ?Q" for i
      using go [of i] unfolding triple_def by blast
    then have "triple d r (\<lambda>s. ?P s \<and> (refused = None \<longrightarrow> admitted d ''generation'' False None ?c s)) (?go i) ?Q" for i
      by (rule triple_pre)
        (use None in \<open>auto intro: admitted_generation dest: admitted_estimate [OF _ c]\<close>)
    then have "triple d r (\<lambda>s. ?P s \<and> (refused = None \<longrightarrow> admitted d ''generation'' False None ?c s))
        (seq (world (dp_uuid d)) ?go) ?Q"
      by (intro clerical_step [OF clerical_world stable_admitted])
    with None show ?thesis by simp
  next
    case (Some f)
    then show ?thesis by (auto intro!: triple_ret simp: generated_def)
  qed
  have "triple d r (\<lambda>s. ?P s \<and> True) (seq (admit d ''generation'' False None ?c) (\<lambda>refused.
      if refused \<noteq> None then ret (unjudged refused) else seq (world (dp_uuid d)) ?go)) ?Q"
    by (rule clerical_fact [OF clerical_admit stable_True admit_fact]) (use step in simp)
  then show "triple d r ?P (seq (admit d ''generation'' False None ?c) (\<lambda>refused.
      if refused \<noteq> None then ret (unjudged refused) else seq (world (dp_uuid d)) ?go)) ?Q" by simp
qed

end
