(* ===== verification/ToolFacts.thy ===== *)
theory ToolFacts
  imports GenerateFacts
begin

text \<open>
  The declared tools of a task: a tool runs only after its reservation and the record of its start,
  within the authorization of the task, and every run beyond the declared calls is a counted
  recovery. The loop of one call ends because a recovery is only proposed while recoveries are left.
\<close>

section \<open>One call\<close>

lemma triple_conj:
  assumes "triple d r P m Q" and "\<And>s. P s \<Longrightarrow> wp m Q' (\<lambda>_ _. True) s"
  shows "triple d r P m (\<lambda>x s. Q x s \<and> Q' x s)"
proof (rule tripleI)
  fix s
  assume "P s"
  then have "wp m Q (raised d r) s" "wp m Q' (\<lambda>_ _. True) s" using assms by (auto simp: triple_def)
  from wp_conj [OF this] show "wp m (\<lambda>x s. Q x s \<and> Q' x s) (raised d r) s" by simp
qed

lemma reserve_tool_runs: "tool_runs (ex_log s) \<le> n \<Longrightarrow> wp (reserve d i a) (\<lambda>_ s. tool_runs (ex_log s) \<le> n) (\<lambda>_ _. True) s"
  by (auto simp: reserve_def mark_unavailable_def wp split: option.split)

definition may_use :: "'w dependencies \<Rightarrow> nat \<Rightarrow> decimal \<Rightarrow> 'w execution \<Rightarrow> bool" where
  "may_use d n bound s = ((sound_bounds d \<longrightarrow> covered (dval bound) s) \<and> tool_runs (ex_log s) \<le> n)"

lemma ledger_fact_may_use: "ledger_fact (may_use d n bound)"
  unfolding may_use_def by (intro ledger_fact_conj ledger_fact_covered ledger_fact_tool_runs)

lemma begin_tool_triple:
  "triple d r (\<lambda>s. point d r k (l, st, as, ct, ts) calls s \<and> may_use d n bound s)
     (begin_tool d call i)
     (\<lambda>started s. (to_tool_event_id started = i \<and> to_status started = Tool_started \<and> to_tool started = tl_tool call)
        \<and> point d r k (l, st, as, ct, ts @ [started]) calls s \<and> may_use d n bound s \<and> recorded as (ts @ [started]) s)"
    (is "triple d r ?P _ ?Q")
  unfolding begin_tool_def
proof (rule clerical_step [OF clerical_get ledger_fact_stable [OF ledger_fact_may_use]],
    rule clerical_step [OF clerical_from_res ledger_fact_stable [OF ledger_fact_may_use]], unfold Let_def)
  fix parent parent_id
  let ?started = "started_tool call i parent_id"
  have "triple d r (\<lambda>s. point d r k (l, st, as, ct, ts @ [?started]) calls s \<and> may_use d n bound s)
      (seq (save_event d TOOL_STARTED (no_details\<lparr>ed_tool_event_id := Some i, ed_attempt_id := Some parent_id\<rparr>))
        (\<lambda>_. ret ?started)) ?Q"
    by (rule clerical_fact [OF clerical_save_event ledger_fact_stable [OF ledger_fact_may_use], where \<psi> = "\<lambda>_. saved_here"],
        rule save_event_fact, rule triple_ret) (auto simp: started_tool_def intro: saved_recorded)
  then show "triple d r ?P (seq (set_task (\<lambda>t. t\<lparr>tk_tool_events := tk_tool_events t @ [?started]\<rparr>)) (\<lambda>_.
      seq (save_event d TOOL_STARTED (no_details\<lparr>ed_tool_event_id := Some i, ed_attempt_id := Some parent_id\<rparr>))
        (\<lambda>_. ret ?started))) ?Q"
    by (intro triple_seq [OF triple_task [where as = as and ts = ts, OF _ _ _ _ _ _ ledger_fact_may_use]]) simp_all
qed

definition same_tool_point :: "'w dependencies \<Rightarrow> request \<Rightarrow> nat \<Rightarrow> execution_limits option \<Rightarrow> task_status
    \<Rightarrow> attempt list \<Rightarrow> counters \<Rightarrow> 'w execution \<Rightarrow> bool" where
  "same_tool_point d r k l st as ct s = (\<exists>ts. point d r k (l, st, as, ct, ts) [] s)"

lemma same_tool_pointI: "point d r k (l, st, as, ct, ts) calls s \<Longrightarrow> same_tool_point d r k l st as ct s"
  unfolding same_tool_point_def using point_fewer [of d r k _ calls s "[]"] by force

lemma record_tool_triple:
  "triple d r (\<lambda>s. point d r k (l, st, as, ct, ts @ [a]) calls s \<and> (sound_bounds d \<longrightarrow> covered (dval bound) s))
     (record_tool d started o' bound) (\<lambda>_. same_tool_point d r k l st as ct)"
  unfolding record_tool_def
  by (rule charge_last, rule point_task_step [where ts = "ts @ [a]"], (simp_all add: replace_last_tool_def)[6],
      rule triple_post [OF point_last [OF clerical_save_event]], erule same_tool_pointI)

lemma justified_tool:
  assumes "tl_cost_upper_bound_usd call = Some bound" and "tool_permitted (dp_controls d) call"
    and "Reserve_call i bound True \<in> before" and "Save_call task events True \<in> before"
    and "tk_tool_events task = ts @ [started]"
    and "to_tool_event_id started = i \<and> to_status started = Tool_started \<and> to_tool started = tl_tool call"
  shows "justified d r before (Tool_call call i)"
proof -
  have "intends_tool task call i" using assms(5,6) by (simp add: intends_tool_def)
  with assms(1-4) show ?thesis unfolding justified.simps by blast
qed

lemma run_tool_triple:
  assumes b: "tl_cost_upper_bound_usd call = Some bound" and perm: "tool_permitted (dp_controls d) call"
    and R: "Reserve_call i bound True \<in> set calls" and n: "n < k + ct_tool_recoveries ct"
    and w: "to_tool_event_id started = i \<and> to_status started = Tool_started \<and> to_tool started = tl_tool call"
  shows "triple d r (\<lambda>s. point d r k (l, st, as, ct, ts @ [started]) calls s
        \<and> (may_use d n bound s \<and> recorded as (ts @ [started]) s))
     (run_tool d call started bound) (\<lambda>_. same_tool_point d r k l st as ct)"
  unfolding run_tool_def
proof (rule triple_get)
  fix task :: task_result
  let ?answer = "case dp_tools d of None \<Rightarrow> ret None
    | Some tools \<Rightarrow> world (tools call (tk_task_id task) (tk_trace_id task) (to_tool_event_id started))"
  let ?rest = "\<lambda>answer. let o' = accepted_tool_outcome call started answer in
     seq (observe_health d (''tool'', None, Some (tl_tool call)) (map_option fl_failure_type (to_failure o'))
            (to_failure o' = None)) (\<lambda>_.
     seq (record_tool d started o' bound) (\<lambda>_. ret o'))"
  let ?p = "point d r k (l, st, as, ct, ts @ [started]) calls"
  have cl: "clerical ?answer" by (intro clerical_steps)
  have rest: "triple d r (\<lambda>s. ?p s \<and> (sound_bounds d \<longrightarrow> covered (dval bound) s)) (seq ?answer ?rest)
      (\<lambda>_. same_tool_point d r k l st as ct)"
    unfolding Let_def
    by (rule clerical_step [OF cl stable_covered], rule clerical_step [OF clerical_observe_health stable_covered],
        rule triple_seq [OF record_tool_triple], rule triple_ret)
  show "triple d r (\<lambda>s. (?p s \<and> (may_use d n bound s \<and> recorded as (ts @ [started]) s)) \<and> task = ex_task s)
      (seq (log_call (Tool_call call (to_tool_event_id started))) (\<lambda>_. seq ?answer ?rest))
      (\<lambda>_. same_tool_point d r k l st as ct)"
  proof (rule triple_seq [OF _ rest], rule tripleI)
    fix s
    assume a: "(?p s \<and> (may_use d n bound s \<and> recorded as (ts @ [started]) s)) \<and> task = ex_task s"
    then obtain task' events where saved: "Save_call task' events True \<in> set (ex_log s)"
      "tk_tool_events task' = ts @ [started]" by (auto simp: recorded_def)
    have "justified d r (set (ex_log s)) (Tool_call call i)"
      by (rule justified_tool [OF b perm _ saved w]) (use a R in \<open>auto simp: point_def\<close>)
    moreover have "may_run_tool k s"
      using a n point_facts(4) [of d r k l st as ct "ts @ [started]" calls s] by (simp add: may_run_tool_def may_use_def)
    ultimately have "?p (s\<lparr>ex_log := ex_log s @ [Tool_call call i]\<rparr>)"
      using a by (intro point_log_tool) auto
    then show "wp (log_call (Tool_call call (to_tool_event_id started)))
        (\<lambda>_ s. ?p s \<and> (sound_bounds d \<longrightarrow> covered (dval bound) s)) (raised d r) s"
      using a w by (simp add: wp may_use_def)
  qed
qed

lemma admitted_tool:
  "admitted d action replay (Some call) (Some bound) s \<Longrightarrow>
     tool_permitted (dp_controls d) call \<and> 0 \<le> dval bound \<and> afford (dval bound) s"
  by (auto simp: admitted_def check_tool_None tool_permitted_def)

abbreviation few_runs :: "nat \<Rightarrow> 'w execution \<Rightarrow> bool" where
  "few_runs n s \<equiv> tool_runs (ex_log s) \<le> n"

lemma stable_few_runs: "stable (few_runs n)"
  by (rule ledger_fact_stable [OF ledger_fact_tool_runs])

lemma funded_tool_triple:
  assumes b: "tl_cost_upper_bound_usd call = Some bound" and perm: "tool_permitted (dp_controls d) call"
    and n: "n < k + ct_tool_recoveries ct" and R: "Reserve_call i bound True \<in> set calls"
  shows "triple d r (\<lambda>s. point d r k (l, st, as, ct, ts) calls s \<and> may_use d n bound s)
     (seq (begin_tool d call i) (\<lambda>started.
      seq (tool_blocker d r call) (\<lambda>blocked.
      case blocked of
        Some f \<Rightarrow>
          seq (record_tool d started (started\<lparr>to_status := Tool_failed, to_failure := Some f,
                 to_cost_usd := Some ZERO\<rparr>) bound) (\<lambda>_. ret (Inl f))
      | None \<Rightarrow> seq (run_tool d call started bound) (\<lambda>o'. ret (Inr o')))))
     (\<lambda>_. same_tool_point d r k l st as ct)" (is "triple d r _ _ ?Q")
proof (rule triple_seq [OF begin_tool_triple])
  fix started
  let ?p = "point d r k (l, st, as, ct, ts @ [started]) calls"
  let ?\<phi> = "\<lambda>s. may_use d n bound s \<and> recorded as (ts @ [started]) s"
  let ?finish = "\<lambda>blocked. case blocked of
        Some f \<Rightarrow>
          seq (record_tool d started (started\<lparr>to_status := Tool_failed, to_failure := Some f,
                 to_cost_usd := Some ZERO\<rparr>) bound) (\<lambda>_. ret (Inl f))
      | None \<Rightarrow> seq (run_tool d call started bound) (\<lambda>o'. ret (Inr o'))"
  have st: "stable ?\<phi>"
    by (intro stable_conj stable_recorded ledger_fact_stable [OF ledger_fact_may_use])
  have "triple d r (\<lambda>s. ?p s \<and> ?\<phi> s) (seq (tool_blocker d r call) ?finish) ?Q"
    if w: "to_tool_event_id started = i \<and> to_status started = Tool_started \<and> to_tool started = tl_tool call"
  proof (rule clerical_step [OF clerical_tool_blocker st])
    have "triple d r (\<lambda>s. ?p s \<and> ?\<phi> s) (seq (record_tool d started o' bound) (\<lambda>_. ret (Inl f))) ?Q"
      for o' and f :: failure
      by (rule triple_pre, rule triple_seq [OF record_tool_triple], rule triple_ret) (auto simp: may_use_def)
    moreover have "triple d r (\<lambda>s. ?p s \<and> ?\<phi> s) (seq (run_tool d call started bound) (\<lambda>o'. ret (Inr o'))) ?Q"
      by (rule triple_seq [OF run_tool_triple [OF b perm R n w]], rule triple_ret)
    ultimately show "triple d r (\<lambda>s. ?p s \<and> ?\<phi> s) (?finish blocked) ?Q" for blocked
      by (cases blocked) simp_all
  qed
  then show "triple d r (\<lambda>s. (to_tool_event_id started = i \<and> to_status started = Tool_started
      \<and> to_tool started = tl_tool call) \<and> ?p s \<and> ?\<phi> s) (seq (tool_blocker d r call) ?finish) ?Q"
    unfolding triple_def by blast
qed

definition funded_tool :: "'w dependencies \<Rightarrow> request \<Rightarrow> tool_call \<Rightarrow> decimal \<Rightarrow> string
    \<Rightarrow> (failure + tool_outcome, 'w) step" where
  "funded_tool d r call bound i =
     seq (begin_tool d call i) (\<lambda>started.
     seq (tool_blocker d r call) (\<lambda>blocked.
     case blocked of
       Some f \<Rightarrow>
         seq (record_tool d started (started\<lparr>to_status := Tool_failed, to_failure := Some f,
                to_cost_usd := Some ZERO\<rparr>) bound) (\<lambda>_. ret (Inl f))
     | None \<Rightarrow> seq (run_tool d call started bound) (\<lambda>o'. ret (Inr o'))))"

lemma reserving_triple:
  assumes b: "tl_cost_upper_bound_usd call = Some bound" and n: "n < k + ct_tool_recoveries ct"
  shows "triple d r (\<lambda>s. point d r k (l, st, as, ct, ts) [] s \<and> few_runs n s
        \<and> admitted d ''tool'' replay (Some call) (Some bound) s)
     (seq (reserve d i bound) (\<lambda>granted.
      if \<not> granted then ret (Inl (admission_stop BUDGET_FAILURE ''tool_reservation_refused''))
      else funded_tool d r call bound i))
     (\<lambda>_. same_tool_point d r k l st as ct)" (is "triple d r ?P _ ?Q")
proof (cases "tool_permitted (dp_controls d) call")
  case False
  then show ?thesis unfolding triple_def using admitted_tool by blast
next
  case perm: True
  let ?p = "point d r k (l, st, as, ct, ts)"
  let ?R = "Reserve_call i bound True"
  have reserved: "triple d r ?P (reserve d i bound) (\<lambda>ok s. (?p (if ok then [?R] else []) s
      \<and> (ok \<longrightarrow> sound_bounds d \<longrightarrow> covered (dval bound) s)) \<and> few_runs n s)"
    by (rule triple_conj, rule triple_pre [OF reserve_triple]) (auto dest: admitted_tool intro: reserve_tool_runs)
  show ?thesis
  proof (rule triple_seq [OF reserved])
    fix ok
    have "triple d r (\<lambda>s. ?p [?R] s \<and> may_use d n bound s) (funded_tool d r call bound i) ?Q"
      unfolding funded_tool_def by (rule funded_tool_triple [OF b perm n]) simp
    then have "triple d r (\<lambda>s. (?p [?R] s \<and> (sound_bounds d \<longrightarrow> covered (dval bound) s)) \<and> few_runs n s)
        (funded_tool d r call bound i) ?Q"
      by (rule triple_pre) (auto simp: may_use_def)
    then show "triple d r (\<lambda>s. (?p (if ok then [?R] else []) s
          \<and> (ok \<longrightarrow> sound_bounds d \<longrightarrow> covered (dval bound) s)) \<and> few_runs n s)
        (if \<not> ok then ret (Inl (admission_stop BUDGET_FAILURE ''tool_reservation_refused''))
         else funded_tool d r call bound i) ?Q"
      by (cases ok) (auto intro!: triple_ret intro: same_tool_pointI)
  qed
qed

lemma use_tool_triple:
  assumes n: "n < k + ct_tool_recoveries ct"
  shows "triple d r (\<lambda>s. point d r k (l, st, as, ct, ts) [] s \<and> few_runs n s) (use_tool d r call replay)
     (\<lambda>_. same_tool_point d r k l st as ct)" (is "triple d r ?P _ ?Q")
proof -
  let ?cost = "tl_cost_upper_bound_usd call"
  let ?trying = "\<lambda>bound. seq (tool_available d (tl_tool call)) (\<lambda>ok.
      if \<not> ok then ret (Inl tool_unavailable)
      else seq (world (dp_uuid d)) (\<lambda>i. seq (reserve d i bound) (\<lambda>granted.
        if \<not> granted then ret (Inl (admission_stop BUDGET_FAILURE ''tool_reservation_refused''))
        else funded_tool d r call bound i)))"
  let ?finish = "\<lambda>refused. case (refused, ?cost) of
       (Some f, _) \<Rightarrow> ret (Inl f) | (None, None) \<Rightarrow> raise (Raised TypeError) | (None, Some bound) \<Rightarrow> ?trying bound"
  let ?\<psi> = "\<lambda>refused s. refused = None \<longrightarrow> admitted d ''tool'' replay (Some call) ?cost s"
  have st: "stable (\<lambda>s. few_runs n s \<and> admitted d ''tool'' replay (Some call) cost s)" for cost
    using stable_conj [OF stable_few_runs stable_admitted [of True]] by simp
  have ending: "triple d r (\<lambda>s. point d r k (l, st, as, ct, ts) [] s \<and> few_runs n s \<and> ?\<psi> refused s) (?finish refused) ?Q" for refused
  proof (cases refused)
    case (Some f)
    then show ?thesis by (auto intro!: triple_ret intro: same_tool_pointI)
  next
    case none: None
    show ?thesis
    proof (cases ?cost)
      case None
      with none show ?thesis by (auto intro: triple_raise point_live)
    next
      case (Some bound)
      have "triple d r (\<lambda>s. point d r k (l, st, as, ct, ts) [] s \<and> (few_runs n s
          \<and> admitted d ''tool'' replay (Some call) (Some bound) s)) (?trying bound) ?Q"
      proof (rule clerical_step [OF clerical_tool_available st], rule triple_if)
        show "triple d r (\<lambda>s. point d r k (l, st, as, ct, ts) [] s \<and> (few_runs n s
            \<and> admitted d ''tool'' replay (Some call) (Some bound) s)) (ret (Inl tool_unavailable)) ?Q"
          by (rule triple_ret) (auto intro: same_tool_pointI)
      qed (rule clerical_step [OF clerical_world st], rule reserving_triple [OF Some n])
      with none Some show ?thesis by simp
    qed
  qed
  have "triple d r ?P (seq (checked_or d stopped ''tool'' replay (Some call) ?cost) ?finish) ?Q" for stopped
    by (rule clerical_fact [OF clerical_checked_or stable_few_runs checked_or_fact]) (use ending in simp)
  note checked = this [unfolded checked_or_def]
  show ?thesis
    unfolding use_tool_def
    by (rule clerical_step [OF clerical_read_environment stable_few_runs],
        rule clerical_step [OF clerical_checkpoint stable_few_runs], fold funded_tool_def, rule checked)
qed

section \<open>Recovery of a call\<close>

lemma triple_given: "(c \<Longrightarrow> triple d r P m Q) \<Longrightarrow> triple d r (\<lambda>s. c \<and> P s) m Q"
  by (auto simp: triple_def)

lemma from_res_step:
  assumes "\<And>y. v = Inr y \<Longrightarrow> triple d r (point d r k x calls) (f y) Q"
  shows "triple d r (point d r k x calls) (seq (from_res v) f) Q"
  using assms by (cases v) (auto simp: triple_def wp tame_def intro: live_raised [OF point_live])

lemma recovery_context_triple:
  "triple d r (point d r k (Some l, st, as, ct, ts) calls) (recovery_context_of d r decision failure)
     (\<lambda>ctx s. (rx_counters ctx = ct \<and> rx_limits ctx = l) \<and> point d r k (Some l, st, as, ct, ts) calls s)"
  unfolding recovery_context_of_def
  by (rule point_step [OF clerical_read_environment], rule point_step [OF clerical_remaining],
      rule point_step [OF clerical_elapsed]) (auto simp: triple_def wp point_facts dest: point_facts split: option.split)

lemma record_action_step:
  assumes "triple d r (point d r k x calls) (f ()) Q"
  shows "triple d r (point d r k x calls) (seq (record_action d a) f) Q"
proof -
  have "triple d r (point d r k x calls) (record_action d a) (\<lambda>_. point d r k x calls)"
    unfolding record_action_def
    by (cases x) (auto intro!: point_task_step point_last [OF clerical_save_event])
  then show ?thesis by (rule triple_seq) (use assms in simp)
qed

lemma tool_recovery_counted:
  assumes "ct_tool_recoveries ct < xl_max_tool_recoveries l" and "counters_within ct l"
  shows "counters_within (count_tool_recovery ct) l"
  using assms by (simp add: counters_within_def count_tool_recovery_def)

lemma count_tool_triple:
  assumes room: "ct_tool_recoveries ct < xl_max_tool_recoveries l"
  shows "triple d r (point d r k (Some l, st, as, ct, ts) [])
     (set_task (\<lambda>t. t\<lparr>tk_counters := count_tool_recovery (tk_counters t)\<rparr>))
     (\<lambda>_ s. point d r k (Some l, st, as, count_tool_recovery ct, ts) [] s \<and> few_runs (k + ct_tool_recoveries ct) s)"
proof (rule tripleI)
  fix s :: "'a execution"
  assume p: "point d r k (Some l, st, as, ct, ts) [] s"
  note f = point_facts [OF p]
  let ?t = "(ex_task s)\<lparr>tk_counters := count_tool_recovery (tk_counters (ex_task s))\<rparr>"
  have "point d r k (Some l, tk_status ?t, tk_attempts ?t, tk_counters ?t, tk_tool_events ?t) [] (s\<lparr>ex_task := ?t\<rparr>)"
  proof (rule point_task [OF p])
    show "counters_within (tk_counters ?t) l'" if "Some l = Some l'" for l'
      using that tool_recovery_counted [OF room point_counters [OF p]] by (simp add: f)
    show "\<not> terminal (tk_status ?t)" using point_status [OF p] by (simp add: f)
  qed (simp_all add: f count_tool_recovery_def)
  then show "wp (set_task (\<lambda>t. t\<lparr>tk_counters := count_tool_recovery (tk_counters t)\<rparr>))
      (\<lambda>_ s. point d r k (Some l, st, as, count_tool_recovery ct, ts) [] s \<and> few_runs (k + ct_tool_recoveries ct) s)
      (raised d r) s"
    using point_tool_runs [OF p] by (simp add: wp f)
qed

definition tool_retry :: "'w dependencies \<Rightarrow> request \<Rightarrow> nat \<Rightarrow> execution_limits \<Rightarrow> attempt list \<Rightarrow> counters
    \<Rightarrow> failure + tool_call \<Rightarrow> 'w execution \<Rightarrow> bool" where
  "tool_retry d r k l as ct step s = (case step of
     Inl f \<Rightarrow> same_tool_point d r k (Some l) Recovering as ct s
   | Inr call' \<Rightarrow> ct_tool_recoveries ct < xl_max_tool_recoveries l
       \<and> same_tool_point d r k (Some l) Validating as (count_tool_recovery ct) s
       \<and> few_runs (k + ct_tool_recoveries ct) s)"

lemma recover_tool_triple:
  "triple d r (point d r k (Some l, Validating, as, ct, ts) []) (recover_tool d r decision call f)
     (tool_retry d r k l as ct)"
  unfolding recover_tool_def
proof (rule move_step, simp add: may_follow_def, simp, rule triple_seq [OF recovery_context_triple],
    rule triple_given, rule from_res_step, rule record_action_step)
  fix ctx a
  assume ctx: "rx_counters ctx = ct \<and> rx_limits ctx = l"
    and a: "choose_recovery (ctx\<lparr>rx_tool_call := Some call, rx_tool_retryable := fl_retryable f,
            rx_alternate_authorized := alternate_authorized (dp_controls d) call\<rparr>) (dp_bundle d) = Inr a"
  let ?P = "point d r k (Some l, Recovering, as, ct, ts) []"
  let ?stop = "ret (Inl (exec_failure (case ra_failure a of None \<Rightarrow> TOOL_FAILURE | Some f \<Rightarrow> f)
            (if ra_action a = Stop_reconcile then ''unsafe_side_effect_replay'' else ra_reason a) Source_tool))"
  let ?next = "Inr (if ra_action a = Alternate_tool
         then (case tl_alternate_tool call of None \<Rightarrow> call
               | Some tool \<Rightarrow> call\<lparr>tl_tool := tool, tl_alternate_tool := None\<rparr>)
         else call)"
  have stop: "triple d r ?P ?stop (tool_retry d r k l as ct)"
    by (rule triple_ret) (auto simp: tool_retry_def intro: same_tool_pointI)
  have go: "triple d r ?P (seq (set_task (\<lambda>t. t\<lparr>tk_counters := count_tool_recovery (tk_counters t)\<rparr>)) (\<lambda>_.
       seq (move d Validating id) (\<lambda>_. ret ?next))) (tool_retry d r k l as ct)"
    if "ra_action a \<in> {Retry_tool, Alternate_tool}"
  proof -
    have room: "ct_tool_recoveries ct < xl_max_tool_recoveries l"
      using tool_step [OF a that] ctx by simp
    have moved: "triple d r (\<lambda>s. point d r k (Some l, Recovering, as, count_tool_recovery ct, ts) [] s
          \<and> few_runs (k + ct_tool_recoveries ct) s) (move d Validating id)
        (\<lambda>_ s. point d r k (Some l, Validating, as, count_tool_recovery ct, ts) [] s
          \<and> few_runs (k + ct_tool_recoveries ct) s)"
      by (rule point_move) (simp_all add: may_follow_def ledger_fact_tool_runs)
    show ?thesis
      by (rule triple_seq [OF count_tool_triple [OF room]], rule triple_seq [OF moved], rule triple_ret)
        (use room in \<open>auto simp: tool_retry_def intro: same_tool_pointI\<close>)
  qed
  show "triple d r ?P (if ra_action a \<notin> {Retry_tool, Alternate_tool} then ?stop
      else seq (set_task (\<lambda>t. t\<lparr>tk_counters := count_tool_recovery (tk_counters t)\<rparr>)) (\<lambda>_.
       seq (move d Validating id) (\<lambda>_. ret ?next))) (tool_retry d r k l as ct)"
    by (rule triple_if [OF stop go]) simp
qed

section \<open>The loops\<close>

definition tooled :: "'w dependencies \<Rightarrow> request \<Rightarrow> nat \<Rightarrow> execution_limits \<Rightarrow> attempt list \<Rightarrow> counters
    \<Rightarrow> failure option \<Rightarrow> 'w execution \<Rightarrow> bool" where
  "tooled d r k l as ct failure s = (\<exists>st ct'. same_tool_point d r k (Some l) st as ct' s
     \<and> ct_tool_recoveries ct \<le> ct_tool_recoveries ct' \<and> (failure = None \<longrightarrow> st = Validating))"

lemma tooledI:
  assumes "same_tool_point d r k (Some l) st as ct' s" and "ct_tool_recoveries ct \<le> ct_tool_recoveries ct'"
    and "failure = None \<longrightarrow> st = Validating"
  shows "tooled d r k l as ct failure s"
  unfolding tooled_def using assms by blast

lemma tooled_le:
  assumes "tooled d r k l as ct' failure s" and "ct_tool_recoveries ct \<le> ct_tool_recoveries ct'"
  shows "tooled d r k l as ct failure s"
proof -
  obtain st c where t: "same_tool_point d r k (Some l) st as c s" "ct_tool_recoveries ct' \<le> ct_tool_recoveries c"
    "failure = None \<longrightarrow> st = Validating" using assms(1) unfolding tooled_def by metis
  show ?thesis by (rule tooledI [OF t(1) _ t(3)]) (use t(2) assms(2) in simp)
qed

lemma tooled_more: "tooled d r k l as (count_tool_recovery ct) failure s \<Longrightarrow> tooled d r k l as ct failure s"
  by (erule tooled_le) (simp add: count_tool_recovery_def)

lemma triple_same_tool_point:
  assumes "\<And>ts. triple d r (\<lambda>s. point d r k (l, st, as, ct, ts) [] s \<and> \<phi> s) m Q"
  shows "triple d r (\<lambda>s. same_tool_point d r k l st as ct s \<and> \<phi> s) m Q"
  using assms by (auto simp: triple_def same_tool_point_def)

lemma tool_loop_triple:
  assumes "xl_max_tool_recoveries l < n + ct_tool_recoveries ct" and "m < k + ct_tool_recoveries ct"
  shows "triple d r (\<lambda>s. same_tool_point d r k (Some l) Validating as ct s \<and> few_runs m s)
     (tool_loop d r decision n call replay) (tooled d r k l as ct)"
  using assms
proof (induction n arbitrary: call replay ct m)
  case 0
  have "\<not> point d r k (Some l, Validating, as, ct, ts) [] s" for ts s
    using point_counters [of d r k l Validating as ct ts "[]" s] 0 by (auto simp: counters_within_def)
  then show ?case by (auto simp: triple_def same_tool_point_def)
next
  case (Suc n)
  have used: "triple d r (\<lambda>s. same_tool_point d r k (Some l) Validating as ct s \<and> few_runs m s) (use_tool d r call replay)
      (\<lambda>_. same_tool_point d r k (Some l) Validating as ct)"
    by (rule triple_same_tool_point) (rule use_tool_triple [OF Suc.prems(2)])
  have again: "triple d r (tool_retry d r k l as ct step)
      (case step of Inl stopped \<Rightarrow> ret (Some stopped) | Inr call' \<Rightarrow> tool_loop d r decision n call' True)
      (tooled d r k l as ct)" for step
  proof (cases step)
    case (Inl stopped)
    then show ?thesis by (auto intro!: triple_ret tooledI simp: tool_retry_def)
  next
    case (Inr call')
    have "triple d r (\<lambda>s. same_tool_point d r k (Some l) Validating as (count_tool_recovery ct) s
        \<and> few_runs (k + ct_tool_recoveries ct) s) (tool_loop d r decision n call' True)
        (tooled d r k l as (count_tool_recovery ct))"
      by (rule Suc.IH) (use Suc.prems in \<open>simp_all add: count_tool_recovery_def\<close>)
    then have "triple d r (\<lambda>s. same_tool_point d r k (Some l) Validating as (count_tool_recovery ct) s
        \<and> few_runs (k + ct_tool_recoveries ct) s) (tool_loop d r decision n call' True) (tooled d r k l as ct)"
      by (rule triple_post) (rule tooled_more)
    then show ?thesis using Inr by (auto simp: tool_retry_def elim: triple_pre)
  qed
  have "triple d r (same_tool_point d r k (Some l) Validating as ct)
      (seq (recover_tool d r decision call f) (\<lambda>step.
        case step of Inl stopped \<Rightarrow> ret (Some stopped) | Inr call' \<Rightarrow> tool_loop d r decision n call' True))
      (tooled d r k l as ct)" for f
  proof -
    have "triple d r (\<lambda>s. same_tool_point d r k (Some l) Validating as ct s \<and> True) (recover_tool d r decision call f)
        (tool_retry d r k l as ct)"
      by (rule triple_same_tool_point) (simp add: recover_tool_triple)
    then show ?thesis using again by (auto intro: triple_seq)
  qed
  then show ?case
    unfolding tool_loop.simps
    by (intro triple_seq [OF used]) (auto intro!: triple_ret tooledI split: sum.split option.split)
qed

lemma point_next_tool:
  assumes "point d r k x calls s" and "Suc k \<le> declared_tools d"
  shows "point d r (Suc k) x calls s"
  using assms by (simp add: point_def live_def tools_within_def)

lemma run_tools_triple:
  assumes "xl_max_tool_recoveries l < n + ct_tool_recoveries ct" and "k + length calls \<le> declared_tools d"
  shows "triple d r (same_tool_point d r k (Some l) Validating as ct) (run_tools d r decision n calls)
     (\<lambda>failure s. \<exists>k. tooled d r k l as ct failure s)"
  using assms
proof (induction calls arbitrary: k ct)
  case Nil
  then show ?case by (auto intro!: triple_ret exI tooledI)
next
  case (Cons call calls)
  let ?Q = "\<lambda>failure s. \<exists>k. tooled d r k l as ct failure s"
  have opened: "same_tool_point d r (Suc k) (Some l) Validating as ct s \<and> few_runs (k + ct_tool_recoveries ct) s"
    if here: "same_tool_point d r k (Some l) Validating as ct s" for s
  proof -
    obtain ts where p: "point d r k (Some l, Validating, as, ct, ts) [] s" using here by (auto simp: same_tool_point_def)
    have "point d r (Suc k) (Some l, Validating, as, ct, ts) [] s" by (rule point_next_tool [OF p]) (use Cons.prems in simp)
    then show ?thesis using point_tool_runs [OF p] by (auto simp: same_tool_point_def)
  qed
  have loop: "triple d r (same_tool_point d r k (Some l) Validating as ct) (tool_loop d r decision n call False)
      (tooled d r (Suc k) l as ct)"
    by (rule triple_pre [OF tool_loop_triple [OF Cons.prems(1)] opened]) simp_all
  have "triple d r (tooled d r (Suc k) l as ct None) (run_tools d r decision n calls) ?Q"
  proof -
    have "triple d r (same_tool_point d r (Suc k) (Some l) Validating as ct') (run_tools d r decision n calls) ?Q"
      if more: "ct_tool_recoveries ct \<le> ct_tool_recoveries ct'" for ct'
    proof (rule triple_post [OF Cons.IH])
      show "\<exists>k. tooled d r k l as ct f s" if "\<exists>k. tooled d r k l as ct' f s" for f s
        using that tooled_le [OF _ more] by blast
    qed (use Cons.prems more in simp_all)
    then show ?thesis by (auto simp: tooled_def triple_def)
  qed
  then show ?case
    unfolding run_tools.simps
    by (intro triple_seq [OF loop] triple_if triple_ret) auto
qed

end
