(* ===== verification/RunFacts.thy ===== *)
theory RunFacts
  imports ToolFacts
begin

text \<open>
  The whole run as triples: stopping, recovering, routing, the loop over attempts, the conclusion,
  and \<open>execute\<close>. A finished run keeps everything that \<open>good\<close> says, has a terminal status, and has
  succeeded only with an output that the last attempt produced and that passed validation.
\<close>

lemma tripleD: "triple d r P m Q \<Longrightarrow> P s \<Longrightarrow> wp m Q (raised d r) s"
  by (simp add: triple_def)

section \<open>Finished tasks\<close>

definition answered :: "execution_controls \<Rightarrow> task_result \<Rightarrow> bool" where
  "answered controls t = (tk_attempts t \<noteq> [] \<and> at_status (last (tk_attempts t)) = Attempt_succeeded
     \<and> (\<exists>result. at_provider_outcome (last (tk_attempts t)) = Some (Result result)
          \<and> valid_result controls result (at_validations (last (tk_attempts t)))
          \<and> tk_output t = ps_text result \<and> tk_structured_output t = ps_structured_output result))"

definition closed :: "'w dependencies \<Rightarrow> request \<Rightarrow> 'w execution \<Rightarrow> bool" where
  "closed d r s = (good d r s \<and> tools_within (declared_tools d) s \<and> terminal (tk_status (ex_task s))
     \<and> (if tk_status (ex_task s) = Succeeded then answered (dp_controls d) (ex_task s)
        else tk_failure (ex_task s) \<noteq> None))"

lemma core_outputs [simp]:
  "tk_output (core t) = tk_output t" "tk_structured_output (core t) = tk_structured_output t"
  "tk_failure (core t) = tk_failure t" "tk_known_cost_usd (core t) = tk_known_cost_usd t"
  by (simp_all add: core_def)

lemma touch_outputs:
  assumes "touch s s'"
  shows "tk_output (ex_task s') = tk_output (ex_task s)"
    and "tk_structured_output (ex_task s') = tk_structured_output (ex_task s)"
    and "tk_failure (ex_task s') = tk_failure (ex_task s)"
  using assms unfolding touch_def by (metis core_outputs)+

lemma touch_tools_within: "touch s s' \<Longrightarrow> tools_within k s' = tools_within k s"
  by (simp add: tools_within_def touch_core touch_counts)

lemma stable_closed: "stable (closed d r)"
  unfolding stable_def closed_def answered_def
  by (auto simp: touch_core touch_outputs touch_tools_within intro: touch_good)

lemma stable_live: "stable (live d r k)"
  by (auto simp: stable_def intro: touch_live)

lemma save_event_error: "wp (save_event d kind x) (\<lambda>_ _. True) (\<lambda>e _. e \<noteq> Environment_changed) s"
  by (auto simp: save_event_def event_def save_def wp split: sum.split)

definition finished :: "'w dependencies \<Rightarrow> request \<Rightarrow> task_result \<Rightarrow> 'w execution \<Rightarrow> bool" where
  "finished d r t s = (t = ex_task s \<and> closed d r s)"

definition surfaced :: "'w dependencies \<Rightarrow> request \<Rightarrow> exec_error \<Rightarrow> 'w execution \<Rightarrow> bool" where
  "surfaced d r e s = (good d r s \<and> tools_within (declared_tools d) s \<and> tame e \<and> e \<noteq> Environment_changed)"

lemma save_closed:
  assumes "closed d r s"
  shows "wp (seq (save_event d kind x) (\<lambda>_. get ex_task)) (finished d r) (surfaced d r) s"
proof -
  have "wp (save_event d kind x) (\<lambda>_ s'. touch s s') (\<lambda>e s'. touch s s' \<and> tame e) s"
    using clerical_save_event [of d kind x] by (simp add: clerical_def)
  from wp_conj [OF this save_event_error] show ?thesis
    unfolding wp_seq
  proof (rule wp_weaken)
    show "wp (get ex_task) (finished d r) (surfaced d r) s'" if "touch s s' \<and> True" for u :: unit and s'
    proof -
      have "closed d r s'" using that assms stable_closed unfolding stable_def by blast
      then show ?thesis by (simp add: wp finished_def)
    qed
    show "surfaced d r e s'" if "(touch s s' \<and> tame e) \<and> e \<noteq> Environment_changed" for e s'
    proof -
      have "closed d r s'" using that assms stable_closed unfolding stable_def by blast
      then show ?thesis using that by (simp add: closed_def surfaced_def)
    qed
  qed
qed

lemma closed_stop:
  assumes "live d r k s" and "status \<in> {Failed, Blocked, Cancelled}"
  shows "closed d r (s\<lparr>ex_world := w, ex_task := (ex_task s)\<lparr>tk_failure := Some f, tk_status := status, tk_updated_at := now\<rparr>\<rparr>)"
  using assms unfolding closed_def live_def good_def within_ceiling_def ceiling_of_def counted_def tools_within_def
  by auto

lemma stop_wp:
  assumes "live d r k s" and "status \<in> {Failed, Blocked, Cancelled}"
  shows "wp (stop d f status) (finished d r) (surfaced d r) s"
  unfolding stop_def wp_seq [of "move d status _"]
proof (rule wp_move)
  show "may_follow (tk_status (ex_task s)) status" using assms by (auto simp: live_def)
  show "wp (seq (save_event d (stop_event status) (no_details\<lparr>ed_failure := Some (fl_failure_type f)\<rparr>)) (\<lambda>_. get ex_task))
      (finished d r) (surfaced d r)
      (s\<lparr>ex_world := w, ex_task := (ex_task s)\<lparr>tk_failure := Some f\<rparr>\<lparr>tk_status := status, tk_updated_at := now\<rparr>\<rparr>)"
    for now w
    by (rule save_closed) (use closed_stop [OF assms] in simp)
qed

lemma surfaced_raised: "surfaced d r e s \<Longrightarrow> raised d r e s"
  by (simp add: surfaced_def raised_def)

lemma stop_triple:
  assumes "\<And>s. P s \<Longrightarrow> live d r k s" and "status \<in> {Failed, Blocked, Cancelled}"
  shows "triple d r P (stop d f status) (finished d r)"
  by (rule tripleI) (rule wp_weaken [OF stop_wp [OF assms(1) assms(2)]], auto intro: surfaced_raised)

lemma halt_triple: "(\<And>s. P s \<Longrightarrow> live d r k s) \<Longrightarrow> triple d r P (halt d f) (finished d r)"
  unfolding halt_def by (rule stop_triple) auto

lemma halt_tool_triple: "(\<And>s. P s \<Longrightarrow> live d r k s) \<Longrightarrow> triple d r P (halt_tool d f) (finished d r)"
  unfolding halt_tool_def by (rule stop_triple) auto

section \<open>Success\<close>

lemma closed_success:
  assumes p: "point d r k (l, st, as @ [b], ct, ts) calls s" and v: "verified (dp_controls d) b"
    and out: "at_provider_outcome b = Some (Result final)"
  shows "closed d r (s\<lparr>ex_world := w, ex_task := (ex_task s)\<lparr>tk_output := ps_text final,
     tk_structured_output := ps_structured_output final, tk_status := Succeeded, tk_updated_at := now\<rparr>\<rparr>)"
proof -
  have "tools_within (declared_tools d) s" and g: "good d r s"
    using p by (auto simp: point_def live_def tools_within_def)
  moreover have "tk_attempts (ex_task s) = as @ [b]" using point_facts [OF p] by simp
  ultimately show ?thesis
    using v out unfolding closed_def answered_def verified_def good_def within_ceiling_def ceiling_of_def counted_def
      tools_within_def by auto
qed

lemma conclude_triple:
  assumes v: "verified (dp_controls d) b"
  shows "triple d r (point d r k (l, Validating, as @ [b], ct, ts) calls) (conclude d decision) (finished d r)"
proof -
  obtain final where final: "at_provider_outcome b = Some (Result final)" using v by (auto simp: verified_def)
  have ending: "triple d r (point d r k (l, Validating, as @ [b], ct, ts) calls)
      (seq (move d Succeeded (\<lambda>t. t\<lparr>tk_output := ps_text final, tk_structured_output := ps_structured_output final\<rparr>)) (\<lambda>_.
       seq (save_event d TASK_SUCCEEDED no_details) (\<lambda>_. get ex_task))) (finished d r)"
  proof (rule tripleI)
    fix s
    assume p: "point d r k (l, Validating, as @ [b], ct, ts) calls s"
    show "wp (seq (move d Succeeded (\<lambda>t. t\<lparr>tk_output := ps_text final,
           tk_structured_output := ps_structured_output final\<rparr>)) (\<lambda>_.
         seq (save_event d TASK_SUCCEEDED no_details) (\<lambda>_. get ex_task))) (finished d r) (raised d r) s"
      unfolding wp_seq [of "move d Succeeded _"]
    proof (rule wp_move)
      show "may_follow (tk_status (ex_task s)) Succeeded" by (simp add: point_facts(2) [OF p] may_follow_def)
      show "wp (seq (save_event d TASK_SUCCEEDED no_details) (\<lambda>_. get ex_task)) (finished d r) (raised d r)
        (s\<lparr>ex_world := w, ex_task := (ex_task s)\<lparr>tk_output := ps_text final,
          tk_structured_output := ps_structured_output final\<rparr>\<lparr>tk_status := Succeeded, tk_updated_at := now\<rparr>\<rparr>)" for now w
        by (rule wp_weaken [OF save_closed]) (use closed_success [OF p v final] surfaced_raised in auto)
    qed
  qed
  have "triple d r (\<lambda>s. point d r k (l, Validating, as @ [b], ct, ts) calls s \<and> attempts = (tk_attempts \<circ> ex_task) s)
     (case (if attempts = [] then None else at_provider_outcome (last attempts)) of
       Some (Result final) \<Rightarrow>
         seq (set_task (\<lambda>t. t\<lparr>tk_recovery_actions := tk_recovery_actions t
                @ [plain_action Stop_succeeded None None (Some (target decision)) True [] ''validated_success'']\<rparr>)) (\<lambda>_.
         seq (move d Succeeded (\<lambda>t. t\<lparr>tk_output := ps_text final,
                tk_structured_output := ps_structured_output final\<rparr>)) (\<lambda>_.
         seq (save_event d TASK_SUCCEEDED no_details) (\<lambda>_.
         get ex_task)))
     | _ \<Rightarrow> raise (Raised TypeError)) (finished d r)" for attempts
  proof (cases "attempts = as @ [b]")
    case True
    have "triple d r (point d r k (l, Validating, as @ [b], ct, ts) calls)
        (seq (set_task (\<lambda>t. t\<lparr>tk_recovery_actions := tk_recovery_actions t
                @ [plain_action Stop_succeeded None None (Some (target decision)) True [] ''validated_success'']\<rparr>)) (\<lambda>_.
         seq (move d Succeeded (\<lambda>t. t\<lparr>tk_output := ps_text final,
                tk_structured_output := ps_structured_output final\<rparr>)) (\<lambda>_.
         seq (save_event d TASK_SUCCEEDED no_details) (\<lambda>_.
         get ex_task)))) (finished d r)"
      by (rule point_task_step [OF _ _ _ _ _ _ ending]) simp_all
    then show ?thesis using True final by (auto elim: triple_pre)
  next
    case False
    then show ?thesis using point_facts(3) by (fastforce simp: triple_def)
  qed
  then show ?thesis unfolding conclude_def by (rule triple_get)
qed

lemma succeed_triple:
  assumes v: "verified (dp_controls d) b"
  shows "triple d r (point d r 0 (Some l, Validating, as @ [b], ct, ts) []) (succeed d r decision) (finished d r)"
  unfolding succeed_def
proof (rule triple_get)
  fix n
  let ?finish = "\<lambda>tool_failure. case tool_failure of
       Some f \<Rightarrow> halt_tool d f
     | None \<Rightarrow> seq (checkpoint d r) (\<lambda>stopped. case stopped of Some f \<Rightarrow> halt d f | None \<Rightarrow> conclude d decision)"
  have none: "triple d r (point d r k (Some l, Validating, as @ [b], ct', ts') [])
      (seq (checkpoint d r) (\<lambda>stopped. case stopped of Some f \<Rightarrow> halt d f | None \<Rightarrow> conclude d decision)) (finished d r)"
    for k ct' ts'
  proof (rule point_step [OF clerical_checkpoint])
    show "triple d r (point d r k (Some l, Validating, as @ [b], ct', ts') [])
        (case stopped of Some f \<Rightarrow> halt d f | None \<Rightarrow> conclude d decision) (finished d r)" for stopped
      using conclude_triple [OF v] halt_triple [OF point_live] by (cases stopped) simp_all
  qed
  have ending: "triple d r (\<lambda>s. \<exists>k. tooled d r k l (as @ [b]) ct failure s) (?finish failure) (finished d r)" for failure
  proof (cases failure)
    case None
    then show ?thesis using none by (auto simp: triple_def tooled_def same_tool_point_def)
  next
    case (Some f)
    have "triple d r (point d r k x []) (halt_tool d f) (finished d r)" for k x
      by (rule halt_tool_triple [OF point_live])
    then show ?thesis using Some by (auto simp: triple_def tooled_def same_tool_point_def)
  qed
  have tools: "triple d r (same_tool_point d r 0 (Some l) Validating (as @ [b]) ct)
      (seq (run_tools d r decision n (xc_tool_calls (dp_controls d))) ?finish) (finished d r)"
    if "n = tool_fuel (Some l)"
    by (rule triple_seq [OF run_tools_triple ending]) (use that in \<open>simp_all add: tool_fuel_def\<close>)
  show "triple d r (\<lambda>s. point d r 0 (Some l, Validating, as @ [b], ct, ts) [] s \<and> n = (tool_fuel \<circ> ex_limits) s)
      (seq (run_tools d r decision n (xc_tool_calls (dp_controls d))) ?finish) (finished d r)"
  proof (cases "n = tool_fuel (Some l)")
    case True
    show ?thesis by (rule triple_pre [OF tools [OF True]]) (auto intro: same_tool_pointI)
  next
    case False
    then show ?thesis using point_facts(1) by (fastforce simp: triple_def)
  qed
qed

section \<open>Recovery\<close>

lemma redispatching_dispatching: "k \<in> set redispatching \<Longrightarrow> k \<in> set dispatching"
  by (auto simp: redispatching_def dispatching_def)

lemma plain_action_kind [simp]: "ra_action (plain_action k f f' w v c reason) = k"
  by (simp add: plain_action_def)

lemma wait_backoff_fact:
  "wp (wait_backoff d a f v) (\<lambda>b _. b = a \<or> ra_action b \<notin> set redispatching) (\<lambda>_ _. True) s"
  by (auto simp: wait_backoff_def elapsed_def wp redispatching_def split: option.split)

lemma probe_route_fact:
  "wp (probe_route d r a f v) (\<lambda>b _. b = a \<or> ra_action b \<notin> set redispatching) (\<lambda>_ _. True) s"
proof (cases "ra_route a")
  case (Some wanted)
  show ?thesis
    unfolding probe_route_def Some option.case wp_seq
    by (rule wp_weaken [OF wp_trivial], rule wp_weaken [OF wp_trivial])
      (auto simp: wp redispatching_def split: route_result.split)
qed (simp add: probe_route_def wp)

definition recoverable :: "counters \<Rightarrow> execution_limits \<Rightarrow> recovery_action \<Rightarrow> bool" where
  "recoverable ct l a = (ra_action a \<in> set redispatching \<longrightarrow> attempt_blocker (action_name (ra_action a)) ct l = None)"

lemma propose_triple:
  "triple d r (point d r k (Some l, st, as, ct, ts) []) (propose d r decision f v original)
     (\<lambda>a s. recoverable ct l a \<and> point d r k (Some l, st, as, ct, ts) [] s)"
  unfolding propose_def
proof (rule triple_seq [OF recovery_context_triple], rule triple_given)
  fix ctx :: recovery_context
  assume ctx: "rx_counters ctx = ct \<and> rx_limits ctx = l"
  let ?ctx = "ctx\<lparr>rx_validated := v, rx_original_failure := original\<rparr>"
  show "triple d r (point d r k (Some l, st, as, ct, ts) [])
     (if fl_failure_type f = QUALITY_FAILURE \<and> \<not> v
      then ret (plain_action Diagnose (Some (fl_failure_type f)) original (Some (target decision)) False []
        ''quality_confirmation_required'')
      else from_res (choose_recovery ?ctx (dp_bundle d)))
     (\<lambda>a s. recoverable ct l a \<and> point d r k (Some l, st, as, ct, ts) [] s)"
  proof (rule triple_if)
    have "recoverable ct l a" if "choose_recovery ?ctx (dp_bundle d) = Inr a" for a
      using proposal_attempts [OF that redispatching_dispatching] ctx by (simp add: recoverable_def)
    then show "triple d r (point d r k (Some l, st, as, ct, ts) []) (from_res (choose_recovery ?ctx (dp_bundle d)))
        (\<lambda>a s. recoverable ct l a \<and> point d r k (Some l, st, as, ct, ts) [] s)"
      by (auto simp: triple_def wp tame_def intro: live_raised [OF point_live] split: sum.split)
  qed (auto intro!: triple_ret simp: recoverable_def redispatching_def)
qed

lemma clerical_waiting [clerical_steps]:
  "clerical (if c then seq (wait_backoff d a f v) (\<lambda>w. probe_route d r w f v) else ret a)"
  by (intro clerical_steps)

lemma waiting_fact:
  "wp (if c then seq (wait_backoff d a f v) (\<lambda>w. probe_route d r w f v) else ret a)
     (\<lambda>b _. b = a \<or> ra_action b \<notin> set redispatching) (\<lambda>_ _. True) s"
proof (cases c)
  case True
  have "wp (wait_backoff d a f v) (\<lambda>w. wp (probe_route d r w f v) (\<lambda>b _. b = a \<or> ra_action b \<notin> set redispatching)
      (\<lambda>_ _. True)) (\<lambda>_ _. True) s"
    by (rule wp_weaken [OF wait_backoff_fact], rule wp_weaken [OF probe_route_fact]) auto
  with True show ?thesis by (simp add: wp)
qed (simp add: wp)

lemma recover_triple:
  assumes "st = Running \<or> st = Validating"
  shows "triple d r (point d r k (Some l, st, as, ct, ts) []) (recover d r decision f v original)
     (\<lambda>a s. recoverable ct l a \<and> point d r k (Some l, Recovering, as, ct, ts) [] s)"
  unfolding recover_def
proof (rule move_step, (use assms in \<open>auto simp: may_follow_def\<close>)[1], simp, rule triple_seq [OF propose_triple], rule triple_given)
  fix proposed
  assume ok: "recoverable ct l proposed"
  let ?P = "point d r k (Some l, Recovering, as, ct, ts) []"
  have "triple d r (\<lambda>s. ?P s \<and> True)
     (seq (if ra_action proposed \<in> set redispatching
          then seq (wait_backoff d proposed f v) (\<lambda>waited. probe_route d r waited f v) else ret proposed) (\<lambda>a.
      seq (record_action d a) (\<lambda>_. ret a))) (\<lambda>a s. recoverable ct l a \<and> ?P s)"
    by (rule clerical_fact [OF clerical_waiting stable_True waiting_fact], unfold simp_thms, rule triple_fact,
        rule record_action_step, rule triple_ret) (use ok in \<open>auto simp: recoverable_def\<close>)
  then show "triple d r ?P
     (seq (if ra_action proposed \<in> set redispatching
          then seq (wait_backoff d proposed f v) (\<lambda>waited. probe_route d r waited f v) else ret proposed) (\<lambda>a.
      seq (record_action d a) (\<lambda>_. ret a))) (\<lambda>a s. recoverable ct l a \<and> ?P s)"
    by simp
qed

section \<open>Routing\<close>

definition routed :: "'w dependencies \<Rightarrow> request \<Rightarrow> route_result \<Rightarrow> bool" where
  "routed d r result = (\<exists>c env recovery. route (dp_digests d) r c env (dp_bundle d) recovery = Inr result)"

lemma route_task_fact: "wp (route_task d r env wanted) (\<lambda>result _. routed d r result) (\<lambda>_ _. True) s"
  by (auto simp: route_task_def wp routed_def split: option.split sum.split)

lemma select_triple:
  assumes "may_follow st Routed"
  shows "triple d r (point d r k (l, st, as, ct, ts) []) (select d r wanted True)
     (\<lambda>result s. routed d r result \<and> point d r k (l, Routed, as, ct, ts) [] s)"
  unfolding select_def
proof (rule point_step [OF clerical_read_environment], rule point_step [OF clerical_remaining])
  fix env funds
  let ?P = "point d r k (l, st, as, ct, ts) []"
  let ?rest = "\<lambda>decision. if \<not> True then ret decision
     else seq (move d Routed (record_route decision)) (\<lambda>_.
       seq (save_event d ROUTE_SELECTED (no_details\<lparr>ed_decision_id := Some (decision_id_of decision)\<rparr>)) (\<lambda>_.
       ret decision))"
  have "triple d r (\<lambda>s. ?P s \<and> True) (seq (route_task d r (env\<lparr>env_remaining_usd := Some funds\<rparr>) wanted) ?rest)
      (\<lambda>result s. routed d r result \<and> point d r k (l, Routed, as, ct, ts) [] s)"
  proof (rule clerical_fact [OF clerical_route_task stable_True route_task_fact], unfold simp_thms, rule triple_fact)
    fix decision
    assume r: "routed d r decision"
    have moved: "triple d r (\<lambda>s. ?P s \<and> True) (move d Routed (record_route decision))
        (\<lambda>_ s. point d r k (l, Routed, as, ct, ts) [] s \<and> True)"
      by (rule point_move [OF assms]) (simp_all add: record_route_def ledger_fact_True)
    have "triple d r ?P (seq (move d Routed (record_route decision)) (\<lambda>_.
       seq (save_event d ROUTE_SELECTED (no_details\<lparr>ed_decision_id := Some (decision_id_of decision)\<rparr>)) (\<lambda>_.
       ret decision))) (\<lambda>result s. routed d r result \<and> point d r k (l, Routed, as, ct, ts) [] s)"
      by (rule triple_seq [OF moved [unfolded simp_thms]], rule point_step [OF clerical_save_event], rule triple_ret)
        (use r in simp)
    then show "triple d r ?P (if False then ret decision
     else seq (move d Routed (record_route decision)) (\<lambda>_.
       seq (save_event d ROUTE_SELECTED (no_details\<lparr>ed_decision_id := Some (decision_id_of decision)\<rparr>)) (\<lambda>_.
       ret decision))) (\<lambda>result s. routed d r result \<and> point d r k (l, Routed, as, ct, ts) [] s)"
      by simp
  qed
  then show "triple d r ?P (seq (route_task d r (env\<lparr>env_remaining_usd := Some funds\<rparr>) wanted) ?rest)
      (\<lambda>result s. routed d r result \<and> point d r k (l, Routed, as, ct, ts) [] s)" by simp
qed

lemma blocker_quality:
  assumes "attempt_blocker (action_name k) ct l = None" and "k \<in> {Increase_effort, Increase_tier}"
  shows "ct_quality_escalations ct < xl_max_quality_escalations l"
proof -
  have "action_name k \<in> set [''quality_escalation'', ''increase_effort'', ''increase_tier'']" using assms(2) by auto
  with assms(1) show ?thesis unfolding attempt_blocker_None by blast
qed

lemma blocker_infrastructure:
  assumes "attempt_blocker (action_name k) ct l = None" and "k \<in> {Retry_backoff, Health_aware_fallback}"
  shows "ct_infrastructure_retries ct < xl_max_infrastructure_retries l"
proof -
  have "action_name k \<in> set [''infrastructure_retry'', ''retry_backoff'', ''health_aware_fallback'']" using assms(2) by auto
  with assms(1) show ?thesis unfolding attempt_blocker_None by blast
qed

lemma recovery_counted:
  assumes "recoverable ct l a" and "ra_action a \<in> set redispatching" and "counters_within ct l"
  shows "counters_within (count_recovery (ra_action a) ct) l"
proof (cases "ra_action a \<in> {Increase_effort, Increase_tier}")
  case True
  have "attempt_blocker (action_name (ra_action a)) ct l = None" using assms(1,2) by (simp add: recoverable_def)
  from blocker_quality [OF this True] show ?thesis
    using True assms(3) by (simp add: counters_within_def count_recovery_def)
next
  case False
  then have kind: "ra_action a \<in> {Retry_backoff, Health_aware_fallback}" using assms(2) by (auto simp: redispatching_def)
  have "attempt_blocker (action_name (ra_action a)) ct l = None" using assms(1,2) by (simp add: recoverable_def)
  from blocker_infrastructure [OF this kind] show ?thesis
    using False assms(3) by (simp add: counters_within_def count_recovery_def)
qed

lemma count_recovery_triple:
  assumes ok: "recoverable ct l a" and kind: "ra_action a \<in> set redispatching"
  shows "triple d r (point d r k (Some l, st, as, ct, ts) [])
     (set_task (\<lambda>t. t\<lparr>tk_counters := count_recovery (ra_action a) (tk_counters t)\<rparr>))
     (\<lambda>_. point d r k (Some l, st, as, count_recovery (ra_action a) ct, ts) [])"
proof (rule tripleI)
  fix s :: "'a execution"
  assume p: "point d r k (Some l, st, as, ct, ts) [] s"
  note f = point_facts [OF p]
  let ?t = "(ex_task s)\<lparr>tk_counters := count_recovery (ra_action a) (tk_counters (ex_task s))\<rparr>"
  have "point d r k (Some l, tk_status ?t, tk_attempts ?t, tk_counters ?t, tk_tool_events ?t) [] (s\<lparr>ex_task := ?t\<rparr>)"
  proof (rule point_task [OF p])
    show "counters_within (tk_counters ?t) l'" if "Some l = Some l'" for l'
      using that recovery_counted [OF ok kind point_counters [OF p]] by (simp add: f)
    show "\<not> terminal (tk_status ?t)" using point_status [OF p] by (simp add: f)
  qed (simp_all add: f count_recovery_def)
  then show "wp (set_task (\<lambda>t. t\<lparr>tk_counters := count_recovery (ra_action a) (tk_counters t)\<rparr>))
      (\<lambda>_. point d r k (Some l, st, as, count_recovery (ra_action a) ct, ts) []) (raised d r) s"
    by (simp add: wp f)
qed

definition rerouted :: "'w dependencies \<Rightarrow> request \<Rightarrow> execution_limits \<Rightarrow> nat \<Rightarrow> task_result + route_decision
    \<Rightarrow> 'w execution \<Rightarrow> bool" where
  "rerouted d r l n step s = (case step of
     Inl task \<Rightarrow> finished d r task s
   | Inr decision \<Rightarrow> routed d r (Decision decision) \<and> (\<exists>as ct ts. ct_generation_attempts ct = n
       \<and> point d r 0 (Some l, Routed, as, ct, ts) [] s))"

lemma finished_step:
  assumes "\<And>s. P s \<Longrightarrow> live d r k s" and "status \<in> {Failed, Blocked, Cancelled}"
  shows "triple d r P (seq (stop d f status) (\<lambda>task. ret (Inl task))) (rerouted d r l n)"
  by (rule triple_seq [OF stop_triple [OF assms]], assumption, rule triple_ret) (simp add: rerouted_def)

lemma count_recovery_generation [simp]: "ct_generation_attempts (count_recovery k ct) = ct_generation_attempts ct"
  by (simp add: count_recovery_def)

lemma next_route_triple:
  assumes ok: "recoverable ct l a"
  shows "triple d r (point d r 0 (Some l, Recovering, as, ct, ts) []) (next_route d r a f)
     (rerouted d r l (ct_generation_attempts ct))"
  unfolding next_route_def
proof (rule triple_if)
  show "triple d r (point d r 0 (Some l, Recovering, as, ct, ts) [])
      (seq (stop d (exec_failure (case ra_failure a of None \<Rightarrow> fl_failure_type f | Some f \<Rightarrow> f)
             (ra_reason a) (fl_source f)) Failed) (\<lambda>task. ret (Inl task))) (rerouted d r l (ct_generation_attempts ct))"
    by (rule finished_step [OF point_live]) simp_all
next
  assume "\<not> ra_action a \<notin> set redispatching"
  then have kind: "ra_action a \<in> set redispatching" by simp
  show "triple d r (point d r 0 (Some l, Recovering, as, ct, ts) [])
      (seq (set_task (\<lambda>t. t\<lparr>tk_counters := count_recovery (ra_action a) (tk_counters t)\<rparr>)) (\<lambda>_.
        seq (select d r (ra_route a) True) (\<lambda>result.
        case result of
          Rejection rejection \<Rightarrow> seq (stop d (admission_stop (rj_failure_type rejection) ''recovery_route_rejected'') Failed)
            (\<lambda>task. ret (Inl task))
        | Decision decision \<Rightarrow> ret (Inr decision)))) (rerouted d r l (ct_generation_attempts ct))"
  proof (rule triple_seq [OF count_recovery_triple [OF ok kind]], rule triple_seq [OF select_triple],
      simp add: may_follow_def, rule triple_given)
    fix result
    assume routed: "routed d r result"
    let ?P = "point d r 0 (Some l, Routed, as, count_recovery (ra_action a) ct, ts) []"
    show "triple d r ?P (case result of
          Rejection rejection \<Rightarrow> seq (stop d (admission_stop (rj_failure_type rejection) ''recovery_route_rejected'') Failed)
            (\<lambda>task. ret (Inl task))
        | Decision decision \<Rightarrow> ret (Inr decision)) (rerouted d r l (ct_generation_attempts ct))"
    proof (cases result)
      case (Decision decision)
      have "\<exists>as c ts. ct_generation_attempts c = ct_generation_attempts ct \<and> point d r 0 (Some l, Routed, as, c, ts) [] s"
        if "?P s" for s
        by (rule exI [of _ as], rule exI [of _ "count_recovery (ra_action a) ct"], rule exI [of _ ts])
          (use that in simp)
      with Decision routed show ?thesis by (auto intro!: triple_ret simp: rerouted_def)
    next
      case (Rejection rejection)
      have "triple d r ?P (seq (stop d (admission_stop (rj_failure_type rejection) ''recovery_route_rejected'') Failed)
            (\<lambda>task. ret (Inl task))) (rerouted d r l (ct_generation_attempts ct))"
        by (rule finished_step [OF point_live]) simp_all
      with Rejection show ?thesis by simp
    qed
  qed
qed

section \<open>The loop over attempts\<close>

lemma readiness_fact:
  "wp (readiness_of_decision d r decision)
     (\<lambda>blockers _. blockers = [] \<longrightarrow> undischarged d decision = [] \<and> v0_readiness (dp_checks d) decision (dp_controls d) = [])
     (\<lambda>_ _. True) s"
  unfolding readiness_of_decision_def wp_seq by (rule wp_weaken [OF wp_trivial]) (simp_all add: wp)

lemma final_failure_statuses:
  assumes "final_failure s failure = Some (f, status)"
  shows "status \<in> {Failed, Blocked, Cancelled}"
  using assms by (auto simp: final_failure_def split: if_splits)

lemma final_failure_None:
  "final_failure s failure = None \<Longrightarrow> tk_status (ex_task s) \<noteq> Routed"
  by (auto simp: final_failure_def split: if_splits)

lemma generated_live:
  assumes "generated d r k l as ct ts v s"
  shows "live d r k s"
  using assms by (auto simp: generated_def attempted_def intro: point_live)

lemma run_loop_triple:
  assumes "xl_max_total_generation_attempts l < n + ct_generation_attempts ct" and "routed d r (Decision decision)"
  shows "triple d r (point d r 0 (Some l, Routed, as, ct, ts) []) (run_loop d r n decision) (finished d r)"
  using assms
proof (induction n arbitrary: decision as ct ts)
  case 0
  have "\<not> point d r 0 (Some l, Routed, as, ct, ts) [] s" for s
    using point_counters [of d r 0 l Routed as ct ts "[]" s] 0 by (auto simp: counters_within_def)
  then show ?case by (simp add: triple_def)
next
  case (Suc n)
  let ?P = "point d r 0 (Some l, Routed, as, ct, ts) []"
  let ?go_on = "\<lambda>step. case step of Inl task \<Rightarrow> ret task | Inr decision' \<Rightarrow> run_loop d r n decision'"
  let ?failed = "\<lambda>v failure. seq (get id) (\<lambda>s.
     case final_failure s failure of
       Some (f, status) \<Rightarrow> stop d f status
     | None \<Rightarrow>
         seq (recover d r decision failure (vd_validated v) (vd_original v)) (\<lambda>a.
         seq (next_route d r a failure) ?go_on))"
  let ?after = "\<lambda>v. case vd_failure v of None \<Rightarrow> succeed d r decision | Some failure \<Rightarrow> ?failed v failure"
  have go_on: "triple d r (rerouted d r l (Suc (ct_generation_attempts ct)) step) (?go_on step) (finished d r)" for step
  proof (cases step)
    case (Inl task)
    then show ?thesis by (auto intro!: triple_ret simp: rerouted_def)
  next
    case (Inr decision')
    have "triple d r (point d r 0 (Some l, Routed, as', ct', ts') []) (run_loop d r n decision') (finished d r)"
      if "ct_generation_attempts ct' = Suc (ct_generation_attempts ct)" "routed d r (Decision decision')" for as' ct' ts'
      by (rule Suc.IH) (use that Suc.prems in simp_all)
    with Inr show ?thesis by (auto simp: rerouted_def triple_def)
  qed
  have recovering: "triple d r (point d r 0 (Some l, st, as', count_generation ct, ts) [])
      (seq (recover d r decision failure (vd_validated v) (vd_original v)) (\<lambda>a. seq (next_route d r a failure) ?go_on))
      (finished d r)" if st: "st = Running \<or> st = Validating" for st as' failure v
  proof (rule triple_seq [OF recover_triple [OF st]], rule triple_given)
    fix a
    assume "recoverable (count_generation ct) l a"
    from next_route_triple [OF this] show "triple d r (point d r 0 (Some l, Recovering, as', count_generation ct, ts) [])
        (seq (next_route d r a failure) ?go_on) (finished d r)"
      by (rule triple_seq) (use go_on in \<open>simp add: count_generation_def\<close>)
  qed
  have failed: "triple d r (generated d r 0 (Some l) as ct ts v) (?failed v failure) (finished d r)"
    if "vd_failure v = Some failure" for v failure
  proof (rule triple_get)
    fix s0 :: "'a execution"
    show "triple d r (\<lambda>s. generated d r 0 (Some l) as ct ts v s \<and> s0 = id s)
      (case final_failure s0 failure of
         Some (f, status) \<Rightarrow> stop d f status
       | None \<Rightarrow> seq (recover d r decision failure (vd_validated v) (vd_original v)) (\<lambda>a.
           seq (next_route d r a failure) ?go_on)) (finished d r)"
    proof (cases "final_failure s0 failure")
      case None
      have "\<exists>st as'. (st = Running \<or> st = Validating) \<and> point d r 0 (Some l, st, as', count_generation ct, ts) [] s"
        if g: "generated d r 0 (Some l) as ct ts v s" "s0 = s" for s
      proof -
        have "\<not> point d r 0 (Some l, Routed, as, ct, ts) [] s"
          using final_failure_None [OF None] g(2) point_facts(2) by metis
        then show ?thesis using g(1) by (auto simp: generated_def attempted_def)
      qed
      then have "triple d r (\<lambda>s. generated d r 0 (Some l) as ct ts v s \<and> s0 = id s)
         (seq (recover d r decision failure (vd_validated v) (vd_original v)) (\<lambda>a. seq (next_route d r a failure) ?go_on))
         (finished d r)"
        using recovering unfolding triple_def by fastforce
      with None show ?thesis by simp
    next
      case (Some out)
      obtain f status where out: "out = (f, status)" by (cases out)
      have "status \<in> {Failed, Blocked, Cancelled}" using Some out final_failure_statuses by simp
      then have "triple d r (\<lambda>s. generated d r 0 (Some l) as ct ts v s \<and> s0 = id s) (stop d f status) (finished d r)"
        by (intro stop_triple) (auto intro: generated_live)
      with Some out show ?thesis by simp
    qed
  qed
  have after: "triple d r (generated d r 0 (Some l) as ct ts v) (?after v) (finished d r)" for v
  proof (cases "vd_failure v")
    case None
    have "triple d r (point d r 0 (Some l, Validating, as' @ [b], count_generation ct, ts) []) (succeed d r decision)
        (finished d r)" if "verified (dp_controls d) b" for as' b
      by (rule succeed_triple [OF that])
    then have "triple d r (generated d r 0 (Some l) as ct ts v) (succeed d r decision) (finished d r)"
      using None by (auto simp: triple_def generated_def attempted_def)
    with None show ?thesis by simp
  next
    case (Some failure)
    with failed show ?thesis by simp
  qed
  have ready: "triple d r ?P (case blockers of
      blocker # _ \<Rightarrow> stop d (admission_stop CAPABILITY_FAILURE blocker) Blocked
    | [] \<Rightarrow> seq (generate d r decision) ?after) (finished d r)"
    if "blockers = [] \<longrightarrow> undischarged d decision = [] \<and> v0_readiness (dp_checks d) decision (dp_controls d) = []"
    for blockers
  proof (cases blockers)
    case Nil
    then have "cleared d r decision" using that Suc.prems(2) by (auto simp: cleared_def routed_def)
    from triple_seq [OF generate_triple [OF this] after] Nil show ?thesis by simp
  next
    case (Cons blocker rest)
    have "triple d r ?P (stop d (admission_stop CAPABILITY_FAILURE blocker) Blocked) (finished d r)"
      by (rule stop_triple [OF point_live]) simp_all
    with Cons show ?thesis by simp
  qed
  have "triple d r (\<lambda>s. ?P s \<and> True) (seq (readiness_of_decision d r decision) (\<lambda>blockers. case blockers of
      blocker # _ \<Rightarrow> stop d (admission_stop CAPABILITY_FAILURE blocker) Blocked
    | [] \<Rightarrow> seq (generate d r decision) ?after)) (finished d r)"
    by (rule clerical_fact [OF clerical_readiness_of_decision stable_True readiness_fact], unfold simp_thms,
        rule triple_fact, rule ready)
  then have ready': "triple d r ?P (seq (readiness_of_decision d r decision) (\<lambda>blockers. case blockers of
      blocker # _ \<Rightarrow> stop d (admission_stop CAPABILITY_FAILURE blocker) Blocked
    | [] \<Rightarrow> seq (generate d r decision) ?after)) (finished d r)" by simp
  show ?case
    unfolding run_loop.simps
  proof (rule point_step [OF clerical_checkpoint])
    fix stopped
    show "triple d r ?P (case stopped of Some f \<Rightarrow> halt d f
      | None \<Rightarrow> seq (readiness_of_decision d r decision) (\<lambda>blockers. case blockers of
      blocker # _ \<Rightarrow> stop d (admission_stop CAPABILITY_FAILURE blocker) Blocked
    | [] \<Rightarrow> seq (generate d r decision) ?after)) (finished d r)"
      using ready' halt_triple [OF point_live] by (cases stopped) simp_all
  qed
qed

section \<open>From the first decision to the end\<close>

lemma start_routing_triple:
  "triple d r (point d r 0 (Some l, Created, as, ct, ts) []) (start_routing d r c) (finished d r)"
proof -
  let ?P = "\<lambda>st. point d r 0 (Some l, st, as, ct, ts) []"
  have moved: "triple d r (\<lambda>s. ?P Created s \<and> True) (move d Classified (\<lambda>t. t\<lparr>tk_classification := Some c\<rparr>))
      (\<lambda>_ s. ?P Classified s \<and> True)"
    by (rule point_move) (simp_all add: may_follow_def ledger_fact_True)
  have looped: "triple d r (?P Routed) (seq (get (loop_fuel \<circ> ex_limits)) (\<lambda>n. run_loop d r n decision)) (finished d r)"
    if routed: "routed d r (Decision decision)" for decision
  proof (rule triple_get)
    fix n
    have "triple d r (?P Routed) (run_loop d r n decision) (finished d r)" if "n = loop_fuel (Some l)"
      by (rule run_loop_triple [OF _ routed]) (use that in \<open>simp add: loop_fuel_def\<close>)
    moreover have "ex_limits s = Some l" if "?P Routed s" for s using point_facts(1) [OF that] .
    ultimately show "triple d r (\<lambda>s. ?P Routed s \<and> n = (loop_fuel \<circ> ex_limits) s) (run_loop d r n decision) (finished d r)"
      unfolding triple_def by force
  qed
  have ending: "triple d r (?P Routed) (case result of
       Rejection rejection \<Rightarrow> stop d (admission_stop (rj_failure_type rejection) ''initial_route_rejected'') Failed
     | Decision decision \<Rightarrow> seq (get (loop_fuel \<circ> ex_limits)) (\<lambda>n. run_loop d r n decision)) (finished d r)"
    if "routed d r result" for result
  proof (cases result)
    case (Decision decision)
    with looped that show ?thesis by simp
  next
    case (Rejection rejection)
    have "triple d r (?P Routed) (stop d (admission_stop (rj_failure_type rejection) ''initial_route_rejected'') Failed) (finished d r)"
      by (rule stop_triple [OF point_live]) simp_all
    with Rejection show ?thesis by simp
  qed
  show ?thesis
    unfolding start_routing_def
    by (rule triple_seq [OF moved [unfolded simp_thms]], rule point_step [OF clerical_save_event],
        rule triple_seq [OF select_triple], simp add: may_follow_def, rule triple_given, rule ending)
qed

lemma clerical_classification: "clerical (modify (\<lambda>s. s\<lparr>ex_classification := Some c\<rparr>))"
  using touch_refl by (auto simp: clerical_def wp touch_def)

definition classified :: "'w dependencies \<Rightarrow> request \<Rightarrow> nat \<Rightarrow> facts \<Rightarrow> task_result + classification \<Rightarrow> 'w execution \<Rightarrow> bool" where
  "classified d r k x step s = (case step of Inl task \<Rightarrow> finished d r task s | Inr c \<Rightarrow> point d r k x [] s)"

lemma classified_stop:
  "status \<in> {Failed, Blocked, Cancelled} \<Longrightarrow>
   triple d r (point d r k x []) (seq (stop d f status) (\<lambda>task. ret (Inl task))) (classified d r k x)"
  by (rule triple_seq [OF stop_triple [OF point_live]], assumption, assumption, rule triple_ret) (simp add: classified_def)

lemma classify_triple: "triple d r (point d r k x []) (classify d r) (classified d r k x)"
proof -
  let ?stop = "\<lambda>f status. seq (stop d f status) (\<lambda>task. ret (Inl task))"
  have kept: "triple d r (point d r k x []) (ret (Inr c)) (classified d r k x)" for c
    by (rule triple_ret) (simp add: classified_def)
  have known: "triple d r (point d r k x []) (case v of
        Inl (ft, cause) \<Rightarrow> ?stop (exec_failure ft cause Source_classifier) Failed
      | Inr c \<Rightarrow> seq (modify (\<lambda>s. s\<lparr>ex_classification := Some c\<rparr>)) (\<lambda>_. ret (Inr c))) (classified d r k x)" for v
    by (cases v) (auto intro!: classified_stop point_step [OF clerical_classification] kept)
  have admitted: "triple d r (point d r k x []) (case refused of Some f \<Rightarrow> ?stop f Blocked
      | None \<Rightarrow> seq (world (run_classifier r)) (\<lambda>v. case v of
        Inl (ft, cause) \<Rightarrow> ?stop (exec_failure ft cause Source_classifier) Failed
      | Inr c \<Rightarrow> seq (modify (\<lambda>s. s\<lparr>ex_classification := Some c\<rparr>)) (\<lambda>_. ret (Inr c)))) (classified d r k x)"
    for refused run_classifier
    using classified_stop [of Blocked] point_step [OF clerical_world known] by (cases refused) simp_all
  have unclassified: "triple d r (point d r k x []) (case dp_mock_classifier d of
         None \<Rightarrow> ?stop (admission_stop CAPABILITY_FAILURE ''admitted_mock_classifier_required'') Blocked
       | Some run_classifier \<Rightarrow> seq (admit d ''classification'' False None (Some ZERO)) (\<lambda>refused.
           case refused of Some f \<Rightarrow> ?stop f Blocked
      | None \<Rightarrow> seq (world (run_classifier r)) (\<lambda>v. case v of
        Inl (ft, cause) \<Rightarrow> ?stop (exec_failure ft cause Source_classifier) Failed
      | Inr c \<Rightarrow> seq (modify (\<lambda>s. s\<lparr>ex_classification := Some c\<rparr>)) (\<lambda>_. ret (Inr c))))) (classified d r k x)"
    using classified_stop [of Blocked] point_step [OF clerical_admit admitted]
    by (cases "dp_mock_classifier d") simp_all
  show ?thesis
    unfolding classify_def
    by (rule point_step [OF clerical_get]) (use kept unclassified in \<open>simp split: option.split\<close>)
qed

text \<open>Before the limits are fixed, nothing has been spent, counted or called.\<close>

definition early :: "'w execution \<Rightarrow> bool" where
  "early s = (tk_status (ex_task s) = Created \<and> tk_counters (ex_task s) = no_counters \<and> known_cost s = 0
     \<and> reserved_cost s = 0 \<and> list_all clerical_call (ex_log s))"

definition fresh :: "'w dependencies \<Rightarrow> 'w execution \<Rightarrow> bool" where
  "fresh d s = (early s \<and> ex_limits s = dp_limits d)"

lemma stable_fresh: "stable (fresh d)"
proof -
  have "fresh d s'" if t: "touch s s'" and f: "fresh d s" for s s' :: "'a execution"
  proof -
    obtain calls where "list_all clerical_call calls" "ex_log s' = ex_log s @ calls" using t by (auto simp: touch_def)
    then show ?thesis using f by (simp add: fresh_def early_def touch_core [OF t] touch_limits [OF t])
  qed
  then show ?thesis by (simp add: stable_def)
qed

lemma justified_clerical: "list_all clerical_call calls \<Longrightarrow> justified_log d r calls"
  using justified_log_clerical [of calls d r "[]"] by (simp add: justified_log_def)

lemma early_point:
  assumes "early s" and "within_given (dp_limits d) (ex_limits s)"
  shows "point d r 0 (ex_limits s, Created, tk_attempts (ex_task s), no_counters, tk_tool_events (ex_task s)) [] s"
  using assms unfolding early_def point_def live_def good_def within_ceiling_def ceiling_of_def counted_def
    counters_within_def tools_within_def facts_def
  by (auto simp: clerical_calls justified_clerical no_counters_def split: option.split)

lemma within_given_same: "within_given given given"
  by (auto simp: within_given_def tightened_def split: option.split)

lemma fresh_live: "fresh d s \<Longrightarrow> live d r 0 s"
  by (rule point_live [OF early_point]) (simp_all add: fresh_def within_given_same)

lemma fresh_step:
  assumes "clerical m" and "\<And>y. triple d r (fresh d) (f y) Q"
  shows "triple d r (fresh d) (seq m f) Q"
proof (rule tripleI)
  fix s :: "'a execution"
  assume "fresh d s"
  then have kept: "fresh d s'" if "touch s s'" for s' using that stable_fresh unfolding stable_def by blast
  have "wp m (\<lambda>_ s'. touch s s') (\<lambda>e s'. touch s s' \<and> tame e) s" using assms(1) by (simp add: clerical_def)
  then show "wp (seq m f) Q (raised d r) s"
    unfolding wp_seq
    by (rule wp_weaken) (use assms(2) kept in \<open>auto simp: triple_def intro: live_raised [OF fresh_live]\<close>)
qed

lemma fresh_stop: "status \<in> {Failed, Blocked, Cancelled} \<Longrightarrow> triple d r (fresh d) (stop d f status) (finished d r)"
  by (rule stop_triple [OF fresh_live])

lemma limited_triple:
  "triple d r (point d r 0 (Some l, Created, as, ct, ts) [])
     (if \<not> xc_authorized (dp_controls d) then stop d (admission_stop CAPABILITY_FAILURE ''approval_required'') Blocked
      else
        seq (checkpoint d r) (\<lambda>stopped.
        case stopped of
          Some f \<Rightarrow> halt d f
        | None \<Rightarrow>
            seq (classify d r) (\<lambda>classified.
            case classified of Inl task \<Rightarrow> ret task | Inr c \<Rightarrow> start_routing d r c))) (finished d r)"
proof (rule triple_if)
  let ?P = "point d r 0 (Some l, Created, as, ct, ts) []"
  show "triple d r ?P (stop d (admission_stop CAPABILITY_FAILURE ''approval_required'') Blocked) (finished d r)"
    by (rule stop_triple [OF point_live]) simp_all
  have ending: "triple d r (classified d r 0 (Some l, Created, as, ct, ts) step)
      (case step of Inl task \<Rightarrow> ret task | Inr c \<Rightarrow> start_routing d r c) (finished d r)" for step
  proof (cases step)
    case (Inl task)
    then show ?thesis by (auto intro!: triple_ret simp: classified_def)
  next
    case (Inr c)
    then show ?thesis by (auto simp: classified_def intro: triple_pre [OF start_routing_triple])
  qed
  have classifying: "triple d r ?P (seq (classify d r) (\<lambda>classified.
      case classified of Inl task \<Rightarrow> ret task | Inr c \<Rightarrow> start_routing d r c)) (finished d r)"
    by (rule triple_seq [OF classify_triple ending])
  show "triple d r ?P (seq (checkpoint d r) (\<lambda>stopped.
        case stopped of
          Some f \<Rightarrow> halt d f
        | None \<Rightarrow>
            seq (classify d r) (\<lambda>classified.
            case classified of Inl task \<Rightarrow> ret task | Inr c \<Rightarrow> start_routing d r c))) (finished d r)"
  proof (rule point_step [OF clerical_checkpoint])
    show "triple d r ?P (case stopped of Some f \<Rightarrow> halt d f
        | None \<Rightarrow> seq (classify d r) (\<lambda>classified.
            case classified of Inl task \<Rightarrow> ret task | Inr c \<Rightarrow> start_routing d r c)) (finished d r)" for stopped
      using classifying halt_triple [OF point_live] by (cases stopped) simp_all
  qed
qed

lemma fix_limits_triple:
  assumes g: "dp_limits d = Some g" and t: "tightened g l"
    and rest: "\<And>as ct ts. triple d r (point d r 0 (Some l, Created, as, ct, ts) []) m (finished d r)"
  shows "triple d r (fresh d) (seq (modify (\<lambda>s. s\<lparr>ex_limits := Some l\<rparr>)) (\<lambda>_.
     seq (set_task (\<lambda>t. t\<lparr>tk_execution_limits := Some l\<rparr>)) (\<lambda>_. m))) (finished d r)"
proof (rule tripleI)
  fix s :: "'a execution"
  assume f: "fresh d s"
  let ?s = "s\<lparr>ex_limits := Some l, ex_task := (ex_task s)\<lparr>tk_execution_limits := Some l\<rparr>\<rparr>"
  have "early ?s" "within_given (dp_limits d) (ex_limits ?s)"
    using f g t by (simp_all add: fresh_def early_def within_given_def)
  from early_point [OF this, of r] have "point d r 0 (Some l, Created, tk_attempts (ex_task s), no_counters,
      tk_tool_events (ex_task s)) [] ?s" by simp
  from tripleD [OF rest this] have "wp m (finished d r) (raised d r) ?s" .
  then show "wp (seq (modify (\<lambda>s. s\<lparr>ex_limits := Some l\<rparr>)) (\<lambda>_.
     seq (set_task (\<lambda>t. t\<lparr>tk_execution_limits := Some l\<rparr>)) (\<lambda>_. m))) (finished d r) (raised d r) s"
    by (simp add: wp)
qed

lemma narrow_tightened: "narrow_limits resolved g = Some l \<Longrightarrow> tightened g l"
  by (auto simp: narrow_limits_def tightened_def split: option.splits)

lemma triple_limits:
  assumes "given = dp_limits d \<Longrightarrow> triple d r (fresh d) m Q"
  shows "triple d r (\<lambda>s. fresh d s \<and> given = ex_limits s) m Q"
proof (cases "given = dp_limits d")
  case True
  show ?thesis by (rule triple_pre [OF assms [OF True]]) simp
next
  case False
  then show ?thesis by (auto simp: triple_def fresh_def)
qed

lemma run_admitted_triple: "triple d r (fresh d) (run_admitted d r env) (finished d r)"
  unfolding run_admitted_def Let_def
proof (rule triple_get, rule triple_limits, intro triple_if fresh_stop)
  fix given
  assume same: "given = dp_limits d"
  let ?blocked = "\<lambda>ft cause. stop d (admission_stop ft cause) Blocked"
  show "triple d r (fresh d) (case given of
      None \<Rightarrow> ?blocked BUDGET_FAILURE ''finite_execution_limits_required''
    | Some l \<Rightarrow>
        seq (from_res (resolve_limits r env (dp_bundle d))) (\<lambda>resolved.
        case narrow_limits resolved l of
          None \<Rightarrow> ?blocked BUDGET_FAILURE ''finite_execution_limits_required''
        | Some narrowed \<Rightarrow>
            seq (modify (\<lambda>s. s\<lparr>ex_limits := Some narrowed\<rparr>)) (\<lambda>_.
            seq (set_task (\<lambda>t. t\<lparr>tk_execution_limits := Some narrowed\<rparr>)) (\<lambda>_.
            if \<not> xc_authorized (dp_controls d) then ?blocked CAPABILITY_FAILURE ''approval_required''
            else
              seq (checkpoint d r) (\<lambda>stopped.
              case stopped of
                Some f \<Rightarrow> halt d f
              | None \<Rightarrow>
                  seq (classify d r) (\<lambda>classified.
                  case classified of Inl task \<Rightarrow> ret task | Inr c \<Rightarrow> start_routing d r c)))))) (finished d r)"
  proof (cases given)
    case None
    then show ?thesis by (auto intro!: fresh_stop)
  next
    case given: (Some l)
    show ?thesis
      unfolding given option.case
    proof (rule fresh_step [OF clerical_from_res])
      fix resolved
      show "triple d r (fresh d) (case narrow_limits resolved l of
          None \<Rightarrow> ?blocked BUDGET_FAILURE ''finite_execution_limits_required''
        | Some narrowed \<Rightarrow>
            seq (modify (\<lambda>s. s\<lparr>ex_limits := Some narrowed\<rparr>)) (\<lambda>_.
            seq (set_task (\<lambda>t. t\<lparr>tk_execution_limits := Some narrowed\<rparr>)) (\<lambda>_.
            if \<not> xc_authorized (dp_controls d) then ?blocked CAPABILITY_FAILURE ''approval_required''
            else
              seq (checkpoint d r) (\<lambda>stopped.
              case stopped of
                Some f \<Rightarrow> halt d f
              | None \<Rightarrow>
                  seq (classify d r) (\<lambda>classified.
                  case classified of Inl task \<Rightarrow> ret task | Inr c \<Rightarrow> start_routing d r c))))) (finished d r)"
      proof (cases "narrow_limits resolved l")
        case None
        then show ?thesis using fresh_stop [of Blocked] by simp
      next
        case (Some narrowed)
        show ?thesis unfolding Some option.case by (rule fix_limits_triple [OF _ narrow_tightened [OF Some] limited_triple]) (use given same in simp)
      qed
    qed
  qed
qed simp_all

text \<open>A task that already exists is returned as it is, and nothing has been called for it.\<close>

definition outcome_ok :: "'w dependencies \<Rightarrow> request \<Rightarrow> task_result \<Rightarrow> 'w execution \<Rightarrow> bool" where
  "outcome_ok d r t s = (fresh d s \<or> finished d r t s)"

lemma run_triple: "triple d r (fresh d) (run d r) (outcome_ok d r)"
proof -
  have ok: "triple d r (fresh d) m (finished d r) \<Longrightarrow> triple d r (fresh d) m (outcome_ok d r)" for m
    by (erule triple_post) (simp add: outcome_ok_def)
  have pinning: "triple d r (fresh d) (case v of
      Inl e \<Rightarrow>
        if e = ConcurrentUpdate
        then stop d (exec_failure CAPABILITY_FAILURE ''configuration_snapshot_conflict'' Source_storage) Blocked
        else if e = RepositoryUnavailable
        then stop d (exec_failure PROVIDER_FAILURE ''configuration_snapshot_unavailable'' Source_storage) Blocked
        else raise (Raised e)
    | Inr _ \<Rightarrow> run_admitted d r env) (finished d r)" for v :: "unit res" and env
    using run_admitted_triple
    by (cases v) (auto intro!: fresh_stop triple_raise [OF fresh_live])
  have existing: "triple d r (fresh d) (case existing of
       Some task \<Rightarrow> ret task
     | None \<Rightarrow> seq (world (dp_pin_versions d (dp_bundle d))) (\<lambda>pinned_versions. case pinned_versions of
      Inl e \<Rightarrow>
        if e = ConcurrentUpdate
        then stop d (exec_failure CAPABILITY_FAILURE ''configuration_snapshot_conflict'' Source_storage) Blocked
        else if e = RepositoryUnavailable
        then stop d (exec_failure PROVIDER_FAILURE ''configuration_snapshot_unavailable'' Source_storage) Blocked
        else raise (Raised e)
    | Inr _ \<Rightarrow> run_admitted d r env)) (outcome_ok d r)" for existing env
    using ok [OF fresh_step [OF clerical_world pinning]]
    by (cases existing) (simp_all add: triple_ret outcome_ok_def)
  have scoped: "triple d r (fresh d) (seq (set_task (\<lambda>t. t\<lparr>tk_application_id := a\<rparr>)) m) (outcome_ok d r)"
    if "triple d r (fresh d) (m ()) (outcome_ok d r)" for a m
    using that by (simp add: triple_def wp fresh_def early_def)
  show ?thesis
    unfolding run_def Let_def
    by (rule fresh_step [OF clerical_read_environment], rule scoped, rule fresh_step [OF clerical_event],
        rule fresh_step [OF clerical_get], rule fresh_step [OF clerical_world], rule fresh_step [OF clerical_from_res],
        rule existing)
qed

lemma new_execution_fresh: "fresh d (new_execution d r supplied w)"
  by (simp add: new_execution_def fresh_def early_def new_task_def split: prod.split)

lemma execute_spec:
  "case execute d r supplied w of
     (Inl e, s) \<Rightarrow> surfaced d r e s
   | (Inr t, s) \<Rightarrow> outcome_ok d r t s"
proof -
  have "wp (catch (run d r) (\<lambda>e. if e = Environment_changed then stop d environment_failure Blocked else raise e))
      (outcome_ok d r) (surfaced d r) (new_execution d r supplied w)"
    unfolding wp_catch
  proof (rule wp_weaken)
    show "wp (run d r) (outcome_ok d r) (raised d r) (new_execution d r supplied w)"
      by (rule tripleD [OF run_triple new_execution_fresh])
    show "wp (if e = Environment_changed then stop d environment_failure Blocked else raise e)
        (outcome_ok d r) (surfaced d r) s" if "raised d r e s" for e s
    proof (cases "e = Environment_changed")
      case True
      then have "live d r (declared_tools d) s" using that by (simp add: raised_def live_def)
      from wp_weaken [OF stop_wp [OF this, of Blocked environment_failure], of "outcome_ok d r" "surfaced d r"]
      show ?thesis using True by (simp add: outcome_ok_def)
    next
      case False
      then show ?thesis using that by (simp add: wp raised_def surfaced_def)
    qed
  qed
  then show ?thesis by (simp add: execute_def wp_def)
qed

end
