(* ===== verification/MockAdapters.thy ===== *)
theory MockAdapters
  imports Dispatch ExecutionSamples
begin

text \<open>
  The deterministic adapters that the source ships for tests, composed to a world in which a task can
  be executed: \<^verbatim>\<open>MockClock\<close> (\<^verbatim>\<open>execution/clock.py\<close>), \<^verbatim>\<open>MockProvider\<close> (\<^verbatim>\<open>execution/provider.py\<close>),
  \<^verbatim>\<open>MockToolExecutor\<close> (\<^verbatim>\<open>execution/tools.py\<close>) and the in-memory budget authority. The repository of
  this world keeps the saved revisions in a list and refuses a revision that does not follow the
  last one; it stands for the storage, which the model leaves to the caller. The samples run tasks
  in it for the witnesses of the execution properties.
\<close>

section \<open>The clock\<close>

record mock_clock =
  mc_now :: instant
  mc_sleep_calls :: "nat list"

definition advance :: "nat \<Rightarrow> mock_clock \<Rightarrow> mock_clock" where
  "advance amount c = c\<lparr>mc_now := mc_now c + int amount\<rparr>"

definition mock_sleep :: "nat \<Rightarrow> mock_clock \<Rightarrow> mock_clock" where
  "mock_sleep amount c = advance amount (c\<lparr>mc_sleep_calls := mc_sleep_calls c @ [amount]\<rparr>)"

section \<open>The provider\<close>

text \<open>What a script may hold: a value, or a function of the request, which may raise.\<close>

datatype 'a scripted = Answer 'a | Not_an_outcome | Raises

datatype mock_outcome =
    Scripted "provider_outcome scripted"
  | Computed "provider_request \<Rightarrow> provider_outcome scripted"

record sanitized_request =
  sz_task_id :: string
  sz_trace_id :: string
  sz_invocation_id :: string
  sz_policy_version :: string
  sz_catalog_version :: string
  sz_model_alias :: string
  sz_provider_model_id :: string
  sz_reasoning_effort :: effort
  sz_purpose :: purpose
  sz_max_output_tokens :: nat
  sz_timeout_ms :: nat
  sz_structured_output :: bool

definition sanitized :: "provider_request \<Rightarrow> sanitized_request" where
  "sanitized q = \<lparr>sz_task_id = pq_task_id q, sz_trace_id = pq_trace_id q, sz_invocation_id = pq_invocation_id q,
     sz_policy_version = pq_policy_version q, sz_catalog_version = pq_catalog_version q,
     sz_model_alias = pq_model_alias q, sz_provider_model_id = pq_provider_model_id q,
     sz_reasoning_effort = pq_reasoning_effort q, sz_purpose = pq_purpose q,
     sz_max_output_tokens = pq_max_output_tokens q, sz_timeout_ms = pq_timeout_ms q,
     sz_structured_output = (pq_output_type q \<noteq> None)\<rparr>"

record mock_provider =
  mk_outcomes :: "mock_outcome list"
  mk_requests :: "sanitized_request list"
  mk_call_count :: nat

definition evaluated :: "provider_request \<Rightarrow> mock_outcome \<Rightarrow> provider_outcome scripted" where
  "evaluated q entry = (case entry of Scripted a \<Rightarrow> a | Computed f \<Rightarrow> f q)"

definition mock_execute :: "provider_request \<Rightarrow> mock_provider \<Rightarrow> provider_outcome option \<times> mock_provider" where
  "mock_execute q p =
     (let p' = p\<lparr>mk_call_count := mk_call_count p + 1, mk_requests := mk_requests p @ [sanitized q]\<rparr>
      in case mk_outcomes p' of
           [] \<Rightarrow> (Some (Provider_failed (adapter_failure q UNKNOWN_FAILURE Stage_invocation
                    ''mock_script_exhausted'' [''outcomes''])), p')
         | entry # outcomes \<Rightarrow>
             (case evaluated q entry of
                Answer out \<Rightarrow> Some out
              | Not_an_outcome \<Rightarrow> Some (Provider_failed (adapter_failure q UNKNOWN_FAILURE Stage_normalization
                  ''mock_outcome_invalid'' [''outcome_type'']))
              | Raises \<Rightarrow> None, p'\<lparr>mk_outcomes := outcomes\<rparr>))"

section \<open>The tools\<close>

datatype mock_tool_outcome =
    Scripted_tool "tool_outcome scripted"
  | Computed_tool "tool_call \<Rightarrow> tool_outcome scripted"

record mock_tools =
  mt_outcomes :: "mock_tool_outcome list"
  mt_calls :: "(string \<times> string \<times> string \<times> string \<times> string) list"
  mt_call_count :: nat

definition exhausted_tool :: "tool_call \<Rightarrow> string \<Rightarrow> tool_outcome" where
  "exhausted_tool call event_id =
     \<lparr>to_tool_event_id = event_id, to_tool = tl_tool call, to_operation = tl_operation call,
      to_status = Tool_failed,
      to_failure = Some \<lparr>fl_failure_type = TOOL_FAILURE, fl_source = Source_tool, fl_stage = ''execution'',
        fl_cause_code = ''mock_script_exhausted'', fl_retryable = False, fl_retry_after_ms = None\<rparr>,
      to_cost_usd = None, to_estimated_cost_usd = None, to_parent_attempt_id = None, to_latency_ms = 0,
      to_side_effecting = False, to_replay_safe = False\<rparr>"

definition mock_tool_execute :: "tool_call \<Rightarrow> string \<Rightarrow> string \<Rightarrow> string \<Rightarrow> mock_tools \<Rightarrow> tool_outcome option \<times> mock_tools" where
  "mock_tool_execute call task_id trace_id event_id t =
     (let t' = t\<lparr>mt_call_count := mt_call_count t + 1,
            mt_calls := mt_calls t @ [(tl_tool call, tl_operation call, event_id, task_id, trace_id)]\<rparr>
      in case mt_outcomes t' of
           [] \<Rightarrow> (Some (exhausted_tool call event_id), t')
         | entry # outcomes \<Rightarrow>
             (case (case entry of Scripted_tool a \<Rightarrow> a | Computed_tool f \<Rightarrow> f call) of
                Answer o' \<Rightarrow> Some (o'\<lparr>to_tool_event_id := event_id, to_tool := tl_tool call,
                  to_operation := tl_operation call, to_side_effecting := tl_side_effecting call,
                  to_replay_safe := replay_safe call\<rparr>)
              | _ \<Rightarrow> None, t'\<lparr>mt_outcomes := outcomes\<rparr>))"

section \<open>A world of adapters\<close>

record mock_world =
  mw_clock :: mock_clock
  mw_ids :: nat
  mw_provider :: mock_provider
  mw_tools :: mock_tools
  mw_budget :: memory_budget
  mw_saved :: "(task_result \<times> execution_event list) list"

definition next_id :: "mock_world \<Rightarrow> string \<times> mock_world" where
  "next_id w = (''id-'' @ replicate (mw_ids w) (CHR ''i''), w\<lparr>mw_ids := mw_ids w + 1\<rparr>)"

definition world_execute :: "provider_request \<Rightarrow> mock_world \<Rightarrow> provider_outcome option \<times> mock_world" where
  "world_execute q w = (let (out, p) = mock_execute q (mw_provider w) in (out, w\<lparr>mw_provider := p\<rparr>))"

definition world_tool :: "tool_call \<Rightarrow> string \<Rightarrow> string \<Rightarrow> string \<Rightarrow> mock_world \<Rightarrow> tool_outcome option \<times> mock_world" where
  "world_tool call task_id trace_id event_id w =
     (let (out, t) = mock_tool_execute call task_id trace_id event_id (mw_tools w) in (out, w\<lparr>mw_tools := t\<rparr>))"

definition world_create :: "task_result \<Rightarrow> execution_event \<Rightarrow> mock_world \<Rightarrow> task_result option res \<times> mock_world" where
  "world_create task created w = (Inr None, w\<lparr>mw_saved := [(task, [created])]\<rparr>)"

definition world_save :: "task_result \<Rightarrow> execution_event list \<Rightarrow> nat \<Rightarrow> mock_world \<Rightarrow> unit res \<times> mock_world" where
  "world_save task events prior w =
     (if mw_saved w = [] \<or> tk_revision (fst (last (mw_saved w))) \<noteq> prior then (Inl ConcurrentUpdate, w)
      else (Inr (), w\<lparr>mw_saved := mw_saved w @ [(task, events)]\<rparr>))"

definition world_remaining :: "string \<Rightarrow> mock_world \<Rightarrow> decimal option \<times> mock_world" where
  "world_remaining task w = (let (b, amount) = remaining_memory (mw_budget w) task in (Some amount, w\<lparr>mw_budget := b\<rparr>))"

definition world_reserve :: "string \<Rightarrow> string \<Rightarrow> decimal \<Rightarrow> mock_world \<Rightarrow> bool option \<times> mock_world" where
  "world_reserve task action amount w =
     (let (b, answer) = reserve_memory (mw_budget w) task action (Some amount)
      in (case answer of Inl _ \<Rightarrow> None | Inr granted \<Rightarrow> Some granted, w\<lparr>mw_budget := b\<rparr>))"

definition world_settle :: "string \<Rightarrow> string \<Rightarrow> decimal option \<Rightarrow> mock_world \<Rightarrow> unit option \<times> mock_world" where
  "world_settle task action amount w =
     (let (b, answer) = settle_memory (mw_budget w) task action amount
      in (case answer of Inl _ \<Rightarrow> None | Inr _ \<Rightarrow> Some (), w\<lparr>mw_budget := b\<rparr>))"

definition mock_dependencies :: "execution_controls \<Rightarrow> (string \<times> mock_world check) list \<Rightarrow> mock_world dependencies" where
  "mock_dependencies controls checks =
     \<lparr>dp_bundle = sample_bundle, dp_digests = sample_digests,
      dp_request_digest = (\<lambda>r c k. rq_task_id r), dp_key_digest = (\<lambda>scope key. scope @ key),
      dp_snapshot_digest = (\<lambda>v a b os. v), dp_milliseconds = id, dp_uuid = next_id,
      dp_now = (\<lambda>w. (mc_now (mw_clock w), w)), dp_sleep = (\<lambda>n w. w\<lparr>mw_clock := mock_sleep n (mw_clock w)\<rparr>),
      dp_environment = (\<lambda>w. (sample_environment, w)), dp_mock_provider = True, dp_execute = world_execute,
      dp_create = (\<lambda>task created scope key digest. world_create task created), dp_pin_versions = (\<lambda>b w. (Inr (), w)),
      dp_save = world_save, dp_retain_pending = (\<lambda>task events w. (Inr (), w)), dp_remaining = world_remaining,
      dp_reserve = world_reserve, dp_settle = world_settle, dp_limits = Some sample_limits, dp_controls = controls,
      dp_mock_classifier = None, dp_checks = checks, dp_tools = Some world_tool, dp_health = None,
      dp_cancelled = (\<lambda>w. (False, w))\<rparr>"

section \<open>Sample runs\<close>

definition sample_evidence :: "provider_request \<Rightarrow> provider_evidence" where
  "sample_evidence q = \<lparr>pe_task_id = pq_task_id q, pe_trace_id = pq_trace_id q, pe_invocation_id = pq_invocation_id q,
     pe_policy_version = pq_policy_version q, pe_catalog_version = pq_catalog_version q,
     pe_model_alias = pq_model_alias q, pe_provider_model_id = pq_provider_model_id q,
     pe_reasoning_effort = pq_reasoning_effort q, pe_purpose = pq_purpose q, pe_response_id = Some ''resp-1'',
     pe_response_status = Some Response_completed, pe_returned_model_id = None, pe_returned_service_tier = None,
     pe_latency_ms = 0,
     pe_usage = \<lparr>us_input_tokens = Some 20, us_cached_input_tokens = Some 0, us_cache_write_input_tokens = Some 0,
       us_output_tokens = Some 5, us_reasoning_tokens = None, us_total_tokens = Some 25\<rparr>\<rparr>"

definition sample_result :: "provider_request \<Rightarrow> provider_result" where
  "sample_result q = provider_evidence.extend (sample_evidence q)
     \<lparr>ps_text = Some ''done'', ps_structured_output = None, ps_incomplete_reason = None, ps_refused = False\<rparr>"

definition sample_answer :: mock_outcome where
  "sample_answer = Computed (\<lambda>q. Answer (Result (sample_result q)))"

definition sample_outage :: mock_outcome where
  "sample_outage = Computed (\<lambda>q. Answer (Provider_failed
     ((adapter_failure q RATE_LIMIT Stage_invocation ''busy'' [])\<lparr>pf_retryable := True\<rparr>)))"

definition sample_tool_success :: mock_tool_outcome where
  "sample_tool_success = Computed_tool (\<lambda>call. Answer ((exhausted_tool call ''e'')\<lparr>to_status := Tool_succeeded,
     to_failure := None, to_cost_usd := Some (Dec 5 (- 1))\<rparr>))"

definition sample_check :: "mock_world check" where
  "sample_check = \<lparr>ck_run = (\<lambda>r result w. (Some \<lparr>vo_evaluation_id = ''v-1'', vo_check = ''tests'',
       vo_status = Check_passed, vo_applicable = True, vo_failure = None, vo_diagnosed_failure = None,
       vo_evidence_code = None, vo_cost_usd = Some (Dec 1 (- 1))\<rparr>, w)),
     ck_cost_upper_bound_usd = Some (Dec 1 0)\<rparr>"

definition run_controls :: execution_controls where
  "run_controls = sample_controls\<lparr>xc_required_checks := [''tests'']\<rparr>"

definition sample_dependencies :: "mock_world dependencies" where
  "sample_dependencies = mock_dependencies run_controls [(''tests'', sample_check)]"

definition sample_world :: "mock_outcome list \<Rightarrow> mock_tool_outcome list \<Rightarrow> mock_world" where
  "sample_world outcomes tools = \<lparr>mw_clock = \<lparr>mc_now = 100, mc_sleep_calls = []\<rparr>, mw_ids = 0,
     mw_provider = \<lparr>mk_outcomes = outcomes, mk_requests = [], mk_call_count = 0\<rparr>,
     mw_tools = \<lparr>mt_outcomes = tools, mt_calls = [], mt_call_count = 0\<rparr>,
     mw_budget = \<lparr>mb_default_ceiling = Some (Dec 30 0), mb_balances = [], mb_reservations = []\<rparr>, mw_saved = []\<rparr>"

definition sample_run :: "mock_outcome list \<Rightarrow> mock_tool_outcome list \<Rightarrow> (exec_error + task_result) \<times> mock_world execution" where
  "sample_run outcomes tools = execute sample_dependencies capped_request (Some plain_classification)
     (sample_world outcomes tools)"

definition run_with :: "(task_result \<Rightarrow> mock_world execution \<Rightarrow> bool)
    \<Rightarrow> (exec_error + task_result) \<times> mock_world execution \<Rightarrow> bool" where
  "run_with P x = (case x of (Inr t, s) \<Rightarrow> P t s | (Inl e, s) \<Rightarrow> False)"

end
