(* ===== verification/OrchestratorClaims.thy ===== *)
theory OrchestratorClaims
  imports RunFacts MockAdapters
begin

text \<open>
  The properties of a whole execution, each a reading of the one specification of \<open>execute\<close>, for
  every composition of clocks, providers, repositories, budget authorities, checks and tools. The
  witnesses run in the world of the deterministic adapters.
\<close>

lemma executed_good:
  "good d r (snd (execute d r supplied w)) \<and> tools_within (declared_tools d) (snd (execute d r supplied w))"
proof -
  obtain x s where e: "execute d r supplied w = (x, s)" by (cases "execute d r supplied w")
  have "good d r s \<and> tools_within (declared_tools d) s"
  proof (cases x)
    case (Inl err)
    then show ?thesis using execute_spec [of d r supplied w] e by (simp add: surfaced_def)
  next
    case (Inr t)
    then have "fresh d s \<or> finished d r t s" using execute_spec [of d r supplied w] e by (simp add: outcome_ok_def)
    then show ?thesis
    proof
      assume "fresh d s"
      then have "live d r 0 s" by (rule fresh_live)
      then show ?thesis by (simp add: live_def tools_within_def)
    next
      assume "finished d r t s"
      then show ?thesis by (simp add: finished_def closed_def)
    qed
  qed
  with e show ?thesis by simp
qed

text \<open>
  C4. Whatever the adapters do, the provider and the tools are only ever reached for a reason that is
  already on record. Before every provider call of a run there is a granted reservation under its
  invocation id, a saved revision of the task whose last attempt is the started attempt of this
  call, with the model, effort and amount of the call, and that attempt carries a decision of the
  router on this request that nothing blocks. Before every tool call there is the granted
  reservation of its bound and a saved revision with the started tool event, and the controls
  authorize the tool, the call and its side effects.
\<close>

theorem execute_calls_justified:
  "justified_log d r (ex_log (snd (execute d r supplied w)))"
  using executed_good [of d r supplied w] by (simp add: good_def)



lemma sample_dependencies_limits: "dp_limits sample_dependencies = Some sample_limits"
  by (simp add: sample_dependencies_def mock_dependencies_def)




text \<open>
  C7. A run always ends, and ends cleanly: the loop over attempts never outlasts the attempts that the
  limits allow, nor the loop over a tool call its recoveries; no step is outside the lifecycle of a
  task; and a change of the trusted environment is never left to the caller.
\<close>

theorem execute_ends:
  "fst (execute d r supplied w) \<notin> {Inl Loop_bound, Inl Invalid_transition, Inl Environment_changed}"
proof -
  obtain x s where e: "execute d r supplied w = (x, s)" by (cases "execute d r supplied w")
  then show ?thesis using execute_spec [of d r supplied w] by (cases x) (auto simp: surfaced_def tame_def)
qed

text \<open>
  C8. The work of a run is bounded by its limits: no more provider calls than counted generation
  attempts and no more of these than allowed, quality escalations, infrastructure retries and tool
  recoveries within their limits, and no more tool calls than the declared ones and the counted
  recoveries.
\<close>

theorem execute_work_bounded:
  fixes d :: "'w dependencies" and r supplied w
  assumes "dp_limits d = Some l"
  defines "s \<equiv> snd (execute d r supplied w)"
  defines "c \<equiv> tk_counters (ex_task s)"
  shows "dispatches (ex_log s) \<le> ct_generation_attempts c \<and> ct_generation_attempts c \<le> xl_max_total_generation_attempts l
    \<and> ct_quality_escalations c \<le> xl_max_quality_escalations l
    \<and> ct_infrastructure_retries c \<le> xl_max_infrastructure_retries l
    \<and> ct_tool_recoveries c \<le> xl_max_tool_recoveries l
    \<and> tool_runs (ex_log s) \<le> length (xc_tool_calls (dp_controls d)) + ct_tool_recoveries c"
proof -
  have g: "good d r s" "tools_within (declared_tools d) s" unfolding s_def using executed_good [of d r supplied w] by simp_all
  have "counters_within c l"
    using g(1) assms(1)
    by (auto simp: good_def counted_def within_given_def tightened_def counters_within_def c_def split: option.splits)
  then show ?thesis using g by (simp add: good_def counted_def tools_within_def counters_within_def c_def)
qed

lemma sample_dependencies_tools: "length (xc_tool_calls (dp_controls sample_dependencies)) = 1"
  by (simp add: sample_dependencies_def mock_dependencies_def run_controls_def sample_controls_def)

theorem execute_work_bounded_witness:
  "dispatches (ex_log (snd (sample_run [sample_outage, sample_answer] [sample_tool_success]))) \<le> 4
   \<and> tool_runs (ex_log (snd (sample_run [sample_outage, sample_answer] [sample_tool_success]))) \<le> 2"
  using execute_work_bounded [OF sample_dependencies_limits, of capped_request
    "Some plain_classification" "sample_world [sample_outage, sample_answer] [sample_tool_success]"]
  unfolding sample_run_def by (simp add: sample_limits_def sample_dependencies_tools)

end
