(* ===== verification/Json.thy ===== *)
theory Json
  imports Complex_Main "HOL-Library.List_Lexorder" "HOL-Library.Char_ord"
begin

text \<open>
  JSON values, and the form with sorted keys in which the program prints them. Two texts printed that
  way are equal exactly when the values in this form are.
\<close>

section \<open>JSON values\<close>

datatype json =
    JNull | JBool bool | JInt int | JFloat rat | JString string
  | JList "json list" | JMap "(string \<times> json) list"

fun canonical_json :: "json \<Rightarrow> json" where
  "canonical_json (JList items) = JList (map canonical_json items)"
| "canonical_json (JMap items) = JMap (sort_key fst (map (\<lambda>(k, v). (k, canonical_json v)) items))"
| "canonical_json j = j"

definition as_map :: "json option \<Rightarrow> (string \<times> json) list option" where
  "as_map j = (case j of Some (JMap m) \<Rightarrow> Some m | _ \<Rightarrow> None)"

definition as_text :: "json option \<Rightarrow> string option" where
  "as_text j = (case j of Some (JString s) \<Rightarrow> Some s | _ \<Rightarrow> None)"

text \<open>What \<^verbatim>\<open>strip\<close> leaves empty.\<close>

definition blank_text :: "string \<Rightarrow> bool" where
  "blank_text s = list_all (\<lambda>c. c \<in> set [CHR 0x09, CHR 0x0A, CHR 0x0B, CHR 0x0C, CHR 0x0D,
     CHR 0x1C, CHR 0x1D, CHR 0x1E, CHR 0x1F, CHR '' '']) s"

end
