(* ===== verification/StoredTasks.thy ===== *)
theory StoredTasks
  imports TaskContracts Json
begin

text \<open>
  What the task repository of \<^verbatim>\<open>storage/repository.py\<close> writes into its text columns and how it
  compares them. A column holds the JSON text of a dumped record. Two such texts are equal exactly
  when the dumped values are: the keys of every dict are sorted, the digits of every decimal are
  kept, and fields marked as excluded (model outputs) are absent. A column is therefore modelled as
  the record in that dumped form, and the functions named \<open>..._form id\<close> produce it. The comparisons
  \<open>==\<close> of records in memory look at the value of a decimal and not at its digits; they are
  equality of the \<open>..._form dec_value\<close>.

  A stored task has, beside the fields of \<open>task_result\<close>, the fields that semantic evaluation and the
  shadow experiment write: the repository keeps them under the same rules.
\<close>

section \<open>Dumped records\<close>

text \<open>The shortest digits of a decimal's value.\<close>

definition dec_value :: "decimal \<Rightarrow> decimal" where
  "dec_value d = (if coeff d = 0 then ZERO else strip_zeros (coeff d) (expo d) (expo d + int (digits d)))"

definition classification_form :: "classification \<Rightarrow> classification" where
  "classification_form c = c\<lparr>cl_flags := sort_key fst (cl_flags c)\<rparr>"

definition limits_form :: "(decimal \<Rightarrow> decimal) \<Rightarrow> limits \<Rightarrow> limits" where
  "limits_form f l = l\<lparr>lim_task_cost_ceiling_usd := map_option f (lim_task_cost_ceiling_usd l),
     lim_period_spend_ceiling_usd := map_option f (lim_period_spend_ceiling_usd l)\<rparr>"

definition estimate_form :: "(decimal \<Rightarrow> decimal) \<Rightarrow> cost_estimate \<Rightarrow> cost_estimate" where
  "estimate_form f c = c\<lparr>ce_amount := map_option f (ce_amount c), ce_known_subtotal := f (ce_known_subtotal c),
     ce_generation_subtotal := f (ce_generation_subtotal c),
     ce_breakdown := sort_key fst (map (\<lambda>(k, v). (k, map_option f v)) (ce_breakdown c))\<rparr>"

definition rationale_form :: "(decimal \<Rightarrow> decimal) \<Rightarrow> rationale_details \<Rightarrow> rationale_details" where
  "rationale_form f d = d\<lparr>rd_cache_miss_budget_estimates := map_option
     (\<lambda>m. sort_key fst (map (\<lambda>(k, v). (k, estimate_form f v)) m)) (rd_cache_miss_budget_estimates d)\<rparr>"

definition base_form :: "(decimal \<Rightarrow> decimal) \<Rightarrow> 'a decision_base_scheme \<Rightarrow> 'a decision_base_scheme" where
  "base_form f b = b\<lparr>db_classification := classification_form (db_classification b),
     db_rationale_details := rationale_form f (db_rationale_details b),
     db_effective_limits := limits_form f (db_effective_limits b)\<rparr>"

definition decision_form :: "(decimal \<Rightarrow> decimal) \<Rightarrow> route_decision \<Rightarrow> route_decision" where
  "decision_form f r = (base_form f r)\<lparr>rt_estimated_cost := estimate_form f (rt_estimated_cost r)\<rparr>"

definition route_form :: "(decimal \<Rightarrow> decimal) \<Rightarrow> route_result \<Rightarrow> route_result" where
  "route_form f r = (case r of Decision d \<Rightarrow> Decision (decision_form f d) | Rejection d \<Rightarrow> Rejection (base_form f d))"

definition limits_value :: "execution_limits \<Rightarrow> execution_limits" where
  "limits_value l = l\<lparr>xl_task_cost_ceiling_usd := dec_value (xl_task_cost_ceiling_usd l)\<rparr>"

definition outcome_form :: "provider_outcome \<Rightarrow> provider_outcome" where
  "outcome_form out = (case out of
     Result r \<Rightarrow> Result (r\<lparr>ps_text := None, ps_structured_output := None\<rparr>) | Provider_failed f \<Rightarrow> Provider_failed f)"

definition attempt_form :: "attempt \<Rightarrow> attempt" where
  "attempt_form a = a\<lparr>at_decision := map_option (decision_form id) (at_decision a),
     at_provider_outcome := map_option outcome_form (at_provider_outcome a)\<rparr>"

datatype shadow_status = Shadow_skipped | Shadow_started | Shadow_succeeded | Shadow_failed

record shadow_run =
  sw_shadow_id :: string
  sw_production_attempt_id :: string
  sw_config_version :: string
  sw_sampling_seed :: string
  sw_sampling_rate :: rat
  sw_selected :: bool
  sw_status :: shadow_status
  sw_reason :: string
  sw_attempts :: "attempt list"
  sw_generation_cost_usd :: "decimal option"
  sw_validation_cost_usd :: "decimal option"

definition shadow_form :: "shadow_run \<Rightarrow> shadow_run" where
  "shadow_form w = w\<lparr>sw_attempts := map attempt_form (sw_attempts w)\<rparr>"

record stored_task = task_result +
  tk_evaluator_attempts :: "attempt list"
  tk_domain_validations :: "validation_outcome list"
  tk_shadow_runs :: "shadow_run list"
  tk_phase4_version :: "string option"
  tk_phase4_config :: "json option"

definition task_payload :: "stored_task \<Rightarrow> stored_task" where
  "task_payload t = t\<lparr>tk_classification := map_option classification_form (tk_classification t),
     tk_initial_decision := map_option (route_form id) (tk_initial_decision t),
     tk_decisions := map (route_form id) (tk_decisions t), tk_attempts := map attempt_form (tk_attempts t),
     tk_output := None, tk_structured_output := None,
     tk_evaluator_attempts := map attempt_form (tk_evaluator_attempts t),
     tk_shadow_runs := map shadow_form (tk_shadow_runs t),
     tk_phase4_config := map_option canonical_json (tk_phase4_config t)\<rparr>"

section \<open>How evidence may progress\<close>

definition starts_with :: "'a list \<Rightarrow> 'a list \<Rightarrow> bool" where
  "starts_with new old = (take (length old) new = old)"

definition kept :: "'a option \<Rightarrow> 'a option \<Rightarrow> bool" where
  "kept previous current = (case previous of None \<Rightarrow> True | Some x \<Rightarrow> current = Some x)"

definition cost_grows :: "decimal option \<Rightarrow> decimal option \<Rightarrow> bool" where
  "cost_grows previous current = (case (previous, current) of
     (None, Some _) \<Rightarrow> False | (Some a, Some b) \<Rightarrow> \<not> dec_lt b a | _ \<Rightarrow> True)"

definition attempt_core :: "attempt \<Rightarrow> attempt" where
  "attempt_core a = a\<lparr>at_status := Attempt_started, at_completed_at := None, at_actual_cost_usd := None,
     at_provider_outcome := None, at_failure := None, at_validations := []\<rparr>"

definition valid_attempt_progression :: "attempt \<Rightarrow> attempt \<Rightarrow> bool" where
  "valid_attempt_progression previous current =
     (attempt_core previous = attempt_core current
      \<and> kept (at_completed_at previous) (at_completed_at current)
      \<and> kept (at_actual_cost_usd previous) (at_actual_cost_usd current)
      \<and> kept (at_provider_outcome previous) (at_provider_outcome current)
      \<and> kept (at_failure previous) (at_failure current)
      \<and> starts_with (at_validations current) (at_validations previous))"

definition tool_core :: "tool_outcome \<Rightarrow> tool_outcome" where
  "tool_core e = e\<lparr>to_status := Tool_started, to_failure := None, to_cost_usd := None, to_latency_ms := 0\<rparr>"

definition valid_tool_progression :: "tool_outcome \<Rightarrow> tool_outcome \<Rightarrow> bool" where
  "valid_tool_progression previous current =
     (tool_core previous = tool_core current \<and> kept (to_failure previous) (to_failure current)
      \<and> kept (to_cost_usd previous) (to_cost_usd current))"

definition shadow_core :: "shadow_run \<Rightarrow> shadow_run" where
  "shadow_core w = w\<lparr>sw_status := Shadow_started, sw_reason := [], sw_attempts := [],
     sw_generation_cost_usd := None, sw_validation_cost_usd := None\<rparr>"

definition valid_shadow_progression :: "shadow_run \<Rightarrow> shadow_run \<Rightarrow> bool" where
  "valid_shadow_progression previous current =
     (shadow_core current = shadow_core previous
      \<and> length (sw_attempts previous) \<le> length (sw_attempts current)
      \<and> list_all (\<lambda>(before, after). before = after
           \<or> (at_status before = Attempt_started \<and> valid_attempt_progression before after))
          (zip (sw_attempts previous) (sw_attempts current))
      \<and> cost_grows (sw_generation_cost_usd previous) (sw_generation_cost_usd current)
      \<and> cost_grows (sw_validation_cost_usd previous) (sw_validation_cost_usd current))"

datatype evidence =
    Attempt_evidence attempt | Validation_evidence validation_outcome
  | Health_evidence health_snapshot | Shadow_evidence shadow_run

text \<open>Which evidence has a progression that a started row may follow.\<close>

definition evidence_progression :: "evidence \<Rightarrow> evidence \<Rightarrow> bool" where
  "evidence_progression previous current = (case (previous, current) of
     (Attempt_evidence a, Attempt_evidence b) \<Rightarrow> valid_attempt_progression a b
   | (Shadow_evidence a, Shadow_evidence b) \<Rightarrow> valid_shadow_progression a b
   | _ \<Rightarrow> False)"

definition unset_or_same :: "('a \<Rightarrow> 'b) \<Rightarrow> 'a option \<Rightarrow> 'a option \<Rightarrow> bool" where
  "unset_or_same form previous current =
     (previous = None \<or> map_option form previous = map_option form current)"

definition result_id :: "route_result \<Rightarrow> string" where
  "result_id r = (case r of Decision d \<Rightarrow> db_decision_id d | Rejection d \<Rightarrow> db_decision_id d)"

definition stable_fields :: "stored_task \<Rightarrow> stored_task \<Rightarrow> bool" where
  "stable_fields previous current =
     (tk_task_id previous = tk_task_id current \<and> tk_trace_id previous = tk_trace_id current
      \<and> tk_policy_version previous = tk_policy_version current \<and> tk_created_at previous = tk_created_at current
      \<and> tk_application_id previous = tk_application_id current
      \<and> tk_phase4_version previous = tk_phase4_version current
      \<and> map_option canonical_json (tk_phase4_config previous) = map_option canonical_json (tk_phase4_config current))"

definition collections_preserved :: "stored_task \<Rightarrow> stored_task \<Rightarrow> bool" where
  "collections_preserved previous current =
     (starts_with (map result_id (tk_decisions current)) (map result_id (tk_decisions previous))
      \<and> starts_with (map at_attempt_id (tk_attempts current)) (map at_attempt_id (tk_attempts previous))
      \<and> starts_with (map to_tool_event_id (tk_tool_events current)) (map to_tool_event_id (tk_tool_events previous))
      \<and> starts_with (map at_attempt_id (tk_evaluator_attempts current)) (map at_attempt_id (tk_evaluator_attempts previous))
      \<and> starts_with (map vo_evaluation_id (tk_domain_validations current)) (map vo_evaluation_id (tk_domain_validations previous))
      \<and> starts_with (map sn_snapshot_id (tk_health_snapshots current)) (map sn_snapshot_id (tk_health_snapshots previous))
      \<and> starts_with (map sw_shadow_id (tk_shadow_runs current)) (map sw_shadow_id (tk_shadow_runs previous)))"

definition counters_grow :: "counters \<Rightarrow> counters \<Rightarrow> bool" where
  "counters_grow previous current =
     (ct_generation_attempts previous \<le> ct_generation_attempts current
      \<and> ct_quality_escalations previous \<le> ct_quality_escalations current
      \<and> ct_infrastructure_retries previous \<le> ct_infrastructure_retries current
      \<and> ct_tool_recoveries previous \<le> ct_tool_recoveries current)"

definition verify_task_progression :: "stored_task \<Rightarrow> stored_task \<Rightarrow> bool" where
  "verify_task_progression previous current =
     (stable_fields previous current \<and> \<not> terminal (tk_status previous)
      \<and> unset_or_same limits_value (tk_execution_limits previous) (tk_execution_limits current)
      \<and> unset_or_same classification_form (tk_classification previous) (tk_classification current)
      \<and> unset_or_same (route_form dec_value) (tk_initial_decision previous) (tk_initial_decision current)
      \<and> collections_preserved previous current
      \<and> \<not> dec_lt (tk_known_cost_usd current) (tk_known_cost_usd previous)
      \<and> cost_grows (tk_total_cost_usd previous) (tk_total_cost_usd current)
      \<and> cost_grows (tk_production_generation_cost_usd previous) (tk_production_generation_cost_usd current)
      \<and> cost_grows (tk_production_validation_cost_usd previous) (tk_production_validation_cost_usd current)
      \<and> starts_with (tk_recovery_actions current) (tk_recovery_actions previous)
      \<and> counters_grow (tk_counters previous) (tk_counters current))"

end
