(* ===== verification/ProgressFacts.thy ===== *)
theory ProgressFacts
  imports StoredTasks
begin

text \<open>
  Facts on dumped records and on the progress of evidence: dumping twice is dumping once, the value
  of a dumped record is the value of the record, and every notion of progress is a preorder. The
  relation \<open>task_extends\<close> is what a chain of accepted saves adds up to.
\<close>

section \<open>Dumped forms\<close>

lemma insort_key_map:
  "(\<And>x. key' (g x) = key x) \<Longrightarrow> insort_key key' (g x) (map g ys) = map g (insort_key key x ys)"
  by (induction ys) auto

lemma sort_key_map: "(\<And>x. key' (g x) = key x) \<Longrightarrow> sort_key key' (map g xs) = map g (sort_key key xs)"
  by (induction xs) (simp_all add: insort_key_map)

lemma sort_key_twice [simp]: "sort_key key (sort_key key xs) = sort_key key xs"
  by (rule sort_key_id_if_sorted) simp

lemma sort_items: "sort_key fst (map (\<lambda>(k, v). (k, f v)) xs) = map (\<lambda>(k, v). (k, f v)) (sort_key fst xs)"
  using sort_key_map [of fst "\<lambda>(k, v). (k, f v)" fst xs] by (simp add: case_prod_unfold)

lemma items_items: "map (\<lambda>x. case case x of (k, v) \<Rightarrow> (k, f v) of (k, v) \<Rightarrow> (k, g v)) xs = map (\<lambda>(k, v). (k, g (f v))) xs"
  by (simp add: case_prod_unfold)

lemma canonical_json_twice [simp]: "canonical_json (canonical_json j) = canonical_json j"
proof (induction j rule: canonical_json.induct)
  case (1 items)
  then show ?case by (simp cong: map_cong)
next
  case (2 items)
  have "map (\<lambda>(k, v). (k, canonical_json (canonical_json v))) items = map (\<lambda>(k, v). (k, canonical_json v)) items"
    using 2 by (intro map_cong) (auto simp: snds.simps)
  then have *: "map (\<lambda>(k, v). (k, canonical_json v)) (map (\<lambda>(k, v). (k, canonical_json v)) items)
      = map (\<lambda>(k, v). (k, canonical_json v)) items"
    by (simp add: comp_def items_items)
  show ?case
    unfolding canonical_json.simps sort_items [symmetric] by (simp only: sort_items sort_key_twice flip: sort_items) (simp only: *)
qed auto

lemma classification_form_twice [simp]: "classification_form (classification_form c) = classification_form c"
  by (simp add: classification_form_def)

lemma limits_form_form [simp]: "limits_form f (limits_form id l) = limits_form f l"
  by (simp add: limits_form_def option.map_comp)

lemma estimate_form_form [simp]: "estimate_form f (estimate_form id c) = estimate_form f c"
proof -
  have "map (\<lambda>(k, v). (k, map_option id v)) xs = xs" for xs :: "(string \<times> decimal option) list"
    by (simp add: map_idI option.map_id0)
  then show ?thesis by (simp add: estimate_form_def option.map_comp sort_items)
qed

lemma rationale_form_form [simp]: "rationale_form f (rationale_form id d) = rationale_form f d"
  by (simp add: rationale_form_def option.map_comp comp_def sort_items items_items)

lemma base_form_form [simp]: "base_form f (base_form id b) = base_form f b"
  by (simp add: base_form_def)

lemma decision_form_form [simp]: "decision_form f (decision_form id r) = decision_form f r"
  by (simp add: decision_form_def base_form_def)

lemma route_form_form [simp]: "route_form f (route_form id r) = route_form f r"
  by (simp add: route_form_def split: route_result.splits)

lemma outcome_form_twice [simp]: "outcome_form (outcome_form out) = outcome_form out"
  by (simp add: outcome_form_def split: provider_outcome.splits)

lemma attempt_form_twice [simp]: "attempt_form (attempt_form a) = attempt_form a"
  by (simp add: attempt_form_def option.map_comp comp_def)

lemma shadow_form_twice [simp]: "shadow_form (shadow_form w) = shadow_form w"
  by (simp add: shadow_form_def)

lemma task_payload_twice [simp]: "task_payload (task_payload t) = task_payload t"
  by (simp add: task_payload_def option.map_comp comp_def)

section \<open>Progress is a preorder\<close>

named_theorems progress_refl
named_theorems progress_trans

lemma starts_with_iff: "starts_with new old \<longleftrightarrow> (\<exists>rest. new = old @ rest)"
  unfolding starts_with_def by (metis append_eq_conv_conj append_take_drop_id)

lemma starts_with_refl [simp, progress_refl]: "starts_with xs xs"
  by (simp add: starts_with_def)

lemma starts_with_trans [progress_trans]: "starts_with b a \<Longrightarrow> starts_with c b \<Longrightarrow> starts_with c a"
  by (auto simp: starts_with_iff)

lemma kept_refl [simp, progress_refl]: "kept x x"
  by (simp add: kept_def split: option.splits)

lemma kept_trans [progress_trans]: "kept a b \<Longrightarrow> kept b c \<Longrightarrow> kept a c"
  by (simp add: kept_def split: option.splits)

lemma cost_grows_refl [simp, progress_refl]: "cost_grows x x"
  by (simp add: cost_grows_def dec_lt_iff split: option.splits)

lemma cost_grows_trans [progress_trans]: "cost_grows a b \<Longrightarrow> cost_grows b c \<Longrightarrow> cost_grows a c"
  by (auto simp: cost_grows_def dec_lt_iff split: option.splits)

lemma unset_or_same_refl [simp, progress_refl]: "unset_or_same f x x"
  by (simp add: unset_or_same_def)

lemma unset_or_same_trans [progress_trans]: "unset_or_same f a b \<Longrightarrow> unset_or_same f b c \<Longrightarrow> unset_or_same f a c"
  by (auto simp: unset_or_same_def)

lemma counters_grow_refl [simp, progress_refl]: "counters_grow x x"
  by (simp add: counters_grow_def)

lemma counters_grow_trans [progress_trans]: "counters_grow a b \<Longrightarrow> counters_grow b c \<Longrightarrow> counters_grow a c"
  by (simp add: counters_grow_def)

lemma valid_attempt_progression_refl [simp, progress_refl]: "valid_attempt_progression a a"
  by (simp add: valid_attempt_progression_def)

lemma valid_attempt_progression_trans [progress_trans]:
  "valid_attempt_progression a b \<Longrightarrow> valid_attempt_progression b c \<Longrightarrow> valid_attempt_progression a c"
  unfolding valid_attempt_progression_def by (auto elim: progress_trans)

lemma valid_tool_progression_refl [simp, progress_refl]: "valid_tool_progression a a"
  by (simp add: valid_tool_progression_def)

lemma valid_tool_progression_trans [progress_trans]:
  "valid_tool_progression a b \<Longrightarrow> valid_tool_progression b c \<Longrightarrow> valid_tool_progression a c"
  unfolding valid_tool_progression_def by (auto elim: progress_trans)

lemma shadow_attempts_iff:
  "list_all P (zip xs ys) \<longleftrightarrow> (\<forall>i < min (length xs) (length ys). P (xs ! i, ys ! i))"
  by (simp add: list_all_length)

lemma valid_shadow_progression_trans [progress_trans]:
  assumes ab: "valid_shadow_progression a b" and bc: "valid_shadow_progression b c"
  shows "valid_shadow_progression a c"
proof -
  let ?step = "\<lambda>before after. before = after \<or> (at_status before = Attempt_started \<and> valid_attempt_progression before after)"
  have len: "length (sw_attempts a) \<le> length (sw_attempts b)" "length (sw_attempts b) \<le> length (sw_attempts c)"
    using ab bc by (simp_all add: valid_shadow_progression_def)
  have first: "?step (sw_attempts a ! i) (sw_attempts b ! i)" if "i < length (sw_attempts a)" for i
    using ab len that by (auto simp: valid_shadow_progression_def shadow_attempts_iff)
  have second: "?step (sw_attempts b ! i) (sw_attempts c ! i)" if "i < length (sw_attempts a)" for i
    using bc len that by (auto simp: valid_shadow_progression_def shadow_attempts_iff)
  have "?step (sw_attempts a ! i) (sw_attempts c ! i)" if "i < length (sw_attempts a)" for i
    using first [OF that] second [OF that]
      valid_attempt_progression_trans [of "sw_attempts a ! i" "sw_attempts b ! i" "sw_attempts c ! i"]
    by (elim disjE) simp_all
  moreover have "cost_grows (sw_generation_cost_usd a) (sw_generation_cost_usd c)"
      "cost_grows (sw_validation_cost_usd a) (sw_validation_cost_usd c)" "shadow_core c = shadow_core a"
    using ab bc cost_grows_trans unfolding valid_shadow_progression_def by (blast, blast, simp)
  ultimately show ?thesis using len by (simp add: valid_shadow_progression_def shadow_attempts_iff)
qed

lemma evidence_progression_trans [progress_trans]:
  "evidence_progression a b \<Longrightarrow> evidence_progression b c \<Longrightarrow> evidence_progression a c"
  by (auto simp: evidence_progression_def split: evidence.splits elim: progress_trans)

section \<open>What a chain of saves keeps\<close>

text \<open>The checks of a save without the one on the previous status.\<close>

definition carries_forward :: "stored_task \<Rightarrow> stored_task \<Rightarrow> bool" where
  "carries_forward previous current =
     (stable_fields previous current
      \<and> unset_or_same limits_value (tk_execution_limits previous) (tk_execution_limits current)
      \<and> unset_or_same classification_form (tk_classification previous) (tk_classification current)
      \<and> unset_or_same (route_form dec_value) (tk_initial_decision previous) (tk_initial_decision current)
      \<and> collections_preserved previous current
      \<and> \<not> dec_lt (tk_known_cost_usd current) (tk_known_cost_usd previous)
      \<and> cost_grows (tk_total_cost_usd previous) (tk_total_cost_usd current)
      \<and> cost_grows (tk_production_generation_cost_usd previous) (tk_production_generation_cost_usd current)
      \<and> cost_grows (tk_production_validation_cost_usd previous) (tk_production_validation_cost_usd current)
      \<and> starts_with (tk_recovery_actions current) (tk_recovery_actions previous)
      \<and> counters_grow (tk_counters previous) (tk_counters current))"

definition task_extends :: "stored_task \<Rightarrow> stored_task \<Rightarrow> bool" where
  "task_extends previous current = (current = previous
     \<or> (\<not> terminal (tk_status previous) \<and> tk_revision previous < tk_revision current
        \<and> carries_forward previous current))"

lemma verify_iff:
  "verify_task_progression previous current \<longleftrightarrow> \<not> terminal (tk_status previous) \<and> carries_forward previous current"
  by (auto simp: verify_task_progression_def carries_forward_def)

lemma carries_forward_refl [simp, progress_refl]: "carries_forward t t"
  by (simp add: carries_forward_def stable_fields_def collections_preserved_def dec_lt_iff)

lemma stable_fields_trans [progress_trans]: "stable_fields a b \<Longrightarrow> stable_fields b c \<Longrightarrow> stable_fields a c"
  by (simp add: stable_fields_def)

lemma collections_preserved_trans [progress_trans]:
  "collections_preserved a b \<Longrightarrow> collections_preserved b c \<Longrightarrow> collections_preserved a c"
  unfolding collections_preserved_def by (blast intro: starts_with_trans)

lemma carries_forward_trans [progress_trans]:
  assumes ab: "carries_forward a b" and bc: "carries_forward b c"
  shows "carries_forward a c"
proof -
  have "\<not> dec_lt (tk_known_cost_usd c) (tk_known_cost_usd a)"
    using ab bc by (simp add: carries_forward_def dec_lt_iff)
  moreover have "collections_preserved a c"
    using ab bc collections_preserved_trans unfolding carries_forward_def by blast
  ultimately show ?thesis using ab bc unfolding carries_forward_def
    by (meson stable_fields_trans unset_or_same_trans cost_grows_trans starts_with_trans counters_grow_trans)
qed

lemma task_extends_refl [simp]: "task_extends t t"
  by (simp add: task_extends_def)

lemma task_extends_trans: "task_extends a b \<Longrightarrow> task_extends b c \<Longrightarrow> task_extends a c"
  unfolding task_extends_def by (metis carries_forward_trans less_trans)

lemma task_extends_revision: "task_extends a b \<Longrightarrow> tk_revision a \<le> tk_revision b"
  by (auto simp: task_extends_def)

lemma task_extends_terminal: "task_extends a b \<Longrightarrow> terminal (tk_status a) \<Longrightarrow> b = a"
  by (auto simp: task_extends_def)

lemma result_id_form [simp]: "result_id (route_form f r) = result_id r"
  by (simp add: result_id_def route_form_def decision_form_def base_form_def split: route_result.splits)

lemma attempt_form_id [simp]: "at_attempt_id (attempt_form a) = at_attempt_id a"
  by (simp add: attempt_form_def)

lemma shadow_form_id [simp]: "sw_shadow_id (shadow_form w) = sw_shadow_id w"
  by (simp add: shadow_form_def)

text \<open>Dumping loses nothing that the checks look at.\<close>

lemma task_payload_ids [simp]:
  "tk_task_id (task_payload t) = tk_task_id t" "tk_revision (task_payload t) = tk_revision t"
  "tk_status (task_payload t) = tk_status t"
  by (simp_all add: task_payload_def)

lemma verify_payload [simp]: "verify_task_progression t (task_payload u) = verify_task_progression t u"
  unfolding verify_task_progression_def stable_fields_def collections_preserved_def unset_or_same_def task_payload_def
  by (simp add: option.map_comp comp_def)

end
