(* ===== verification/TaskStore.thy ===== *)
theory TaskStore
  imports StoredTasks SqlBudget
begin

text \<open>
  \<^verbatim>\<open>SQLTaskRepository\<close> of \<^verbatim>\<open>storage/repository.py\<close> over the tables of \<^verbatim>\<open>storage/models.py\<close>, with its
  recovery journal. The database is one association list per table, keyed by the primary key; the
  unique constraints and the foreign keys of the schema are checked where a row is inserted. A
  method's write session is one step of the database: it commits when its body returns and rolls
  back when the body raises, and the parameter of type \<open>store_outcome\<close> says whether the session
  succeeds, fails, or commits and loses its acknowledgement. Reads take a flag that says whether the
  database answers. The journal is the list of the lines of its file.

  Each method translates the errors of its session as its except clauses do. The snapshots that
  \<^verbatim>\<open>pin_versions\<close> stores are JSON values, which is what dumping a configuration gives.
\<close>

section \<open>Sessions\<close>

datatype store_error = Refused router_error | Integrity_violation | Database_error

type_synonym 'a stored = "store_error + 'a"

definition bind_st :: "'a stored \<Rightarrow> ('a \<Rightarrow> 'b stored) \<Rightarrow> 'b stored" where
  "bind_st m f = (case m of Inl e \<Rightarrow> Inl e | Inr x \<Rightarrow> f x)"

definition check_st :: "bool \<Rightarrow> store_error \<Rightarrow> unit stored" where
  "check_st ok e = (if ok then Inr () else Inl e)"

primrec fold_st :: "('a \<Rightarrow> 's \<Rightarrow> 's stored) \<Rightarrow> 'a list \<Rightarrow> 's \<Rightarrow> 's stored" where
  "fold_st f [] s = Inr s"
| "fold_st f (x # xs) s = bind_st (f x s) (\<lambda>s'. fold_st f xs s')"

definition session :: "store_outcome \<Rightarrow> ('s \<Rightarrow> ('a \<times> 's) stored) \<Rightarrow> 's \<Rightarrow> 'a stored \<times> 's" where
  "session st body s =
     (case st of
        Store_failed \<Rightarrow> (Inl Database_error, s)
      | Store_ok \<Rightarrow> (case body s of Inl e \<Rightarrow> (Inl e, s) | Inr (x, s') \<Rightarrow> (Inr x, s'))
      | Store_lost_ack \<Rightarrow> (case body s of Inl e \<Rightarrow> (Inl e, s) | Inr (x, s') \<Rightarrow> (Inl Database_error, s')))"

text \<open>Sessions whose except clause only knows the errors of the database.\<close>

definition plain_session :: "store_outcome \<Rightarrow> ('s \<Rightarrow> ('a \<times> 's) stored) \<Rightarrow> 's \<Rightarrow> 'a res \<times> 's" where
  "plain_session st body db = (case session st body db of
     (Inr x, db') \<Rightarrow> (Inr x, db')
   | (Inl (Refused e), db') \<Rightarrow> (Inl e, db')
   | (Inl _, db') \<Rightarrow> (Inl RepositoryUnavailable, db'))"

section \<open>Tables\<close>

record task_row =
  tr_trace_id :: string
  tr_status :: task_status
  tr_policy_version :: string
  tr_created_at :: instant
  tr_updated_at :: instant
  tr_revision :: nat
  tr_idempotency_scope :: string
  tr_key_digest :: "string option"
  tr_request_digest :: string
  tr_payload :: stored_task

record ('s, 'p) evidence_row =
  er_task_id :: string
  er_sequence :: nat
  er_status :: 's
  er_payload :: 'p

record evaluation_row = "(check_outcome, validation_outcome) evidence_row" +
  er_attempt_id :: string

record verification_row =
  ve_task_id :: string
  ve_kind :: string
  ve_status :: string
  ve_payload :: evidence

record outbox_row =
  ox_task_id :: string
  ox_kind :: event_kind
  ox_sequence :: nat
  ox_occurred_at :: instant
  ox_payload :: execution_event
  ox_acknowledged_at :: "instant option"
  ox_claim_owner :: "string option"
  ox_claim_expires_at :: "instant option"

record task_db =
  td_tasks :: "(string \<times> task_row) list"
  td_decisions :: "(string \<times> (string, route_result) evidence_row) list"
  td_attempts :: "(string \<times> (attempt_status, attempt) evidence_row) list"
  td_tools :: "(string \<times> (tool_status, tool_outcome) evidence_row) list"
  td_evaluations :: "(string \<times> evaluation_row) list"
  td_verification :: "(string \<times> verification_row) list"
  td_outbox :: "(string \<times> outbox_row) list"
  td_policies :: "(string \<times> json) list"
  td_catalogs :: "(string \<times> json) list"
  td_prices :: "(string \<times> json) list"
  td_migration :: "string option"

section \<open>Immutable rows\<close>

definition put_immutable :: "string \<Rightarrow> json \<Rightarrow> (string \<times> json) list \<Rightarrow> (string \<times> json) list stored" where
  "put_immutable version document table = (let payload = canonical_json document in
     case map_of table version of
       None \<Rightarrow> Inr (AList.update version payload table)
     | Some existing \<Rightarrow> if existing = payload then Inr table else Inl (Refused ConcurrentUpdate))"

text \<open>A numbered row needs its task and a sequence number that is free within the task.\<close>

definition number_taken :: "(string \<times> ('s, 'p, 'm) evidence_row_scheme) list \<Rightarrow> string \<Rightarrow> nat \<Rightarrow> bool" where
  "number_taken table task n = list_ex (\<lambda>(k, r). er_task_id r = task \<and> er_sequence r = n) table"

definition insert_row :: "(string \<times> task_row) list \<Rightarrow> bool \<Rightarrow> string \<Rightarrow> ('s, 'p, 'm) evidence_row_scheme
    \<Rightarrow> (string \<times> ('s, 'p, 'm) evidence_row_scheme) list
    \<Rightarrow> (string \<times> ('s, 'p, 'm) evidence_row_scheme) list stored" where
  "insert_row tasks numbered identity row table =
     (if map_of tasks (er_task_id row) = None
        \<or> (numbered \<and> number_taken table (er_task_id row) (er_sequence row))
      then Inl Integrity_violation else Inr (AList.update identity row table))"

definition insert_immutable :: "(string \<times> task_row) list \<Rightarrow> bool \<Rightarrow> string \<Rightarrow> ('s, 'p, 'm) evidence_row_scheme
    \<Rightarrow> (string \<times> ('s, 'p, 'm) evidence_row_scheme) list
    \<Rightarrow> (string \<times> ('s, 'p, 'm) evidence_row_scheme) list stored" where
  "insert_immutable tasks numbered identity row table = (case map_of table identity of
       None \<Rightarrow> insert_row tasks numbered identity row table
     | Some existing \<Rightarrow> if er_payload existing = er_payload row then Inr table else Inl (Refused ConcurrentUpdate))"

definition next_sequence :: "(string \<times> outbox_row) list \<Rightarrow> string \<Rightarrow> nat" where
  "next_sequence outbox task =
     foldr max (map (ox_sequence \<circ> snd) (filter (\<lambda>(k, r). ox_task_id r = task) outbox)) 0 + 1"

definition insert_event :: "execution_event \<Rightarrow> task_db \<Rightarrow> task_db stored" where
  "insert_event event db = (case map_of (td_outbox db) (ev_event_id event) of
       None \<Rightarrow>
         if map_of (td_tasks db) (ev_task_id event) = None then Inl Integrity_violation
         else Inr (db\<lparr>td_outbox := AList.update (ev_event_id event)
           \<lparr>ox_task_id = ev_task_id event, ox_kind = ev_kind event,
            ox_sequence = next_sequence (td_outbox db) (ev_task_id event), ox_occurred_at = ev_occurred_at event,
            ox_payload = event, ox_acknowledged_at = None, ox_claim_owner = None, ox_claim_expires_at = None\<rparr>
           (td_outbox db)\<rparr>)
     | Some existing \<Rightarrow> if ox_payload existing = event then Inr db else Inl (Refused ConcurrentUpdate))"

section \<open>The evidence of a task\<close>

primrec attempt_status_name :: "attempt_status \<Rightarrow> string" where
  "attempt_status_name Attempt_started = ''started''"
| "attempt_status_name Attempt_succeeded = ''succeeded''"
| "attempt_status_name Attempt_failed = ''failed''"
| "attempt_status_name Attempt_unknown = ''unknown''"
| "attempt_status_name Attempt_cancelled = ''cancelled''"

primrec check_outcome_name :: "check_outcome \<Rightarrow> string" where
  "check_outcome_name Check_passed = ''passed''"
| "check_outcome_name Check_failed = ''failed''"
| "check_outcome_name Check_error = ''error''"
| "check_outcome_name Check_skipped = ''skipped''"

primrec shadow_status_name :: "shadow_status \<Rightarrow> string" where
  "shadow_status_name Shadow_skipped = ''skipped''"
| "shadow_status_name Shadow_started = ''started''"
| "shadow_status_name Shadow_succeeded = ''succeeded''"
| "shadow_status_name Shadow_failed = ''failed''"

definition save_verification :: "stored_task \<Rightarrow> string \<times> string \<times> string \<times> evidence \<Rightarrow> task_db \<Rightarrow> task_db stored" where
  "save_verification task item db = (case item of (kind, identity, status, payload) \<Rightarrow>
     (case map_of (td_verification db) identity of
        None \<Rightarrow> Inr (db\<lparr>td_verification := AList.update identity
          \<lparr>ve_task_id = tk_task_id task, ve_kind = kind, ve_status = status, ve_payload = payload\<rparr> (td_verification db)\<rparr>)
      | Some row \<Rightarrow>
          if ve_payload row = payload then Inr db
          else if ve_task_id row \<noteq> tk_task_id task \<or> ve_kind row \<noteq> kind \<or> ve_status row \<noteq> ''started''
            \<or> \<not> evidence_progression (ve_payload row) payload then Inl (Refused ConcurrentUpdate)
          else Inr (db\<lparr>td_verification := AList.update identity
            (row\<lparr>ve_status := status, ve_payload := payload\<rparr>) (td_verification db)\<rparr>)))"

definition verification_items :: "stored_task \<Rightarrow> (string \<times> string \<times> string \<times> evidence) list" where
  "verification_items task =
     map (\<lambda>a. (''evaluator'', at_attempt_id a, attempt_status_name (at_status a), Attempt_evidence (attempt_form a)))
       (tk_evaluator_attempts task)
     @ map (\<lambda>v. (''domain'', vo_evaluation_id v, check_outcome_name (vo_status v), Validation_evidence v))
         (tk_domain_validations task)
     @ map (\<lambda>h. (''health'', tk_task_id task @ '':'' @ sn_snapshot_id h, ''final'', Health_evidence h))
         (tk_health_snapshots task)
     @ map (\<lambda>w. (''shadow'', sw_shadow_id w, shadow_status_name (sw_status w), Shadow_evidence (shadow_form w)))
         (tk_shadow_runs task)"

definition stored_decisions :: "stored_task \<Rightarrow> route_result list" where
  "stored_decisions task = (case tk_initial_decision task of
     None \<Rightarrow> tk_decisions task
   | Some d \<Rightarrow> if list_all (\<lambda>r. result_id r \<noteq> result_id d) (tk_decisions task)
       then d # tk_decisions task else tk_decisions task)"

definition routing_result_name :: "route_result \<Rightarrow> string" where
  "routing_result_name r = (case r of Decision d \<Rightarrow> ''valid'' | Rejection d \<Rightarrow> ''rejected'')"

definition persist_decision :: "stored_task \<Rightarrow> nat \<times> route_result \<Rightarrow> task_db \<Rightarrow> task_db stored" where
  "persist_decision task item db = (case item of (n, r) \<Rightarrow>
     bind_st (insert_immutable (td_tasks db) True (result_id r)
       \<lparr>er_task_id = tk_task_id task, er_sequence = n, er_status = routing_result_name r, er_payload = route_form id r\<rparr>
       (td_decisions db)) (\<lambda>table. Inr (db\<lparr>td_decisions := table\<rparr>)))"

definition persist_evaluation :: "stored_task \<Rightarrow> attempt \<Rightarrow> nat \<times> validation_outcome \<Rightarrow> task_db \<Rightarrow> task_db stored" where
  "persist_evaluation task a item db = (case item of (n, v) \<Rightarrow>
     bind_st (insert_immutable (td_tasks db) False (vo_evaluation_id v)
       \<lparr>er_task_id = tk_task_id task, er_sequence = n, er_status = vo_status v, er_payload = v,
        er_attempt_id = at_attempt_id a\<rparr>
       (td_evaluations db)) (\<lambda>table. Inr (db\<lparr>td_evaluations := table\<rparr>)))"

definition persist_attempt_row :: "stored_task \<Rightarrow> attempt \<Rightarrow> task_db \<Rightarrow> task_db stored" where
  "persist_attempt_row task a db = (let payload = attempt_form a in
     case map_of (td_attempts db) (at_attempt_id a) of
       None \<Rightarrow> bind_st (insert_row (td_tasks db) True (at_attempt_id a)
           \<lparr>er_task_id = tk_task_id task, er_sequence = at_sequence a, er_status = at_status a, er_payload = payload\<rparr>
           (td_attempts db)) (\<lambda>table. Inr (db\<lparr>td_attempts := table\<rparr>))
     | Some existing \<Rightarrow>
         if er_payload existing = payload then Inr db
         else if er_status existing \<noteq> Attempt_started \<or> \<not> valid_attempt_progression (er_payload existing) payload
         then Inl (Refused ConcurrentUpdate)
         else Inr (db\<lparr>td_attempts := AList.update (at_attempt_id a)
           (existing\<lparr>er_status := at_status a, er_payload := payload\<rparr>) (td_attempts db)\<rparr>))"

definition persist_attempt :: "stored_task \<Rightarrow> attempt \<Rightarrow> task_db \<Rightarrow> task_db stored" where
  "persist_attempt task a db =
     bind_st (persist_attempt_row task a db) (fold_st (persist_evaluation task a) (enumerate 0 (at_validations a)))"

definition persist_tool :: "stored_task \<Rightarrow> nat \<times> tool_outcome \<Rightarrow> task_db \<Rightarrow> task_db stored" where
  "persist_tool task item db = (case item of (n, e) \<Rightarrow>
     (case map_of (td_tools db) (to_tool_event_id e) of
        None \<Rightarrow> bind_st (insert_row (td_tasks db) False (to_tool_event_id e)
            \<lparr>er_task_id = tk_task_id task, er_sequence = n, er_status = to_status e, er_payload = e\<rparr>
            (td_tools db)) (\<lambda>table. Inr (db\<lparr>td_tools := table\<rparr>))
      | Some existing \<Rightarrow>
          if er_payload existing = e then Inr db
          else if er_status existing \<noteq> Tool_started \<or> to_status e = Tool_started
            \<or> \<not> valid_tool_progression (er_payload existing) e
          then Inl (Refused ConcurrentUpdate)
          else Inr (db\<lparr>td_tools := AList.update (to_tool_event_id e)
            (existing\<lparr>er_status := to_status e, er_payload := e\<rparr>) (td_tools db)\<rparr>)))"

definition persist_phase4 :: "stored_task \<Rightarrow> task_db \<Rightarrow> task_db stored" where
  "persist_phase4 task db = (case tk_phase4_version task of
     None \<Rightarrow> Inr db
   | Some version \<Rightarrow> bind_st (put_immutable (''phase4:'' @ version)
       (case tk_phase4_config task of None \<Rightarrow> JNull | Some config \<Rightarrow> config) (td_policies db))
       (\<lambda>table. Inr (db\<lparr>td_policies := table\<rparr>)))"

definition persist_children :: "stored_task \<Rightarrow> task_db \<Rightarrow> task_db stored" where
  "persist_children task db =
     bind_st (persist_phase4 task db) (\<lambda>db.
     bind_st (fold_st (save_verification task) (verification_items task) db) (\<lambda>db.
     bind_st (fold_st (persist_decision task) (enumerate 0 (stored_decisions task)) db) (\<lambda>db.
     bind_st (fold_st (persist_attempt task) (tk_attempts task) db) (\<lambda>db.
     fold_st (persist_tool task) (enumerate 0 (tk_tool_events task)) db))))"

section \<open>Tasks\<close>

definition new_row :: "stored_task \<Rightarrow> string \<Rightarrow> string option \<Rightarrow> string \<Rightarrow> task_row" where
  "new_row task scope key_digest request_digest =
     \<lparr>tr_trace_id = tk_trace_id task, tr_status = tk_status task, tr_policy_version = tk_policy_version task,
      tr_created_at = tk_created_at task, tr_updated_at = tk_updated_at task, tr_revision = tk_revision task,
      tr_idempotency_scope = scope, tr_key_digest = key_digest, tr_request_digest = request_digest,
      tr_payload = task_payload task\<rparr>"

definition find_duplicate :: "task_db \<Rightarrow> string \<Rightarrow> string \<Rightarrow> string option \<Rightarrow> task_row option stored" where
  "find_duplicate db task_id scope key_digest = (case map_of (td_tasks db) task_id of
     Some row \<Rightarrow> if tr_idempotency_scope row \<noteq> scope then Inl (Refused IdempotencyConflict) else Inr (Some row)
   | None \<Rightarrow> (case key_digest of None \<Rightarrow> Inr None
       | Some key \<Rightarrow> Inr (map_option snd
           (find (\<lambda>(k, r). tr_idempotency_scope r = scope \<and> tr_key_digest r = Some key) (td_tasks db)))))"

definition resolve_duplicate :: "task_row \<Rightarrow> string \<Rightarrow> stored_task stored" where
  "resolve_duplicate row request_digest =
     (if tr_request_digest row \<noteq> request_digest then Inl (Refused IdempotencyConflict) else Inr (tr_payload row))"

definition create_body :: "stored_task \<Rightarrow> execution_event \<Rightarrow> string \<Rightarrow> string option \<Rightarrow> string \<Rightarrow> task_db
    \<Rightarrow> (stored_task option \<times> task_db) stored" where
  "create_body task event scope key_digest request_digest db =
     bind_st (find_duplicate db (tk_task_id task) scope key_digest) (\<lambda>duplicate.
     case duplicate of
       Some row \<Rightarrow> bind_st (resolve_duplicate row request_digest) (\<lambda>existing. Inr (Some existing, db))
     | None \<Rightarrow>
         bind_st (insert_event event (db\<lparr>td_tasks := AList.update (tk_task_id task)
           (new_row task scope key_digest request_digest) (td_tasks db)\<rparr>)) (\<lambda>db'. Inr (None, db')))"

text \<open>
  The except clauses of \<open>create\<close>. On a violated constraint the code looks once more for the
  duplicate that a concurrent claimant may have stored.
\<close>

definition recheck_duplicate :: "bool \<Rightarrow> stored_task \<Rightarrow> string \<Rightarrow> string option \<Rightarrow> string \<Rightarrow> task_db
    \<Rightarrow> stored_task option res" where
  "recheck_duplicate reads task scope key_digest request_digest db =
     (if \<not> reads then Inl RepositoryUnavailable
      else (case find_duplicate db (tk_task_id task) scope key_digest of
          Inr (Some row) \<Rightarrow> (case resolve_duplicate row request_digest of
              Inr existing \<Rightarrow> Inr (Some existing) | Inl (Refused e) \<Rightarrow> Inl e | Inl _ \<Rightarrow> Inl RepositoryUnavailable)
        | Inl (Refused e) \<Rightarrow> Inl e
        | _ \<Rightarrow> Inl RepositoryUnavailable))"

definition create_task :: "store_outcome \<Rightarrow> bool \<Rightarrow> stored_task \<Rightarrow> execution_event \<Rightarrow> string \<Rightarrow> string option \<Rightarrow> string
    \<Rightarrow> task_db \<Rightarrow> stored_task option res \<times> task_db" where
  "create_task st reads task event scope key_digest request_digest db =
     (if ev_task_id event \<noteq> tk_task_id task \<or> ev_kind event \<noteq> TASK_CREATED then (Inl ValueError, db)
      else if scope = [] \<or> request_digest = [] then (Inl ValueError, db)
      else if tk_application_id task \<noteq> None \<and> tk_application_id task \<noteq> Some scope then (Inl IdempotencyConflict, db)
      else (case session st (create_body task event scope key_digest request_digest) db of
          (Inr x, db') \<Rightarrow> (Inr x, db')
        | (Inl (Refused e), db') \<Rightarrow> (Inl e, db')
        | (Inl Integrity_violation, db') \<Rightarrow> (recheck_duplicate reads task scope key_digest request_digest db', db')
        | (Inl Database_error, db') \<Rightarrow> (Inl RepositoryUnavailable, db')))"

definition advance_row :: "stored_task \<Rightarrow> nat \<Rightarrow> task_db \<Rightarrow> task_db stored" where
  "advance_row task expected db = (case map_of (td_tasks db) (tk_task_id task) of
     None \<Rightarrow> Inl (Refused ConcurrentUpdate)
   | Some row \<Rightarrow>
       if tr_revision row \<noteq> expected then Inl (Refused ConcurrentUpdate)
       else Inr (db\<lparr>td_tasks := AList.update (tk_task_id task)
         (row\<lparr>tr_trace_id := tk_trace_id task, tr_status := tk_status task, tr_policy_version := tk_policy_version task,
              tr_updated_at := tk_updated_at task, tr_revision := tk_revision task,
              tr_payload := task_payload task\<rparr>) (td_tasks db)\<rparr>))"

definition save_body :: "stored_task \<Rightarrow> execution_event list \<Rightarrow> nat \<Rightarrow> string option \<Rightarrow> task_db \<Rightarrow> (unit \<times> task_db) stored" where
  "save_body task events expected scope db = (case map_of (td_tasks db) (tk_task_id task) of
     None \<Rightarrow> Inl (Refused ConcurrentUpdate)
   | Some row \<Rightarrow>
       bind_st (check_st (tr_revision row = expected) (Refused ConcurrentUpdate)) (\<lambda>_.
       bind_st (check_st (scope = None \<or> scope = Some (tr_idempotency_scope row)) (Refused IdempotencyConflict)) (\<lambda>_.
       bind_st (check_st (verify_task_progression (tr_payload row) task) (Refused ConcurrentUpdate)) (\<lambda>_.
       bind_st (persist_children task db) (\<lambda>db.
       bind_st (advance_row task expected db) (\<lambda>db.
       bind_st (fold_st insert_event events db) (\<lambda>db. Inr ((), db))))))))"

definition save_task :: "store_outcome \<Rightarrow> stored_task \<Rightarrow> execution_event list \<Rightarrow> nat \<Rightarrow> string option \<Rightarrow> task_db
    \<Rightarrow> unit res \<times> task_db" where
  "save_task st task events expected scope db =
     (if tk_revision task \<noteq> expected + 1 then (Inl ConcurrentUpdate, db)
      else if list_ex (\<lambda>e. ev_task_id e \<noteq> tk_task_id task) events then (Inl ValueError, db)
      else (case session st (save_body task events expected scope) db of
          (Inr x, db') \<Rightarrow> (Inr x, db')
        | (Inl (Refused e), db') \<Rightarrow> (Inl e, db')
        | (Inl Integrity_violation, db') \<Rightarrow> (Inl ConcurrentUpdate, db')
        | (Inl Database_error, db') \<Rightarrow> (Inl RepositoryUnavailable, db')))"

definition get_task :: "bool \<Rightarrow> string \<Rightarrow> string option \<Rightarrow> task_db \<Rightarrow> stored_task option res" where
  "get_task reads task_id scope db =
     (if \<not> reads then Inl RepositoryUnavailable
      else (case map_of (td_tasks db) task_id of
          None \<Rightarrow> Inr None
        | Some row \<Rightarrow> if scope \<noteq> None \<and> scope \<noteq> Some (tr_idempotency_scope row) then Inl IdempotencyConflict
            else Inr (Some (tr_payload row))))"

definition get_scoped :: "bool \<Rightarrow> string \<Rightarrow> string \<Rightarrow> task_db \<Rightarrow> stored_task option res" where
  "get_scoped reads task_id scope db = (if scope = [] then Inl ValueError else get_task reads task_id (Some scope) db)"

end
