(* ===== verification/TaskOutbox.thy ===== *)
theory TaskOutbox
  imports TaskStore
begin

text \<open>
  The delivery side of \<^verbatim>\<open>SQLTaskRepository\<close>: the outbox of events with its leases, the recovery
  journal, the immutable version snapshots and the readiness report. The journal is the text file
  of \<^verbatim>\<open>retain_pending\<close>, as the lines that \<^verbatim>\<open>splitlines\<close> gives. An append can be torn: it then leaves a
  fragment without a line end, to which the next append is glued. The steps of the file system that
  can fail are parameters, as the outcome of a session is.
\<close>

section \<open>Outbox\<close>

definition seconds :: "int \<Rightarrow> int" where
  "seconds n = n * ms 1000"

definition outbox_order :: "(string \<times> outbox_row) list \<Rightarrow> (string \<times> outbox_row) list" where
  "outbox_order rows = sort_key (\<lambda>(k, r). (ox_occurred_at r, ox_sequence r, k)) rows"

definition unacknowledged :: "outbox_row \<Rightarrow> bool" where
  "unacknowledged r = (ox_acknowledged_at r = None)"

definition pending_outbox :: "bool \<Rightarrow> int \<Rightarrow> task_db \<Rightarrow> execution_event list res" where
  "pending_outbox reads limit db =
     (if limit \<le> 0 then Inr []
      else if \<not> reads then Inl RepositoryUnavailable
      else Inr (map (ox_payload \<circ> snd)
        (take (nat limit) (outbox_order (filter (unacknowledged \<circ> snd) (td_outbox db))))))"

definition claimable :: "instant \<Rightarrow> string \<Rightarrow> outbox_row \<Rightarrow> bool" where
  "claimable now owner r = (unacknowledged r
     \<and> (ox_claim_owner r = None
        \<or> (case ox_claim_expires_at r of None \<Rightarrow> True | Some t \<Rightarrow> t \<le> now)
        \<or> ox_claim_owner r = Some owner))"

definition lease :: "string \<Rightarrow> instant \<Rightarrow> string \<times> outbox_row \<Rightarrow> (string \<times> outbox_row) list \<Rightarrow> (string \<times> outbox_row) list" where
  "lease owner expires item table = (case item of (k, r) \<Rightarrow>
     AList.update k (r\<lparr>ox_claim_owner := Some owner, ox_claim_expires_at := Some expires\<rparr>) table)"

definition claim_body :: "instant \<Rightarrow> string \<Rightarrow> nat \<Rightarrow> instant \<Rightarrow> task_db \<Rightarrow> (execution_event list \<times> task_db) stored" where
  "claim_body now owner limit expires db =
     (let rows = take limit (outbox_order (filter (claimable now owner \<circ> snd) (td_outbox db)))
      in Inr (map (ox_payload \<circ> snd) rows, db\<lparr>td_outbox := fold (lease owner expires) rows (td_outbox db)\<rparr>))"

definition claim_outbox :: "store_outcome \<Rightarrow> instant \<Rightarrow> string \<Rightarrow> int \<Rightarrow> int \<Rightarrow> task_db
    \<Rightarrow> execution_event list res \<times> task_db" where
  "claim_outbox st now owner limit lease_seconds db =
     (if owner = [] then (Inl ValueError, db)
      else if limit \<le> 0 then (Inr [], db)
      else if lease_seconds \<le> 0 then (Inl ValueError, db)
      else plain_session st (claim_body now owner (nat limit) (now + seconds lease_seconds)) db)"

definition ack_body :: "instant \<Rightarrow> instant \<Rightarrow> string \<Rightarrow> string option \<Rightarrow> task_db \<Rightarrow> (bool \<times> task_db) stored" where
  "ack_body now later event_id owner db = (case map_of (td_outbox db) event_id of
     None \<Rightarrow> Inr (False, db)
   | Some row \<Rightarrow>
       if ox_acknowledged_at row \<noteq> None
       then Inr (owner = None \<or> ox_claim_owner row = None \<or> ox_claim_owner row = owner, db)
       else if ox_claim_owner row \<noteq> None \<and> ox_claim_owner row \<noteq> owner then Inr (False, db)
       else if ox_claim_owner row \<noteq> None
         \<and> (case ox_claim_expires_at row of None \<Rightarrow> False | Some t \<Rightarrow> t \<le> now) then Inr (False, db)
       else Inr (True, db\<lparr>td_outbox := AList.update event_id
         (row\<lparr>ox_acknowledged_at := Some later\<rparr>) (td_outbox db)\<rparr>))"

definition ack_outbox :: "store_outcome \<Rightarrow> instant \<Rightarrow> instant \<Rightarrow> string \<Rightarrow> string option \<Rightarrow> task_db \<Rightarrow> bool res \<times> task_db" where
  "ack_outbox st now later event_id owner db = plain_session st (ack_body now later event_id owner) db"

definition ensure_events :: "store_outcome \<Rightarrow> execution_event list \<Rightarrow> task_db \<Rightarrow> unit res \<times> task_db" where
  "ensure_events st events db =
     plain_session st (\<lambda>db. bind_st (fold_st insert_event events db) (\<lambda>db'. Inr ((), db'))) db"

section \<open>Recovery journal\<close>

datatype journal_line =
    Journal_record nat stored_task "execution_event list"
  | Journal_text string
  | Journal_glued string journal_line

record journal =
  jn_lines :: "journal_line list"
  jn_torn :: string

datatype append_outcome = Append_ok | Append_failed | Append_torn string | Append_lost_ack

definition empty_journal :: journal where
  "empty_journal = \<lparr>jn_lines = [], jn_torn = []\<rparr>"

definition append_line :: "journal_line \<Rightarrow> journal \<Rightarrow> journal" where
  "append_line line j = \<lparr>jn_lines = jn_lines j @
     [if jn_torn j = [] then line else Journal_glued (jn_torn j) line], jn_torn = []\<rparr>"

definition retain_pending :: "append_outcome \<Rightarrow> stored_task \<Rightarrow> execution_event list \<Rightarrow> journal option
    \<Rightarrow> unit res \<times> journal option" where
  "retain_pending io task events file =
     (let line = Journal_record (tk_revision task - 1) (task_payload task) events;
          j = (case file of None \<Rightarrow> empty_journal | Some j \<Rightarrow> j)
      in case io of
           Append_ok \<Rightarrow> (Inr (), Some (append_line line j))
         | Append_lost_ack \<Rightarrow> (Inl RepositoryUnavailable, Some (append_line line j))
         | Append_torn fragment \<Rightarrow> (Inl RepositoryUnavailable, Some (j\<lparr>jn_torn := jn_torn j @ fragment\<rparr>))
         | Append_failed \<Rightarrow> (Inl RepositoryUnavailable, file))"

definition file_lines :: "journal \<Rightarrow> journal_line list" where
  "file_lines j = (if jn_torn j = [] then jn_lines j else jn_lines j @ [Journal_text (jn_torn j)])"

definition blank_line :: "journal_line \<Rightarrow> bool" where
  "blank_line line = (case line of Journal_text s \<Rightarrow> blank_text s | _ \<Rightarrow> False)"

definition replay :: "bool \<times> store_outcome \<Rightarrow> nat \<Rightarrow> stored_task \<Rightarrow> execution_event list \<Rightarrow> task_db \<Rightarrow> unit res \<times> task_db" where
  "replay w expected task events db = (case get_task (fst w) (tk_task_id task) None db of
     Inl e \<Rightarrow> (Inl e, db)
   | Inr None \<Rightarrow> save_task (snd w) task events expected None db
   | Inr (Some existing) \<Rightarrow>
       if tk_revision existing = tk_revision task
       then if task_payload existing \<noteq> task_payload task then (Inl ConcurrentUpdate, db)
            else ensure_events (snd w) events db
       else save_task (snd w) task events expected None db)"

text \<open>
  One pass over the lines: what must be retained, how many were replayed, and the database. Each
  line meets its own behaviour \<open>w n\<close> of the database.
\<close>

primrec replay_lines :: "(nat \<Rightarrow> bool \<times> store_outcome) \<Rightarrow> nat \<Rightarrow> journal_line list \<Rightarrow> task_db
    \<Rightarrow> journal_line list \<times> nat \<times> task_db" where
  "replay_lines w n [] db = ([], 0, db)"
| "replay_lines w n (line # lines) db =
     (if blank_line line then replay_lines w (Suc n) lines db
      else (case line of
          Journal_record expected task events \<Rightarrow>
            (case replay (w n) expected task events db of
               (Inr _, db') \<Rightarrow> (case replay_lines w (Suc n) lines db' of
                   (kept_lines, replayed, db'') \<Rightarrow> (kept_lines, Suc replayed, db''))
             | (Inl _, db') \<Rightarrow> (case replay_lines w (Suc n) lines db' of
                   (kept_lines, replayed, db'') \<Rightarrow> (line # kept_lines, replayed, db'')))
        | _ \<Rightarrow> (case replay_lines w (Suc n) lines db of
                   (kept_lines, replayed, db'') \<Rightarrow> (line # kept_lines, replayed, db''))))"

record journal_io =
  ji_locks :: bool
  ji_reads :: bool
  ji_replaces :: store_outcome

definition replace_journal :: "store_outcome \<Rightarrow> journal_line list \<Rightarrow> journal option \<Rightarrow> unit res \<times> journal option" where
  "replace_journal io lines file = (case io of
     Store_failed \<Rightarrow> (Inl RepositoryUnavailable, file)
   | Store_ok \<Rightarrow> (Inr (), Some \<lparr>jn_lines = lines, jn_torn = []\<rparr>)
   | Store_lost_ack \<Rightarrow> (Inl RepositoryUnavailable, Some \<lparr>jn_lines = lines, jn_torn = []\<rparr>))"

definition reconcile_unlocked :: "journal_io \<Rightarrow> (nat \<Rightarrow> bool \<times> store_outcome) \<Rightarrow> journal option \<Rightarrow> task_db
    \<Rightarrow> nat res \<times> journal option \<times> task_db" where
  "reconcile_unlocked io w file db = (case file of
     None \<Rightarrow> (Inr 0, file, db)
   | Some j \<Rightarrow>
       if \<not> ji_reads io then (Inl RepositoryUnavailable, file, db)
       else (case replay_lines w 0 (file_lines j) db of (retained, replayed, db') \<Rightarrow>
         (case replace_journal (ji_replaces io) retained file of
            (Inl e, file') \<Rightarrow> (Inl e, file', db') | (Inr _, file') \<Rightarrow> (Inr replayed, file', db'))))"

definition reconcile_pending :: "journal_io \<Rightarrow> (nat \<Rightarrow> bool \<times> store_outcome) \<Rightarrow> journal option \<Rightarrow> task_db
    \<Rightarrow> nat res \<times> journal option \<times> task_db" where
  "reconcile_pending io w file db =
     (if \<not> ji_locks io then (Inl RepositoryUnavailable, file, db) else reconcile_unlocked io w file db)"

section \<open>Readiness\<close>

record storage_readiness =
  sr_ready :: bool
  sr_migration_revision :: "string option"
  sr_journal_pending :: bool
  sr_outbox_pending :: "nat option"
  sr_reason :: "string option"

definition outbox_backlog :: "task_db \<Rightarrow> nat" where
  "outbox_backlog db = length (filter (unacknowledged \<circ> snd) (td_outbox db))"

definition journal_has_text :: "journal option \<Rightarrow> bool" where
  "journal_has_text file = (case file of None \<Rightarrow> False | Some j \<Rightarrow> \<not> list_all blank_line (file_lines j))"

definition storage_ready :: "bool \<Rightarrow> journal_io \<Rightarrow> int \<Rightarrow> journal option \<Rightarrow> task_db \<Rightarrow> storage_readiness res" where
  "storage_ready reads io max_pending file db =
     (if max_pending < 0 then Inl ValueError
      else if \<not> reads \<or> \<not> ji_locks io \<or> (file \<noteq> None \<and> \<not> ji_reads io)
      then Inr \<lparr>sr_ready = False, sr_migration_revision = None, sr_journal_pending = True,
                sr_outbox_pending = None, sr_reason = Some ''storage_unavailable''\<rparr>
      else
        let reason = (if journal_has_text file then Some ''recovery_journal_pending''
              else if int (outbox_backlog db) > max_pending then Some ''outbox_backlog_exceeded'' else None)
        in Inr \<lparr>sr_ready = (reason = None), sr_migration_revision = td_migration db,
                sr_journal_pending = journal_has_text file, sr_outbox_pending = Some (outbox_backlog db),
                sr_reason = reason\<rparr>)"

definition current_migration_revision :: "bool \<Rightarrow> task_db \<Rightarrow> string option res" where
  "current_migration_revision reads db = (if reads then Inr (td_migration db) else Inl RepositoryUnavailable)"

end
