(* ===== verification/VersionStore.thy ===== *)
theory VersionStore
  imports TaskStore
begin

text \<open>
  The immutable snapshots of \<^verbatim>\<open>SQLTaskRepository\<close>: \<^verbatim>\<open>pin_versions\<close> and the methods that store one
  version. A snapshot is a dict of JSON values; the guards of the code look at the kind of a value
  before they read it.
\<close>

text \<open>The price of one model: its version, the model's name and the snapshot to store.\<close>

definition model_price :: "string \<times> json \<Rightarrow> (string \<times> string \<times> json) res" where
  "model_price item = (case item of (model_alias, model) \<Rightarrow>
     (case as_map (Some model) of
        None \<Rightarrow> Inl ValueError
      | Some m \<Rightarrow> (case as_map (map_of m ''pricing'') of
          None \<Rightarrow> Inl ValueError
        | Some price \<Rightarrow> (case as_text (map_of price ''version'') of
            None \<Rightarrow> Inl ValueError
          | Some version \<Rightarrow>
              if version = [] then Inl ValueError
              else Inr (version, model_alias, JMap
                [(''model_alias'', JString model_alias),
                 (''provider_model_id'', case map_of m ''provider_model_id'' of None \<Rightarrow> JNull | Some j \<Rightarrow> j),
                 (''pricing_version'', JString version), (''pricing'', JMap price)])))))"

definition storage_version :: "(string \<times> string \<times> json) list \<Rightarrow> string \<times> string \<times> json \<Rightarrow> string" where
  "storage_version prices item = (case item of (version, model_alias, document) \<Rightarrow>
     if length (filter (\<lambda>(v, _, _). v = version) prices) = 1 then version else version @ '':'' @ model_alias)"

definition put_price :: "(string \<times> string \<times> json) list \<Rightarrow> string \<times> string \<times> json \<Rightarrow> task_db \<Rightarrow> task_db stored" where
  "put_price prices item db =
     bind_st (put_immutable (storage_version prices item) (snd (snd item)) (td_prices db))
       (\<lambda>table. Inr (db\<lparr>td_prices := table\<rparr>))"

definition pin_body :: "string \<Rightarrow> (string \<times> json) list \<Rightarrow> string \<Rightarrow> (string \<times> json) list \<Rightarrow> (string \<times> string \<times> json) list
    \<Rightarrow> task_db \<Rightarrow> (unit \<times> task_db) stored" where
  "pin_body policy_version policy catalog_version catalog prices db =
     bind_st (put_immutable policy_version (JMap policy) (td_policies db)) (\<lambda>policies.
     bind_st (put_immutable catalog_version (JMap catalog) (td_catalogs db)) (\<lambda>catalogs.
     bind_st (fold_st (put_price prices) prices (db\<lparr>td_policies := policies, td_catalogs := catalogs\<rparr>)) (\<lambda>db'.
     Inr ((), db'))))"

definition check_policy_snapshot :: "string \<Rightarrow> (string \<times> json) list \<Rightarrow> unit res" where
  "check_policy_snapshot policy_version policy =
     bind_res (check_res (case as_map (map_of policy ''policy'') of None \<Rightarrow> False
        | Some pinned \<Rightarrow> as_text (map_of pinned ''version'') = Some policy_version) ValueError) (\<lambda>_.
     bind_res (check_res (as_map (map_of policy ''budgets'') \<noteq> None
        \<and> as_map (map_of policy ''validation'') \<noteq> None) ValueError) (\<lambda>_.
     check_res (case as_text (map_of policy ''content_hash'') of None \<Rightarrow> False | Some h \<Rightarrow> h \<noteq> []) ValueError))"

definition catalog_prices :: "string \<Rightarrow> (string \<times> json) list \<Rightarrow> (string \<times> string \<times> json) list res" where
  "catalog_prices catalog_version catalog =
     bind_res (check_res (as_text (map_of catalog ''catalog_version'') = Some catalog_version) ValueError) (\<lambda>_.
     case as_map (map_of catalog ''models'') of
       None \<Rightarrow> Inl ValueError
     | Some models \<Rightarrow> map_res model_price models)"

definition pin_versions :: "store_outcome \<Rightarrow> string \<Rightarrow> (string \<times> json) list \<Rightarrow> string \<Rightarrow> (string \<times> json) list
    \<Rightarrow> task_db \<Rightarrow> unit res \<times> task_db" where
  "pin_versions st policy_version policy catalog_version catalog db =
     (case bind_res (check_policy_snapshot policy_version policy) (\<lambda>_. catalog_prices catalog_version catalog) of
        Inl e \<Rightarrow> (Inl e, db)
      | Inr prices \<Rightarrow> plain_session st (pin_body policy_version policy catalog_version catalog prices) db)"

datatype version_table = Policy_versions | Catalog_versions | Pricing_versions

definition store_immutable :: "store_outcome \<Rightarrow> version_table \<Rightarrow> string \<Rightarrow> json \<Rightarrow> task_db \<Rightarrow> unit res \<times> task_db" where
  "store_immutable st which version document db = plain_session st (\<lambda>db. case which of
       Policy_versions \<Rightarrow> bind_st (put_immutable version document (td_policies db)) (\<lambda>t. Inr ((), db\<lparr>td_policies := t\<rparr>))
     | Catalog_versions \<Rightarrow> bind_st (put_immutable version document (td_catalogs db)) (\<lambda>t. Inr ((), db\<lparr>td_catalogs := t\<rparr>))
     | Pricing_versions \<Rightarrow> bind_st (put_immutable version document (td_prices db)) (\<lambda>t. Inr ((), db\<lparr>td_prices := t\<rparr>))) db"

end
