(* ===== verification/TableFacts.thy ===== *)
theory TableFacts
  imports ProgressFacts TaskOutbox VersionStore
begin

text \<open>
  Tables in general: one table extends another when every row of the first is found again, under the
  same key, related by a given preorder; an insertion under a free key and a related replacement
  extend a table. Then the schema of the task database as a well-formedness predicate, and the
  relation \<open>extends\<close> between two states of the database, which every operation respects.
\<close>

section \<open>Errors in sessions\<close>

named_theorems store_simps

lemma bind_st_simps [simp, store_simps]: "bind_st (Inl e) f = Inl e" "bind_st (Inr x) f = f x"
  by (simp_all add: bind_st_def)

lemma bind_st_Inr [store_simps]: "bind_st m f = Inr y \<longleftrightarrow> (\<exists>x. m = Inr x \<and> f x = Inr y)"
  by (cases m) simp_all

lemma check_st_Inr [store_simps]: "check_st ok e = Inr u \<longleftrightarrow> ok"
  by (simp add: check_st_def)

lemma fold_st_relates:
  assumes "fold_st f xs s = Inr s'"
    and "\<And>x s s'. x \<in> set xs \<Longrightarrow> P s \<Longrightarrow> f x s = Inr s' \<Longrightarrow> R s s' \<and> P s'"
    and "P s" and "\<And>s. R s s" and "\<And>a b c. R a b \<Longrightarrow> R b c \<Longrightarrow> R a c"
  shows "R s s' \<and> P s'"
  using assms(1-3)
proof (induction xs arbitrary: s)
  case Nil
  then show ?case using assms(4) by simp
next
  case (Cons x xs)
  from Cons.prems(1) obtain t where t: "f x s = Inr t" and rest: "fold_st f xs t = Inr s'"
    by (auto simp: store_simps)
  have "R s t \<and> P t" using Cons.prems(2) [OF _ Cons.prems(3) t] by simp
  moreover from this have "R t s' \<and> P s'"
    using Cons.IH [OF rest] Cons.prems(2) by (metis list.set_intros(2))
  ultimately show ?case using assms(5) by blast
qed

lemma session_cases:
  obtains (committed) x s' where "body s = Inr (x, s')" "st = Store_ok" "session st body s = (Inr x, s')"
  | (lost) x s' where "body s = Inr (x, s')" "st = Store_lost_ack" "session st body s = (Inl Database_error, s')"
  | (failed) e where "session st body s = (Inl e, s)"
  by (cases st; cases "body s") (auto simp: session_def)

lemma session_ok: "body s = Inr (x, s') \<Longrightarrow> session Store_ok body s = (Inr x, s')"
  by (simp add: session_def)

lemma plain_session_db: "snd (plain_session st body s) = snd (session st body s)"
  by (simp add: plain_session_def split: prod.splits sum.splits store_error.splits)

section \<open>Tables\<close>

definition table_extends :: "('r \<Rightarrow> 'r \<Rightarrow> bool) \<Rightarrow> ('k \<times> 'r) list \<Rightarrow> ('k \<times> 'r) list \<Rightarrow> bool" where
  "table_extends R t t' = (\<forall>k r. map_of t k = Some r \<longrightarrow> (\<exists>r'. map_of t' k = Some r' \<and> R r r'))"

lemma table_extendsI:
  "(\<And>k r. map_of t k = Some r \<Longrightarrow> \<exists>r'. map_of t' k = Some r' \<and> R r r') \<Longrightarrow> table_extends R t t'"
  by (simp add: table_extends_def)

lemma table_extendsD: "table_extends R t t' \<Longrightarrow> map_of t k = Some r \<Longrightarrow> \<exists>r'. map_of t' k = Some r' \<and> R r r'"
  by (simp add: table_extends_def)

lemma table_extends_refl: "(\<And>r. R r r) \<Longrightarrow> table_extends R t t"
  by (simp add: table_extends_def)

lemma table_extends_trans:
  "table_extends R a b \<Longrightarrow> table_extends R b c \<Longrightarrow> (\<And>x y z. R x y \<Longrightarrow> R y z \<Longrightarrow> R x z) \<Longrightarrow> table_extends R a c"
  unfolding table_extends_def by (metis (full_types))

lemma table_extends_dom: "table_extends R t t' \<Longrightarrow> map_of t k \<noteq> None \<Longrightarrow> map_of t' k \<noteq> None"
  by (auto simp: table_extends_def)

lemma table_insert: "map_of t k = None \<Longrightarrow> (\<And>r. R r r) \<Longrightarrow> table_extends R t (AList.update k x t)"
  by (auto simp: table_extends_def update_conv')

lemma table_replace: "map_of t k = Some r \<Longrightarrow> R r x \<Longrightarrow> (\<And>r. R r r) \<Longrightarrow> table_extends R t (AList.update k x t)"
  by (auto simp: table_extends_def update_conv')

lemma map_of_update: "map_of (AList.update k x t) k' = (if k' = k then Some x else map_of t k')"
  by (simp add: update_conv')

lemma distinct_rows: "distinct (map fst t) \<Longrightarrow> (k, r) \<in> set t \<longleftrightarrow> map_of t k = Some r"
  by (simp add: map_of_eq_Some_iff)

section \<open>The schema\<close>

definition wf_tasks :: "(string \<times> task_row) list \<Rightarrow> bool" where
  "wf_tasks tasks = (distinct (map fst tasks)
     \<and> (\<forall>k r. map_of tasks k = Some r \<longrightarrow> (let t = tr_payload r in
          tk_task_id t = k \<and> tk_trace_id t = tr_trace_id r \<and> tk_status t = tr_status r
          \<and> tk_policy_version t = tr_policy_version r \<and> tk_created_at t = tr_created_at r
          \<and> tk_updated_at t = tr_updated_at r \<and> tk_revision t = tr_revision r \<and> task_payload t = t))
     \<and> (\<forall>k k' r r'. map_of tasks k = Some r \<longrightarrow> map_of tasks k' = Some r' \<longrightarrow> tr_key_digest r \<noteq> None
          \<longrightarrow> tr_idempotency_scope r = tr_idempotency_scope r' \<longrightarrow> tr_key_digest r = tr_key_digest r' \<longrightarrow> k = k'))"

definition wf_rows :: "(string \<times> task_row) list \<Rightarrow> ('r \<Rightarrow> string) \<Rightarrow> (string \<Rightarrow> 'r \<Rightarrow> bool) \<Rightarrow> (string \<times> 'r) list \<Rightarrow> bool" where
  "wf_rows tasks owner ok table = (distinct (map fst table)
     \<and> (\<forall>k r. map_of table k = Some r \<longrightarrow> map_of tasks (owner r) \<noteq> None \<and> ok k r))"

definition unique_numbers :: "('r \<Rightarrow> string) \<Rightarrow> ('r \<Rightarrow> nat) \<Rightarrow> (string \<times> 'r) list \<Rightarrow> bool" where
  "unique_numbers owner number table = (\<forall>k k' r r'. map_of table k = Some r \<longrightarrow> map_of table k' = Some r'
     \<longrightarrow> owner r = owner r' \<longrightarrow> number r = number r' \<longrightarrow> k = k')"

definition decision_ok :: "string \<Rightarrow> (string, route_result) evidence_row \<Rightarrow> bool" where
  "decision_ok k r = (result_id (er_payload r) = k \<and> er_status r = routing_result_name (er_payload r))"

definition attempt_ok :: "string \<Rightarrow> (attempt_status, attempt) evidence_row \<Rightarrow> bool" where
  "attempt_ok k r = (at_attempt_id (er_payload r) = k \<and> er_status r = at_status (er_payload r)
     \<and> er_sequence r = at_sequence (er_payload r))"

definition tool_ok :: "string \<Rightarrow> (tool_status, tool_outcome) evidence_row \<Rightarrow> bool" where
  "tool_ok k r = (to_tool_event_id (er_payload r) = k \<and> er_status r = to_status (er_payload r))"

definition event_ok :: "string \<Rightarrow> outbox_row \<Rightarrow> bool" where
  "event_ok k r = (ev_event_id (ox_payload r) = k \<and> ev_task_id (ox_payload r) = ox_task_id r
     \<and> ev_kind (ox_payload r) = ox_kind r \<and> ev_occurred_at (ox_payload r) = ox_occurred_at r \<and> 0 < ox_sequence r)"

definition wf_db :: "task_db \<Rightarrow> bool" where
  "wf_db db = (wf_tasks (td_tasks db)
     \<and> wf_rows (td_tasks db) er_task_id decision_ok (td_decisions db)
     \<and> unique_numbers er_task_id er_sequence (td_decisions db)
     \<and> wf_rows (td_tasks db) er_task_id attempt_ok (td_attempts db)
     \<and> unique_numbers er_task_id er_sequence (td_attempts db)
     \<and> wf_rows (td_tasks db) er_task_id tool_ok (td_tools db)
     \<and> wf_rows (td_tasks db) er_task_id (\<lambda>k r. vo_evaluation_id (er_payload r) = k
          \<and> map_of (td_attempts db) (er_attempt_id r) \<noteq> None) (td_evaluations db)
     \<and> wf_rows (td_tasks db) ve_task_id (\<lambda>k r. True) (td_verification db)
     \<and> wf_rows (td_tasks db) ox_task_id event_ok (td_outbox db)
     \<and> unique_numbers ox_task_id ox_sequence (td_outbox db)
     \<and> distinct (map fst (td_policies db)) \<and> distinct (map fst (td_catalogs db)) \<and> distinct (map fst (td_prices db)))"

section \<open>What one state of the database keeps of another\<close>

definition row_ext :: "task_row \<Rightarrow> task_row \<Rightarrow> bool" where
  "row_ext r r' = (r' = r \<or> (tr_idempotency_scope r' = tr_idempotency_scope r \<and> tr_key_digest r' = tr_key_digest r
     \<and> tr_request_digest r' = tr_request_digest r \<and> tr_created_at r' = tr_created_at r
     \<and> tr_revision r < tr_revision r' \<and> task_extends (tr_payload r) (tr_payload r')))"

definition started_ext :: "'s \<Rightarrow> ('p \<Rightarrow> 'p \<Rightarrow> bool) \<Rightarrow> ('s, 'p) evidence_row \<Rightarrow> ('s, 'p) evidence_row \<Rightarrow> bool" where
  "started_ext started progression r r' = (r' = r \<or> (er_status r = started \<and> er_task_id r' = er_task_id r
     \<and> er_sequence r' = er_sequence r \<and> progression (er_payload r) (er_payload r')))"

definition verification_ext :: "verification_row \<Rightarrow> verification_row \<Rightarrow> bool" where
  "verification_ext r r' = (r' = r \<or> (ve_status r = ''started'' \<and> ve_task_id r' = ve_task_id r \<and> ve_kind r' = ve_kind r
     \<and> evidence_progression (ve_payload r) (ve_payload r')))"

definition event_ext :: "outbox_row \<Rightarrow> outbox_row \<Rightarrow> bool" where
  "event_ext r r' = (r' = r \<or> (ox_acknowledged_at r = None \<and> ox_task_id r' = ox_task_id r \<and> ox_kind r' = ox_kind r
     \<and> ox_sequence r' = ox_sequence r \<and> ox_occurred_at r' = ox_occurred_at r \<and> ox_payload r' = ox_payload r))"

definition extends :: "task_db \<Rightarrow> task_db \<Rightarrow> bool" where
  "extends db db' = (table_extends row_ext (td_tasks db) (td_tasks db')
     \<and> table_extends (=) (td_decisions db) (td_decisions db')
     \<and> table_extends (started_ext Attempt_started valid_attempt_progression) (td_attempts db) (td_attempts db')
     \<and> table_extends (started_ext Tool_started valid_tool_progression) (td_tools db) (td_tools db')
     \<and> table_extends (=) (td_evaluations db) (td_evaluations db')
     \<and> table_extends verification_ext (td_verification db) (td_verification db')
     \<and> table_extends event_ext (td_outbox db) (td_outbox db')
     \<and> table_extends (=) (td_policies db) (td_policies db')
     \<and> table_extends (=) (td_catalogs db) (td_catalogs db')
     \<and> table_extends (=) (td_prices db) (td_prices db')
     \<and> td_migration db' = td_migration db)"

lemma ext_refl [simp]: "row_ext r r" "started_ext s p q q" "verification_ext v v" "event_ext e e"
  by (simp_all add: row_ext_def started_ext_def verification_ext_def event_ext_def)

lemma row_ext_trans: "row_ext a b \<Longrightarrow> row_ext b c \<Longrightarrow> row_ext a c"
  using task_extends_trans [of "tr_payload a" "tr_payload b" "tr_payload c"]
  unfolding row_ext_def by (elim disjE conjE) simp_all

lemma started_ext_trans:
  assumes "started_ext s p a b" "started_ext s p b c" "\<And>x y z. p x y \<Longrightarrow> p y z \<Longrightarrow> p x z"
  shows "started_ext s p a c"
  using assms(1,2) assms(3) [of "er_payload a" "er_payload b" "er_payload c"]
  unfolding started_ext_def by (elim disjE conjE) simp_all

lemma verification_ext_trans: "verification_ext a b \<Longrightarrow> verification_ext b c \<Longrightarrow> verification_ext a c"
  using evidence_progression_trans [of "ve_payload a" "ve_payload b" "ve_payload c"]
  unfolding verification_ext_def by (elim disjE conjE) simp_all

lemma event_ext_trans: "event_ext a b \<Longrightarrow> event_ext b c \<Longrightarrow> event_ext a c"
  unfolding event_ext_def by (elim disjE conjE) simp_all

lemma extends_refl [simp]: "extends db db"
  by (simp add: extends_def table_extends_refl)

lemma table_extends_eq_trans:
  "table_extends (=) a b \<Longrightarrow> table_extends (=) b c \<Longrightarrow> table_extends (=) a c"
  by (erule table_extends_trans) simp_all

lemma extends_trans:
  assumes ab: "extends a b" and bc: "extends b c"
  shows "extends a c"
proof -
  note parts = ab [unfolded extends_def] bc [unfolded extends_def]
  have "table_extends row_ext (td_tasks a) (td_tasks c)"
    using parts row_ext_trans by (blast intro: table_extends_trans)
  moreover have "table_extends (started_ext Attempt_started valid_attempt_progression) (td_attempts a) (td_attempts c)"
    using parts by (blast intro: table_extends_trans started_ext_trans valid_attempt_progression_trans)
  moreover have "table_extends (started_ext Tool_started valid_tool_progression) (td_tools a) (td_tools c)"
    using parts by (blast intro: table_extends_trans started_ext_trans valid_tool_progression_trans)
  moreover have "table_extends verification_ext (td_verification a) (td_verification c)"
    using parts verification_ext_trans by (blast intro: table_extends_trans)
  moreover have "table_extends event_ext (td_outbox a) (td_outbox c)"
    using parts event_ext_trans by (blast intro: table_extends_trans)
  moreover have "table_extends (=) (td_decisions a) (td_decisions c)" "table_extends (=) (td_evaluations a) (td_evaluations c)"
      "table_extends (=) (td_policies a) (td_policies c)" "table_extends (=) (td_catalogs a) (td_catalogs c)"
      "table_extends (=) (td_prices a) (td_prices c)"
    using parts by (blast intro: table_extends_eq_trans)+
  ultimately show ?thesis using parts unfolding extends_def by simp
qed

end
