(* ===== verification/StoreFacts.thy ===== *)
theory StoreFacts
  imports TableFacts
begin

text \<open>
  Every operation of the task repository, whatever the database does to its session, takes a
  well-formed database to a well-formed one that extends it: schema constraints hold, and nothing
  that was recorded is lost or rewritten.
\<close>

section \<open>Well-formed tables\<close>

lemma wf_rows_insert:
  "wf_rows tasks owner ok t \<Longrightarrow> map_of tasks (owner x) \<noteq> None \<Longrightarrow> ok k x \<Longrightarrow> wf_rows tasks owner ok (AList.update k x t)"
  by (auto simp: wf_rows_def map_of_update distinct_update)

lemma wf_rows_tasks:
  "wf_rows tasks owner ok t \<Longrightarrow> (\<And>k. map_of tasks k \<noteq> None \<Longrightarrow> map_of tasks' k \<noteq> None) \<Longrightarrow> wf_rows tasks' owner ok t"
  unfolding wf_rows_def by blast

lemma wf_rows_weaken:
  "wf_rows tasks owner ok t \<Longrightarrow> (\<And>k r. ok k r \<Longrightarrow> ok' k r) \<Longrightarrow> wf_rows tasks owner ok' t"
  unfolding wf_rows_def by blast

lemma wf_rows_row: "wf_rows tasks owner ok t \<Longrightarrow> map_of t k = Some r \<Longrightarrow> map_of tasks (owner r) \<noteq> None \<and> ok k r"
  unfolding wf_rows_def by blast

lemma wf_rows_distinct: "wf_rows tasks owner ok t \<Longrightarrow> distinct (map fst t)"
  by (simp add: wf_rows_def)

lemma unique_numbers_insert:
  assumes "unique_numbers owner number t"
    and "\<And>k' r'. map_of t k' = Some r' \<Longrightarrow> k' \<noteq> k \<Longrightarrow> owner r' = owner x \<Longrightarrow> number r' \<noteq> number x"
  shows "unique_numbers owner number (AList.update k x t)"
  unfolding unique_numbers_def
proof (intro allI impI)
  fix a b r q
  assume rows: "map_of (AList.update k x t) a = Some r" "map_of (AList.update k x t) b = Some q"
    and same: "owner r = owner q" "number r = number q"
  show "a = b"
  proof (rule ccontr)
    assume "a \<noteq> b"
    then consider "a = k" "r = x" "map_of t b = Some q" "b \<noteq> k" | "b = k" "q = x" "map_of t a = Some r" "a \<noteq> k"
      | "map_of t a = Some r" "map_of t b = Some q"
      using rows by (cases "a = k"; cases "b = k") (simp_all add: map_of_update)
    then show False
    proof cases
      case 1
      then show ?thesis using assms(2) [of b q] same by simp
    next
      case 2
      then show ?thesis using assms(2) [of a r] same by simp
    next
      case 3
      then have "a = b" using same by (rule assms(1) [unfolded unique_numbers_def, rule_format])
      with \<open>a \<noteq> b\<close> show ?thesis by simp
    qed
  qed
qed

lemma unique_numbers_replace:
  assumes "unique_numbers owner number t" "map_of t k = Some r" "owner x = owner r" "number x = number r"
  shows "unique_numbers owner number (AList.update k x t)"
proof (rule unique_numbers_insert [OF assms(1)])
  fix k' r' assume "map_of t k' = Some r'" "k' \<noteq> k" "owner r' = owner x"
  then show "number r' \<noteq> number x" using assms(1) [unfolded unique_numbers_def, rule_format, of k' r' k r] assms(2-4) by auto
qed

lemma number_free: "\<not> number_taken t task n \<Longrightarrow> map_of t k = Some r \<Longrightarrow> er_task_id r = task \<Longrightarrow> er_sequence r \<noteq> n"
  by (auto simp: number_taken_def list_ex_iff dest: map_of_SomeD)

section \<open>The children of a task\<close>

text \<open>The context in which a save persists the evidence of its task, and what each step keeps.\<close>

definition saving :: "string \<Rightarrow> task_db \<Rightarrow> bool" where
  "saving task db = (wf_db db \<and> map_of (td_tasks db) task \<noteq> None)"

definition keeps_tasks :: "task_db \<Rightarrow> task_db \<Rightarrow> bool" where
  "keeps_tasks db db' = (extends db db' \<and> td_tasks db' = td_tasks db)"

lemma keeps_tasks_refl [simp]: "keeps_tasks db db"
  by (simp add: keeps_tasks_def)

lemma keeps_tasks_trans: "keeps_tasks a b \<Longrightarrow> keeps_tasks b c \<Longrightarrow> keeps_tasks a c"
  unfolding keeps_tasks_def using extends_trans by metis

lemma fold_keeps:
  assumes "fold_st f xs s = Inr s'" "saving task s"
    and "\<And>x s s'. x \<in> set xs \<Longrightarrow> saving task s \<Longrightarrow> f x s = Inr s' \<Longrightarrow> keeps_tasks s s' \<and> saving task s'"
  shows "keeps_tasks s s' \<and> saving task s'"
  using fold_st_relates [of f xs s s' "saving task" keeps_tasks, OF assms(1) assms(3) assms(2)] keeps_tasks_trans
  by simp

lemma put_immutable_Inr:
  "put_immutable v j t = Inr t' \<Longrightarrow> table_extends (=) t t' \<and> (distinct (map fst t) \<longrightarrow> distinct (map fst t'))
     \<and> map_of t' v = Some (canonical_json j)"
  by (auto simp: put_immutable_def Let_def map_of_update distinct_update table_extends_refl
      intro: table_insert split: option.splits if_splits)

lemma persist_phase4_keeps:
  assumes "persist_phase4 task db = Inr db'" "saving t db"
  shows "keeps_tasks db db' \<and> saving t db'"
proof (cases "tk_phase4_version task")
  case None
  then show ?thesis using assms by (simp add: persist_phase4_def)
next
  case (Some version)
  from assms(1) Some obtain table where
    put: "put_immutable (''phase4:'' @ version) (case tk_phase4_config task of None \<Rightarrow> JNull | Some config \<Rightarrow> config)
       (td_policies db) = Inr table" and db': "db' = db\<lparr>td_policies := table\<rparr>"
    by (auto simp: persist_phase4_def store_simps)
  show ?thesis using put_immutable_Inr [OF put] assms(2)
    unfolding db' keeps_tasks_def saving_def wf_db_def extends_def by (simp add: table_extends_refl)
qed

lemma verification_keeps:
  assumes "save_verification task item db = Inr db'" "saving (tk_task_id task) db"
  shows "keeps_tasks db db' \<and> saving (tk_task_id task) db'"
proof -
  obtain kind identity status payload where item: "item = (kind, identity, status, payload)" by (cases item)
  let ?t = "td_verification db"
  have wf: "wf_rows (td_tasks db) ve_task_id (\<lambda>k r. True) ?t" and task: "map_of (td_tasks db) (tk_task_id task) \<noteq> None"
    using assms(2) by (auto simp: saving_def wf_db_def)
  have step: "keeps_tasks db (db\<lparr>td_verification := AList.update identity x ?t\<rparr>)
      \<and> saving (tk_task_id task) (db\<lparr>td_verification := AList.update identity x ?t\<rparr>)"
    if "table_extends verification_ext ?t (AList.update identity x ?t)" "ve_task_id x = tk_task_id task" for x
    using that assms(2) wf_rows_insert [OF wf, of x] task
    unfolding keeps_tasks_def saving_def wf_db_def extends_def by (simp add: table_extends_refl)
  show ?thesis
  proof (cases "map_of ?t identity")
    case None
    let ?x = "\<lparr>ve_task_id = tk_task_id task, ve_kind = kind, ve_status = status, ve_payload = payload\<rparr>"
    have "db' = db\<lparr>td_verification := AList.update identity ?x ?t\<rparr>"
      using assms(1) None by (simp add: save_verification_def item)
    then show ?thesis using step [of ?x, OF table_insert [OF None]] by simp
  next
    case (Some row)
    let ?x = "row\<lparr>ve_status := status, ve_payload := payload\<rparr>"
    consider "db' = db" | "db' = db\<lparr>td_verification := AList.update identity ?x ?t\<rparr>" "ve_task_id row = tk_task_id task"
      "ve_status row = ''started''" "evidence_progression (ve_payload row) payload"
      using assms(1) Some by (auto simp: save_verification_def item split: if_splits)
    then show ?thesis
    proof cases
      case 2
      then have "verification_ext row ?x" by (simp add: verification_ext_def)
      then show ?thesis using step [of ?x, OF table_replace [OF Some]] 2 by simp
    qed (use assms(2) in simp)
  qed
qed

lemma insert_row_Inr:
  assumes "insert_row tasks numbered k x t = Inr t'"
  shows "t' = AList.update k x t" "map_of tasks (er_task_id x) \<noteq> None"
    "numbered \<longrightarrow> \<not> number_taken t (er_task_id x) (er_sequence x)"
  using assms by (auto simp: insert_row_def split: if_splits)

lemma insert_immutable_Inr:
  assumes "insert_immutable tasks numbered k x t = Inr t'"
  obtains (same) r where "t' = t" "map_of t k = Some r" "er_payload r = er_payload x"
  | (added) "t' = AList.update k x t" "map_of t k = None" "map_of tasks (er_task_id x) \<noteq> None"
      "numbered \<longrightarrow> \<not> number_taken t (er_task_id x) (er_sequence x)"
  using assms insert_row_Inr [of tasks numbered k x t t']
  by (auto simp: insert_immutable_def split: option.splits if_splits)

lemma routing_result_name_form [simp]: "routing_result_name (route_form f r) = routing_result_name r"
  by (simp add: routing_result_name_def route_form_def split: route_result.splits)

lemma persist_decision_keeps:
  assumes "persist_decision task item db = Inr db'" "saving t db"
  shows "keeps_tasks db db' \<and> saving t db'"
proof -
  obtain n r where item: "item = (n, r)" by (cases item)
  let ?x = "\<lparr>er_task_id = tk_task_id task, er_sequence = n, er_status = routing_result_name r, er_payload = route_form id r\<rparr>"
  from assms(1) obtain table where ins: "insert_immutable (td_tasks db) True (result_id r) ?x (td_decisions db) = Inr table"
    and db': "db' = db\<lparr>td_decisions := table\<rparr>"
    by (auto simp: persist_decision_def item store_simps)
  from ins show ?thesis
  proof (cases rule: insert_immutable_Inr)
    case (same r)
    then show ?thesis using assms(2) db' by simp
  next
    case added
    have wf: "wf_rows (td_tasks db) er_task_id decision_ok (td_decisions db)"
        "unique_numbers er_task_id er_sequence (td_decisions db)"
      using assms(2) by (simp_all add: saving_def wf_db_def)
    have "wf_rows (td_tasks db) er_task_id decision_ok table"
      unfolding added(1) by (rule wf_rows_insert [OF wf(1)]) (use added in \<open>simp_all add: decision_ok_def\<close>)
    moreover have "unique_numbers er_task_id er_sequence table"
      unfolding added(1) by (rule unique_numbers_insert [OF wf(2)]) (use added number_free in fastforce)
    moreover have "table_extends (=) (td_decisions db) table"
      unfolding added(1) by (rule table_insert [OF added(2)]) simp
    ultimately show ?thesis using assms(2)
      unfolding db' keeps_tasks_def saving_def wf_db_def extends_def by (simp add: table_extends_refl)
  qed
qed

lemma persist_evaluation_keeps:
  assumes "persist_evaluation task a item db = Inr db'" "saving t db" "map_of (td_attempts db) (at_attempt_id a) \<noteq> None"
  shows "keeps_tasks db db' \<and> saving t db' \<and> td_attempts db' = td_attempts db"
proof -
  obtain n v where item: "item = (n, v)" by (cases item)
  let ?x = "\<lparr>er_task_id = tk_task_id task, er_sequence = n, er_status = vo_status v, er_payload = v,
        er_attempt_id = at_attempt_id a\<rparr>"
  from assms(1) obtain table where ins: "insert_immutable (td_tasks db) False (vo_evaluation_id v) ?x (td_evaluations db) = Inr table"
    and db': "db' = db\<lparr>td_evaluations := table\<rparr>"
    by (auto simp: persist_evaluation_def item store_simps)
  from ins show ?thesis
  proof (cases rule: insert_immutable_Inr)
    case (same r)
    then show ?thesis using assms(2) db' by simp
  next
    case added
    let ?ok = "\<lambda>k r. vo_evaluation_id (er_payload r) = k \<and> map_of (td_attempts db) (er_attempt_id r) \<noteq> None"
    have wf: "wf_rows (td_tasks db) er_task_id ?ok (td_evaluations db)"
      using assms(2) by (simp add: saving_def wf_db_def)
    have "wf_rows (td_tasks db) er_task_id ?ok table"
      unfolding added(1) by (rule wf_rows_insert [OF wf]) (use added assms(3) in simp_all)
    moreover have "table_extends (=) (td_evaluations db) table"
      unfolding added(1) by (rule table_insert [OF added(2)]) simp
    ultimately show ?thesis using assms(2)
      unfolding db' keeps_tasks_def saving_def wf_db_def extends_def by (simp add: table_extends_refl)
  qed
qed

lemma attempt_core_ids:
  assumes "attempt_core a = attempt_core b"
  shows "at_attempt_id a = at_attempt_id b \<and> at_sequence a = at_sequence b"
  using arg_cong [OF assms, of at_attempt_id] arg_cong [OF assms, of at_sequence] by (simp add: attempt_core_def)

lemma attempt_form_fields [simp]:
  "at_status (attempt_form a) = at_status a" "at_sequence (attempt_form a) = at_sequence a"
  by (simp_all add: attempt_form_def)

text \<open>Writing one attempt row: whatever keeps the row's identity keeps the schema.\<close>

lemma attempts_table_step:
  assumes saving: "saving t db"
    and ext: "table_extends (started_ext Attempt_started valid_attempt_progression) (td_attempts db) table"
    and wf: "wf_rows (td_tasks db) er_task_id attempt_ok table" "unique_numbers er_task_id er_sequence table"
  shows "keeps_tasks db (db\<lparr>td_attempts := table\<rparr>) \<and> saving t (db\<lparr>td_attempts := table\<rparr>)"
proof -
  have "wf_rows (td_tasks db) er_task_id (\<lambda>k r. vo_evaluation_id (er_payload r) = k
      \<and> map_of (td_attempts db) (er_attempt_id r) \<noteq> None) (td_evaluations db)"
    using saving by (simp add: saving_def wf_db_def)
  then have "wf_rows (td_tasks db) er_task_id (\<lambda>k r. vo_evaluation_id (er_payload r) = k
      \<and> map_of table (er_attempt_id r) \<noteq> None) (td_evaluations db)"
    by (rule wf_rows_weaken) (use table_extends_dom [OF ext] in blast)
  then show ?thesis using assms
    unfolding keeps_tasks_def saving_def wf_db_def extends_def by (simp add: table_extends_refl)
qed

lemma persist_attempt_row_keeps:
  assumes "persist_attempt_row task a db = Inr db'" "saving t db"
  shows "keeps_tasks db db' \<and> saving t db' \<and> map_of (td_attempts db') (at_attempt_id a) \<noteq> None"
proof -
  let ?t = "td_attempts db" and ?k = "at_attempt_id a"
  have wf: "wf_rows (td_tasks db) er_task_id attempt_ok ?t" "unique_numbers er_task_id er_sequence ?t"
    using assms(2) by (simp_all add: saving_def wf_db_def)
  show ?thesis
  proof (cases "map_of ?t ?k")
    case None
    let ?x = "\<lparr>er_task_id = tk_task_id task, er_sequence = at_sequence a, er_status = at_status a, er_payload = attempt_form a\<rparr>"
    from assms(1) None obtain table where ins: "insert_row (td_tasks db) True ?k ?x ?t = Inr table"
      and db': "db' = db\<lparr>td_attempts := table\<rparr>"
      by (auto simp: persist_attempt_row_def Let_def store_simps)
    note table = insert_row_Inr [OF ins]
    have "wf_rows (td_tasks db) er_task_id attempt_ok table"
      unfolding table(1) by (rule wf_rows_insert [OF wf(1)]) (use table in \<open>simp_all add: attempt_ok_def\<close>)
    moreover have "unique_numbers er_task_id er_sequence table"
      unfolding table(1) by (rule unique_numbers_insert [OF wf(2)]) (use table number_free in fastforce)
    moreover have "table_extends (started_ext Attempt_started valid_attempt_progression) ?t table"
      unfolding table(1) by (rule table_insert [OF None]) simp
    ultimately show ?thesis using attempts_table_step [OF assms(2), of table] table(1)
      unfolding db' by (simp add: map_of_update)
  next
    case (Some row)
    let ?x = "row\<lparr>er_status := at_status a, er_payload := attempt_form a\<rparr>"
    consider "db' = db" | "db' = db\<lparr>td_attempts := AList.update ?k ?x ?t\<rparr>" "er_status row = Attempt_started"
        "valid_attempt_progression (er_payload row) (attempt_form a)"
      using assms(1) Some by (auto simp: persist_attempt_row_def Let_def split: if_splits)
    then show ?thesis
    proof cases
      case 1
      then show ?thesis using assms(2) Some by simp
    next
      case 2
      have row: "map_of (td_tasks db) (er_task_id row) \<noteq> None" "attempt_ok ?k row"
        using wf_rows_row [OF wf(1) Some] by simp_all
      have "attempt_core (er_payload row) = attempt_core (attempt_form a)"
        using 2(3) by (simp add: valid_attempt_progression_def)
      from attempt_core_ids [OF this] have "attempt_ok ?k ?x" using row(2) by (simp add: attempt_ok_def)
      then have "wf_rows (td_tasks db) er_task_id attempt_ok (AList.update ?k ?x ?t)"
        by (intro wf_rows_insert [OF wf(1)]) (use row(1) in simp_all)
      moreover have "unique_numbers er_task_id er_sequence (AList.update ?k ?x ?t)"
        by (rule unique_numbers_replace [OF wf(2) Some]) simp_all
      moreover have "table_extends (started_ext Attempt_started valid_attempt_progression) ?t (AList.update ?k ?x ?t)"
        by (rule table_replace [OF Some]) (use 2 in \<open>simp_all add: started_ext_def\<close>)
      ultimately show ?thesis using attempts_table_step [OF assms(2), of "AList.update ?k ?x ?t"]
        unfolding 2(1) by (simp add: map_of_update)
    qed
  qed
qed

lemma persist_attempt_keeps:
  assumes "persist_attempt task a db = Inr db'" "saving t db"
  shows "keeps_tasks db db' \<and> saving t db'"
proof -
  from assms(1) obtain mid where first: "persist_attempt_row task a db = Inr mid"
    and rest: "fold_st (persist_evaluation task a) (enumerate 0 (at_validations a)) mid = Inr db'"
    by (auto simp: persist_attempt_def store_simps)
  note mid = persist_attempt_row_keeps [OF first assms(2)]
  let ?P = "\<lambda>s. saving t s \<and> map_of (td_attempts s) (at_attempt_id a) \<noteq> None"
  have "keeps_tasks mid db' \<and> ?P db'"
  proof (rule fold_st_relates [OF rest, of ?P keeps_tasks])
    fix x s s' assume "?P s" "persist_evaluation task a x s = Inr s'"
    then show "keeps_tasks s s' \<and> ?P s'" using persist_evaluation_keeps [of task a x s s' t] by simp
  qed (use mid keeps_tasks_trans in auto)
  then show ?thesis using mid keeps_tasks_trans by blast
qed

lemma tool_core_id: "tool_core a = tool_core b \<Longrightarrow> to_tool_event_id a = to_tool_event_id b"
  by (drule arg_cong [where f = to_tool_event_id]) (simp add: tool_core_def)

lemma persist_tool_keeps:
  assumes "persist_tool task item db = Inr db'" "saving t db"
  shows "keeps_tasks db db' \<and> saving t db'"
proof -
  obtain n e where item: "item = (n, e)" by (cases item)
  let ?t = "td_tools db" and ?k = "to_tool_event_id e"
  have wf: "wf_rows (td_tasks db) er_task_id tool_ok ?t"
    using assms(2) by (simp add: saving_def wf_db_def)
  have step: "keeps_tasks db (db\<lparr>td_tools := AList.update ?k x ?t\<rparr>) \<and> saving t (db\<lparr>td_tools := AList.update ?k x ?t\<rparr>)"
    if "table_extends (started_ext Tool_started valid_tool_progression) ?t (AList.update ?k x ?t)"
      "map_of (td_tasks db) (er_task_id x) \<noteq> None" "tool_ok ?k x" for x
    using that assms(2) wf_rows_insert [OF wf that(2,3)]
    unfolding keeps_tasks_def saving_def wf_db_def extends_def by (simp add: table_extends_refl)
  show ?thesis
  proof (cases "map_of ?t ?k")
    case None
    let ?x = "\<lparr>er_task_id = tk_task_id task, er_sequence = n, er_status = to_status e, er_payload = e\<rparr>"
    from assms(1) None obtain table where ins: "insert_row (td_tasks db) False ?k ?x ?t = Inr table"
      and db': "db' = db\<lparr>td_tools := table\<rparr>"
      by (auto simp: persist_tool_def item store_simps)
    note table = insert_row_Inr [OF ins]
    show ?thesis unfolding db' table(1)
      by (rule step) (use table_insert [OF None] table(2) in \<open>simp_all add: tool_ok_def\<close>)
  next
    case (Some row)
    let ?x = "row\<lparr>er_status := to_status e, er_payload := e\<rparr>"
    consider "db' = db" | "db' = db\<lparr>td_tools := AList.update ?k ?x ?t\<rparr>" "er_status row = Tool_started"
        "valid_tool_progression (er_payload row) e"
      using assms(1) Some by (auto simp: persist_tool_def item split: if_splits)
    then show ?thesis
    proof cases
      case 1
      then show ?thesis using assms(2) by simp
    next
      case 2
      have row: "map_of (td_tasks db) (er_task_id row) \<noteq> None" "tool_ok ?k row"
        using wf_rows_row [OF wf Some] by simp_all
      have "started_ext Tool_started valid_tool_progression row ?x" using 2 by (simp add: started_ext_def)
      then show ?thesis unfolding 2(1)
        by (intro step table_replace [OF Some]) (use row in \<open>simp_all add: tool_ok_def\<close>)
    qed
  qed
qed

lemma persist_children_keeps:
  assumes "persist_children task db = Inr db'" "saving (tk_task_id task) db"
  shows "keeps_tasks db db' \<and> saving (tk_task_id task) db'"
proof -
  from assms(1) obtain a b c d where steps: "persist_phase4 task db = Inr a"
      "fold_st (save_verification task) (verification_items task) a = Inr b"
      "fold_st (persist_decision task) (enumerate 0 (stored_decisions task)) b = Inr c"
      "fold_st (persist_attempt task) (tk_attempts task) c = Inr d"
      "fold_st (persist_tool task) (enumerate 0 (tk_tool_events task)) d = Inr db'"
    unfolding persist_children_def by (auto simp: store_simps)
  have a: "keeps_tasks db a \<and> saving (tk_task_id task) a" using persist_phase4_keeps [OF steps(1) assms(2)] .
  have b: "keeps_tasks a b \<and> saving (tk_task_id task) b"
    using fold_keeps [OF steps(2), of "tk_task_id task"] a verification_keeps by blast
  have c: "keeps_tasks b c \<and> saving (tk_task_id task) c"
    using fold_keeps [OF steps(3), of "tk_task_id task"] b persist_decision_keeps by blast
  have d: "keeps_tasks c d \<and> saving (tk_task_id task) d"
    using fold_keeps [OF steps(4), of "tk_task_id task"] c persist_attempt_keeps by blast
  have "keeps_tasks d db' \<and> saving (tk_task_id task) db'"
    using fold_keeps [OF steps(5), of "tk_task_id task"] d persist_tool_keeps by blast
  then show ?thesis using a b c d keeps_tasks_trans by blast
qed

section \<open>Tasks and events\<close>

definition safe :: "task_db \<Rightarrow> task_db \<Rightarrow> bool" where
  "safe db db' = (wf_db db' \<and> extends db db')"

lemma safe_refl: "wf_db db \<Longrightarrow> safe db db"
  by (simp add: safe_def)

lemma safe_trans: "safe a b \<Longrightarrow> safe b c \<Longrightarrow> safe a c"
  unfolding safe_def using extends_trans by blast

lemma next_sequence_above:
  assumes "map_of outbox k = Some r"
  shows "ox_sequence r < next_sequence outbox (ox_task_id r)"
proof -
  have bound: "x \<le> foldr max xs (0 :: nat)" if "x \<in> set xs" for x xs
    using that by (induction xs) auto
  have "(k, r) \<in> set outbox" using assms by (rule map_of_SomeD)
  then have "ox_sequence r \<in> set (map (ox_sequence \<circ> snd) (filter (\<lambda>(k, q). ox_task_id q = ox_task_id r) outbox))"
    by force
  from bound [OF this] show ?thesis by (simp add: next_sequence_def)
qed

lemma insert_event_safe:
  assumes "insert_event event db = Inr db'" "wf_db db"
  shows "safe db db' \<and> td_tasks db' = td_tasks db
    \<and> (\<exists>r. map_of (td_outbox db') (ev_event_id event) = Some r \<and> ox_payload r = event)"
proof (cases "map_of (td_outbox db) (ev_event_id event)")
  case None
  let ?x = "\<lparr>ox_task_id = ev_task_id event, ox_kind = ev_kind event,
            ox_sequence = next_sequence (td_outbox db) (ev_task_id event), ox_occurred_at = ev_occurred_at event,
            ox_payload = event, ox_acknowledged_at = None, ox_claim_owner = None, ox_claim_expires_at = None\<rparr>"
  let ?t = "AList.update (ev_event_id event) ?x (td_outbox db)"
  have task: "map_of (td_tasks db) (ev_task_id event) \<noteq> None" and db': "db' = db\<lparr>td_outbox := ?t\<rparr>"
    using assms(1) None by (auto simp: insert_event_def split: if_splits)
  have wf: "wf_rows (td_tasks db) ox_task_id event_ok (td_outbox db)" "unique_numbers ox_task_id ox_sequence (td_outbox db)"
    using assms(2) by (simp_all add: wf_db_def)
  have "wf_rows (td_tasks db) ox_task_id event_ok ?t"
    by (rule wf_rows_insert [OF wf(1)]) (use task in \<open>simp_all add: event_ok_def next_sequence_def\<close>)
  moreover have "unique_numbers ox_task_id ox_sequence ?t"
    by (rule unique_numbers_insert [OF wf(2)]) (use next_sequence_above in fastforce)
  moreover have "table_extends event_ext (td_outbox db) ?t"
    by (rule table_insert [OF None]) simp
  ultimately show ?thesis using assms(2)
    unfolding db' safe_def wf_db_def extends_def by (simp add: table_extends_refl map_of_update)
next
  case (Some r)
  then show ?thesis using assms by (auto simp: insert_event_def safe_refl split: if_splits)
qed

definition logged :: "task_db \<Rightarrow> execution_event \<Rightarrow> bool" where
  "logged db event = (\<exists>r. map_of (td_outbox db) (ev_event_id event) = Some r \<and> ox_payload r = event)"

lemma logged_extends: "extends db db' \<Longrightarrow> logged db event \<Longrightarrow> logged db' event"
  unfolding logged_def extends_def by (auto simp: event_ext_def dest: table_extendsD)

lemma insert_events_safe:
  assumes "fold_st insert_event events db = Inr db'" "wf_db db"
  shows "safe db db' \<and> td_tasks db' = td_tasks db \<and> (\<forall>e \<in> set events. logged db' e)"
  using assms
proof (induction events arbitrary: db)
  case Nil
  then show ?case by (simp add: safe_refl)
next
  case (Cons e events)
  from Cons.prems(1) obtain mid where first: "insert_event e db = Inr mid" and rest: "fold_st insert_event events mid = Inr db'"
    by (auto simp: store_simps)
  have mid: "safe db mid" "td_tasks mid = td_tasks db" "logged mid e"
    using insert_event_safe [OF first Cons.prems(2)] by (simp_all add: logged_def)
  have "safe mid db' \<and> td_tasks db' = td_tasks mid \<and> (\<forall>e \<in> set events. logged db' e)"
    using Cons.IH [OF rest] mid(1) by (simp add: safe_def)
  moreover from this have "logged db' e" using logged_extends [OF _ mid(3)] by (simp add: safe_def)
  ultimately show ?case using mid(2) safe_trans [OF mid(1)] by simp
qed

end
