(* ===== verification/StoreSteps.thy ===== *)
theory StoreSteps
  imports StoreFacts
begin

text \<open>
  The methods of the repository as a whole: creating and saving a task, delivering events, pinning
  versions and replaying the journal.
\<close>

section \<open>Creating and saving\<close>

lemma task_payload_columns [simp]:
  "tk_trace_id (task_payload t) = tk_trace_id t" "tk_policy_version (task_payload t) = tk_policy_version t"
  "tk_created_at (task_payload t) = tk_created_at t" "tk_updated_at (task_payload t) = tk_updated_at t"
  by (simp_all add: task_payload_def)

lemma wf_tasks_row:
  assumes "wf_tasks tasks" "map_of tasks k = Some r"
  shows "tk_task_id (tr_payload r) = k" "tk_revision (tr_payload r) = tr_revision r"
    "task_payload (tr_payload r) = tr_payload r" "tk_status (tr_payload r) = tr_status r"
    "tk_created_at (tr_payload r) = tr_created_at r"
  using assms by (auto simp: wf_tasks_def Let_def)

lemma wf_tasks_unique:
  assumes "wf_tasks tasks" "map_of tasks k = Some r" "map_of tasks k' = Some r'" "tr_key_digest r \<noteq> None"
    "tr_idempotency_scope r = tr_idempotency_scope r'" "tr_key_digest r = tr_key_digest r'"
  shows "k = k'"
  using assms(1) [unfolded wf_tasks_def, THEN conjunct2, THEN conjunct2, rule_format, OF assms(2-6)] .

text \<open>Replacing or adding one task row.\<close>

lemma tasks_table_step:
  assumes wf: "wf_db db" and ext: "table_extends row_ext (td_tasks db) (AList.update k x (td_tasks db))"
    and row: "tr_payload x = task_payload t" "tk_task_id t = k" "tr_trace_id x = tk_trace_id t" "tr_status x = tk_status t"
      "tr_policy_version x = tk_policy_version t" "tr_created_at x = tk_created_at t" "tr_updated_at x = tk_updated_at t"
      "tr_revision x = tk_revision t"
    and unique: "\<And>k' r'. map_of (td_tasks db) k' = Some r' \<Longrightarrow> tr_key_digest x \<noteq> None
      \<Longrightarrow> tr_idempotency_scope r' = tr_idempotency_scope x \<Longrightarrow> tr_key_digest r' = tr_key_digest x \<Longrightarrow> k' = k"
  shows "safe db (db\<lparr>td_tasks := AList.update k x (td_tasks db)\<rparr>)"
proof -
  let ?t = "AList.update k x (td_tasks db)"
  have tasks: "wf_tasks (td_tasks db)" using wf by (simp add: wf_db_def)
  have "tr_key_digest r \<noteq> None \<longrightarrow> tr_idempotency_scope r = tr_idempotency_scope r'
      \<longrightarrow> tr_key_digest r = tr_key_digest r' \<longrightarrow> a = b"
    if "map_of ?t a = Some r" "map_of ?t b = Some r'" for a b r r'
  proof (cases "a = k"; cases "b = k")
    assume "a \<noteq> k" "b \<noteq> k"
    then have rows: "map_of (td_tasks db) a = Some r" "map_of (td_tasks db) b = Some r'"
      using that by (simp_all only: map_of_update if_False)
    show ?thesis using wf_tasks_unique [OF tasks rows] by blast
  next
    assume "a = k" "b \<noteq> k"
    then have "r = x" "map_of (td_tasks db) b = Some r'" using that by (simp_all add: map_of_update)
    then show ?thesis using unique [of b r'] \<open>b \<noteq> k\<close> by metis
  next
    assume "a \<noteq> k" "b = k"
    then have "r' = x" "map_of (td_tasks db) a = Some r" using that by (simp_all add: map_of_update)
    then show ?thesis using unique [of a r] \<open>a \<noteq> k\<close> by metis
  qed simp
  moreover have "\<forall>a r. map_of ?t a = Some r \<longrightarrow> (let t = tr_payload r in
          tk_task_id t = a \<and> tk_trace_id t = tr_trace_id r \<and> tk_status t = tr_status r
          \<and> tk_policy_version t = tr_policy_version r \<and> tk_created_at t = tr_created_at r
          \<and> tk_updated_at t = tr_updated_at r \<and> tk_revision t = tr_revision r \<and> task_payload t = t)"
    using tasks row by (auto simp: map_of_update wf_tasks_def Let_def)
  moreover have "distinct (map fst ?t)" using tasks by (simp add: wf_tasks_def distinct_update)
  ultimately have "wf_tasks ?t" unfolding wf_tasks_def by blast
  moreover have grow: "\<And>k. map_of (td_tasks db) k \<noteq> None \<Longrightarrow> map_of ?t k \<noteq> None" using table_extends_dom [OF ext] .
  ultimately show ?thesis using wf ext
    unfolding safe_def wf_db_def extends_def by (auto simp: table_extends_refl elim: wf_rows_tasks)
qed

lemma save_body_safe:
  assumes body: "save_body task events expected scope db = Inr (u, db')" and wf: "wf_db db"
    and follows: "tk_revision task = expected + 1"
  shows "safe db db' \<and> (\<exists>r. map_of (td_tasks db') (tk_task_id task) = Some r \<and> tr_payload r = task_payload task)
    \<and> (\<forall>e \<in> set events. logged db' e)"
proof -
  from body obtain row where row: "map_of (td_tasks db) (tk_task_id task) = Some row"
    by (auto simp: save_body_def split: option.splits)
  from body row obtain a b where checks: "tr_revision row = expected" "verify_task_progression (tr_payload row) task"
    and children: "persist_children task db = Inr a" and advance: "advance_row task expected a = Inr b"
    and events: "fold_st insert_event events b = Inr db'"
    by (auto simp: save_body_def store_simps)
  let ?x = "row\<lparr>tr_trace_id := tk_trace_id task, tr_status := tk_status task, tr_policy_version := tk_policy_version task,
              tr_updated_at := tk_updated_at task, tr_revision := tk_revision task, tr_payload := task_payload task\<rparr>"
  have tasks: "wf_tasks (td_tasks db)" using wf by (simp add: wf_db_def)
  have a: "wf_db a" "extends db a" "td_tasks a = td_tasks db"
    using persist_children_keeps [OF children] wf row by (simp_all add: saving_def keeps_tasks_def)
  have b: "b = a\<lparr>td_tasks := AList.update (tk_task_id task) ?x (td_tasks a)\<rparr>"
    using advance row a(3) by (auto simp: advance_row_def split: if_splits)
  have forward: "carries_forward (tr_payload row) (task_payload task)" "\<not> terminal (tk_status (tr_payload row))"
    using checks(2) verify_iff [of "tr_payload row" "task_payload task"] by simp_all
  have "task_extends (tr_payload row) (task_payload task)"
    using forward checks(1) follows wf_tasks_row(2) [OF tasks row] by (simp add: task_extends_def)
  then have "row_ext row ?x" using checks(1) follows by (simp add: row_ext_def)
  then have ext: "table_extends row_ext (td_tasks a) (AList.update (tk_task_id task) ?x (td_tasks a))"
    using table_replace [of "td_tasks a" "tk_task_id task" row row_ext ?x] row a(3) by simp
  have created: "tr_created_at row = tk_created_at task"
    using forward(1) wf_tasks_row(5) [OF tasks row] by (simp add: carries_forward_def stable_fields_def)
  have "safe a b" unfolding b
  proof (rule tasks_table_step [OF a(1) ext, of task])
    fix k' r' assume "map_of (td_tasks a) k' = Some r'" "tr_key_digest ?x \<noteq> None"
      "tr_idempotency_scope r' = tr_idempotency_scope ?x" "tr_key_digest r' = tr_key_digest ?x"
    then have "map_of (td_tasks db) k' = Some r'" "tr_key_digest row \<noteq> None"
        "tr_idempotency_scope row = tr_idempotency_scope r'" "tr_key_digest row = tr_key_digest r'"
      by (simp_all add: a(3))
    from wf_tasks_unique [OF tasks row this] show "k' = tk_task_id task" by simp
  qed (use created in simp_all)
  moreover have "wf_db b" using calculation by (simp add: safe_def)
  note last = insert_events_safe [OF events this]
  ultimately have "safe db db'" using a last safe_trans unfolding safe_def by (meson extends_trans)
  moreover have "map_of (td_tasks db') (tk_task_id task) = Some ?x" using last b by (simp add: map_of_update)
  ultimately show ?thesis using last by auto
qed

lemma find_duplicate_None:
  assumes "find_duplicate db task scope key = Inr None"
  shows "map_of (td_tasks db) task = None"
    "key \<noteq> None \<Longrightarrow> map_of (td_tasks db) k = Some r \<Longrightarrow> \<not> (tr_idempotency_scope r = scope \<and> tr_key_digest r = key)"
  using assms
  by (auto simp: find_duplicate_def find_None_iff split: option.splits if_splits dest: map_of_SomeD)

lemma create_body_safe:
  assumes body: "create_body task event scope key digest db = Inr (result, db')" and wf: "wf_db db"
    and event: "ev_task_id event = tk_task_id task"
  shows "safe db db' \<and> (result = None \<longrightarrow> map_of (td_tasks db) (tk_task_id task) = None
     \<and> map_of (td_tasks db') (tk_task_id task) = Some (new_row task scope key digest) \<and> logged db' event)
   \<and> (result \<noteq> None \<longrightarrow> db' = db)"
proof -
  from body obtain duplicate where dup: "find_duplicate db (tk_task_id task) scope key = Inr duplicate"
    by (auto simp: create_body_def store_simps)
  show ?thesis
  proof (cases duplicate)
    case (Some row)
    then show ?thesis using body dup wf by (auto simp: create_body_def store_simps safe_refl)
  next
    case None
    let ?x = "new_row task scope key digest"
    let ?mid = "db\<lparr>td_tasks := AList.update (tk_task_id task) ?x (td_tasks db)\<rparr>"
    have ins: "insert_event event ?mid = Inr db'" and result: "result = None"
      using body dup None by (auto simp: create_body_def store_simps)
    note free = find_duplicate_None [OF dup [unfolded None]]
    have "safe db ?mid"
    proof (rule tasks_table_step [OF wf, of _ _ task])
      show "table_extends row_ext (td_tasks db) (AList.update (tk_task_id task) ?x (td_tasks db))"
        by (rule table_insert [OF free(1)]) simp
      fix k' r' assume "map_of (td_tasks db) k' = Some r'" "tr_key_digest ?x \<noteq> None"
        "tr_idempotency_scope r' = tr_idempotency_scope ?x" "tr_key_digest r' = tr_key_digest ?x"
      then show "k' = tk_task_id task" using free(2) by (simp add: new_row_def)
    qed (simp_all add: new_row_def)
    moreover from this have "safe ?mid db' \<and> td_tasks db' = td_tasks ?mid \<and> logged db' event"
      using insert_event_safe [OF ins] by (simp add: safe_def logged_def)
    ultimately show ?thesis using free(1) result safe_trans by (auto simp: map_of_update)
  qed
qed

text \<open>A session passes on what its body does.\<close>

lemma session_safe:
  assumes "wf_db db" "\<And>x db'. body db = Inr (x, db') \<Longrightarrow> safe db db'"
  shows "safe db (snd (session st body db))"
  using assms by (cases rule: session_cases [of body db st]) (auto simp: safe_refl)

lemma create_task_db: "snd (create_task st reads task event scope key digest db) = db
   \<or> (snd (create_task st reads task event scope key digest db)
        = snd (session st (create_body task event scope key digest) db) \<and> ev_task_id event = tk_task_id task)"
  by (auto simp: create_task_def split: prod.splits sum.splits store_error.splits)

lemma create_task_safe: "wf_db db \<Longrightarrow> safe db (snd (create_task st reads task event scope key digest db))"
  using create_task_db [of st reads task event scope key digest db] session_safe [of db "create_body task event scope key digest" st]
    create_body_safe [of task event scope key digest db] safe_refl by (metis (no_types, lifting))

lemma save_task_db: "snd (save_task st task events expected scope db) = db
   \<or> (snd (save_task st task events expected scope db) = snd (session st (save_body task events expected scope) db)
       \<and> tk_revision task = expected + 1)"
  by (auto simp: save_task_def split: prod.splits sum.splits store_error.splits)

lemma save_task_safe: "wf_db db \<Longrightarrow> safe db (snd (save_task st task events expected scope db))"
  using save_task_db [of st task events expected scope db] session_safe [of db "save_body task events expected scope" st]
    save_body_safe [of task events expected scope db] safe_refl by (metis (no_types, lifting))

lemma plain_session_safe:
  assumes "wf_db db" "\<And>x db'. body db = Inr (x, db') \<Longrightarrow> safe db db'"
  shows "safe db (snd (plain_session st body db))"
  using session_safe [OF assms] by (simp add: plain_session_db)

lemma ensure_events_safe: "wf_db db \<Longrightarrow> safe db (snd (ensure_events st events db))"
  unfolding ensure_events_def
  by (rule plain_session_safe) (auto simp: store_simps dest: insert_events_safe)

end
