(* ===== verification/Histories.thy ===== *)
theory Histories
  imports Prelude
begin

text \<open>
  Histories of a store whose operations may be called by anyone in any order. The locale states what
  one operation promises: it keeps an invariant, and the new state extends the old one in a
  preorder. Its lemmas lift this to all histories, and lift a condition on the operations that keeps
  a further property to the histories of such operations.
\<close>

locale histories =
  fixes step :: "'op \<Rightarrow> 's \<Rightarrow> 's"
    and inv :: "'s \<Rightarrow> bool"
    and ext :: "'s \<Rightarrow> 's \<Rightarrow> bool"
  assumes inv_step: "inv s \<Longrightarrow> inv (step op s)"
    and ext_step: "inv s \<Longrightarrow> ext s (step op s)"
    and ext_refl: "ext s s"
    and ext_trans: "ext a b \<Longrightarrow> ext b c \<Longrightarrow> ext a c"
begin

lemma inv_history: "inv s \<Longrightarrow> inv (fold step ops s)"
  by (induction ops arbitrary: s) (simp_all add: inv_step)

lemma ext_history: "inv s \<Longrightarrow> ext s (fold step ops s)"
proof (induction ops arbitrary: s)
  case (Cons op ops)
  then show ?case using ext_trans ext_step inv_step by (metis fold_simps(2))
qed (simp add: ext_refl)

lemma guarded_history:
  assumes "\<And>op s. inv s \<Longrightarrow> P s \<Longrightarrow> G op \<Longrightarrow> P (step op s)" "inv s" "P s" "list_all G ops"
  shows "P (fold step ops s)"
  using assms(2-4)
proof (induction ops arbitrary: s)
  case (Cons op ops)
  then show ?case using assms(1) inv_step by simp
qed simp

end

end
