(* ===== verification/StoreHistory.thy ===== *)
theory StoreHistory
  imports StoreSteps Histories
begin

text \<open>
  Delivery, versions and the journal, and histories of operations: a history is any sequence of
  calls of the repository, by any number of processes, with any behaviour of the database and of the
  file system. The invariant of histories is that the schema holds and nothing recorded is lost.
\<close>

section \<open>Delivery\<close>

lemma map_of_leases:
  "distinct (map fst rows) \<Longrightarrow> map_of (fold (lease owner expires) rows t) k =
     (case map_of rows k of None \<Rightarrow> map_of t k
      | Some r \<Rightarrow> Some (r\<lparr>ox_claim_owner := Some owner, ox_claim_expires_at := Some expires\<rparr>))"
proof (induction rows arbitrary: t)
  case (Cons item rows)
  obtain a r where item: "item = (a, r)" by (cases item)
  have fresh: "map_of rows a = None" using Cons.prems item by (simp add: map_of_eq_None_iff)
  show ?case using Cons fresh
    by (auto simp: item lease_def map_of_update split: option.splits)
qed simp

definition claimed_rows :: "instant \<Rightarrow> string \<Rightarrow> nat \<Rightarrow> (string \<times> outbox_row) list \<Rightarrow> (string \<times> outbox_row) list" where
  "claimed_rows now owner limit outbox = take limit (outbox_order (filter (claimable now owner \<circ> snd) outbox))"

lemma distinct_outbox_order:
  "distinct (map fst t) \<Longrightarrow> distinct (map fst (take n (outbox_order (filter P t))))"
proof -
  assume "distinct (map fst t)"
  then have "distinct (map fst (filter P t))" by (rule distinct_map_filter)
  then have "distinct (map fst (outbox_order (filter P t)))"
    by (simp add: outbox_order_def distinct_map inj_on_def)
  then show ?thesis by (simp add: take_map [symmetric] distinct_take)
qed

lemma claimed_rows_iff:
  assumes "distinct (map fst outbox)"
  shows "distinct (map fst (claimed_rows now owner limit outbox))"
    "map_of (claimed_rows now owner limit outbox) k = Some r \<Longrightarrow> map_of outbox k = Some r \<and> claimable now owner r"
proof -
  show "distinct (map fst (claimed_rows now owner limit outbox))"
    unfolding claimed_rows_def by (rule distinct_outbox_order [OF assms])
  assume "map_of (claimed_rows now owner limit outbox) k = Some r"
  then have "(k, r) \<in> set (claimed_rows now owner limit outbox)" by (rule map_of_SomeD)
  then have "(k, r) \<in> set outbox \<and> claimable now owner r"
    unfolding claimed_rows_def outbox_order_def by (auto dest!: in_set_takeD)
  then show "map_of outbox k = Some r \<and> claimable now owner r" using distinct_rows [OF assms] by simp
qed

lemma distinct_leases: "distinct (map fst t) \<Longrightarrow> distinct (map fst (fold (lease owner expires) rows t))"
  by (induction rows arbitrary: t) (auto simp: lease_def distinct_update split: prod.splits)

text \<open>The outbox after one change of some of its rows that keeps what they report.\<close>

lemma outbox_table_step:
  assumes wf: "wf_db db" and distinct: "distinct (map fst table)"
    and rows: "\<And>k. map_of table k = None \<longleftrightarrow> map_of (td_outbox db) k = None"
    and ext: "table_extends event_ext (td_outbox db) table"
  shows "safe db (db\<lparr>td_outbox := table\<rparr>)"
proof -
  have old: "wf_rows (td_tasks db) ox_task_id event_ok (td_outbox db)" "unique_numbers ox_task_id ox_sequence (td_outbox db)"
    using wf by (simp_all add: wf_db_def)
  have same: "\<exists>r. map_of (td_outbox db) k = Some r \<and> ox_task_id q = ox_task_id r \<and> ox_sequence q = ox_sequence r
      \<and> (event_ok k r \<longrightarrow> event_ok k q)" if hit: "map_of table k = Some q" for k q
  proof -
    obtain r where r: "map_of (td_outbox db) k = Some r" using rows [of k] hit by auto
    then have "event_ext r q" using table_extendsD [OF ext r] hit by simp
    then show ?thesis using r by (auto simp: event_ext_def event_ok_def)
  qed
  have "wf_rows (td_tasks db) ox_task_id event_ok table"
    unfolding wf_rows_def using distinct same wf_rows_row [OF old(1)] by metis
  moreover have "unique_numbers ox_task_id ox_sequence table"
    unfolding unique_numbers_def using same old(2) [unfolded unique_numbers_def, rule_format] by metis
  ultimately show ?thesis using wf ext unfolding safe_def wf_db_def extends_def by (simp add: table_extends_refl)
qed

lemma claim_body_safe:
  assumes "claim_body now owner limit expires db = Inr (events, db')" "wf_db db"
  shows "safe db db'"
proof -
  let ?rows = "claimed_rows now owner limit (td_outbox db)"
  have distinct: "distinct (map fst (td_outbox db))" using assms(2) by (simp add: wf_db_def wf_rows_def)
  have db': "db' = db\<lparr>td_outbox := fold (lease owner expires) ?rows (td_outbox db)\<rparr>"
    using assms(1) by (simp add: claim_body_def claimed_rows_def Let_def)
  have look: "map_of (fold (lease owner expires) ?rows (td_outbox db)) k = (case map_of ?rows k of
      None \<Rightarrow> map_of (td_outbox db) k
      | Some r \<Rightarrow> Some (r\<lparr>ox_claim_owner := Some owner, ox_claim_expires_at := Some expires\<rparr>))" for k
    by (rule map_of_leases [OF claimed_rows_iff(1) [OF distinct]])
  show ?thesis unfolding db'
  proof (rule outbox_table_step [OF assms(2) distinct_leases [OF distinct]])
    show "map_of (fold (lease owner expires) ?rows (td_outbox db)) k = None \<longleftrightarrow> map_of (td_outbox db) k = None" for k
      using claimed_rows_iff(2) [OF distinct, of now owner limit k] by (auto simp: look split: option.splits)
    show "table_extends event_ext (td_outbox db) (fold (lease owner expires) ?rows (td_outbox db))"
    proof (rule table_extendsI)
      fix k r assume r: "map_of (td_outbox db) k = Some r"
      show "\<exists>r'. map_of (fold (lease owner expires) ?rows (td_outbox db)) k = Some r' \<and> event_ext r r'"
        using r claimed_rows_iff(2) [OF distinct, of now owner limit k]
        by (auto simp: look event_ext_def claimable_def unacknowledged_def split: option.splits)
    qed
  qed
qed

lemma claim_outbox_safe: "wf_db db \<Longrightarrow> safe db (snd (claim_outbox st now owner limit period_s db))"
  by (simp add: claim_outbox_def safe_refl plain_session_safe claim_body_safe)

lemma ack_body_safe:
  assumes "ack_body now later event owner db = Inr (b, db')" "wf_db db"
  shows "safe db db'"
proof (cases "map_of (td_outbox db) event")
  case (Some r)
  let ?x = "r\<lparr>ox_acknowledged_at := Some later\<rparr>"
  have distinct: "distinct (map fst (td_outbox db))" using assms(2) by (simp add: wf_db_def wf_rows_def)
  consider "db' = db" | "db' = db\<lparr>td_outbox := AList.update event ?x (td_outbox db)\<rparr>" "ox_acknowledged_at r = None"
    using assms(1) Some by (auto simp: ack_body_def split: if_splits)
  then show ?thesis
  proof cases
    case 2
    show ?thesis unfolding 2(1)
      by (rule outbox_table_step [OF assms(2)])
        (use distinct Some 2(2) table_replace [OF Some, of event_ext ?x] in
          \<open>simp_all add: distinct_update map_of_update event_ext_def\<close>)
  qed (simp add: safe_refl assms(2))
qed (use assms in \<open>simp add: ack_body_def safe_refl\<close>)

lemma ack_outbox_safe: "wf_db db \<Longrightarrow> safe db (snd (ack_outbox st now later event owner db))"
  by (simp add: ack_outbox_def plain_session_safe ack_body_safe)

section \<open>Versions\<close>

lemma put_policy_safe: "put_immutable v j (td_policies db) = Inr t \<Longrightarrow> wf_db db \<Longrightarrow> safe db (db\<lparr>td_policies := t\<rparr>)"
  by (drule put_immutable_Inr) (simp add: safe_def wf_db_def extends_def table_extends_refl)

lemma put_catalog_safe: "put_immutable v j (td_catalogs db) = Inr t \<Longrightarrow> wf_db db \<Longrightarrow> safe db (db\<lparr>td_catalogs := t\<rparr>)"
  by (drule put_immutable_Inr) (simp add: safe_def wf_db_def extends_def table_extends_refl)

lemma put_prices_safe: "put_immutable v j (td_prices db) = Inr t \<Longrightarrow> wf_db db \<Longrightarrow> safe db (db\<lparr>td_prices := t\<rparr>)"
  by (drule put_immutable_Inr) (simp add: safe_def wf_db_def extends_def table_extends_refl)

lemma fold_safe:
  assumes "fold_st f xs db = Inr db'" "wf_db db"
    and "\<And>x s s'. wf_db s \<Longrightarrow> f x s = Inr s' \<Longrightarrow> safe s s'"
  shows "safe db db'"
  using fold_st_relates [of f xs db db' wf_db extends, OF assms(1) _ assms(2)] assms(3) extends_trans
  unfolding safe_def by (metis extends_refl)

lemma pin_body_safe:
  assumes "pin_body pv policy cv catalog prices db = Inr (u, db')" "wf_db db"
  shows "safe db db'"
proof -
  from assms(1) obtain p c where p: "put_immutable pv (JMap policy) (td_policies db) = Inr p"
    and c: "put_immutable cv (JMap catalog) (td_catalogs db) = Inr c"
    and rest: "fold_st (put_price prices) prices (db\<lparr>td_policies := p, td_catalogs := c\<rparr>) = Inr db'"
    by (auto simp: pin_body_def store_simps)
  have first: "safe db (db\<lparr>td_policies := p\<rparr>)" by (rule put_policy_safe [OF p assms(2)])
  then have second: "safe (db\<lparr>td_policies := p\<rparr>) (db\<lparr>td_policies := p, td_catalogs := c\<rparr>)"
    using put_catalog_safe [of cv "JMap catalog" "db\<lparr>td_policies := p\<rparr>" c] c by (simp add: safe_def)
  have "safe (db\<lparr>td_policies := p, td_catalogs := c\<rparr>) db'"
  proof (rule fold_safe [OF rest])
    show "wf_db (db\<lparr>td_policies := p, td_catalogs := c\<rparr>)" using second by (simp add: safe_def)
    show "safe s s'" if "wf_db s" "put_price prices x s = Inr s'" for x s s'
      using that by (auto simp: put_price_def store_simps dest: put_prices_safe)
  qed
  then show ?thesis using first second safe_trans by blast
qed

lemma pin_versions_safe:
  assumes "wf_db db"
  shows "safe db (snd (pin_versions st pv policy cv catalog db))"
proof -
  have "safe db (snd (plain_session st (pin_body pv policy cv catalog prices) db))" for prices
    by (rule plain_session_safe [OF assms]) (erule pin_body_safe, rule assms)
  then show ?thesis by (simp add: pin_versions_def safe_refl assms split: sum.splits)
qed

lemma store_immutable_safe: "wf_db db \<Longrightarrow> safe db (snd (store_immutable st which version document db))"
  unfolding store_immutable_def
  by (rule plain_session_safe)
    (auto simp: store_simps dest: put_policy_safe put_catalog_safe put_prices_safe split: version_table.splits)

section \<open>The journal\<close>

lemma replay_safe: "wf_db db \<Longrightarrow> safe db (snd (replay w expected task events db))"
  unfolding replay_def
  by (auto simp: safe_refl save_task_safe ensure_events_safe split: sum.splits option.splits)

lemma replay_lines_safe: "wf_db db \<Longrightarrow> safe db (snd (snd (replay_lines w n lines db)))"
proof (induction lines arbitrary: n db)
  case (Cons line lines)
  have rest: "safe d (snd (snd (replay_lines w (Suc n) lines d)))" if "wf_db d" for d
    using Cons.IH that by blast
  show ?case
  proof (cases "\<not> blank_line line \<and> (\<exists>expected task events. line = Journal_record expected task events)")
    case True
    then obtain expected task events where line: "line = Journal_record expected task events" by blast
    obtain r d where r: "replay (w n) expected task events db = (r, d)" by fastforce
    then have d: "safe db d" using replay_safe [OF Cons.prems, of "w n" expected task events] by simp
    then have "safe db (snd (snd (replay_lines w (Suc n) lines d)))"
      using rest safe_trans by (auto simp: safe_def)
    then show ?thesis using True r by (auto simp: line split: prod.splits sum.splits)
  next
    case False
    then have "snd (snd (replay_lines w n (line # lines) db)) = snd (snd (replay_lines w (Suc n) lines db))"
      by (cases line) (auto split: prod.splits)
    then show ?thesis using rest Cons.prems by simp
  qed
qed (simp add: safe_refl)

lemma reconcile_db: "snd (snd (reconcile_pending io w file db)) = db
    \<or> (\<exists>j. file = Some j \<and> snd (snd (reconcile_pending io w file db)) = snd (snd (replay_lines w 0 (file_lines j) db)))"
  by (auto simp: reconcile_pending_def reconcile_unlocked_def split: option.splits prod.splits sum.splits)

lemma reconcile_safe: "wf_db db \<Longrightarrow> safe db (snd (snd (reconcile_pending io w file db)))"
  using reconcile_db [of io w "file" db] replay_lines_safe [of db w 0] safe_refl [of db] by auto

section \<open>Histories\<close>

datatype store_op =
    Create_op store_outcome bool stored_task execution_event string "string option" string
  | Save_op store_outcome stored_task "execution_event list" nat "string option"
  | Retain_op append_outcome stored_task "execution_event list"
  | Reconcile_op journal_io "nat \<Rightarrow> bool \<times> store_outcome"
  | Claim_op store_outcome instant string int int
  | Ack_op store_outcome instant instant string "string option"
  | Pin_op store_outcome string "(string \<times> json) list" string "(string \<times> json) list"
  | Version_op store_outcome version_table string json

record storage =
  sg_db :: task_db
  sg_journal :: "journal option"

primrec store_step :: "store_op \<Rightarrow> storage \<Rightarrow> storage" where
  "store_step (Create_op st reads task event scope key digest) s =
     s\<lparr>sg_db := snd (create_task st reads task event scope key digest (sg_db s))\<rparr>"
| "store_step (Save_op st task events expected scope) s =
     s\<lparr>sg_db := snd (save_task st task events expected scope (sg_db s))\<rparr>"
| "store_step (Retain_op io task events) s =
     s\<lparr>sg_journal := snd (retain_pending io task events (sg_journal s))\<rparr>"
| "store_step (Reconcile_op io w) s =
     s\<lparr>sg_journal := fst (snd (reconcile_pending io w (sg_journal s) (sg_db s))),
       sg_db := snd (snd (reconcile_pending io w (sg_journal s) (sg_db s)))\<rparr>"
| "store_step (Claim_op st now owner limit period_s) s =
     s\<lparr>sg_db := snd (claim_outbox st now owner limit period_s (sg_db s))\<rparr>"
| "store_step (Ack_op st now later event owner) s =
     s\<lparr>sg_db := snd (ack_outbox st now later event owner (sg_db s))\<rparr>"
| "store_step (Pin_op st policy_version policy catalog_version catalog) s =
     s\<lparr>sg_db := snd (pin_versions st policy_version policy catalog_version catalog (sg_db s))\<rparr>"
| "store_step (Version_op st which version document) s =
     s\<lparr>sg_db := snd (store_immutable st which version document (sg_db s))\<rparr>"

definition run_store :: "store_op list \<Rightarrow> storage \<Rightarrow> storage" where
  "run_store ops s = fold store_step ops s"

definition empty_db :: task_db where
  "empty_db = \<lparr>td_tasks = [], td_decisions = [], td_attempts = [], td_tools = [], td_evaluations = [],
     td_verification = [], td_outbox = [], td_policies = [], td_catalogs = [], td_prices = [], td_migration = None\<rparr>"

definition empty_storage :: storage where
  "empty_storage = \<lparr>sg_db = empty_db, sg_journal = None\<rparr>"

lemma store_step_safe: "wf_db (sg_db s) \<Longrightarrow> safe (sg_db s) (sg_db (store_step op s))"
  by (cases op) (simp_all add: create_task_safe save_task_safe safe_refl reconcile_safe claim_outbox_safe
      ack_outbox_safe pin_versions_safe store_immutable_safe)

interpretation repository: histories store_step "\<lambda>s. wf_db (sg_db s)" "\<lambda>s s'. extends (sg_db s) (sg_db s')"
proof unfold_locales
  show "wf_db (sg_db (store_step op s))" "extends (sg_db s) (sg_db (store_step op s))" if "wf_db (sg_db s)" for op s
    using store_step_safe [OF that, of op] by (simp_all add: safe_def)
  show "extends (sg_db s) (sg_db s)" for s :: storage by simp
  show "extends (sg_db a) (sg_db c)" if "extends (sg_db a) (sg_db b)" "extends (sg_db b) (sg_db c)" for a b c :: storage
    using that by (rule extends_trans)
qed

lemma run_store_wf: "wf_db (sg_db s) \<Longrightarrow> wf_db (sg_db (run_store ops s))"
  unfolding run_store_def by (rule repository.inv_history)

lemma run_store_extends: "wf_db (sg_db s) \<Longrightarrow> extends (sg_db s) (sg_db (run_store ops s))"
  unfolding run_store_def by (rule repository.ext_history)

lemma wf_empty_db: "wf_db empty_db"
  by (simp add: wf_db_def empty_db_def wf_tasks_def wf_rows_def unique_numbers_def)

lemma run_store_append: "run_store (ops @ ops') s = run_store ops' (run_store ops s)"
  by (simp add: run_store_def)

end
