(* ===== verification/SaveFacts.thy ===== *)
theory SaveFacts
  imports StoreHistory
begin

text \<open>
  Facts on creating and saving that the properties share: what a successful call leaves behind, what
  a later call finds, and that reading back a dumped task and saving it is saving the task.
\<close>

section \<open>Reachable databases\<close>

lemma reached_wf: "wf_db (sg_db (run_store ops empty_storage))"
  by (rule run_store_wf) (simp add: empty_storage_def wf_empty_db)

section \<open>Claims on a key\<close>

lemma row_ext_keys:
  "row_ext r r' \<Longrightarrow> tr_idempotency_scope r' = tr_idempotency_scope r \<and> tr_key_digest r' = tr_key_digest r
     \<and> tr_request_digest r' = tr_request_digest r \<and> tr_revision r \<le> tr_revision r'
     \<and> task_extends (tr_payload r) (tr_payload r')"
  by (auto simp: row_ext_def)

lemma extends_row:
  "extends db db' \<Longrightarrow> map_of (td_tasks db) k = Some r \<Longrightarrow> \<exists>r'. map_of (td_tasks db') k = Some r' \<and> row_ext r r'"
  using table_extendsD [of row_ext "td_tasks db" "td_tasks db'" k r] by (simp add: extends_def)

text \<open>Whoever asks again for a stored task finds its row.\<close>

lemma find_duplicate_stored:
  assumes wf: "wf_db db" and row: "map_of (td_tasks db) k = Some r" and scope: "tr_idempotency_scope r = scope"
    and again: "task = k \<or> (key \<noteq> None \<and> tr_key_digest r = key \<and> map_of (td_tasks db) task = None)"
  shows "find_duplicate db task scope key = Inr (Some r)"
proof (cases "task = k")
  case True
  then show ?thesis using row scope by (simp add: find_duplicate_def)
next
  case False
  then obtain digest where key: "key = Some digest" "tr_key_digest r = Some digest" "map_of (td_tasks db) task = None"
    using again by auto
  have tasks: "wf_tasks (td_tasks db)" using wf by (simp add: wf_db_def)
  let ?hit = "\<lambda>(k, r). tr_idempotency_scope r = scope \<and> tr_key_digest r = Some digest"
  have "find ?hit (td_tasks db) \<noteq> None"
    using map_of_SomeD [OF row] scope key(2) unfolding find_None_iff by force
  then obtain a q where found: "find ?hit (td_tasks db) = Some (a, q)" by (cases "find ?hit (td_tasks db)") auto
  then have hit: "(a, q) \<in> set (td_tasks db)" "tr_idempotency_scope q = scope" "tr_key_digest q = Some digest"
    using find_Some_set [OF found] by auto
  have "map_of (td_tasks db) a = Some q" using hit(1) tasks distinct_rows unfolding wf_tasks_def by fastforce
  then have "a = k" using wf_tasks_unique [OF tasks _ row] hit scope key(2) by simp
  then have "q = r" using \<open>map_of (td_tasks db) a = Some q\<close> row by simp
  then show ?thesis using found key by (simp add: find_duplicate_def)
qed

lemma create_task_None:
  assumes "create_task st reads task event scope key digest db = (Inr None, db')" "wf_db db"
  shows "safe db db'" "map_of (td_tasks db') (tk_task_id task) = Some (new_row task scope key digest)"
proof -
  have "session st (create_body task event scope key digest) db = (Inr None, db') \<and> ev_task_id event = tk_task_id task"
    using assms(1) by (auto simp: create_task_def recheck_duplicate_def split: if_splits prod.splits sum.splits
        store_error.splits option.splits)
  moreover from this have "create_body task event scope key digest db = Inr (None, db')"
    by (cases rule: session_cases [of "create_body task event scope key digest" db st]) auto
  ultimately show "safe db db'" "map_of (td_tasks db') (tk_task_id task) = Some (new_row task scope key digest)"
    using create_body_safe [OF _ assms(2)] by auto
qed

section \<open>Optimistic concurrency\<close>

lemma save_task_ok:
  assumes "save_task st task events expected scope db = (Inr u, db')" "wf_db db"
  shows "safe db db'" "tk_revision task = expected + 1" "\<forall>e \<in> set events. logged db' e"
    "\<exists>r. map_of (td_tasks db') (tk_task_id task) = Some r \<and> tr_payload r = task_payload task \<and> tr_revision r = expected + 1"
proof -
  have follows: "tk_revision task = expected + 1"
    and "session st (save_body task events expected scope) db = (Inr u, db')"
    using assms(1) by (auto simp: save_task_def split: if_splits prod.splits sum.splits store_error.splits)
  then have body: "save_body task events expected scope db = Inr (u, db')"
    by (cases rule: session_cases [of "save_body task events expected scope" db st]) auto
  note saved = save_body_safe [OF body assms(2) follows]
  obtain r where r: "map_of (td_tasks db') (tk_task_id task) = Some r" "tr_payload r = task_payload task"
    using saved by blast
  have "wf_tasks (td_tasks db')" using saved by (simp add: safe_def wf_db_def)
  from wf_tasks_row(2) [OF this r(1)] have "tr_revision r = expected + 1" using r(2) follows by simp
  with r saved follows show "safe db db'" "tk_revision task = expected + 1" "\<forall>e \<in> set events. logged db' e"
    "\<exists>r. map_of (td_tasks db') (tk_task_id task) = Some r \<and> tr_payload r = task_payload task \<and> tr_revision r = expected + 1"
    by auto
qed

lemma save_body_stale:
  assumes "map_of (td_tasks db) (tk_task_id task) = Some r" "tr_revision r \<noteq> expected"
  shows "save_body task events expected scope db = Inl (Refused ConcurrentUpdate)"
  using assms by (simp add: save_body_def check_st_def)

end
