(* ===== verification/LeaseFacts.thy ===== *)
theory LeaseFacts
  imports SaveFacts
begin

text \<open>
  Facts on the outbox: which operations touch its rows, and that a leased row stays as it is through
  any history in which only other delivery workers act before the lease ends.
\<close>

section \<open>Leases\<close>

text \<open>Only claims and acknowledgements touch the rows that the outbox already has.\<close>

definition outbox_kept :: "task_db \<Rightarrow> task_db \<Rightarrow> bool" where
  "outbox_kept db db' = table_extends (=) (td_outbox db) (td_outbox db')"

lemma outbox_kept_refl [simp]: "outbox_kept db db"
  by (simp add: outbox_kept_def table_extends_refl)

lemma outbox_kept_same: "td_outbox db' = td_outbox db \<Longrightarrow> outbox_kept db db'"
  by (simp add: outbox_kept_def table_extends_refl)

lemma outbox_kept_other_table [simp]:
  "outbox_kept (db\<lparr>td_tasks := t\<rparr>) d = outbox_kept db d"
  "outbox_kept (db\<lparr>td_policies := p, td_catalogs := c\<rparr>) d = outbox_kept db d"
  by (simp_all add: outbox_kept_def)

lemma outbox_kept_trans: "outbox_kept a b \<Longrightarrow> outbox_kept b c \<Longrightarrow> outbox_kept a c"
  unfolding outbox_kept_def by (rule table_extends_eq_trans)

lemma outbox_keptD: "outbox_kept db db' \<Longrightarrow> map_of (td_outbox db) k = Some r \<Longrightarrow> map_of (td_outbox db') k = Some r"
  unfolding outbox_kept_def using table_extendsD by fastforce

lemma fold_outbox:
  assumes "fold_st f xs db = Inr db'" "\<And>x s s'. f x s = Inr s' \<Longrightarrow> outbox_kept s s'"
  shows "outbox_kept db db'"
  using fold_st_relates [of f xs db db' "\<lambda>_. True" outbox_kept, OF assms(1)] assms(2) outbox_kept_trans by simp

lemma insert_event_kept: "insert_event event db = Inr db' \<Longrightarrow> outbox_kept db db'"
  by (auto simp: insert_event_def outbox_kept_def table_extends_refl intro: table_insert split: option.splits if_splits)

lemma persist_kept:
  "save_verification task item db = Inr db' \<Longrightarrow> outbox_kept db db'"
  "persist_decision task n_r db = Inr db' \<Longrightarrow> outbox_kept db db'"
  "persist_evaluation task a n_v db = Inr db' \<Longrightarrow> outbox_kept db db'"
  "persist_attempt_row task a db = Inr db' \<Longrightarrow> outbox_kept db db'"
  "persist_tool task n_e db = Inr db' \<Longrightarrow> outbox_kept db db'"
  "persist_phase4 task db = Inr db' \<Longrightarrow> outbox_kept db db'"
  "advance_row task n db = Inr db' \<Longrightarrow> outbox_kept db db'"
  "put_price prices v_a_j db = Inr db' \<Longrightarrow> outbox_kept db db'"
  by (auto simp: save_verification_def persist_decision_def persist_evaluation_def persist_attempt_row_def persist_tool_def
      persist_phase4_def advance_row_def put_price_def store_simps Let_def
      intro!: outbox_kept_same split: option.splits if_splits prod.splits)

lemma persist_attempt_kept:
  assumes "persist_attempt task a db = Inr db'"
  shows "outbox_kept db db'"
proof -
  from assms obtain mid where row: "persist_attempt_row task a db = Inr mid"
    and evaluations: "fold_st (persist_evaluation task a) (enumerate 0 (at_validations a)) mid = Inr db'"
    by (auto simp: persist_attempt_def store_simps)
  have "outbox_kept mid db'" by (rule fold_outbox [OF evaluations]) (erule persist_kept(3))
  with persist_kept(4) [OF row] show ?thesis by (rule outbox_kept_trans)
qed

lemma save_body_kept:
  assumes "save_body task events expected scope db = Inr (u, db')"
  shows "outbox_kept db db'"
proof -
  from assms obtain a b where children: "persist_children task db = Inr a" and advance: "advance_row task expected a = Inr b"
    and events: "fold_st insert_event events b = Inr db'"
    by (auto simp: save_body_def store_simps split: option.splits)
  from children obtain c d e f where steps: "persist_phase4 task db = Inr c"
      "fold_st (save_verification task) (verification_items task) c = Inr d"
      "fold_st (persist_decision task) (enumerate 0 (stored_decisions task)) d = Inr e"
      "fold_st (persist_attempt task) (tk_attempts task) e = Inr f"
      "fold_st (persist_tool task) (enumerate 0 (tk_tool_events task)) f = Inr a"
    unfolding persist_children_def by (auto simp: store_simps)
  have "outbox_kept db c" by (rule persist_kept(6) [OF steps(1)])
  moreover have "outbox_kept c d" by (rule fold_outbox [OF steps(2)]) (erule persist_kept(1))
  moreover have "outbox_kept d e" by (rule fold_outbox [OF steps(3)]) (erule persist_kept(2))
  moreover have "outbox_kept e f" by (rule fold_outbox [OF steps(4)]) (erule persist_attempt_kept)
  moreover have "outbox_kept f a" by (rule fold_outbox [OF steps(5)]) (erule persist_kept(5))
  moreover have "outbox_kept a b" by (rule persist_kept(7) [OF advance])
  moreover have "outbox_kept b db'" by (rule fold_outbox [OF events]) (erule insert_event_kept)
  ultimately show ?thesis using outbox_kept_trans by meson
qed

lemma session_kept:
  assumes "\<And>x db'. body db = Inr (x, db') \<Longrightarrow> outbox_kept db db'"
  shows "outbox_kept db (snd (session st body db))"
  using assms by (cases rule: session_cases [of body db st]) auto

lemma plain_session_kept:
  "(\<And>x db'. body db = Inr (x, db') \<Longrightarrow> outbox_kept db db') \<Longrightarrow> outbox_kept db (snd (plain_session st body db))"
  by (simp add: plain_session_db session_kept)

lemma save_task_kept: "outbox_kept db (snd (save_task st task events expected scope db))"
  using save_task_db [of st task events expected scope db]
    session_kept [of "save_body task events expected scope" db st, OF save_body_kept] by auto

lemma create_body_kept:
  assumes "create_body task event scope key digest db = Inr (x, db')"
  shows "outbox_kept db db'"
proof -
  from assms consider "db' = db" | "insert_event event (db\<lparr>td_tasks := AList.update (tk_task_id task)
      (new_row task scope key digest) (td_tasks db)\<rparr>) = Inr db'"
    by (auto simp: create_body_def store_simps split: option.splits)
  then show ?thesis
    by cases (auto dest: insert_event_kept)
qed

lemma create_task_kept: "outbox_kept db (snd (create_task st reads task event scope key digest db))"
  using create_task_db [of st reads task event scope key digest db]
    session_kept [of "create_body task event scope key digest" db st, OF create_body_kept] by auto

lemma ensure_events_kept: "outbox_kept db (snd (ensure_events st events db))"
  unfolding ensure_events_def
  by (rule plain_session_kept) (auto simp: store_simps intro: fold_outbox insert_event_kept)

lemma pin_versions_kept: "outbox_kept db (snd (pin_versions st pv policy cv catalog db))"
proof -
  have "outbox_kept db db'" if "pin_body pv policy cv catalog prices db = Inr (u, db')" for prices u db'
    using that by (auto simp: pin_body_def store_simps dest!: fold_outbox [OF _ persist_kept(8)])
  then have "outbox_kept db (snd (plain_session st (pin_body pv policy cv catalog prices) db))" for prices
    by (rule plain_session_kept)
  then show ?thesis by (simp add: pin_versions_def split: sum.splits)
qed

lemma store_immutable_kept: "outbox_kept db (snd (store_immutable st which version document db))"
  unfolding store_immutable_def
  by (rule plain_session_kept) (auto simp: store_simps intro!: outbox_kept_same split: version_table.splits)

lemma replay_kept: "outbox_kept db (snd (replay w expected task events db))"
  unfolding replay_def by (auto simp: save_task_kept ensure_events_kept split: sum.splits option.splits)

lemma replay_lines_kept: "outbox_kept db (snd (snd (replay_lines w n lines db)))"
proof (induction lines arbitrary: n db)
  case (Cons line lines)
  show ?case
  proof (cases "\<not> blank_line line \<and> (\<exists>expected task events. line = Journal_record expected task events)")
    case True
    then obtain expected task events where line: "line = Journal_record expected task events" by blast
    obtain r d where r: "replay (w n) expected task events db = (r, d)" by fastforce
    then have "outbox_kept db d" using replay_kept [of db "w n" expected task events] by simp
    then have "outbox_kept db (snd (snd (replay_lines w (Suc n) lines d)))"
      using Cons.IH [of d "Suc n"] by (rule outbox_kept_trans)
    then show ?thesis using True r by (auto simp: line split: prod.splits sum.splits)
  next
    case False
    then have "snd (snd (replay_lines w n (line # lines) db)) = snd (snd (replay_lines w (Suc n) lines db))"
      by (cases line) (auto split: prod.splits)
    then show ?thesis using Cons.IH by simp
  qed
qed simp

lemma reconcile_kept: "outbox_kept db (snd (snd (reconcile_pending io w file db)))"
  using reconcile_db [of io w "file" db] replay_lines_kept [of db w 0] by auto

text \<open>Operations of the other delivery workers while the lease runs.\<close>

definition foreign :: "string \<Rightarrow> instant \<Rightarrow> store_op \<Rightarrow> bool" where
  "foreign owner until op = (case op of
     Claim_op st now other limit period_s \<Rightarrow> other \<noteq> owner \<and> now < until
   | Ack_op st now later event other \<Rightarrow> other \<noteq> Some owner
   | _ \<Rightarrow> True)"

definition leased :: "string \<Rightarrow> instant \<Rightarrow> outbox_row \<Rightarrow> bool" where
  "leased owner until r = (ox_claim_owner r = Some owner \<and> ox_claim_expires_at r = Some until \<and> unacknowledged r)"

lemma claim_body_rows:
  assumes "wf_db db" "claim_body now owner limit expires db = Inr (events, db')" "map_of (td_outbox db) k = Some r"
  shows "map_of (td_outbox db') k = (if map_of (claimed_rows now owner limit (td_outbox db)) k = None then Some r
    else Some (r\<lparr>ox_claim_owner := Some owner, ox_claim_expires_at := Some expires\<rparr>))"
proof -
  have distinct: "distinct (map fst (td_outbox db))" using assms(1) by (simp add: wf_db_def wf_rows_def)
  have "td_outbox db' = fold (lease owner expires) (claimed_rows now owner limit (td_outbox db)) (td_outbox db)"
    using assms(2) by (auto simp: claim_body_def claimed_rows_def Let_def)
  then show ?thesis
    using claimed_rows_iff(2) [OF distinct, of now owner limit k] assms(3)
    by (auto simp: map_of_leases [OF claimed_rows_iff(1) [OF distinct]] split: option.splits)
qed

lemma not_claimable: "leased owner until r \<Longrightarrow> other \<noteq> owner \<Longrightarrow> now < until \<Longrightarrow> \<not> claimable now other r"
  by (auto simp: leased_def claimable_def)

lemma foreign_unclaimed:
  assumes "wf_db db" "map_of (td_outbox db) k = Some r" "leased owner until r" "other \<noteq> owner" "now < until"
  shows "map_of (claimed_rows now other limit (td_outbox db)) k = None"
proof (cases "map_of (claimed_rows now other limit (td_outbox db)) k")
  case (Some q)
  have "distinct (map fst (td_outbox db))" using assms(1) by (simp add: wf_db_def wf_rows_def)
  from claimed_rows_iff(2) [OF this Some] have "q = r" "claimable now other q" using assms(2) by simp_all
  then show ?thesis using not_claimable [OF assms(3-5)] by simp
qed

lemma foreign_claim:
  assumes "wf_db db" "map_of (td_outbox db) k = Some r" "leased owner until r" "other \<noteq> owner" "now < until"
  shows "map_of (td_outbox (snd (claim_outbox st now other limit period_s db))) k = Some r"
proof -
  have body: "map_of (td_outbox db') k = Some r"
    if "claim_body now other (nat limit) expires db = Inr (events, db')" for expires events db'
    using claim_body_rows [OF assms(1) that assms(2)] foreign_unclaimed [OF assms] by simp
  have "map_of (td_outbox (snd (session st (claim_body now other (nat limit) expires) db))) k = Some r" for expires
    using body assms(2) by (cases rule: session_cases [of "claim_body now other (nat limit) expires" db st]) auto
  then show ?thesis using assms(2) by (simp add: claim_outbox_def plain_session_db)
qed

lemma foreign_ack:
  assumes "map_of (td_outbox db) k = Some r" "leased owner until r" "other \<noteq> Some owner"
  shows "map_of (td_outbox (snd (ack_outbox st now later event other db))) k = Some r"
    "fst (ack_outbox st now later k other db) \<noteq> Inr True"
proof -
  have body: "map_of (td_outbox db') k = Some r" "event = k \<longrightarrow> \<not> b"
    if "ack_body now later event other db = Inr (b, db')" for event b db'
    using that assms by (auto simp: ack_body_def leased_def unacknowledged_def map_of_update split: option.splits if_splits)
  show "map_of (td_outbox (snd (ack_outbox st now later event other db))) k = Some r"
    using body(1) assms(1) unfolding ack_outbox_def plain_session_db
    by (cases rule: session_cases [of "ack_body now later event other" db st]) auto
  show "fst (ack_outbox st now later k other db) \<noteq> Inr True"
    using body(2) [of k] unfolding ack_outbox_def plain_session_def
    by (cases rule: session_cases [of "ack_body now later k other" db st]) (auto split: store_error.splits)
qed

lemma foreign_step:
  assumes "wf_db (sg_db s)" "map_of (td_outbox (sg_db s)) k = Some r" "leased owner until r" "foreign owner until op"
  shows "map_of (td_outbox (sg_db (store_step op s))) k = Some r"
  using assms(2) assms(4) foreign_claim [OF assms(1-3)] foreign_ack(1) [OF assms(2,3)]
  by (cases op) (simp_all add: foreign_def create_task_kept [THEN outbox_keptD] save_task_kept [THEN outbox_keptD]
      reconcile_kept [THEN outbox_keptD] pin_versions_kept [THEN outbox_keptD] store_immutable_kept [THEN outbox_keptD])

lemma foreign_history:
  assumes "wf_db (sg_db s)" "map_of (td_outbox (sg_db s)) k = Some r" "leased owner until r" "list_all (foreign owner until) ops"
  shows "map_of (td_outbox (sg_db (run_store ops s))) k = Some r"
  unfolding run_store_def using _ assms(1,2,4)
  by (rule repository.guarded_history [where P = "\<lambda>s. map_of (td_outbox (sg_db s)) k = Some r"])
    (rule foreign_step [OF _ _ assms(3)])

lemma plain_session_ok: "plain_session Store_ok body db = (Inr x, db') \<Longrightarrow> body db = Inr (x, db')"
  by (auto simp: plain_session_def session_def split: prod.splits sum.splits store_error.splits)

lemma claimed_payload:
  assumes "wf_db db" "event \<in> set (map (ox_payload \<circ> snd) (claimed_rows now owner limit (td_outbox db)))"
  obtains r where "map_of (claimed_rows now owner limit (td_outbox db)) (ev_event_id event) = Some r"
    "map_of (td_outbox db) (ev_event_id event) = Some r" "claimable now owner r" "ox_payload r = event"
proof -
  have rows: "wf_rows (td_tasks db) ox_task_id event_ok (td_outbox db)" using assms(1) by (simp add: wf_db_def)
  note distinct = wf_rows_distinct [OF rows]
  obtain k r where item: "(k, r) \<in> set (claimed_rows now owner limit (td_outbox db))" "ox_payload r = event"
    using assms(2) by auto
  have hit: "map_of (claimed_rows now owner limit (td_outbox db)) k = Some r"
    using item(1) distinct_rows [OF claimed_rows_iff(1) [OF distinct]] by simp
  note row = claimed_rows_iff(2) [OF distinct hit]
  have "ev_event_id event = k" using wf_rows_row [OF rows] row item(2) by (auto simp: event_ok_def)
  then show thesis using that [of r] hit row item(2) by simp
qed

lemma claim_body_payloads:
  "claim_body now owner limit expires db = Inr (events, db')
     \<Longrightarrow> events = map (ox_payload \<circ> snd) (claimed_rows now owner limit (td_outbox db))"
  by (auto simp: claim_body_def claimed_rows_def Let_def)

lemma claim_outbox_Inr:
  assumes "claim_outbox st now owner limit period_s db = (Inr events, db')"
  shows "(events = [] \<and> db' = db) \<or> (0 < limit \<and> 0 < period_s
    \<and> claim_body now owner (nat limit) (now + seconds period_s) db = Inr (events, db'))"
proof (cases "owner = [] \<or> limit \<le> 0 \<or> period_s \<le> 0")
  case False
  then have "plain_session st (claim_body now owner (nat limit) (now + seconds period_s)) db = (Inr events, db')"
    using assms by (simp add: claim_outbox_def)
  then have "claim_body now owner (nat limit) (now + seconds period_s) db = Inr (events, db')"
    by (cases st) (auto simp: plain_session_def session_def split: prod.splits sum.splits store_error.splits)
  then show ?thesis using False by auto
qed (use assms in \<open>auto simp: claim_outbox_def split: if_splits\<close>)

lemma claim_outbox_leased:
  assumes "claim_outbox st now owner limit period_s db = (Inr events, db')" "wf_db db" "event \<in> set events"
  shows "\<exists>r. map_of (td_outbox db') (ev_event_id event) = Some r \<and> leased owner (now + seconds period_s) r
    \<and> ox_payload r = event \<and> wf_db db'"
proof -
  have body: "claim_body now owner (nat limit) (now + seconds period_s) db = Inr (events, db')"
    using claim_outbox_Inr [OF assms(1)] assms(3) by auto
  obtain r where r: "map_of (claimed_rows now owner (nat limit) (td_outbox db)) (ev_event_id event) = Some r"
    "map_of (td_outbox db) (ev_event_id event) = Some r" "claimable now owner r" "ox_payload r = event"
    using claimed_payload [OF assms(2)] assms(3) claim_body_payloads [OF body] by metis
  then show ?thesis
    using claim_body_rows [OF assms(2) body r(2)] claim_body_safe [OF body assms(2)]
    by (auto simp: leased_def claimable_def unacknowledged_def safe_def)
qed

lemma foreign_not_given:
  assumes "wf_db db" "map_of (td_outbox db) (ev_event_id event) = Some r" "ox_payload r = event" "leased owner until r"
    "other \<noteq> owner" "t < until" "fst (claim_outbox st t other limit period_s db) = Inr given"
  shows "event \<notin> set given"
proof
  assume given: "event \<in> set given"
  obtain db' where "claim_outbox st t other limit period_s db = (Inr given, db')"
    using assms(7) by (cases "claim_outbox st t other limit period_s db") auto
  then have body: "claim_body t other (nat limit) (t + seconds period_s) db = Inr (given, db')"
    using claim_outbox_Inr given by fastforce
  have "map_of (claimed_rows t other (nat limit) (td_outbox db)) (ev_event_id event) \<noteq> None"
    using claimed_payload [OF assms(1), of event t other "nat limit"] given claim_body_payloads [OF body]
    by (metis option.distinct(1))
  then show False using foreign_unclaimed [OF assms(1,2,4-6)] by simp
qed

text \<open>A claim whose limit covers the backlog hands out everything it may.\<close>

lemma claim_gives_all:
  assumes "wf_db db" "map_of (td_outbox db) k = Some r" "owner \<noteq> []" "0 < limit" "int (outbox_backlog db) \<le> limit" "0 < period_s"
    and "unacknowledged r" "\<not> (\<exists>until. ox_claim_expires_at r = Some until \<and> t < until)"
  shows "case claim_outbox Store_ok t owner limit period_s db of (Inr given, _) \<Rightarrow> ox_payload r \<in> set given | _ \<Rightarrow> False"
proof -
  let ?rows = "filter (claimable t owner \<circ> snd) (td_outbox db)"
  have "claimable t owner r" using assms(7,8) by (auto simp: claimable_def split: option.splits)
  then have member: "(k, r) \<in> set ?rows" using map_of_SomeD [OF assms(2)] by simp
  have "?rows = filter (claimable t owner \<circ> snd) (filter (unacknowledged \<circ> snd) (td_outbox db))"
    by (auto simp: claimable_def intro: filter_cong)
  then have "length ?rows \<le> outbox_backlog db" by (simp only: outbox_backlog_def length_filter_le)
  then have "length (outbox_order ?rows) \<le> nat limit" using assms(5) by (simp add: outbox_order_def)
  then have "claimed_rows t owner (nat limit) (td_outbox db) = outbox_order ?rows" by (simp add: claimed_rows_def)
  then have "ox_payload r \<in> set (map (ox_payload \<circ> snd) (claimed_rows t owner (nat limit) (td_outbox db)))"
    using member by (force simp: outbox_order_def)
  then show ?thesis using assms(3,4,6)
    by (simp add: claim_outbox_def plain_session_def session_def claim_body_def claimed_rows_def Let_def)
qed

end
