(* ===== verification/JournalFacts.thy ===== *)
theory JournalFacts
  imports SaveFacts
begin

text \<open>
  Facts on the recovery journal: a dumped task saves as the task itself, a replayed line is
  persisted, and a pass over the journal retains whatever it does not persist.
\<close>

section \<open>Saving a dumped task\<close>

lemma fold_st_map: "fold_st f (map g xs) s = fold_st (f \<circ> g) xs s"
  by (induction xs arbitrary: s) simp_all

lemma fold_st_cong: "(\<And>x s. x \<in> set xs \<Longrightarrow> f x s = g x s) \<Longrightarrow> fold_st f xs s = fold_st g xs s"
proof (induction xs arbitrary: s)
  case (Cons x xs)
  then show ?case by (cases "g x s") simp_all
qed simp

lemma enumerate_map: "enumerate n (map f xs) = map (\<lambda>(i, x). (i, f x)) (enumerate n xs)"
  by (induction xs arbitrary: n) simp_all

lemma verification_payload [simp]: "save_verification (task_payload t) = save_verification t"
  by (intro ext) (simp add: save_verification_def split: prod.split option.split)

lemma verification_items_payload: "verification_items (task_payload t) = verification_items t"
  by (simp add: verification_items_def comp_def) (simp add: task_payload_def comp_def shadow_form_def)

lemma stored_decisions_payload: "stored_decisions (task_payload t) = map (route_form id) (stored_decisions t)"
  by (simp add: stored_decisions_def task_payload_def list_all_iff split: option.splits)

lemma persist_decision_payload:
  "persist_decision (task_payload t) (i, route_form id r) = persist_decision t (i, r)"
  by (intro ext) (simp add: persist_decision_def)

lemma persist_evaluation_payload:
  "persist_evaluation (task_payload t) (attempt_form a) = persist_evaluation t a"
  by (intro ext) (simp add: persist_evaluation_def)

lemma persist_attempt_payload: "persist_attempt (task_payload t) (attempt_form a) = persist_attempt t a"
proof (intro ext)
  fix db
  have "persist_attempt_row (task_payload t) (attempt_form a) db = persist_attempt_row t a db"
    by (simp add: persist_attempt_row_def Let_def split: option.split)
  moreover have "at_validations (attempt_form a) = at_validations a" by (simp add: attempt_form_def)
  ultimately show "persist_attempt (task_payload t) (attempt_form a) db = persist_attempt t a db"
    by (simp add: persist_attempt_def persist_evaluation_payload)
qed

lemma persist_tool_payload: "persist_tool (task_payload t) = persist_tool t"
  by (intro ext) (simp add: persist_tool_def split: prod.split option.split)

lemma put_immutable_canonical [simp]: "put_immutable v (canonical_json j) = put_immutable v j"
  by (intro ext) (simp add: put_immutable_def)

lemma persist_phase4_payload: "persist_phase4 (task_payload t) = persist_phase4 t"
  by (intro ext) (simp add: persist_phase4_def task_payload_def split: option.splits)

lemma task_payload_lists:
  "tk_decisions (task_payload t) = map (route_form id) (tk_decisions t)"
  "tk_attempts (task_payload t) = map attempt_form (tk_attempts t)"
  "tk_tool_events (task_payload t) = tk_tool_events t"
  by (simp_all add: task_payload_def)

lemma persist_children_payload: "persist_children (task_payload t) = persist_children t"
proof (intro ext)
  fix db
  have "(\<lambda>db. fold_st (persist_decision (task_payload t)) (enumerate 0 (stored_decisions (task_payload t))) db)
      = (\<lambda>db. fold_st (persist_decision t) (enumerate 0 (stored_decisions t)) db)"
    by (intro ext) (simp add: stored_decisions_payload enumerate_map fold_st_map comp_def case_prod_unfold
        persist_decision_payload)
  moreover have "(\<lambda>db. fold_st (persist_attempt (task_payload t)) (tk_attempts (task_payload t)) db)
      = (\<lambda>db. fold_st (persist_attempt t) (tk_attempts t) db)"
    by (intro ext) (simp add: task_payload_lists fold_st_map comp_def persist_attempt_payload)
  ultimately show "persist_children (task_payload t) db = persist_children t db"
    by (simp add: persist_children_def persist_phase4_payload verification_items_payload persist_tool_payload
        task_payload_lists)
qed

lemma save_task_payload: "save_task st (task_payload t) events expected scope db = save_task st t events expected scope db"
proof -
  have "advance_row (task_payload t) = advance_row t"
    by (intro ext) (simp add: advance_row_def split: option.split)
  then have "save_body (task_payload t) events expected scope = save_body t events expected scope"
    by (intro ext) (simp add: save_body_def persist_children_payload split: option.split)
  then show ?thesis by (simp add: save_task_def)
qed

section \<open>Replaying\<close>

definition persisted :: "task_db \<Rightarrow> stored_task \<Rightarrow> execution_event list \<Rightarrow> bool" where
  "persisted db task events =
     ((\<exists>row. map_of (td_tasks db) (tk_task_id task) = Some row \<and> task_extends (task_payload task) (tr_payload row))
      \<and> (\<forall>e \<in> set events. logged db e))"

lemma persisted_extends:
  assumes ext: "extends db db'" and "persisted db task events"
  shows "persisted db' task events"
proof -
  obtain row where row: "map_of (td_tasks db) (tk_task_id task) = Some row" "task_extends (task_payload task) (tr_payload row)"
    using assms(2) by (auto simp: persisted_def)
  obtain row' where "map_of (td_tasks db') (tk_task_id task) = Some row'" "row_ext row row'"
    using extends_row [OF ext row(1)] by blast
  moreover from this have "task_extends (task_payload task) (tr_payload row')"
    using row_ext_keys task_extends_trans [OF row(2)] by blast
  ultimately show ?thesis using assms(2) logged_extends [OF ext] by (auto simp: persisted_def)
qed

lemma save_task_persisted:
  assumes "save_task st task events expected scope db = (Inr u, db')" "wf_db db"
  shows "persisted db' task events"
  using save_task_ok [OF assms] by (auto simp: persisted_def)

lemma ensure_events_ok:
  assumes "ensure_events st events db = (Inr u, db')" "wf_db db"
  shows "td_tasks db' = td_tasks db" "\<forall>e \<in> set events. logged db' e"
proof -
  let ?body = "\<lambda>db. bind_st (fold_st insert_event events db) (\<lambda>db'. Inr ((), db'))"
  have "session st ?body db = (Inr u, db')"
    using assms(1) by (auto simp: ensure_events_def plain_session_def split: prod.splits sum.splits store_error.splits)
  then have "fold_st insert_event events db = Inr db'"
    by (cases rule: session_cases [of ?body db st]) (auto simp: store_simps)
  from insert_events_safe [OF this assms(2)] show "td_tasks db' = td_tasks db" "\<forall>e \<in> set events. logged db' e"
    by simp_all
qed

lemma replay_persisted:
  assumes "replay w expected task events db = (Inr u, db')" "wf_db db"
  shows "persisted db' task events"
proof -
  have tasks: "wf_tasks (td_tasks db)" using assms(2) by (simp add: wf_db_def)
  consider "save_task (snd w) task events expected None db = (Inr u, db')"
    | row where "map_of (td_tasks db) (tk_task_id task) = Some row" "task_payload (tr_payload row) = task_payload task"
        "ensure_events (snd w) events db = (Inr u, db')"
    using assms(1) by (auto simp: replay_def get_task_def split: if_splits option.splits)
  then show ?thesis
  proof cases
    case 1
    then show ?thesis using save_task_persisted assms(2) by blast
  next
    case 2
    then have "tr_payload row = task_payload task" using wf_tasks_row(3) [OF tasks 2(1)] by simp
    then show ?thesis using ensure_events_ok [OF 2(3) assms(2)] 2(1) by (simp add: persisted_def)
  qed
qed

lemma replay_lines_account:
  assumes "replay_lines w n lines db = (retained, replayed, db')" "wf_db db" "line \<in> set lines"
  shows "blank_line line \<or> line \<in> set retained
    \<or> (\<exists>expected task events. line = Journal_record expected task events \<and> persisted db' task events)"
  using assms
proof (induction lines arbitrary: n db retained replayed)
  case (Cons first rest)
  show ?case
  proof (cases "\<not> blank_line first \<and> (\<exists>expected task events. first = Journal_record expected task events)")
    case True
    then obtain expected task events where first: "first = Journal_record expected task events" by blast
    obtain r d where r: "replay (w n) expected task events db = (r, d)" by fastforce
    obtain kept_lines count where tail: "replay_lines w (Suc n) rest d = (kept_lines, count, db')"
      "retained = (case r of Inl _ \<Rightarrow> first # kept_lines | Inr _ \<Rightarrow> kept_lines)"
      using Cons.prems(1) True r by (auto simp: first split: prod.splits sum.splits)
    have wf: "wf_db d" using replay_safe [OF Cons.prems(2), of "w n" expected task events] r by (simp add: safe_def)
    have ext: "extends d db'" using replay_lines_safe [OF wf, of w "Suc n" rest] tail(1) by (simp add: safe_def)
    show ?thesis
    proof (cases "line = first")
      case True
      then show ?thesis
        using first r tail(2) replay_persisted [of "w n" expected task events db _ d, OF _ Cons.prems(2)]
          persisted_extends [OF ext] by (cases r) auto
    next
      case False
      then show ?thesis using Cons.IH [OF tail(1) wf] Cons.prems(3) tail(2) by (cases r) auto
    qed
  next
    case False
    obtain kept_lines count where tail: "replay_lines w (Suc n) rest db = (kept_lines, count, db')"
      "retained = (if blank_line first then kept_lines else first # kept_lines)"
      using Cons.prems(1) False by (cases first) (auto split: prod.splits if_splits)
    show ?thesis using Cons.IH [OF tail(1) Cons.prems(2)] Cons.prems(3) tail(2) by auto
  qed
qed simp

lemma insert_event_again: "logged db e \<Longrightarrow> insert_event e db = Inr db"
  by (auto simp: logged_def insert_event_def)

lemma insert_events_again: "\<forall>e \<in> set events. logged db e \<Longrightarrow> fold_st insert_event events db = Inr db"
  by (induction events) (simp_all add: insert_event_again)

text \<open>Whether or not the first attempt reached the database, replaying it ends in the same state.\<close>

lemma replay_uncertain:
  assumes wf: "wf_db db" and ok: "save_task Store_ok task events expected scope db = (Inr (), saved)"
    and body: "save_body task events expected scope db = Inr ((), saved)"
  shows "replay (True, Store_ok) expected (task_payload task) events (if failed then db else saved) = (Inr (), saved)"
proof -
  note facts = save_task_ok [OF ok wf]
  obtain row where row: "map_of (td_tasks db) (tk_task_id task) = Some row" "tr_revision row = expected"
    using body by (auto simp: save_body_def check_st_def store_simps split: option.splits if_splits)
  have tasks: "wf_tasks (td_tasks db)" using wf by (simp add: wf_db_def)
  have "tk_revision (tr_payload row) \<noteq> tk_revision task"
    using wf_tasks_row(2) [OF tasks row(1)] row(2) facts(2) by simp
  moreover have "save_task Store_ok task events expected None db = (Inr (), saved)"
    using ok row(1) by (auto simp: save_task_def session_def save_body_def check_st_def split: if_splits prod.splits sum.splits)
  ultimately have "replay (True, Store_ok) expected (task_payload task) events db = (Inr (), saved)"
    using row(1) by (simp add: replay_def get_task_def save_task_payload)
  moreover have "replay (True, Store_ok) expected (task_payload task) events saved = (Inr (), saved)"
    using facts(4) insert_events_again [OF facts(3)]
    by (auto simp: replay_def get_task_def ensure_events_def plain_session_def session_def)
  ultimately show ?thesis by simp
qed

section \<open>A torn append\<close>

text \<open>
  The code acknowledges an append that follows a torn one, but glues its record to the fragment:
  the record is not replayed, and its line stays in the journal.
\<close>

lemma torn_append_blocks_replay:
  assumes "fragment \<noteq> []" "retain_pending (Append_torn fragment) task events None = (r, file)"
  shows "fst (retain_pending Append_ok task' events' file) = Inr ()"
    "reconcile_pending \<lparr>ji_locks = True, ji_reads = True, ji_replaces = Store_ok\<rparr> w
       (snd (retain_pending Append_ok task' events' file)) db
     = (Inr 0, snd (retain_pending Append_ok task' events' file), db)"
  using assms
  by (auto simp: retain_pending_def empty_journal_def append_line_def reconcile_pending_def reconcile_unlocked_def
      file_lines_def blank_line_def replace_journal_def)

end
