(* ===== verification/StoreSamples.thy ===== *)
theory StoreSamples
  imports StoreHistory
begin

text \<open>A small stored task and its history, on which the properties of the repository are exercised.\<close>

definition stored_sample :: stored_task where
  "stored_sample = task_result.extend (new_task ''task'' ''trace'' ''policy'' 0)
     \<lparr>tk_evaluator_attempts = [], tk_domain_validations = [], tk_shadow_runs = [],
      tk_phase4_version = None, tk_phase4_config = None\<rparr>"

definition sample_log :: "string \<Rightarrow> event_kind \<Rightarrow> execution_event" where
  "sample_log event kind = \<lparr>ev_event_id = event, ev_task_id = ''task'', ev_trace_id = ''trace'', ev_kind = kind,
     ev_occurred_at = 0, ev_policy_version = ''policy'', ev_attempt_id = None, ev_decision_id = None,
     ev_tool_event_id = None, ev_evaluation_id = None, ev_failure_type = None, ev_action = None\<rparr>"

definition created_op :: store_op where
  "created_op = Create_op Store_ok True stored_sample (sample_log ''e0'' TASK_CREATED) ''app'' (Some ''key'') ''digest''"

definition classified_sample :: stored_task where
  "classified_sample = stored_sample\<lparr>tk_status := Classified, tk_revision := 1\<rparr>"

definition created_db :: task_db where
  "created_db = sg_db (run_store [created_op] empty_storage)"

definition classified_db :: task_db where
  "classified_db = snd (save_task Store_ok classified_sample [sample_log ''e1'' TASK_CLASSIFIED] 0 None created_db)"

lemma created_sample:
  "create_task Store_ok True stored_sample (sample_log ''e0'' TASK_CREATED) ''app'' (Some ''key'') ''digest'' empty_db
     = (Inr None, created_db)"
  by code_simp

lemma saved_sample:
  "save_task Store_ok classified_sample [sample_log ''e1'' TASK_CLASSIFIED] 0 None created_db = (Inr (), classified_db)"
  by code_simp

lemma empty_run [simp]: "sg_db empty_storage = empty_db" "run_store [] s = s"
  by (simp_all add: run_store_def empty_storage_def)

definition claimed_sample :: "execution_event list \<times> task_db" where
  "claimed_sample = (case claim_outbox Store_ok 0 ''first'' 10 30 created_db of (Inr events, db) \<Rightarrow> (events, db) | (Inl _, db) \<Rightarrow> ([], db))"

lemma claimed_sample_ok:
  "claim_outbox Store_ok 0 ''first'' 10 30 created_db = (Inr [sample_log ''e0'' TASK_CREATED], snd claimed_sample)"
  by code_simp

definition second_worker :: store_op where
  "second_worker = Claim_op Store_ok 1 ''second'' 10 30"

definition journal_sample :: journal where
  "journal_sample = \<lparr>jn_lines = [Journal_record 0 classified_sample [sample_log ''e1'' TASK_CLASSIFIED]], jn_torn = ''frag''\<rparr>"

definition healthy_io :: journal_io where
  "healthy_io = \<lparr>ji_locks = True, ji_reads = True, ji_replaces = Store_ok\<rparr>"

lemma reconciled_sample:
  "reconcile_pending healthy_io (\<lambda>_. (True, Store_ok)) (Some journal_sample) created_db
     = (Inr 1, Some \<lparr>jn_lines = [Journal_text ''frag''], jn_torn = []\<rparr>, classified_db)"
  by code_simp

end
