(* ===== verification/StoreClaims.thy ===== *)
theory StoreClaims
  imports LeaseFacts JournalFacts StoreSamples
begin

text \<open>
  The properties of the task repository, over all histories of its operations.
\<close>


text \<open>
  C22. Evidence is append-only. Whatever follows a history, every row survives: decisions, evaluations and pinned
  versions unchanged, attempts, tools and verification evidence changed only while started and only along their
  progression, events unchanged but for lease and acknowledgement, and a task only by revisions that carry its
  evidence forward; a finished task never changes again.
\<close>

theorem store_append_only:
  "extends (sg_db (run_store before empty_storage)) (sg_db (run_store (before @ later) empty_storage))"
  by (simp add: run_store_append run_store_extends reached_wf)

text \<open>
  C23. Creating is idempotent: once a task was created under a scope and key, a later create with the same task id, or
  with the same key and a new id, changes nothing; it returns the stored task in its current state if the request
  digest is the same and refuses with a conflict otherwise.
\<close>

theorem create_idempotent:
  assumes "create_task st reads task event scope key digest (sg_db (run_store before empty_storage)) = (Inr None, db)"
    and "ev_task_id event' = tk_task_id task'" "ev_kind event' = TASK_CREATED" "scope \<noteq> []" "digest' \<noteq> []"
    and "tk_application_id task' = None \<or> tk_application_id task' = Some scope"
    and "now = sg_db (run_store later \<lparr>sg_db = db, sg_journal = jr\<rparr>)"
    and "tk_task_id task' = tk_task_id task \<or> (key \<noteq> None \<and> map_of (td_tasks now) (tk_task_id task') = None)"
  shows "\<exists>stored. create_task Store_ok reads' task' event' scope key digest' now
      = (if digest' = digest then Inr (Some stored) else Inl IdempotencyConflict, now)
    \<and> get_task True (tk_task_id task) None now = Inr (Some stored) \<and> task_extends (task_payload task) stored"
proof -
  note created = create_task_None [OF assms(1) reached_wf]
  have wf: "wf_db now" and ext: "extends db now"
    using created(1) run_store_wf [of "\<lparr>sg_db = db, sg_journal = jr\<rparr>" later]
      run_store_extends [of "\<lparr>sg_db = db, sg_journal = jr\<rparr>" later] assms(7) by (simp_all add: safe_def)
  obtain r where r: "map_of (td_tasks now) (tk_task_id task) = Some r" and kept: "row_ext (new_row task scope key digest) r"
    using extends_row [OF ext created(2)] by blast
  have same: "tr_idempotency_scope r = scope" "tr_key_digest r = key" "tr_request_digest r = digest"
      "task_extends (task_payload task) (tr_payload r)"
    using row_ext_keys [OF kept] by (simp_all add: new_row_def)
  have "find_duplicate now (tk_task_id task') scope key = Inr (Some r)"
    using find_duplicate_stored [OF wf r same(1), of "tk_task_id task'" key] assms(8) same(2) by auto
  then have "create_task Store_ok reads' task' event' scope key digest' now
      = (if digest' = digest then Inr (Some (tr_payload r)) else Inl IdempotencyConflict, now)"
    using assms(2-6) same(3)
    by (auto simp: create_task_def session_def create_body_def resolve_duplicate_def)
  then show ?thesis using r same(4) by (auto simp: get_task_def)
qed

theorem create_idempotent_witness:
  "\<exists>stored. create_task Store_ok True stored_sample (sample_log ''e0'' TASK_CREATED) ''app'' (Some ''key'') ''digest'' created_db
      = (Inr (Some stored), created_db)
    \<and> get_task True ''task'' None created_db = Inr (Some stored) \<and> task_extends (task_payload stored_sample) stored"
proof -
  have sample: "create_task Store_ok True stored_sample (sample_log ''e0'' TASK_CREATED) ''app'' (Some ''key'') ''digest''
      (sg_db (run_store [] empty_storage)) = (Inr None, created_db)"
    by (simp add: created_sample)
  have facts: "ev_task_id (sample_log ''e0'' TASK_CREATED) = tk_task_id stored_sample"
      "ev_kind (sample_log ''e0'' TASK_CREATED) = TASK_CREATED" "tk_application_id stored_sample = None"
      "tk_task_id stored_sample = ''task''"
    by code_simp+
  show ?thesis
    using create_idempotent [OF sample facts(1,2), where digest' = "''digest''" and later = "[]" and jr = None
        and reads' = True and now = created_db] facts(3,4)
    by simp
qed

text \<open>
  C24. Of all the saves that expect the same or an older revision of a task, one succeeds: after it, and after any
  history, each other one fails and changes nothing.
\<close>

theorem save_wins_once:
  assumes "save_task st task events expected scope (sg_db (run_store before empty_storage)) = (Inr (), db)"
    and "now = sg_db (run_store later \<lparr>sg_db = db, sg_journal = jr\<rparr>)"
    and "tk_task_id task' = tk_task_id task" "expected' \<le> expected"
  shows "fst (save_task st' task' events' expected' scope' now) \<noteq> Inr ()
    \<and> snd (save_task st' task' events' expected' scope' now) = now"
proof -
  note saved = save_task_ok [OF assms(1) reached_wf]
  obtain r where r: "map_of (td_tasks db) (tk_task_id task) = Some r" "tr_revision r = expected + 1"
    using saved(4) by blast
  have "extends db now"
    using saved(1) run_store_extends [of "\<lparr>sg_db = db, sg_journal = jr\<rparr>" later] assms(2) by (simp add: safe_def)
  then obtain q where q: "map_of (td_tasks now) (tk_task_id task) = Some q" "row_ext r q"
    using extends_row r(1) by blast
  then have "tr_revision q \<noteq> expected'" using row_ext_keys [OF q(2)] r(2) assms(4) by simp
  then have "save_body task' events' expected' scope' now = Inl (Refused ConcurrentUpdate)"
    using save_body_stale [of now task' q] q(1) assms(3) by simp
  then show ?thesis by (cases st') (simp_all add: save_task_def session_def)
qed

theorem save_wins_once_witness:
  "fst (save_task Store_ok classified_sample [sample_log ''e1'' TASK_CLASSIFIED] 0 None classified_db) \<noteq> Inr ()
    \<and> snd (save_task Store_ok classified_sample [sample_log ''e1'' TASK_CLASSIFIED] 0 None classified_db) = classified_db"
  by (rule save_wins_once [where before = "[created_op]" and later = "[]" and jr = None and expected = 0
        and task = classified_sample, OF saved_sample [unfolded created_db_def]]) simp_all

text \<open>
  C25. A claimed event belongs to its worker until the lease ends: through any history in which only others claim and
  acknowledge before that time, no other worker is given the event or can acknowledge it, and its owner still can.
\<close>

theorem lease_exclusive:
  assumes "s = run_store before empty_storage"
    and "claim_outbox Store_ok now owner limit period_s (sg_db s) = (Inr events, db)" "event \<in> set events"
    and "list_all (foreign owner (now + seconds period_s)) others"
    and "later = sg_db (run_store others (s\<lparr>sg_db := db\<rparr>))"
    and "other \<noteq> owner" "t < now + seconds period_s"
  shows "(case fst (claim_outbox st t other limit' period' later) of Inl e \<Rightarrow> True | Inr given \<Rightarrow> event \<notin> set given)
    \<and> fst (ack_outbox st t u (ev_event_id event) (Some other) later) \<noteq> Inr True
    \<and> fst (ack_outbox Store_ok t u (ev_event_id event) (Some owner) later) = Inr True"
proof -
  let ?until = "now + seconds period_s" and ?k = "ev_event_id event"
  have wf: "wf_db (sg_db s)" using assms(1) reached_wf by simp
  obtain r where r: "map_of (td_outbox db) ?k = Some r" "leased owner ?until r" "ox_payload r = event"
    and wf': "wf_db db"
    using claim_outbox_leased [OF assms(2) wf assms(3)] by blast
  have kept: "map_of (td_outbox later) ?k = Some r" "wf_db later"
    using foreign_history [of "s\<lparr>sg_db := db\<rparr>" ?k r owner ?until others] run_store_wf [of "s\<lparr>sg_db := db\<rparr>" others]
      r wf' assms(4,5) by simp_all
  have "event \<notin> set given" if "fst (claim_outbox st t other limit' period' later) = Inr given" for given
    using foreign_not_given [OF kept(2,1) r(3,2) assms(6,7) that] .
  moreover have "fst (ack_outbox st t u ?k (Some other) later) \<noteq> Inr True"
    using foreign_ack(2) [OF kept(1) r(2), of "Some other"] assms(6) by simp
  moreover have "fst (ack_outbox Store_ok t u ?k (Some owner) later) = Inr True"
    using kept(1) r(2) assms(7)
    by (simp add: ack_outbox_def plain_session_def session_def ack_body_def leased_def unacknowledged_def)
  ultimately show ?thesis by (auto split: sum.splits)
qed

theorem lease_exclusive_witness:
  "let later = sg_db (run_store [second_worker] \<lparr>sg_db = snd claimed_sample, sg_journal = None\<rparr>) in
    (case fst (claim_outbox Store_ok 2 ''second'' 10 30 later) of Inl e \<Rightarrow> True
      | Inr given \<Rightarrow> sample_log ''e0'' TASK_CREATED \<notin> set given)
    \<and> fst (ack_outbox Store_ok 2 3 ''e0'' (Some ''second'') later) \<noteq> Inr True
    \<and> fst (ack_outbox Store_ok 2 3 ''e0'' (Some ''first'') later) = Inr True"
proof -
  let ?s = "run_store [created_op] empty_storage"
  have s: "?s\<lparr>sg_db := snd claimed_sample\<rparr> = \<lparr>sg_db = snd claimed_sample, sg_journal = None\<rparr>" by code_simp
  have event: "ev_event_id (sample_log ''e0'' TASK_CREATED) = ''e0''" by (simp add: sample_log_def)
  have foreign: "list_all (foreign ''first'' (0 + seconds 30)) [second_worker]" by code_simp
  show ?thesis unfolding Let_def
    using lease_exclusive [OF refl claimed_sample_ok [unfolded created_db_def] _ foreign refl, where other = "''second''"
        and t = 2 and st = Store_ok and limit' = 10 and period' = 30 and u = 3]
    by (simp add: s event seconds_def ms_def)
qed

text \<open>
  C26. No event is lost on its way out: an event saved with a task is in the outbox after any history, and unless it was
  acknowledged or is under a running lease, a claim that covers the backlog hands it out.
\<close>

theorem saved_event_delivered:
  assumes "save_task st task events expected scope (sg_db (run_store before empty_storage)) = (Inr (), db)" "event \<in> set events"
    and "now = sg_db (run_store later \<lparr>sg_db = db, sg_journal = jr\<rparr>)"
    and "owner \<noteq> []" "0 < limit" "int (outbox_backlog now) \<le> limit" "0 < period_s"
  shows "\<exists>r. map_of (td_outbox now) (ev_event_id event) = Some r \<and> ox_payload r = event
    \<and> (\<not> unacknowledged r \<or> (\<exists>until. ox_claim_expires_at r = Some until \<and> t < until)
       \<or> (case claim_outbox Store_ok t owner limit period_s now of (Inr given, _) \<Rightarrow> event \<in> set given | _ \<Rightarrow> False))"
proof -
  note saved = save_task_ok [OF assms(1) reached_wf]
  let ?s = "\<lparr>sg_db = db, sg_journal = jr\<rparr>"
  have wf: "wf_db now" and ext: "extends db now"
    using saved(1) run_store_wf [of ?s later] run_store_extends [of ?s later] assms(3) by (simp_all add: safe_def)
  obtain r where r: "map_of (td_outbox now) (ev_event_id event) = Some r" "ox_payload r = event"
    using logged_extends [OF ext] saved(3) assms(2) unfolding logged_def by blast
  then show ?thesis using claim_gives_all [OF wf r(1), of owner limit period_s t] assms(4-7) by (auto split: sum.splits)
qed

theorem saved_event_delivered_witness:
  "\<exists>r. map_of (td_outbox classified_db) ''e1'' = Some r \<and> ox_payload r = sample_log ''e1'' TASK_CLASSIFIED
    \<and> (\<not> unacknowledged r \<or> (\<exists>until. ox_claim_expires_at r = Some until \<and> 5 < until)
       \<or> (case claim_outbox Store_ok 5 ''first'' 10 30 classified_db of
            (Inr given, _) \<Rightarrow> sample_log ''e1'' TASK_CLASSIFIED \<in> set given | _ \<Rightarrow> False))"
proof -
  have "int (outbox_backlog classified_db) \<le> 10" by code_simp
  then show ?thesis
    using saved_event_delivered [where before = "[created_op]", OF saved_sample [unfolded created_db_def],
        where event = "sample_log ''e1'' TASK_CLASSIFIED" and later = "[]" and jr = None and now = classified_db
          and owner = "''first''" and limit = 10 and period_s = 30 and t = 5]
    by (simp add: sample_log_def)
qed

text \<open>
  C27. Reconciling loses nothing, however the database and the file system behave: every line of the journal is
  retained, or is blank, or records a save that the database now holds with all its events.
\<close>

theorem reconcile_loses_nothing:
  assumes "reconcile_pending io w (Some j) (sg_db (run_store before empty_storage)) = (result, Some j', db)"
    and "line \<in> set (file_lines j)"
  shows "blank_line line \<or> line \<in> set (file_lines j')
    \<or> (\<exists>expected task events. line = Journal_record expected task events \<and> persisted db task events)"
proof -
  obtain retained replayed db' where pass: "replay_lines w 0 (file_lines j) (sg_db (run_store before empty_storage))
      = (retained, replayed, db')" by (cases "replay_lines w 0 (file_lines j) (sg_db (run_store before empty_storage))")
  consider "j' = j" | "j' = \<lparr>jn_lines = retained, jn_torn = []\<rparr>" "db' = db"
    using assms(1) pass by (auto simp: reconcile_pending_def reconcile_unlocked_def replace_journal_def
        split: if_splits store_outcome.splits)
  then show ?thesis
    using assms(2) replay_lines_account [OF pass reached_wf assms(2)] by cases (auto simp: file_lines_def)
qed

theorem reconcile_loses_nothing_witness:
  "Journal_text ''frag'' \<in> set (file_lines \<lparr>jn_lines = [Journal_text ''frag''], jn_torn = []\<rparr>)
    \<and> persisted classified_db classified_sample [sample_log ''e1'' TASK_CLASSIFIED]"
proof -
  have "Journal_text ''frag'' \<in> set (file_lines journal_sample)" "\<not> blank_line (Journal_text ''frag'')"
      "Journal_record 0 classified_sample [sample_log ''e1'' TASK_CLASSIFIED] \<in> set (file_lines journal_sample)"
    by code_simp+
  moreover have "\<not> blank_line (Journal_record 0 t events)"
      "Journal_record 0 t events \<notin> set (file_lines \<lparr>jn_lines = [Journal_text ''frag''], jn_torn = []\<rparr>)" for t events
    by (simp_all add: blank_line_def file_lines_def)
  ultimately show ?thesis
    using reconcile_loses_nothing [OF reconciled_sample [unfolded created_db_def]] by blast
qed



end
