(* ===== verification/Classifier.thy ===== *)
theory Classifier
  imports TaskContracts Modifiers Json Actions
begin

text \<open>
  The task classifier of \<^verbatim>\<open>classification/classifier.py\<close> with its contracts: the vocabulary that the
  policy gives to the structured output, the binding of a configuration to prompt, schema and policy,
  the single invocation through the provider port, and the normalization of what it returns.

  The strict output type that the source builds with a third-party library is a record of its
  vocabulary, and \<open>wire_errors\<close> is what validating against it reports: the fields in the order of
  their declaration, then forbidden extra keys. Hashes are parameters, and so is the reading of the
  content tokens of a dumped output as a JSON value.
\<close>

section \<open>Configuration\<close>

record classifier_file =
  kc_schema_version :: string
  kc_version :: string
  kc_prompt_version :: string
  kc_status :: document_status
  kc_model_alias :: string
  kc_reasoning_effort :: effort
  kc_max_output_tokens :: nat
  kc_timeout_ms :: nat
  kc_live_enabled :: bool
  kc_prompt_path :: string

record classifier_config = classifier_file +
  kc_prompt_text :: string
  kc_prompt_hash :: string
  kc_schema_hash :: string
  kc_configuration_hash :: string
  kc_bundle_hash :: string

record output_type =
  ot_families :: "string list"
  ot_components :: "(string \<times> component_range) list"
  ot_flags :: "string list"

record classifier_digests =
  kd_schema :: "output_type \<Rightarrow> string"
  kd_text :: "string \<Rightarrow> string"
  kd_config :: "classifier_file \<Rightarrow> string \<Rightarrow> string \<Rightarrow> string \<Rightarrow> string"
  kd_read :: "dumped_model \<Rightarrow> json"

definition flag_vocabulary :: "policy_document \<Rightarrow> string list" where
  "flag_vocabulary p = sort (remdups (concat (map (ma_flags_all \<circ> fr_match) (pol_task_family_floors p)
     @ map (ma_flags_all \<circ> md_match) (pol_modifiers p))))"

definition build_output_type :: "policy_bundle \<Rightarrow> output_type res" where
  "build_output_type b =
     (let p = pb_policy b; configured = cx_components (pol_complexity p) in
      if set (map fst configured) \<noteq> set component_names then Inl ConfigurationError
      else if pol_task_families p = [] then Inl ConfigurationError
      else Inr \<lparr>ot_families = pol_task_families p,
        ot_components = map (\<lambda>name. (name, the (map_of configured name))) component_names,
        ot_flags = flag_vocabulary p\<rparr>)"

text \<open>
  Loading, from the parsed file on: whether the resolved prompt path stays in the directory of the
  configuration, and the prompt it names, if it can be read, are arguments.
\<close>

definition load_classifier_config :: "classifier_digests \<Rightarrow> classifier_file \<Rightarrow> bool \<Rightarrow> string option \<Rightarrow> policy_bundle
    \<Rightarrow> classifier_config res" where
  "load_classifier_config kd parsed inside prompt b =
     bind_res (check_res inside ConfigurationError) (\<lambda>_.
     bind_res (case prompt of None \<Rightarrow> Inl ConfigurationError | Some text \<Rightarrow> Inr text) (\<lambda>text.
     bind_res (check_res (\<not> blank_text text) ConfigurationError) (\<lambda>_.
     bind_res (case map_of (bundle_models b) (kc_model_alias parsed) of
        None \<Rightarrow> Inl ConfigurationError | Some m \<Rightarrow> Inr m) (\<lambda>model.
     bind_res (check_res (av_configured_enabled (me_availability model)) ConfigurationError) (\<lambda>_.
     bind_res (check_res (kc_reasoning_effort parsed \<in> set (me_reasoning_efforts model)) ConfigurationError) (\<lambda>_.
     bind_res (check_res (cap_text_input (me_capabilities model) = Some True
        \<and> cap_structured_outputs (me_capabilities model) = Some True) ConfigurationError) (\<lambda>_.
     bind_res (check_res (kc_max_output_tokens parsed \<le> me_max_output_tokens model) ConfigurationError) (\<lambda>_.
     bind_res (build_output_type b) (\<lambda>output.
     let prompt_hash = kd_text kd text; schema_hash = kd_schema kd output
     in Inr (classifier_file.extend parsed
          \<lparr>kc_prompt_text = text, kc_prompt_hash = prompt_hash, kc_schema_hash = schema_hash,
           kc_configuration_hash = kd_config kd parsed prompt_hash schema_hash (pb_content_hash b),
           kc_bundle_hash = pb_content_hash b\<rparr>))))))))))"

definition check_binding :: "classifier_digests \<Rightarrow> policy_bundle \<Rightarrow> classifier_config \<Rightarrow> unit res" where
  "check_binding kd b config =
     bind_res (check_res (kc_bundle_hash config = pb_content_hash b) ConfigurationError) (\<lambda>_.
     bind_res (build_output_type b) (\<lambda>output.
     let schema_hash = kd_schema kd output; prompt_hash = kd_text kd (kc_prompt_text config);
         configuration_hash = kd_config kd (classifier_file.truncate config) prompt_hash schema_hash (pb_content_hash b)
     in bind_res (check_res (kc_schema_hash config = schema_hash \<and> kc_prompt_hash config = prompt_hash) ConfigurationError)
          (\<lambda>_. check_res (kc_configuration_hash config = configuration_hash) ConfigurationError)))"

definition provenance :: "classifier_config \<Rightarrow> policy_bundle \<Rightarrow> string" where
  "provenance config b =
     kc_version config @ '';prompt='' @ kc_prompt_version config @ ''@sha256:'' @ kc_prompt_hash config
     @ '';schema='' @ kc_schema_version config @ ''@sha256:'' @ kc_schema_hash config
     @ '';config=sha256:'' @ kc_configuration_hash config @ '';policy=sha256:'' @ pb_content_hash b"

section \<open>The wire format\<close>

definition wire_fields :: "string list" where
  "wire_fields = [''task_family'', ''task_subclass'', ''components'', ''confidence'', ''flags'']"

definition family_valid :: "output_type \<Rightarrow> json option \<Rightarrow> bool" where
  "family_valid t j = (case as_text j of None \<Rightarrow> False | Some family \<Rightarrow> family \<in> set (ot_families t))"

definition in_bounds :: "component_range \<Rightarrow> json \<Rightarrow> bool" where
  "in_bounds r j = (case j of JInt i \<Rightarrow> int (cr_min r) \<le> i \<and> i \<le> int (cr_max r) | _ \<Rightarrow> False)"

definition components_valid :: "output_type \<Rightarrow> json option \<Rightarrow> bool" where
  "components_valid t j = (case as_map j of None \<Rightarrow> False
     | Some m \<Rightarrow> set (map fst m) = set (map fst (ot_components t))
         \<and> list_all (\<lambda>(name, r). case map_of m name of None \<Rightarrow> False | Some v \<Rightarrow> in_bounds r v) (ot_components t))"

definition confidence_of :: "json option \<Rightarrow> rat option" where
  "confidence_of j = (case j of Some (JFloat r) \<Rightarrow> if 0 \<le> r \<and> r \<le> 1 then Some r else None
     | Some (JInt i) \<Rightarrow> if 0 \<le> i \<and> i \<le> 1 then Some (of_int i) else None
     | _ \<Rightarrow> None)"

definition flags_valid :: "output_type \<Rightarrow> json option \<Rightarrow> bool" where
  "flags_valid t j = (case as_map j of None \<Rightarrow> False
     | Some m \<Rightarrow> set (map fst m) = set (ot_flags t)
         \<and> list_all (\<lambda>name. case map_of m name of Some (JBool b) \<Rightarrow> True | _ \<Rightarrow> False) (ot_flags t))"

definition wire_errors :: "output_type \<Rightarrow> json \<Rightarrow> string list" where
  "wire_errors t payload = (case payload of
     JMap m \<Rightarrow>
       (if family_valid t (map_of m ''task_family'') then [] else [''task_family''])
       @ (if map_of m ''task_subclass'' = Some JNull then [] else [''task_subclass''])
       @ (if components_valid t (map_of m ''components'') then [] else [''components''])
       @ (if confidence_of (map_of m ''confidence'') \<noteq> None then [] else [''confidence''])
       @ (if flags_valid t (map_of m ''flags'') then [] else [''flags''])
       @ (if set (map fst m) \<subseteq> set wire_fields then [] else [''unknown_field''])
   | _ \<Rightarrow> [''unknown_field''])"

definition validation_diagnostics :: "string list \<Rightarrow> string list" where
  "validation_diagnostics labels = (let safe = stable_unique labels in if safe = [] then [''structured_output''] else safe)"

section \<open>Results\<close>

record classification_result =
  kr_classification :: classification
  kr_classifier_version :: string
  kr_prompt_version :: string
  kr_schema_version :: string
  kr_configuration_hash :: string
  kr_provider_result :: "provider_result option"

record classification_failure =
  kf_task_id :: string
  kf_trace_id :: string
  kf_classifier_version :: string
  kf_prompt_version :: string
  kf_schema_version :: string
  kf_configuration_hash :: string
  kf_failure_type :: failure_type
  kf_cause_code :: string
  kf_diagnostic_fields :: "string list"
  kf_provider_result :: "provider_outcome option"

datatype classified = Characterized classification_result | Unclassified classification_failure

definition classifier_failure :: "request \<Rightarrow> classifier_config \<Rightarrow> failure_type \<Rightarrow> string \<Rightarrow> string list
    \<Rightarrow> provider_outcome option \<Rightarrow> classified" where
  "classifier_failure r config ft cause diagnostics result = Unclassified
     \<lparr>kf_task_id = rq_task_id r, kf_trace_id = rq_trace_id r, kf_classifier_version = kc_version config,
      kf_prompt_version = kc_prompt_version config, kf_schema_version = kc_schema_version config,
      kf_configuration_hash = kc_configuration_hash config, kf_failure_type = ft, kf_cause_code = cause,
      kf_diagnostic_fields = diagnostics, kf_provider_result = result\<rparr>"

definition json_nat :: "(string \<times> json) list \<Rightarrow> string \<Rightarrow> nat" where
  "json_nat m name = (case map_of m name of Some (JInt i) \<Rightarrow> nat i | _ \<Rightarrow> 0)"

definition wire_components :: "(string \<times> json) list \<Rightarrow> components" where
  "wire_components m = \<lparr>reasoning_depth = json_nat m ''reasoning_depth'', step_dependency = json_nat m ''step_dependency'',
     context_synthesis = json_nat m ''context_synthesis'', technical_precision = json_nat m ''technical_precision'',
     ambiguity = json_nat m ''ambiguity'', tool_orchestration = json_nat m ''tool_orchestration'',
     reliability_requirement = json_nat m ''reliability_requirement''\<rparr>"

definition wire_flags :: "output_type \<Rightarrow> (string \<times> json) list \<Rightarrow> (string \<times> bool) list" where
  "wire_flags t m = map (\<lambda>name. (name, map_of m name = Some (JBool True))) (ot_flags t)"

text \<open>The characterization of a payload without errors.\<close>

definition wire_classification :: "output_type \<Rightarrow> string \<Rightarrow> (string \<times> json) list \<Rightarrow> classification" where
  "wire_classification t source m =
     \<lparr>cl_task_family = the (as_text (map_of m ''task_family'')), cl_task_subclass = None,
      cl_components = wire_components (the (as_map (map_of m ''components''))),
      cl_confidence = the (confidence_of (map_of m ''confidence'')),
      cl_flags = wire_flags t (the (as_map (map_of m ''flags''))),
      cl_provenance = source, cl_supplied_total = None\<rparr>"

definition normalize :: "policy_bundle \<Rightarrow> classifier_config \<Rightarrow> output_type \<Rightarrow> request \<Rightarrow> json \<Rightarrow> provider_result option
    \<Rightarrow> classified" where
  "normalize b config t r payload result =
     (case (wire_errors t payload, payload) of
        ([], JMap m) \<Rightarrow> Characterized
          \<lparr>kr_classification = wire_classification t (provenance config b) m, kr_classifier_version = kc_version config,
           kr_prompt_version = kc_prompt_version config, kr_schema_version = kc_schema_version config,
           kr_configuration_hash = kc_configuration_hash config, kr_provider_result = result\<rparr>
      | (errors, _) \<Rightarrow> classifier_failure r config MALFORMED_OUTPUT ''CLASSIFIER_OUTPUT_SCHEMA_INVALID''
          (validation_diagnostics errors) (map_option Result result))"

section \<open>The classifiers\<close>

definition new_normalizer :: "classifier_digests \<Rightarrow> policy_bundle \<Rightarrow> classifier_config \<Rightarrow> output_type res" where
  "new_normalizer kd b config = bind_res (check_binding kd b config) (\<lambda>_. build_output_type b)"

record instructed_request = provider_request +
  iq_instructions :: "string option"
  iq_output :: "output_type option"

definition classifier_request :: "policy_bundle \<Rightarrow> classifier_config \<Rightarrow> output_type \<Rightarrow> request \<Rightarrow> string \<Rightarrow> model_entry
    \<Rightarrow> instructed_request" where
  "classifier_request b config t r unique model =
     \<lparr>pq_task_id = rq_task_id r, pq_trace_id = rq_trace_id r, pq_invocation_id = ''classifier:'' @ unique,
      pq_policy_version = pol_version (pb_policy b), pq_catalog_version = cat_catalog_version (pb_catalog b),
      pq_model_alias = kc_model_alias config, pq_provider_model_id = me_provider_model_id model,
      pq_reasoning_effort = kc_reasoning_effort config, pq_input = rq_input r, pq_output_type = None,
      pq_max_output_tokens = kc_max_output_tokens config, pq_timeout_ms = kc_timeout_ms config,
      pq_purpose = For_classification, iq_instructions = Some (kc_prompt_text config), iq_output = Some t\<rparr>"

definition judge_outcome :: "classifier_digests \<Rightarrow> policy_bundle \<Rightarrow> classifier_config \<Rightarrow> output_type \<Rightarrow> request
    \<Rightarrow> provider_outcome \<Rightarrow> classified" where
  "judge_outcome kd b config t r out = (case out of
     Provider_failed f \<Rightarrow> classifier_failure r config (pf_failure_type f) (pf_cause_code f) (pf_diagnostic_fields f) (Some out)
   | Result result \<Rightarrow>
       if pe_response_status result \<noteq> Some Response_completed
       then classifier_failure r config MALFORMED_OUTPUT ''CLASSIFIER_PROVIDER_INCOMPLETE'' [''response_status''] (Some out)
       else if ps_refused result
       then classifier_failure r config MALFORMED_OUTPUT ''CLASSIFIER_PROVIDER_REFUSAL'' [''refused''] (Some out)
       else (case ps_structured_output result of
           None \<Rightarrow> classifier_failure r config MALFORMED_OUTPUT ''CLASSIFIER_OUTPUT_MISSING'' [''structured_output''] (Some out)
         | Some m \<Rightarrow> normalize b config t r (kd_read kd m) (Some result)))"

definition classify_live :: "classifier_digests \<Rightarrow> policy_bundle \<Rightarrow> classifier_config \<Rightarrow> output_type
    \<Rightarrow> (instructed_request \<Rightarrow> (provider_outcome, 'e, 's) act) \<Rightarrow> (string, 'e, 's) act \<Rightarrow> (router_error \<Rightarrow> 'e)
    \<Rightarrow> request \<Rightarrow> (classified, 'e, 's) act" where
  "classify_live kd b config t execute uuid raised r =
     (if \<not> kc_live_enabled config
      then ret (classifier_failure r config CAPABILITY_FAILURE ''CLASSIFIER_LIVE_DISABLED'' [''live_enabled''] None)
      else (case map_of (bundle_models b) (kc_model_alias config) of
          None \<Rightarrow> raise (raised KeyError)
        | Some model \<Rightarrow>
            seq uuid (\<lambda>unique.
            seq (execute (classifier_request b config t r unique model)) (\<lambda>out.
            ret (judge_outcome kd b config t r out)))))"

text \<open>The deterministic classifier with keyed or sequential scripted outputs.\<close>

record mock_classifier =
  mk_keyed :: "(string \<times> json) list option"
  mk_outputs :: "json list"
  mk_calls :: nat

definition new_mock_classifier :: "json list + (string \<times> json) list \<Rightarrow> mock_classifier" where
  "new_mock_classifier outputs = (case outputs of
     Inr m \<Rightarrow> if set wire_fields \<subseteq> set (map fst m)
       then \<lparr>mk_keyed = None, mk_outputs = [JMap m], mk_calls = 0\<rparr>
       else \<lparr>mk_keyed = Some m, mk_outputs = [], mk_calls = 0\<rparr>
   | Inl items \<Rightarrow> \<lparr>mk_keyed = None, mk_outputs = items, mk_calls = 0\<rparr>)"

definition mock_classify :: "policy_bundle \<Rightarrow> classifier_config \<Rightarrow> output_type \<Rightarrow> request \<Rightarrow> mock_classifier
    \<Rightarrow> classified \<times> mock_classifier" where
  "mock_classify b config t r mk = (let mk' = mk\<lparr>mk_calls := Suc (mk_calls mk)\<rparr> in
     case mk_keyed mk of
       Some keyed \<Rightarrow> (case map_of keyed (rq_input r) of
           None \<Rightarrow> (classifier_failure r config MALFORMED_OUTPUT ''CLASSIFIER_INPUT_UNSCRIPTED'' [''input''] None, mk')
         | Some payload \<Rightarrow> (normalize b config t r payload None, mk'))
     | None \<Rightarrow> (case mk_outputs mk of
           [] \<Rightarrow> (classifier_failure r config MALFORMED_OUTPUT ''CLASSIFIER_SCRIPT_EXHAUSTED'' [] None, mk')
         | payload # rest \<Rightarrow> (normalize b config t r payload None, mk'\<lparr>mk_outputs := rest\<rparr>)))"

end
