(* ===== verification/LiveAdmission.thy ===== *)
theory LiveAdmission
  imports Classifier OutputValidation
begin

text \<open>
  \<^verbatim>\<open>execution/live.py\<close>: the injected authorization of the live path, which bounds an invocation by
  tokens, time and the worst price of its tariff, and what a release demands of an environment.

  The guard is a function of the state of the outside world; \<open>None\<close> stands for an exception of it. The
  byte size of the printed wire form of an invocation is a parameter. The schema of the catalog
  admits one service tier only, so the comparison with it has no counterpart.

  The lemmas show that the worst price covers whatever usage within the admitted token counts costs.
\<close>

section \<open>The authorization\<close>

record 'w live_authorization =
  la_release_version :: string
  la_max_input_tokens :: nat
  la_input_overhead_tokens :: nat
  la_check :: "'w \<Rightarrow> bool option \<times> 'w"
  la_max_output_tokens :: nat
  la_provider_timeout_ms :: nat
  la_durable_allocation_verified :: "(string \<Rightarrow> 'w \<Rightarrow> bool option \<times> 'w) option"
  la_wire_size :: "instructed_request \<Rightarrow> nat"

definition new_live_authorization :: "'w live_authorization \<Rightarrow> 'w live_authorization res" where
  "new_live_authorization la =
     (if la_release_version la = [] \<or> la_max_input_tokens la = 0 then Inl ValueError else Inr la)"

definition answers_true :: "bool option \<times> 'w \<Rightarrow> bool \<times> 'w" where
  "answers_true r = (case r of (Some b, w) \<Rightarrow> (b, w) | (None, w) \<Rightarrow> (False, w))"

definition allocation_ready :: "'w live_authorization \<Rightarrow> string \<Rightarrow> 'w \<Rightarrow> bool \<times> 'w" where
  "allocation_ready la task w = (case la_durable_allocation_verified la of
     None \<Rightarrow> (False, w) | Some verified \<Rightarrow> answers_true (verified task w))"

definition live_ready :: "'w live_authorization \<Rightarrow> 'w \<Rightarrow> bool \<times> 'w" where
  "live_ready la w = answers_true (la_check la w)"

definition bound_request :: "'w live_authorization \<Rightarrow> request \<Rightarrow> request" where
  "bound_request la r = r\<lparr>rq_context := \<lparr>tc_input_tokens = la_max_input_tokens la,
     tc_expected_output_tokens = tc_expected_output_tokens (rq_context r), tc_cached_input_tokens = 0,
     tc_cache_write_tokens = 0, tc_cache_evidence = False\<rparr>\<rparr>"

definition allows :: "'w live_authorization \<Rightarrow> instructed_request \<Rightarrow> 'w \<Rightarrow> bool \<times> 'w" where
  "allows la q w =
     (if la_wire_size la q + la_input_overhead_tokens la \<le> la_max_input_tokens la
        \<and> pq_max_output_tokens q \<le> la_max_output_tokens la
      then live_ready la w else (False, w))"

section \<open>The worst price\<close>

definition price_context :: dec_context where
  "price_context = \<lparr>prec = 80, rounding_mode = ROUND_HALF_EVEN\<rparr>"

definition upper_cost :: "nat \<Rightarrow> model_entry \<Rightarrow> nat \<Rightarrow> decimal res" where
  "upper_cost max_input model max_output =
     (let p = me_pricing model; tokens = (\<lambda>n. dec_of_int (int n)) in
      case pr_long_context p of
        None \<Rightarrow> Inl TypeError
      | Some l \<Rightarrow>
          if lc_input_tokens_gt l < max_input \<or> me_max_output_tokens model < max_output
             \<or> me_context_window_tokens model < max_output + max_input
          then Inl ValueError
          else (case (pr_input_usd p, pr_cached_input_usd p, pr_output_usd p, pr_cache_write_input_multiplier p) of
              (Some input, Some cached, Some outp, Some mult) \<Rightarrow>
                let rate = dec_max (dec_max input cached) (dec_mul price_context input mult)
                in Inr (dec_div price_context
                     (dec_add price_context (dec_mul price_context (tokens max_input) rate)
                        (dec_mul price_context (tokens max_output) outp))
                     (tokens (pr_unit_tokens p)))
            | _ \<Rightarrow> Inl ValueError))"

section \<open>Release environments\<close>

definition release_environment_ok :: "environment \<Rightarrow> bool" where
  "release_environment_ok e = (\<not> env_synthetic e \<and> env_validation e = []
     \<and> (env_application_overlay e = None) = (env_application_overlay_version e = None))"

section \<open>The worst price is exact\<close>

text \<open>
  A live tariff has prices of at most twelve digits with at most twelve decimals, and a unit of at
  most a million million tokens: within these bounds no step of the computation rounds.
\<close>

definition live_price :: "decimal \<Rightarrow> bool" where
  "live_price d = (digits d \<le> 12 \<and> - 12 \<le> expo d \<and> expo d \<le> 0 \<and> money_ok d)"

lemma live_price_units: "live_price d \<Longrightarrow> in_units (- 12) 24 d"
  using in_units_decimal [of d 12 12] by (simp add: live_price_def)

lemma live_tokens_units: "n < 10 ^ 12 \<Longrightarrow> in_units 0 12 (dec_of_int (int n))"
  by (rule in_unitsI [where t = "int n"]) (simp_all add: dec_of_int_def dval_def)

definition exact_upper :: "nat \<Rightarrow> pricing \<Rightarrow> decimal \<Rightarrow> decimal \<Rightarrow> decimal \<Rightarrow> decimal \<Rightarrow> nat \<Rightarrow> rat" where
  "exact_upper max_input p input cached outp mult max_output =
     (of_nat max_input * max (max (dval input) (dval cached)) (dval input * dval mult)
        + of_nat max_output * dval outp) / of_nat (pr_unit_tokens p)"

lemma upper_cost_Inr:
  assumes "upper_cost max_input model max_output = Inr upper"
  obtains l input cached outp mult where "pr_long_context (me_pricing model) = Some l"
    "max_input \<le> lc_input_tokens_gt l" "max_output \<le> me_max_output_tokens model"
    "max_output + max_input \<le> me_context_window_tokens model"
    "pr_input_usd (me_pricing model) = Some input" "pr_cached_input_usd (me_pricing model) = Some cached"
    "pr_output_usd (me_pricing model) = Some outp" "pr_cache_write_input_multiplier (me_pricing model) = Some mult"
  using assms by (auto simp: upper_cost_def Let_def split: option.splits if_splits)

lemma upper_cost_exact:
  assumes upper: "upper_cost max_input model max_output = Inr upper"
    and prices: "pr_input_usd (me_pricing model) = Some input" "pr_cached_input_usd (me_pricing model) = Some cached"
      "pr_output_usd (me_pricing model) = Some outp" "pr_cache_write_input_multiplier (me_pricing model) = Some mult"
    and live: "live_price input" "live_price cached" "live_price outp" "live_price mult"
    and tokens: "max_input < 10 ^ 12" "max_output < 10 ^ 12"
    and unit: "pr_unit_tokens (me_pricing model) = 10 ^ k" "k \<le> 12"
  shows "dval upper = exact_upper max_input (me_pricing model) input cached outp mult max_output"
proof -
  let ?c = price_context
  let ?w = "dec_mul ?c input mult" and ?in = "dec_of_int (int max_input)" and ?out = "dec_of_int (int max_output)"
  let ?rate = "dec_max (dec_max input cached) ?w"
  let ?a = "dec_mul ?c ?in ?rate" and ?b = "dec_mul ?c ?out outp"
  have p: "prec ?c = 80" by (simp add: price_context_def)
  have w: "dval ?w = dval input * dval mult" "in_units (- 24) 48 ?w"
    using in_units_mul [OF live_price_units [OF live(1)] live_price_units [OF live(4)], of ?c] by (simp_all add: p)
  have "in_units (- 24) 48 input" "in_units (- 24) 48 cached"
    using live by (auto intro: in_units_weaken [OF live_price_units])
  with w(2) have "in_units (- 24) 48 ?rate" by (simp add: dec_max_def)
  from in_units_mul [OF live_tokens_units [OF tokens(1)] this, of ?c]
  have a: "dval ?a = dval ?in * dval ?rate" "in_units (- 24) 60 ?a" by (simp_all add: p)
  from in_units_mul [OF live_tokens_units [OF tokens(2)] live_price_units [OF live(3)], of ?c]
  have b: "dval ?b = dval ?out * dval outp" "in_units (- 12) 36 ?b" by (simp_all add: p)
  obtain s t where s: "dval ?a = of_int s * 10 powi (- 24)" "\<bar>s\<bar> < 10 ^ 60"
    and t: "dval ?b = of_int t * 10 powi (- 24)" "\<bar>t\<bar> < 10 ^ 60"
    using a(2) in_units_weaken [OF b(2), of "- 24" 60] by (auto simp: in_units_def)
  have sum: "dval (exact_add ?a ?b) = of_int (s + t) * 10 powi (- 24)"
    using s t by (simp add: ring_distribs)
  have lt: "\<bar>s + t\<bar> < 10 ^ 61" using s(2) t(2) by simp
  have ab: "dval (dec_add ?c ?a ?b) = dval ?a + dval ?b"
    using dec_fix_exact_val [OF _ sum, of ?c] lt by (simp add: dec_add_def p)
  have ab_units: "in_units (- 24) 61 (dec_add ?c ?a ?b)"
    by (rule in_unitsI [where t = "s + t"]) (use ab sum lt in simp_all)
  have pos: "0 \<le> dval ?a + dval ?b"
    using live by (auto simp: a(1) b(1) live_price_def money_ok_iff max_def)
  have "dval (dec_div ?c (dec_add ?c ?a ?b) (dec_of_int (10 ^ k))) = dval (dec_add ?c ?a ?b) / 10 ^ k"
    by (rule in_units_div [OF ab_units]) (use pos ab in \<open>simp_all add: money_ok_iff p\<close>)
  moreover have "upper = dec_div ?c (dec_add ?c ?a ?b) (dec_of_int (10 ^ k))"
    using upper by (auto simp: upper_cost_def Let_def prices unit(1) split: option.splits if_splits)
  ultimately show ?thesis by (simp add: exact_upper_def ab a(1) b(1) w(1) unit(1))
qed

section \<open>Usage within the bounds\<close>

lemma covered_usage:
  assumes nonneg: "0 \<le> (i::rat)" "0 \<le> c" "0 \<le> w"
    and input: "c + w + u \<le> max_input" and generated: "out \<le> max_output" "0 \<le> price"
    and rates: "i \<le> rate" "cached \<le> rate" "i * mult \<le> rate" and pos: "0 < unit" "0 \<le> u" "0 \<le> rate"
  shows "u * i / unit + (c * cached / unit + (w * (i * mult) / unit + out * price / unit))
    \<le> (max_input * rate + max_output * price) / unit"
proof -
  have "u * i + c * cached + w * (i * mult) \<le> u * rate + c * rate + w * rate"
    using nonneg pos rates by (intro add_mono mult_left_mono) auto
  also have "\<dots> = (c + w + u) * rate" by (simp add: algebra_simps)
  also have "\<dots> \<le> max_input * rate" using input pos by (intro mult_right_mono) auto
  finally have "u * i + c * cached + w * (i * mult) + out * price \<le> max_input * rate + max_output * price"
    using generated by (intro add_mono mult_right_mono) auto
  then show ?thesis using pos(1) by (simp add: divide_right_mono flip: add_divide_distrib)
qed

end
