(* ===== verification/Preview.thy ===== *)
theory Preview
  imports LiveAdmission
begin

text \<open>
  A paid classification followed by deterministic routing, with no executor path:
  \<^verbatim>\<open>execution/preview.py\<close> with the evidence of \<^verbatim>\<open>core/preview_contracts.py\<close>.

  The dependencies are functions of the state of the outside world, as they are for the executor, but
  here the code looks at the class of an exception: \<open>Known RepositoryUnavailable\<close> is the one it lets
  through, \<open>Other_exception\<close> any class without a name in the model. The state holds the value that the
  preview last saved, the number of provider calls and a trace of the calls of the dependencies, which
  is not a field of the source. Times of the monotonic clock are rationals.
\<close>

section \<open>Evidence\<close>

datatype preview_status =
    Preview_claimed | Preview_started | Preview_accounted | Preview_completed | Preview_blocked | Preview_uncertain

datatype usage_status = Usage_known | Usage_partial | Usage_unavailable

datatype spend_status = Not_incurred | Spend_unknown | Spend_known

record preview =
  vw_preview_id :: string
  vw_application_id :: string
  vw_task_id :: string
  vw_trace_id :: string
  vw_status :: preview_status
  vw_created_at :: instant
  vw_updated_at :: instant
  vw_release_version :: string
  vw_release_sha256 :: string
  vw_activation_id :: string
  vw_account_evidence_id :: string
  vw_policy_version :: string
  vw_catalog_version :: string
  vw_pricing_version :: string
  vw_classifier_version :: string
  vw_classifier_configuration_hash :: string
  vw_classifier_timeout_ms :: "nat option"
  vw_classifier_max_input_tokens :: "nat option"
  vw_classifier_max_output_tokens :: "nat option"
  vw_classification :: "classification option"
  vw_classifier_evidence :: "provider_evidence option"
  vw_classifier_usage_status :: usage_status
  vw_route :: "route_result option"
  vw_reserved_cost_usd :: "decimal option"
  vw_actual_cost_usd :: "decimal option"
  vw_cost_status :: spend_status
  vw_settled :: bool
  vw_cause_code :: "string option"

definition usage_values :: "provider_usage \<Rightarrow> nat option list" where
  "usage_values u = [us_input_tokens u, us_cached_input_tokens u, us_cache_write_input_tokens u, us_output_tokens u,
     us_reasoning_tokens u, us_total_tokens u]"

definition usage_status_of :: "provider_usage \<Rightarrow> usage_status" where
  "usage_status_of u = (if list_all (\<lambda>v. v \<noteq> None) (usage_values u) then Usage_known
     else if list_all (\<lambda>v. v = None) (usage_values u) then Usage_unavailable else Usage_partial)"

section \<open>Dependencies\<close>

datatype fault = Known router_error | Other_exception

record 'w preview_dependencies =
  pd_application_id :: string
  pd_release_sha256 :: string
  pd_activation_id :: string
  pd_account_evidence_id :: string
  pd_bundle :: policy_bundle
  pd_digests :: digests
  pd_environment :: "'w \<Rightarrow> (fault + environment) \<times> 'w"
  pd_classifier_config :: classifier_config
  pd_classifier_digests :: classifier_digests
  pd_classifier_provider :: "instructed_request \<Rightarrow> 'w \<Rightarrow> provider_outcome option \<times> 'w"
  pd_authorization :: "'w live_authorization"
  pd_claim :: "preview \<Rightarrow> string \<Rightarrow> string \<Rightarrow> 'w \<Rightarrow> (fault + preview option) \<times> 'w"
  pd_save :: "preview \<Rightarrow> preview \<Rightarrow> 'w \<Rightarrow> (fault + unit) \<times> 'w"
  pd_pin_versions :: "policy_bundle \<Rightarrow> 'w \<Rightarrow> (fault + unit) \<times> 'w"
  pd_reserve :: "string \<Rightarrow> string \<Rightarrow> decimal \<Rightarrow> 'w \<Rightarrow> (fault + bool) \<times> 'w"
  pd_settle :: "string \<Rightarrow> string \<Rightarrow> decimal \<Rightarrow> 'w \<Rightarrow> (fault + unit) \<times> 'w"
  pd_now :: "'w \<Rightarrow> instant \<times> 'w"
  pd_monotonic :: "'w \<Rightarrow> rat \<times> 'w"
  pd_uuid :: "'w \<Rightarrow> string \<times> 'w"
  pd_deadline_ms :: nat
  pd_key_digest :: "string \<Rightarrow> string \<Rightarrow> string"
  pd_request_digest :: "request \<Rightarrow> string"

definition new_preview_dependencies :: "'w preview_dependencies \<Rightarrow> 'w preview_dependencies res" where
  "new_preview_dependencies d =
     (if pd_application_id d = [] \<or> pd_deadline_ms d = 0
        \<or> pd_deadline_ms d < kc_timeout_ms (pd_classifier_config d)
        \<or> la_provider_timeout_ms (pd_authorization d) < kc_timeout_ms (pd_classifier_config d)
      then Inl ValueError else Inr d)"

section \<open>The state of one preview\<close>

datatype preview_error = Stopped | Preview_unavailable | Fault fault

datatype preview_call =
    Did_claim preview
  | Did_save preview preview
  | Did_reserve string decimal bool
  | Did_execute instructed_request
  | Did_settle string decimal

record 'w preview_state =
  vs_value :: "preview option"
  vs_calls :: nat
  vs_log :: "preview_call list"
  vs_world :: 'w

type_synonym ('a, 'w) preview_step = "('a, preview_error, 'w preview_state) act"

definition ask :: "('w \<Rightarrow> 'a \<times> 'w) \<Rightarrow> ('a, 'w) preview_step" where
  "ask f s = (case f (vs_world s) of (x, w) \<Rightarrow> (Inr x, s\<lparr>vs_world := w\<rparr>))"

definition dep :: "('w \<Rightarrow> (fault + 'a) \<times> 'w) \<Rightarrow> ('a, 'w) preview_step" where
  "dep f s = (case f (vs_world s) of
     (Inl e, w) \<Rightarrow> (Inl (Fault e), s\<lparr>vs_world := w\<rparr>)
   | (Inr x, w) \<Rightarrow> (Inr x, s\<lparr>vs_world := w\<rparr>))"

definition known_res :: "'a res \<Rightarrow> ('a, 'w) preview_step" where
  "known_res r = (case r of Inl e \<Rightarrow> raise (Fault (Known e)) | Inr x \<Rightarrow> ret x)"

definition record_call :: "preview_call \<Rightarrow> (unit, 'w) preview_step" where
  "record_call c = modify (\<lambda>s. s\<lparr>vs_log := vs_log s @ [c]\<rparr>)"

definition save_preview :: "'w preview_dependencies \<Rightarrow> (preview \<Rightarrow> preview) \<Rightarrow> (unit, 'w) preview_step" where
  "save_preview d changes =
     seq (get vs_value) (\<lambda>value. case value of
        None \<Rightarrow> raise (Fault Other_exception)
      | Some previous \<Rightarrow>
          seq (ask (pd_now d)) (\<lambda>now.
          let current = (changes previous)\<lparr>vw_updated_at := now\<rparr> in
          seq (dep (pd_save d previous current)) (\<lambda>_.
          seq (record_call (Did_save previous current)) (\<lambda>_.
          modify (\<lambda>s. s\<lparr>vs_value := Some current\<rparr>)))))"

definition stop_preview :: "'w preview_dependencies \<Rightarrow> preview_status \<Rightarrow> string \<Rightarrow> ('a, 'w) preview_step" where
  "stop_preview d status code =
     seq (save_preview d (\<lambda>v. v\<lparr>vw_status := status, vw_cause_code := Some code\<rparr>)) (\<lambda>_. raise Stopped)"

definition stop_if :: "'w preview_dependencies \<Rightarrow> bool \<Rightarrow> preview_status \<Rightarrow> string \<Rightarrow> (unit, 'w) preview_step" where
  "stop_if d condition status code = (if condition then stop_preview d status code else ret ())"

section \<open>The classifier's provider port\<close>

text \<open>What a run fixes before it claims: the request, its environment, its start and its deadline.\<close>

record preview_run =
  pn_request :: request
  pn_environment :: environment
  pn_started :: rat
  pn_deadline_ms :: nat

definition elapsed_ms :: "preview_run \<Rightarrow> rat \<Rightarrow> rat" where
  "elapsed_ms n now = (now - pn_started n) * 1000"

definition truncate_rat :: "rat \<Rightarrow> int" where
  "truncate_rat q = (if 0 \<le> q then \<lfloor>q\<rfloor> else \<lceil>q\<rceil>)"

definition expired :: "'w preview_dependencies \<Rightarrow> preview_run \<Rightarrow> (bool, 'w) preview_step" where
  "expired d n = seq (ask (pd_monotonic d)) (\<lambda>now. ret (of_nat (pn_deadline_ms n) \<le> elapsed_ms n now))"

definition foreign_invocation :: "classifier_config \<Rightarrow> instructed_request \<Rightarrow> bool" where
  "foreign_invocation config q = (pq_purpose q \<noteq> For_classification \<or> pq_model_alias q \<noteq> kc_model_alias config
     \<or> pq_reasoning_effort q \<noteq> kc_reasoning_effort config \<or> pq_timeout_ms q \<noteq> kc_timeout_ms config
     \<or> pq_max_output_tokens q \<noteq> kc_max_output_tokens config)"

text \<open>Admission: the invocation with its remaining time, and the amount to reserve.\<close>

definition admit_invocation :: "'w preview_dependencies \<Rightarrow> preview_run \<Rightarrow> instructed_request
    \<Rightarrow> (instructed_request \<times> decimal, 'w) preview_step" where
  "admit_invocation d n q =
     seq (get vs_calls) (\<lambda>calls.
     seq (stop_if d (calls \<noteq> 0 \<or> foreign_invocation (pd_classifier_config d) q) Preview_blocked
       ''classifier_invocation_forbidden'') (\<lambda>_.
     seq (expired d n) (\<lambda>late.
     seq (if late then ret False else ask (allows (pd_authorization d) q)) (\<lambda>allowed.
     seq (stop_if d (\<not> allowed) Preview_blocked ''classifier_admission_refused'') (\<lambda>_.
     seq (ask (pd_monotonic d)) (\<lambda>now.
     let remaining = int (pn_deadline_ms n) - truncate_rat (elapsed_ms n now) in
     seq (stop_if d (remaining \<le> 0) Preview_blocked ''preview_deadline_exceeded'') (\<lambda>_.
     let q = q\<lparr>pq_timeout_ms := min (pq_timeout_ms q) (nat remaining)\<rparr> in
     seq (known_res (get_res (bundle_models (pd_bundle d)) (pq_model_alias q))) (\<lambda>model.
     seq (known_res (upper_cost (la_max_input_tokens (pd_authorization d)) model (pq_max_output_tokens q))) (\<lambda>upper.
     seq (stop_if d (case lim_task_cost_ceiling_usd (rq_constraints (pn_request n)) of
          None \<Rightarrow> False | Some limit \<Rightarrow> dec_lt limit upper) Preview_blocked ''classifier_budget_exhausted'') (\<lambda>_.
     ret (q, upper)))))))))))"

definition intent_of :: "instructed_request \<Rightarrow> provider_evidence" where
  "intent_of q = \<lparr>pe_task_id = pq_task_id q, pe_trace_id = pq_trace_id q, pe_invocation_id = pq_invocation_id q,
     pe_policy_version = pq_policy_version q, pe_catalog_version = pq_catalog_version q,
     pe_model_alias = pq_model_alias q, pe_provider_model_id = pq_provider_model_id q,
     pe_reasoning_effort = pq_reasoning_effort q, pe_purpose = pq_purpose q, pe_response_id = None,
     pe_response_status = None, pe_returned_model_id = None, pe_returned_service_tier = None, pe_latency_ms = 0,
     pe_usage = no_usage\<rparr>"

definition same_invocation :: "provider_evidence \<Rightarrow> provider_evidence \<Rightarrow> bool" where
  "same_invocation e i = (pe_task_id e = pe_task_id i \<and> pe_trace_id e = pe_trace_id i
     \<and> pe_invocation_id e = pe_invocation_id i \<and> pe_model_alias e = pe_model_alias i
     \<and> pe_provider_model_id e = pe_provider_model_id i \<and> pe_reasoning_effort e = pe_reasoning_effort i
     \<and> pe_purpose e = pe_purpose i \<and> pe_policy_version e = pe_policy_version i
     \<and> pe_catalog_version e = pe_catalog_version i)"

definition the_identity :: "(string, 'w) preview_step" where
  "the_identity = seq (get vs_value) (\<lambda>value. case value of
     None \<Rightarrow> raise (Fault Other_exception) | Some v \<Rightarrow> ret (vw_preview_id v))"

definition settle_preview :: "'w preview_dependencies \<Rightarrow> string \<Rightarrow> decimal \<Rightarrow> (unit, 'w) preview_step" where
  "settle_preview d identity amount =
     seq (record_call (Did_settle identity amount)) (\<lambda>_.
     seq (dep (pd_settle d identity identity amount)) (\<lambda>_.
     save_preview d (\<lambda>v. v\<lparr>vw_settled := True\<rparr>)))"

text \<open>The reservation and the saved intent.\<close>

definition reserve_intent :: "'w preview_dependencies \<Rightarrow> instructed_request \<Rightarrow> decimal \<Rightarrow> (string, 'w) preview_step" where
  "reserve_intent d q upper =
     seq the_identity (\<lambda>identity.
     seq (dep (pd_reserve d identity identity upper)) (\<lambda>granted.
     seq (record_call (Did_reserve identity upper granted)) (\<lambda>_.
     seq (stop_if d (\<not> granted) Preview_blocked ''classifier_budget_exhausted'') (\<lambda>_.
     seq (save_preview d (\<lambda>v. v\<lparr>vw_status := Preview_started, vw_reserved_cost_usd := Some upper,
         vw_cost_status := Spend_unknown, vw_classifier_evidence := Some (intent_of q),
         vw_classifier_timeout_ms := Some (pq_timeout_ms q),
         vw_classifier_max_input_tokens := Some (la_max_input_tokens (pd_authorization d)),
         vw_classifier_max_output_tokens := Some (pq_max_output_tokens q)\<rparr>)) (\<lambda>_.
     ret identity)))))"

text \<open>The last check before the call; without a call the funds are released.\<close>

definition confirm_dispatch :: "'w preview_dependencies \<Rightarrow> preview_run \<Rightarrow> string \<Rightarrow> (unit, 'w) preview_step" where
  "confirm_dispatch d n identity =
     seq (expired d n) (\<lambda>late.
     seq (if late then ret False else ask (live_ready (pd_authorization d))) (\<lambda>ready.
     if ready then ret ()
     else seq (save_preview d (\<lambda>v. v\<lparr>vw_status := Preview_accounted, vw_actual_cost_usd := Some ZERO,
              vw_cost_status := Not_incurred\<rparr>)) (\<lambda>_.
          seq (settle_preview d identity ZERO) (\<lambda>_.
          stop_preview d Preview_blocked ''preview_readiness_changed''))))"

definition invoke_provider :: "'w preview_dependencies \<Rightarrow> instructed_request
    \<Rightarrow> (provider_outcome, 'w) preview_step" where
  "invoke_provider d q =
     seq (modify (\<lambda>s. s\<lparr>vs_calls := Suc (vs_calls s)\<rparr>)) (\<lambda>_.
     seq (record_call (Did_execute q)) (\<lambda>_.
     seq (ask (pd_classifier_provider d q)) (\<lambda>answer. case answer of
        None \<Rightarrow> stop_preview d Preview_uncertain ''classifier_outcome_unknown''
      | Some out \<Rightarrow> ret out)))"

definition accounted :: "provider_evidence \<Rightarrow> decimal option \<Rightarrow> preview \<Rightarrow> preview" where
  "accounted evidence actual v = v\<lparr>vw_status := Preview_accounted, vw_classifier_evidence := Some evidence,
     vw_actual_cost_usd := actual, vw_classifier_usage_status := usage_status_of (pe_usage evidence),
     vw_cost_status := (if actual \<noteq> None then Spend_known else Spend_unknown)\<rparr>"

definition account_outcome :: "'w preview_dependencies \<Rightarrow> preview_run \<Rightarrow> instructed_request \<Rightarrow> string
    \<Rightarrow> provider_outcome \<Rightarrow> (provider_outcome, 'w) preview_step" where
  "account_outcome d n q identity out =
     (let evidence = evidence_of out;
          tariff_matches = pe_returned_model_id evidence = Some (pq_provider_model_id q)
            \<and> pe_returned_service_tier evidence = Some ''default'';
          actual = (if tariff_matches
            then provider_cost (dg_quote (pd_digests d)) (pn_request n) out (pd_bundle d) (pn_environment n) else None)
      in
      seq (stop_if d (\<not> same_invocation evidence (intent_of q)) Preview_uncertain ''classifier_evidence_mismatch'') (\<lambda>_.
      seq (save_preview d (accounted evidence actual)) (\<lambda>_.
      case actual of
        None \<Rightarrow> stop_preview d Preview_uncertain (if tariff_matches then ''classifier_cost_unknown'' else ''classifier_tariff_unknown'')
      | Some amount \<Rightarrow>
          seq (settle_preview d identity amount) (\<lambda>_.
          case out of
            Provider_failed f \<Rightarrow> stop_preview d Preview_blocked
              (if pf_failure_type f = TIMEOUT then ''classifier_timeout'' else ''classifier_failed'')
          | Result _ \<Rightarrow> ret out))))"

definition preview_port :: "'w preview_dependencies \<Rightarrow> preview_run \<Rightarrow> instructed_request
    \<Rightarrow> (provider_outcome, 'w) preview_step" where
  "preview_port d n invocation =
     seq (admit_invocation d n invocation) (\<lambda>(q, upper).
     seq (reserve_intent d q upper) (\<lambda>identity.
     seq (confirm_dispatch d n identity) (\<lambda>_.
     seq (invoke_provider d q) (account_outcome d n q identity))))"

section \<open>A run\<close>

definition claimed_preview :: "'w preview_dependencies \<Rightarrow> request \<Rightarrow> model_entry \<Rightarrow> instant \<Rightarrow> string \<Rightarrow> preview" where
  "claimed_preview d r model now unique =
     \<lparr>vw_preview_id = ''preview:'' @ unique, vw_application_id = pd_application_id d, vw_task_id = rq_task_id r,
      vw_trace_id = rq_trace_id r, vw_status = Preview_claimed, vw_created_at = now, vw_updated_at = now,
      vw_release_version = la_release_version (pd_authorization d), vw_release_sha256 = pd_release_sha256 d,
      vw_activation_id = pd_activation_id d, vw_account_evidence_id = pd_account_evidence_id d,
      vw_policy_version = pol_version (pb_policy (pd_bundle d)),
      vw_catalog_version = cat_catalog_version (pb_catalog (pd_bundle d)),
      vw_pricing_version = pr_version (me_pricing model), vw_classifier_version = kc_version (pd_classifier_config d),
      vw_classifier_configuration_hash = kc_configuration_hash (pd_classifier_config d),
      vw_classifier_timeout_ms = None, vw_classifier_max_input_tokens = None, vw_classifier_max_output_tokens = None,
      vw_classification = None, vw_classifier_evidence = None, vw_classifier_usage_status = Usage_unavailable,
      vw_route = None, vw_reserved_cost_usd = None, vw_actual_cost_usd = None, vw_cost_status = Not_incurred,
      vw_settled = False, vw_cause_code = None\<rparr>"

text \<open>The cost recorded in a value; the comparison of a missing reservation raises.\<close>

definition check_cost :: "'w preview_dependencies \<Rightarrow> (unit, 'w) preview_step" where
  "check_cost d =
     seq (get vs_value) (\<lambda>value. case value of
        None \<Rightarrow> raise (Fault Other_exception)
      | Some v \<Rightarrow> (case vw_actual_cost_usd v of
            None \<Rightarrow> stop_preview d Preview_uncertain ''classifier_cost_unknown''
          | Some actual \<Rightarrow> (case vw_reserved_cost_usd v of
                None \<Rightarrow> raise (Fault (Known TypeError))
              | Some reserved \<Rightarrow> stop_if d (dec_lt reserved actual) Preview_blocked ''classifier_reservation_exceeded'')))"

definition finish_preview :: "'w preview_dependencies \<Rightarrow> preview_run \<Rightarrow> classified \<Rightarrow> (unit, 'w) preview_step" where
  "finish_preview d n classified = (case classified of
     Unclassified _ \<Rightarrow> stop_preview d Preview_blocked ''classifier_failed''
   | Characterized k \<Rightarrow>
       seq (save_preview d (\<lambda>v. v\<lparr>vw_classification := Some (kr_classification k)\<rparr>)) (\<lambda>_.
       seq (check_cost d) (\<lambda>_.
       seq (expired d n) (\<lambda>late.
       seq (stop_if d late Preview_blocked ''preview_deadline_exceeded'') (\<lambda>_.
       seq (ask (live_ready (pd_authorization d))) (\<lambda>ready.
       seq (stop_if d (\<not> ready) Preview_blocked ''preview_readiness_changed'') (\<lambda>_.
       seq (known_res (route (pd_digests d) (pn_request n) (kr_classification k) (pn_environment n) (pd_bundle d) None))
         (\<lambda>decision.
       save_preview d (\<lambda>v. v\<lparr>vw_status := Preview_completed, vw_route := Some decision\<rparr>)))))))))"

definition classify_and_route :: "'w preview_dependencies \<Rightarrow> preview_run \<Rightarrow> output_type \<Rightarrow> (unit, 'w) preview_step" where
  "classify_and_route d n t =
     seq (dep (pd_pin_versions d (pd_bundle d))) (\<lambda>_.
     seq (classify_live (pd_classifier_digests d) (pd_bundle d) (pd_classifier_config d) t (preview_port d n)
        (ask (pd_uuid d)) (\<lambda>e. Fault (Known e)) (pn_request n)) (finish_preview d n))"

definition preview_failed :: "'w preview_dependencies \<Rightarrow> preview_error \<Rightarrow> (unit, 'w) preview_step" where
  "preview_failed d e = (case e of
     Stopped \<Rightarrow> ret ()
   | Fault (Known RepositoryUnavailable) \<Rightarrow> raise e
   | _ \<Rightarrow> seq (get vs_calls) (\<lambda>calls.
       save_preview d (\<lambda>v. v\<lparr>vw_status := (if calls \<noteq> 0 then Preview_uncertain else Preview_blocked),
         vw_cause_code := Some ''preview_dependency_failure''\<rparr>)))"

definition deadline_of :: "'w preview_dependencies \<Rightarrow> request \<Rightarrow> nat" where
  "deadline_of d r = min (pd_deadline_ms d) (case lim_task_deadline_ms (rq_constraints r) of
     None \<Rightarrow> pd_deadline_ms d | Some 0 \<Rightarrow> pd_deadline_ms d | Some n \<Rightarrow> n)"

text \<open>What is checked before anything is claimed; it ends with the environment and the output type.\<close>

definition preview_checks :: "'w preview_dependencies \<Rightarrow> request \<Rightarrow> string \<Rightarrow> rat
    \<Rightarrow> (preview_run \<times> output_type, 'w) preview_step" where
  "preview_checks d r key started =
     (let b = pd_bundle d; config = pd_classifier_config d;
          unless = (\<lambda>c. if c then ret () else raise Preview_unavailable) in
      seq (unless (rq_policy_version r \<in> {None, Some (pol_version (pb_policy b))})) (\<lambda>_.
      seq (unless (rq_application_id r = Some (pd_application_id d) \<and> \<not> blank_text key)) (\<lambda>_.
      seq (ask (live_ready (pd_authorization d))) (\<lambda>ready.
      seq (unless ready) (\<lambda>_.
      seq (dep (pd_environment d)) (\<lambda>env.
      seq (unless (\<not> env_synthetic env \<and> env_trusted_application_id env = Some (pd_application_id d))) (\<lambda>_.
      seq (unless (kc_status config = Active \<and> kc_live_enabled config)) (\<lambda>_.
      seq (known_res (new_normalizer (pd_classifier_digests d) b config)) (\<lambda>t.
      ret (\<lparr>pn_request = r, pn_environment = env, pn_started = started, pn_deadline_ms = deadline_of d r\<rparr>, t))))))))))"

definition run_preview :: "'w preview_dependencies \<Rightarrow> request \<Rightarrow> string \<Rightarrow> (preview, 'w) preview_step" where
  "run_preview d r key =
     seq (ask (pd_monotonic d)) (\<lambda>started.
     seq (preview_checks d r key started) (\<lambda>(n, t).
     seq (ask (pd_now d)) (\<lambda>now.
     seq (known_res (get_res (bundle_models (pd_bundle d)) (kc_model_alias (pd_classifier_config d)))) (\<lambda>model.
     seq (ask (pd_uuid d)) (\<lambda>unique.
     let value = claimed_preview d r model now unique in
     seq (modify (\<lambda>s. s\<lparr>vs_value := Some value\<rparr>)) (\<lambda>_.
     seq (dep (pd_claim d value (pd_key_digest d (pd_application_id d) key) (pd_request_digest d r))) (\<lambda>retained.
     case retained of
       Some earlier \<Rightarrow> ret earlier
     | None \<Rightarrow>
         seq (record_call (Did_claim value)) (\<lambda>_.
         seq (catch (classify_and_route d n t) (preview_failed d)) (\<lambda>_.
         seq (get vs_value) (\<lambda>final. case final of
           None \<Rightarrow> raise (Fault Other_exception) | Some v \<Rightarrow> ret v))))))))))"

definition classify_route :: "'w preview_dependencies \<Rightarrow> request \<Rightarrow> string \<Rightarrow> 'w
    \<Rightarrow> (preview_error + preview) \<times> 'w preview_state" where
  "classify_route d r key w = run_preview d r key \<lparr>vs_value = None, vs_calls = 0, vs_log = [], vs_world = w\<rparr>"

end
