(* ===== verification/LiveFacts.thy ===== *)
theory LiveFacts
  imports LiveAdmission
begin

lemma exact_token_charge_plain:
  "0 < unit \<Longrightarrow> exact_token_charge n (Some q) unit (Some 1) = Some (of_nat n * q / of_nat unit)"
  by (simp add: exact_token_charge_def)

lemma exact_rate_money: "money_ok d \<Longrightarrow> exact_rate (Some d) = Some (dval d)"
  by (simp add: exact_rate_def money_def money_ok_iff)

lemma exact_rate_one: "exact_rate (Some (dec_of_int 1)) = Some 1"
  by (simp add: exact_rate_money money_ok_iff)

lemma exact_generation_plain:
  assumes "\<not> long_context_active p c" and "0 < pr_unit_tokens p"
    and "pr_input_usd p = Some a" "pr_cached_input_usd p = Some b"
      "pr_output_usd p = Some g" "pr_cache_write_input_multiplier p = Some m"
    and "money_ok a" "money_ok b" "money_ok g" "money_ok m"
  shows "exact_subtotal (exact_generation p c) =
     of_nat (uncached_input_tokens c) * dval a / of_nat (pr_unit_tokens p)
     + (of_nat (cache_read_tokens c) * dval b / of_nat (pr_unit_tokens p)
        + (of_nat (tc_cache_write_tokens c) * (dval a * dval m) / of_nat (pr_unit_tokens p)
           + of_nat (tc_expected_output_tokens c) * dval g / of_nat (pr_unit_tokens p)))"
  using assms
  by (simp add: exact_subtotal_def exact_generation_def long_multiplier_def exact_rate_one exact_rate_money
      exact_write_rate_def exact_token_charge_plain map_filter_simps)

lemma usage_required_nothing:
  "required_breakdown (r\<lparr>rq_side_effecting_tool := False, rq_context := c\<rparr>) (env\<lparr>env_required_tool_charge := False\<rparr>)
     usage_validation = []"
  by (simp add: required_breakdown_def usage_validation_def)

lemma fixed_point_charge:
  "fixed_point_quote p (env\<lparr>env_required_tool_charge := f\<rparr>) k = fixed_point_quote p env k"
  by (simp add: fixed_point_quote_def visited_decimals_def)

lemma provider_cost_Some:
  assumes "provider_cost dg r out b env = Some actual"
  obtains i c w g model where "us_input_tokens (pe_usage (evidence_of out)) = Some i"
    "us_cached_input_tokens (pe_usage (evidence_of out)) = Some c"
    "us_cache_write_input_tokens (pe_usage (evidence_of out)) = Some w"
    "us_output_tokens (pe_usage (evidence_of out)) = Some g"
    "map_of (bundle_models b) (pe_model_alias (evidence_of out)) = Some model"
    "actual = ce_known_subtotal (estimate_cost dg
       (r\<lparr>rq_side_effecting_tool := False, rq_context := \<lparr>tc_input_tokens = i, tc_expected_output_tokens = g,
          tc_cached_input_tokens = c, tc_cache_write_tokens = w, tc_cache_evidence = True\<rparr>\<rparr>)
       model (env\<lparr>env_required_tool_charge := False\<rparr>) usage_validation catalog_currency)"
  using assms by (auto simp: provider_cost_def Let_def estimate_amount split: option.splits if_splits)

lemma usage_covered:
  assumes cost: "provider_cost dg r out b env = Some actual"
    and upper: "upper_cost max_input model max_output = Inr upper"
    and model: "map_of (bundle_models b) (pe_model_alias (evidence_of out)) = Some model"
    and usage: "usage_ok (pe_usage (evidence_of out))"
    and within: "us_input_tokens (pe_usage (evidence_of out)) = Some i" "i \<le> max_input"
      "us_output_tokens (pe_usage (evidence_of out)) = Some g" "g \<le> max_output"
    and tariff: "fixed_point_quote (me_pricing model) env k" "k \<le> 12"
      "list_all live_price (opt_list (pr_input_usd (me_pricing model)) @ opt_list (pr_cached_input_usd (me_pricing model))
         @ opt_list (pr_output_usd (me_pricing model)) @ opt_list (pr_cache_write_input_multiplier (me_pricing model)))"
    and tokens: "max_input < 10 ^ 12" "max_output < 10 ^ 12"
  shows "dval actual \<le> dval upper"
proof -
  let ?p = "me_pricing model"
  obtain l a b' o' m where p: "pr_long_context ?p = Some l" "max_input \<le> lc_input_tokens_gt l"
    "pr_input_usd ?p = Some a" "pr_cached_input_usd ?p = Some b'" "pr_output_usd ?p = Some o'"
    "pr_cache_write_input_multiplier ?p = Some m"
    using upper by (rule upper_cost_Inr)
  have live: "live_price a" "live_price b'" "live_price o'" "live_price m"
    using tariff(3) by (simp_all add: p(3-6) opt_list_def)
  then have money: "money_ok a" "money_ok b'" "money_ok o'" "money_ok m" by (simp_all add: live_price_def)
  have unit: "pr_unit_tokens ?p = 10 ^ k" using tariff(1) by (simp add: fixed_point_quote_def)
  obtain c w where u: "us_cached_input_tokens (pe_usage (evidence_of out)) = Some c"
    "us_cache_write_input_tokens (pe_usage (evidence_of out)) = Some w"
    and actual: "actual = ce_known_subtotal (estimate_cost dg
       (r\<lparr>rq_side_effecting_tool := False, rq_context := \<lparr>tc_input_tokens = i, tc_expected_output_tokens = g,
          tc_cached_input_tokens = c, tc_cache_write_tokens = w, tc_cache_evidence = True\<rparr>\<rparr>)
       model (env\<lparr>env_required_tool_charge := False\<rparr>) usage_validation catalog_currency)"
    using provider_cost_Some [OF cost] within(1,3) model by (metis option.inject)
  let ?t = "\<lparr>tc_input_tokens = i, tc_expected_output_tokens = g, tc_cached_input_tokens = c,
    tc_cache_write_tokens = w, tc_cache_evidence = True\<rparr>"
  have cw: "c + w \<le> i" using usage u within(1) by (simp add: usage_ok_def or_zero_def split: option.splits)
  have long: "\<not> long_context_active ?p ?t" using p(1,2) within(2) by (simp add: long_context_active_def)
  have "dval actual = exact_subtotal (exact_generation ?p ?t)"
    unfolding actual
    by (subst estimate_exact [where k = k])
      (simp_all add: fixed_point_charge tariff(1) token_context_ok_def cw exact_breakdown_def usage_required_nothing)
  also have "\<dots> = of_nat (i - c - w) * dval a / of_nat (pr_unit_tokens ?p)
     + (of_nat c * dval b' / of_nat (pr_unit_tokens ?p)
        + (of_nat w * (dval a * dval m) / of_nat (pr_unit_tokens ?p) + of_nat g * dval o' / of_nat (pr_unit_tokens ?p)))"
    by (subst exact_generation_plain [OF long _ p(3-6) money])
      (simp_all add: unit uncached_input_tokens_def cache_read_tokens_def)
  also have "\<dots> \<le> exact_upper max_input ?p a b' o' m max_output"
    unfolding exact_upper_def
  proof (rule covered_usage)
    have "of_nat c + of_nat w + of_nat (i - c - w) = (of_nat i :: rat)"
      using cw by (simp flip: of_nat_add)
    then show "of_nat c + of_nat w + of_nat (i - c - w) \<le> (of_nat max_input :: rat)"
      using within(2) by simp
  qed (use within(4) money unit in \<open>auto simp: money_ok_iff le_max_iff_disj\<close>)
  also have "\<dots> = dval upper"
    by (rule upper_cost_exact [OF upper p(3-6) live tokens unit tariff(2), symmetric])
  finally show ?thesis .
qed

end
