(* ===== verification/PreviewFacts.thy ===== *)
theory PreviewFacts
  imports Preview LiveFacts
begin

text \<open>
  What a preview does to the outside world, in every run: the discipline of its calls, as a condition
  on each call and the calls before it, and what the value it leaves says about them. The rules below
  execute a step symbolically and forget what the dependencies answer, so the facts hold for all of them.
\<close>

section \<open>Symbolic execution\<close>

lemma seqI: "wp m (\<lambda>x. wp (f x) Q R) R s \<Longrightarrow> wp (seq m f) Q R s"
  by (simp add: wp)

lemma retI: "Q x s \<Longrightarrow> wp (ret x) Q R s"
  by (simp add: wp)

lemma raiseI: "R e s \<Longrightarrow> wp (raise e) Q R s"
  by (simp add: wp)

lemma getI: "Q (f s) s \<Longrightarrow> wp (get f) Q R s"
  by (simp add: wp)

lemma modifyI: "Q () (f s) \<Longrightarrow> wp (modify f) Q R s"
  by (simp add: wp)

lemma ifI: "(c \<Longrightarrow> wp m Q R s) \<Longrightarrow> (\<not> c \<Longrightarrow> wp m' Q R s) \<Longrightarrow> wp (if c then m else m') Q R s"
  by simp

lemma optionI:
  "(v = None \<Longrightarrow> wp m Q R s) \<Longrightarrow> (\<And>x. v = Some x \<Longrightarrow> wp (f x) Q R s)
    \<Longrightarrow> wp (case v of None \<Rightarrow> m | Some x \<Rightarrow> f x) Q R s"
  by (cases v) simp_all

lemma pairI: "(\<And>a b. p = (a, b) \<Longrightarrow> wp (f a b) Q R s) \<Longrightarrow> wp (case p of (a, b) \<Rightarrow> f a b) Q R s"
  by (cases p) simp

lemma outcomeI:
  "(\<And>x. out = Result x \<Longrightarrow> wp (f x) Q R s) \<Longrightarrow> (\<And>x. out = Provider_failed x \<Longrightarrow> wp (g x) Q R s)
    \<Longrightarrow> wp (case out of Result x \<Rightarrow> f x | Provider_failed x \<Rightarrow> g x) Q R s"
  by (cases out) simp_all

lemma askI: "(\<And>x w. f (vs_world s) = (x, w) \<Longrightarrow> Q x (s\<lparr>vs_world := w\<rparr>)) \<Longrightarrow> wp (ask f) Q R s"
  by (simp add: wp_def ask_def split: prod.split)

lemma depI: "(\<And>x w. f (vs_world s) = (Inr x, w) \<Longrightarrow> Q x (s\<lparr>vs_world := w\<rparr>)) \<Longrightarrow> (\<And>e w. R (Fault e) (s\<lparr>vs_world := w\<rparr>)) \<Longrightarrow> wp (dep f) Q R s"
  by (simp add: wp_def dep_def split: prod.split sum.split)

lemma known_resI: "(\<And>x. r = Inr x \<Longrightarrow> Q x s) \<Longrightarrow> (\<And>e. r = Inl e \<Longrightarrow> R (Fault (Known e)) s) \<Longrightarrow> wp (known_res r) Q R s"
  by (cases r) (simp_all add: known_res_def wp)

lemma record_callI: "Q () (s\<lparr>vs_log := vs_log s @ [c]\<rparr>) \<Longrightarrow> wp (record_call c) Q R s"
  by (simp add: record_call_def wp)

lemma expiredI: "(\<And>late w. Q late (s\<lparr>vs_world := w\<rparr>)) \<Longrightarrow> wp (expired d n) Q R s"
  unfolding expired_def by (intro seqI askI retI)

definition stepped :: "(preview \<Rightarrow> preview) \<Rightarrow> preview \<Rightarrow> instant \<Rightarrow> 'w \<Rightarrow> 'w preview_state \<Rightarrow> 'w preview_state" where
  "stepped f v now w s = (let v' = (f v)\<lparr>vw_updated_at := now\<rparr>
     in s\<lparr>vs_world := w, vs_log := vs_log s @ [Did_save v v'], vs_value := Some v'\<rparr>)"

lemma stepped_simps [simp]:
  "vs_value (stepped f v now w s) = Some ((f v)\<lparr>vw_updated_at := now\<rparr>)"
  "vs_log (stepped f v now w s) = vs_log s @ [Did_save v ((f v)\<lparr>vw_updated_at := now\<rparr>)]"
  "vs_calls (stepped f v now w s) = vs_calls s"
  by (simp_all add: stepped_def Let_def)

lemma save_previewI:
  assumes "\<And>v now w. vs_value s = Some v \<Longrightarrow> Q () (stepped f v now w s)" and "\<And>e w. R (Fault e) (s\<lparr>vs_world := w\<rparr>)"
  shows "wp (save_preview d f) Q R s"
proof -
  have "R (Fault e) s" for e using assms(2) [of e "vs_world s"] by simp
  then show ?thesis
    unfolding save_preview_def Let_def
    by (intro seqI getI optionI raiseI askI depI record_callI modifyI)
      (use assms in \<open>simp_all add: stepped_def Let_def\<close>)
qed

definition halt :: "preview_status \<Rightarrow> string \<Rightarrow> preview \<Rightarrow> preview" where
  "halt status code v = v\<lparr>vw_status := status, vw_cause_code := Some code\<rparr>"

lemma stopI:
  assumes "\<And>v now w. vs_value s = Some v \<Longrightarrow> R Stopped (stepped (halt status code) v now w s)"
    and "\<And>e w. R (Fault e) (s\<lparr>vs_world := w\<rparr>)"
  shows "wp (stop_preview d status code) Q R s"
  unfolding stop_preview_def by (intro seqI save_previewI raiseI) (use assms in \<open>simp_all add: halt_def [abs_def]\<close>)

lemma stop_ifI:
  assumes "\<not> c \<Longrightarrow> Q () s"
    and "\<And>v now w. c \<Longrightarrow> vs_value s = Some v \<Longrightarrow> R Stopped (stepped (halt status code) v now w s)"
    and "\<And>e w. R (Fault e) (s\<lparr>vs_world := w\<rparr>)"
  shows "wp (stop_if d c status code) Q R s"
  unfolding stop_if_def by (intro ifI stopI retI) (use assms in simp_all)

lemmas preview_rules = seqI retI raiseI getI modifyI ifI optionI pairI outcomeI askI depI known_resI record_callI expiredI
  save_previewI stopI stop_ifI

section \<open>The discipline of the calls\<close>

definition persisted :: "preview_call list \<Rightarrow> preview option" where
  "persisted trace = foldl (\<lambda>acc c. case c of Did_claim v \<Rightarrow> Some v | Did_save v v' \<Rightarrow> Some v' | _ \<Rightarrow> acc) None trace"

lemma persisted_snoc [simp]:
  "persisted [] = None"
  "persisted (cs @ [c]) = (case c of Did_claim v \<Rightarrow> Some v | Did_save v v' \<Rightarrow> Some v' | _ \<Rightarrow> persisted cs)"
  by (simp_all add: persisted_def split: preview_call.split)

definition executes :: "preview_call \<Rightarrow> bool" where
  "executes c = (case c of Did_execute q \<Rightarrow> True | _ \<Rightarrow> False)"

definition reserves :: "preview_call \<Rightarrow> bool" where
  "reserves c = (case c of Did_reserve i u g \<Rightarrow> True | _ \<Rightarrow> False)"

definition settles :: "preview_call \<Rightarrow> bool" where
  "settles c = (case c of Did_settle i a \<Rightarrow> True | _ \<Rightarrow> False)"

lemma call_kinds [simp]:
  "executes (Did_execute q)" "\<not> executes (Did_claim v)" "\<not> executes (Did_save v v')"
  "\<not> executes (Did_reserve i u g)" "\<not> executes (Did_settle i a)"
  "reserves (Did_reserve i u g)" "\<not> reserves (Did_claim v)" "\<not> reserves (Did_save v v')"
  "\<not> reserves (Did_execute q)" "\<not> reserves (Did_settle i a)"
  "settles (Did_settle i a)" "\<not> settles (Did_claim v)" "\<not> settles (Did_save v v')"
  "\<not> settles (Did_reserve i u g)" "\<not> settles (Did_execute q)"
  by (simp_all add: executes_def reserves_def settles_def)

definition each_call :: "('c list \<Rightarrow> 'c \<Rightarrow> bool) \<Rightarrow> 'c list \<Rightarrow> bool" where
  "each_call P trace = (\<forall>before c after. trace = before @ c # after \<longrightarrow> P before c)"

lemma each_call_snoc [simp]:
  "each_call P []" "each_call P (cs @ [c]) \<longleftrightarrow> each_call P cs \<and> P cs c"
proof -
  have "P cs c" if "each_call P (cs @ [c])" using that by (simp add: each_call_def)
  moreover have "each_call P cs" if "each_call P (cs @ [c])"
    unfolding each_call_def
  proof (intro allI impI)
    fix before c' after
    assume "cs = before @ c' # after"
    then have "cs @ [c] = before @ c' # (after @ [c])" by simp
    with that show "P before c'" unfolding each_call_def by blast
  qed
  moreover have "each_call P (cs @ [c])" if "each_call P cs" "P cs c"
    using that by (auto simp: each_call_def append_eq_append_conv2 append_eq_Cons_conv Cons_eq_append_conv)
  ultimately show "each_call P (cs @ [c]) \<longleftrightarrow> each_call P cs \<and> P cs c" by blast
qed (simp add: each_call_def)

text \<open>What an admitted invocation and the amount reserved for it satisfy.\<close>

definition admitted :: "'w preview_dependencies \<Rightarrow> request \<Rightarrow> instructed_request \<Rightarrow> decimal \<Rightarrow> bool" where
  "admitted d r q upper =
     (\<not> foreign_invocation (pd_classifier_config d) (q\<lparr>pq_timeout_ms := kc_timeout_ms (pd_classifier_config d)\<rparr>)
      \<and> pq_timeout_ms q \<le> kc_timeout_ms (pd_classifier_config d)
      \<and> pq_max_output_tokens q \<le> la_max_output_tokens (pd_authorization d)
      \<and> (\<exists>model. map_of (bundle_models (pd_bundle d)) (pq_model_alias q) = Some model
           \<and> upper_cost (la_max_input_tokens (pd_authorization d)) model (pq_max_output_tokens q) = Inr upper)
      \<and> (case lim_task_cost_ceiling_usd (rq_constraints r) of None \<Rightarrow> True | Some limit \<Rightarrow> dval upper \<le> dval limit))"

definition call_ok :: "'w preview_dependencies \<Rightarrow> request \<Rightarrow> preview_call list \<Rightarrow> preview_call \<Rightarrow> bool" where
  "call_ok d r before c = (case c of
     Did_claim v \<Rightarrow> before = []
   | Did_save v v' \<Rightarrow> persisted before = Some v \<and> vw_preview_id v' = vw_preview_id v
       \<and> vw_application_id v' = vw_application_id v
   | Did_reserve i u g \<Rightarrow> \<not> list_ex reserves before \<and> (\<exists>v. persisted before = Some v \<and> vw_preview_id v = i)
   | Did_execute q \<Rightarrow> \<not> list_ex executes before
       \<and> (\<exists>v u. persisted before = Some v \<and> vw_status v = Preview_started \<and> vw_reserved_cost_usd v = Some u
            \<and> vw_classifier_timeout_ms v = Some (pq_timeout_ms q)
            \<and> Did_reserve (vw_preview_id v) u True \<in> set before \<and> admitted d r q u)
   | Did_settle i a \<Rightarrow> \<not> list_ex settles before
       \<and> (\<exists>v u. persisted before = Some v \<and> vw_preview_id v = i \<and> vw_status v = Preview_accounted
            \<and> vw_actual_cost_usd v = Some a \<and> \<not> vw_settled v \<and> Did_reserve i u True \<in> set before)
       \<and> (list_ex executes before \<or> a = ZERO))"

text \<open>Every state of a run after its claim.\<close>

definition sound :: "'w preview_dependencies \<Rightarrow> request \<Rightarrow> 'w preview_state \<Rightarrow> bool" where
  "sound d r s = (each_call (call_ok d r) (vs_log s) \<and> persisted (vs_log s) = vs_value s \<and> vs_value s \<noteq> None
     \<and> vs_calls s = length (filter executes (vs_log s)))"

lemma sound_world [simp]: "sound d r (s\<lparr>vs_world := w\<rparr>) = sound d r s"
  by (simp add: sound_def)

lemma sound_stepped:
  assumes "sound d r s" "vs_value s = Some v"
    and "vw_preview_id (f v) = vw_preview_id v" "vw_application_id (f v) = vw_application_id v"
  shows "sound d r (stepped f v now w s)"
  using assms by (simp add: sound_def call_ok_def)

lemma halt_simps [simp]:
  "vw_preview_id (halt status code v) = vw_preview_id v" "vw_application_id (halt status code v) = vw_application_id v"
  "vw_status (halt status code v) = status" "vw_settled (halt status code v) = vw_settled v"
  "vw_actual_cost_usd (halt status code v) = vw_actual_cost_usd v"
  by (simp_all add: halt_def)

text \<open>What a value that stopped says about the money.\<close>

definition funds_closed :: "preview \<Rightarrow> preview_call list \<Rightarrow> bool" where
  "funds_closed v trace = ((\<exists>u. Did_reserve (vw_preview_id v) u True \<in> set trace) \<longrightarrow> vw_settled v
     \<and> (\<exists>a. vw_actual_cost_usd v = Some a \<and> Did_settle (vw_preview_id v) a \<in> set trace))"

definition halted :: "'w preview_state \<Rightarrow> bool" where
  "halted s = (\<exists>v. vs_value s = Some v
     \<and> (vw_status v = Preview_blocked \<and> funds_closed v (vs_log s)
        \<or> vw_status v = Preview_uncertain \<and> list_ex executes (vs_log s)))"

definition failing :: "'w preview_dependencies \<Rightarrow> request \<Rightarrow> preview_error \<Rightarrow> 'w preview_state \<Rightarrow> bool" where
  "failing d r e s = (sound d r s \<and> e \<noteq> Preview_unavailable \<and> (e = Stopped \<longrightarrow> halted s))"

lemma failing_fault [simp]: "failing d r (Fault e) (s\<lparr>vs_world := w\<rparr>) = sound d r s" "failing d r (Fault e) s = sound d r s"
  by (simp_all add: failing_def)

section \<open>The port, step by step\<close>

text \<open>Nothing reserved yet.\<close>

definition fresh :: "'w preview_state \<Rightarrow> bool" where
  "fresh s = (\<not> list_ex reserves (vs_log s) \<and> \<not> list_ex executes (vs_log s) \<and> \<not> list_ex settles (vs_log s)
     \<and> (\<exists>v. vs_value s = Some v \<and> \<not> vw_settled v))"

lemma fresh_world [simp]: "fresh (s\<lparr>vs_world := w\<rparr>) = fresh s"
  by (simp add: fresh_def)

lemma unreserved_stop:
  assumes "sound d r s" "fresh s" "vs_value s = Some v"
  shows "failing d r Stopped (stepped (halt Preview_blocked code) v now w s)"
  using assms
  by (auto simp: failing_def fresh_def halted_def funds_closed_def sound_stepped list_ex_iff reserves_def
      split: preview_call.splits)

lemma allows_output: "allows la q w = (True, w') \<Longrightarrow> pq_max_output_tokens q \<le> la_max_output_tokens la"
  by (simp add: allows_def split: if_splits)

lemma admit_invocation_spec:
  assumes "sound d r s" "fresh s" "pn_request n = r"
  shows "wp (admit_invocation d n q) (\<lambda>(q', upper) s'. sound d r s' \<and> fresh s' \<and> admitted d r q' upper) (failing d r) s"
  unfolding admit_invocation_def Let_def
  using assms
  by (intro preview_rules)
    (auto simp: unreserved_stop admitted_def foreign_invocation_def not_less get_res_def dest!: allows_output split: option.splits)

text \<open>Money reserved, intent saved, nothing sent.\<close>

definition started :: "string \<Rightarrow> instructed_request \<Rightarrow> decimal \<Rightarrow> 'w preview_state \<Rightarrow> bool" where
  "started i q upper s = (\<not> list_ex executes (vs_log s) \<and> \<not> list_ex settles (vs_log s)
     \<and> Did_reserve i upper True \<in> set (vs_log s)
     \<and> (\<exists>v. vs_value s = Some v \<and> vw_preview_id v = i \<and> vw_status v = Preview_started
          \<and> vw_reserved_cost_usd v = Some upper \<and> vw_classifier_timeout_ms v = Some (pq_timeout_ms q) \<and> \<not> vw_settled v))"

text \<open>The call is made, or it is made and paid for.\<close>

definition called :: "string \<Rightarrow> decimal \<Rightarrow> 'w preview_state \<Rightarrow> bool" where
  "called i upper s = (list_ex executes (vs_log s) \<and> \<not> list_ex settles (vs_log s)
     \<and> Did_reserve i upper True \<in> set (vs_log s)
     \<and> (\<exists>v. vs_value s = Some v \<and> vw_preview_id v = i \<and> vw_reserved_cost_usd v = Some upper \<and> \<not> vw_settled v))"

definition paid :: "'w preview_state \<Rightarrow> bool" where
  "paid s = (list_ex executes (vs_log s) \<and> (\<exists>v a u. vs_value s = Some v \<and> vw_reserved_cost_usd v = Some u
     \<and> vw_actual_cost_usd v = Some a \<and> vw_cost_status v = Spend_known \<and> vw_settled v
     \<and> Did_reserve (vw_preview_id v) u True \<in> set (vs_log s) \<and> Did_settle (vw_preview_id v) a \<in> set (vs_log s)))"

lemma phase_world [simp]:
  "started i q upper (s\<lparr>vs_world := w\<rparr>) = started i q upper s" "called i upper (s\<lparr>vs_world := w\<rparr>) = called i upper s"
  "paid (s\<lparr>vs_world := w\<rparr>) = paid s"
  by (simp_all add: started_def called_def paid_def)

text \<open>A value whose cost is saved may be settled, once; settling marks it and keeps the rest.\<close>

definition payable :: "string \<Rightarrow> decimal \<Rightarrow> 'w preview_state \<Rightarrow> bool" where
  "payable i a s = (\<not> list_ex settles (vs_log s) \<and> (list_ex executes (vs_log s) \<or> a = ZERO) \<and> (\<exists>v u. vs_value s = Some v \<and> vw_preview_id v = i
     \<and> vw_status v = Preview_accounted \<and> vw_actual_cost_usd v = Some a \<and> \<not> vw_settled v
     \<and> Did_reserve i u True \<in> set (vs_log s)))"

definition settled_from :: "string \<Rightarrow> decimal \<Rightarrow> 'w preview_state \<Rightarrow> 'w preview_state \<Rightarrow> bool" where
  "settled_from i a s s' = (Did_settle i a \<in> set (vs_log s') \<and> set (vs_log s) \<subseteq> set (vs_log s')
     \<and> (\<exists>v now. vs_value s = Some v \<and> vs_value s' = Some (v\<lparr>vw_settled := True, vw_updated_at := now\<rparr>)))"

lemma settle_previewI:
  assumes "sound d r s" and pay: "payable i a s"
    and next_step: "\<And>s'. sound d r s' \<Longrightarrow> settled_from i a s s' \<Longrightarrow> Q () s'"
  shows "wp (settle_preview d i a) Q (failing d r) s"
proof -
  have settled: "sound d r (s\<lparr>vs_log := vs_log s @ [Did_settle i a]\<rparr>)"
    using assms(1) pay by (auto simp: sound_def call_ok_def payable_def)
  show ?thesis
    unfolding settle_preview_def
    by (intro preview_rules next_step)
      (use settled pay in \<open>auto simp: settled_from_def intro!: sound_stepped\<close>)
qed

lemma stop_closed:
  assumes "sound d r s" "vs_value s = Some v" "funds_closed v (vs_log s)"
  shows "failing d r Stopped (stepped (halt Preview_blocked code) v now w s)"
  using assms by (auto simp: failing_def halted_def funds_closed_def sound_stepped)

lemma stop_uncertain:
  assumes "sound d r s" "vs_value s = Some v" "list_ex executes (vs_log s)"
  shows "failing d r Stopped (stepped (halt Preview_uncertain code) v now w s)"
  using assms by (auto simp: failing_def halted_def sound_stepped)

lemma settled_from_closed:
  "payable i a s \<Longrightarrow> settled_from i a s s' \<Longrightarrow> vs_value s' = Some v \<Longrightarrow> funds_closed v (vs_log s')"
  by (auto simp: payable_def settled_from_def funds_closed_def)

lemma sound_log_world [simp]:
  "sound d r (s\<lparr>vs_world := w, vs_log := l\<rparr>) = sound d r (s\<lparr>vs_log := l\<rparr>)"
  by (simp add: sound_def)

lemma reserve_sound:
  "sound d r s \<Longrightarrow> fresh s \<Longrightarrow> vs_value s = Some v
    \<Longrightarrow> sound d r (s\<lparr>vs_log := vs_log s @ [Did_reserve (vw_preview_id v) u g]\<rparr>)"
  by (simp add: sound_def fresh_def call_ok_def)

lemma fresh_reserves_nothing: "fresh s \<Longrightarrow> Did_reserve i u g \<notin> set (vs_log s)"
  by (auto simp: fresh_def list_ex_iff reserves_def split: preview_call.splits)

lemma reserve_intent_spec:
  assumes "sound d r s" "fresh s"
  shows "wp (reserve_intent d q upper) (\<lambda>i s'. sound d r s' \<and> started i q upper s') (failing d r) s"
  unfolding reserve_intent_def the_identity_def
  using assms
  by (intro preview_rules)
    (auto simp: reserve_sound sound_stepped started_def failing_def halted_def funds_closed_def fresh_reserves_nothing,
     simp_all add: fresh_def)

lemma started_payable:
  assumes "started i q upper s" "vs_value s = Some v"
  shows "payable i ZERO (stepped (\<lambda>v. v\<lparr>vw_status := Preview_accounted, vw_actual_cost_usd := Some ZERO,
    vw_cost_status := Not_incurred\<rparr>) v now w (s\<lparr>vs_world := w'\<rparr>))"
  using assms by (auto simp: started_def payable_def)

lemma confirm_dispatch_spec:
  assumes "sound d r s" "started i q upper s"
  shows "wp (confirm_dispatch d n i) (\<lambda>_ s'. sound d r s' \<and> started i q upper s') (failing d r) s"
  unfolding confirm_dispatch_def
  using assms
  by (intro preview_rules settle_previewI)
    (auto simp: sound_stepped intro: stop_closed started_payable settled_from_closed [OF started_payable])

lemma invoke_provider_spec:
  assumes "sound d r s" "started i q upper s" "admitted d r q upper"
  shows "wp (invoke_provider d q) (\<lambda>_ s'. sound d r s' \<and> called i upper s') (failing d r) s"
proof -
  let ?s = "s\<lparr>vs_calls := Suc (vs_calls s), vs_log := vs_log s @ [Did_execute q]\<rparr>"
  have "sound d r ?s" "called i upper ?s"
    using assms by (auto simp: sound_def started_def called_def call_ok_def)
  then show ?thesis
    unfolding invoke_provider_def
    by (intro preview_rules) (simp_all add: stop_uncertain called_def)
qed

lemma accounted_simps [simp]:
  "vw_preview_id (accounted e c v) = vw_preview_id v" "vw_application_id (accounted e c v) = vw_application_id v"
  by (simp_all add: accounted_def)

lemma called_payable:
  assumes "called i upper s" "vs_value s = Some v"
  shows "payable i a (stepped (accounted e (Some a)) v now w s)"
  using assms by (auto simp: called_def payable_def accounted_def)

lemma called_executes: "called i upper s \<Longrightarrow> list_ex executes (vs_log s)"
  by (simp add: called_def)

lemma called_paid:
  assumes "called i upper s" "vs_value s = Some v" "settled_from i a (stepped (accounted e (Some a)) v now w s) s'"
  shows "paid s'"
proof -
  have "list_ex executes (vs_log s')" "Did_reserve i upper True \<in> set (vs_log s')"
    using assms by (auto simp: called_def settled_from_def list_ex_iff)
  then show ?thesis
    using assms by (auto simp: called_def settled_from_def paid_def accounted_def)
qed

lemma paid_closed: "paid s \<Longrightarrow> vs_value s = Some v \<Longrightarrow> funds_closed v (vs_log s)"
  by (auto simp: paid_def funds_closed_def)

lemma account_outcome_spec:
  assumes "sound d r s" "called i upper s"
  shows "wp (account_outcome d n q i out) (\<lambda>_ s'. sound d r s' \<and> paid s') (failing d r) s"
proof -
  note executed = called_executes [OF assms(2)]
  show ?thesis
    unfolding account_outcome_def Let_def
    using assms(1)
    by (intro preview_rules settle_previewI)
      (auto simp: sound_stepped executed
        intro: stop_uncertain called_payable [OF assms(2)] called_paid [OF assms(2)] stop_closed paid_closed)
qed

section \<open>The port and the run\<close>

lemma seq_specI:
  "wp m P R s \<Longrightarrow> (\<And>x s'. P x s' \<Longrightarrow> wp (f x) Q R s') \<Longrightarrow> wp (seq m f) Q R s"
  unfolding wp_seq by (erule wp_weaken) simp_all

lemma preview_port_spec:
  assumes "sound d r s" "fresh s" "pn_request n = r"
  shows "wp (preview_port d n q) (\<lambda>_ s'. sound d r s' \<and> paid s') (failing d r) s"
  unfolding preview_port_def
  by (intro seq_specI [OF admit_invocation_spec [OF assms]] seq_specI [OF reserve_intent_spec]
      seq_specI [OF confirm_dispatch_spec] seq_specI [OF invoke_provider_spec] account_outcome_spec pairI)
    auto

lemma judged_normalized:
  "judge_outcome kd b config t r out = Characterized k \<Longrightarrow> \<exists>payload result. normalize b config t r payload result = Characterized k"
  by (auto simp: judge_outcome_def classifier_failure_def split: provider_outcome.splits option.splits if_splits)

lemma classify_spec:
  assumes "sound d r s" "fresh s" "pn_request n = r"
  shows "wp (classify_live kd b config t (preview_port d n) (ask f) (\<lambda>e. Fault (Known e)) r)
    (\<lambda>k s'. sound d r s' \<and> (paid s' \<or> fresh s' \<and> (\<exists>e. k = Unclassified e))
       \<and> (\<forall>c. k = Characterized c \<longrightarrow> (\<exists>payload result. normalize b config t r payload result = Characterized c)))
    (failing d r) s"
  unfolding classify_live_def
  by (intro ifI optionI retI raiseI seqI [of "ask f"] askI seq_specI [OF preview_port_spec])
    (use assms in \<open>auto simp: classifier_failure_def dest: judged_normalized\<close>)

text \<open>Where a characterization comes from.\<close>

definition origin :: "'w preview_dependencies \<Rightarrow> preview_run \<Rightarrow> classification \<Rightarrow> bool" where
  "origin d n c = (\<exists>t payload result k. new_normalizer (pd_classifier_digests d) (pd_bundle d) (pd_classifier_config d) = Inr t
     \<and> normalize (pd_bundle d) (pd_classifier_config d) t (pn_request n) payload result = Characterized k
     \<and> c = kr_classification k)"

definition finished :: "'w preview_dependencies \<Rightarrow> preview_run \<Rightarrow> 'w preview_state \<Rightarrow> bool" where
  "finished d n s = (paid s \<and> (\<exists>v c rt a u. vs_value s = Some v \<and> vw_status v = Preview_completed
     \<and> vw_classification v = Some c \<and> origin d n c \<and> vw_route v = Some rt
     \<and> route (pd_digests d) (pn_request n) c (pn_environment n) (pd_bundle d) None = Inr rt
     \<and> vw_actual_cost_usd v = Some a \<and> vw_reserved_cost_usd v = Some u \<and> dval a \<le> dval u))"

text \<open>The characterization is saved, and its cost is within the reservation.\<close>

definition characterized :: "classification \<Rightarrow> 'w preview_state \<Rightarrow> bool" where
  "characterized c s = (paid s \<and> (\<exists>v. vs_value s = Some v \<and> vw_classification v = Some c))"

definition within_reserve :: "'w preview_state \<Rightarrow> bool" where
  "within_reserve s = (\<exists>v a u. vs_value s = Some v \<and> vw_actual_cost_usd v = Some a \<and> vw_reserved_cost_usd v = Some u
     \<and> dval a \<le> dval u)"

lemma more_world [simp]:
  "characterized c (s\<lparr>vs_world := w\<rparr>) = characterized c s" "within_reserve (s\<lparr>vs_world := w\<rparr>) = within_reserve s"
  by (simp_all add: characterized_def within_reserve_def)

lemma paid_stepped:
  assumes "paid s" "vs_value s = Some v" and "vw_preview_id (f v) = vw_preview_id v"
    "vw_reserved_cost_usd (f v) = vw_reserved_cost_usd v" "vw_actual_cost_usd (f v) = vw_actual_cost_usd v"
    "vw_cost_status (f v) = vw_cost_status v" "vw_settled (f v) = vw_settled v"
  shows "paid (stepped f v now w s)"
  using assms by (auto simp: paid_def)

lemma paid_actual: "paid s \<Longrightarrow> vs_value s = Some v \<Longrightarrow> vw_actual_cost_usd v \<noteq> None"
  by (auto simp: paid_def)

lemma check_cost_spec:
  assumes "sound d r s" "characterized c s"
  shows "wp (check_cost d) (\<lambda>_ s'. sound d r s' \<and> characterized c s' \<and> within_reserve s') (failing d r) s"
  unfolding check_cost_def
  using assms
  by (intro preview_rules)
    (auto simp: characterized_def within_reserve_def not_less dest: paid_actual intro: stop_closed paid_closed)

lemma characterized_closed: "characterized c s \<Longrightarrow> vs_value s = Some v \<Longrightarrow> funds_closed v (vs_log s)"
  by (auto simp: characterized_def intro: paid_closed)

lemma characterized_stop:
  assumes "sound d r s" "characterized c s" "vs_value s = Some v"
  shows "failing d r Stopped (stepped (halt Preview_blocked code) v now w (s\<lparr>vs_world := w'\<rparr>))"
  using assms by (intro stop_closed) (simp_all add: characterized_closed)

lemma characterized_stepped:
  "paid s \<Longrightarrow> vs_value s = Some v
    \<Longrightarrow> characterized c (stepped (\<lambda>v. v\<lparr>vw_classification := Some c\<rparr>) v now w s)"
  by (simp add: characterized_def paid_stepped)

lemma finished_stepped:
  assumes "characterized c s" "within_reserve s" "vs_value s = Some v" "origin d n c"
    and "route (pd_digests d) (pn_request n) c (pn_environment n) (pd_bundle d) None = Inr rt"
  shows "finished d n (stepped (\<lambda>v. v\<lparr>vw_status := Preview_completed, vw_route := Some rt\<rparr>) v now w s)"
  using assms by (auto simp: characterized_def within_reserve_def finished_def paid_stepped)

lemma paid_or_fresh_closed:
  "paid s \<or> fresh s \<Longrightarrow> vs_value s = Some v \<Longrightarrow> funds_closed v (vs_log s)"
  using paid_closed [of s v] by (auto simp: funds_closed_def dest: fresh_reserves_nothing)

lemma finish_preview_spec:
  assumes "sound d r s" "paid s \<or> fresh s \<and> (\<exists>e. k = Unclassified e)"
    and "\<And>c. k = Characterized c \<Longrightarrow> origin d n (kr_classification c)"
  shows "wp (finish_preview d n k) (\<lambda>_ s'. sound d r s' \<and> finished d n s') (failing d r) s"
proof (cases k)
  case (Unclassified e)
  then show ?thesis
    unfolding finish_preview_def
    using assms by (auto intro!: preview_rules stop_closed paid_or_fresh_closed)
next
  case (Characterized c)
  with assms have "paid s" "origin d n (kr_classification c)" by simp_all
  with assms(1) show ?thesis
    unfolding finish_preview_def Characterized classified.case
    apply (intro seqI [of "save_preview _ _"] save_previewI seq_specI [OF check_cost_spec, of _ _ _ "kr_classification c"] preview_rules)
    apply (auto simp: sound_stepped intro: characterized_stepped finished_stepped characterized_stop)
    done
qed

lemma classify_and_route_spec:
  assumes "sound d r s" "fresh s" "pn_request n = r"
    and t: "new_normalizer (pd_classifier_digests d) (pd_bundle d) (pd_classifier_config d) = Inr t"
  shows "wp (classify_and_route d n t) (\<lambda>_ s'. sound d r s' \<and> finished d n s') (failing d r) s"
  unfolding classify_and_route_def assms(3)
  by (intro seqI [of "dep _"] depI seq_specI [OF classify_spec] finish_preview_spec)
    (use assms(1-3) t in \<open>auto simp: origin_def\<close>)

section \<open>The verdict of a run\<close>

lemma catch_specI:
  "wp m P F s \<Longrightarrow> (\<And>x s'. P x s' \<Longrightarrow> Q x s') \<Longrightarrow> (\<And>e s'. F e s' \<Longrightarrow> wp (h e) Q R s') \<Longrightarrow> wp (catch m h) Q R s"
  unfolding wp_catch by (erule wp_weaken) simp_all

definition verdict :: "'w preview_dependencies \<Rightarrow> preview_run \<Rightarrow> preview \<Rightarrow> 'w preview_state \<Rightarrow> bool" where
  "verdict d n v s = (vs_value s = Some v
     \<and> (finished d n s
        \<or> vw_status v = Preview_blocked \<and> (funds_closed v (vs_log s) \<or> \<not> list_ex executes (vs_log s))
        \<or> vw_status v = Preview_uncertain \<and> list_ex executes (vs_log s)))"

definition closed :: "'w preview_dependencies \<Rightarrow> preview_run \<Rightarrow> 'w preview_state \<Rightarrow> bool" where
  "closed d n s = (sound d (pn_request n) s \<and> (\<exists>v. verdict d n v s))"

lemma sound_calls: "sound d r s \<Longrightarrow> vs_calls s \<noteq> 0 \<longleftrightarrow> list_ex executes (vs_log s)"
  by (auto simp: sound_def list_ex_iff filter_empty_conv)

lemma preview_failed_spec:
  assumes "failing d (pn_request n) e s"
  shows "wp (preview_failed d e) (\<lambda>_ s'. closed d n s') (\<lambda>e s'. e \<noteq> Preview_unavailable \<and> sound d (pn_request n) s') s"
proof -
  have sound: "sound d (pn_request n) s" using assms by (simp add: failing_def)
  have save: "wp (seq (get vs_calls) (\<lambda>calls.
       save_preview d (\<lambda>v. v\<lparr>vw_status := (if calls \<noteq> 0 then Preview_uncertain else Preview_blocked),
         vw_cause_code := Some ''preview_dependency_failure''\<rparr>)))
       (\<lambda>_ s'. closed d n s') (\<lambda>e s'. e \<noteq> Preview_unavailable \<and> sound d (pn_request n) s') s"
    by (intro preview_rules)
      (use sound sound_calls [OF sound] in \<open>auto simp: closed_def verdict_def sound_stepped\<close>)
  show ?thesis
  proof (cases e)
    case Stopped
    with assms show ?thesis
      by (auto simp: preview_failed_def wp failing_def halted_def closed_def verdict_def)
  next
    case (Fault f)
    then show ?thesis using save sound
      by (cases "f = Known RepositoryUnavailable")
        (simp_all add: preview_failed_def wp split: fault.split router_error.split)
  qed (use assms in \<open>simp add: failing_def\<close>)
qed

text \<open>What the checks before the claim establish.\<close>

definition answers_environment :: "'w preview_dependencies \<Rightarrow> environment \<Rightarrow> bool" where
  "answers_environment d env = (\<exists>w w'. pd_environment d w = (Inr env, w'))"

lemma answers_environmentI: "pd_environment d w = (Inr env, w') \<Longrightarrow> answers_environment d env"
  by (auto simp: answers_environment_def)

definition trusted_run :: "'w preview_dependencies \<Rightarrow> request \<Rightarrow> preview_run \<Rightarrow> output_type \<Rightarrow> bool" where
  "trusted_run d r n t = (pn_request n = r
     \<and> rq_application_id r = Some (pd_application_id d) \<and> \<not> env_synthetic (pn_environment n)
     \<and> env_trusted_application_id (pn_environment n) = Some (pd_application_id d)
     \<and> answers_environment d (pn_environment n)
     \<and> kc_status (pd_classifier_config d) = Active
     \<and> new_normalizer (pd_classifier_digests d) (pd_bundle d) (pd_classifier_config d) = Inr t)"

lemma preview_checksI:
  assumes "vs_log s = []" and "\<And>e s'. vs_log s' = [] \<Longrightarrow> R e s'"
    and "\<And>n t s'. trusted_run d r n t \<Longrightarrow> vs_log s' = [] \<Longrightarrow> vs_calls s' = vs_calls s \<Longrightarrow> Q (n, t) s'"
  shows "wp (preview_checks d r key now) Q R s"
  unfolding preview_checks_def Let_def
  by (intro preview_rules) (use assms(1,2) in \<open>auto simp: trusted_run_def intro!: assms(3) intro: answers_environmentI\<close>)

lemma single_call [simp]:
  "each_call P [c] \<longleftrightarrow> P [] c" "persisted [Did_claim v] = Some v"
  using each_call_snoc(2) [of P "[]" c] persisted_snoc(2) [of "[]" "Did_claim v"] by simp_all

lemma claimed_unsettled [simp]: "\<not> vw_settled (claimed_preview d r model now unique)"
  by (simp add: claimed_preview_def)

lemma claimed_state:
  assumes "vs_log s = []" "vs_calls s = 0" "vs_value s = Some v" "\<not> vw_settled v"
  shows "sound d r (s\<lparr>vs_log := [Did_claim v]\<rparr>)" "fresh (s\<lparr>vs_log := [Did_claim v]\<rparr>)"
  using assms by (simp_all add: sound_def fresh_def call_ok_def)

lemma claimed_run:
  assumes "vs_log s = []" "vs_calls s = 0" "vs_value s = Some v" "\<not> vw_settled v" "trusted_run d r n t"
  shows "wp (catch (classify_and_route d n t) (preview_failed d)) (\<lambda>_ s'. closed d n s')
    (\<lambda>e s'. e \<noteq> Preview_unavailable \<and> sound d r s') (s\<lparr>vs_log := [Did_claim v]\<rparr>)"
proof (rule catch_specI)
  have request: "pn_request n = r"
    and t: "new_normalizer (pd_classifier_digests d) (pd_bundle d) (pd_classifier_config d) = Inr t"
    using assms(5) by (simp_all add: trusted_run_def)
  show "wp (classify_and_route d n t) (\<lambda>_ s'. sound d r s' \<and> finished d n s') (failing d r) (s\<lparr>vs_log := [Did_claim v]\<rparr>)"
    by (intro classify_and_route_spec claimed_state assms(1-4) request t)
  show "closed d n s'" if "sound d r s' \<and> finished d n s'" for s'
    using that request by (auto simp: closed_def verdict_def finished_def)
  show "wp (preview_failed d e) (\<lambda>_ s'. closed d n s') (\<lambda>e s'. e \<noteq> Preview_unavailable \<and> sound d r s') s'"
    if "failing d r e s'" for e s'
    using preview_failed_spec [of d n e s'] that request by simp
qed

definition run_verdict :: "'w preview_dependencies \<Rightarrow> request \<Rightarrow> preview \<Rightarrow> 'w preview_state \<Rightarrow> bool" where
  "run_verdict d r v s = (\<exists>n t. trusted_run d r n t \<and> sound d r s \<and> verdict d n v s)"

lemma run_preview_spec:
  assumes "vs_log s = []" "vs_calls s = 0"
  shows "wp (run_preview d r key)
    (\<lambda>v s'. vs_log s' = [] \<or> run_verdict d r v s')
    (\<lambda>e s'. vs_log s' = [] \<or> e \<noteq> Preview_unavailable \<and> sound d r s') s"
proof -
  let ?Q = "\<lambda>v s'. vs_log s' = [] \<or> run_verdict d r v s'"
  let ?R = "\<lambda>e s'. vs_log s' = [] \<or> e \<noteq> Preview_unavailable \<and> sound d r s'"
  have rest: "wp (catch (classify_and_route d n t) (preview_failed d)) (\<lambda>_. wp
        (seq (get vs_value) (\<lambda>final. case final of None \<Rightarrow> raise (Fault Other_exception) | Some v \<Rightarrow> ret v)) ?Q ?R) ?R
      (s'\<lparr>vs_log := [Did_claim v]\<rparr>)"
    if "vs_log s' = []" "vs_calls s' = 0" "vs_value s' = Some v" "\<not> vw_settled v" "trusted_run d r n t" for s' n t v
  proof (rule wp_weaken [OF claimed_run [OF that]])
    have request: "pn_request n = r" using that(5) by (simp add: trusted_run_def)
    show "wp (seq (get vs_value) (\<lambda>final. case final of None \<Rightarrow> raise (Fault Other_exception) | Some v \<Rightarrow> ret v)) ?Q ?R s''"
      if run: "closed d n s''" for s''
      using run \<open>trusted_run d r n t\<close> request by (auto simp: wp closed_def run_verdict_def verdict_def split: option.split)
  qed simp
  show ?thesis
    unfolding run_preview_def Let_def
    by (intro seqI askI preview_checksI pairI known_resI modifyI depI optionI retI record_callI)
      (use assms in \<open>simp_all add: rest\<close>)
qed

end
