(* ===== verification/PreviewStore.thy ===== *)
theory PreviewStore
  imports Preview TableFacts Histories
begin

text \<open>
  \<^verbatim>\<open>SQLPreviewRepository\<close> of \<^verbatim>\<open>storage/previews.py\<close> over the table of previews and the keys of the
  budget allocations, in the sessions of the task repository: a claim counts the rows of its
  allocation, a save compares the stored value with the one its caller knows. A value is stored as the
  value itself, since printing one and parsing it gives it back. The locked row of the allocation
  serializes claims, so the second read after a violated constraint sees the database of the first.

  The interpretation discharges the laws of histories: in every history each application has one row
  per key and per task, and a row keeps its identity.
\<close>

section \<open>The repository\<close>

record preview_row =
  wr_allocation_id :: string
  wr_application_id :: string
  wr_task_id :: string
  wr_key_digest :: string
  wr_request_digest :: string
  wr_payload :: preview

record preview_db =
  wd_allocations :: "(string \<times> string) list"
  wd_previews :: "(string \<times> preview_row) list"

record preview_repository =
  wp_allocation_id :: string
  wp_max_records :: nat

definition new_preview_repository :: "string \<Rightarrow> int \<Rightarrow> preview_repository res" where
  "new_preview_repository allocation_id max_records =
     (if allocation_id = [] \<or> max_records \<le> 0 then Inl ValueError
      else Inr \<lparr>wp_allocation_id = allocation_id, wp_max_records = nat max_records\<rparr>)"

definition keyed :: "string \<Rightarrow> string \<Rightarrow> string \<times> preview_row \<Rightarrow> bool" where
  "keyed app key item = (wr_application_id (snd item) = app \<and> wr_key_digest (snd item) = key)"

text \<open>The row the schema accepts: a free primary key, a free key and a free task of the application.\<close>

definition insert_preview :: "string \<Rightarrow> preview_row \<Rightarrow> preview_db \<Rightarrow> preview_db stored" where
  "insert_preview identity row db =
     (if map_of (wd_previews db) identity \<noteq> None
        \<or> list_ex (keyed (wr_application_id row) (wr_key_digest row)) (wd_previews db)
        \<or> list_ex (\<lambda>(k, q). wr_application_id q = wr_application_id row \<and> wr_task_id q = wr_task_id row) (wd_previews db)
      then Inl Integrity_violation
      else Inr (db\<lparr>wd_previews := AList.update identity row (wd_previews db)\<rparr>))"

definition allocated_rows :: "string \<Rightarrow> string \<Rightarrow> preview_db \<Rightarrow> (string \<times> preview_row) list" where
  "allocated_rows app allocation db =
     filter (\<lambda>(k, q). wr_application_id q = app \<and> wr_allocation_id q = allocation) (wd_previews db)"

definition retained_row :: "(string \<times> preview_row) option \<Rightarrow> string \<Rightarrow> preview stored" where
  "retained_row found digest = (case found of
     None \<Rightarrow> Inl (Refused IdempotencyConflict)
   | Some (k, row) \<Rightarrow> if wr_request_digest row \<noteq> digest then Inl (Refused IdempotencyConflict) else Inr (wr_payload row))"

definition preview_claim_body :: "preview_repository \<Rightarrow> preview \<Rightarrow> string \<Rightarrow> string \<Rightarrow> preview_db
    \<Rightarrow> (preview option \<times> preview_db) stored" where
  "preview_claim_body repo v key digest db =
     (let app = vw_application_id v; allocation = wp_allocation_id repo in
      if (app, allocation) \<notin> set (wd_allocations db) then Inl (Refused RepositoryUnavailable)
      else (case find (keyed app key) (wd_previews db) of
          Some item \<Rightarrow> bind_st (retained_row (Some item) digest) (\<lambda>payload. Inr (Some payload, db))
        | None \<Rightarrow>
            if wp_max_records repo \<le> length (allocated_rows app allocation db)
            then Inl (Refused PreviewCapacityExceeded)
            else bind_st (insert_preview (vw_preview_id v)
                \<lparr>wr_allocation_id = allocation, wr_application_id = app, wr_task_id = vw_task_id v, wr_key_digest = key,
                 wr_request_digest = digest, wr_payload = v\<rparr> db) (\<lambda>db. Inr (None, db))))"

definition claim_preview :: "store_outcome \<Rightarrow> bool \<Rightarrow> preview_repository \<Rightarrow> preview \<Rightarrow> string \<Rightarrow> string \<Rightarrow> preview_db
    \<Rightarrow> preview option res \<times> preview_db" where
  "claim_preview st reads repo v key digest db = (case session st (preview_claim_body repo v key digest) db of
     (Inr x, db') \<Rightarrow> (Inr x, db')
   | (Inl (Refused e), db') \<Rightarrow> (Inl e, db')
   | (Inl Integrity_violation, db') \<Rightarrow>
       (if \<not> reads then Inl RepositoryUnavailable
        else (case retained_row (find (keyed (vw_application_id v) key) (wd_previews db')) digest of
            Inr payload \<Rightarrow> Inr (Some payload) | Inl _ \<Rightarrow> Inl IdempotencyConflict), db')
   | (Inl Database_error, db') \<Rightarrow> (Inl RepositoryUnavailable, db'))"

definition preview_save_body :: "preview \<Rightarrow> preview \<Rightarrow> preview_db \<Rightarrow> (unit \<times> preview_db) stored" where
  "preview_save_body previous current db = (case map_of (wd_previews db) (vw_preview_id previous) of
     None \<Rightarrow> Inl (Refused ConcurrentUpdate)
   | Some row \<Rightarrow>
       if wr_application_id row \<noteq> vw_application_id previous \<or> wr_payload row \<noteq> previous
       then Inl (Refused ConcurrentUpdate)
       else Inr ((), db\<lparr>wd_previews := AList.update (vw_preview_id previous) (row\<lparr>wr_payload := current\<rparr>) (wd_previews db)\<rparr>))"

definition update_preview :: "store_outcome \<Rightarrow> preview \<Rightarrow> preview \<Rightarrow> preview_db \<Rightarrow> unit res \<times> preview_db" where
  "update_preview st previous current db =
     (if vw_preview_id previous \<noteq> vw_preview_id current \<or> vw_application_id previous \<noteq> vw_application_id current
      then (Inl ValueError, db)
      else plain_session st (preview_save_body previous current) db)"

definition get_preview :: "bool \<Rightarrow> string \<Rightarrow> string \<Rightarrow> preview_db \<Rightarrow> preview option res" where
  "get_preview reads identity app db = (if \<not> reads then Inl RepositoryUnavailable
     else Inr (case map_of (wd_previews db) identity of
        None \<Rightarrow> None | Some row \<Rightarrow> if wr_application_id row = app then Some (wr_payload row) else None))"

section \<open>Histories\<close>

datatype preview_op =
    Claim_op store_outcome bool preview_repository preview string string
  | Update_op store_outcome preview preview

primrec preview_step :: "preview_op \<Rightarrow> preview_db \<Rightarrow> preview_db" where
  "preview_step (Claim_op st reads repo v key digest) db = snd (claim_preview st reads repo v key digest db)"
| "preview_step (Update_op st previous current) db = snd (update_preview st previous current db)"

definition preview_rows_ok :: "preview_db \<Rightarrow> bool" where
  "preview_rows_ok db = (distinct (map fst (wd_previews db))
     \<and> (\<forall>k r. map_of (wd_previews db) k = Some r \<longrightarrow> vw_preview_id (wr_payload r) = k
          \<and> vw_application_id (wr_payload r) = wr_application_id r
          \<and> (wr_application_id r, wr_allocation_id r) \<in> set (wd_allocations db))
     \<and> (\<forall>k r k' r'. map_of (wd_previews db) k = Some r \<longrightarrow> map_of (wd_previews db) k' = Some r'
          \<longrightarrow> wr_application_id r = wr_application_id r'
          \<longrightarrow> wr_key_digest r = wr_key_digest r' \<or> wr_task_id r = wr_task_id r' \<longrightarrow> k = k'))"

definition same_identity :: "preview_row \<Rightarrow> preview_row \<Rightarrow> bool" where
  "same_identity r r' = (wr_allocation_id r = wr_allocation_id r' \<and> wr_application_id r = wr_application_id r'
     \<and> wr_task_id r = wr_task_id r' \<and> wr_key_digest r = wr_key_digest r' \<and> wr_request_digest r = wr_request_digest r')"

definition preview_extends :: "preview_db \<Rightarrow> preview_db \<Rightarrow> bool" where
  "preview_extends db db' = (set (wd_allocations db) \<subseteq> set (wd_allocations db')
     \<and> table_extends same_identity (wd_previews db) (wd_previews db'))"

lemma same_identity_refl [simp]: "same_identity r r"
  by (simp add: same_identity_def)

lemma preview_extends_refl [simp]: "preview_extends db db"
  by (simp add: preview_extends_def table_extends_refl)

lemma preview_extends_trans: "preview_extends a b \<Longrightarrow> preview_extends b c \<Longrightarrow> preview_extends a c"
  unfolding preview_extends_def by (auto elim!: table_extends_trans simp: same_identity_def)

lemma find_keyed_None: "find (keyed app key) rows = None \<longleftrightarrow> \<not> list_ex (keyed app key) rows"
  by (auto simp: find_None_iff list_ex_iff)

text \<open>A claim that does not raise answers with a row it found, or adds a row.\<close>

lemma claim_body_cases:
  assumes "preview_claim_body repo v key digest db = Inr (x, db')"
  obtains (found) payload where "x = Some payload" "db' = db"
  | (added) row where "x = None" "map_of (wd_previews db) (vw_preview_id v) = None"
      "row = \<lparr>wr_allocation_id = wp_allocation_id repo, wr_application_id = vw_application_id v,
         wr_task_id = vw_task_id v, wr_key_digest = key, wr_request_digest = digest, wr_payload = v\<rparr>"
      "db' = db\<lparr>wd_previews := AList.update (vw_preview_id v) row (wd_previews db)\<rparr>"
      "(vw_application_id v, wp_allocation_id repo) \<in> set (wd_allocations db)"
      "length (allocated_rows (vw_application_id v) (wp_allocation_id repo) db) < wp_max_records repo"
      "\<And>k q. (k, q) \<in> set (wd_previews db) \<Longrightarrow> wr_application_id q = vw_application_id v
        \<Longrightarrow> wr_key_digest q \<noteq> key \<and> wr_task_id q \<noteq> vw_task_id v"
proof (cases x)
  case (Some payload)
  with assms have "db' = db"
    by (auto simp: preview_claim_body_def Let_def retained_row_def store_simps split: if_splits option.splits)
  with Some found show thesis by blast
next
  case None
  let ?row = "\<lparr>wr_allocation_id = wp_allocation_id repo, wr_application_id = vw_application_id v,
    wr_task_id = vw_task_id v, wr_key_digest = key, wr_request_digest = digest, wr_payload = v\<rparr>"
  from assms None have inserted: "insert_preview (vw_preview_id v) ?row db = Inr db'"
    and allocated: "(vw_application_id v, wp_allocation_id repo) \<in> set (wd_allocations db)"
      "length (allocated_rows (vw_application_id v) (wp_allocation_id repo) db) < wp_max_records repo"
    by (auto simp: preview_claim_body_def Let_def store_simps split: if_splits option.splits)
  from inserted have free: "map_of (wd_previews db) (vw_preview_id v) = None"
    and db': "db' = db\<lparr>wd_previews := AList.update (vw_preview_id v) ?row (wd_previews db)\<rparr>"
    and unique: "\<And>k q. (k, q) \<in> set (wd_previews db) \<Longrightarrow> wr_application_id q = vw_application_id v
        \<Longrightarrow> wr_key_digest q \<noteq> key \<and> wr_task_id q \<noteq> vw_task_id v"
    by (auto simp: insert_preview_def list_ex_iff keyed_def split: if_splits)
  show thesis by (rule added [OF None free refl db' allocated unique])
qed

lemma claim_body_step:
  assumes ok: "preview_rows_ok db" and body: "preview_claim_body repo v key digest db = Inr (x, db')"
  shows "preview_rows_ok db' \<and> preview_extends db db'"
  using body
proof (cases rule: claim_body_cases)
  case found
  with ok show ?thesis by simp
next
  case (added row)
  have other: "wr_key_digest q \<noteq> key \<and> wr_task_id q \<noteq> vw_task_id v"
    if "map_of (wd_previews db) k = Some q" "wr_application_id q = vw_application_id v" for k q
    using added(7) [OF map_of_SomeD [OF that(1)] that(2)] .
  have "preview_rows_ok db'"
    using ok added(3,5) other unfolding preview_rows_ok_def added(4)
    by (simp add: map_of_update distinct_update) metis
  moreover have "preview_extends db db'"
    using table_insert [OF added(2), of same_identity row] by (simp add: preview_extends_def added(4))
  ultimately show ?thesis ..
qed

lemma save_body_row:
  assumes "preview_save_body previous current db = Inr (x, db')"
  obtains row where "map_of (wd_previews db) (vw_preview_id previous) = Some row"
    "wr_application_id row = vw_application_id previous" "wr_payload row = previous"
    "db' = db\<lparr>wd_previews := AList.update (vw_preview_id previous) (row\<lparr>wr_payload := current\<rparr>) (wd_previews db)\<rparr>"
  using assms by (auto simp: preview_save_body_def split: option.splits if_splits)

lemma save_body_step:
  assumes ok: "preview_rows_ok db" and body: "preview_save_body previous current db = Inr (x, db')"
    and same: "vw_preview_id previous = vw_preview_id current" "vw_application_id previous = vw_application_id current"
  shows "preview_rows_ok db' \<and> preview_extends db db'"
  using body
proof (rule save_body_row)
  fix row
  assume row: "map_of (wd_previews db) (vw_preview_id previous) = Some row"
    "wr_application_id row = vw_application_id previous"
    and db': "db' = db\<lparr>wd_previews := AList.update (vw_preview_id previous) (row\<lparr>wr_payload := current\<rparr>) (wd_previews db)\<rparr>"
  have allocated: "(wr_application_id row, wr_allocation_id row) \<in> set (wd_allocations db)"
    using ok row(1) by (simp add: preview_rows_ok_def)
  have "preview_rows_ok db'"
    using ok row same allocated unfolding preview_rows_ok_def db'
    by (auto simp: map_of_update distinct_update split: if_splits)
  moreover have "preview_extends db db'"
    using table_replace [OF row(1), of same_identity "row\<lparr>wr_payload := current\<rparr>"]
    by (simp add: preview_extends_def db' same_identity_def)
  ultimately show ?thesis ..
qed

lemma session_step:
  assumes "preview_rows_ok db"
    and "\<And>x db'. body db = Inr (x, db') \<Longrightarrow> preview_rows_ok db' \<and> preview_extends db db'"
  shows "preview_rows_ok (snd (session st body db)) \<and> preview_extends db (snd (session st body db))"
  by (rule session_cases [of body db st]) (use assms in auto)

lemma claim_preview_db: "snd (claim_preview st reads repo v key digest db)
    = snd (session st (preview_claim_body repo v key digest) db)"
  by (simp add: claim_preview_def split: prod.splits sum.splits store_error.splits)

lemma preview_step_safe:
  assumes "preview_rows_ok db"
  shows "preview_rows_ok (preview_step op db) \<and> preview_extends db (preview_step op db)"
proof (cases op)
  case (Claim_op st reads repo v key digest)
  then show ?thesis
    using session_step [OF assms, of "preview_claim_body repo v key digest" st] claim_body_step [OF assms]
    by (simp add: claim_preview_db)
next
  case (Update_op st previous current)
  then show ?thesis
    using session_step [OF assms, of "preview_save_body previous current" st] save_body_step [OF assms] assms
    by (simp add: update_preview_def plain_session_db)
qed

interpretation previews: histories preview_step preview_rows_ok preview_extends
  by unfold_locales (use preview_step_safe in \<open>auto intro: preview_extends_trans\<close>)

section \<open>What a claim promises\<close>

lemma claim_inserts:
  assumes "claim_preview st reads repo v key digest db = (Inr None, db')"
  shows "\<exists>row. map_of (wd_previews db') (vw_preview_id v) = Some row \<and> wr_application_id row = vw_application_id v
    \<and> wr_key_digest row = key \<and> wr_request_digest row = digest \<and> wr_allocation_id row = wp_allocation_id repo"
  using assms
  by (auto simp: claim_preview_def session_def preview_claim_body_def retained_row_def insert_preview_def Let_def
      store_simps map_of_update split: store_outcome.splits sum.splits store_error.splits option.splits if_splits)

lemma find_keyed:
  assumes ok: "preview_rows_ok db" and row: "map_of (wd_previews db) k = Some r"
  shows "find (keyed (wr_application_id r) (wr_key_digest r)) (wd_previews db) = Some (k, r)"
proof -
  let ?P = "keyed (wr_application_id r) (wr_key_digest r)"
  have distinct: "distinct (map fst (wd_previews db))" using ok by (simp add: preview_rows_ok_def)
  have "?P (k, r)" by (simp add: keyed_def)
  then have "find ?P (wd_previews db) \<noteq> None" using map_of_SomeD [OF row] by (auto simp: find_None_iff)
  then obtain k' r' where found: "find ?P (wd_previews db) = Some (k', r')" by auto
  then have "(k', r') \<in> set (wd_previews db)" "?P (k', r')" by (auto simp: find_Some_iff)
  then have hit: "map_of (wd_previews db) k' = Some r'" and same: "wr_application_id r' = wr_application_id r"
    "wr_key_digest r' = wr_key_digest r"
    using distinct by (simp_all add: keyed_def)
  then have "k' = k" using ok row unfolding preview_rows_ok_def by blast
  with found hit row show ?thesis by simp
qed

lemma claim_again:
  assumes ok: "preview_rows_ok db" and row: "map_of (wd_previews db) k = Some r"
    and v: "vw_application_id v = wr_application_id r" "wp_allocation_id repo = wr_allocation_id r"
  shows "claim_preview Store_ok reads repo v (wr_key_digest r) digest db
    = (if digest = wr_request_digest r then Inr (Some (wr_payload r)) else Inl IdempotencyConflict, db)"
proof -
  have "(wr_application_id r, wr_allocation_id r) \<in> set (wd_allocations db)"
    using ok row by (auto simp: preview_rows_ok_def)
  then show ?thesis
    using find_keyed [OF ok row]
    by (simp add: claim_preview_def session_def preview_claim_body_def retained_row_def v)
qed

text \<open>The number of rows of an allocation never passes the bound its claims are made with.\<close>

definition bounded_claim :: "string \<Rightarrow> nat \<Rightarrow> preview_op \<Rightarrow> bool" where
  "bounded_claim allocation bound op = (case op of
     Claim_op st reads repo v key digest \<Rightarrow> wp_allocation_id repo = allocation \<longrightarrow> wp_max_records repo \<le> bound
   | Update_op st previous current \<Rightarrow> True)"

lemma length_update_free:
  "map_of rows k = None \<Longrightarrow> length (filter P (AList.update k x rows)) = length (filter P rows) + (if P (k, x) then 1 else 0)"
  by (induction rows) auto

lemma length_update_same:
  assumes "map_of rows k = Some r" "distinct (map fst rows)" "P (k, x) = P (k, r)"
  shows "length (filter P (AList.update k x rows)) = length (filter P rows)"
  using assms by (induction rows) auto

lemma session_cases_db:
  "snd (session st body db) = db \<or> (\<exists>x db'. body db = Inr (x, db') \<and> snd (session st body db) = db')"
  by (cases rule: session_cases [of body db st]) auto

lemma claim_body_bounded:
  assumes body: "preview_claim_body repo v key digest db = Inr (x, db')"
    and bound: "length (allocated_rows app allocation db) \<le> n"
    and repo: "wp_allocation_id repo = allocation \<longrightarrow> wp_max_records repo \<le> n"
  shows "length (allocated_rows app allocation db') \<le> n"
  using body
proof (cases rule: claim_body_cases)
  case (added row)
  then show ?thesis
    using bound repo length_update_free [OF added(2)] by (auto simp: allocated_rows_def)
qed (use bound in simp)

lemma bounded_step:
  assumes ok: "preview_rows_ok db" and bound: "length (allocated_rows app allocation db) \<le> n"
    and op: "bounded_claim allocation n op"
  shows "length (allocated_rows app allocation (preview_step op db)) \<le> n"
proof (cases op)
  case (Claim_op st reads repo v key digest)
  with op have repo: "wp_allocation_id repo = allocation \<longrightarrow> wp_max_records repo \<le> n" by (simp add: bounded_claim_def)
  show ?thesis
    using session_cases_db [of st "preview_claim_body repo v key digest" db] claim_body_bounded [OF _ bound repo] bound
    by (auto simp: Claim_op claim_preview_db)
next
  case (Update_op st previous current)
  have "length (allocated_rows app allocation db') = length (allocated_rows app allocation db)"
    if body: "preview_save_body previous current db = Inr (x, db')" for x db'
    using body
  proof (rule save_body_row)
    fix row
    assume row: "map_of (wd_previews db) (vw_preview_id previous) = Some row"
      and db': "db' = db\<lparr>wd_previews := AList.update (vw_preview_id previous) (row\<lparr>wr_payload := current\<rparr>) (wd_previews db)\<rparr>"
    show ?thesis
      using ok by (simp add: allocated_rows_def db' length_update_same [OF row] preview_rows_ok_def)
  qed
  then show ?thesis
    using session_cases_db [of st "preview_save_body previous current" db] bound
    by (auto simp: Update_op update_preview_def plain_session_db)
qed

end
