(* ===== verification/ClassifierFacts.thy ===== *)
theory ClassifierFacts
  imports Classifier
begin

text \<open>
  What the classifier promises: a characterization that passes the strict output type is one the
  planner accepts, a rejected payload is reported by labels of the schema only, and a configuration
  is bound to the prompt, the schema and the policy it was loaded with.
\<close>

section \<open>Ranges and totals\<close>

lemma sum_over_keys:
  assumes "distinct (map fst xs)" and "distinct names" and "set (map fst xs) = set names"
  shows "sum_list (map (g \<circ> snd) xs) = (\<Sum>n\<leftarrow>names. (g (the (map_of xs n)) :: nat))"
proof -
  have "sum_list (map (g \<circ> snd) xs) = (\<Sum>n\<leftarrow>map fst xs. g (the (map_of xs n)))"
    using assms(1) by (auto simp: intro!: arg_cong [where f = sum_list])
  also have "\<dots> = (\<Sum>n\<in>set (map fst xs). g (the (map_of xs n)))"
    using sum_list_distinct_conv_sum_set [OF assms(1)] by blast
  also have "\<dots> = (\<Sum>n\<leftarrow>names. g (the (map_of xs n)))"
    by (simp only: assms(3) sum_list_distinct_conv_sum_set [OF assms(2)])
  finally show ?thesis .
qed

lemma sum_list_bounds:
  assumes "\<And>n. n \<in> set names \<Longrightarrow> lo n \<le> (v n :: nat) \<and> v n \<le> hi n"
  shows "(\<Sum>n\<leftarrow>names. lo n) \<le> (\<Sum>n\<leftarrow>names. v n) \<and> (\<Sum>n\<leftarrow>names. v n) \<le> (\<Sum>n\<leftarrow>names. hi n)"
  using assms by (auto intro: sum_list_mono)

lemma components_total_range:
  assumes ok: "complexity_ok x" and items: "list_all (component_in_range (cx_components x)) (component_items c)"
  shows "cx_total_min x \<le> components_total c \<and> components_total c \<le> cx_total_max x"
proof -
  let ?xs = "cx_components x" and ?ys = "component_items c"
  let ?r = "\<lambda>n. the (map_of ?xs n)" and ?v = "\<lambda>n. the (map_of ?ys n)"
  have keys: "distinct (map fst ?xs)" "set (map fst ?xs) = set component_names"
    and sums: "sum_list (map (cr_min \<circ> snd) ?xs) = cx_total_min x" "sum_list (map (cr_max \<circ> snd) ?xs) = cx_total_max x"
    using ok by (simp_all add: complexity_ok_def)
  have range: "cr_min (?r n) \<le> ?v n \<and> ?v n \<le> cr_max (?r n)" if n: "n \<in> set component_names" for n
  proof -
    from n have "n \<in> fst ` set ?ys" by (metis map_fst_component_items set_map)
    then obtain v where v: "map_of ?ys n = Some v"
      by (metis map_of_eq_None_iff not_None_eq)
    with items have "component_in_range ?xs (n, v)" by (auto simp: list_all_iff dest: map_of_SomeD)
    then show ?thesis using v by (simp add: component_in_range_def split: option.splits)
  qed
  have total: "components_total c = (\<Sum>n\<leftarrow>component_names. ?v n)"
    using sum_over_keys [of ?ys component_names "\<lambda>v. v"] distinct_component_names
    by (simp add: components_total_def o_def)
  show ?thesis
    using sum_list_bounds [of component_names "\<lambda>n. cr_min (?r n)" ?v "\<lambda>n. cr_max (?r n)", OF range]
      sum_over_keys [OF keys(1) distinct_component_names keys(2), of cr_min]
      sum_over_keys [OF keys(1) distinct_component_names keys(2), of cr_max] sums total
    by simp
qed

section \<open>The wire format\<close>

lemma flag_vocabulary_known: "set (flag_vocabulary p) = known_flags p"
  by (auto simp: flag_vocabulary_def known_flags_def)

lemma build_output_type_Inr:
  assumes "build_output_type b = Inr t"
  shows "ot_families t = pol_task_families (pb_policy b)"
    and "set (ot_flags t) = known_flags (pb_policy b)"
    and "set (map fst (cx_components (pol_complexity (pb_policy b)))) = set component_names"
    and "ot_components t = map (\<lambda>n. (n, the (map_of (cx_components (pol_complexity (pb_policy b))) n))) component_names"
  using assms by (auto simp: build_output_type_def Let_def flag_vocabulary_known split: if_splits)

lemma wire_errors_Nil:
  "wire_errors t (JMap m) = [] \<longleftrightarrow>
     family_valid t (map_of m ''task_family'') \<and> map_of m ''task_subclass'' = Some JNull
     \<and> components_valid t (map_of m ''components'') \<and> confidence_of (map_of m ''confidence'') \<noteq> None
     \<and> flags_valid t (map_of m ''flags'') \<and> set (map fst m) \<subseteq> set wire_fields"
  by (simp add: wire_errors_def)

lemma wire_errors_labels: "set (wire_errors t payload) \<subseteq> insert ''unknown_field'' (set wire_fields)"
  by (auto simp: wire_errors_def wire_fields_def split: json.splits if_splits)

lemma confidence_range: "confidence_of j = Some q \<Longrightarrow> 0 \<le> q \<and> q \<le> 1"
  by (auto simp: confidence_of_def split: option.splits json.splits if_splits)

lemma wire_components_items:
  "component_items (wire_components m) = map (\<lambda>n. (n, json_nat m n)) component_names"
  by (simp add: component_items_def wire_components_def component_names_def)

lemma components_valid_in_range:
  assumes t: "build_output_type b = Inr t" and valid: "components_valid t j"
  shows "list_all (component_in_range (cx_components (pol_complexity (pb_policy b))))
    (component_items (wire_components (the (as_map j))))"
proof -
  let ?xs = "cx_components (pol_complexity (pb_policy b))"
  from valid obtain m where m: "as_map j = Some m" by (auto simp: components_valid_def split: option.splits)
  have "component_in_range ?xs (n, json_nat m n)" if n: "n \<in> set component_names" for n
  proof -
    from n have "n \<in> set (map fst ?xs)" by (simp only: build_output_type_Inr(3) [OF t])
    then obtain r where r: "map_of ?xs n = Some r" by (metis list.set_map map_of_eq_None_iff not_None_eq)
    have "(n, r) \<in> set (ot_components t)"
      using n r by (force simp: build_output_type_Inr(4) [OF t])
    with valid m obtain v where "map_of m n = Some v" "in_bounds r v"
      by (fastforce simp: components_valid_def list_all_iff split: option.splits)
    then show ?thesis using r
      by (auto simp: component_in_range_def json_nat_def in_bounds_def nat_le_iff le_nat_iff split: json.splits)
  qed
  then show ?thesis by (simp add: m wire_components_items list_all_iff)
qed

section \<open>Characterizations\<close>

lemma normalize_cases:
  "normalize b config t r payload result =
     (if wire_errors t payload = []
      then (case payload of JMap m \<Rightarrow> Characterized
          \<lparr>kr_classification = wire_classification t (provenance config b) m, kr_classifier_version = kc_version config,
           kr_prompt_version = kc_prompt_version config, kr_schema_version = kc_schema_version config,
           kr_configuration_hash = kc_configuration_hash config, kr_provider_result = result\<rparr>
        | _ \<Rightarrow> classifier_failure r config MALFORMED_OUTPUT ''CLASSIFIER_OUTPUT_SCHEMA_INVALID''
            (validation_diagnostics []) (map_option Result result))
      else classifier_failure r config MALFORMED_OUTPUT ''CLASSIFIER_OUTPUT_SCHEMA_INVALID''
          (validation_diagnostics (wire_errors t payload)) (map_option Result result))"
  by (simp add: normalize_def split: list.splits json.splits)

lemma normalize_Characterized:
  assumes "normalize b config t r payload result = Characterized k"
  obtains m where "payload = JMap m" "wire_errors t payload = []"
    "kr_classification k = wire_classification t (provenance config b) m" "kr_provider_result k = result"
  using assms by (auto simp: normalize_cases classifier_failure_def split: if_splits json.splits)

lemma wire_classification_planned:
  assumes b: "bundle_ok b" and t: "build_output_type b = Inr t" and ok: "wire_errors t (JMap m) = []"
  shows "validated_classification (wire_classification t source m) (pb_policy b)
    = Inr (component_items (cl_components (wire_classification t source m)))"
proof -
  let ?c = "wire_classification t source m" and ?p = "pb_policy b"
  note valid = ok [unfolded wire_errors_Nil]
  have "complexity_ok (pol_complexity ?p)" using b by (simp add: bundle_ok_def policy_ok_def)
  moreover have items: "list_all (component_in_range (cx_components (pol_complexity ?p))) (component_items (cl_components ?c))"
    using components_valid_in_range [OF t] valid by (simp add: wire_classification_def)
  moreover have "cl_task_family ?c \<in> set (pol_task_families ?p)"
    using valid build_output_type_Inr(1) [OF t]
    by (auto simp: wire_classification_def family_valid_def split: option.splits)
  moreover have "set (map fst (cl_flags ?c)) \<subseteq> known_flags ?p"
    using build_output_type_Inr(2) [OF t] by (auto simp: wire_classification_def wire_flags_def)
  ultimately show ?thesis
    using components_total_range build_output_type_Inr(3) [OF t]
    by (simp add: validated_classification_Inr wire_classification_def)
qed

lemma wire_flags_distinct:
  "build_output_type b = Inr t \<Longrightarrow> distinct (map fst (wire_flags t m))"
  by (auto simp: build_output_type_def Let_def flag_vocabulary_def wire_flags_def o_def split: if_splits)

lemma wire_classification_ok:
  assumes "build_output_type b = Inr t" and "wire_errors t (JMap m) = []"
  shows "classification_ok (wire_classification t source m)"
  using assms(2) wire_flags_distinct [OF assms(1)] unfolding wire_errors_Nil classification_ok_def
  by (auto simp: wire_classification_def dest: confidence_range)

section \<open>The binding of a configuration\<close>

lemma load_classifier_config_Inr:
  assumes "load_classifier_config kd f inside prompt b = Inr config"
  obtains source model t where "prompt = Some source" "map_of (bundle_models b) (kc_model_alias f) = Some model"
    "build_output_type b = Inr t"
    "config = classifier_file.extend f
       \<lparr>kc_prompt_text = source, kc_prompt_hash = kd_text kd source, kc_schema_hash = kd_schema kd t,
        kc_configuration_hash = kd_config kd f (kd_text kd source) (kd_schema kd t) (pb_content_hash b),
        kc_bundle_hash = pb_content_hash b\<rparr>"
  using assms
  by (auto simp: load_classifier_config_def bind_res_Inr_iff Let_def split: option.splits)

lemma loaded_binding:
  assumes "load_classifier_config kd f inside prompt b = Inr config"
  shows "check_binding kd b config = Inr ()"
    and "map_of (bundle_models b) (kc_model_alias config) \<noteq> None"
proof -
  obtain source model t where m: "map_of (bundle_models b) (kc_model_alias f) = Some model"
    and t: "build_output_type b = Inr t"
    and config: "config = classifier_file.extend f
       \<lparr>kc_prompt_text = source, kc_prompt_hash = kd_text kd source, kc_schema_hash = kd_schema kd t,
        kc_configuration_hash = kd_config kd f (kd_text kd source) (kd_schema kd t) (pb_content_hash b),
        kc_bundle_hash = pb_content_hash b\<rparr>"
    using assms by (rule load_classifier_config_Inr)
  have "classifier_file.truncate config = f"
    by (cases f) (simp add: config classifier_file.defs)
  then show "check_binding kd b config = Inr ()"
    using t by (simp add: check_binding_def check_res_def Let_def config classifier_file.extend_def)
  show "map_of (bundle_models b) (kc_model_alias config) \<noteq> None"
    using m by (simp add: config classifier_file.extend_def)
qed

lemma check_binding_Inr:
  "check_binding kd b config = Inr () \<longleftrightarrow>
     kc_bundle_hash config = pb_content_hash b
     \<and> (\<exists>t. build_output_type b = Inr t \<and> kc_schema_hash config = kd_schema kd t
          \<and> kc_configuration_hash config = kd_config kd (classifier_file.truncate config)
              (kd_text kd (kc_prompt_text config)) (kd_schema kd t) (pb_content_hash b))
     \<and> kc_prompt_hash config = kd_text kd (kc_prompt_text config)"
  by (auto simp: check_binding_def bind_res_Inr_iff check_res_def Let_def)

end
