(* ===== verification/PreviewSamples.thy ===== *)
theory PreviewSamples
  imports PreviewFacts PreviewStore ClassifierFacts Samples
begin

text \<open>
  A classifier configuration for the sample bundle, a payload that passes its output type, and preview
  dependencies whose outside world has no state: every call is granted and the provider answers.
\<close>

definition sample_classifier_file :: classifier_file where
  "sample_classifier_file = \<lparr>kc_schema_version = ''v1'', kc_version = ''classifier-v1'', kc_prompt_version = ''p1'',
     kc_status = Active, kc_model_alias = ''luna'', kc_reasoning_effort = LOW, kc_max_output_tokens = 10,
     kc_timeout_ms = 20, kc_live_enabled = True, kc_prompt_path = ''prompt.md''\<rparr>"

definition sample_payload :: json where
  "sample_payload = JMap [(''task_family'', JString ''coding''), (''task_subclass'', JNull),
     (''components'', JMap (map (\<lambda>n. (n, JInt 1)) component_names)), (''confidence'', JFloat (1 / 2)),
     (''flags'', JMap [(''repository_wide'', JBool False), (''substantive_implementation'', JBool True)])]"

definition sample_classifier_digests :: classifier_digests where
  "sample_classifier_digests = \<lparr>kd_schema = (\<lambda>t. concat (ot_flags t)), kd_text = (\<lambda>s. ''sha:'' @ s),
     kd_config = (\<lambda>f p s h. kc_version f @ p @ s @ h), kd_read = (\<lambda>m. sample_payload)\<rparr>"

definition sample_output_type :: output_type where
  "sample_output_type = \<lparr>ot_families = [''coding'', ''engineering''],
     ot_components = map (\<lambda>n. (n, \<lparr>cr_min = 0, cr_max = 2\<rparr>)) component_names,
     ot_flags = [''repository_wide'', ''substantive_implementation'']\<rparr>"

definition sample_classifier_config :: classifier_config where
  "sample_classifier_config = classifier_file.extend sample_classifier_file
     \<lparr>kc_prompt_text = ''classify'', kc_prompt_hash = ''sha:classify'',
      kc_schema_hash = kd_schema sample_classifier_digests sample_output_type,
      kc_configuration_hash = kd_config sample_classifier_digests sample_classifier_file ''sha:classify''
        (kd_schema sample_classifier_digests sample_output_type) ''bundle'',
      kc_bundle_hash = ''bundle''\<rparr>"

lemma sample_config_loaded:
  "load_classifier_config sample_classifier_digests sample_classifier_file True (Some ''classify'') sample_bundle
    = Inr sample_classifier_config"
  by code_simp

lemma sample_output: "build_output_type sample_bundle = Inr sample_output_type"
  by code_simp

lemma sample_normalizer: "new_normalizer sample_classifier_digests sample_bundle sample_classifier_config = Inr sample_output_type"
  using loaded_binding(1) [OF sample_config_loaded] sample_output by (simp add: new_normalizer_def)

definition sample_usage :: provider_usage where
  "sample_usage = \<lparr>us_input_tokens = Some 12, us_cached_input_tokens = Some 2, us_cache_write_input_tokens = Some 3,
     us_output_tokens = Some 6, us_reasoning_tokens = Some 1, us_total_tokens = Some 18\<rparr>"

definition sample_provider_result :: "instructed_request \<Rightarrow> provider_result" where
  "sample_provider_result q = provider_evidence.extend ((intent_of q)\<lparr>pe_response_status := Some Response_completed,
       pe_returned_model_id := Some (pq_provider_model_id q), pe_returned_service_tier := Some ''default'',
       pe_usage := sample_usage\<rparr>)
     \<lparr>ps_text = None, ps_structured_output = Some [], ps_incomplete_reason = None, ps_refused = False\<rparr>"

definition sample_authorization :: "unit live_authorization" where
  "sample_authorization = \<lparr>la_release_version = ''r1'', la_max_input_tokens = 25, la_input_overhead_tokens = 5,
     la_check = (\<lambda>w. (Some True, w)), la_max_output_tokens = 16, la_provider_timeout_ms = 30,
     la_durable_allocation_verified = None, la_wire_size = (\<lambda>q. 20)\<rparr>"

definition trusted_environment :: environment where
  "trusted_environment = sample_environment\<lparr>env_synthetic := False, env_trusted_application_id := Some ''example_app'',
     env_recovery_bounded := False\<rparr>"

definition sample_preview_dependencies :: "unit preview_dependencies" where
  "sample_preview_dependencies = \<lparr>pd_application_id = ''example_app'', pd_release_sha256 = ''sha'',
     pd_activation_id = ''a1'', pd_account_evidence_id = ''e1'', pd_bundle = sample_bundle, pd_digests = sample_digests,
     pd_environment = (\<lambda>w. (Inr trusted_environment, w)), pd_classifier_config = sample_classifier_config,
     pd_classifier_digests = sample_classifier_digests,
     pd_classifier_provider = (\<lambda>q w. (Some (Result (sample_provider_result q)), w)),
     pd_authorization = sample_authorization, pd_claim = (\<lambda>v k r w. (Inr None, w)), pd_save = (\<lambda>p v w. (Inr (), w)),
     pd_pin_versions = (\<lambda>b w. (Inr (), w)), pd_reserve = (\<lambda>i a u w. (Inr True, w)),
     pd_settle = (\<lambda>i a u w. (Inr (), w)), pd_now = (\<lambda>w. (100, w)), pd_monotonic = (\<lambda>w. (0, w)),
     pd_uuid = (\<lambda>w. (''1'', w)), pd_deadline_ms = 40, pd_key_digest = (\<lambda>a k. a @ k), pd_request_digest = rq_task_id\<rparr>"

definition preview_request :: request where
  "preview_request = capped_request\<lparr>rq_application_id := Some ''example_app''\<rparr>"

definition previewed :: "(preview_error + preview) \<times> unit preview_state \<Rightarrow> bool" where
  "previewed r = (case r of (Inr v, s) \<Rightarrow> vw_status v = Preview_completed
       \<and> list_ex executes (vs_log s) \<and> list_ex settles (vs_log s) | _ \<Rightarrow> False)"

text \<open>The answers the run meets, each evaluated on its own; then the run itself, by rewriting.\<close>

definition sample_invocation :: instructed_request where
  "sample_invocation = classifier_request sample_bundle sample_classifier_config sample_output_type preview_request ''1'' luna_model"

lemma sample_upper: "upper_cost 25 luna_model 10 = Inr (Dec 18250 (- 4))"
  by code_simp

lemma sample_cost: "provider_cost (dg_quote sample_digests) preview_request (Result (sample_provider_result sample_invocation))
    sample_bundle trusted_environment = Some (Dec 9550 (- 4))"
  by code_simp

lemma sample_routed:
  "case normalize sample_bundle sample_classifier_config sample_output_type preview_request sample_payload
      (Some (sample_provider_result sample_invocation)) of
     Characterized k \<Rightarrow> (case route sample_digests preview_request (kr_classification k) trusted_environment sample_bundle None of
         Inr rt \<Rightarrow> True | Inl e \<Rightarrow> False)
   | Unclassified f \<Rightarrow> False"
  by code_simp

lemma sample_model: "map_of (bundle_models sample_bundle) ''luna'' = Some luna_model"
  by code_simp

lemma quiet_world [simp]:
  "seq (ret x) f = f x" "ask (Pair x) = ret x" "dep (Pair (Inr x)) = ret x" "known_res (Inr x) = ret x"
  "stop_if d False status code = ret ()"
  by (simp_all add: fun_eq_iff seq_def ret_def ask_def dep_def known_res_def stop_if_def)

lemma sample_invocation_fields:
  "classifier_request sample_bundle sample_classifier_config sample_output_type preview_request ''1'' luna_model = sample_invocation"
  "sample_invocation\<lparr>pq_timeout_ms := 20\<rparr> = sample_invocation"
  "\<not> foreign_invocation sample_classifier_config sample_invocation" "pq_model_alias sample_invocation = ''luna''"
  "pq_max_output_tokens sample_invocation = 10" "pq_timeout_ms sample_invocation = 20"
  by (simp_all add: sample_invocation_def classifier_request_def foreign_invocation_def sample_classifier_config_def
      sample_classifier_file_def classifier_file.defs)

lemma sample_request_facts:
  "lim_task_cost_ceiling_usd (rq_constraints preview_request) = None" "lim_task_deadline_ms (rq_constraints preview_request) = None"
  "rq_policy_version preview_request = None" "rq_application_id preview_request = Some ''example_app''"
  "env_synthetic trusted_environment = False" "env_trusted_application_id trusted_environment = Some ''example_app''"
  by code_simp+

lemma sample_answer:
  "same_invocation (evidence_of (Result (sample_provider_result q))) (intent_of q)"
  "pe_returned_model_id (evidence_of (Result (sample_provider_result q))) = Some (pq_provider_model_id q)"
  "pe_returned_service_tier (evidence_of (Result (sample_provider_result q))) = Some ''default''"
  "judge_outcome sample_classifier_digests b config t r (Result (sample_provider_result q))
     = normalize b config t r sample_payload (Some (sample_provider_result q))"
  by (simp_all add: same_invocation_def evidence_of_def sample_provider_result_def intent_of_def judge_outcome_def
      provider_evidence.defs sample_classifier_digests_def)

lemma sample_fields:
  "pd_application_id sample_preview_dependencies = ''example_app''" "pd_bundle sample_preview_dependencies = sample_bundle"
  "pd_digests sample_preview_dependencies = sample_digests"
  "pd_environment sample_preview_dependencies = Pair (Inr trusted_environment)"
  "pd_classifier_config sample_preview_dependencies = sample_classifier_config"
  "pd_classifier_digests sample_preview_dependencies = sample_classifier_digests"
  "pd_classifier_provider sample_preview_dependencies q = Pair (Some (Result (sample_provider_result q)))"
  "live_ready (pd_authorization sample_preview_dependencies) = Pair True"
  "pq_max_output_tokens q \<le> 16 \<Longrightarrow> allows (pd_authorization sample_preview_dependencies) q = Pair True"
  "la_max_input_tokens (pd_authorization sample_preview_dependencies) = 25"
  "pd_claim sample_preview_dependencies v i i' = Pair (Inr None)" "pd_save sample_preview_dependencies v v' = Pair (Inr ())"
  "pd_pin_versions sample_preview_dependencies b = Pair (Inr ())"
  "pd_reserve sample_preview_dependencies i i' u = Pair (Inr True)"
  "pd_settle sample_preview_dependencies i i' u = Pair (Inr ())"
  "pd_now sample_preview_dependencies = Pair 100" "pd_monotonic sample_preview_dependencies = Pair 0"
  "pd_uuid sample_preview_dependencies = Pair ''1''" "pd_deadline_ms sample_preview_dependencies = 40"
  by (simp_all add: fun_eq_iff sample_preview_dependencies_def sample_authorization_def live_ready_def answers_true_def allows_def)

lemma previewed_wp: "previewed (m s) = wp m (\<lambda>v s. vw_status v = Preview_completed
    \<and> list_ex executes (vs_log s) \<and> list_ex settles (vs_log s)) (\<lambda>e s. False) s"
  by (simp add: previewed_def wp_def split: prod.split sum.split)

lemmas run_defs = run_preview_def preview_checks_def classify_and_route_def classify_live_def
  preview_port_def admit_invocation_def reserve_intent_def confirm_dispatch_def invoke_provider_def account_outcome_def
  settle_preview_def finish_preview_def check_cost_def save_preview_def expired_def the_identity_def
  record_call_def get_res_def

text \<open>A run whose environment is trusted and whose time has not moved.\<close>

definition sample_run_of :: preview_run where
  "sample_run_of = \<lparr>pn_request = preview_request, pn_environment = trusted_environment, pn_started = 0, pn_deadline_ms = 40\<rparr>"

definition answered :: "unit preview_state \<Rightarrow> bool" where
  "answered s = (list_ex executes (vs_log s) \<and> list_ex settles (vs_log s)
     \<and> (\<exists>v. vs_value s = Some v \<and> vw_actual_cost_usd v = Some (Dec 9550 (- 4)) \<and> vw_reserved_cost_usd v = Some (Dec 18250 (- 4))))"

lemmas sample_facts = sample_fields sample_invocation_fields sample_request_facts sample_answer sample_upper sample_cost
  sample_model sample_run_of_def elapsed_ms_def truncate_rat_def

lemma sample_port:
  assumes "vs_value s = Some v" "vs_calls s = 0" and "\<And>s'. answered s' \<Longrightarrow> Q (Result (sample_provider_result sample_invocation)) s'"
  shows "wp (preview_port sample_preview_dependencies sample_run_of sample_invocation) Q R s"
  using assms(1,2)
  by (simp add: run_defs wp Let_def sample_facts, intro assms(3)) (simp add: answered_def accounted_def)

lemma sample_config_facts:
  "kc_model_alias sample_classifier_config = ''luna''" "kc_live_enabled sample_classifier_config"
  "kc_status sample_classifier_config = Active"
  by code_simp+

lemma sample_checks:
  assumes "\<And>s'. vs_log s' = vs_log s \<Longrightarrow> vs_calls s' = vs_calls s \<Longrightarrow> Q (sample_run_of, sample_output_type) s'"
  shows "wp (preview_checks sample_preview_dependencies preview_request ''key'' 0) Q R s"
  by (simp add: run_defs wp Let_def sample_facts sample_config_facts sample_normalizer blank_text_def deadline_of_def)
    (simp add: assms [unfolded sample_run_of_def])

lemma sample_classify_and_route:
  assumes "vs_value s = Some v" "vs_calls s = 0"
  shows "wp (classify_and_route sample_preview_dependencies sample_run_of sample_output_type)
    (\<lambda>_ s'. \<exists>v. vs_value s' = Some v \<and> vw_status v = Preview_completed
       \<and> list_ex executes (vs_log s') \<and> list_ex settles (vs_log s')) (\<lambda>e s. False) s"
proof -
  obtain k rt where k: "normalize sample_bundle sample_classifier_config sample_output_type preview_request sample_payload
      (Some (sample_provider_result sample_invocation)) = Characterized k"
    and rt: "route sample_digests preview_request (kr_classification k) trusted_environment sample_bundle None = Inr rt"
    using sample_routed by (auto split: classified.splits sum.splits)
  have run: "pn_request sample_run_of = preview_request" "pn_environment sample_run_of = trusted_environment"
    by (simp_all add: sample_run_of_def)
  have cheap: "\<not> dval (Dec 18250 (- 4)) < dval (Dec 9550 (- 4))" by (simp add: dval_def)
  show ?thesis
    unfolding classify_and_route_def classify_live_def run sample_fields sample_config_facts sample_model sample_invocation_fields
    by (simp add: sample_fields sample_invocation_fields sample_config_facts sample_model,
        rule seqI, rule seqI, rule sample_port [OF assms], unfold answered_def, elim conjE exE)
      (simp add: run cheap wp sample_answer k finish_preview_def check_cost_def save_preview_def expired_def record_call_def
        Let_def rt sample_fields elapsed_ms_def sample_run_of_def)
qed

lemma sample_preview: "previewed (classify_route sample_preview_dependencies preview_request ''key'' ())"
proof -
  let ?s = "\<lparr>vs_value = None, vs_calls = 0, vs_log = [], vs_world = ()\<rparr>" and ?d = sample_preview_dependencies
  let ?v = "claimed_preview ?d preview_request luna_model 100 ''1''"
  have run: "wp (catch (classify_and_route ?d sample_run_of sample_output_type) (preview_failed ?d)) (\<lambda>_ s'. wp
      (seq (get vs_value) (\<lambda>final. case final of None \<Rightarrow> raise (Fault Other_exception) | Some v \<Rightarrow> ret v))
      (\<lambda>v s. vw_status v = Preview_completed \<and> list_ex executes (vs_log s) \<and> list_ex settles (vs_log s)) (\<lambda>e s. False) s')
      (\<lambda>e s. False) (s'\<lparr>vs_value := Some ?v, vs_log := [Did_claim ?v]\<rparr>)"
    if "vs_calls s' = 0" for s'
    unfolding wp_catch
    by (rule wp_weaken [OF sample_classify_and_route]) (use that in \<open>auto simp: wp\<close>)
  show ?thesis
    unfolding classify_route_def previewed_wp run_preview_def sample_fields
    by (simp, rule seqI, rule sample_checks)
      (simp add: sample_fields sample_config_facts sample_model get_res_def Let_def, intro seqI modifyI record_callI,
       simp add: run)
qed

end
