(* ===== verification/PreviewClaims.thy ===== *)
theory PreviewClaims
  imports PreviewSamples
begin

text \<open>
  The properties of the classifier, of the worst price that the live path reserves, of a routing preview
  and of the store of previews.
\<close>

section \<open>Classifier\<close>

text \<open>
  C9. Whatever a model answers, a characterization that passes the output type satisfies the classification
  contract, carries the provenance of the configuration, and is one for which the planner finds a plan.
\<close>

theorem characterization_plannable:
  assumes "bundle_ok b" and "new_normalizer kd b config = Inr t"
    and "normalize b config t r payload result = Characterized k"
  shows "classification_ok (kr_classification k) \<and> cl_provenance (kr_classification k) = provenance config b
    \<and> (\<forall>l. \<exists>plan. build_candidates (kr_classification k) b l = Inr plan)"
proof -
  have t: "build_output_type b = Inr t" using assms(2) by (auto simp: new_normalizer_def bind_res_Inr_iff)
  obtain m where m: "payload = JMap m" "wire_errors t payload = []"
    "kr_classification k = wire_classification t (provenance config b) m"
    using assms(3) by (rule normalize_Characterized)
  show ?thesis
    using wire_classification_ok [OF t] wire_classification_planned [OF assms(1) t] build_candidates_total(1) [OF assms(1)] m
    by (simp add: wire_classification_def)
qed

theorem characterization_plannable_witness:
  "\<exists>k. normalize sample_bundle sample_classifier_config sample_output_type sample_request sample_payload None = Characterized k
     \<and> cl_provenance (kr_classification k) = provenance sample_classifier_config sample_bundle
     \<and> (\<exists>plan. build_candidates (kr_classification k) sample_bundle no_limits = Inr plan)"
proof -
  have "wire_errors sample_output_type sample_payload = []" by code_simp
  then obtain k where k: "normalize sample_bundle sample_classifier_config sample_output_type sample_request sample_payload None
      = Characterized k"
    by (simp add: normalize_def sample_payload_def)
  with characterization_plannable [OF sample_bundle_ok sample_normalizer k] show ?thesis by blast
qed

text \<open>
  A payload is refused exactly when it violates the output type; the failure is a malformed output whose
  diagnostics are names of the schema's fields, at least one, and never a value or a key of the payload.
\<close>

theorem malformed_output_contained:
  "case normalize b config t r payload result of
     Characterized k \<Rightarrow> wire_errors t payload = []
   | Unclassified f \<Rightarrow> wire_errors t payload \<noteq> [] \<and> kf_failure_type f = MALFORMED_OUTPUT
       \<and> kf_diagnostic_fields f \<noteq> [] \<and> set (kf_diagnostic_fields f) \<subseteq> insert ''unknown_field'' (set wire_fields)"
proof -
  have object: "\<exists>m. payload = JMap m" if "wire_errors t payload = []"
    using that by (cases payload) (simp_all add: wire_errors_def)
  have labels: "validation_diagnostics (wire_errors t payload) \<noteq> []
      \<and> set (validation_diagnostics (wire_errors t payload)) \<subseteq> insert ''unknown_field'' (set wire_fields)"
    if "wire_errors t payload \<noteq> []"
    using that wire_errors_labels [of t payload] by (auto simp: validation_diagnostics_def Let_def stable_unique_def)
  show ?thesis
    using object labels by (auto simp: normalize_cases classifier_failure_def split: classified.split)
qed

text \<open>
  A loaded configuration works with the bundle it was loaded with, and with no other: a bundle with another
  content hash, or a prompt with another hash, is refused when a classifier is built.
\<close>

theorem configuration_bound:
  assumes "load_classifier_config kd f inside prompt b = Inr config"
  shows "(\<exists>t. new_normalizer kd b config = Inr t)
    \<and> (pb_content_hash b' \<noteq> pb_content_hash b \<longrightarrow> new_normalizer kd b' config = Inl ConfigurationError)
    \<and> (kd_text kd other \<noteq> kd_text kd (kc_prompt_text config)
        \<longrightarrow> new_normalizer kd b (config\<lparr>kc_prompt_text := other\<rparr>) = Inl ConfigurationError)"
proof -
  note bound = loaded_binding(1) [OF assms, unfolded check_binding_Inr]
  then obtain t where t: "build_output_type b = Inr t" by blast
  show ?thesis
    using bound t loaded_binding(1) [OF assms]
    by (auto simp: new_normalizer_def check_binding_def check_res_def Let_def)
qed

theorem configuration_bound_witness:
  "new_normalizer sample_classifier_digests (sample_bundle\<lparr>pb_content_hash := ''edited''\<rparr>) sample_classifier_config
     = Inl ConfigurationError"
proof -
  have "pb_content_hash (sample_bundle\<lparr>pb_content_hash := ''edited''\<rparr>) \<noteq> pb_content_hash sample_bundle" by code_simp
  with configuration_bound [OF sample_config_loaded] show ?thesis by blast
qed

section \<open>Worst price\<close>




section \<open>Previews\<close>

lemma classify_route_verdict:
  assumes "classify_route d r key w = (res, s)"
  shows "case res of Inl e \<Rightarrow> vs_log s = [] \<or> e \<noteq> Preview_unavailable \<and> sound d r s
    | Inr v \<Rightarrow> vs_log s = [] \<or> run_verdict d r v s"
  using wp_result [OF run_preview_spec assms [unfolded classify_route_def]] by simp

lemma classify_route_calls:
  assumes "classify_route d r key w = (res, s)"
  shows "each_call (call_ok d r) (vs_log s)"
  using classify_route_verdict [OF assms]
  by (cases res) (auto simp: run_verdict_def sound_def)

lemma each_callD: "each_call P trace \<Longrightarrow> trace = before @ c # after \<Longrightarrow> P before c"
  by (simp add: each_call_def)

text \<open>A kind of call that never follows one of its kind happens once.\<close>

lemma each_call_once:
  assumes "each_call P trace" "trace = before @ c # after" "K c"
    and "\<And>before c. P before c \<Longrightarrow> K c \<Longrightarrow> \<not> list_ex K before"
  shows "\<not> list_ex K before \<and> \<not> list_ex K after"
proof -
  have "\<not> K c'" if "c' \<in> set after" for c'
  proof
    assume c': "K c'"
    from that obtain mid rest where "after = mid @ c' # rest" by (auto dest: split_list)
    then have "trace = (before @ c # mid) @ c' # rest" using assms(2) by simp
    then have "\<not> list_ex K (before @ c # mid)" using assms(4) [OF each_callD [OF assms(1)] c'] by blast
    with assms(3) show False by simp
  qed
  then show ?thesis using assms(4) [OF each_callD [OF assms(1,2)] assms(3)] by (auto simp: list_ex_iff)
qed

text \<open>
  C11. A run of a preview calls the provider at most once, and only when its last saved value records the started
  invocation with its time limit and the granted reservation of the worst price of an admitted invocation.
\<close>

theorem preview_spends_once:
  assumes "classify_route d r key w = (res, s)" and "vs_log s = before @ Did_execute q # after"
  shows "\<not> list_ex executes before \<and> \<not> list_ex executes after
    \<and> (\<exists>v u. persisted before = Some v \<and> vw_status v = Preview_started \<and> vw_reserved_cost_usd v = Some u
         \<and> vw_classifier_timeout_ms v = Some (pq_timeout_ms q) \<and> Did_reserve (vw_preview_id v) u True \<in> set before
         \<and> admitted d r q u)"
proof -
  note calls = classify_route_calls [OF assms(1)]
  have "\<not> list_ex executes before \<and> \<not> list_ex executes after"
    by (rule each_call_once [OF calls assms(2)]) (auto simp: call_ok_def executes_def split: preview_call.splits)
  with each_callD [OF calls assms(2)] show ?thesis by (simp add: call_ok_def)
qed

theorem preview_spends_once_witness:
  "\<exists>s before q after. vs_log s = before @ Did_execute q # after \<and> \<not> list_ex executes (before @ after)
     \<and> snd (classify_route sample_preview_dependencies preview_request ''key'' ()) = s"
proof -
  obtain res s where run: "classify_route sample_preview_dependencies preview_request ''key'' () = (res, s)" by fastforce
  have "list_ex executes (vs_log s)" using sample_preview run by (auto simp: previewed_def split: sum.splits)
  then obtain c where "c \<in> set (vs_log s)" "executes c" by (auto simp: list_ex_iff)
  then obtain q before after where "vs_log s = before @ Did_execute q # after"
    by (auto simp: executes_def dest!: split_list split: preview_call.splits)
  with preview_spends_once [OF run this] run show ?thesis by auto
qed

text \<open>
  C12. Funds are settled at most once, for the reserved identity, and only with the cost that the last saved value
  accounts for and has not settled before; without a provider call that cost is zero.
\<close>

theorem preview_settles_saved_cost:
  assumes "classify_route d r key w = (res, s)" and "vs_log s = before @ Did_settle i a # after"
  shows "\<not> list_ex settles before \<and> \<not> list_ex settles after
    \<and> (\<exists>v u. persisted before = Some v \<and> vw_preview_id v = i \<and> vw_status v = Preview_accounted
         \<and> vw_actual_cost_usd v = Some a \<and> \<not> vw_settled v \<and> Did_reserve i u True \<in> set before)
    \<and> (list_ex executes before \<or> a = ZERO)"
proof -
  note calls = classify_route_calls [OF assms(1)]
  have "\<not> list_ex settles before \<and> \<not> list_ex settles after"
    by (rule each_call_once [OF calls assms(2)]) (auto simp: call_ok_def settles_def split: preview_call.splits)
  with each_callD [OF calls assms(2)] show ?thesis by (simp add: call_ok_def)
qed

theorem preview_settles_saved_cost_witness:
  "\<exists>before i a after. vs_log (snd (classify_route sample_preview_dependencies preview_request ''key'' ()))
       = before @ Did_settle i a # after
     \<and> (\<exists>v. persisted before = Some v \<and> vw_actual_cost_usd v = Some a)"
proof -
  obtain res s where run: "classify_route sample_preview_dependencies preview_request ''key'' () = (res, s)" by fastforce
  have "list_ex settles (vs_log s)" using sample_preview run by (auto simp: previewed_def split: sum.splits)
  then obtain c where "c \<in> set (vs_log s)" "settles c" by (auto simp: list_ex_iff)
  then obtain i a before after where log: "vs_log s = before @ Did_settle i a # after"
    by (auto simp: settles_def dest!: split_list split: preview_call.splits)
  from preview_settles_saved_cost [OF run log] log run show ?thesis by auto
qed

text \<open>
  C13. What a run returns is what it saved last, unless it claims nothing and returns an earlier preview or an error
  untouched. A completed preview carries the characterization the classifier produced under the bound configuration,
  the canonical route of the unchanged request in a trusted environment, and a settled cost within its reservation. A
  blocked preview made no call or holds no unsettled reservation; any other spending leaves it uncertain.
\<close>

theorem preview_result_durable:
  assumes "classify_route d r key w = (Inr v, s)" and "vs_log s \<noteq> []"
  shows "persisted (vs_log s) = Some v
    \<and> (vw_status v = Preview_completed
         \<and> (\<exists>n c rt a u. pn_request n = r \<and> vw_classification v = Some c \<and> origin d n c \<and> vw_route v = Some rt
              \<and> route (pd_digests d) r c (pn_environment n) (pd_bundle d) None = Inr rt
              \<and> answers_environment d (pn_environment n) \<and> \<not> env_synthetic (pn_environment n)
              \<and> env_trusted_application_id (pn_environment n) = Some (pd_application_id d)
              \<and> vw_settled v \<and> vw_actual_cost_usd v = Some a \<and> vw_reserved_cost_usd v = Some u \<and> dval a \<le> dval u)
       \<or> vw_status v = Preview_blocked \<and> (funds_closed v (vs_log s) \<or> \<not> list_ex executes (vs_log s))
       \<or> vw_status v = Preview_uncertain \<and> list_ex executes (vs_log s))"
proof -
  obtain n t where run: "trusted_run d r n t" "sound d r s" "verdict d n v s"
    using classify_route_verdict [OF assms(1)] assms(2) by (auto simp: run_verdict_def)
  have last: "vs_value s = Some v" and saved: "persisted (vs_log s) = Some v"
    using run(2,3) by (simp_all add: verdict_def sound_def)
  have trusted: "pn_request n = r" "answers_environment d (pn_environment n)" "\<not> env_synthetic (pn_environment n)"
    "env_trusted_application_id (pn_environment n) = Some (pd_application_id d)"
    using run(1) by (simp_all add: trusted_run_def)
  show ?thesis
  proof (cases "finished d n s")
    case True
    with last trusted(1) obtain c rt a u where "vw_status v = Preview_completed" "vw_classification v = Some c" "origin d n c"
      "vw_route v = Some rt" "route (pd_digests d) r c (pn_environment n) (pd_bundle d) None = Inr rt"
      "vw_settled v" "vw_actual_cost_usd v = Some a" "vw_reserved_cost_usd v = Some u" "dval a \<le> dval u"
      by (auto simp: finished_def paid_def)
    with trusted saved show ?thesis by blast
  next
    case False
    with run(3) saved show ?thesis unfolding verdict_def by blast
  qed
qed

theorem preview_result_durable_witness:
  "\<exists>v s. classify_route sample_preview_dependencies preview_request ''key'' () = (Inr v, s)
     \<and> vw_status v = Preview_completed \<and> persisted (vs_log s) = Some v \<and> vw_settled v"
proof -
  obtain res s where run: "classify_route sample_preview_dependencies preview_request ''key'' () = (res, s)" by fastforce
  then have "list_ex executes (vs_log s)" using sample_preview by (auto simp: previewed_def split: sum.splits)
  then have "vs_log s \<noteq> []" by auto
  moreover obtain v where "res = Inr v" "vw_status v = Preview_completed"
    using run sample_preview by (auto simp: previewed_def split: sum.splits)
  ultimately show ?thesis
  using preview_result_durable [of sample_preview_dependencies preview_request "''key''" "()" v s] run by auto
qed

section \<open>The store of previews\<close>

text \<open>
  C14. A preview is claimed once: after a successful claim and any history, a claim of the same application and
  allocation under the same key answers with the stored preview for the same request digest and with a conflict for
  another, and changes nothing.
\<close>

theorem preview_claimed_once:
  assumes "preview_rows_ok db" and "claim_preview st reads repo v key digest db = (Inr None, db')"
    and "now = fold preview_step later db'" and "vw_application_id v' = vw_application_id v"
  shows "\<exists>stored. claim_preview Store_ok reads' repo v' key digest' now
      = (if digest' = digest then Inr (Some stored) else Inl IdempotencyConflict, now)
    \<and> get_preview True (vw_preview_id v) (vw_application_id v) now = Inr (Some stored)
    \<and> vw_preview_id stored = vw_preview_id v"
proof -
  have ok': "preview_rows_ok db'"
    using preview_step_safe [OF assms(1), of "Claim_op st reads repo v key digest"] assms(2) by simp
  have ok: "preview_rows_ok now" and ext: "preview_extends db' now"
    using previews.inv_history [OF ok'] previews.ext_history [OF ok'] assms(3) by simp_all
  obtain row where row: "map_of (wd_previews db') (vw_preview_id v) = Some row" "wr_application_id row = vw_application_id v"
    "wr_key_digest row = key" "wr_request_digest row = digest" "wr_allocation_id row = wp_allocation_id repo"
    using claim_inserts [OF assms(2)] by blast
  have "table_extends same_identity (wd_previews db') (wd_previews now)" using ext by (simp add: preview_extends_def)
  from table_extendsD [OF this row(1)] obtain r where r: "map_of (wd_previews now) (vw_preview_id v) = Some r"
    and same: "same_identity row r" by blast
  have id: "vw_preview_id (wr_payload r) = vw_preview_id v"
    using ok r by (simp add: preview_rows_ok_def)
  show ?thesis
    using claim_again [OF ok r, of v' repo reads' digest'] same row(2-5) r id assms(4)
    by (auto simp: same_identity_def get_preview_def)
qed

definition sample_store :: preview_db where
  "sample_store = \<lparr>wd_allocations = [(''example_app'', ''alloc'')], wd_previews = []\<rparr>"

definition sample_claim :: preview where
  "sample_claim = claimed_preview sample_preview_dependencies preview_request luna_model 100 ''1''"

theorem preview_claimed_once_witness:
  "\<exists>stored db'. claim_preview Store_ok True \<lparr>wp_allocation_id = ''alloc'', wp_max_records = 1\<rparr> sample_claim ''k'' ''d'' db'
      = (Inr (Some stored), db') \<and> vw_preview_id stored = vw_preview_id sample_claim"
proof -
  let ?repo = "\<lparr>wp_allocation_id = ''alloc'', wp_max_records = 1\<rparr>"
  have ok: "preview_rows_ok sample_store" by (simp add: preview_rows_ok_def sample_store_def)
  have "case claim_preview Store_ok True ?repo sample_claim ''k'' ''d'' sample_store of
      (Inr None, db') \<Rightarrow> True | _ \<Rightarrow> False" by code_simp
  then obtain db' where claim: "claim_preview Store_ok True ?repo sample_claim ''k'' ''d'' sample_store = (Inr None, db')"
    by (auto split: prod.splits sum.splits option.splits)
  show ?thesis using preview_claimed_once [OF ok claim refl refl, of True "''d''" "[]"] by auto
qed

text \<open>The rows of an allocation stay within the bound that its claims are made with.\<close>

theorem preview_records_bounded:
  assumes "preview_rows_ok db" "length (allocated_rows app allocation db) \<le> n"
    and "list_all (bounded_claim allocation n) ops"
  shows "length (allocated_rows app allocation (fold preview_step ops db)) \<le> n"
  by (rule previews.guarded_history [of "\<lambda>db. length (allocated_rows app allocation db) \<le> n" "bounded_claim allocation n"])
    (use assms bounded_step in auto)

end
