(* ===== verification/Semantic.thy ===== *)
theory Semantic
  imports TaskContracts Bundle Json
begin

text \<open>
  The configured semantic evaluation of an output, \<^verbatim>\<open>validation/semantic.py\<close>, with its configuration,
  the evaluator bindings of \<^verbatim>\<open>core/phase4_contracts.py\<close> and \<^verbatim>\<open>policy/phase4.py\<close>.

  The evaluator and the domain validators are code of the caller: functions of the state of the
  outside world whose reply may be an exception or a value of another class. Reading a dumped model
  as JSON and printing a float are parameters, as is the source of fresh identifiers. A float is a
  rational, for the contracts admit no infinity and no NaN. The lemmas say when a reply passes, when
  it is a quality failure, and that everything else is an error of the evaluator.
\<close>

section \<open>Configuration\<close>

record evaluator_binding =
  eb_ref :: string
  eb_model_alias :: string
  eb_reasoning_effort :: effort
  eb_rubric_version :: string
  eb_rubric :: string
  eb_score_min :: rat
  eb_score_max :: rat
  eb_pass_threshold :: rat
  eb_max_output_tokens :: nat
  eb_max_input_tokens :: nat
  eb_timeout_ms :: nat
  eb_max_retries :: nat
  eb_backoff_ms :: nat

definition binding_config_ok :: "evaluator_binding \<Rightarrow> bool" where
  "binding_config_ok b = (0 < eb_max_output_tokens b \<and> 0 < eb_max_input_tokens b \<and> 0 < eb_timeout_ms b
     \<and> eb_score_min b < eb_score_max b
     \<and> eb_score_min b \<le> eb_pass_threshold b \<and> eb_pass_threshold b \<le> eb_score_max b)"

record phase4_config =
  p4_version :: string
  p4_evaluators :: "evaluator_binding list"
  p4_domain_validator_ref :: "string option"
  p4_domain_cost_upper_bound_usd :: decimal
  p4_health :: health_config

definition phase4_config_ok :: "phase4_config \<Rightarrow> bool" where
  "phase4_config_ok c = (list_all binding_config_ok (p4_evaluators c) \<and> distinct (map eb_ref (p4_evaluators c))
     \<and> money_ok (p4_domain_cost_upper_bound_usd c) \<and> health_config_ok (p4_health c))"

definition validate_binding :: "policy_bundle \<Rightarrow> evaluator_binding \<Rightarrow> unit res" where
  "validate_binding b binding = (case map_of (bundle_models b) (eb_model_alias binding) of
     None \<Rightarrow> Inl ValueError
   | Some m \<Rightarrow>
       bind_res (check_res (eb_reasoning_effort binding \<in> set (me_reasoning_efforts m)) ValueError) (\<lambda>_.
       bind_res (check_res (configured_enabled m \<and> list_all (has_capability (me_capabilities m))
         [''text_input'', ''text_output'', ''structured_outputs'']) ValueError) (\<lambda>_.
       check_res (eb_max_output_tokens binding \<le> me_max_output_tokens m
         \<and> eb_max_input_tokens binding + eb_max_output_tokens binding \<le> me_context_window_tokens m) ValueError)))"

primrec validate_bindings :: "policy_bundle \<Rightarrow> evaluator_binding list \<Rightarrow> unit res" where
  "validate_bindings b [] = Inr ()"
| "validate_bindings b (binding # rest) = bind_res (validate_binding b binding) (\<lambda>_. validate_bindings b rest)"

definition validate_phase4 :: "phase4_config \<Rightarrow> policy_bundle \<Rightarrow> phase4_config res" where
  "validate_phase4 c b = bind_res (validate_bindings b (p4_evaluators c)) (\<lambda>_. Inr c)"

section \<open>The service\<close>

record evaluation_request = provider_request +
  vq_instructions :: "string option"

record scored_outcome = validation_outcome +
  so_evaluator_attempt_id :: "string option"
  so_rubric_version :: "string option"
  so_score :: "rat option"
  so_score_min :: "rat option"
  so_score_max :: "rat option"

text \<open>What code of the caller may give back: a value of the contract, another value, an exception.\<close>

datatype 'a reply = Reply 'a | Foreign_reply | No_reply

record 'w validation_service =
  sv_config :: phase4_config
  sv_bundle :: policy_bundle
  sv_execute :: "evaluation_request \<Rightarrow> 'w \<Rightarrow> provider_outcome reply \<times> 'w"
  sv_domain_registry :: "(string \<times> (request \<Rightarrow> provider_result \<Rightarrow> 'w \<Rightarrow> scored_outcome reply \<times> 'w)) list"
  sv_uuid :: "'w \<Rightarrow> string \<times> 'w"
  sv_read :: "dumped_model \<Rightarrow> json"
  sv_print :: "rat \<Rightarrow> string"

definition new_validation_service :: "'w validation_service \<Rightarrow> 'w validation_service res" where
  "new_validation_service sv = bind_res (validate_phase4 (sv_config sv) (sv_bundle sv)) (\<lambda>_. Inr sv)"

text \<open>The dict \<^verbatim>\<open>{binding.ref: binding}\<close>.\<close>

definition binding_of :: "'w validation_service \<Rightarrow> string \<Rightarrow> evaluator_binding option" where
  "binding_of sv ref = find (\<lambda>b. eb_ref b = ref) (rev (p4_evaluators (sv_config sv)))"

definition domain_validator :: "'w validation_service
    \<Rightarrow> (string \<times> (request \<Rightarrow> provider_result \<Rightarrow> 'w \<Rightarrow> scored_outcome reply \<times> 'w)) option" where
  "domain_validator sv = (case p4_domain_validator_ref (sv_config sv) of
     None \<Rightarrow> None | Some ref \<Rightarrow> map_option (Pair ref) (map_of (sv_domain_registry sv) ref))"

definition domain_bound :: "'w validation_service \<Rightarrow> decimal option" where
  "domain_bound sv = (if domain_validator sv = None then None
     else Some (p4_domain_cost_upper_bound_usd (sv_config sv)))"

definition evaluation_plans :: "'w validation_service \<Rightarrow> route_decision \<Rightarrow> evaluator_binding list" where
  "evaluation_plans sv decision =
     List.map_filter (binding_of sv) (vr_evaluator_refs (rt_validation_requirements decision))"

definition semantic_readiness :: "'w validation_service \<Rightarrow> route_decision \<Rightarrow> string list" where
  "semantic_readiness sv decision = (let req = rt_validation_requirements decision in
     (if list_all (\<lambda>ref. binding_of sv ref \<noteq> None) (vr_evaluator_refs req) then [] else [''evaluator_unconfigured''])
     @ (if V3 \<in> set (vr_profiles req) \<and> domain_bound sv = None then [''domain_validator_unconfigured''] else []))"

section \<open>One evaluation\<close>

text \<open>The complete response schema: one score.\<close>

definition score_of :: "json \<Rightarrow> rat option" where
  "score_of j = (case as_map (Some j) of None \<Rightarrow> None
     | Some m \<Rightarrow> if set (map fst m) \<noteq> {''score''} then None
         else (case map_of m ''score'' of Some (JFloat r) \<Rightarrow> Some r | Some (JInt i) \<Rightarrow> Some (of_int i) | _ \<Rightarrow> None))"

definition evaluation_bound_request :: "'w validation_service \<Rightarrow> evaluator_binding \<Rightarrow> evaluation_request \<Rightarrow> evaluation_request" where
  "evaluation_bound_request sv b q = q\<lparr>pq_model_alias := eb_model_alias b,
     pq_provider_model_id := (case map_of (bundle_models (sv_bundle sv)) (eb_model_alias b) of
        None \<Rightarrow> pq_provider_model_id q | Some m \<Rightarrow> me_provider_model_id m),
     pq_reasoning_effort := eb_reasoning_effort b,
     vq_instructions := Some (eb_rubric b @ '' Score scale: '' @ sv_print sv (eb_score_min b) @ '' to ''
       @ sv_print sv (eb_score_max b) @ ''.''),
     pq_output_type := Some (\<lambda>m. score_of (sv_read sv m) \<noteq> None),
     pq_max_output_tokens := eb_max_output_tokens b,
     pq_timeout_ms := min (pq_timeout_ms q) (eb_timeout_ms b), pq_purpose := For_evaluation\<rparr>"

definition evaluation_fault :: "evaluation_request \<Rightarrow> failure_type \<Rightarrow> string \<Rightarrow> provider_outcome option
    \<Rightarrow> provider_failure" where
  "evaluation_fault q ft cause out =
     (let f = adapter_failure (provider_request.truncate q) ft Stage_normalization cause [''evaluator_response''] in
      case out of None \<Rightarrow> f
      | Some o' \<Rightarrow> let e = evidence_of o' in
          f\<lparr>pe_latency_ms := pe_latency_ms e, pe_response_id := pe_response_id e,
            pe_response_status := pe_response_status e, pe_returned_model_id := pe_returned_model_id e,
            pe_usage := pe_usage e\<rparr>)"

definition answers :: "evaluation_request \<Rightarrow> provider_outcome \<Rightarrow> bool" where
  "answers q out = correlated (provider_request.truncate q) out"

definition infrastructure_types :: "failure_type list" where
  "infrastructure_types = [TIMEOUT, RATE_LIMIT, PROVIDER_FAILURE, MALFORMED_OUTPUT, CAPABILITY_FAILURE, UNKNOWN_FAILURE]"

definition safe_provider_failure :: "evaluation_request \<Rightarrow> provider_failure \<Rightarrow> provider_failure" where
  "safe_provider_failure q f = (let out = Provider_failed f in
     if \<not> answers q out then evaluation_fault q VALIDATION_FAILURE ''evaluator_correlation_invalid'' (Some out)
     else if pf_failure_type f \<notin> set infrastructure_types
     then evaluation_fault q VALIDATION_FAILURE ''evaluator_failure_type_invalid'' (Some out)
     else f)"

text \<open>What the service concludes from a reply.\<close>

datatype ruling = Scored rat | Unscored provider_failure string

definition received :: "evaluation_request \<Rightarrow> provider_outcome reply \<Rightarrow> provider_outcome" where
  "received q r = (case r of
     Reply out \<Rightarrow> out
   | Foreign_reply \<Rightarrow> Provider_failed (evaluation_fault q MALFORMED_OUTPUT ''evaluator_outcome_invalid'' None)
   | No_reply \<Rightarrow> Provider_failed (evaluation_fault q UNKNOWN_FAILURE ''evaluator_invocation_error'' None))"

definition refuse_result :: "evaluation_request \<Rightarrow> provider_result \<Rightarrow> failure_type \<Rightarrow> string \<Rightarrow> ruling" where
  "refuse_result q r ft cause = Unscored (evaluation_fault q ft cause (Some (Result r))) cause"

definition result_score :: "(dumped_model \<Rightarrow> json) \<Rightarrow> evaluator_binding \<Rightarrow> provider_result \<Rightarrow> rat option" where
  "result_score read b r =
     (case Option.bind (ps_structured_output r) (score_of \<circ> read) of
        None \<Rightarrow> None
      | Some score \<Rightarrow> if eb_score_min b \<le> score \<and> score \<le> eb_score_max b then Some score else None)"

definition rule_on :: "(dumped_model \<Rightarrow> json) \<Rightarrow> evaluator_binding \<Rightarrow> evaluation_request \<Rightarrow> provider_outcome \<Rightarrow> ruling" where
  "rule_on read b q out = (case out of
     Provider_failed f \<Rightarrow> Unscored (safe_provider_failure q f) ''evaluator_provider_failure''
   | Result r \<Rightarrow>
       if \<not> answers q out then refuse_result q r VALIDATION_FAILURE ''evaluator_correlation_invalid''
       else if pe_response_status r \<noteq> Some Response_completed \<or> ps_incomplete_reason r \<noteq> None
       then refuse_result q r VALIDATION_FAILURE ''evaluator_not_completed''
       else if ps_refused r then refuse_result q r VALIDATION_FAILURE ''evaluator_refused''
       else (case result_score read b r of
           None \<Rightarrow> refuse_result q r MALFORMED_OUTPUT ''evaluator_score_invalid''
         | Some score \<Rightarrow> Scored score))"

definition evaluation_outcome :: "evaluator_binding \<Rightarrow> evaluation_request \<Rightarrow> string \<Rightarrow> check_outcome \<Rightarrow> failure option
    \<Rightarrow> string \<Rightarrow> rat option \<Rightarrow> scored_outcome" where
  "evaluation_outcome b q unique status failed evidence score =
     \<lparr>vo_evaluation_id = unique, vo_check = eb_ref b, vo_status = status, vo_applicable = True, vo_failure = failed,
      vo_diagnosed_failure = None, vo_evidence_code = Some evidence, vo_cost_usd = Some ZERO,
      so_evaluator_attempt_id = Some (pq_invocation_id q), so_rubric_version = Some (eb_rubric_version b),
      so_score = score, so_score_min = Some (eb_score_min b), so_score_max = Some (eb_score_max b)\<rparr>"

definition evaluator_error :: "provider_failure \<Rightarrow> string \<Rightarrow> failure" where
  "evaluator_error f evidence = \<lparr>fl_failure_type = (if pf_failure_type f = QUALITY_FAILURE then VALIDATION_FAILURE
       else pf_failure_type f), fl_source = Source_evaluator, fl_stage = ''validation'', fl_cause_code = evidence,
     fl_retryable = pf_retryable f, fl_retry_after_ms = pf_retry_after_ms f\<rparr>"

definition below_threshold :: failure where
  "below_threshold = \<lparr>fl_failure_type = QUALITY_FAILURE, fl_source = Source_validation, fl_stage = ''validation'',
     fl_cause_code = ''evaluator_score_below_threshold'', fl_retryable = False, fl_retry_after_ms = None\<rparr>"

definition ruled_outcome :: "evaluator_binding \<Rightarrow> evaluation_request \<Rightarrow> string \<Rightarrow> ruling \<Rightarrow> scored_outcome" where
  "ruled_outcome b q unique ruling = (case ruling of
     Unscored f evidence \<Rightarrow> evaluation_outcome b q unique Check_error (Some (evaluator_error f evidence)) evidence None
   | Scored score \<Rightarrow>
       if score < eb_pass_threshold b
       then evaluation_outcome b q unique Check_failed (Some below_threshold) ''evaluator_score_below_threshold'' (Some score)
       else evaluation_outcome b q unique Check_passed None ''evaluator_score_passed'' (Some score))"

definition ruled_evidence :: "provider_outcome \<Rightarrow> ruling \<Rightarrow> provider_outcome" where
  "ruled_evidence out ruling = (case ruling of Unscored f _ \<Rightarrow> Provider_failed f | Scored _ \<Rightarrow> out)"

definition evaluate :: "'w validation_service \<Rightarrow> evaluator_binding \<Rightarrow> evaluation_request \<Rightarrow> 'w
    \<Rightarrow> (provider_outcome \<times> scored_outcome) \<times> 'w" where
  "evaluate sv b q w = (let q' = evaluation_bound_request sv b q in
     if binding_of sv (eb_ref b) \<noteq> Some b then
       (let f = evaluation_fault q' VALIDATION_FAILURE ''evaluator_binding_invalid'' None; (unique, w') = sv_uuid sv w
        in ((Provider_failed f, ruled_outcome b q' unique (Unscored f ''evaluator_binding_invalid'')), w'))
     else
       (let (r, w1) = sv_execute sv q' w; out = received q' r; ruling = rule_on (sv_read sv) b q' out;
            (unique, w2) = sv_uuid sv w1
        in ((ruled_evidence out ruling, ruled_outcome b q' unique ruling), w2)))"

section \<open>The domain validator\<close>

definition domain_failure :: "failure_type \<Rightarrow> failure_source \<Rightarrow> string \<Rightarrow> failure" where
  "domain_failure ft source cause = \<lparr>fl_failure_type = ft, fl_source = source, fl_stage = ''validation'',
     fl_cause_code = cause, fl_retryable = False, fl_retry_after_ms = None\<rparr>"

definition domain_error :: "string \<Rightarrow> string \<Rightarrow> failure_type \<Rightarrow> failure_source \<Rightarrow> string \<Rightarrow> decimal option \<Rightarrow> scored_outcome" where
  "domain_error unique check ft source cause cost =
     \<lparr>vo_evaluation_id = unique, vo_check = check, vo_status = Check_error, vo_applicable = True,
      vo_failure = Some (domain_failure ft source cause), vo_diagnosed_failure = None, vo_evidence_code = Some cause,
      vo_cost_usd = cost, so_evaluator_attempt_id = None, so_rubric_version = None, so_score = None,
      so_score_min = None, so_score_max = None\<rparr>"

definition unsupported_quality :: "scored_outcome \<Rightarrow> bool" where
  "unsupported_quality v = (case vo_failure v of None \<Rightarrow> False
     | Some f \<Rightarrow> fl_failure_type f = QUALITY_FAILURE
         \<and> (vo_status v \<noteq> Check_failed \<or> fl_source f \<noteq> Source_validation \<or> \<not> truthy_name (vo_evidence_code v)))"

definition domain_admissible :: "string \<Rightarrow> scored_outcome \<Rightarrow> bool" where
  "domain_admissible ref v = (vo_check v = ref
     \<and> \<not> (vo_status v \<in> {Check_failed, Check_error} \<and> vo_failure v = None)
     \<and> vo_status v \<noteq> Check_skipped \<and> vo_applicable v \<and> \<not> unsupported_quality v)"

definition over_domain_bound :: "decimal \<Rightarrow> decimal option \<Rightarrow> bool" where
  "over_domain_bound bound cost = (case cost of None \<Rightarrow> True | Some c \<Rightarrow> dec_lt bound c)"

definition validate_domain :: "'w validation_service \<Rightarrow> request \<Rightarrow> provider_result \<Rightarrow> 'w \<Rightarrow> scored_outcome \<times> 'w" where
  "validate_domain sv r result w = (case domain_validator sv of
     None \<Rightarrow> (let (unique, w') = sv_uuid sv w; ref = p4_domain_validator_ref (sv_config sv)
         in (domain_error unique (case ref of None \<Rightarrow> ''domain'' | Some name \<Rightarrow> name) VALIDATION_FAILURE Source_validation
              ''domain_validator_unconfigured'' (Some ZERO), w'))
   | Some (ref, run) \<Rightarrow>
       (let (answer, w1) = run r result w;
            rejected = (\<lambda>cost. let (unique, w2) = sv_uuid sv w1
              in (domain_error unique ref VALIDATION_FAILURE Source_validation ''domain_validator_error'' cost, w2))
        in case answer of
             No_reply \<Rightarrow> rejected None
           | Foreign_reply \<Rightarrow> rejected None
           | Reply v \<Rightarrow>
               if \<not> domain_admissible ref v then rejected (vo_cost_usd v)
               else if over_domain_bound (p4_domain_cost_upper_bound_usd (sv_config sv)) (vo_cost_usd v)
               then (let (unique, w2) = sv_uuid sv w1
                     in (domain_error unique ref BUDGET_FAILURE Source_admission ''domain_cost_exceeded_reservation''
                           (vo_cost_usd v), w2))
               else (v, w1)))"

end
