(* ===== verification/SemanticFacts.thy ===== *)
theory SemanticFacts
  imports Semantic
begin

text \<open>
  What the service concludes: a score is accepted exactly from a completed, unrefused, correlated reply
  whose score lies in the scale of the binding; every other reply becomes a failure of the evaluator
  that is never a quality failure. What a configuration guarantees of the bindings it plans.
\<close>

section \<open>Failures of the evaluator\<close>

lemma evaluation_fault_type [simp]: "pf_failure_type (evaluation_fault q ft cause out) = ft"
  by (simp add: evaluation_fault_def adapter_failure_def Let_def split: option.split)

lemma evaluation_fault_answers [simp]: "answers q (Provider_failed (evaluation_fault q ft cause out))"
  by (simp add: answers_def correlated_def evidence_of_def evaluation_fault_def adapter_failure_def Let_def
      provider_evidence.truncate_def provider_request.truncate_def split: option.split)

lemma safe_provider_failure_facts:
  "answers q (Provider_failed (safe_provider_failure q f))"
  "pf_failure_type (safe_provider_failure q f) \<noteq> QUALITY_FAILURE"
  by (auto simp: safe_provider_failure_def Let_def infrastructure_types_def)

lemma evaluator_error_type: "fl_failure_type (evaluator_error f evidence) \<noteq> QUALITY_FAILURE"
  by (simp add: evaluator_error_def)

section \<open>Rulings\<close>

definition usable_result :: "evaluation_request \<Rightarrow> provider_result \<Rightarrow> bool" where
  "usable_result q r = (answers q (Result r) \<and> pe_response_status r = Some Response_completed
     \<and> ps_incomplete_reason r = None \<and> \<not> ps_refused r)"

lemma rule_on_Scored:
  "rule_on read b q out = Scored score \<longleftrightarrow>
     (\<exists>r. out = Result r \<and> usable_result q r \<and> result_score read b r = Some score)"
  by (cases out) (auto simp: rule_on_def usable_result_def refuse_result_def split: option.splits)

lemma received_Result: "received q reply = Result r \<longleftrightarrow> reply = Reply (Result r)"
  by (cases reply) (simp_all add: received_def)

lemma ruling_answers:
  assumes "rule_on read b q out = Unscored f evidence"
  shows "answers q (Provider_failed f)"
  using assms by (cases out) (auto simp: rule_on_def refuse_result_def safe_provider_failure_facts split: if_splits option.splits)

lemma result_score_bounds:
  "result_score read b r = Some score \<Longrightarrow> eb_score_min b \<le> score \<and> score \<le> eb_score_max b"
  by (auto simp: result_score_def split: option.splits if_splits)

lemma ruled_outcome_cases:
  "vo_status (ruled_outcome b q unique ruling) = (case ruling of Unscored f e \<Rightarrow> Check_error
     | Scored score \<Rightarrow> if score < eb_pass_threshold b then Check_failed else Check_passed)"
  "vo_failure (ruled_outcome b q unique ruling) = (case ruling of Unscored f e \<Rightarrow> Some (evaluator_error f e)
     | Scored score \<Rightarrow> if score < eb_pass_threshold b then Some below_threshold else None)"
  "so_score (ruled_outcome b q unique ruling) = (case ruling of Unscored f e \<Rightarrow> None | Scored score \<Rightarrow> Some score)"
  "vo_check (ruled_outcome b q unique ruling) = eb_ref b"
  "so_evaluator_attempt_id (ruled_outcome b q unique ruling) = Some (pq_invocation_id q)"
  by (simp_all add: ruled_outcome_def evaluation_outcome_def split: ruling.split)

lemma evaluate_configured:
  assumes "binding_of sv (eb_ref b) = Some b"
  shows "evaluate sv b q w =
    (let q' = evaluation_bound_request sv b q; (reply, w1) = sv_execute sv q' w; out = received q' reply;
         ruling = rule_on (sv_read sv) b q' out
     in ((ruled_evidence out ruling, ruled_outcome b q' (fst (sv_uuid sv w1)) ruling), snd (sv_uuid sv w1)))"
  using assms by (simp add: evaluate_def Let_def split: prod.split)

section \<open>Configurations\<close>

lemma validate_bindings_Inr:
  "validate_bindings b bindings = Inr u \<longleftrightarrow> (\<forall>binding \<in> set bindings. validate_binding b binding = Inr ())"
  by (induction bindings) (auto simp: bind_res_Inr_iff)

lemma find_ref:
  "find (\<lambda>b. eb_ref b = ref) bindings = Some b \<Longrightarrow> b \<in> set bindings \<and> eb_ref b = ref"
  by (induction bindings) (auto split: if_splits)

lemma binding_of_configured:
  "binding_of sv ref = Some b \<Longrightarrow> b \<in> set (p4_evaluators (sv_config sv)) \<and> eb_ref b = ref"
  using find_ref [of ref "rev (p4_evaluators (sv_config sv))" b] by (simp add: binding_of_def)

lemma map_filter_total:
  "list_all (\<lambda>x. f x \<noteq> None) xs \<Longrightarrow> List.map_filter f xs = map (the \<circ> f) xs"
  by (induction xs) (auto simp: List.map_filter_simps)

lemma evaluation_plans_refs:
  assumes "semantic_readiness sv decision = []"
  shows "map eb_ref (evaluation_plans sv decision) = vr_evaluator_refs (rt_validation_requirements decision)"
proof -
  let ?refs = "vr_evaluator_refs (rt_validation_requirements decision)"
  have all: "list_all (\<lambda>ref. binding_of sv ref \<noteq> None) ?refs"
    using assms by (auto simp: semantic_readiness_def Let_def split: if_splits)
  then have "map eb_ref (evaluation_plans sv decision) = map (eb_ref \<circ> (the \<circ> binding_of sv)) ?refs"
    by (simp add: evaluation_plans_def map_filter_total)
  also have "\<dots> = ?refs"
    using all by (force simp: list_all_iff intro: map_idI dest: binding_of_configured)
  finally show ?thesis .
qed

section \<open>The domain validator\<close>

lemma domain_error_fields [simp]:
  "vo_status (domain_error unique check ft source cause cost) = Check_error"
  "vo_applicable (domain_error unique check ft source cause cost)"
  "vo_check (domain_error unique check ft source cause cost) = check"
  "vo_failure (domain_error unique check ft source cause cost) = Some (domain_failure ft source cause)"
  "vo_cost_usd (domain_error unique check ft source cause cost) = cost"
  by (simp_all add: domain_error_def)

lemma domain_failure_type [simp]: "fl_failure_type (domain_failure ft source cause) = ft"
  by (simp add: domain_failure_def)

end
