(* ===== verification/SemanticSamples.thy ===== *)
theory SemanticSamples
  imports SemanticFacts MockAdapters
begin

text \<open>
  The deterministic evaluator and domain validator of \<^verbatim>\<open>validation/semantic.py\<close>, and a sample
  configuration with one binding, for the witnesses.
\<close>

section \<open>Scripted doubles\<close>

text \<open>A script of the evaluator holds outcomes or bare scores, or functions of the request that give one.\<close>

datatype evaluator_value = Score_value rat | Outcome_value provider_outcome

datatype evaluator_script = Script_value evaluator_value | Script_function "provider_request \<Rightarrow> evaluator_value option"

definition scored_result :: "(rat \<Rightarrow> string) \<Rightarrow> rat \<Rightarrow> provider_request \<Rightarrow> provider_result" where
  "scored_result print score q =
     \<lparr>pe_task_id = pq_task_id q, pe_trace_id = pq_trace_id q, pe_invocation_id = pq_invocation_id q,
      pe_policy_version = pq_policy_version q, pe_catalog_version = pq_catalog_version q,
      pe_model_alias = pq_model_alias q, pe_provider_model_id = pq_provider_model_id q,
      pe_reasoning_effort = pq_reasoning_effort q, pe_purpose = pq_purpose q, pe_response_id = None,
      pe_response_status = Some Response_completed, pe_returned_model_id = None, pe_returned_service_tier = None,
      pe_latency_ms = 0, pe_usage = no_usage, ps_text = None, ps_structured_output = Some [(''score'', print score)],
      ps_incomplete_reason = None, ps_refused = False\<rparr>"

definition adapt :: "(rat \<Rightarrow> string) \<Rightarrow> evaluator_script \<Rightarrow> mock_outcome" where
  "adapt print script = Computed (\<lambda>q.
     case (case script of Script_value v \<Rightarrow> Some v | Script_function f \<Rightarrow> f q) of
       None \<Rightarrow> Raises
     | Some (Outcome_value out) \<Rightarrow> Answer out
     | Some (Score_value score) \<Rightarrow> Answer (Result (scored_result print score q)))"

definition new_mock_evaluator :: "(rat \<Rightarrow> string) \<Rightarrow> evaluator_script list \<Rightarrow> mock_provider" where
  "new_mock_evaluator print scripts = \<lparr>mk_outcomes = map (adapt print) scripts, mk_requests = [], mk_call_count = 0\<rparr>"

definition mock_evaluate :: "evaluation_request \<Rightarrow> mock_provider \<Rightarrow> provider_outcome reply \<times> mock_provider" where
  "mock_evaluate q p = (case mock_execute (provider_request.truncate q) p of
     (None, p') \<Rightarrow> (No_reply, p') | (Some out, p') \<Rightarrow> (Reply out, p'))"

datatype domain_script = Domain_value scored_outcome | Domain_function "request \<Rightarrow> provider_result \<Rightarrow> scored_outcome option"

record mock_domain_validator =
  md_outcomes :: "domain_script list"
  md_call_count :: nat
  md_calls :: "(string \<times> string \<times> string) list"

definition mock_validate :: "request \<Rightarrow> provider_result \<Rightarrow> mock_domain_validator
    \<Rightarrow> scored_outcome reply \<times> mock_domain_validator" where
  "mock_validate r result m =
     (let m' = m\<lparr>md_call_count := md_call_count m + 1,
            md_calls := md_calls m @ [(rq_task_id r, rq_trace_id r, pe_invocation_id result)]\<rparr>
      in case md_outcomes m' of
           [] \<Rightarrow> (No_reply, m')
         | script # outcomes \<Rightarrow>
             (case (case script of Domain_value v \<Rightarrow> Some v | Domain_function f \<Rightarrow> f r result) of
                None \<Rightarrow> No_reply | Some v \<Rightarrow> Reply v, m'\<lparr>md_outcomes := outcomes\<rparr>))"

section \<open>A sample configuration\<close>

definition sample_binding :: evaluator_binding where
  "sample_binding = \<lparr>eb_ref = ''semantic'', eb_model_alias = ''luna'', eb_reasoning_effort = LOW,
     eb_rubric_version = ''r1'', eb_rubric = ''grade'', eb_score_min = 0, eb_score_max = 10, eb_pass_threshold = 7,
     eb_max_output_tokens = 5, eb_max_input_tokens = 20, eb_timeout_ms = 40, eb_max_retries = 1, eb_backoff_ms = 2\<rparr>"

definition evaluation_health :: health_config where
  "evaluation_health = \<lparr>hc_version = ''h'', hc_freshness_ms = 3, hc_failure_window_ms = 2, hc_failure_threshold = 1,
     hc_cooldown_ms = 1, hc_half_open_max_probes = 1, hc_recovery_success_threshold = 1, hc_max_probes_per_run = 1,
     hc_probe_timeout_ms = 1, hc_live_probes_enabled = False, hc_required_components = []\<rparr>"

definition sample_phase4 :: phase4_config where
  "sample_phase4 = \<lparr>p4_version = ''p4'', p4_evaluators = [sample_binding], p4_domain_validator_ref = Some ''domain'',
     p4_domain_cost_upper_bound_usd = Dec 5 (- 1), p4_health = evaluation_health\<rparr>"

definition digit_score :: "dumped_model \<Rightarrow> json" where
  "digit_score m = JMap (map (\<lambda>(name, token). (name, JInt (int (length token)))) m)"

definition digit_print :: "rat \<Rightarrow> string" where
  "digit_print score = replicate (nat \<lfloor>score\<rfloor>) (CHR ''1'')"

record sample_evaluation_world =
  sw_evaluator :: mock_provider
  sw_domain :: mock_domain_validator

definition sample_service :: "sample_evaluation_world validation_service" where
  "sample_service = \<lparr>sv_config = sample_phase4, sv_bundle = sample_bundle,
     sv_execute = (\<lambda>q w. let (r, p) = mock_evaluate q (sw_evaluator w) in (r, w\<lparr>sw_evaluator := p\<rparr>)),
     sv_domain_registry = [(''domain'', \<lambda>r result w. let (v, m) = mock_validate r result (sw_domain w)
        in (v, w\<lparr>sw_domain := m\<rparr>))],
     sv_uuid = Pair ''e-1'', sv_read = digit_score, sv_print = digit_print\<rparr>"

definition sample_domain_outcome :: "decimal \<Rightarrow> scored_outcome" where
  "sample_domain_outcome cost = \<lparr>vo_evaluation_id = ''d-1'', vo_check = ''domain'', vo_status = Check_passed,
     vo_applicable = True, vo_failure = None, vo_diagnosed_failure = None, vo_evidence_code = None,
     vo_cost_usd = Some cost, so_evaluator_attempt_id = None, so_rubric_version = None, so_score = None,
     so_score_min = None, so_score_max = None\<rparr>"

definition sample_evaluation_world :: "rat \<Rightarrow> sample_evaluation_world" where
  "sample_evaluation_world score = \<lparr>sw_evaluator = new_mock_evaluator digit_print [Script_value (Score_value score)],
     sw_domain = \<lparr>md_outcomes = [Domain_value (sample_domain_outcome (Dec 3 (- 1)))], md_call_count = 0, md_calls = []\<rparr>\<rparr>"

definition sample_evaluation_request :: evaluation_request where
  "sample_evaluation_request = \<lparr>pq_task_id = ''t'', pq_trace_id = ''tr'', pq_invocation_id = ''i-1'',
     pq_policy_version = ''p'', pq_catalog_version = ''c'', pq_model_alias = ''other'', pq_provider_model_id = ''m'',
     pq_reasoning_effort = HIGH, pq_input = ''candidate'', pq_output_type = None, pq_max_output_tokens = 9,
     pq_timeout_ms = 30, pq_purpose = For_generation, vq_instructions = None\<rparr>"

lemma sample_bound: "binding_of sample_service (eb_ref sample_binding) = Some sample_binding"
  by (simp add: binding_of_def sample_service_def sample_phase4_def)

abbreviation sample_bound_request :: evaluation_request where
  "sample_bound_request \<equiv> evaluation_bound_request sample_service sample_binding sample_evaluation_request"

abbreviation sample_scored :: "rat \<Rightarrow> provider_result" where
  "sample_scored score \<equiv> scored_result digit_print score (provider_request.truncate sample_bound_request)"

lemma sample_reply:
  "fst (sv_execute sample_service sample_bound_request (sample_evaluation_world score)) = Reply (Result (sample_scored score))"
  by (simp add: sample_service_def sample_evaluation_world_def mock_evaluate_def mock_execute_def new_mock_evaluator_def
      adapt_def evaluated_def Let_def split: prod.split)

lemma sample_usable: "usable_result sample_bound_request (sample_scored score)"
  by (simp add: usable_result_def answers_def correlated_def evidence_of_def scored_result_def
      provider_evidence.truncate_def provider_request.truncate_def)

lemma sample_result_score:
  "result_score (sv_read sample_service) sample_binding (sample_scored 8) = Some 8"
  "result_score (sv_read sample_service) sample_binding (sample_scored 3) = Some 3"
  by (simp_all add: sample_service_def sample_binding_def scored_result_def result_score_def score_of_def digit_score_def
      digit_print_def as_map_def)

definition graded_decision :: route_decision where
  "graded_decision = sample_decision\<lparr>rt_validation_requirements := (rt_validation_requirements sample_decision)
     \<lparr>vr_evaluator_refs := [''semantic''], vr_profiles := [V0, V3]\<rparr>\<rparr>"

lemma sample_phase4_valid: "validate_phase4 sample_phase4 sample_bundle = Inr sample_phase4"
proof -
  have "validate_bindings sample_bundle (p4_evaluators sample_phase4) = Inr ()" by code_simp
  then show ?thesis by (simp add: validate_phase4_def)
qed

lemma sample_service_starts: "new_validation_service sample_service = Inr sample_service"
  using sample_phase4_valid by (simp add: new_validation_service_def sample_service_def)

end
