(* ===== verification/SemanticClaims.thy ===== *)
theory SemanticClaims
  imports SemanticSamples
begin

text \<open>The properties of the semantic evaluation and of the domain validator, with their witnesses.\<close>

text \<open>
  C15. The evaluator is invoked exactly once, with the request of the configured binding; the output passes or
  fails exactly when it answers that request with a completed, unrefused result whose one score lies in the
  scale, by the threshold; only such a failure is a quality failure, and all else is an error of the evaluator.
\<close>

theorem evaluation_verdict:
  assumes "binding_of sv (eb_ref b) = Some b" and run: "evaluate sv b q w = ((out, v), w')"
    and q': "q' = evaluation_bound_request sv b q"
  shows "w' = snd (sv_uuid sv (snd (sv_execute sv q' w)))
    \<and> (let scored = (\<lambda>score. \<exists>r. fst (sv_execute sv q' w) = Reply (Result r) \<and> usable_result q' r
            \<and> result_score (sv_read sv) b r = Some score) in
       (vo_status v = Check_passed \<longleftrightarrow> (\<exists>score \<ge> eb_pass_threshold b. scored score))
       \<and> (vo_status v = Check_failed \<longleftrightarrow> (\<exists>score < eb_pass_threshold b. scored score))
       \<and> (vo_status v \<noteq> Check_skipped)
       \<and> (map_option fl_failure_type (vo_failure v) = Some QUALITY_FAILURE \<longleftrightarrow> vo_status v = Check_failed)
       \<and> (vo_failure v = None \<longleftrightarrow> vo_status v = Check_passed))"
proof -
  obtain reply w1 where e: "sv_execute sv q' w = (reply, w1)" by (cases "sv_execute sv q' w")
  define ruling where "ruling = rule_on (sv_read sv) b q' (received q' reply)"
  have v: "v = ruled_outcome b q' (fst (sv_uuid sv w1)) ruling" "w' = snd (sv_uuid sv w1)"
    using run by (simp_all add: evaluate_configured [OF assms(1)] Let_def q' [symmetric] e ruling_def)
  have scored: "(\<exists>r. reply = Reply (Result r) \<and> usable_result q' r \<and> result_score (sv_read sv) b r = Some score)
      \<longleftrightarrow> ruling = Scored score" for score
    by (auto simp: ruling_def rule_on_Scored received_Result)
  show ?thesis
    unfolding Let_def e fst_conv snd_conv scored v ruled_outcome_cases
    by (cases ruling) (auto simp: below_threshold_def evaluator_error_type not_less)
qed

theorem evaluation_verdict_witness:
  "vo_status (snd (fst (evaluate sample_service sample_binding sample_evaluation_request (sample_evaluation_world 8)))) = Check_passed
   \<and> vo_status (snd (fst (evaluate sample_service sample_binding sample_evaluation_request (sample_evaluation_world 3)))) = Check_failed"
proof -
  let ?run = "\<lambda>score. evaluate sample_service sample_binding sample_evaluation_request (sample_evaluation_world score)"
  have run: "?run score = ((fst (fst (?run score)), snd (fst (?run score))), snd (?run score))" for score by simp
  note verdict = evaluation_verdict [OF sample_bound run refl, unfolded Let_def sample_reply]
  have threshold: "eb_pass_threshold sample_binding = 7" by (simp add: sample_binding_def)
  have "\<exists>score \<ge> 7. \<exists>r. Reply (Result (sample_scored 8)) = Reply (Result r) \<and> usable_result sample_bound_request r
      \<and> result_score (sv_read sample_service) sample_binding r = Some score"
    "\<exists>score < 7. \<exists>r. Reply (Result (sample_scored 3)) = Reply (Result r) \<and> usable_result sample_bound_request r
      \<and> result_score (sv_read sample_service) sample_binding r = Some score"
    by (simp_all add: sample_usable sample_result_score)
  then show ?thesis using verdict [of 8] verdict [of 3] unfolding threshold by blast
qed

text \<open>
  C16. Whatever a domain validator replies, the outcome names it, is applicable and not skipped; a quality
  failure is its own, failed with validation evidence; and without a failure its cost is known and in the bound.
\<close>

theorem domain_outcome_contained:
  assumes "domain_validator sv = Some (ref, check)" and "validate_domain sv r result w = (v, w')"
  shows "vo_check v = ref \<and> vo_applicable v \<and> vo_status v \<noteq> Check_skipped
    \<and> (\<forall>f. vo_failure v = Some f \<and> fl_failure_type f = QUALITY_FAILURE \<longrightarrow>
         fst (check r result w) = Reply v \<and> vo_status v = Check_failed \<and> fl_source f = Source_validation
         \<and> truthy_name (vo_evidence_code v))
    \<and> (vo_failure v = None \<longrightarrow> (\<exists>cost. vo_cost_usd v = Some cost
         \<and> dval cost \<le> dval (p4_domain_cost_upper_bound_usd (sv_config sv))))
    \<and> (vo_status v = Check_passed \<longrightarrow> fst (check r result w) = Reply v)"
proof -
  obtain answer w1 where e: "check r result w = (answer, w1)" by (cases "check r result w")
  show ?thesis
  proof (cases "\<exists>v'. answer = Reply v' \<and> domain_admissible ref v'
      \<and> \<not> over_domain_bound (p4_domain_cost_upper_bound_usd (sv_config sv)) (vo_cost_usd v')")
    case True
    then have "answer = Reply v" "domain_admissible ref v"
      "\<not> over_domain_bound (p4_domain_cost_upper_bound_usd (sv_config sv)) (vo_cost_usd v)"
      using assms(2) by (auto simp: validate_domain_def assms(1) e)
    then show ?thesis
      by (cases "vo_failure v")
        (auto simp: e domain_admissible_def unsupported_quality_def over_domain_bound_def dec_lt_def not_less split: option.splits)
  next
    case False
    then have "vo_check v = ref \<and> vo_applicable v \<and> vo_status v = Check_error \<and> vo_failure v \<noteq> None
        \<and> fl_failure_type (the (vo_failure v)) \<noteq> QUALITY_FAILURE"
      using assms(2) by (cases answer) (auto simp: validate_domain_def assms(1) e Let_def split: if_splits prod.splits)
    then show ?thesis by auto
  qed
qed

theorem domain_outcome_contained_witness:
  "vo_check (fst (validate_domain sample_service capped_request (sample_scored 8) (sample_evaluation_world 8))) = ''domain''"
proof -
  obtain check where "domain_validator sample_service = Some (''domain'', check)"
    by (simp add: domain_validator_def sample_service_def sample_phase4_def)
  then show ?thesis
    using domain_outcome_contained [of sample_service "''domain''" check capped_request "sample_scored 8" "sample_evaluation_world 8"
      "fst (validate_domain sample_service capped_request (sample_scored 8) (sample_evaluation_world 8))"
      "snd (validate_domain sample_service capped_request (sample_scored 8) (sample_evaluation_world 8))"] by simp
qed

text \<open>
  When a service starts and reports no blocker for a decision, it plans exactly the evaluators that the
  decision requires, in that order, each on an enabled model that supports its effort and holds its tokens.
\<close>

theorem ready_evaluations_planned:
  assumes "new_validation_service sv = Inr sv'" and ready: "semantic_readiness sv' decision = []"
  shows "map eb_ref (evaluation_plans sv' decision) = vr_evaluator_refs (rt_validation_requirements decision)
    \<and> (\<forall>b \<in> set (evaluation_plans sv' decision). \<exists>m. map_of (bundle_models (sv_bundle sv')) (eb_model_alias b) = Some m
         \<and> configured_enabled m \<and> eb_reasoning_effort b \<in> set (me_reasoning_efforts m)
         \<and> eb_max_input_tokens b + eb_max_output_tokens b \<le> me_context_window_tokens m)
    \<and> (V3 \<in> set (vr_profiles (rt_validation_requirements decision)) \<longrightarrow> domain_bound sv' \<noteq> None)"
proof -
  have valid: "sv' = sv" "\<forall>b \<in> set (p4_evaluators (sv_config sv)). validate_binding (sv_bundle sv) b = Inr ()"
    using assms(1) by (auto simp: new_validation_service_def validate_phase4_def bind_res_Inr_iff validate_bindings_Inr)
  have "b \<in> set (p4_evaluators (sv_config sv))" if "b \<in> set (evaluation_plans sv decision)" for b
    using that binding_of_configured [of sv] by (auto simp: evaluation_plans_def List.map_filter_def)
  then have "\<exists>m. map_of (bundle_models (sv_bundle sv)) (eb_model_alias b) = Some m
         \<and> configured_enabled m \<and> eb_reasoning_effort b \<in> set (me_reasoning_efforts m)
         \<and> eb_max_input_tokens b + eb_max_output_tokens b \<le> me_context_window_tokens m"
    if "b \<in> set (evaluation_plans sv decision)" for b
    using that valid(2) by (fastforce simp: validate_binding_def bind_res_Inr_iff split: option.splits)
  then show ?thesis
    using ready evaluation_plans_refs [OF ready] unfolding valid(1)
    by (auto simp: semantic_readiness_def Let_def split: if_splits)
qed

theorem ready_evaluations_planned_witness:
  "map eb_ref (evaluation_plans sample_service graded_decision) = [''semantic''] \<and> domain_bound sample_service \<noteq> None"
proof -
  have ready: "semantic_readiness sample_service graded_decision = []"
    by (simp add: semantic_readiness_def graded_decision_def Let_def binding_of_def domain_bound_def domain_validator_def
        sample_service_def sample_phase4_def sample_binding_def)
  have "vr_evaluator_refs (rt_validation_requirements graded_decision) = [''semantic'']"
    "V3 \<in> set (vr_profiles (rt_validation_requirements graded_decision))"
    by (simp_all add: graded_decision_def)
  with ready_evaluations_planned [OF sample_service_starts ready] show ?thesis by simp
qed

end
