(* ===== verification/ReleaseSchema.thy ===== *)
theory ReleaseSchema
  imports Classifier
begin

text \<open>
  The release manifest of \<^verbatim>\<open>release/schema.py\<close>: one record for each class and, for each
  \<^verbatim>\<open>model_validator\<close>, a bool-valued function that also holds the field constraints of the class, as for
  the configuration documents. A field with a single admissible value (a one-value \<^verbatim>\<open>Literal\<close>) has no
  counterpart. The detail of a check, a sentence for the operator, has none either.
\<close>

section \<open>Operations\<close>

datatype service_scope = Scope_route | Scope_read | Scope_execute | Scope_health | Scope_classify_route

datatype modality = Modality_text

definition positive_money_ok :: "decimal \<Rightarrow> bool" where
  "positive_money_ok d = (0 < dval d)"

definition digest_ok :: "string \<Rightarrow> bool" where
  "digest_ok s = (length s = 64 \<and> list_all (\<lambda>c. c \<in> set ''0123456789abcdef'') s)"

definition letters :: string where
  "letters = ''abcdefghijklmnopqrstuvwxyzABCDEFGHIJKLMNOPQRSTUVWXYZ_''"

text \<open>The pattern \<^verbatim>\<open>^[A-Za-z_][A-Za-z0-9_]*$\<close>.\<close>

definition env_name_ok :: "string \<Rightarrow> bool" where
  "env_name_ok s = (case s of [] \<Rightarrow> False
     | c # cs \<Rightarrow> c \<in> set letters \<and> list_all (\<lambda>d. d \<in> set letters \<or> d \<in> set ''0123456789'') cs)"

record policy_versions =
  pv_policy :: string
  pv_catalog :: string
  pv_budgets :: string
  pv_validation :: string

record policy_reference =
  pn_directory :: string
  pn_content_sha256 :: string
  pn_versions :: policy_versions

record file_reference =
  fi_path :: string
  fi_sha256 :: string
  fi_version :: string

record operations =
  op_classify_route :: bool
  op_route :: bool
  op_read :: bool
  op_execute :: bool
  op_health :: bool
  op_live_provider :: bool
  op_live_classifier :: bool
  op_tools :: bool
  op_shadow :: bool
  op_modalities :: "modality list"
  op_validation_profiles :: "validation_level list"

definition operations_ok :: "operations \<Rightarrow> bool" where
  "operations_ok o' = (set (op_validation_profiles o') \<subseteq> {V0}
     \<and> \<not> op_tools o' \<and> \<not> op_shadow o'
     \<and> (op_live_provider o' \<longrightarrow> op_execute o') \<and> (op_execute o' \<longrightarrow> op_live_provider o')
     \<and> (op_live_classifier o' \<longrightarrow> op_execute o' \<or> op_classify_route o')
     \<and> (op_classify_route o' \<longrightarrow> op_live_classifier o')
     \<and> (op_execute o' \<longrightarrow> op_modalities o' = [Modality_text] \<and> op_validation_profiles o' = [V0])
     \<and> (\<not> (op_execute o' \<or> op_classify_route o') \<longrightarrow> \<not> op_live_provider o' \<and> \<not> op_live_classifier o'))"

definition scope_enabled :: "operations \<Rightarrow> service_scope \<Rightarrow> bool" where
  "scope_enabled o' s = (case s of Scope_route \<Rightarrow> op_route o' | Scope_read \<Rightarrow> op_read o'
     | Scope_execute \<Rightarrow> op_execute o' | Scope_health \<Rightarrow> op_health o' | Scope_classify_route \<Rightarrow> op_classify_route o')"

definition all_scopes :: "service_scope list" where
  "all_scopes = [Scope_route, Scope_read, Scope_execute, Scope_health, Scope_classify_route]"

section \<open>Limits\<close>

record action_limits =
  al_max_total_generation_attempts :: nat
  al_max_quality_escalations :: nat
  al_max_infrastructure_retries :: nat
  al_max_tool_recoveries :: nat

record backoff_limits =
  bk_initial_ms :: nat
  bk_maximum_ms :: nat

definition backoff_limits_ok :: "backoff_limits \<Rightarrow> bool" where
  "backoff_limits_ok b = (0 < bk_initial_ms b \<and> 0 < bk_maximum_ms b \<and> bk_initial_ms b \<le> bk_maximum_ms b)"

record operational_limits =
  ol_max_preview_records :: "nat option"
  ol_allocation_id :: string
  ol_application_cost_ceiling_usd :: decimal
  ol_task_cost_ceiling_usd :: decimal
  ol_task_deadline_ms :: nat
  ol_provider_timeout_ms :: nat
  ol_max_input_tokens :: nat
  ol_max_output_tokens :: nat
  ol_max_concurrent_tasks :: nat
  ol_actions :: action_limits
  ol_backoff :: backoff_limits

definition operational_limits_ok :: "operational_limits \<Rightarrow> bool" where
  "operational_limits_ok l = (ol_max_preview_records l \<noteq> Some 0
     \<and> positive_money_ok (ol_application_cost_ceiling_usd l) \<and> positive_money_ok (ol_task_cost_ceiling_usd l)
     \<and> 0 < ol_task_deadline_ms l \<and> 0 < ol_provider_timeout_ms l \<and> 0 < ol_max_input_tokens l
     \<and> 0 < ol_max_output_tokens l \<and> 0 < ol_max_concurrent_tasks l
     \<and> 0 < al_max_total_generation_attempts (ol_actions l) \<and> backoff_limits_ok (ol_backoff l)
     \<and> dec_le (ol_task_cost_ceiling_usd l) (ol_application_cost_ceiling_usd l)
     \<and> ol_provider_timeout_ms l \<le> ol_task_deadline_ms l)"

section \<open>The other blocks\<close>

record auth_config =
  ac_credentials_env :: string
  ac_required_scopes :: "service_scope list"
  ac_minimum_token_bytes :: nat

definition auth_config_ok :: "auth_config \<Rightarrow> bool" where
  "auth_config_ok a = (env_name_ok (ac_credentials_env a) \<and> 32 \<le> ac_minimum_token_bytes a
     \<and> distinct (ac_required_scopes a))"

record auth_application_source =
  aa_token_env :: string
  aa_scopes :: "service_scope list"

definition auth_application_source_ok :: "auth_application_source \<Rightarrow> bool" where
  "auth_application_source_ok a = (env_name_ok (aa_token_env a) \<and> aa_scopes a \<noteq> [] \<and> distinct (aa_scopes a))"

datatype dialect = Sqlite | Postgresql

record database_config =
  dc_url_env :: string
  dc_journal_path_env :: string
  dc_allowed_dialects :: "dialect list"
  dc_required_migration_revision :: string
  dc_connect_timeout_ms :: nat
  dc_pool_size :: nat

definition database_config_ok :: "database_config \<Rightarrow> bool" where
  "database_config_ok d = (env_name_ok (dc_url_env d) \<and> env_name_ok (dc_journal_path_env d)
     \<and> dc_allowed_dialects d \<noteq> [] \<and> distinct (dc_allowed_dialects d)
     \<and> 0 < dc_connect_timeout_ms d \<and> 0 < dc_pool_size d)"

record outbox_config =
  oc_batch_size :: nat
  oc_lease_ms :: nat
  oc_max_delivery_attempts :: nat
  oc_retry_backoff_ms :: nat
  oc_max_pending_events :: nat

definition outbox_config_ok :: "outbox_config \<Rightarrow> bool" where
  "outbox_config_ok x = list_all (\<lambda>n. 0 < n) [oc_batch_size x, oc_lease_ms x, oc_max_delivery_attempts x, oc_retry_backoff_ms x]"

record evaluator_config =
  ec_required_refs :: "string list"
  ec_timeout_ms :: nat
  ec_max_attempts :: nat

definition evaluator_config_ok :: "evaluator_config \<Rightarrow> bool" where
  "evaluator_config_ok e = (ec_required_refs e = [] \<and> 0 < ec_timeout_ms e \<and> 0 < ec_max_attempts e)"

record release_health =
  rh_config_version :: string
  rh_required_components :: "string list"
  rh_freshness_ms :: nat
  rh_check_timeout_ms :: nat
  rh_failure_window_ms :: nat
  rh_failure_threshold :: nat
  rh_cooldown_ms :: nat
  rh_half_open_max_probes :: nat
  rh_recovery_success_threshold :: nat
  rh_max_probes_per_run :: nat
  rh_probe_timeout_ms :: nat
  rh_live_probes_enabled :: bool
  rh_paid_probes_enabled :: bool

definition release_health_ok :: "release_health \<Rightarrow> bool" where
  "release_health_ok h = (list_all (\<lambda>n. 0 < n) [rh_freshness_ms h, rh_check_timeout_ms h, rh_failure_window_ms h,
       rh_failure_threshold h, rh_cooldown_ms h, rh_half_open_max_probes h, rh_recovery_success_threshold h,
       rh_max_probes_per_run h, rh_probe_timeout_ms h]
     \<and> \<not> rh_live_probes_enabled h \<and> \<not> rh_paid_probes_enabled h
     \<and> rh_required_components h \<noteq> [] \<and> distinct (rh_required_components h)
     \<and> rh_recovery_success_threshold h \<le> rh_half_open_max_probes h)"

record retention_config =
  rn_task_metadata_days :: nat
  rn_idempotency_days :: nat
  rn_outbox_days :: nat

definition retention_config_ok :: "retention_config \<Rightarrow> bool" where
  "retention_config_ok r = list_all (\<lambda>n. 0 < n) [rn_task_metadata_days r, rn_idempotency_days r, rn_outbox_days r]"

record live_config =
  lv_credential_env :: string
  lv_evidence :: "file_reference option"
  lv_evidence_max_age_hours :: nat
  lv_classifier_config :: "file_reference option"
  lv_classifier_input_overhead_tokens :: nat

record release_config =
  rl_release_id :: string
  rl_policy :: policy_reference
  rl_operations :: operations
  rl_limits :: operational_limits
  rl_auth :: auth_config
  rl_database :: database_config
  rl_outbox :: outbox_config
  rl_evaluators :: evaluator_config
  rl_health :: release_health
  rl_retention :: retention_config
  rl_live :: live_config

definition release_live :: "release_config \<Rightarrow> bool" where
  "release_live c = (op_live_provider (rl_operations c) \<or> op_live_classifier (rl_operations c))"

definition release_config_ok :: "release_config \<Rightarrow> bool" where
  "release_config_ok c = (let ops = rl_operations c in
     operations_ok ops \<and> operational_limits_ok (rl_limits c) \<and> auth_config_ok (rl_auth c)
     \<and> database_config_ok (rl_database c) \<and> evaluator_config_ok (rl_evaluators c) \<and> release_health_ok (rl_health c)
     \<and> outbox_config_ok (rl_outbox c) \<and> retention_config_ok (rl_retention c)
     \<and> digest_ok (pn_content_sha256 (rl_policy c)) \<and> 0 < lv_evidence_max_age_hours (rl_live c)
     \<and> list_all (\<lambda>s. scope_enabled ops s \<longrightarrow> s \<in> set (ac_required_scopes (rl_auth c))) all_scopes
     \<and> (op_classify_route ops \<longrightarrow> ol_max_preview_records (rl_limits c) \<noteq> None
          \<and> dc_required_migration_revision (rl_database c) = ''0004_routing_previews'')
     \<and> (release_live c \<longrightarrow> lv_evidence (rl_live c) \<noteq> None)
     \<and> (op_live_classifier ops \<longrightarrow> lv_classifier_config (rl_live c) \<noteq> None)
     \<and> ol_max_concurrent_tasks (rl_limits c) \<le> dc_pool_size (rl_database c)
     \<and> rh_probe_timeout_ms (rl_health c) \<le> rh_check_timeout_ms (rl_health c))"

section \<open>Evidence and reports\<close>

record live_model_evidence =
  lm_provider_model_id :: string
  lm_pricing_version :: string
  lm_input_usd :: decimal
  lm_cached_input_usd :: decimal
  lm_output_usd :: decimal
  lm_cache_write_input_multiplier :: decimal
  lm_reasoning_efforts :: "effort list"
  lm_source_url :: string

definition live_model_evidence_ok :: "live_model_evidence \<Rightarrow> bool" where
  "live_model_evidence_ok m = (list_all positive_money_ok [lm_input_usd m, lm_cached_input_usd m, lm_output_usd m,
       lm_cache_write_input_multiplier m]
     \<and> lm_reasoning_efforts m \<noteq> [] \<and> distinct (lm_reasoning_efforts m))"

record live_evidence =
  le_credential_sha256 :: string
  le_evidence_id :: string
  le_verified_at :: instant
  le_models :: "(string \<times> live_model_evidence) list"

definition live_evidence_ok :: "live_evidence \<Rightarrow> bool" where
  "live_evidence_ok e = (digest_ok (le_credential_sha256 e) \<and> le_models e \<noteq> [] \<and> distinct (map fst (le_models e))
     \<and> list_all (live_model_evidence_ok \<circ> snd) (le_models e))"

record runtime_evidence =
  re_database_reachable :: bool
  re_database_dialect :: "dialect option"
  re_database_revision :: "string option"
  re_outbox_ready :: bool
  re_health_ready :: bool
  re_health_config_version :: "string option"
  re_health_observed_at :: "instant option"
  re_healthy_components :: "string list"
  re_evaluator_refs :: "string list"

definition no_runtime_evidence :: runtime_evidence where
  "no_runtime_evidence = \<lparr>re_database_reachable = False, re_database_dialect = None, re_database_revision = None,
     re_outbox_ready = False, re_health_ready = False, re_health_config_version = None, re_health_observed_at = None,
     re_healthy_components = [], re_evaluator_refs = []\<rparr>"

record application_credential =
  apc_application_id :: string
  apc_credential_digest :: string
  apc_scopes :: "service_scope list"

type_synonym preflight_check = "string \<times> bool"

record preflight_report =
  pp_release_id :: string
  pp_release_sha256 :: string
  pp_checked_at :: instant
  pp_ready :: bool
  pp_enabled_operations :: "string list"
  pp_checks :: "preflight_check list"
  pp_blockers :: "string list"

record activation_report =
  ar_paid_classifier_enabled :: "bool option"
  ar_activation_id :: string
  ar_release_id :: string
  ar_release_sha256 :: string
  ar_activated_at :: instant
  ar_enabled_operations :: "string list"
  ar_operation_scope :: string
  ar_live_execution_enabled :: bool
  ar_manifest :: json
  ar_checks :: "preflight_check list"

section \<open>Loading\<close>

text \<open>
  What the loader reads: the parsed and validated documents that paths lead to (\<open>None\<close> when one cannot be
  read, parsed or validated), the digests of files, and the policy bundle and classifier configuration that
  their own loaders give. The hash of the canonical manifest, and the manifest itself, a dump of the
  configuration as JSON, are parameters.
\<close>

record release_files =
  rf_manifest :: "release_config option"
  rf_bundle :: "string \<Rightarrow> policy_bundle res"
  rf_digest :: "string \<Rightarrow> string option"
  rf_evidence :: "string \<Rightarrow> live_evidence option"
  rf_classifier :: "string \<Rightarrow> policy_bundle \<Rightarrow> classifier_config res"
  rf_dump :: "release_config \<Rightarrow> json"
  rf_hash :: "json \<Rightarrow> string"

record loaded_release =
  ld_config :: release_config
  ld_policy_bundle :: policy_bundle
  ld_release_sha256 :: string
  ld_manifest :: json
  ld_live_evidence :: "live_evidence option"
  ld_classifier_config :: "classifier_config option"

definition policy_versions_of :: "policy_bundle \<Rightarrow> policy_versions" where
  "policy_versions_of b = \<lparr>pv_policy = pol_version (pb_policy b), pv_catalog = cat_catalog_version (pb_catalog b),
     pv_budgets = bud_version (pb_budgets b), pv_validation = val_version (pb_validation b)\<rparr>"

definition loaded_or_refused :: "'a option \<Rightarrow> 'a res" where
  "loaded_or_refused v = (case v of None \<Rightarrow> Inl ConfigurationError | Some x \<Rightarrow> Inr x)"

definition load_evidence :: "release_files \<Rightarrow> file_reference option \<Rightarrow> live_evidence option res" where
  "load_evidence files reference = (case reference of None \<Rightarrow> Inr None | Some f \<Rightarrow>
     bind_res (check_res (rf_digest files (fi_path f) = Some (fi_sha256 f)) ConfigurationError) (\<lambda>_.
     bind_res (loaded_or_refused (rf_evidence files (fi_path f))) (\<lambda>e.
     bind_res (check_res (live_evidence_ok e) ConfigurationError) (\<lambda>_.
     bind_res (check_res (le_evidence_id e = fi_version f) ConfigurationError) (\<lambda>_.
     Inr (Some e))))))"

definition load_classifier :: "release_files \<Rightarrow> file_reference option \<Rightarrow> policy_bundle \<Rightarrow> classifier_config option res" where
  "load_classifier files reference b = (case reference of None \<Rightarrow> Inr None | Some f \<Rightarrow>
     bind_res (rf_classifier files (fi_path f) b) (\<lambda>k.
     bind_res (check_res (kc_configuration_hash k = fi_sha256 f) ConfigurationError) (\<lambda>_.
     bind_res (check_res (kc_version k = fi_version f) ConfigurationError) (\<lambda>_.
     Inr (Some k)))))"

definition load_release :: "release_files \<Rightarrow> loaded_release res" where
  "load_release files =
     bind_res (loaded_or_refused (rf_manifest files)) (\<lambda>c.
     bind_res (check_res (release_config_ok c) ConfigurationError) (\<lambda>_.
     bind_res (rf_bundle files (pn_directory (rl_policy c))) (\<lambda>b.
     bind_res (check_res (pb_content_hash b = pn_content_sha256 (rl_policy c)) ConfigurationError) (\<lambda>_.
     bind_res (check_res (policy_versions_of b = pn_versions (rl_policy c)) ConfigurationError) (\<lambda>_.
     bind_res (load_evidence files (lv_evidence (rl_live c))) (\<lambda>e.
     bind_res (load_classifier files (lv_classifier_config (rl_live c)) b) (\<lambda>k.
     let manifest = rf_dump files c in
     Inr \<lparr>ld_config = c, ld_policy_bundle = b, ld_release_sha256 = rf_hash files manifest, ld_manifest = manifest,
          ld_live_evidence = e, ld_classifier_config = k\<rparr>)))))))"

end
