(* ===== verification/Activation.thy ===== *)
theory Activation
  imports ReleaseSchema
begin

text \<open>
  The offline preflight and the explicit activation of a release, \<^verbatim>\<open>release/activation.py\<close>.

  The process environment is a partial map from names to values, the clock an argument. Parsing JSON
  text and the digests are parameters. An object in a parsed text keeps its duplicate keys, which the
  code refuses. Reports live in a store of files that is only ever extended.
\<close>

section \<open>Application credentials\<close>

type_synonym process_environment = "string \<Rightarrow> string option"

record release_digests =
  rd_parse :: "string \<Rightarrow> json option"
  rd_text :: "string \<Rightarrow> string"
  rd_activation :: "string \<Rightarrow> instant \<Rightarrow> string list \<Rightarrow> preflight_check list \<Rightarrow> string"

fun unique_keys :: "json \<Rightarrow> bool" where
  "unique_keys (JMap items) = (distinct (map fst items) \<and> list_all (\<lambda>(k, v). unique_keys v) items)"
| "unique_keys (JList items) = list_all unique_keys items"
| "unique_keys j = True"

definition scope_of_name :: "string \<Rightarrow> service_scope option" where
  "scope_of_name s = map_of [(''route'', Scope_route), (''read'', Scope_read), (''execute'', Scope_execute),
     (''health'', Scope_health), (''classify_route'', Scope_classify_route)] s"

definition scopes_of_json :: "json \<Rightarrow> service_scope list option" where
  "scopes_of_json j = (case j of
     JList items \<Rightarrow> (let scopes = map (\<lambda>i. Option.bind (as_text (Some i)) scope_of_name) items
        in if None \<in> set scopes then None else Some (map the scopes))
   | _ \<Rightarrow> None)"

definition source_of_json :: "json \<Rightarrow> auth_application_source option" where
  "source_of_json j = (case as_map (Some j) of None \<Rightarrow> None
     | Some m \<Rightarrow>
         if set (map fst m) \<noteq> {''token_env'', ''scopes''} then None
         else (case (as_text (map_of m ''token_env''), Option.bind (map_of m ''scopes'') scopes_of_json) of
             (Some token_env, Some scopes) \<Rightarrow>
               let a = \<lparr>aa_token_env = token_env, aa_scopes = scopes\<rparr>
               in if auth_application_source_ok a then Some a else None
           | _ \<Rightarrow> None))"

definition sources_of_json :: "json \<Rightarrow> (string \<times> auth_application_source) list option" where
  "sources_of_json j = (case j of
     JMap m \<Rightarrow> (let sources = map (\<lambda>(app, v). map_option (Pair app) (source_of_json v)) m
        in if \<not> unique_keys j \<or> None \<in> set sources then None else Some (map the sources))
   | _ \<Rightarrow> None)"

definition trimmed :: "string \<Rightarrow> bool" where
  "trimmed s = (s \<noteq> [] \<and> \<not> blank_text [hd s] \<and> \<not> blank_text [last s])"

definition token_ok :: "nat \<Rightarrow> string \<Rightarrow> bool" where
  "token_ok minimum token = (minimum \<le> length token
     \<and> list_all (\<lambda>c. 33 \<le> (of_char c :: nat) \<and> (of_char c :: nat) \<le> 126) token)"

text \<open>The credentials resolved so far, then one more source; \<open>None\<close> is \<^verbatim>\<open>CredentialConfigurationError\<close>.\<close>

definition resolve_source :: "release_digests \<Rightarrow> auth_config \<Rightarrow> process_environment \<Rightarrow> string \<times> auth_application_source
    \<Rightarrow> application_credential list \<Rightarrow> application_credential list option" where
  "resolve_source rd a env entry records = (case entry of (app, source) \<Rightarrow>
     if \<not> trimmed app \<or> \<not> set (aa_scopes source) \<subseteq> set (ac_required_scopes a) then None
     else (case env (aa_token_env source) of None \<Rightarrow> None
       | Some token \<Rightarrow>
           if \<not> token_ok (ac_minimum_token_bytes a) token then None
           else (let digest = rd_text rd token in
             if digest \<in> set (map apc_credential_digest records) then None
             else Some (records @ [\<lparr>apc_application_id = app, apc_credential_digest = digest,
                    apc_scopes = aa_scopes source\<rparr>]))))"

fun resolve_sources :: "release_digests \<Rightarrow> auth_config \<Rightarrow> process_environment
    \<Rightarrow> (string \<times> auth_application_source) list \<Rightarrow> application_credential list \<Rightarrow> application_credential list option" where
  "resolve_sources rd a env [] records = Some records"
| "resolve_sources rd a env (entry # rest) records =
     Option.bind (resolve_source rd a env entry records) (resolve_sources rd a env rest)"

definition parse_application_credentials :: "release_digests \<Rightarrow> loaded_release \<Rightarrow> process_environment
    \<Rightarrow> application_credential list option" where
  "parse_application_credentials rd release env = (let a = rl_auth (ld_config release) in
     case env (ac_credentials_env a) of None \<Rightarrow> None
     | Some encoded \<Rightarrow>
         if blank_text encoded then None
         else (case Option.bind (rd_parse rd encoded) sources_of_json of
             None \<Rightarrow> None
           | Some [] \<Rightarrow> None
           | Some sources \<Rightarrow>
               Option.bind (resolve_sources rd a env sources []) (\<lambda>records.
               if set (ac_required_scopes a) \<subseteq> set (concat (map apc_scopes records)) then Some records else None)))"

section \<open>The gates on the policy\<close>

definition enabled_operations :: "loaded_release \<Rightarrow> string list" where
  "enabled_operations release = (let o' = rl_operations (ld_config release) in
     map fst (filter snd [(''route'', op_route o'), (''classify_route'', op_classify_route o'), (''read'', op_read o'),
       (''execute'', op_execute o'), (''health'', op_health o'), (''live_provider'', op_live_provider o'),
       (''live_classifier'', op_live_classifier o'), (''tools'', op_tools o'), (''shadow'', op_shadow o')]))"

definition present :: "process_environment \<Rightarrow> string \<Rightarrow> bool" where
  "present env name = (case env name of None \<Rightarrow> False | Some v \<Rightarrow> \<not> blank_text v)"

definition policy_is_active :: "policy_bundle \<Rightarrow> bool" where
  "policy_is_active b = (pol_status (pb_policy b) = Active \<and> cat_status (pb_catalog b) = Active
     \<and> bud_status (pb_budgets b) = Active \<and> val_status (pb_validation b) = Active)"

definition recovery_is_finite :: "policy_bundle \<Rightarrow> bool" where
  "recovery_is_finite b = (let e = pol_escalation (pb_policy b); l = es_limits e; bo = es_backoff e in
     el_max_total_generation_attempts l \<noteq> None \<and> el_max_quality_escalations l \<noteq> None
     \<and> el_max_infrastructure_retries l \<noteq> None \<and> el_max_tool_recoveries l \<noteq> None \<and> el_max_elapsed_ms l \<noteq> None
     \<and> bo_initial_ms bo \<noteq> None \<and> bo_max_ms bo \<noteq> None \<and> bo_jitter bo \<noteq> None)"

definition money_equal :: "decimal \<Rightarrow> decimal option \<Rightarrow> bool" where
  "money_equal a b = (case b of None \<Rightarrow> False | Some d \<Rightarrow> dec_eq a d)"

definition base_limits_match :: "loaded_release \<Rightarrow> bool" where
  "base_limits_match release =
     (let limits = rl_limits (ld_config release); actions = ol_actions limits;
          e = pol_escalation (pb_policy (ld_policy_bundle release)); l = es_limits e; bo = es_backoff e;
          budget = bd_limits (bud_defaults (pb_budgets (ld_policy_bundle release))) in
      el_max_total_generation_attempts l = Some (al_max_total_generation_attempts actions)
      \<and> el_max_quality_escalations l = Some (al_max_quality_escalations actions)
      \<and> el_max_infrastructure_retries l = Some (al_max_infrastructure_retries actions)
      \<and> el_max_tool_recoveries l = Some (al_max_tool_recoveries actions)
      \<and> el_max_elapsed_ms l = Some (ol_task_deadline_ms limits)
      \<and> bo_initial_ms bo = Some (bk_initial_ms (ol_backoff limits))
      \<and> bo_max_ms bo = Some (bk_maximum_ms (ol_backoff limits))
      \<and> bo_jitter bo = Some 0 \<and> bo_honor_retry_after bo
      \<and> money_equal (ol_task_cost_ceiling_usd limits) (bl_task_cost_ceiling_usd budget)
      \<and> money_equal (ol_application_cost_ceiling_usd limits) (bl_period_spend_ceiling_usd budget))"

definition overlay_of :: "policy_bundle \<Rightarrow> string \<Rightarrow> (budget_limits \<Rightarrow> 'a option) \<Rightarrow> 'a option" where
  "overlay_of b app field = Option.bind (map_of (bud_applications (pb_budgets b)) app) field"

definition application_limits_match :: "loaded_release \<Rightarrow> string \<Rightarrow> bool" where
  "application_limits_match release app =
     (let limits = rl_limits (ld_config release); b = ld_policy_bundle release; budget = bd_limits (bud_defaults (pb_budgets b)) in
      bl_live_execution_enabled budget = Some True \<and> overlay_of b app bl_live_execution_enabled \<noteq> Some False
      \<and> money_equal (ol_task_cost_ceiling_usd limits)
          (inherit (overlay_of b app bl_task_cost_ceiling_usd) (bl_task_cost_ceiling_usd budget))
      \<and> money_equal (ol_application_cost_ceiling_usd limits)
          (inherit (overlay_of b app bl_period_spend_ceiling_usd) (bl_period_spend_ceiling_usd budget))
      \<and> inherit (overlay_of b app bl_task_deadline_ms) (bl_task_deadline_ms budget) = Some (ol_task_deadline_ms limits))"

definition policy_limits_match_runtime :: "loaded_release \<Rightarrow> application_credential list \<Rightarrow> bool" where
  "policy_limits_match_runtime release credentials =
     (base_limits_match release \<and> list_all (application_limits_match release \<circ> apc_application_id) credentials)"

section \<open>The gates on the evidence\<close>

definition hours :: "nat \<Rightarrow> int" where
  "hours n = ms (n * 3600000)"

definition aged_within :: "instant \<Rightarrow> instant \<Rightarrow> int \<Rightarrow> bool" where
  "aged_within now observed limit = (0 \<le> now - observed \<and> now - observed \<le> limit)"

definition enabled_models :: "loaded_release \<Rightarrow> (string \<times> model_entry) list" where
  "enabled_models release = filter (configured_enabled \<circ> snd) (bundle_models (ld_policy_bundle release))"

definition evidence_matches :: "live_evidence \<Rightarrow> string \<times> model_entry \<Rightarrow> bool" where
  "evidence_matches e entry = (case entry of (alias, m) \<Rightarrow> (case map_of (le_models e) alias of None \<Rightarrow> False
     | Some item \<Rightarrow> let p = me_pricing m in
         lm_provider_model_id item = me_provider_model_id m \<and> lm_pricing_version item = pr_version p
         \<and> money_equal (lm_input_usd item) (pr_input_usd p)
         \<and> money_equal (lm_cached_input_usd item) (pr_cached_input_usd p)
         \<and> money_equal (lm_output_usd item) (pr_output_usd p)
         \<and> money_equal (lm_cache_write_input_multiplier item) (pr_cache_write_input_multiplier p)
         \<and> lm_reasoning_efforts item = me_reasoning_efforts m \<and> lm_source_url item = me_source_url m
         \<and> av_account_status (me_availability m) = Account_verified \<and> pr_status p = Pricing_verified))"

definition live_evidence_checks :: "loaded_release \<Rightarrow> instant \<Rightarrow> preflight_check list" where
  "live_evidence_checks release now = (case ld_live_evidence release of
     None \<Rightarrow> [(''live_evidence'', False)]
   | Some e \<Rightarrow>
       [(''live_evidence_freshness'', aged_within now (le_verified_at e)
           (hours (lv_evidence_max_age_hours (rl_live (ld_config release))))),
        (''live_health_evidence_freshness'', aged_within now (le_verified_at e)
           (ms (rh_freshness_ms (rl_health (ld_config release))))),
        (''live_model_access_and_pricing'', list_all (evidence_matches e) (enabled_models release))])"

text \<open>
  Whether the token bounds of the release fit every enabled model: the first that does not fit ends the
  check, and a model without long-context pricing that is reached is a \<^verbatim>\<open>TypeError\<close>.
\<close>

fun token_bounds_fit :: "operational_limits \<Rightarrow> (string \<times> model_entry) list \<Rightarrow> bool res" where
  "token_bounds_fit l [] = Inr True"
| "token_bounds_fit l ((alias, m) # rest) =
     (if \<not> (ol_max_output_tokens l \<le> me_max_output_tokens m
          \<and> ol_max_input_tokens l + ol_max_output_tokens l \<le> me_context_window_tokens m) then Inr False
      else (case pr_long_context (me_pricing m) of
          None \<Rightarrow> Inl TypeError
        | Some p \<Rightarrow> if ol_max_input_tokens l \<le> lc_input_tokens_gt p then token_bounds_fit l rest else Inr False))"

definition live_checks :: "release_digests \<Rightarrow> loaded_release \<Rightarrow> process_environment \<Rightarrow> runtime_evidence \<Rightarrow> instant
    \<Rightarrow> preflight_check list res" where
  "live_checks rd release env runtime now =
     (let c = ld_config release; name = lv_credential_env (rl_live c) in
      if \<not> release_live c then Inr [(''live_execution'', True)]
      else bind_res (token_bounds_fit (rl_limits c) (enabled_models release)) (\<lambda>fit.
        Inr ([(''live_runtime_opt_in'', env ''RUN_LIVE_OPENAI_TESTS'' = Some ''1''),
              (''live_credential_evidence'', (case (ld_live_evidence release, env name) of
                  (Some e, Some v) \<Rightarrow> rd_text rd v = le_credential_sha256 e | _ \<Rightarrow> False)),
              (''provider_credentials'', present env name)]
             @ live_evidence_checks release now
             @ [(''catalog_live_verification'',
                   vf_live_account_probe_performed (cat_verification (pb_catalog (ld_policy_bundle release)))),
                (''live_health'', set (map (\<lambda>(alias, m). ''provider:'' @ alias) (enabled_models release)
                     @ (if op_live_classifier (rl_operations c) then [''classifier''] else []))
                   \<subseteq> set (re_healthy_components runtime)),
                (''model_token_bounds'', fit)])))"

section \<open>Preflight\<close>

definition release_bounded :: "operational_limits \<Rightarrow> bool" where
  "release_bounded l = (dec_le (ol_task_cost_ceiling_usd l) (ol_application_cost_ceiling_usd l)
     \<and> ol_provider_timeout_ms l \<le> ol_task_deadline_ms l
     \<and> 0 < al_max_total_generation_attempts (ol_actions l)
     \<and> bk_initial_ms (ol_backoff l) \<le> bk_maximum_ms (ol_backoff l))"

definition health_ready :: "release_config \<Rightarrow> runtime_evidence \<Rightarrow> instant \<Rightarrow> bool" where
  "health_ready c runtime now = (let h = rl_health c in
     re_health_ready runtime \<and> re_health_config_version runtime = Some (rh_config_version h)
     \<and> (case re_health_observed_at runtime of None \<Rightarrow> False
        | Some t \<Rightarrow> aged_within now t (ms (rh_freshness_ms h)))
     \<and> set (rh_required_components h) \<subseteq> set (re_healthy_components runtime))"

definition base_checks :: "release_digests \<Rightarrow> loaded_release \<Rightarrow> process_environment \<Rightarrow> runtime_evidence \<Rightarrow> instant
    \<Rightarrow> preflight_check list" where
  "base_checks rd release env runtime now =
     (let c = ld_config release; ops = rl_operations c; d = rl_database c in
      [(''manifest'', True), (''policy_reference'', True),
       (''policy_activation_status'', \<not> (op_execute ops \<or> op_live_provider ops \<or> op_live_classifier ops)
          \<or> policy_is_active (ld_policy_bundle release)),
       (''auth_configuration'', list_all (\<lambda>s. scope_enabled ops s \<longrightarrow> s \<in> set (ac_required_scopes (rl_auth c))) all_scopes),
       (''auth_credentials'', (case parse_application_credentials rd release env of None \<Rightarrow> False
          | Some records \<Rightarrow> records \<noteq> [])),
       (''database_url'', present env (dc_url_env d)),
       (''database_connectivity'', re_database_reachable runtime
          \<and> (case re_database_dialect runtime of None \<Rightarrow> False | Some x \<Rightarrow> x \<in> set (dc_allowed_dialects d))),
       (''database_migration'', re_database_revision runtime = Some (dc_required_migration_revision d)),
       (''outbox'', re_outbox_ready runtime),
       (''health'', health_ready c runtime now),
       (''evaluators'', set (ec_required_refs (rl_evaluators c)) \<subseteq> set (re_evaluator_refs runtime)),
       (''retention'', True),
       (''operational_limits'', release_bounded (rl_limits c))])"

definition resolved_credentials :: "release_digests \<Rightarrow> loaded_release \<Rightarrow> process_environment \<Rightarrow> application_credential list" where
  "resolved_credentials rd release env = (case parse_application_credentials rd release env of
     None \<Rightarrow> [] | Some records \<Rightarrow> records)"

definition execution_checks :: "release_digests \<Rightarrow> loaded_release \<Rightarrow> process_environment \<Rightarrow> preflight_check list" where
  "execution_checks rd release env = (let b = ld_policy_bundle release in
     if \<not> op_execute (rl_operations (ld_config release)) then []
     else [(''policy_execution_authorization'', bl_live_execution_enabled (bd_limits (bud_defaults (pb_budgets b))) = Some True),
           (''policy_recovery_limits'', recovery_is_finite b),
           (''policy_runtime_limits'', policy_limits_match_runtime release (resolved_credentials rd release env))])"

definition classifier_checks :: "loaded_release \<Rightarrow> preflight_check list" where
  "classifier_checks release = (let c = ld_config release in
     if \<not> op_live_classifier (rl_operations c) then []
     else [(''classifier'', (case ld_classifier_config release of None \<Rightarrow> False
        | Some k \<Rightarrow> kc_status k = Active \<and> kc_live_enabled k
            \<and> kc_max_output_tokens k \<le> ol_max_output_tokens (rl_limits c)
            \<and> kc_timeout_ms k \<le> ol_provider_timeout_ms (rl_limits c)))])"

definition preflight :: "release_digests \<Rightarrow> loaded_release \<Rightarrow> process_environment \<Rightarrow> runtime_evidence \<Rightarrow> instant
    \<Rightarrow> preflight_report res" where
  "preflight rd release env runtime now =
     bind_res (live_checks rd release env runtime now) (\<lambda>live.
     let checks = base_checks rd release env runtime now @ execution_checks rd release env @ live
           @ classifier_checks release;
         blockers = map fst (filter (\<lambda>c. \<not> snd c) checks)
     in Inr \<lparr>pp_release_id = rl_release_id (ld_config release), pp_release_sha256 = ld_release_sha256 release,
          pp_checked_at = now, pp_ready = (blockers = []), pp_enabled_operations = enabled_operations release,
          pp_checks = checks, pp_blockers = blockers\<rparr>)"

section \<open>Activation\<close>

definition operation_scope :: "operations \<Rightarrow> string" where
  "operation_scope o' =
     (if op_classify_route o' \<and> \<not> op_live_provider o' then ''paid classifier-only routing preview; generation disabled''
      else if op_live_classifier o' then ''standard-text V0 live classifier and generation''
      else if op_live_provider o' then ''standard-text V0 live generation''
      else ''authenticated route/read/health service; provider execution disabled'')"

datatype activation_error = Activation_blocked preflight_report | Report_exists | Activation_raised router_error

type_synonym report_store = "(string \<times> activation_report) list"

definition activation_report_of :: "release_digests \<Rightarrow> loaded_release \<Rightarrow> preflight_report \<Rightarrow> activation_report" where
  "activation_report_of rd release p = (let ops = rl_operations (ld_config release) in
     \<lparr>ar_paid_classifier_enabled = Some (op_live_classifier ops),
      ar_activation_id = rd_activation rd (ld_release_sha256 release) (pp_checked_at p) (pp_enabled_operations p) (pp_checks p),
      ar_release_id = rl_release_id (ld_config release), ar_release_sha256 = ld_release_sha256 release,
      ar_activated_at = pp_checked_at p, ar_enabled_operations = pp_enabled_operations p,
      ar_operation_scope = operation_scope ops, ar_live_execution_enabled = op_live_provider ops,
      ar_manifest = ld_manifest release, ar_checks = pp_checks p\<rparr>)"

text \<open>An existing path is never overwritten.\<close>

definition persist_immutable :: "string \<Rightarrow> activation_report \<Rightarrow> report_store \<Rightarrow> (activation_error + unit) \<times> report_store" where
  "persist_immutable path report store =
     (if path \<in> set (map fst store) then (Inl Report_exists, store) else (Inr (), store @ [(path, report)]))"

definition activate :: "release_digests \<Rightarrow> loaded_release \<Rightarrow> process_environment \<Rightarrow> runtime_evidence \<Rightarrow> instant
    \<Rightarrow> string option \<Rightarrow> report_store \<Rightarrow> (activation_error + activation_report) \<times> report_store" where
  "activate rd release env runtime now path store =
     (case preflight rd release env runtime now of
        Inl e \<Rightarrow> (Inl (Activation_raised e), store)
      | Inr p \<Rightarrow>
          if \<not> pp_ready p then (Inl (Activation_blocked p), store)
          else (let report = activation_report_of rd release p in
            case path of None \<Rightarrow> (Inr report, store)
            | Some name \<Rightarrow> (case persist_immutable name report store of
                (Inl e, store') \<Rightarrow> (Inl e, store') | (Inr _, store') \<Rightarrow> (Inr report, store'))))"

end
