(* ===== verification/ReleaseRuntime.thy ===== *)
theory ReleaseRuntime
  imports Activation ExecutionContracts
begin

text \<open>
  The composition of a service from an activated release, \<^verbatim>\<open>release/runtime.py\<close>: the evidence collected
  from the local dependencies, the acceptance of the activation receipt, and what each application gets,
  its scopes, its environment snapshot, its limits and its allocations. Opening the database and making
  the HTTP application are left to the caller: what the repository reports is an argument, \<open>None\<close> when
  looking at it raises. The clock is read once, where the source reads it again a moment later.
\<close>

section \<open>Evidence\<close>

record repository_report =
  ro_dialect :: dialect
  ro_revision :: "string option"
  ro_ready :: bool

definition live_components :: "loaded_release \<Rightarrow> instant \<Rightarrow> string list" where
  "live_components release now = (case ld_live_evidence release of None \<Rightarrow> []
     | Some e \<Rightarrow> let age = now - le_verified_at e in
         if 0 \<le> age \<and> age < ms (rh_freshness_ms (rl_health (ld_config release)))
         then map (\<lambda>(alias, m). ''provider:'' @ alias) (le_models e)
           @ (if op_live_classifier (rl_operations (ld_config release)) then [''classifier''] else [])
         else [])"

definition collect_evidence :: "loaded_release \<Rightarrow> repository_report option \<Rightarrow> instant \<Rightarrow> runtime_evidence" where
  "collect_evidence release report now = (case report of None \<Rightarrow> no_runtime_evidence
     | Some r \<Rightarrow>
         let h = rl_health (ld_config release);
             healthy = [''configuration'', ''database''] @ (if ro_ready r then [''telemetry''] else [])
               @ live_components release now in
         \<lparr>re_database_reachable = True, re_database_dialect = Some (ro_dialect r), re_database_revision = ro_revision r,
          re_outbox_ready = ro_ready r, re_health_ready = (set (rh_required_components h) \<subseteq> set healthy),
          re_health_config_version = Some (rh_config_version h),
          re_health_observed_at = Some (case ld_live_evidence release of None \<Rightarrow> now | Some e \<Rightarrow> le_verified_at e),
          re_healthy_components = healthy, re_evaluator_refs = []\<rparr>)"

section \<open>The receipt\<close>

definition receipt_matches :: "loaded_release \<Rightarrow> activation_report \<Rightarrow> bool" where
  "receipt_matches release receipt = (ar_release_sha256 receipt = ld_release_sha256 release
     \<and> ar_release_id receipt = rl_release_id (ld_config release)
     \<and> ar_manifest receipt = ld_manifest release
     \<and> list_all snd (ar_checks receipt))"

definition receipt_complete :: "release_digests \<Rightarrow> loaded_release \<Rightarrow> activation_report \<Rightarrow> preflight_report \<Rightarrow> instant \<Rightarrow> bool" where
  "receipt_complete rd release receipt report now = (let ops = rl_operations (ld_config release) in
     ar_activation_id receipt = rd_activation rd (ar_release_sha256 receipt) (ar_activated_at receipt)
       (ar_enabled_operations receipt) (ar_checks receipt)
     \<and> ar_activated_at receipt \<le> now
     \<and> ar_enabled_operations receipt = pp_enabled_operations report
     \<and> (case ar_paid_classifier_enabled receipt of None \<Rightarrow> True | Some paid \<Rightarrow> paid = op_live_classifier ops)
     \<and> ar_live_execution_enabled receipt = op_live_provider ops
     \<and> map fst (ar_checks receipt) = map fst (pp_checks report))"

section \<open>Applications\<close>

definition release_execution_limits :: "operational_limits \<Rightarrow> execution_limits" where
  "release_execution_limits l =
     \<lparr>xl_max_total_generation_attempts = al_max_total_generation_attempts (ol_actions l),
      xl_max_quality_escalations = al_max_quality_escalations (ol_actions l),
      xl_max_infrastructure_retries = al_max_infrastructure_retries (ol_actions l),
      xl_max_tool_recoveries = al_max_tool_recoveries (ol_actions l), xl_max_elapsed_ms = ol_task_deadline_ms l,
      xl_initial_backoff_ms = bk_initial_ms (ol_backoff l), xl_max_backoff_ms = bk_maximum_ms (ol_backoff l),
      xl_task_cost_ceiling_usd = ol_task_cost_ceiling_usd l\<rparr>"

text \<open>The last argument is what the guard of the release answers when the snapshot is taken.\<close>

definition release_snapshot :: "loaded_release \<Rightarrow> string \<Rightarrow> instant \<Rightarrow> bool \<Rightarrow> environment" where
  "release_snapshot release app now guard =
     (let c = ld_config release; l = rl_limits c; e = ld_live_evidence release;
          live = op_live_provider (rl_operations c) in
      \<lparr>env_snapshot_id = ld_release_sha256 release, env_synthetic = False, env_clock = now,
       env_pricing_version = cat_catalog_version (pb_catalog (ld_policy_bundle release)),
       env_health_snapshot_id = map_option le_evidence_id e,
       env_health_observed_at = map_option le_verified_at e,
       env_health_valid_until = map_option (\<lambda>x. le_verified_at x + ms (rh_freshness_ms (rl_health c))) e,
       env_models = (case e of None \<Rightarrow> [] | Some x \<Rightarrow> map (\<lambda>(alias, m). (alias,
          \<lparr>mh_state = HEALTHY, mh_account_access = Access_verified, mh_usable = True\<rparr>)) (le_models x)),
       env_budget = no_limits\<lparr>lim_task_cost_ceiling_usd := Some (ol_task_cost_ceiling_usd l),
          lim_task_deadline_ms := Some (ol_task_deadline_ms l), lim_live_execution_enabled := Some live\<rparr>,
       env_remaining_usd = None, env_trusted_application_id = Some app, env_application_overlay = None,
       env_application_overlay_version = None, env_validation = [], env_required_evaluator_cost_usd = None,
       env_required_domain_validator_cost_usd = None, env_required_tool_charge = False,
       env_required_tool_charge_usd = None, env_requested_validation = None, env_minimum_next_action_ms = None,
       env_latency_source = None, env_recovery_bounded = live, env_durable_retention = (live \<and> guard)\<rparr>)"

record released_application =
  rp_application_id :: string
  rp_credential_digest :: string
  rp_scopes :: "service_scope list"
  rp_environment :: "instant \<Rightarrow> bool \<Rightarrow> environment"
  rp_limits :: execution_limits
  rp_authorized :: bool
  rp_allocation_id :: string
  rp_application_ceiling_usd :: decimal
  rp_task_ceiling_usd :: decimal
  rp_preview_allocation :: "(string \<times> nat) option"

text \<open>A credential for disabled operations only leaves no scope, which the application record refuses.\<close>

definition release_application :: "loaded_release \<Rightarrow> application_credential \<Rightarrow> released_application option" where
  "release_application release credential =
     (let c = ld_config release; l = rl_limits c; ops = rl_operations c;
          scopes = filter (scope_enabled ops) (apc_scopes credential) in
      if scopes = [] then None
      else Some \<lparr>rp_application_id = apc_application_id credential,
        rp_credential_digest = apc_credential_digest credential, rp_scopes = scopes,
        rp_environment = release_snapshot release (apc_application_id credential),
        rp_limits = release_execution_limits l, rp_authorized = op_execute ops, rp_allocation_id = ol_allocation_id l,
        rp_application_ceiling_usd = ol_application_cost_ceiling_usd l, rp_task_ceiling_usd = ol_task_cost_ceiling_usd l,
        rp_preview_allocation = (if op_classify_route ops
          then map_option (Pair (ol_allocation_id l @ '':classify-route'')) (ol_max_preview_records l) else None)\<rparr>)"

definition build_app :: "release_digests \<Rightarrow> loaded_release \<Rightarrow> activation_report \<Rightarrow> process_environment
    \<Rightarrow> repository_report option \<Rightarrow> instant \<Rightarrow> activation_error + released_application list" where
  "build_app rd release receipt env report now =
     (if \<not> receipt_matches release receipt then Inl (Activation_raised ValueError)
      else (case preflight rd release env (collect_evidence release report now) now of
          Inl e \<Rightarrow> Inl (Activation_raised e)
        | Inr p \<Rightarrow>
            if \<not> pp_ready p then Inl (Activation_blocked p)
            else if \<not> receipt_complete rd release receipt p now then Inl (Activation_raised ValueError)
            else (let records = map (release_application release) (resolved_credentials rd release env)
              in if None \<in> set records then Inl (Activation_raised ValueError) else Inr (map the records))))"

end
