(* ===== verification/ReleaseFacts.thy ===== *)
theory ReleaseFacts
  imports ReleaseRuntime Budgets
begin

text \<open>
  Facts about releases: what loading pins, which credentials a source text resolves to, that the names
  of the preflight checks depend on the release only, that a ready preflight means that each of them
  passed, and how the limits of a ready release go through the resolution of the effective limits.
\<close>

section \<open>Loading\<close>

lemma load_release_Inr:
  assumes "load_release files = Inr release"
  shows "release_config_ok (ld_config release) \<and> rf_manifest files = Some (ld_config release)
    \<and> pb_content_hash (ld_policy_bundle release) = pn_content_sha256 (rl_policy (ld_config release))
    \<and> policy_versions_of (ld_policy_bundle release) = pn_versions (rl_policy (ld_config release))
    \<and> rf_bundle files (pn_directory (rl_policy (ld_config release))) = Inr (ld_policy_bundle release)
    \<and> load_evidence files (lv_evidence (rl_live (ld_config release))) = Inr (ld_live_evidence release)
    \<and> load_classifier files (lv_classifier_config (rl_live (ld_config release))) (ld_policy_bundle release)
        = Inr (ld_classifier_config release)"
  using assms by (auto simp: load_release_def bind_res_Inr_iff loaded_or_refused_def Let_def split: option.splits)

lemma release_config_references:
  assumes "release_config_ok c"
  shows "release_live c \<Longrightarrow> lv_evidence (rl_live c) \<noteq> None"
    and "op_live_classifier (rl_operations c) \<Longrightarrow> lv_classifier_config (rl_live c) \<noteq> None"
  using assms by (simp_all add: release_config_ok_def Let_def)

lemma load_evidence_Some:
  assumes "load_evidence files (Some f) = Inr e"
  shows "\<exists>x. e = Some x \<and> live_evidence_ok x \<and> le_evidence_id x = fi_version f
    \<and> rf_digest files (fi_path f) = Some (fi_sha256 f)"
  using assms by (auto simp: load_evidence_def bind_res_Inr_iff loaded_or_refused_def
      eq_commute [of "Some _" "rf_evidence files (fi_path f)"] split: option.splits)

lemma load_classifier_Some:
  assumes "load_classifier files (Some f) b = Inr k"
  shows "\<exists>x. k = Some x \<and> rf_classifier files (fi_path f) b = Inr x \<and> kc_configuration_hash x = fi_sha256 f
    \<and> kc_version x = fi_version f"
  using assms by (auto simp: load_classifier_def bind_res_Inr_iff)

section \<open>Credentials\<close>

definition credential_ok :: "release_digests \<Rightarrow> auth_config \<Rightarrow> process_environment \<Rightarrow> application_credential \<Rightarrow> bool" where
  "credential_ok rd a env c = (trimmed (apc_application_id c) \<and> apc_scopes c \<noteq> []
     \<and> set (apc_scopes c) \<subseteq> set (ac_required_scopes a)
     \<and> (\<exists>token. token_ok (ac_minimum_token_bytes a) token \<and> apc_credential_digest c = rd_text rd token))"

lemma resolve_source_Some:
  assumes "resolve_source rd a env (app, source) records = Some records'" and "auth_application_source_ok source"
  shows "\<exists>c. records' = records @ [c] \<and> apc_application_id c = app \<and> credential_ok rd a env c
    \<and> apc_credential_digest c \<notin> set (map apc_credential_digest records)"
  using assms by (auto simp: resolve_source_def credential_ok_def auth_application_source_ok_def Let_def
      split: if_splits option.splits)

lemma resolve_sources_Some:
  assumes "resolve_sources rd a env sources records = Some records'"
    and "list_all (auth_application_source_ok \<circ> snd) sources"
    and "distinct (map apc_credential_digest records)" "list_all (credential_ok rd a env) records"
  shows "map apc_application_id records' = map apc_application_id records @ map fst sources
    \<and> distinct (map apc_credential_digest records') \<and> list_all (credential_ok rd a env) records'"
  using assms
proof (induction sources arbitrary: records)
  case Nil
  then show ?case by simp
next
  case (Cons entry rest)
  obtain app source where entry: "entry = (app, source)" by (cases entry)
  obtain next_records where step: "resolve_source rd a env (app, source) records = Some next_records"
    and rest: "resolve_sources rd a env rest next_records = Some records'"
    using Cons.prems(1) by (auto simp: entry bind_eq_Some_conv)
  obtain c where c: "next_records = records @ [c]" "apc_application_id c = app" "credential_ok rd a env c"
    "apc_credential_digest c \<notin> set (map apc_credential_digest records)"
    using resolve_source_Some [OF step] Cons.prems(2) by (auto simp: entry)
  from Cons.IH [OF rest] Cons.prems(2-4) c show ?case by (simp add: entry)
qed

lemma sources_of_json_Some:
  assumes "sources_of_json j = Some sources"
  shows "distinct (map fst sources) \<and> list_all (auth_application_source_ok \<circ> snd) sources"
proof -
  obtain m where j: "j = JMap m" and keys: "distinct (map fst m)"
    and all: "None \<notin> set (map (\<lambda>(app, v). map_option (Pair app) (source_of_json v)) m)"
    and sources: "sources = map the (map (\<lambda>(app, v). map_option (Pair app) (source_of_json v)) m)"
    using assms by (cases j) (auto simp: sources_of_json_def Let_def split: if_splits)
  have named: "map fst sources = map fst m"
    using all unfolding sources by (induction m) (auto split: option.splits)
  have "auth_application_source_ok a" if "source_of_json v = Some a" for v a
    using that by (auto simp: source_of_json_def Let_def split: option.splits if_splits)
  then have "list_all (auth_application_source_ok \<circ> snd) sources"
    using all unfolding sources by (induction m) (auto split: option.splits)
  with named keys show ?thesis by simp
qed

lemma parse_application_credentials_Some:
  assumes "parse_application_credentials rd release env = Some records"
  defines "a \<equiv> rl_auth (ld_config release)"
  shows "records \<noteq> [] \<and> distinct (map apc_application_id records) \<and> distinct (map apc_credential_digest records)
    \<and> list_all (credential_ok rd a env) records
    \<and> set (concat (map apc_scopes records)) = set (ac_required_scopes a)"
proof -
  obtain encoded j entry sources where j: "rd_parse rd encoded = Some j" "sources_of_json j = Some (entry # sources)"
    and records: "resolve_sources rd a env (entry # sources) [] = Some records"
    and covered: "set (ac_required_scopes a) \<subseteq> set (concat (map apc_scopes records))"
    using assms(1) unfolding a_def
    by (auto simp: parse_application_credentials_def Let_def bind_eq_Some_conv split: option.splits list.splits if_splits)
  note sources_of_json_Some [OF j(2)]
  with resolve_sources_Some [OF records] have
    facts: "map apc_application_id records = map fst (entry # sources)" "distinct (map fst (entry # sources))"
      "distinct (map apc_credential_digest records)" "list_all (credential_ok rd a env) records" by simp_all
  moreover from facts(4) have "set (concat (map apc_scopes records)) \<subseteq> set (ac_required_scopes a)"
    by (auto simp: list_all_iff credential_ok_def)
  ultimately show ?thesis using covered by (cases records) auto
qed

section \<open>Preflight\<close>

lemma preflight_ready:
  assumes "preflight rd release env runtime now = Inr p" "pp_ready p"
  shows "list_all snd (pp_checks p)"
    and "list_all snd (base_checks rd release env runtime now)" "list_all snd (execution_checks rd release env)"
    and "\<exists>live. live_checks rd release env runtime now = Inr live \<and> list_all snd live"
    and "list_all snd (classifier_checks release)"
proof -
  obtain live where live: "live_checks rd release env runtime now = Inr live"
    and p: "pp_checks p = base_checks rd release env runtime now @ execution_checks rd release env @ live
        @ classifier_checks release" "pp_ready p = (map fst (filter (\<lambda>c. \<not> snd c) (pp_checks p)) = [])"
    using assms(1) by (auto simp: preflight_def bind_res_Inr_iff Let_def)
  show all: "list_all snd (pp_checks p)"
    using assms(2) unfolding p(2) by (simp add: filter_empty_conv list_all_iff)
  show "list_all snd (base_checks rd release env runtime now)" "list_all snd (execution_checks rd release env)"
    "\<exists>live. live_checks rd release env runtime now = Inr live \<and> list_all snd live"
    "list_all snd (classifier_checks release)"
    using all live unfolding p(1) by simp_all
qed

lemma preflight_readyI:
  assumes "list_all snd (base_checks rd release env runtime now)" "list_all snd (execution_checks rd release env)"
    "live_checks rd release env runtime now = Inr live" "list_all snd live" "list_all snd (classifier_checks release)"
  shows "\<exists>p. preflight rd release env runtime now = Inr p \<and> pp_ready p"
proof -
  have "filter (\<lambda>c. \<not> snd c) (base_checks rd release env runtime now @ execution_checks rd release env @ live
      @ classifier_checks release) = []"
    using assms by (auto simp: filter_empty_conv list_all_iff)
  then show ?thesis by (simp add: preflight_def assms(3) Let_def del: filter_append)
qed

lemma live_evidence_names:
  "map fst (live_evidence_checks release now) = map fst (live_evidence_checks release now')"
  by (simp add: live_evidence_checks_def split: option.split)

lemma live_names:
  assumes "live_checks rd release env runtime now = Inr a" "live_checks rd release env' runtime' now' = Inr b"
  shows "map fst a = map fst b"
  using assms live_evidence_names [of release now now']
  by (auto simp: live_checks_def Let_def bind_res_Inr_iff split: if_splits)

lemma preflight_names:
  assumes "preflight rd release env runtime now = Inr p" "preflight rd release env' runtime' now' = Inr p'"
  shows "map fst (pp_checks p) = map fst (pp_checks p')" "pp_enabled_operations p = pp_enabled_operations p'"
proof -
  obtain a b where lives: "live_checks rd release env runtime now = Inr a" "live_checks rd release env' runtime' now' = Inr b"
    and p: "pp_checks p = base_checks rd release env runtime now @ execution_checks rd release env @ a @ classifier_checks release"
      "pp_checks p' = base_checks rd release env' runtime' now' @ execution_checks rd release env' @ b @ classifier_checks release"
    using assms by (auto simp: preflight_def bind_res_Inr_iff Let_def)
  have "map fst (base_checks rd release env runtime now) = map fst (base_checks rd release env' runtime' now')"
    by (simp add: base_checks_def Let_def)
  moreover have "map fst (execution_checks rd release env) = map fst (execution_checks rd release env')"
    by (simp add: execution_checks_def Let_def)
  ultimately show "map fst (pp_checks p) = map fst (pp_checks p')"
    using live_names [OF lives] by (simp add: p)
  show "pp_enabled_operations p = pp_enabled_operations p'"
    using assms by (auto simp: preflight_def bind_res_Inr_iff Let_def)
qed

lemma live_checks_passed:
  assumes "live_checks rd release env runtime now = Inr live" "list_all snd live" "release_live (ld_config release)"
  shows "env ''RUN_LIVE_OPENAI_TESTS'' = Some ''1''
    \<and> (\<exists>e key. ld_live_evidence release = Some e \<and> env (lv_credential_env (rl_live (ld_config release))) = Some key
         \<and> rd_text rd key = le_credential_sha256 e
         \<and> aged_within now (le_verified_at e) (hours (lv_evidence_max_age_hours (rl_live (ld_config release))))
         \<and> list_all (evidence_matches e) (enabled_models release))
    \<and> token_bounds_fit (rl_limits (ld_config release)) (enabled_models release) = Inr True"
  using assms by (auto simp: live_checks_def live_evidence_checks_def Let_def bind_res_Inr_iff split: if_splits option.splits)

lemma token_bounds_fit_True:
  "token_bounds_fit l models = Inr True \<longleftrightarrow> list_all (\<lambda>(alias, m). ol_max_output_tokens l \<le> me_max_output_tokens m
     \<and> ol_max_input_tokens l + ol_max_output_tokens l \<le> me_context_window_tokens m
     \<and> (case pr_long_context (me_pricing m) of None \<Rightarrow> False
        | Some p \<Rightarrow> ol_max_input_tokens l \<le> lc_input_tokens_gt p)) models"
  by (induction l models rule: token_bounds_fit.induct) (auto split: option.splits)

lemma activate_Inr:
  assumes "activate rd release env runtime now path store = (Inr report, store')"
  shows "\<exists>p. preflight rd release env runtime now = Inr p \<and> pp_ready p \<and> report = activation_report_of rd release p
    \<and> (\<forall>name r. map_of store name = Some r \<longrightarrow> map_of store' name = Some r)"
  using assms by (auto simp: activate_def persist_immutable_def Let_def map_add_Some_iff
      split: sum.splits if_splits option.splits prod.splits)

lemma preflight_times:
  assumes "preflight rd release env runtime now = Inr p"
  shows "pp_checked_at p = now"
  using assms by (auto simp: preflight_def bind_res_Inr_iff Let_def)

section \<open>Limits\<close>

lemma money_equal_iff: "money_equal a b \<longleftrightarrow> (\<exists>d. b = Some d \<and> dval d = dval a)"
  by (auto simp: money_equal_def split: option.split)

lemma tighten_fields:
  assumes "tighten a b = Inr r"
  shows "lim_task_cost_ceiling_usd r = merge_bound dec_min (lim_task_cost_ceiling_usd a) (lim_task_cost_ceiling_usd b)"
    and "lim_live_execution_enabled r = merge_bound (\<and>) (lim_live_execution_enabled a) (lim_live_execution_enabled b)"
  using assms by (auto simp: tighten_def merge_limits_def split: if_splits)

definition worth :: "decimal option \<Rightarrow> rat option" where
  "worth = map_option dval"

lemma worth_Some [simp]: "worth (Some a) = Some (dval a)"
  by (simp add: worth_def)

lemma worth_merge:
  "worth a = Some v \<Longrightarrow> b = None \<or> worth b = Some v \<Longrightarrow> worth (merge_bound dec_min a b) = Some v"
  by (auto simp: worth_def merge_bound_def dec_min_def split: option.splits)

lemma live_merge:
  "a = Some True \<Longrightarrow> b \<noteq> Some False \<Longrightarrow> merge_bound (\<and>) a b = Some True"
  by (auto simp: merge_bound_def split: option.splits)

lemma normalize_limits_fields:
  assumes "normalize_limits b c = Inr l"
  shows "lim_task_cost_ceiling_usd l = bl_task_cost_ceiling_usd b"
    "lim_live_execution_enabled l = bl_live_execution_enabled b"
    "lim_period_spend_ceiling_usd l = bl_period_spend_ceiling_usd b"
  using assms by (auto simp: normalize_limits_def bind_res_Inr_iff)

lemma released_limits_exact:
  assumes matched: "base_limits_match release" "application_limits_match release app"
    and live: "op_live_provider (rl_operations (ld_config release))"
    and l: "resolve_limits r (release_snapshot release app now guard) (ld_policy_bundle release) = Inr l"
  defines "limits \<equiv> rl_limits (ld_config release)"
  shows "lim_task_cost_ceiling_usd (rq_constraints r) = None \<Longrightarrow>
      worth (lim_task_cost_ceiling_usd l) = Some (dval (ol_task_cost_ceiling_usd limits))"
    and "lim_live_execution_enabled (rq_constraints r) \<noteq> Some False \<Longrightarrow> lim_live_execution_enabled l = Some True"
proof -
  let ?b = "ld_policy_bundle release" and ?env = "release_snapshot release app now guard"
  let ?budget = "bd_limits (bud_defaults (pb_budgets ?b))" and ?v = "dval (ol_task_cost_ceiling_usd limits)"
  have env: "\<not> env_synthetic ?env" "env_application_overlay ?env = None" "env_trusted_application_id ?env = Some app"
    "lim_task_cost_ceiling_usd (env_budget ?env) = Some (ol_task_cost_ceiling_usd limits)"
    "lim_live_execution_enabled (env_budget ?env) = Some True"
    using live by (simp_all add: release_snapshot_def Let_def no_limits_def limits_def)
  from l obtain d e1 e2 where steps: "normalize_limits ?budget (pb_catalog ?b) = Inr d" "tighten d (env_budget ?env) = Inr e1"
    "(case configured_overlay ?env ?b of None \<Rightarrow> Inr e1
      | Some overlay \<Rightarrow> bind_res (normalize_limits overlay (pb_catalog ?b)) (tighten e1)) = Inr e2"
    "tighten e2 (rq_constraints r) = Inr l"
    by (auto simp: resolve_limits_def bind_res_Inr_iff env(1,2))
  have budget: "worth (bl_task_cost_ceiling_usd ?budget) = Some ?v" "bl_live_execution_enabled ?budget = Some True"
    using matched by (auto simp: base_limits_match_def application_limits_match_def Let_def money_equal_iff worth_def limits_def)
  have e1: "worth (lim_task_cost_ceiling_usd e1) = Some ?v" "lim_live_execution_enabled e1 = Some True"
    unfolding tighten_fields [OF steps(2)] normalize_limits_fields [OF steps(1)] env
    using budget by (auto intro: worth_merge live_merge simp: limits_def)
  have e2: "worth (lim_task_cost_ceiling_usd e2) = Some ?v \<and> lim_live_execution_enabled e2 = Some True"
  proof (cases "configured_overlay ?env ?b")
    case None
    then show ?thesis using steps(3) e1 by simp
  next
    case (Some overlay)
    then have app: "map_of (bud_applications (pb_budgets ?b)) app = Some overlay"
      by (simp add: configured_overlay_def env)
    obtain n where n: "normalize_limits overlay (pb_catalog ?b) = Inr n" "tighten e1 n = Inr e2"
      using steps(3) Some by (auto simp: bind_res_Inr_iff)
    have "bl_task_cost_ceiling_usd overlay = None \<or> worth (bl_task_cost_ceiling_usd overlay) = Some ?v"
      "bl_live_execution_enabled overlay \<noteq> Some False"
      using matched(2) by (auto simp: application_limits_match_def Let_def overlay_of_def app inherit_def money_equal_iff
          worth_def limits_def)
    then show ?thesis
      unfolding tighten_fields [OF n(2)] normalize_limits_fields [OF n(1)] using e1 by (auto intro: worth_merge live_merge)
  qed
  show "lim_task_cost_ceiling_usd (rq_constraints r) = None \<Longrightarrow> worth (lim_task_cost_ceiling_usd l) = Some ?v"
    unfolding tighten_fields [OF steps(4)] using e2 by (auto intro: worth_merge)
  show "lim_live_execution_enabled (rq_constraints r) \<noteq> Some False \<Longrightarrow> lim_live_execution_enabled l = Some True"
    unfolding tighten_fields [OF steps(4)] using e2 by (auto intro: live_merge)
qed

section \<open>The service of a release\<close>

lemma release_application_Some:
  assumes "release_application release c = Some a"
  defines "limits \<equiv> rl_limits (ld_config release)"
  shows "rp_application_id a = apc_application_id c" "rp_environment a = release_snapshot release (apc_application_id c)"
    "rp_task_ceiling_usd a = ol_task_cost_ceiling_usd limits"
    "rp_application_ceiling_usd a = ol_application_cost_ceiling_usd limits"
    "xl_max_elapsed_ms (rp_limits a) = ol_task_deadline_ms limits"
    "s \<in> set (rp_scopes a) \<Longrightarrow> scope_enabled (rl_operations (ld_config release)) s"
  using assms by (auto simp: release_application_def release_execution_limits_def Let_def split: if_splits)

lemma build_app_Inr:
  assumes "build_app rd release receipt env report now = Inr apps"
  shows "\<exists>p. preflight rd release env (collect_evidence release report now) now = Inr p \<and> pp_ready p
    \<and> (\<forall>a \<in> set apps. \<exists>c \<in> set (resolved_credentials rd release env). release_application release c = Some a)"
proof -
  let ?records = "map (release_application release) (resolved_credentials rd release env)"
  obtain p where p: "preflight rd release env (collect_evidence release report now) now = Inr p" "pp_ready p"
    and apps: "None \<notin> set ?records" "apps = map the ?records"
    using assms by (auto simp: build_app_def Let_def split: if_splits sum.splits)
  have "\<exists>c \<in> set (resolved_credentials rd release env). release_application release c = Some a" if "a \<in> set apps" for a
    using that apps by force
  with p show ?thesis by blast
qed

text \<open>The receipt of an activation is accepted as long as the release stays ready.\<close>

lemma activated_receipt_accepted:
  assumes "activate rd release env runtime now path store = (Inr receipt, store')" and later: "now \<le> later"
    and ready: "preflight rd release env' (collect_evidence release report later) later = Inr p" "pp_ready p"
  shows "receipt_matches release receipt" "receipt_complete rd release receipt p later"
    "ar_release_sha256 receipt = ld_release_sha256 release"
proof -
  obtain q where q: "preflight rd release env runtime now = Inr q" "pp_ready q" "receipt = activation_report_of rd release q"
    using activate_Inr [OF assms(1)] by blast
  show "receipt_matches release receipt" "ar_release_sha256 receipt = ld_release_sha256 release"
    using preflight_ready(1) [OF q(1,2)] by (simp_all add: receipt_matches_def q(3) activation_report_of_def Let_def)
  show "receipt_complete rd release receipt p later"
    using preflight_names [OF q(1) ready(1)] preflight_times [OF q(1)] later
    by (simp add: receipt_complete_def q(3) activation_report_of_def Let_def)
qed

lemma build_app_records:
  assumes "receipt_matches release receipt" "receipt_complete rd release receipt p now"
    and ready: "preflight rd release env (collect_evidence release report now) now = Inr p" "pp_ready p"
    and scoped: "\<And>c. c \<in> set (resolved_credentials rd release env) \<Longrightarrow>
      \<exists>s \<in> set (apc_scopes c). scope_enabled (rl_operations (ld_config release)) s"
  shows "build_app rd release receipt env report now
    = Inr (map (the \<circ> release_application release) (resolved_credentials rd release env))"
    and "c \<in> set (resolved_credentials rd release env) \<Longrightarrow> \<exists>a. release_application release c = Some a"
proof -
  have granted: "\<exists>a. release_application release c = Some a" if "c \<in> set (resolved_credentials rd release env)" for c
    using scoped [OF that] by (auto simp: release_application_def Let_def filter_empty_conv)
  then have "None \<notin> set (map (release_application release) (resolved_credentials rd release env))" by force
  then show "build_app rd release receipt env report now
      = Inr (map (the \<circ> release_application release) (resolved_credentials rd release env))"
    using assms(1,2) ready by (simp add: build_app_def Let_def)
  show "c \<in> set (resolved_credentials rd release env) \<Longrightarrow> \<exists>a. release_application release c = Some a"
    by (rule granted)
qed

lemma snapshot_within:
  assumes l: "resolve_limits r (release_snapshot release app clock guard) b = Inr l"
  defines "limits \<equiv> rl_limits (ld_config release)"
  shows "\<exists>task. lim_task_cost_ceiling_usd l = Some task \<and> dval task \<le> dval (ol_task_cost_ceiling_usd limits)"
    and "\<exists>deadline \<le> ol_task_deadline_ms limits. lim_task_deadline_ms l = Some deadline"
    and "bl_period_spend_ceiling_usd (bd_limits (bud_defaults (pb_budgets b))) = Some spend \<Longrightarrow>
      \<exists>spend'. lim_period_spend_ceiling_usd l = Some spend' \<and> dval spend' \<le> dval spend"
proof -
  have synthetic: "\<not> env_synthetic (release_snapshot release app clock guard)" by (simp add: release_snapshot_def Let_def)
  have "bound_stricter dec_le (lim_task_cost_ceiling_usd l) (Some (ol_task_cost_ceiling_usd limits))"
    "bound_stricter (\<le>) (lim_task_deadline_ms l) (Some (ol_task_deadline_ms limits))"
    using resolve_limits_strict(4) [OF l synthetic]
    by (simp_all add: stricter_def release_snapshot_def Let_def no_limits_def limits_def)
  then show "\<exists>task. lim_task_cost_ceiling_usd l = Some task \<and> dval task \<le> dval (ol_task_cost_ceiling_usd limits)"
    "\<exists>deadline \<le> ol_task_deadline_ms limits. lim_task_deadline_ms l = Some deadline"
    by (auto simp: bound_stricter_def split: option.splits)
  obtain d where d: "normalize_limits (bd_limits (bud_defaults (pb_budgets b))) (pb_catalog b) = Inr d" "stricter l d"
    using resolve_limits_strict(5) [OF l synthetic] by blast
  assume "bl_period_spend_ceiling_usd (bd_limits (bud_defaults (pb_budgets b))) = Some spend"
  then show "\<exists>spend'. lim_period_spend_ceiling_usd l = Some spend' \<and> dval spend' \<le> dval spend"
    using d(2) by (auto simp: stricter_def normalize_limits_fields [OF d(1)] bound_stricter_def split: option.splits)
qed

end
