(* ===== verification/ReleaseSamples.thy ===== *)
theory ReleaseSamples
  imports ReleaseFacts Samples
begin

text \<open>A release with live execution for one application, its files and the evidence of a ready deployment.\<close>

definition verified_model :: "model_entry \<Rightarrow> model_entry" where
  "verified_model m = m\<lparr>me_pricing := (me_pricing m)\<lparr>pr_status := Pricing_verified\<rparr>\<rparr>"

definition released_catalog :: catalog_document where
  "released_catalog = sample_catalog\<lparr>
     cat_verification := (cat_verification sample_catalog)\<lparr>vf_live_account_probe_performed := True\<rparr>,
     cat_models := map (\<lambda>(alias, m). (alias, verified_model m)) (cat_models sample_catalog)\<rparr>"

definition released_budgets :: budgets_document where
  "released_budgets = (let d = bud_defaults sample_budgets in sample_budgets\<lparr>
     bud_defaults := d\<lparr>bd_limits := (bd_limits d)\<lparr>bl_task_deadline_ms := Some 60,
       bl_period_spend_ceiling_usd := Some (Dec 100 0), bl_period := Some Period_day\<rparr>\<rparr>\<rparr>)"

definition released_bundle :: policy_bundle where
  "released_bundle = sample_bundle\<lparr>pb_catalog := released_catalog, pb_budgets := released_budgets,
     pb_content_hash := replicate 64 (CHR ''b'')\<rparr>"

definition release_manifest :: release_config where
  "release_manifest =
     \<lparr>rl_release_id = ''release-1'',
      rl_policy = \<lparr>pn_directory = ''policy'', pn_content_sha256 = replicate 64 (CHR ''b''),
        pn_versions = policy_versions_of released_bundle\<rparr>,
      rl_operations = \<lparr>op_classify_route = False, op_route = True, op_read = True, op_execute = True, op_health = False,
        op_live_provider = True, op_live_classifier = False, op_tools = False, op_shadow = False,
        op_modalities = [Modality_text], op_validation_profiles = [V0]\<rparr>,
      rl_limits = \<lparr>ol_max_preview_records = None, ol_allocation_id = ''a-1'', ol_application_cost_ceiling_usd = Dec 100 0,
        ol_task_cost_ceiling_usd = Dec 500 (- 1), ol_task_deadline_ms = 60, ol_provider_timeout_ms = 40,
        ol_max_input_tokens = 25, ol_max_output_tokens = 10, ol_max_concurrent_tasks = 2,
        ol_actions = \<lparr>al_max_total_generation_attempts = 4, al_max_quality_escalations = 2,
          al_max_infrastructure_retries = 2, al_max_tool_recoveries = 1\<rparr>,
        ol_backoff = \<lparr>bk_initial_ms = 1, bk_maximum_ms = 8\<rparr>\<rparr>,
      rl_auth = \<lparr>ac_credentials_env = ''APPS'', ac_required_scopes = [Scope_route, Scope_read, Scope_execute, Scope_health],
        ac_minimum_token_bytes = 32\<rparr>,
      rl_database = \<lparr>dc_url_env = ''DB'', dc_journal_path_env = ''JOURNAL'', dc_allowed_dialects = [Sqlite],
        dc_required_migration_revision = ''0004'', dc_connect_timeout_ms = 5, dc_pool_size = 2\<rparr>,
      rl_outbox = \<lparr>oc_batch_size = 1, oc_lease_ms = 1, oc_max_delivery_attempts = 1, oc_retry_backoff_ms = 1,
        oc_max_pending_events = 1\<rparr>,
      rl_evaluators = \<lparr>ec_required_refs = [], ec_timeout_ms = 1, ec_max_attempts = 1\<rparr>,
      rl_health = \<lparr>rh_config_version = ''h'', rh_required_components = [''database''], rh_freshness_ms = 3,
        rh_check_timeout_ms = 1, rh_failure_window_ms = 1, rh_failure_threshold = 1, rh_cooldown_ms = 1,
        rh_half_open_max_probes = 1, rh_recovery_success_threshold = 1, rh_max_probes_per_run = 1,
        rh_probe_timeout_ms = 1, rh_live_probes_enabled = False, rh_paid_probes_enabled = False\<rparr>,
      rl_retention = \<lparr>rn_task_metadata_days = 1, rn_idempotency_days = 1, rn_outbox_days = 1\<rparr>,
      rl_live = \<lparr>lv_credential_env = ''KEY'', lv_evidence = Some \<lparr>fi_path = ''evidence'', fi_sha256 = ''e'', fi_version = ''ev-1''\<rparr>,
        lv_evidence_max_age_hours = 1, lv_classifier_config = None, lv_classifier_input_overhead_tokens = 0\<rparr>\<rparr>"

definition model_evidence :: "model_entry \<Rightarrow> live_model_evidence" where
  "model_evidence m = (let p = me_pricing m in
     \<lparr>lm_provider_model_id = me_provider_model_id m, lm_pricing_version = pr_version p,
      lm_input_usd = the (pr_input_usd p), lm_cached_input_usd = the (pr_cached_input_usd p),
      lm_output_usd = the (pr_output_usd p), lm_cache_write_input_multiplier = the (pr_cache_write_input_multiplier p),
      lm_reasoning_efforts = me_reasoning_efforts m, lm_source_url = me_source_url m\<rparr>)"

definition release_evidence :: live_evidence where
  "release_evidence = \<lparr>le_credential_sha256 = replicate 64 (CHR ''a''), le_evidence_id = ''ev-1'', le_verified_at = 0,
     le_models = map (\<lambda>(alias, m). (alias, model_evidence m)) (bundle_models released_bundle)\<rparr>"

definition release_files_sample :: release_files where
  "release_files_sample = \<lparr>rf_manifest = Some release_manifest, rf_bundle = (\<lambda>_. Inr released_bundle),
     rf_digest = (\<lambda>_. Some ''e''), rf_evidence = (\<lambda>_. Some release_evidence),
     rf_classifier = (\<lambda>_ _. Inl ConfigurationError), rf_dump = (\<lambda>c. JString (rl_release_id c)),
     rf_hash = (\<lambda>j. ''hash'')\<rparr>"

definition sample_release :: loaded_release where
  "sample_release = \<lparr>ld_config = release_manifest, ld_policy_bundle = released_bundle, ld_release_sha256 = ''hash'',
     ld_manifest = JString ''release-1'', ld_live_evidence = Some release_evidence, ld_classifier_config = None\<rparr>"

definition release_sources :: json where
  "release_sources = JMap [(''client'', JMap [(''token_env'', JString ''TOKEN''),
     (''scopes'', JList [JString ''route'', JString ''read'', JString ''execute'', JString ''health''])])]"

definition release_secrets :: process_environment where
  "release_secrets = map_of [(''APPS'', ''sources''), (''TOKEN'', replicate 32 (CHR ''k'')), (''DB'', ''sqlite''), (''KEY'', ''key''),
     (''RUN_LIVE_OPENAI_TESTS'', ''1'')]"

definition release_hashes :: release_digests where
  "release_hashes = \<lparr>rd_parse = (\<lambda>s. if s = ''sources'' then Some release_sources else None),
     rd_text = (\<lambda>s. replicate 64 (CHR ''a'')), rd_activation = (\<lambda>sha now ops checks. ''activation-'' @ sha)\<rparr>"

definition ready_repository :: repository_report where
  "ready_repository = \<lparr>ro_dialect = Sqlite, ro_revision = Some ''0004'', ro_ready = True\<rparr>"

abbreviation sample_evidence_at :: "instant \<Rightarrow> runtime_evidence" where
  "sample_evidence_at now \<equiv> collect_evidence sample_release (Some ready_repository) now"

section \<open>Evaluation\<close>

lemma sample_release_loaded: "load_release release_files_sample = Inr sample_release"
proof -
  have "release_config_ok release_manifest" by code_simp
  moreover have "policy_versions_of released_bundle = pn_versions (rl_policy release_manifest)"
    "pb_content_hash released_bundle = pn_content_sha256 (rl_policy release_manifest)" by code_simp+
  moreover have "load_evidence release_files_sample (lv_evidence (rl_live release_manifest)) = Inr (Some release_evidence)"
  proof -
    have "live_evidence_ok release_evidence" "le_evidence_id release_evidence = ''ev-1''" by code_simp+
    then show ?thesis
      by (simp add: load_evidence_def release_manifest_def release_files_sample_def loaded_or_refused_def)
  qed
  moreover have "load_classifier release_files_sample (lv_classifier_config (rl_live release_manifest)) released_bundle = Inr None"
    by (simp add: load_classifier_def release_manifest_def)
  moreover have "rl_release_id release_manifest = ''release-1''" by (simp add: release_manifest_def)
  ultimately show ?thesis
    by (simp add: load_release_def loaded_or_refused_def Let_def sample_release_def release_files_sample_def)
qed

lemma sample_credentials:
  "parse_application_credentials release_hashes sample_release release_secrets = Some
     [\<lparr>apc_application_id = ''client'', apc_credential_digest = replicate 64 (CHR ''a''),
       apc_scopes = [Scope_route, Scope_read, Scope_execute, Scope_health]\<rparr>]"
  by code_simp

lemma sample_limits_match:
  "policy_limits_match_runtime sample_release (resolved_credentials release_hashes sample_release release_secrets)"
proof -
  have "base_limits_match sample_release" "application_limits_match sample_release ''client''" by code_simp+
  then show ?thesis by (simp add: policy_limits_match_runtime_def resolved_credentials_def sample_credentials)
qed

lemma sample_execution_checks: "list_all snd (execution_checks release_hashes sample_release release_secrets)"
proof -
  have "recovery_is_finite released_bundle"
    "bl_live_execution_enabled (bd_limits (bud_defaults (pb_budgets released_bundle))) = Some True" by code_simp+
  then show ?thesis
    using sample_limits_match by (simp add: execution_checks_def Let_def) (simp add: sample_release_def)
qed

lemma sample_token_bounds:
  "token_bounds_fit (rl_limits (ld_config sample_release)) (enabled_models sample_release) = Inr True"
  by code_simp

lemma sample_classifier_checks: "list_all snd (classifier_checks sample_release)"
  by code_simp

lemma sample_matches: "list_all (evidence_matches release_evidence) (enabled_models sample_release)"
  by code_simp

lemma sample_health_ready:
  "health_ready release_manifest (sample_evidence_at 1000) 1000" "health_ready release_manifest (sample_evidence_at 2000) 2000"
  by code_simp+

lemma sample_evidence_fields:
  "re_database_reachable (sample_evidence_at now)" "re_database_dialect (sample_evidence_at now) = Some Sqlite"
  "re_database_revision (sample_evidence_at now) = Some ''0004''" "re_outbox_ready (sample_evidence_at now)"
  by (simp_all add: collect_evidence_def ready_repository_def Let_def)

lemma sample_release_fields:
  "ld_config sample_release = release_manifest" "ld_policy_bundle sample_release = released_bundle"
  "ld_live_evidence sample_release = Some release_evidence"
  by (simp_all add: sample_release_def)

lemma sample_gates:
  "policy_is_active released_bundle" "release_bounded (rl_limits release_manifest)" "present release_secrets ''DB''"
  "present release_secrets ''KEY''" "vf_live_account_probe_performed (cat_verification (pb_catalog released_bundle))"
  "release_secrets ''RUN_LIVE_OPENAI_TESTS'' = Some ''1''" "release_secrets ''KEY'' = Some ''key''"
  by code_simp+

lemma sample_scopes:
  "list_all (\<lambda>s. scope_enabled (rl_operations release_manifest) s \<longrightarrow> s \<in> set (ac_required_scopes (rl_auth release_manifest))) all_scopes"
  by code_simp

lemma base_checks_passed:
  assumes "health_ready release_manifest (sample_evidence_at now) now"
  shows "list_all snd (base_checks release_hashes sample_release release_secrets (sample_evidence_at now) now)"
proof -
  have "rl_database release_manifest = \<lparr>dc_url_env = ''DB'', dc_journal_path_env = ''JOURNAL'', dc_allowed_dialects = [Sqlite],
      dc_required_migration_revision = ''0004'', dc_connect_timeout_ms = 5, dc_pool_size = 2\<rparr>"
    "ec_required_refs (rl_evaluators release_manifest) = []"
    by (simp_all add: release_manifest_def)
  then show ?thesis
    using assms sample_scopes
    by (simp add: base_checks_def Let_def sample_release_fields sample_credentials sample_evidence_fields sample_gates)
qed

lemma sample_live_health:
  "set (map (\<lambda>(alias, m). ''provider:'' @ alias) (enabled_models sample_release)) \<subseteq> set (re_healthy_components (sample_evidence_at 1000))"
  "set (map (\<lambda>(alias, m). ''provider:'' @ alias) (enabled_models sample_release)) \<subseteq> set (re_healthy_components (sample_evidence_at 2000))"
  by code_simp+

lemma live_checks_ready:
  assumes "set (map (\<lambda>(alias, m). ''provider:'' @ alias) (enabled_models sample_release))
      \<subseteq> set (re_healthy_components (sample_evidence_at now))" and "0 \<le> now" "now \<le> 3000"
  shows "\<exists>live. live_checks release_hashes sample_release release_secrets (sample_evidence_at now) now = Inr live \<and> list_all snd live"
proof -
  have fields: "release_live release_manifest" "lv_credential_env (rl_live release_manifest) = ''KEY''"
    "lv_evidence_max_age_hours (rl_live release_manifest) = 1" "rh_freshness_ms (rl_health release_manifest) = 3"
    "op_live_classifier (rl_operations release_manifest) = False" "le_verified_at release_evidence = 0"
    "rd_text release_hashes ''key'' = le_credential_sha256 release_evidence"
    by (simp_all add: release_manifest_def release_live_def release_evidence_def release_hashes_def)
  show ?thesis
    using assms sample_matches sample_token_bounds
    by (simp add: live_checks_def live_evidence_checks_def Let_def sample_release_fields sample_gates fields aged_within_def hours_def ms_def)
qed

lemma sample_preflight:
  "\<exists>p. preflight release_hashes sample_release release_secrets (sample_evidence_at 1000) 1000 = Inr p \<and> pp_ready p"
  "\<exists>p. preflight release_hashes sample_release release_secrets (sample_evidence_at 2000) 2000 = Inr p \<and> pp_ready p"
  using live_checks_ready [OF sample_live_health(1)] live_checks_ready [OF sample_live_health(2)]
  by (auto intro!: preflight_readyI base_checks_passed sample_health_ready sample_execution_checks sample_classifier_checks)

lemma sample_activated:
  obtains receipt where
    "activate release_hashes sample_release release_secrets (sample_evidence_at 1000) 1000 None [] = (Inr receipt, [])"
  using sample_preflight(1) by (auto simp: activate_def Let_def)

lemma sample_built:
  obtains receipt a where "build_app release_hashes sample_release receipt release_secrets (Some ready_repository) 2000 = Inr [a]"
    "rp_environment a = release_snapshot sample_release ''client''" "rp_task_ceiling_usd a = Dec 500 (- 1)"
proof -
  obtain receipt where receipt: "activate release_hashes sample_release release_secrets (sample_evidence_at 1000) 1000 None []
      = (Inr receipt, [])"
    by (rule sample_activated)
  obtain p where p: "preflight release_hashes sample_release release_secrets (sample_evidence_at 2000) 2000 = Inr p" "pp_ready p"
    using sample_preflight(2) by blast
  have scoped: "\<exists>s \<in> set (apc_scopes c). scope_enabled (rl_operations (ld_config sample_release)) s"
    if "c \<in> set (resolved_credentials release_hashes sample_release release_secrets)" for c
    using that by (auto simp: resolved_credentials_def sample_credentials scope_enabled_def sample_release_fields release_manifest_def)
  note accepted = activated_receipt_accepted(1,2) [OF receipt _ p]
  note built = build_app_records [OF accepted p scoped]
  obtain c a where c: "resolved_credentials release_hashes sample_release release_secrets = [c]" "apc_application_id c = ''client''"
    "release_application sample_release c = Some a"
    using built(2) by (auto simp: resolved_credentials_def sample_credentials)
  show thesis
    by (rule that [of receipt a]) (use built(1) release_application_Some [OF c(3)] in
      \<open>simp_all add: c sample_release_fields release_manifest_def\<close>)
qed

end
