(* ===== verification/ReleaseClaims.thy ===== *)
theory ReleaseClaims
  imports ReleaseSamples
begin

text \<open>The properties of releases, with their witnesses: loading, credentials, activation, the receipt and the limits.\<close>

text \<open>
  C20. A loaded release is well formed and pinned: its manifest satisfies every validator, the policy bundle has
  the content hash and the four versions that it names, and a live release carries the evidence, and a live
  classifier the configuration, whose hash and version it names.
\<close>

theorem release_pinned:
  assumes "load_release files = Inr release"
  shows "let c = ld_config release; b = ld_policy_bundle release in
    release_config_ok c \<and> rf_manifest files = Some c
    \<and> pb_content_hash b = pn_content_sha256 (rl_policy c) \<and> policy_versions_of b = pn_versions (rl_policy c)
    \<and> (release_live c \<longrightarrow> (\<exists>f e. lv_evidence (rl_live c) = Some f \<and> ld_live_evidence release = Some e
         \<and> rf_digest files (fi_path f) = Some (fi_sha256 f) \<and> le_evidence_id e = fi_version f \<and> live_evidence_ok e))
    \<and> (op_live_classifier (rl_operations c) \<longrightarrow> (\<exists>f k. lv_classifier_config (rl_live c) = Some f
         \<and> ld_classifier_config release = Some k \<and> kc_configuration_hash k = fi_sha256 f \<and> kc_version k = fi_version f))"
proof -
  note loaded = load_release_Inr [OF assms]
  let ?c = "ld_config release"
  have "\<exists>f e. lv_evidence (rl_live ?c) = Some f \<and> ld_live_evidence release = Some e
      \<and> rf_digest files (fi_path f) = Some (fi_sha256 f) \<and> le_evidence_id e = fi_version f \<and> live_evidence_ok e"
    if live: "release_live ?c"
  proof -
    obtain f where f: "lv_evidence (rl_live ?c) = Some f"
      using release_config_references(1) [OF _ live] loaded by blast
    with loaded load_evidence_Some [of files f] show ?thesis by metis
  qed
  moreover have "\<exists>f k. lv_classifier_config (rl_live ?c) = Some f \<and> ld_classifier_config release = Some k
      \<and> kc_configuration_hash k = fi_sha256 f \<and> kc_version k = fi_version f" if live: "op_live_classifier (rl_operations ?c)"
  proof -
    obtain f where f: "lv_classifier_config (rl_live ?c) = Some f"
      using release_config_references(2) [OF _ live] loaded by blast
    with loaded load_classifier_Some [of files f] show ?thesis by metis
  qed
  ultimately show ?thesis using loaded by (simp add: Let_def)
qed

theorem release_pinned_witness:
  "release_config_ok release_manifest \<and> ld_live_evidence sample_release \<noteq> None"
  using release_pinned [OF sample_release_loaded] by (auto simp: Let_def sample_release_fields)

text \<open>
  The credentials that a source text resolves to belong to distinct applications with distinct digests, each
  the digest of a token of the required length, and together they have exactly the scopes the release requires.
\<close>

theorem credentials_sound:
  assumes "parse_application_credentials rd release env = Some records"
  shows "let a = rl_auth (ld_config release) in
    records \<noteq> [] \<and> distinct (map apc_application_id records) \<and> distinct (map apc_credential_digest records)
    \<and> (\<forall>c \<in> set records. apc_scopes c \<noteq> [] \<and> trimmed (apc_application_id c)
         \<and> (\<exists>token. ac_minimum_token_bytes a \<le> length token \<and> apc_credential_digest c = rd_text rd token))
    \<and> set (concat (map apc_scopes records)) = set (ac_required_scopes a)"
  using parse_application_credentials_Some [OF assms]
  by (auto simp: Let_def list_all_iff credential_ok_def token_ok_def)

theorem credentials_sound_witness:
  "set (concat (map apc_scopes (resolved_credentials release_hashes sample_release release_secrets)))
     = {Scope_route, Scope_read, Scope_execute, Scope_health}"
  using credentials_sound [OF sample_credentials]
  by (simp add: Let_def resolved_credentials_def sample_credentials)

text \<open>
  C17. Activation fails closed: a report means that every check passed, and for a live release that the operator
  opted in, the evidence is fresh and of the very credential in use, and it matches identity, access and prices
  of every enabled model, whose limits hold the token bounds. A report that was stored before is kept.
\<close>

theorem activation_fail_closed:
  assumes "activate rd release env runtime now path store = (Inr report, store')"
  shows "list_all snd (ar_checks report) \<and> ar_activated_at report = now
    \<and> (op_execute (rl_operations (ld_config release)) \<longrightarrow> policy_is_active (ld_policy_bundle release)
         \<and> bl_live_execution_enabled (bd_limits (bud_defaults (pb_budgets (ld_policy_bundle release)))) = Some True)
    \<and> (release_live (ld_config release) \<longrightarrow> env ''RUN_LIVE_OPENAI_TESTS'' = Some ''1''
         \<and> (\<exists>e key. ld_live_evidence release = Some e \<and> env (lv_credential_env (rl_live (ld_config release))) = Some key
              \<and> rd_text rd key = le_credential_sha256 e
              \<and> aged_within now (le_verified_at e) (hours (lv_evidence_max_age_hours (rl_live (ld_config release))))
              \<and> list_all (evidence_matches e) (enabled_models release))
         \<and> token_bounds_fit (rl_limits (ld_config release)) (enabled_models release) = Inr True)
    \<and> (\<forall>name r. map_of store name = Some r \<longrightarrow> map_of store' name = Some r)"
proof -
  obtain p where p: "preflight rd release env runtime now = Inr p" "pp_ready p" "report = activation_report_of rd release p"
    and kept: "\<forall>name r. map_of store name = Some r \<longrightarrow> map_of store' name = Some r"
    using activate_Inr [OF assms] by blast
  note ready = preflight_ready [OF p(1,2)]
  obtain live where live: "live_checks rd release env runtime now = Inr live" "list_all snd live"
    using ready(4) by blast
  note live_checks_passed [OF live]
  moreover have "ar_checks report = pp_checks p" "ar_activated_at report = now"
    using preflight_times [OF p(1)] by (simp_all add: p(3) activation_report_of_def Let_def)
  moreover have "op_execute (rl_operations (ld_config release)) \<longrightarrow> policy_is_active (ld_policy_bundle release)
      \<and> bl_live_execution_enabled (bd_limits (bud_defaults (pb_budgets (ld_policy_bundle release)))) = Some True"
    using ready(2,3) by (auto simp: base_checks_def execution_checks_def Let_def split: if_splits)
  ultimately show ?thesis using ready(1) kept by simp
qed

theorem activation_fail_closed_witness:
  "release_secrets ''RUN_LIVE_OPENAI_TESTS'' = Some ''1'' \<and> policy_is_active released_bundle"
proof -
  obtain receipt where "activate release_hashes sample_release release_secrets (sample_evidence_at 1000) 1000 None []
      = (Inr receipt, [])"
    by (rule sample_activated)
  from activation_fail_closed [OF this]
  show ?thesis by (simp add: sample_release_fields release_manifest_def release_live_def)
qed





text \<open>
  The gate of the deadlines is one-sided. It compares the release with the overlay of the application, as if the
  overlay replaced the default; but an overlay only tightens. Here the overlay has the deadline of the release, the
  gate passes, and the router enforces the shorter default.
\<close>

definition lenient_bundle :: policy_bundle where
  "lenient_bundle = released_bundle\<lparr>pb_budgets := (let x = released_budgets; d = bud_defaults x in
     x\<lparr>bud_defaults := d\<lparr>bd_limits := (bd_limits d)\<lparr>bl_task_deadline_ms := Some 40\<rparr>\<rparr>,
       bud_applications := [(''client'', \<lparr>bl_model_tier_floor = None, bl_model_tier_ceiling = None,
         bl_task_cost_ceiling_usd = None, bl_task_deadline_ms = Some 60, bl_period_spend_ceiling_usd = None,
         bl_period = None, bl_live_execution_enabled = None\<rparr>)]\<rparr>)\<rparr>"

definition lenient_release :: loaded_release where
  "lenient_release = sample_release\<lparr>ld_policy_bundle := lenient_bundle\<rparr>"

lemma deadline_gate_one_sided:
  "bundle_ok lenient_bundle
   \<and> policy_limits_match_runtime lenient_release (resolved_credentials release_hashes sample_release release_secrets)
   \<and> (case resolve_limits sample_request (release_snapshot lenient_release ''client'' 2000 True) lenient_bundle of
        Inl e \<Rightarrow> False | Inr l \<Rightarrow> lim_task_deadline_ms l = Some 40)
   \<and> ol_task_deadline_ms (rl_limits (ld_config lenient_release)) = 60"
proof (intro conjI)
  show "bundle_ok lenient_bundle" by code_simp
  have "base_limits_match lenient_release" "application_limits_match lenient_release ''client''" by code_simp+
  then show "policy_limits_match_runtime lenient_release (resolved_credentials release_hashes sample_release release_secrets)"
    by (simp add: policy_limits_match_runtime_def resolved_credentials_def sample_credentials)
  show "case resolve_limits sample_request (release_snapshot lenient_release ''client'' 2000 True) lenient_bundle of
        Inl e \<Rightarrow> False | Inr l \<Rightarrow> lim_task_deadline_ms l = Some 40"
    unfolding resolve_limits_def bind_res_def by code_simp
  show "ol_task_deadline_ms (rl_limits (ld_config lenient_release)) = 60" by code_simp
qed

text \<open>
  Preflight is not total: a live release that enables a model without long-context pricing, which the catalog admits,
  gets a \<^verbatim>\<open>TypeError\<close> and no report, whatever the other checks would have said.
\<close>

lemma preflight_type_error:
  assumes "release_live (ld_config release)" "enabled_models release = (alias, m) # rest"
    and "pr_long_context (me_pricing m) = None"
    and "ol_max_output_tokens (rl_limits (ld_config release)) \<le> me_max_output_tokens m"
    "ol_max_input_tokens (rl_limits (ld_config release)) + ol_max_output_tokens (rl_limits (ld_config release))
       \<le> me_context_window_tokens m"
  shows "preflight rd release env runtime now = Inl TypeError"
  using assms by (simp add: preflight_def live_checks_def Let_def bind_res_def)

end
