(* ===== verification/Spec2Isabelle.thy ===== *)
theory Spec2Isabelle
  imports ExecutionClaims HealthClaims OrchestratorClaims StoreClaims PreviewClaims SemanticClaims ReleaseClaims
begin

text \<open>
  A verification development for the model router in \<^verbatim>\<open>src/model_router\<close>.

  \<^bold>\<open>The program.\<close> The router turns a request, a classification of it, a snapshot of the environment
  and a bundle of configuration documents into one decision: which model, at which effort, under
  which limits and validation requirements, or why none. Around it, the execution side runs the
  decision: admission control gates each action, budget authorities reserve and settle money, the
  recovery policy proposes one bounded next step for a failure, and the health service turns
  observations into the health evidence that routing reads.

  \<^bold>\<open>The parts and their theories\<close>, in the order of their imports:
  \<^item> \<open>Prelude\<close>: errors as values (\<open>router_error\<close>, \<open>'a res\<close>), ordered de-duplication, shared facts and rule
    collections.
  \<^item> \<open>Decimals\<close>: Python's decimal arithmetic with contexts, and \<^verbatim>\<open>execution/arithmetic.py\<close>, with
    the facts that say when an operation is exact and when it only rounds up.
  \<^item> \<open>Contracts\<close>: the records and enumerations of \<^verbatim>\<open>core/contracts.py\<close>.
  \<^item> \<open>Configuration\<close>, \<open>Bundle\<close>: the document classes of \<^verbatim>\<open>core/configuration.py\<close>, their validators,
    and what an accepted bundle guarantees (\<open>bundle_ok\<close>).
  \<^item> \<open>Capabilities\<close>, \<open>Budgets\<close>, \<open>Costs\<close>, \<open>Modifiers\<close>, \<open>ValidationPolicy\<close>: one theory for each policy
    module under \<^verbatim>\<open>policy/\<close>: \<^verbatim>\<open>check_capabilities\<close>; \<^verbatim>\<open>resolve_limits\<close> and \<^verbatim>\<open>check_budget\<close>;
    \<^verbatim>\<open>estimate_cost\<close> and \<^verbatim>\<open>first_unfunded_charge\<close>; \<^verbatim>\<open>build_candidates\<close>; \<^verbatim>\<open>determine_validation\<close>.
  \<^item> \<open>Router\<close>: \<^verbatim>\<open>router.py\<close>, statement by statement, and the short specification \<open>route_spec\<close> that it
    refines. \<open>Samples\<close>: the concrete bundle on which the witnesses run.
  \<^item> \<open>ExecutionContracts\<close>, \<open>Recovery\<close>: \<^verbatim>\<open>core/execution_contracts.py\<close> and
    \<^verbatim>\<open>escalation/recovery.py\<close> (\<^verbatim>\<open>choose_recovery\<close> with its three failure programs).
  \<^item> \<open>Admission\<close>, \<open>Ledger\<close>, \<open>MemoryBudget\<close>: \<^verbatim>\<open>execution/admission.py\<close>. \<open>Ledger\<close> states the port
    \<^verbatim>\<open>BudgetAuthority\<close> as the locale \<open>ledger\<close>; \<open>MemoryBudget\<close> interprets it on
    \<^verbatim>\<open>MemoryBudgetAuthority\<close>.
  \<^item> \<open>MoneyText\<close>, \<open>SqlBudget\<close>: \<^verbatim>\<open>storage/budget.py\<close>, the second interpretation of \<open>ledger\<close>, over the
    budget tables of \<^verbatim>\<open>storage/models.py\<close> and the write session of \<^verbatim>\<open>storage/repository.py\<close>.
  \<^item> \<open>Health\<close>, \<open>HealthFacts\<close>: \<^verbatim>\<open>health/service.py\<close> as a state machine whose events are observations and
    probe requests, with the reachable states as an inductive predicate.
  \<^item> \<open>ExecutionClaims\<close>, \<open>HealthClaims\<close>, \<open>OrchestratorClaims\<close>, \<open>StoreClaims\<close>, \<open>PreviewClaims\<close>,
    \<open>SemanticClaims\<close>, \<open>ReleaseClaims\<close> and this theory hold the properties C1 to C40 and their witnesses.
  \<^item> \<open>TaskContracts\<close>: the records of one execution from \<^verbatim>\<open>core/execution_contracts.py\<close> and
    \<^verbatim>\<open>core/provider_contracts.py\<close>, and \<^verbatim>\<open>execution/lifecycle.py\<close>.
  \<^item> \<open>Actions\<close>: steps that change a state and may raise, and their weakest preconditions (collection
    \<open>wp\<close>). \<open>Execution\<close>: the injected dependencies and the state of one \<^verbatim>\<open>_Execution\<close>.
  \<^item> \<open>OutputValidation\<close>: \<^verbatim>\<open>validation/v0.py\<close> and \<^verbatim>\<open>execution/accounting.py\<close>.
  \<^item> \<open>Orchestrator\<close>, \<open>Dispatch\<close>: \<^verbatim>\<open>execution/orchestrator.py\<close>: the helpers of \<^verbatim>\<open>_Execution\<close>, then
    \<^verbatim>\<open>generate\<close>, \<^verbatim>\<open>run_tools\<close>, \<^verbatim>\<open>run\<close> and \<^verbatim>\<open>execute\<close>.
  \<^item> \<open>ExecutionLogic\<close>: which steps only read and record (collection \<open>clerical_steps\<close>).
    \<open>ExecutionFacts\<close>, \<open>ExecutionSteps\<close>: the invariant of a run (\<open>good\<close>), the points of a running task
    and triples about them. \<open>AttemptFacts\<close>, \<open>GenerateFacts\<close>, \<open>ToolFacts\<close>, \<open>RunFacts\<close>: the triples of
    validation, of an attempt, of the tools and of the run, up to \<open>execute_spec\<close>.
  \<^item> \<open>MockAdapters\<close>: \<^verbatim>\<open>execution/clock.py\<close>, \<^verbatim>\<open>execution/provider.py\<close> and \<^verbatim>\<open>execution/tools.py\<close>, a
    world composed of them, and sample runs. \<open>OrchestratorClaims\<close> holds the properties of a run.
  \<^item> \<open>Histories\<close>: histories of a store whose operations anyone may call, as a locale.
  \<^item> \<open>StoredTasks\<close>, \<open>TaskStore\<close>, \<open>TaskOutbox\<close>, \<open>VersionStore\<close>: \<^verbatim>\<open>storage/repository.py\<close> over the tables of
    \<^verbatim>\<open>storage/models.py\<close>: dumped records and their progress; creating and saving; outbox, journal and
    readiness; pinned versions. \<open>ProgressFacts\<close>, \<open>TableFacts\<close>, \<open>StoreFacts\<close>, \<open>StoreSteps\<close>: the schema
    (\<open>wf_db\<close>) and the relation \<open>extends\<close> that every operation respects. \<open>StoreHistory\<close> interprets
    \<open>histories\<close>. \<open>SaveFacts\<close>, \<open>LeaseFacts\<close>, \<open>JournalFacts\<close>, \<open>StoreSamples\<close>, \<open>StoreClaims\<close>: the
    properties of the repository.
  \<^item> \<open>Json\<close>: JSON values and their canonical form. \<open>Classifier\<close>, \<open>ClassifierFacts\<close>:
    \<^verbatim>\<open>classification/classifier.py\<close>: the binding of a configuration, the wire format and the single
    invocation. \<open>LiveAdmission\<close>, \<open>LiveFacts\<close>: \<^verbatim>\<open>execution/live.py\<close> and the price that covers an invocation.
  \<^item> \<open>Preview\<close>, \<open>PreviewFacts\<close>: \<^verbatim>\<open>execution/preview.py\<close>, with rules that execute a step symbolically for
    every answer of the dependencies. \<open>PreviewStore\<close>: \<^verbatim>\<open>storage/previews.py\<close>, the second interpretation of
    \<open>histories\<close>. \<open>PreviewSamples\<close>, \<open>PreviewClaims\<close>: a sample run and the properties.
  \<^item> \<open>Semantic\<close>, \<open>SemanticFacts\<close>: \<^verbatim>\<open>validation/semantic.py\<close> with the evaluator bindings of
    \<^verbatim>\<open>core/phase4_contracts.py\<close> and \<^verbatim>\<open>policy/phase4.py\<close>. \<open>SemanticSamples\<close>, \<open>SemanticClaims\<close>: the
    scripted doubles, a sample configuration and the properties.
  \<^item> \<open>ReleaseSchema\<close>: \<^verbatim>\<open>release/schema.py\<close> and \<^verbatim>\<open>release/loader.py\<close>; \<open>Activation\<close>:
    \<^verbatim>\<open>release/activation.py\<close>; \<open>ReleaseRuntime\<close>: \<^verbatim>\<open>release/runtime.py\<close>. \<open>ReleaseFacts\<close> shows what loading
    and preflight establish, \<open>ReleaseSamples\<close> runs a live release, \<open>ReleaseClaims\<close> holds the properties.

  \<^bold>\<open>How code corresponds to definitions.\<close> A class is a record, an enumeration a datatype, a method or
  function one definition; a long function is cut at its statements into definitions that are composed
  in the same order. An exception is a value \<open>Inl e\<close>; a method that changes its object returns the new
  state. Where a method holds a lock or runs in one write session it is one step.

  \<^bold>\<open>What is shown.\<close> C1 to C3: a selected route meets
  every hard constraint, its quotes fit the budget, and an executable decision is certified in every
  respect. C4 to C8: a run of a task calls the provider and the
  tools only for what is reserved and recorded, spends within its ceiling, succeeds only with validated
  output, always ends, and does bounded work. C9 to C14: what a
  classifier answers is either refused or planned, a live reservation covers
  the worst price, a preview spends once, settles what it saved and is claimed once. C15 and
  C16: what evaluators and domain validators reply is judged exactly and contained.
  C17 to C20: a release is pinned to its documents, is activated only when every
  gate holds, its receipt round-trips, and the router enforces its ceilings. C21 to C28: the task
  repository keeps its schema and every piece of evidence over all histories, creates and saves once,
  delivers events under exclusive leases, and its journal recovers exactly what was uncertain.
  C29 to C31: the router answers whenever some model is open, fails only in
  named ways, and refines its specification. C32 and C33: quotes never
  undercut the exact price, planning is sound and complete. C34 and
  C35: recovery is total and replays nothing unsafe.
  C36 and C37: amounts survive storage, the durable authority never
  overspends. C38 to C40: the circuit breaker's invariant, what
  closing takes, and that routing respects the projected evidence. Theorems without a claim id say more of the
  same kind, among them that overlays only tighten limits, that quality escalations climb a finite ladder and
  fallbacks keep the floors, that an open circuit waits out its cooldown, that confidence never influences the route, that settlement arithmetic and fixed-point
  quotes are exact, that validation requirements are closed and fail closed, that admission is characterised
  exactly and that reservations are idempotent.

  A run is a function of the dependencies, which are functions of an arbitrary state of the outside
  world, so C4 to C8 hold for every behaviour of the provider, the storage, the authority, the clock,
  the checks and the tools, adapters that raise included. The bounds of the two loops are the limits
  of the task plus one; C7 says that they are never met.


  \<^bold>\<open>Bounds.\<close> The only depth bound is the one of \<open>visit\<close> in \<open>ValidationPolicy\<close>: four nested profiles, as
  many as there are levels; on an accepted bundle it is never met (\<open>validation_requirements_sound\<close>). Decimal
  precision is the precision the code chooses; the interpreter's default context (28 digits, half
  even) is used where the code sums in it. Counts are natural numbers, Python integers \<open>int\<close>, floats
  the rationals they are, aware datetimes integers of microseconds.

  \<^bold>\<open>Parameters.\<close> Digests and the content hash (stored, never inspected), the readings of the clock, the
  probe implementations of an adapter, and what the storage does during a call (\<open>store_outcome\<close>) are
  arguments of the definitions that use them.

  \<^bold>\<open>Not modelled.\<close> Exception messages and guards against values of a wrong Python type; frozen
  containers and (de)serialisation; YAML loading; creation timestamps that no code reads; the sign of a
  decimal zero; infinities and NaNs, which validators exclude. The branches of the
  orchestrator for live authorization, semantic evaluation and shadow experiments, the pinned
  operational configuration of a task (a digest), the third-party provider client, telemetry, calibration,
  the canaries and the command line of a release, shadow routing and the HTTP service are not modelled.
\<close>

section \<open>The routing decision\<close>

text \<open>
  C1. A selected route meets every hard constraint: the model is an enabled model of the catalog
  with the selected effort, it can serve the request, it lies within the effective tier bounds
  and at or above the plan's hard floor, and no health evidence excludes it. The recorded limits
  are the resolved ones.
\<close>

theorem route_selected_permitted:
  assumes b: "bundle_ok b" and r: "route dg r c env b recovery = Inr (Decision d)"
  shows "\<exists>m plan. map_of (bundle_models b) (rt_selected_model_alias d) = Some m
     \<and> rt_model_tier d = me_tier_rank m \<and> rt_provider_model_id d = me_provider_model_id m
     \<and> rt_reasoning_effort d \<in> set (me_reasoning_efforts m)
     \<and> resolve_limits r env b = Inr (db_effective_limits d)
     \<and> build_candidates c b (db_effective_limits d) = Inr plan
     \<and> permitted r env b (db_effective_limits d) plan (rt_selected_model_alias d) m"
  by (rule route_Decision [OF b r]) (use decide_Decision in \<open>metis item_of_fields(1,2)\<close>)

theorem route_selected_permitted_witness:
  "\<exists>d m plan. route sample_digests capped_request plain_classification sample_environment sample_bundle None
       = Inr (Decision d)
     \<and> permitted capped_request sample_environment sample_bundle (db_effective_limits d) plan
         (rt_selected_model_alias d) m"
  using decision_withD [OF capped_route] route_selected_permitted [OF sample_bundle_ok] by metis

text \<open>
  C2. The budget of a selected route: the expected quote breaks no hard bound, so that its amount
  is within a set task ceiling and its generation cost within a known balance, and when the quote
  counts on cache reads, the quote for a cache miss breaks none either.
\<close>

theorem route_quotes_fit:
  assumes b: "bundle_ok b" and r: "route dg r c env b recovery = Inr (Decision d)"
  defines "l \<equiv> db_effective_limits d" and "v \<equiv> rt_validation_requirements d"
  shows "\<not> over_ceiling l (charged_amount (rt_estimated_cost d))
     \<and> (env_remaining_usd env \<noteq> None \<longrightarrow>
          dval (ce_generation_subtotal (rt_estimated_cost d)) \<le> dval (the (env_remaining_usd env)))
     \<and> (cache_read_tokens (rq_context r) \<noteq> 0 \<longrightarrow>
          (\<exists>m miss. map_of (bundle_models b) (rt_selected_model_alias d) = Some m
             \<and> miss = estimate_cost (dg_quote dg) (cache_miss_request r) m env v catalog_currency
             \<and> fs_violations (check_budget miss l env) = []))"
  unfolding l_def v_def
proof (rule route_Decision [OF b r])
  fix ctx plan0 and cand :: candidate and m codes details
  assume m: "map_of (bundle_models b) (cand_model cand) = Some m" and aff: "affordable dg ctx m"
    and ctx: "rc_request ctx = r" "rc_env ctx = env"
    and d: "decide ctx codes details (item_of dg ctx cand m) = Inr (Decision d)"
  note fields = decide_Decision [OF d]
  have hit: "fs_violations (check_budget (rt_estimated_cost d) (db_effective_limits d) env) = []"
    and miss: "cache_read_tokens (rq_context r) \<noteq> 0 \<Longrightarrow> fs_violations (check_budget
        (quote dg ctx (cache_miss_request r) m) (db_effective_limits d) env) = []"
    using aff ctx fields(5,7) by (auto simp: affordable_def Let_def)
  show "\<not> over_ceiling (db_effective_limits d) (charged_amount (rt_estimated_cost d))
     \<and> (env_remaining_usd env \<noteq> None \<longrightarrow>
          dval (ce_generation_subtotal (rt_estimated_cost d)) \<le> dval (the (env_remaining_usd env)))
     \<and> (cache_read_tokens (rq_context r) \<noteq> 0 \<longrightarrow>
          (\<exists>m miss. map_of (bundle_models b) (rt_selected_model_alias d) = Some m
             \<and> miss = estimate_cost (dg_quote dg) (cache_miss_request r) m env
                 (rt_validation_requirements d) catalog_currency
             \<and> fs_violations (check_budget miss (db_effective_limits d) env) = []))"
    using check_budget_no_violation [OF hit] miss m fields(1,8) ctx by (auto simp: quote_def)
qed

theorem route_quotes_fit_witness:
  "\<exists>d. route sample_digests capped_request plain_classification sample_environment sample_bundle None
       = Inr (Decision d)
     \<and> \<not> over_ceiling (db_effective_limits d) (charged_amount (rt_estimated_cost d))"
  using decision_withD [OF capped_route] route_quotes_fit [OF sample_bundle_ok] by metis

text \<open>
  C3. An executable decision is fully certified: the price is known and within a configured task
  ceiling, a known balance covers every charge, live execution is enabled, the deadline leaves
  room for the next action, the account of the model is verified, the health snapshot is
  versioned and fresh, recovery is bounded and retention durable, no validation requirement is
  open, no period ceiling is unverified and no side-effecting tool is involved.
\<close>

theorem route_executable_certified:
  assumes b: "bundle_ok b" and r: "route dg r c env b recovery = Inr (Decision d)" and x: "rt_executable d"
  shows "ce_status (rt_estimated_cost d) = Cost_known
     \<and> (\<exists>ceil. lim_task_cost_ceiling_usd (db_effective_limits d) = Some ceil
          \<and> dval (charged_amount (rt_estimated_cost d)) \<le> dval ceil)
     \<and> (env_remaining_usd env \<noteq> None \<longrightarrow>
          dval (ce_known_subtotal (rt_estimated_cost d)) \<le> dval (the (env_remaining_usd env)))
     \<and> lim_live_execution_enabled (db_effective_limits d) = Some True
     \<and> (\<exists>deadline. lim_task_deadline_ms (db_effective_limits d) = Some deadline
          \<and> (env_minimum_next_action_ms env \<noteq> None \<longrightarrow> the (env_minimum_next_action_ms env) \<le> deadline))
     \<and> (\<exists>h. map_of (env_models env) (rt_selected_model_alias d) = Some h \<and> mh_account_access h = Access_verified)
     \<and> \<not> snapshot_stale env \<and> env_health_snapshot_id env \<noteq> None
     \<and> env_recovery_bounded env \<and> env_durable_retention env
     \<and> vr_blockers (rt_validation_requirements d) = []
     \<and> lim_period_spend_ceiling_usd (db_effective_limits d) = None \<and> \<not> rq_side_effecting_tool r"
proof (rule route_Decision [OF b r])
  fix ctx plan0 and cand :: candidate and m codes details
  assume aff: "affordable dg ctx m" and ctx: "rc_request ctx = r" "rc_env ctx = env"
    and d: "decide ctx codes details (item_of dg ctx cand m) = Inr (Decision d)"
  note fields = decide_Decision [OF d]
  have ready: "readiness_blockers ctx (item_of dg ctx cand m) = []" using x fields(6) by simp
  then have bl: "fs_blockers (check_budget (rt_estimated_cost d) (db_effective_limits d) env) = []"
    using ctx fields(5,7) by (simp add: readiness_blockers_Nil_iff budget_of_blockers)
  have vi: "fs_violations (check_budget (rt_estimated_cost d) (db_effective_limits d) env) = []"
    using aff ctx fields(5,7) by (auto simp: affordable_def Let_def)
  have "\<exists>h. map_of (env_models env) (rt_selected_model_alias d) = Some h \<and> mh_account_access h = Access_verified"
    using ready fields(1) ctx
    by (auto simp: readiness_blockers_Nil_iff account_unverified_def split: option.splits)
  then show ?thesis
    using ready check_budget_clear [OF vi bl] fields(7,8) ctx by (auto simp: readiness_blockers_Nil_iff)
qed

theorem route_executable_certified_witness:
  "\<exists>d. route sample_digests capped_request plain_classification sample_environment sample_bundle None
       = Inr (Decision d) \<and> rt_executable d \<and> ce_status (rt_estimated_cost d) = Cost_known"
  using decision_withD [OF capped_route] route_executable_certified [OF sample_bundle_ok] by metis



text \<open>
  C30. Failure of the router: on an accepted bundle it raises an \<open>InputError\<close> or a
  \<open>ConfigurationError\<close> and nothing else. No lookup fails, no list is indexed out of range, no
  recursion runs away, whatever the request, the snapshot and the recovery candidates.
\<close>

theorem route_failures:
  assumes "bundle_ok b" and "route dg r c env b recovery = Inl e"
  shows "e \<in> {InputError, ConfigurationError}"
  using route_error [OF assms] by simp

theorem route_failures_witness:
  "route sample_digests (capped_request\<lparr>rq_policy_version := Some ''router-v2''\<rparr>) plain_classification
       sample_environment sample_bundle None = Inl InputError
     \<and> InputError \<in> {InputError, ConfigurationError}"
proof -
  have "route sample_digests (capped_request\<lparr>rq_policy_version := Some ''router-v2''\<rparr>) plain_classification
       sample_environment sample_bundle None = Inl InputError"
    by (simp add: route_def prepare_def capped_request_def sample_bundle_def sample_policy_def)
  from this route_failures [OF sample_bundle_ok this] show ?thesis by blast
qed

text \<open>
  A preferred floor is relaxed only with evidence: when the selected tier lies below a
  matched preferred floor, the waiver names the rule and the blocking constraints, the decision
  carries the code, and every feasible candidate that would have met the floor fails its own
  certification.
\<close>

theorem route_floor_waiver:
  assumes r: "route dg r c env b recovery = Inr (Decision d)"
    and f: "f \<in> set (rd_floors (db_rationale_details d))" "fe_strength f = Strength_preferred"
      "rt_model_tier d < fe_min_tier f"
  shows "fe_rule_id f \<in> set (rd_floor_waiver_rules (db_rationale_details d))
     \<and> rd_floor_waiver_constraints (db_rationale_details d) \<noteq> []
     \<and> ''FLOOR_RELAXED'' \<in> set (db_rationale_codes d)
     \<and> (\<exists>ctx as. prepare dg r c env b recovery = Inr ctx
          \<and> map_res (assess dg ctx) (plan_candidates (rc_plan ctx)) = Inr as
          \<and> (\<forall>i \<in> set (feasible_items as). fe_min_tier f \<le> item_rank i \<longrightarrow> candidate_blockers i \<noteq> []))"
proof -
  obtain ctx where ctx: "prepare dg r c env b recovery = Inr ctx" "select_route dg ctx = Inr (Decision d)"
    using r by (auto simp: route_def bind_res_Inr_iff)
  show ?thesis using select_route_waiver [OF ctx(2) f] ctx(1) by metis
qed

theorem route_floor_waiver_witness:
  "\<exists>d f. route sample_digests capped_request wide_classification sample_environment sample_bundle None
       = Inr (Decision d) \<and> f \<in> set (rd_floors (db_rationale_details d))
     \<and> fe_rule_id f \<in> set (rd_floor_waiver_rules (db_rationale_details d))"
proof -
  obtain d where d: "route sample_digests capped_request wide_classification sample_environment sample_bundle None
      = Inr (Decision d)" "rt_model_tier d = 0 \<and> list_ex (\<lambda>f. fe_strength f = Strength_preferred
        \<and> 0 < fe_min_tier f) (rd_floors (db_rationale_details d))"
    using decision_withD [OF relaxed_route] by blast
  then obtain f where "f \<in> set (rd_floors (db_rationale_details d))" "fe_strength f = Strength_preferred"
    "rt_model_tier d < fe_min_tier f" by (auto simp: list_ex_iff)
  with route_floor_waiver [OF d(1)] d(1) show ?thesis by blast
qed

text \<open>
  Classifier confidence is recorded and changes nothing else: two classifications that differ
  in their confidence only lead to the same outcome, the same selected route with the same price,
  requirements and blockers or the same refusal, or to the same error.
\<close>

theorem route_confidence_independent:
  assumes "bundle_ok b"
  shows "map_sum id outcome_of (route dg r (c\<lparr>cl_confidence := q\<rparr>) env b recovery)
     = map_sum id outcome_of (route dg r c env b recovery)"
  by (rule route_confidence [OF assms])

theorem route_confidence_independent_witness:
  "map_sum id outcome_of (route sample_digests capped_request (plain_classification\<lparr>cl_confidence := 1 / 2\<rparr>)
       sample_environment sample_bundle None)
     = map_sum id outcome_of (route sample_digests capped_request plain_classification
         sample_environment sample_bundle None)"
  by (rule route_confidence_independent [OF sample_bundle_ok])



text \<open>
  Capability before price: when no model of the catalog can serve the request, the answer is
  a capability rejection that no retry can change, whatever the budget says.
\<close>

theorem route_incapable:
  assumes b: "bundle_ok b" and prep: "prepare dg r c env b recovery = Inr ctx"
    and none: "\<forall>(a, m) \<in> set (bundle_models b). \<not> capable r m"
  shows "\<exists>j. route dg r c env b recovery = Inr (Rejection j)
     \<and> rj_failure_type j = CAPABILITY_FAILURE \<and> \<not> rj_retryable j"
proof (rule prepare_Inr [OF prep])
  assume "rc_bundle ctx = b" "rc_request ctx = r"
  with none have "\<forall>(a, m) \<in> set (rc_models ctx). \<not> capable (rc_request ctx) m" by simp
  from select_route_incapable [OF preparedI [OF b prep] this] prep show ?thesis by (simp add: route_def)
qed

theorem route_incapable_witness:
  "\<exists>j. route sample_digests (capped_request\<lparr>rq_requirements := [''audio_input'']\<rparr>) plain_classification
       sample_environment sample_bundle None = Inr (Rejection j) \<and> rj_failure_type j = CAPABILITY_FAILURE"
proof -
  have "isl (prepare sample_digests (capped_request\<lparr>rq_requirements := [''audio_input'']\<rparr>) plain_classification
       sample_environment sample_bundle None) = False" by code_simp
  then obtain ctx where ctx: "prepare sample_digests (capped_request\<lparr>rq_requirements := [''audio_input'']\<rparr>)
      plain_classification sample_environment sample_bundle None = Inr ctx" by (metis sum.collapse(2))
  have "\<forall>(a, m) \<in> set (bundle_models sample_bundle).
      \<not> capable (capped_request\<lparr>rq_requirements := [''audio_input'']\<rparr>) m" by code_simp
  from route_incapable [OF sample_bundle_ok ctx this] show ?thesis by blast
qed

section \<open>Limits, budgets and quotes\<close>

text \<open>
  Overlays only tighten: the effective limits are at least as strict as the caller's
  constraints, as the trusted overlay of the snapshot and as the configured overlay of the
  application, and outside synthetic snapshots as the deployment budget and the configured
  defaults; a period ceiling and its period accompany each other.
\<close>

theorem limits_only_tighten:
  assumes "resolve_limits r env b = Inr l"
  shows "stricter l (rq_constraints r)
     \<and> (env_application_overlay env \<noteq> None \<longrightarrow> stricter l (the (env_application_overlay env)))
     \<and> (configured_overlay env b \<noteq> None \<longrightarrow>
          (\<exists>k. normalize_limits (the (configured_overlay env b)) (pb_catalog b) = Inr k \<and> stricter l k))
     \<and> (\<not> env_synthetic env \<longrightarrow> stricter l (env_budget env)
          \<and> (\<exists>k. normalize_limits (bd_limits (bud_defaults (pb_budgets b))) (pb_catalog b) = Inr k
               \<and> stricter l k))
     \<and> (lim_period_spend_ceiling_usd l = None) = (lim_period l = None)"
  using resolve_limits_strict [OF assms] resolve_limits_chain [OF assms] by auto

theorem limits_only_tighten_witness:
  "\<exists>l. resolve_limits capped_request sample_environment sample_bundle = Inr l \<and> stricter l (rq_constraints capped_request)"
proof -
  have "\<not> isl (resolve_limits capped_request sample_environment sample_bundle)" by code_simp
  then obtain l where "resolve_limits capped_request sample_environment sample_bundle = Inr l"
    by (metis sum.collapse(2))
  with limits_only_tighten [OF this] show ?thesis by blast
qed

text \<open>
  C32. A quote never undercuts the exact price: whatever the tariff, the known subtotal is at
  least the exact rational price of the buckets and fees it counts, the generation subtotal at
  least the exact price of the tokens, and both are nonnegative.
\<close>

theorem quote_never_undercuts:
  assumes "environment_ok env"
  defines "q \<equiv> \<lambda>dg r m v cur. estimate_cost dg r m env v cur"
  shows "exact_subtotal (exact_breakdown r m env v) \<le> dval (ce_known_subtotal (q dg r m v cur))
     \<and> exact_subtotal (exact_generation (me_pricing m) (rq_context r))
         \<le> dval (ce_generation_subtotal (q dg r m v cur))
     \<and> money_ok (ce_known_subtotal (q dg r m v cur)) \<and> money_ok (ce_generation_subtotal (q dg r m v cur))"
  using estimate_known_subtotal_covers [OF assms(1)] estimate_generation_subtotal_covers
  by (simp add: q_def)

theorem quote_never_undercuts_witness:
  "exact_subtotal (exact_breakdown sample_request luna_model sample_environment sample_requirements)
     \<le> dval (ce_known_subtotal (estimate_cost (dg_quote sample_digests) sample_request luna_model
         sample_environment sample_requirements ''USD''))"
  using quote_never_undercuts [OF sample_environment_ok] by blast

text \<open>
  Fixed-point tariffs are quoted exactly: when no decimal has a positive exponent and the
  token unit is a power of ten, the chosen precision makes every product, quotient and sum exact.
\<close>

theorem quote_exact:
  assumes "fixed_point_quote (me_pricing m) env k" and "token_context_ok (rq_context r)"
  shows "dval (ce_known_subtotal (estimate_cost dg r m env v cur)) = exact_subtotal (exact_breakdown r m env v)"
  by (rule estimate_exact [OF assms])

theorem quote_exact_witness:
  "dval (ce_known_subtotal (estimate_cost (dg_quote sample_digests) sample_request luna_model
       sample_environment sample_requirements ''USD''))
     = exact_subtotal (exact_breakdown sample_request luna_model sample_environment sample_requirements)"
proof (rule quote_exact [where k = 1])
  show "fixed_point_quote (me_pricing luna_model) sample_environment 1" by code_simp
  show "token_context_ok (rq_context sample_request)" by code_simp
qed

text \<open>
  The quote's status: it is known exactly when every bucket and every required fee has a
  price, and only then carries an amount, which is the known subtotal.
\<close>

lemma quote_status:
  assumes "environment_ok env"
  shows "(ce_status (estimate_cost dg r m env v cur) = Cost_known
        \<longleftrightarrow> (\<forall>e \<in> set (exact_breakdown r m env v). snd e \<noteq> None))
     \<and> cost_coherent (estimate_cost dg r m env v cur)
     \<and> (ce_status (estimate_cost dg r m env v cur) = Cost_known \<longrightarrow>
          ce_amount (estimate_cost dg r m env v cur) = Some (ce_known_subtotal (estimate_cost dg r m env v cur)))"
  using estimate_unknown_iff [OF assms] estimate_status_iff estimate_coherent estimate_amount by metis

text \<open>
  The settlement arithmetic of the executor is exact: the difference of an amount and a list
  of debits, computed in a context sized from the operands, is the rational difference.
\<close>

theorem settlement_arithmetic_exact:
  "dval (money_difference v debits) = dval v - sum_list (map dval debits)
     \<and> dval (money_sum vs) = sum_list (map dval vs)"
  by (simp add: money_difference_exact money_sum_exact)

section \<open>Planning and validation\<close>

text \<open>
  Planning fails only on a classification outside the policy's vocabulary or ranges, with an
  \<open>InputError\<close>; on every other classification an accepted bundle yields a plan.
\<close>

theorem planning_total:
  assumes "bundle_ok b"
  shows "(\<exists>plan. build_candidates c b l = Inr plan)
     = (validated_classification c (pb_policy b) = Inr (component_items (cl_components c)))
   \<and> (\<forall>e. build_candidates c b l = Inl e \<longrightarrow> e = InputError)"
  using build_candidates_total [OF assms] by blast

theorem planning_total_witness:
  "\<exists>plan. build_candidates plain_classification sample_bundle no_limits = Inr plan"
proof -
  have "validated_classification plain_classification (pb_policy sample_bundle)
      = Inr (component_items (cl_components plain_classification))" by code_simp
  with planning_total [OF sample_bundle_ok] show ?thesis by blast
qed

text \<open>
  C33. The candidate plan is a finite enumeration without repetition, of pairs the catalog can
  serve, ordered prior, modifier, floor, fallback, and it misses no enabled model within the tier
  bounds.
\<close>

theorem plan_sound_and_complete:
  assumes b: "bundle_ok b" and plan: "build_candidates c b l = Inr plan"
  shows "distinct (map cand_pair (plan_candidates plan))
     \<and> (\<forall>cand \<in> set (plan_candidates plan). supported_pair (bundle_models b) (cand_pair cand))
     \<and> sorted (map (source_index \<circ> cand_source) (plan_candidates plan))
     \<and> (\<forall>(a, m) \<in> set (bundle_models b). configured_enabled m \<and> within_limits (me_tier_rank m) l
          \<longrightarrow> a \<in> set (map cand_model (plan_candidates plan)))"
  using plan_pairs_distinct [OF plan] plan_pairs_supported [OF b plan] plan_sources_sorted [OF plan]
    plan_complete [OF b plan] by blast

theorem plan_sound_and_complete_witness:
  "\<exists>plan. build_candidates plain_classification sample_bundle no_limits = Inr plan
     \<and> distinct (map cand_pair (plan_candidates plan))"
proof -
  have "\<not> isl (build_candidates plain_classification sample_bundle no_limits)" by code_simp
  then obtain plan where "build_candidates plain_classification sample_bundle no_limits = Inr plan"
    by (metis sum.collapse(2))
  with plan_sound_and_complete [OF sample_bundle_ok this] show ?thesis by blast
qed

text \<open>
  A matching floor rule binds: the hard floor of the plan is at least the tier of every
  matching hard rule, the preferred floor at least that of every matching preferred rule, and the
  matched rules are reported in policy order.
\<close>

theorem plan_floors_bind:
  assumes b: "bundle_ok b" and plan: "build_candidates c b l = Inr plan"
  defines "items \<equiv> component_items (cl_components c)"
  shows "(\<forall>rule \<in> set (pol_task_family_floors (pb_policy b)). matches (fr_match rule) c items \<longrightarrow>
       (\<exists>rank. tier_table (bundle_models b) (fr_min_tier rule) = Some rank
          \<and> rank \<le> (if fr_strength rule = Strength_hard then plan_hard_floor plan else plan_preferred_floor plan)))
     \<and> plan_matched_rules plan
         = map fr_id (filter (\<lambda>rule. matches (fr_match rule) c items) (pol_task_family_floors (pb_policy b)))
           @ map md_id (filter (\<lambda>rule. matches (md_match rule) c items) (pol_modifiers (pb_policy b)))"
proof -
  have "\<exists>rank. tier_table (bundle_models b) (fr_min_tier rule) = Some rank"
    if "rule \<in> set (pol_task_family_floors (pb_policy b))" for rule
    using bundle_okD(5) [OF b] that by (auto simp: policy_refs_ok_def list_all_iff)
  with plan_floor_binds [OF b plan] plan_matched_rules_eq [OF plan] show ?thesis
    unfolding items_def by metis
qed

theorem plan_floors_bind_witness:
  "\<exists>plan. build_candidates sample_classification sample_bundle no_limits = Inr plan
     \<and> plan_matched_rules plan = [''substantive_coding'']"
proof -
  have "\<not> isl (build_candidates sample_classification sample_bundle no_limits)" by code_simp
  then obtain plan where plan: "build_candidates sample_classification sample_bundle no_limits = Inr plan"
    by (metis sum.collapse(2))
  have "map fr_id (filter (\<lambda>rule. matches (fr_match rule) sample_classification
          (component_items (cl_components sample_classification))) (pol_task_family_floors (pb_policy sample_bundle)))
       @ map md_id (filter (\<lambda>rule. matches (md_match rule) sample_classification
          (component_items (cl_components sample_classification))) (pol_modifiers (pb_policy sample_bundle)))
     = [''substantive_coding'']" by code_simp
  with plan plan_floors_bind [OF sample_bundle_ok plan] show ?thesis by metis
qed

text \<open>
  Validation requirements: on an accepted bundle they are always determined, the selected
  profiles do not repeat, hold the consequence default and every requested level, are closed
  under reference, and the reported level is their maximum; an evaluator is required exactly when
  one of the two semantic profiles is selected.
\<close>

theorem validation_requirements_sound:
  assumes b: "bundle_ok b"
  shows "\<exists>req. determine_validation r env b = Inr req \<and> distinct (vr_profiles req)
     \<and> (\<forall>n \<in> set (vr_profiles req). set (profile_edges (pb_validation b) n) \<subseteq> set (vr_profiles req))
     \<and> vr_level req = Max (set (vr_profiles req))
     \<and> (\<forall>l. rq_requested_validation r = Some l \<or> env_requested_validation env = Some l
          \<longrightarrow> l \<in> set (vr_profiles req))
     \<and> (vr_evaluator_required req \<longleftrightarrow> V1 \<in> set (vr_profiles req) \<or> V2 \<in> set (vr_profiles req))"
proof -
  obtain req where req: "determine_validation r env b = Inr req" using determine_validation_total [OF b] by blast
  from determine_validation_profiles [OF b req] determine_validation_evaluator [OF b req] req
  show ?thesis by blast
qed

theorem validation_requirements_sound_witness:
  "\<exists>req. determine_validation sample_request sample_environment sample_bundle = Inr req \<and> distinct (vr_profiles req)"
  using validation_requirements_sound [OF sample_bundle_ok] by blast

text \<open>
  Gates fail closed: a required approval or domain clearance without evidence, a selected
  semantic profile whose evaluator is disabled and the domain profile, whose validator the schema
  leaves unset, each block execution, unless a synthetic snapshot mocks the profile.
\<close>

theorem validation_gates_closed:
  assumes b: "bundle_ok b" and req: "determine_validation r env b = Inr req" and clear: "vr_blockers req = []"
  shows "(vr_approval_required req \<longrightarrow> rq_approval_evidence r)
     \<and> (''domain_clearance_required'' \<in> set (vr_execution_restrictions req) \<longrightarrow> rq_domain_clearance_evidence r)
     \<and> (V3 \<in> set (vr_profiles req) \<longrightarrow> is_mock env V3)
     \<and> (\<forall>n k base ref e. n \<in> set (vr_profiles req)
          \<and> map_of (val_profiles (pb_validation b)) n = Some (SemanticProfile k base ref)
          \<and> map_of (val_evaluators (pb_validation b)) ref = Some e \<longrightarrow> is_mock env n \<or> ev_enabled e)"
  using gate_blocks [OF b req] domain_profile_blocks [OF b req] evaluator_blocks [OF b req] clear
  by (metis empty_iff list.set(1))

theorem validation_gates_closed_witness:
  "\<exists>req. determine_validation sample_request sample_environment sample_bundle = Inr req
     \<and> (vr_approval_required req \<longrightarrow> rq_approval_evidence sample_request)"
proof -
  have "(case determine_validation sample_request sample_environment sample_bundle of
      Inr req \<Rightarrow> vr_blockers req = [] | Inl e \<Rightarrow> False)" by code_simp
  then obtain req where "determine_validation sample_request sample_environment sample_bundle = Inr req"
    "vr_blockers req = []" by (auto split: sum.splits)
  with validation_gates_closed [OF sample_bundle_ok this] show ?thesis by blast
qed

end
